(* ===== verification/Prelude.thy ===== *)
theory Prelude
  imports Complex_Main "HOL-Library.AList" "HOL-Library.Sublist"
begin

text \<open>
  Shared vocabulary of the development: the collections of simplification rules the
  component theories extend, bounded suffixes of lists (what a ring buffer or a capped
  window keeps), pruning of time-stamped histories, and the operations of Go's
  \<open>strings\<close> package the sources call. A Go string is a list of bytes, so \<open>string\<close> is its
  model and \<open>length\<close> is \<open>len\<close>.
\<close>

named_theorems time_simps \<open>operations on instants and durations\<close>
named_theorems gate_defs \<open>definitions of the admission gates\<close>
named_theorems store_defs \<open>definitions of the keyed stores\<close>
named_theorems api_defs \<open>definitions of the calls to the cluster\<close>

section \<open>Suffixes of bounded length\<close>

definition lastn :: "nat \<Rightarrow> 'a list \<Rightarrow> 'a list" where
  "lastn n xs = drop (length xs - n) xs"

lemma length_lastn [simp]: "length (lastn n xs) = min n (length xs)"
  by (simp add: lastn_def)

lemma lastn_all: "length xs \<le> n \<Longrightarrow> lastn n xs = xs"
  by (simp add: lastn_def)

lemma lastn_0 [simp]: "lastn 0 xs = []"
  by (simp add: lastn_def)

lemma lastn_Nil [simp]: "lastn n [] = []"
  by (simp add: lastn_def)

lemma set_lastn_subset: "set (lastn n xs) \<subseteq> set xs"
  by (simp add: lastn_def set_drop_subset)

lemma suffix_lastn: "suffix (lastn n xs) xs"
  by (simp add: lastn_def suffix_drop)

lemma lastn_append: "lastn n (xs @ ys) = lastn (n - length ys) xs @ lastn n ys"
  by (cases "n \<le> length ys") (auto simp: lastn_def)

lemma lastn_snoc: "0 < n \<Longrightarrow> lastn n (xs @ [x]) = lastn (n - 1) xs @ [x]"
  by (simp add: lastn_append) (simp add: lastn_def)

lemma lastn_lastn: "lastn m (lastn n xs) = lastn (min m n) xs"
  by (auto simp: lastn_def min_def intro!: arg_cong [of _ _ "\<lambda>k. drop k xs"])

lemma lastn_push: "0 < n \<Longrightarrow> lastn n (lastn n xs @ [x]) = lastn n (xs @ [x])"
  by (simp add: lastn_snoc lastn_lastn)

lemma last_lastn: "0 < n \<Longrightarrow> xs \<noteq> [] \<Longrightarrow> last (lastn n xs) = last xs"
  by (simp add: lastn_def last_drop)

lemma nth_lastn: "i < min n (length xs) \<Longrightarrow> lastn n xs ! i = xs ! (length xs - min n (length xs) + i)"
  by (cases "n \<le> length xs") (auto simp: lastn_def min_def)

section \<open>Bounded logs\<close>

text \<open>
  The contract of a bounded log: pushing keeps the newest \<open>capacity\<close> entries, in order.
  The circular buffer of the time-series package and the event ring of a process node
  both provide it.
\<close>

locale bounded_log =
  fixes push :: "'a \<Rightarrow> 'b \<Rightarrow> 'b"
    and contents :: "'b \<Rightarrow> 'a list"
    and capacity :: "'b \<Rightarrow> nat"
    and wf :: "'b \<Rightarrow> bool"
  assumes push_contents: "wf b \<Longrightarrow> contents (push x b) = lastn (capacity b) (contents b @ [x])"
    and push_capacity: "wf b \<Longrightarrow> capacity (push x b) = capacity b"
    and push_wf: "wf b \<Longrightarrow> wf (push x b)"
    and wf_pos: "wf b \<Longrightarrow> 0 < capacity b"
    and wf_le: "wf b \<Longrightarrow> length (contents b) \<le> capacity b"
begin

lemma fold_push_wf: "wf b \<Longrightarrow> wf (fold push xs b) \<and> capacity (fold push xs b) = capacity b"
  by (induction xs arbitrary: b) (auto simp: push_wf push_capacity)

lemma fold_push_contents:
  "wf b \<Longrightarrow> contents (fold push xs b) = lastn (capacity b) (contents b @ xs)"
proof (induction xs arbitrary: b)
  case Nil
  then show ?case by (simp add: lastn_all wf_le)
next
  case (Cons x xs)
  then have "contents (fold push (x # xs) b)
      = lastn (capacity b) (lastn (capacity b) (contents b @ [x]) @ xs)"
    by (simp add: push_wf push_capacity push_contents)
  also have "\<dots> = lastn (capacity b) ((contents b @ [x]) @ xs)"
    by (simp only: lastn_append lastn_lastn) (simp add: min_def)
  finally show ?case by simp
qed

lemma push_newest: "wf b \<Longrightarrow> contents (push x b) \<noteq> [] \<and> last (contents (push x b)) = x"
  by (simp add: push_contents wf_pos lastn_snoc)

lemma fold_push_length: "wf b \<Longrightarrow> length (contents (fold push xs b)) \<le> capacity b"
  by (simp add: fold_push_contents)

end

section \<open>Go strings\<close>

definition HasPrefix :: "string \<Rightarrow> string \<Rightarrow> bool" where
  "HasPrefix s p = prefix p s"

definition HasSuffix :: "string \<Rightarrow> string \<Rightarrow> bool" where
  "HasSuffix s p = suffix p s"

definition TrimPrefix :: "string \<Rightarrow> string \<Rightarrow> string" where
  "TrimPrefix s p = (if HasPrefix s p then drop (length p) s else s)"

definition TrimSuffix :: "string \<Rightarrow> string \<Rightarrow> string" where
  "TrimSuffix s p = (if HasSuffix s p then take (length s - length p) s else s)"

text \<open>\<open>strings.Split\<close> with a one-byte separator; never empty.\<close>

fun split_on :: "char \<Rightarrow> string \<Rightarrow> string list" where
  "split_on c [] = [[]]"
| "split_on c (x # xs) =
     (if x = c then [] # split_on c xs
      else case split_on c xs of [] \<Rightarrow> [[x]] | w # ws \<Rightarrow> (x # w) # ws)"

lemma split_on_nonempty [simp]: "split_on c s \<noteq> []"
  by (induction s) (auto split: list.splits)

fun join_with :: "char \<Rightarrow> string list \<Rightarrow> string" where
  "join_with c [] = []"
| "join_with c [w] = w"
| "join_with c (w # v # ws) = w @ c # join_with c (v # ws)"

lemma join_split [simp]: "join_with c (split_on c s) = s"
proof (induction s)
  case (Cons x xs)
  obtain w ws where w: "split_on c xs = w # ws" by (cases "split_on c xs") auto
  with Cons show ?case by (cases ws) auto
qed simp

lemma split_on_no_sep: "w \<in> set (split_on c s) \<Longrightarrow> c \<notin> set w"
proof (induction s arbitrary: w)
  case (Cons x xs)
  then show ?case
    by (cases "split_on c xs") (auto split: if_splits)
qed simp

text \<open>\<open>strings.Contains\<close>.\<close>

definition str_contains :: "string \<Rightarrow> string \<Rightarrow> bool" where
  "str_contains s sub = sublist sub s"

text \<open>ASCII white space, as \<open>strings.TrimSpace\<close> strips it from ASCII input.\<close>

definition is_space :: "char \<Rightarrow> bool" where
  "is_space c = (c \<in> set [CHR ''\<newline>'', CHR 0x09, CHR 0x0B, CHR 0x0C, CHR 0x0D, CHR '' ''])"

definition TrimSpace :: "string \<Rightarrow> string" where
  "TrimSpace s = rev (dropWhile is_space (rev (dropWhile is_space s)))"

text \<open>Decimal digits.\<close>

definition is_digit_char :: "char \<Rightarrow> bool" where
  "is_digit_char c = (48 \<le> (of_char c :: int) \<and> (of_char c :: int) \<le> 57)"

definition digit_value_int :: "char \<Rightarrow> int" where
  "digit_value_int c = of_char c - 48"

end
