(* ===== verification/GoFloat.thy ===== *)
theory GoFloat
  imports Prelude "HOL-Library.Log_Nat"
begin

text \<open>
  The \<open>float64\<close> arithmetic the Go sources use, on finite values. A value is the rational
  number it denotes; every arithmetic operation of the source is the exact rational
  operation followed by \<open>fl64\<close>, the IEEE 754 binary64 rounding (round to nearest, ties to
  even, 53 bits of significand, gradual underflow at \<open>2 powi -1074\<close>). A Go constant such as
  \<open>0.40\<close> that meets a \<open>float64\<close> operand is \<open>fl64 (2/5)\<close>. Products are not fused with the
  sums that follow them, which is how the compiler translates these expressions for amd64.
  Overflow to an infinity and NaN are not represented: every float the modelled code
  handles is a confidence, a score, a fraction or a finite metric value.

  The lemmas say what the clients need: the rounding is monotone, commutes with negation,
  and keeps every integer of at most 53 bits, so that bounds proved on the exact
  expression carry over to the rounded one. They are stated once as the locale
  \<open>rounding\<close> and used through its interpretation \<open>f64\<close>.
\<close>

section \<open>Rounding\<close>

type_synonym f64 = rat

text \<open>The binary exponent: \<open>2 powi (fl_exp x) \<le> \<bar>x\<bar> < 2 powi (fl_exp x + 1)\<close>.\<close>

definition fl_exp :: "rat \<Rightarrow> int" where
  "fl_exp x =
     (let nd = quotient_of \<bar>x\<bar>; e = bitlen (fst nd) - bitlen (snd nd)
      in if 2 powi e \<le> \<bar>x\<bar> then e else e - 1)"

text \<open>Nearest integer, ties to even.\<close>

definition rne :: "rat \<Rightarrow> int" where
  "rne x =
     (let f = \<lfloor>x\<rfloor>; r = x - of_int f
      in if r < 1/2 then f else if 1/2 < r then f + 1 else if even f then f else f + 1)"

text \<open>The exponent of the last place of the result.\<close>

definition fl_ulp :: "rat \<Rightarrow> int" where
  "fl_ulp x = max (fl_exp x - 52) (-1074)"

definition fl64 :: "rat \<Rightarrow> f64" where
  "fl64 x = (if x = 0 then 0 else of_int (rne (x / 2 powi fl_ulp x)) * 2 powi fl_ulp x)"

text \<open>Conversion to an integer type truncates towards zero.\<close>

definition f64_trunc :: "f64 \<Rightarrow> int" where
  "f64_trunc x = (if 0 \<le> x then \<lfloor>x\<rfloor> else - \<lfloor>- x\<rfloor>)"

abbreviation f64_add :: "f64 \<Rightarrow> f64 \<Rightarrow> f64" where
  "f64_add x y \<equiv> fl64 (x + y)"

abbreviation f64_sub :: "f64 \<Rightarrow> f64 \<Rightarrow> f64" where
  "f64_sub x y \<equiv> fl64 (x - y)"

abbreviation f64_mul :: "f64 \<Rightarrow> f64 \<Rightarrow> f64" where
  "f64_mul x y \<equiv> fl64 (x * y)"

text \<open>Division by zero does not occur in the modelled code: each divisor is guarded.\<close>

abbreviation f64_div :: "f64 \<Rightarrow> f64 \<Rightarrow> f64" where
  "f64_div x y \<equiv> fl64 (x / y)"

abbreviation f64_of_int :: "int \<Rightarrow> f64" where
  "f64_of_int i \<equiv> fl64 (of_int i)"

section \<open>Nearest integer\<close>

lemma rne_of_int [simp]: "rne (of_int k) = k"
  by (simp add: rne_def Let_def)

lemma rne_bounds: "of_int (rne x) - 1/2 \<le> x" "x \<le> of_int (rne x) + 1/2"
proof -
  define f :: rat where "f = of_int \<lfloor>x\<rfloor>"
  have "f \<le> x" "x < f + 1"
    unfolding f_def by linarith+
  then show "of_int (rne x) - 1/2 \<le> x" "x \<le> of_int (rne x) + 1/2"
    by (auto simp: rne_def Let_def field_simps split: if_splits simp flip: f_def)
qed

lemma rne_mono: "x \<le> y \<Longrightarrow> rne x \<le> rne y"
proof -
  assume le: "x \<le> y"
  show ?thesis
  proof (cases "\<lfloor>x\<rfloor> = \<lfloor>y\<rfloor>")
    case True
    with le show ?thesis by (auto simp: rne_def Let_def)
  next
    case False
    with le have "\<lfloor>x\<rfloor> + 1 \<le> \<lfloor>y\<rfloor>" using floor_mono [OF le] by linarith
    moreover have "rne x \<le> \<lfloor>x\<rfloor> + 1" "\<lfloor>y\<rfloor> \<le> rne y"
      by (auto simp: rne_def Let_def)
    ultimately show ?thesis by linarith
  qed
qed

lemma rne_le_int: "x \<le> of_int k \<Longrightarrow> rne x \<le> k"
  using rne_mono [of x "of_int k"] by simp

lemma rne_ge_int: "of_int k \<le> x \<Longrightarrow> k \<le> rne x"
  using rne_mono [of "of_int k" x] by simp

lemma rne_near: "\<bar>x - of_int k\<bar> < 1/2 \<Longrightarrow> rne x = k"
proof -
  assume a: "\<bar>x - of_int k\<bar> < 1/2"
  have "of_int (rne x) < (of_int (k + 1) :: rat)" "of_int k < (of_int (rne x + 1) :: rat)"
    using rne_bounds [of x] a by (auto simp: abs_if split: if_splits)
  then have "rne x < k + 1" "k < rne x + 1"
    by (simp_all only: of_int_less_iff)
  then show ?thesis by linarith
qed

lemma floor_uminus_rat:
  fixes x :: rat
  shows "\<lfloor>- x\<rfloor> = (if x = of_int \<lfloor>x\<rfloor> then - \<lfloor>x\<rfloor> else - \<lfloor>x\<rfloor> - 1)"
proof (cases "x = of_int \<lfloor>x\<rfloor>")
  case True
  then have "\<lfloor>- x\<rfloor> = \<lfloor>of_int (- \<lfloor>x\<rfloor>) :: rat\<rfloor>" by simp
  then have "\<lfloor>- x\<rfloor> = - \<lfloor>x\<rfloor>" by (simp only: floor_of_int)
  then show ?thesis using True by presburger
next
  case False
  have "of_int \<lfloor>x\<rfloor> < x" "x < of_int \<lfloor>x\<rfloor> + 1"
    using False by (metis of_int_floor_le order_le_less) linarith
  then have "\<lfloor>- x\<rfloor> = - \<lfloor>x\<rfloor> - 1"
    by (intro floor_unique) simp_all
  then show ?thesis using False by simp
qed

lemma rne_uminus: "rne (- x) = - rne x"
proof (cases "x = of_int \<lfloor>x\<rfloor>")
  case True
  then show ?thesis
    by (metis of_int_minus rne_of_int)
next
  case False
  define f where "f = \<lfloor>x\<rfloor>"
  have f: "\<lfloor>- x\<rfloor> = - f - 1" using False by (simp add: floor_uminus_rat f_def)
  show ?thesis
    unfolding rne_def Let_def f f_def [symmetric]
    by (auto simp: algebra_simps)
qed

section \<open>The exponent\<close>

lemma powi_add_rat: "(2::rat) powi (a + b) = 2 powi a * 2 powi b"
  by (simp add: power_int_add)

lemma powi_pos_rat [simp]: "(0::rat) < 2 powi a"
  by simp

lemma powi_mono_rat: "a \<le> b \<Longrightarrow> (2::rat) powi a \<le> 2 powi b"
  by (intro power_int_increasing) auto

lemma powi_less_rat: "(2::rat) powi a < 2 powi b \<Longrightarrow> a < b"
  by (metis linorder_not_le powi_mono_rat)

lemma bitlen_powi:
  assumes "0 < n"
  shows "2 powi (bitlen n - 1) \<le> (of_int n :: rat)" "(of_int n :: rat) < 2 powi (bitlen n)"
proof -
  have b: "0 < bitlen n" using assms by (metis bitlen_eq_zero_iff bitlen_nonneg less_le_not_le order_less_le)
  have "2 ^ nat (bitlen n - 1) \<le> n" "n < 2 ^ nat (bitlen n)"
    using bitlen_bounds [OF assms] by auto
  then have "(2::rat) ^ nat (bitlen n - 1) \<le> of_int n" "of_int n < (2::rat) ^ nat (bitlen n)"
    by (metis of_int_le_iff of_int_numeral of_int_power, metis of_int_less_iff of_int_numeral of_int_power)
  then show "2 powi (bitlen n - 1) \<le> (of_int n :: rat)" "(of_int n :: rat) < 2 powi (bitlen n)"
    using b by (simp_all add: power_int_def)
qed

lemma fl_exp_bounds:
  assumes "x \<noteq> 0"
  shows "2 powi (fl_exp x) \<le> \<bar>x\<bar>" "\<bar>x\<bar> < 2 powi (fl_exp x + 1)"
proof -
  obtain n d where q: "quotient_of \<bar>x\<bar> = (n, d)" by fastforce
  have d: "0 < d" using q quotient_of_denom_pos by blast
  have x: "\<bar>x\<bar> = of_int n / of_int d" using q quotient_of_div by blast
  have n: "0 < n" using x d assms by (metis of_int_0_less_iff zero_less_abs_iff zero_less_divide_iff order.asym)
  define e where "e = bitlen n - bitlen d"
  have up: "\<bar>x\<bar> < 2 powi (e + 1)"
  proof -
    have "(of_int n :: rat) < 2 powi (e + 1) * 2 powi (bitlen d - 1)"
      using bitlen_powi [OF n] by (simp add: e_def flip: powi_add_rat)
    also have "\<dots> \<le> 2 powi (e + 1) * of_int d"
      using bitlen_powi [OF d] by (intro mult_left_mono) auto
    finally show ?thesis using d by (simp add: x field_simps)
  qed
  have lo: "2 powi (e - 1) \<le> \<bar>x\<bar>"
  proof -
    have "2 powi (e - 1) * of_int d \<le> 2 powi (e - 1) * (2 powi (bitlen d) :: rat)"
      using bitlen_powi [OF d] by (intro mult_left_mono) auto
    also have "\<dots> = 2 powi (bitlen n - 1)" by (simp add: e_def flip: powi_add_rat)
    also have "\<dots> \<le> of_int n" using bitlen_powi [OF n] by simp
    finally show ?thesis using d by (simp add: x field_simps)
  qed
  have e: "fl_exp x = (if 2 powi e \<le> \<bar>x\<bar> then e else e - 1)"
    by (simp add: fl_exp_def q e_def Let_def)
  show "2 powi (fl_exp x) \<le> \<bar>x\<bar>" "\<bar>x\<bar> < 2 powi (fl_exp x + 1)"
    using up lo by (auto simp: e not_le)
qed

lemma fl_exp_unique: "x \<noteq> 0 \<Longrightarrow> 2 powi e \<le> \<bar>x\<bar> \<Longrightarrow> \<bar>x\<bar> < 2 powi (e + 1) \<Longrightarrow> fl_exp x = e"
  using fl_exp_bounds [of x] powi_less_rat [of e "fl_exp x + 1"] powi_less_rat [of "fl_exp x" "e + 1"]
  by linarith

lemma fl_exp_mono: "0 < x \<Longrightarrow> x \<le> y \<Longrightarrow> fl_exp x \<le> fl_exp y"
  using fl_exp_bounds [of x] fl_exp_bounds [of y] powi_less_rat [of "fl_exp x" "fl_exp y + 1"]
  by (auto simp: abs_of_pos)

lemma fl_exp_abs [simp]: "fl_exp \<bar>x\<bar> = fl_exp x"
  by (simp add: fl_exp_def)

lemma fl_exp_uminus [simp]: "fl_exp (- x) = fl_exp x"
  by (simp add: fl_exp_def)

lemma fl_ulp_uminus [simp]: "fl_ulp (- x) = fl_ulp x"
  by (simp add: fl_ulp_def)

section \<open>The rounding\<close>

lemma fl64_0 [simp]: "fl64 0 = 0"
  by (simp add: fl64_def)

lemma fl64_uminus: "fl64 (- x) = - fl64 x"
  by (simp add: fl64_def rne_uminus)

text \<open>A multiple of a power of two in the range of the significand is kept.\<close>

lemma fl64_exact:
  assumes x: "x = of_int k * 2 powi q" and q: "fl_ulp x \<le> q"
  shows "fl64 x = x"
proof (cases "x = 0")
  case False
  have "x / 2 powi fl_ulp x = of_int k * 2 powi (q - fl_ulp x)"
    by (subst x) (simp add: power_int_diff)
  also have "\<dots> = of_int (k * 2 ^ nat (q - fl_ulp x))"
    using q by (simp add: power_int_def)
  finally have "rne (x / 2 powi fl_ulp x) = k * 2 ^ nat (q - fl_ulp x)"
    and "x / 2 powi fl_ulp x = of_int (k * 2 ^ nat (q - fl_ulp x))"
    by (simp_all only: rne_of_int)
  then have "of_int (rne (x / 2 powi fl_ulp x)) = x / 2 powi fl_ulp x" by simp
  then show ?thesis using False by (simp add: fl64_def)
qed simp

lemma fl_exp_powi: "fl_exp (2 powi e) = e"
  by (rule fl_exp_unique) (auto simp: power_int_add)

lemma fl64_powi: "-1074 \<le> e \<Longrightarrow> fl64 (2 powi e) = 2 powi e"
  by (rule fl64_exact [where k = 1 and q = e]) (auto simp: fl_ulp_def fl_exp_powi)

lemma fl64_of_int:
  assumes "\<bar>k\<bar> \<le> 2 ^ 53"
  shows "fl64 (of_int k) = of_int k"
proof -
  consider "k = 0" | "k \<noteq> 0" "\<bar>k\<bar> < 2 ^ 53" | "k = 2 ^ 53" | "k = - (2 ^ 53)"
    using assms by (cases "\<bar>k\<bar> = 2 ^ 53") (auto simp: abs_if split: if_splits)
  then show ?thesis
  proof cases
    case 2
    have "\<bar>of_int k :: rat\<bar> < 2 powi 53" using 2(2) by simp
    moreover have "2 powi fl_exp (of_int k) \<le> \<bar>of_int k :: rat\<bar>"
      using 2(1) by (intro fl_exp_bounds) simp
    ultimately have "fl_exp (of_int k) < 53"
      by (intro powi_less_rat) (rule order.strict_trans1)
    then show ?thesis
      by (intro fl64_exact [where k = k and q = 0]) (auto simp: fl_ulp_def)
  next
    case 3
    then show ?thesis using fl64_powi [of 53] by simp
  next
    case 4
    then show ?thesis using fl64_powi [of 53] by (simp add: fl64_uminus)
  qed simp
qed

text \<open>The same for any multiple of a power of two with a 53-bit coefficient.\<close>

lemma fl64_dyadic:
  assumes "\<bar>k\<bar> < 2 ^ 53" "-1074 \<le> q"
  shows "fl64 (of_int k * 2 powi q) = of_int k * 2 powi q"
proof (cases "k = 0")
  case False
  have "\<bar>of_int k :: rat\<bar> < 2 powi 53" using assms(1) by simp
  then have "\<bar>of_int k * 2 powi q :: rat\<bar> < 2 powi (53 + q)"
    by (simp add: abs_mult power_int_add)
  moreover have "2 powi fl_exp (of_int k * 2 powi q) \<le> \<bar>of_int k * 2 powi q :: rat\<bar>"
    using False by (intro fl_exp_bounds) simp
  ultimately have "fl_exp (of_int k * 2 powi q) < 53 + q"
    by (intro powi_less_rat) (rule order.strict_trans1)
  then show ?thesis
    using assms(2) by (intro fl64_exact [where k = k and q = q]) (auto simp: fl_ulp_def)
qed simp

lemma fl64_half: "\<bar>k\<bar> < 2 ^ 53 \<Longrightarrow> fl64 (of_int k / 2) = of_int k / 2"
  using fl64_dyadic [of k "-1"] by (simp add: power_int_minus)

lemma fl64_1 [simp]: "fl64 1 = 1"
  using fl64_of_int [of 1] by simp

lemma fl64_of_nat: "k \<le> 2 ^ 53 \<Longrightarrow> fl64 (of_nat k) = of_nat k"
  using fl64_of_int [of "int k"] by simp

lemma fl64_le_powi:
  assumes "0 < x" "x \<le> 2 powi e" "fl_ulp x \<le> e"
  shows "fl64 x \<le> 2 powi e"
proof -
  have "x / 2 powi fl_ulp x \<le> 2 powi (e - fl_ulp x)"
    using assms by (simp add: power_int_diff divide_right_mono)
  also have "\<dots> = of_int (2 ^ nat (e - fl_ulp x))"
    using assms by (simp add: power_int_def)
  finally have "rne (x / 2 powi fl_ulp x) \<le> 2 ^ nat (e - fl_ulp x)"
    by (rule rne_le_int)
  then have "(of_int (rne (x / 2 powi fl_ulp x)) :: rat) \<le> 2 powi (e - fl_ulp x)"
    using assms by (simp add: power_int_def flip: of_int_le_iff)
  then show ?thesis
    using assms by (simp add: fl64_def power_int_diff field_simps)
qed

lemma fl64_ge_powi:
  assumes "0 < x" "2 powi e \<le> x" "fl_ulp x \<le> e"
  shows "2 powi e \<le> fl64 x"
proof -
  have "of_int (2 ^ nat (e - fl_ulp x)) = (2 powi (e - fl_ulp x) :: rat)"
    using assms by (simp add: power_int_def)
  also have "\<dots> \<le> x / 2 powi fl_ulp x"
    using assms by (simp add: power_int_diff divide_right_mono)
  finally have "2 ^ nat (e - fl_ulp x) \<le> rne (x / 2 powi fl_ulp x)"
    by (rule rne_ge_int)
  then have "2 powi (e - fl_ulp x) \<le> (of_int (rne (x / 2 powi fl_ulp x)) :: rat)"
    using assms by (simp add: power_int_def flip: of_int_le_iff)
  then show ?thesis
    using assms by (simp add: fl64_def power_int_diff field_simps)
qed

lemma fl64_nonneg: "0 \<le> x \<Longrightarrow> 0 \<le> fl64 x"
proof -
  assume "0 \<le> x"
  then have "of_int 0 \<le> x / 2 powi fl_ulp x" by simp
  then have "0 \<le> rne (x / 2 powi fl_ulp x)" by (rule rne_ge_int)
  then show ?thesis by (simp add: fl64_def)
qed

lemma fl64_mono_pos:
  assumes "0 < x" "x \<le> y"
  shows "fl64 x \<le> fl64 y"
proof (cases "fl_ulp x = fl_ulp y")
  case True
  have "x / 2 powi fl_ulp y \<le> y / 2 powi fl_ulp y"
    using assms by (simp add: divide_right_mono)
  then have "rne (x / 2 powi fl_ulp y) \<le> rne (y / 2 powi fl_ulp y)" by (rule rne_mono)
  then show ?thesis using assms True by (simp add: fl64_def mult_right_mono)
next
  case False
  have "fl_exp x \<le> fl_exp y" using assms by (rule fl_exp_mono)
  with False have lt: "fl_ulp x < fl_ulp y" "fl_ulp y = fl_exp y - 52" "fl_exp x < fl_exp y"
    by (auto simp: fl_ulp_def)
  have "x < 2 powi (fl_exp x + 1)" using fl_exp_bounds [of x] assms by simp
  also have "\<dots> \<le> 2 powi (fl_exp y)" using lt by (intro powi_mono_rat) simp
  finally have "fl64 x \<le> 2 powi (fl_exp y)"
    using assms lt by (intro fl64_le_powi) auto
  also have "\<dots> \<le> fl64 y"
    using fl_exp_bounds [of y] assms lt by (intro fl64_ge_powi) auto
  finally show ?thesis .
qed

lemma fl64_mono: "x \<le> y \<Longrightarrow> fl64 x \<le> fl64 y"
proof -
  assume le: "x \<le> y"
  consider "0 < x" | "x \<le> 0" "0 \<le> y" | "y < 0" using le by linarith
  then show ?thesis
  proof cases
    case 1
    with le show ?thesis by (rule fl64_mono_pos [rotated -1])
  next
    case 2
    then have "0 \<le> fl64 (- x)" "0 \<le> fl64 y" by (auto intro: fl64_nonneg)
    then show ?thesis by (simp add: fl64_uminus)
  next
    case 3
    with le have "fl64 (- y) \<le> fl64 (- x)" by (intro fl64_mono_pos) auto
    then show ?thesis by (simp add: fl64_uminus)
  qed
qed

text \<open>A rounded value is kept: a result beyond its binade is the next power of two.\<close>

lemma fl64_abs: "\<bar>fl64 x\<bar> = fl64 \<bar>x\<bar>"
  using fl64_nonneg [of x] fl64_nonneg [of "- x"] by (auto simp: abs_if fl64_uminus)

lemma fl64_le_next: "x \<noteq> 0 \<Longrightarrow> \<bar>fl64 x\<bar> \<le> 2 powi (max (fl_exp x + 1) (fl_ulp x))"
proof -
  assume x: "x \<noteq> 0"
  have "\<bar>x\<bar> \<le> 2 powi (fl_exp x + 1)" using fl_exp_bounds [OF x] by simp
  also have "\<dots> \<le> 2 powi (max (fl_exp x + 1) (fl_ulp x))" by (rule powi_mono_rat) simp
  finally have "fl64 \<bar>x\<bar> \<le> 2 powi (max (fl_exp x + 1) (fl_ulp x))"
    using x by (intro fl64_le_powi) (auto simp: fl_ulp_def)
  then show ?thesis by (simp add: fl64_abs)
qed

lemma fl64_idem: "fl64 (fl64 x) = fl64 x"
proof (cases "fl64 x = 0")
  case nz: False
  then have x: "x \<noteq> 0" by auto
  let ?E = "max (fl_exp x + 1) (fl_ulp x)"
  have E: "-1074 \<le> ?E" by (auto simp: fl_ulp_def)
  show ?thesis
  proof (cases "\<bar>fl64 x\<bar> = 2 powi ?E")
    case True
    then have "fl64 \<bar>fl64 x\<bar> = \<bar>fl64 x\<bar>" using fl64_powi [OF E] by simp
    then show ?thesis by (auto simp: abs_if fl64_uminus split: if_splits)
  next
    case False
    then have lt: "\<bar>fl64 x\<bar> < 2 powi ?E" using fl64_le_next [OF x] by simp
    have "fl_exp (fl64 x) < ?E"
      using fl_exp_bounds(1) [OF nz] lt by (intro powi_less_rat) (rule order.strict_trans1)
    then have "fl_ulp (fl64 x) \<le> fl_ulp x" by (auto simp: fl_ulp_def)
    then show ?thesis
      using x by (intro fl64_exact [where k = "rne (x / 2 powi fl_ulp x)" and q = "fl_ulp x"]) (simp_all add: fl64_def)
  qed
qed simp

section \<open>The contract of the rounding\<close>

text \<open>
  What the scoring components rely on. The client lemmas are proved from the laws alone,
  so they hold for any such rounding; \<open>f64\<close> instantiates them with \<open>fl64\<close>.
\<close>

locale rounding =
  fixes rnd :: "rat \<Rightarrow> rat"
  assumes rnd_mono: "x \<le> y \<Longrightarrow> rnd x \<le> rnd y"
    and rnd_0: "rnd 0 = 0"
    and rnd_1: "rnd 1 = 1"
begin

lemma rnd_ge0: "0 \<le> x \<Longrightarrow> 0 \<le> rnd x"
  using rnd_mono [of 0 x] by (simp add: rnd_0)

lemma rnd_le0: "x \<le> 0 \<Longrightarrow> rnd x \<le> 0"
  using rnd_mono [of x 0] by (simp add: rnd_0)

lemma rnd_le1: "x \<le> 1 \<Longrightarrow> rnd x \<le> 1"
  using rnd_mono [of x 1] by (simp add: rnd_1)

lemma rnd_ge1: "1 \<le> x \<Longrightarrow> 1 \<le> rnd x"
  using rnd_mono [of 1 x] by (simp add: rnd_1)

lemma rnd_unit: "0 \<le> x \<Longrightarrow> x \<le> 1 \<Longrightarrow> 0 \<le> rnd x \<and> rnd x \<le> 1"
  by (simp add: rnd_ge0 rnd_le1)

text \<open>A rounded ratio of two counts, as the code computes its fractions.\<close>

lemma rnd_ratio_unit:
  assumes "0 \<le> a" "a \<le> b" "0 < b"
  shows "0 \<le> rnd (a / b) \<and> rnd (a / b) \<le> 1"
  using assms by (intro rnd_unit) auto

lemma rnd_mul_unit:
  assumes "0 \<le> a" "a \<le> 1" "0 \<le> b" "b \<le> 1"
  shows "0 \<le> rnd (a * b) \<and> rnd (a * b) \<le> 1"
  using assms by (intro rnd_unit) (auto intro: mult_nonneg_nonneg mult_le_one)

text \<open>Subtracting a non-negative amount never raises a value kept by the rounding.\<close>

lemma rnd_sub_le: "0 \<le> y \<Longrightarrow> rnd x = x \<Longrightarrow> rnd (x - y) \<le> x"
  using rnd_mono [of "x - y" x] by simp

lemma rnd_add_ge: "0 \<le> y \<Longrightarrow> rnd x = x \<Longrightarrow> x \<le> rnd (x + y)"
  using rnd_mono [of x "x + y"] by simp

end

interpretation f64: rounding fl64
  by unfold_locales (simp_all add: fl64_mono)

lemmas f64_bounds = f64.rnd_ge0 f64.rnd_le0 f64.rnd_le1 f64.rnd_unit f64.rnd_ratio_unit f64.rnd_mul_unit

lemma f64_trunc_of_int [simp]: "f64_trunc (of_int k) = k"
  by (simp add: f64_trunc_def floor_minus flip: of_int_minus)

lemma f64_trunc_mono: "x \<le> y \<Longrightarrow> f64_trunc x \<le> f64_trunc y"
proof -
  assume le: "x \<le> y"
  have m: "\<lfloor>x\<rfloor> \<le> \<lfloor>y\<rfloor>" "\<lfloor>- y\<rfloor> \<le> \<lfloor>- x\<rfloor>"
    using le by (auto intro: floor_mono)
  show ?thesis
  proof (cases "x < 0 \<and> 0 \<le> y")
    case True
    then have "0 \<le> \<lfloor>- x\<rfloor>" "0 \<le> \<lfloor>y\<rfloor>" by simp_all
    then have "- \<lfloor>- x\<rfloor> \<le> \<lfloor>y\<rfloor>" by linarith
    then show ?thesis using True by (simp add: f64_trunc_def)
  next
    case False
    then show ?thesis using m le by (auto simp: f64_trunc_def)
  qed
qed

end
