(* ===== verification/GoTime.thy ===== *)
theory GoTime
  imports GoFloat
begin

text \<open>
  Go's \<open>time\<close> package as the sources use it. An instant is the integer number of
  nanoseconds since the Unix epoch, a duration a signed count of nanoseconds in the range
  of \<open>int64\<close>. \<open>Time.Sub\<close> saturates at that range, which matters because the zero value of
  \<open>time.Time\<close> (year 1) is further from the present than a duration can express. Every
  reading of the clock is an argument of the operation that makes it; a reading is one
  number, so the monotonic and the wall clock agree. \<open>ParseDuration\<close> follows the library
  routine step by step, since configuration strings such as \<open>60s\<close> or \<open>5m\<close> reach the
  guardrails only through it.
\<close>

section \<open>Instants and durations\<close>

type_synonym instant = int
type_synonym duration = int

definition minDuration :: duration where "minDuration = - (2 ^ 63)"
definition maxDuration :: duration where "maxDuration = 2 ^ 63 - 1"

definition Nanosecond :: duration where "Nanosecond = 1"
definition Millisecond :: duration where "Millisecond = 1000000"
definition Second :: duration where "Second = 1000000000"
definition Minute :: duration where "Minute = 60 * Second"
definition Hour :: duration where "Hour = 60 * Minute"

text \<open>The zero value of \<open>time.Time\<close>: January 1, year 1, 00:00:00 UTC.\<close>

definition zeroTime :: instant where "zeroTime = - 62135596800 * Second"

definition IsZero :: "instant \<Rightarrow> bool" where "IsZero t = (t = zeroTime)"

definition Sub :: "instant \<Rightarrow> instant \<Rightarrow> duration" where
  "Sub t u = max minDuration (min maxDuration (t - u))"

definition After :: "instant \<Rightarrow> instant \<Rightarrow> bool" where "After t u = (u < t)"
definition Before :: "instant \<Rightarrow> instant \<Rightarrow> bool" where "Before t u = (t < u)"

definition Add :: "instant \<Rightarrow> duration \<Rightarrow> instant" where "Add t d = t + d"

text \<open>\<open>time.UnixMilli\<close> and the method \<open>Time.UnixMilli\<close>, and \<open>Duration.Milliseconds\<close>.\<close>

definition UnixMilli :: "int \<Rightarrow> instant" where "UnixMilli ms = ms * Millisecond"
definition to_UnixMilli :: "instant \<Rightarrow> int" where "to_UnixMilli t = t div Millisecond"

definition Milliseconds :: "duration \<Rightarrow> int" where
  "Milliseconds d = sgn d * (\<bar>d\<bar> div Millisecond)"

lemmas unit_defs = Nanosecond_def Millisecond_def Second_def Minute_def Hour_def
  minDuration_def maxDuration_def zeroTime_def

lemma Sub_exact: "minDuration \<le> t - u \<Longrightarrow> t - u \<le> maxDuration \<Longrightarrow> Sub t u = t - u"
  by (simp add: Sub_def)

text \<open>Below the saturation point, comparing a saturated difference is comparing the difference.\<close>

lemma Sub_less_iff: "minDuration < d \<Longrightarrow> d \<le> maxDuration \<Longrightarrow> Sub t u < d \<longleftrightarrow> t - u < d"
  by (auto simp: Sub_def unit_defs)

lemma Sub_mono: "t \<le> t' \<Longrightarrow> Sub t u \<le> Sub t' u"
  by (auto simp: Sub_def)

lemma Sub_range: "minDuration \<le> Sub t u \<and> Sub t u \<le> maxDuration"
  by (auto simp: Sub_def unit_defs)

text \<open>Between the zero time and any instant from the year 1970 on, the difference saturates.\<close>

lemma Sub_zeroTime: "0 \<le> t \<Longrightarrow> Sub t zeroTime = maxDuration"
  by (auto simp: Sub_def unit_defs)

declare Sub_exact [time_simps] IsZero_def [time_simps] After_def [time_simps]
  Before_def [time_simps] Add_def [time_simps]

section \<open>Parsing durations\<close>

text \<open>\<open>leadingInt\<close>: the digits at the front, or no value when they exceed \<open>2 ^ 63\<close>.\<close>

fun leadingInt :: "int \<Rightarrow> string \<Rightarrow> (int \<times> string) option" where
  "leadingInt x [] = Some (x, [])"
| "leadingInt x (c # cs) =
     (if \<not> is_digit_char c then Some (x, c # cs)
      else if x > 2 ^ 63 div 10 then None
      else let x' = x * 10 + digit_value_int c
           in if x' > 2 ^ 63 then None else leadingInt x' cs)"

text \<open>\<open>leadingFraction\<close>: digits after the point; digits that no longer fit are skipped.\<close>

fun leadingFraction :: "int \<Rightarrow> f64 \<Rightarrow> bool \<Rightarrow> string \<Rightarrow> int \<times> f64 \<times> string" where
  "leadingFraction x scale overflow [] = (x, scale, [])"
| "leadingFraction x scale overflow (c # cs) =
     (if \<not> is_digit_char c then (x, scale, c # cs)
      else if overflow then leadingFraction x scale True cs
      else if x > (2 ^ 63 - 1) div 10 then leadingFraction x scale True cs
      else let y = x * 10 + digit_value_int c
           in if y > 2 ^ 63 then leadingFraction x scale True cs
              else leadingFraction y (f64_mul scale 10) False cs)"

definition is_unit_char :: "char \<Rightarrow> bool" where
  "is_unit_char c = (c \<noteq> CHR ''.'' \<and> \<not> is_digit_char c)"

text \<open>The unit table; the two spellings of the micro sign are given as UTF-8 bytes.\<close>

definition unitMap :: "string \<Rightarrow> int option" where
  "unitMap u =
     (if u = ''ns'' then Some 1
      else if u \<in> set [''us'', [CHR 0xC2, CHR 0xB5, CHR ''s''], [CHR 0xCE, CHR 0xBC, CHR ''s'']] then Some 1000
      else if u = ''ms'' then Some 1000000
      else if u = ''s'' then Some 1000000000
      else if u = ''m'' then Some 60000000000
      else if u = ''h'' then Some 3600000000000
      else None)"

text \<open>
  One round of the loop: a number with its unit, as nanoseconds, and the rest of the
  string. No value stands for each of the library's error returns.
\<close>

definition parse_segment :: "string \<Rightarrow> (int \<times> string) option" where
  "parse_segment s =
     (case s of [] \<Rightarrow> None
      | c # _ \<Rightarrow>
         if \<not> (c = CHR ''.'' \<or> is_digit_char c) then None
         else case leadingInt 0 s of None \<Rightarrow> None
         | Some (v, s1) \<Rightarrow>
            let pre = length s \<noteq> length s1;
                dot = (case s1 of [] \<Rightarrow> False | c1 # _ \<Rightarrow> c1 = CHR ''.'');
                (f, scale, s2) = (if dot then leadingFraction 0 1 False (tl s1) else (0, 1, s1));
                post = (dot \<and> length (tl s1) \<noteq> length s2)
            in if \<not> pre \<and> \<not> post then None
               else let u = takeWhile is_unit_char s2; s3 = dropWhile is_unit_char s2
               in if u = [] then None
               else case unitMap u of None \<Rightarrow> None
               | Some unit \<Rightarrow>
                  if v > 2 ^ 63 div unit then None
                  else let v1 = v * unit;
                           v2 = (if f > 0
                                 then v1 + f64_trunc (f64_mul (f64_of_int f) (f64_div (f64_of_int unit) scale))
                                 else v1)
                       in if f > 0 \<and> v2 > 2 ^ 63 then None else Some (v2, s3))"

lemma length_leadingInt: "leadingInt x s = Some (v, r) \<Longrightarrow> length r \<le> length s"
  by (induction x s rule: leadingInt.induct) (auto simp: Let_def split: if_splits)

lemma length_leadingFraction: "leadingFraction x sc ov s = (f, sc', r) \<Longrightarrow> length r \<le> length s"
  by (induction x sc ov s arbitrary: f sc' rule: leadingFraction.induct)
    (auto simp: Let_def split: if_splits intro: le_SucI)

text \<open>What a successful round consists of.\<close>

lemma parse_segmentE:
  assumes "parse_segment s = Some (v, r)"
  obtains v0 s1 t f sc s2 unit where
    "leadingInt 0 s = Some (v0, s1)"
    "(f, sc, s2) = leadingFraction 0 1 False t \<and> length t \<le> length s1 \<or> (f, sc, s2) = (0, 1, s1)"
    "takeWhile is_unit_char s2 \<noteq> []" "r = dropWhile is_unit_char s2"
    "unitMap (takeWhile is_unit_char s2) = Some unit"
    "v = v0 * unit + (if f > 0 then f64_trunc (f64_mul (f64_of_int f) (f64_div (f64_of_int unit) sc)) else 0)"
proof -
  obtain c cs where s: "s = c # cs" using assms by (cases s) (auto simp: parse_segment_def)
  obtain v0 s1 where 1: "leadingInt 0 s = Some (v0, s1)"
    using assms by (cases "leadingInt 0 s") (auto simp: parse_segment_def s split: if_splits)
  define dot where "dot = (case s1 of [] \<Rightarrow> False | c1 # _ \<Rightarrow> c1 = CHR ''.'')"
  obtain f sc s2 where 2: "(if dot then leadingFraction 0 1 False (tl s1) else (0, 1, s1)) = (f, sc, s2)"
    by (cases "if dot then leadingFraction 0 1 False (tl s1) else (0, 1, s1)") blast
  have 3: "(f, sc, s2) = leadingFraction 0 1 False (tl s1) \<and> length (tl s1) \<le> length s1
      \<or> (f, sc, s2) = (0, 1, s1)"
    using 2 by (cases dot) auto
  obtain unit where "takeWhile is_unit_char s2 \<noteq> []" "r = dropWhile is_unit_char s2"
    "unitMap (takeWhile is_unit_char s2) = Some unit"
    "v = v0 * unit + (if f > 0 then f64_trunc (f64_mul (f64_of_int f) (f64_div (f64_of_int unit) sc)) else 0)"
    using assms 1 2
    by (auto simp: parse_segment_def s Let_def simp flip: dot_def
        split: if_splits option.splits)
  with 1 3 show thesis by (rule that)
qed

text \<open>A round consumes at least its unit, so the loop ends.\<close>

lemma parse_segment_shorter:
  assumes "parse_segment s = Some (v, r)"
  shows "length r < length s"
proof -
  obtain v0 s1 t f sc s2 unit where
    h: "leadingInt 0 s = Some (v0, s1)"
      "(f, sc, s2) = leadingFraction 0 1 False t \<and> length t \<le> length s1 \<or> (f, sc, s2) = (0, 1, s1)"
      "takeWhile is_unit_char s2 \<noteq> []" "r = dropWhile is_unit_char s2"
    using assms by (rule parse_segmentE)
  have "length s2 \<le> length s1"
    using h(2) length_leadingFraction [of 0 1 False t f sc s2] by auto
  moreover have "0 < length (takeWhile is_unit_char s2)" using h(3) by simp
  moreover have "length (takeWhile is_unit_char s2) + length r = length s2"
    by (simp add: h(4) flip: length_append)
  ultimately show ?thesis using length_leadingInt [OF h(1)] by linarith
qed

text \<open>The loop over the segments, \<open>d\<close> the nanoseconds so far.\<close>

function parse_segments :: "int \<Rightarrow> string \<Rightarrow> int option" where
  "parse_segments d s =
     (if s = [] then Some d
      else case parse_segment s of None \<Rightarrow> None
      | Some (v, r) \<Rightarrow> if d + v > 2 ^ 63 then None else parse_segments (d + v) r)"
  by pat_completeness auto
termination
  by (relation "measure (\<lambda>(d, s). length s)") (auto dest: parse_segment_shorter)

declare parse_segments.simps [simp del]

definition ParseDuration :: "string \<Rightarrow> duration option" where
  "ParseDuration orig =
     (let neg = (orig \<noteq> [] \<and> hd orig = CHR ''-'');
          s = (if orig \<noteq> [] \<and> hd orig \<in> set [CHR ''-'', CHR ''+''] then tl orig else orig)
      in if s = ''0'' then Some 0
         else if s = [] then None
         else case parse_segments 0 s of None \<Rightarrow> None
         | Some d \<Rightarrow>
            if neg then Some (- d)
            else if d > 2 ^ 63 - 1 then None else Some d)"

lemma digit_nonneg: "is_digit_char c \<Longrightarrow> 0 \<le> digit_value_int c"
  by (simp add: digit_value_int_def is_digit_char_def)

lemma leadingInt_nonneg: "leadingInt x s = Some (v, r) \<Longrightarrow> 0 \<le> x \<Longrightarrow> 0 \<le> v"
  by (induction x s rule: leadingInt.induct)
    (auto simp: Let_def digit_nonneg split: if_splits)

lemma leadingFraction_step:
  "leadingFraction x sc ov (c # cs) = (x, sc, c # cs)
   \<or> leadingFraction x sc ov (c # cs) = leadingFraction x sc True cs
   \<or> is_digit_char c
     \<and> leadingFraction x sc ov (c # cs) = leadingFraction (x * 10 + digit_value_int c) (f64_mul sc 10) False cs"
  by (simp add: Let_def)

lemma leadingFraction_nonneg:
  "leadingFraction x sc ov s = (f, sc', r) \<Longrightarrow> 0 \<le> x \<Longrightarrow> 0 \<le> sc \<Longrightarrow> 0 \<le> f \<and> 0 \<le> sc'"
proof (induction s arbitrary: x sc ov)
  case (Cons c cs)
  have m: "0 \<le> f64_mul sc 10" using Cons.prems(3) by (intro f64.rnd_ge0) simp
  have d: "is_digit_char c \<Longrightarrow> 0 \<le> x * 10 + digit_value_int c"
    using Cons.prems(2) digit_nonneg by auto
  from leadingFraction_step [of x sc ov c cs] Cons.prems show ?case
    by (elim disjE conjE) (auto dest: Cons.IH [OF _ _ Cons.prems(3)] Cons.IH [OF _ d m] simp del: leadingFraction.simps)
qed simp

lemma unitMap_pos: "unitMap u = Some n \<Longrightarrow> 0 < n"
  by (auto simp: unitMap_def split: if_splits)

lemma f64_trunc_nonneg: "0 \<le> x \<Longrightarrow> 0 \<le> f64_trunc x"
  by (simp add: f64_trunc_def)

lemma parse_segment_nonneg:
  assumes "parse_segment s = Some (v, r)"
  shows "0 \<le> v"
proof -
  obtain v0 s1 t f sc s2 unit where
    h: "leadingInt 0 s = Some (v0, s1)"
      "(f, sc, s2) = leadingFraction 0 1 False t \<and> length t \<le> length s1 \<or> (f, sc, s2) = (0, 1, s1)"
      "unitMap (takeWhile is_unit_char s2) = Some unit"
      "v = v0 * unit + (if f > 0 then f64_trunc (f64_mul (f64_of_int f) (f64_div (f64_of_int unit) sc)) else 0)"
    using assms by (rule parse_segmentE)
  have "0 \<le> v0" "0 \<le> f \<and> 0 \<le> sc" "0 < unit"
    using h leadingInt_nonneg [OF h(1)] leadingFraction_nonneg [of 0 1 False t f sc s2] unitMap_pos [OF h(3)]
    by auto
  then show ?thesis
    by (auto simp: h(4) intro!: add_nonneg_nonneg f64_trunc_nonneg f64.rnd_ge0 divide_nonneg_nonneg mult_nonneg_nonneg)
qed

lemma parse_segments_range:
  "parse_segments d s = Some r \<Longrightarrow> 0 \<le> d \<Longrightarrow> d \<le> 2 ^ 63 \<Longrightarrow> 0 \<le> r \<and> r \<le> 2 ^ 63"
proof (induction d s rule: parse_segments.induct)
  case (1 d s)
  then show ?case
    by (auto simp: parse_segments.simps [of d s] dest!: parse_segment_nonneg
        split: if_splits option.splits prod.splits)
qed

text \<open>A parsed duration is an \<open>int64\<close>.\<close>

lemma ParseDuration_range: "ParseDuration s = Some d \<Longrightarrow> minDuration \<le> d \<and> d \<le> maxDuration"
  by (auto simp: ParseDuration_def Let_def unit_defs split: if_splits option.splits
      dest!: parse_segments_range)

text \<open>Strings of the shipped configuration, a fraction, and two rejected inputs.\<close>

lemmas ParseDuration_eval = ParseDuration_def parse_segments.simps parse_segment_def unitMap_def
  is_unit_char_def is_digit_char_def digit_value_int_def Let_def

lemma ParseDuration_60s: "ParseDuration ''60s'' = Some (60 * Second)"
  by (simp add: ParseDuration_eval unit_defs)

lemma ParseDuration_120s: "ParseDuration ''120s'' = Some (120 * Second)"
  by (simp add: ParseDuration_eval unit_defs)

lemma ParseDuration_300s: "ParseDuration ''300s'' = Some (300 * Second)"
  by (simp add: ParseDuration_eval unit_defs)

lemma ParseDuration_600s: "ParseDuration ''600s'' = Some (600 * Second)"
  by (simp add: ParseDuration_eval unit_defs)

lemma ParseDuration_5m: "ParseDuration ''5m'' = Some (5 * Minute)"
  by (simp add: ParseDuration_eval unit_defs)

lemma ParseDuration_frac: "ParseDuration ''1.5h'' = Some (90 * Minute)"
  by code_simp

lemma ParseDuration_no_unit: "ParseDuration ''60'' = None"
  by (simp add: ParseDuration_eval)

lemmas ParseDuration_samples = ParseDuration_60s ParseDuration_120s ParseDuration_300s
  ParseDuration_600s ParseDuration_5m

end
