(* ===== verification/GoJson.thy ===== *)
theory GoJson
  imports GoTime
begin

text \<open>
  The part of \<open>encoding/json\<close> the components exchange events through, on parsed documents.
  A document is a tree; \<open>JInt\<close> is a number literal without fraction and exponent and
  \<open>JNum\<close> one with them, since decoding into a Go integer accepts the former only;
  \<open>JTime\<close> is the RFC 3339 string of an instant. A message is \<open>None\<close> when its bytes are not
  a JSON text. Decoding into a struct matches keys case-insensitively, lets the last
  matching key win, skips \<open>null\<close>, ignores unknown keys and fails on a value of the wrong
  kind.
\<close>

datatype json = JNull | JBool bool | JInt int | JNum f64 | JStr string | JTime instant
  | JArr "json list" | JObj "(string \<times> json) list"

section \<open>Encoding\<close>

text \<open>A float is printed without a fraction when it is an integer below the exponent format.\<close>

definition json_float :: "f64 \<Rightarrow> json" where
  "json_float x = (if of_int \<lfloor>x\<rfloor> = x \<and> \<bar>x\<bar> < 10 ^ 21 then JInt \<lfloor>x\<rfloor> else JNum x)"

definition omitempty :: "string \<Rightarrow> string \<Rightarrow> (string \<times> json) list" where
  "omitempty k v = (if v = [] then [] else [(k, JStr v)])"

section \<open>Decoding a struct\<close>

definition lower_char :: "char \<Rightarrow> char" where
  "lower_char c = (if 65 \<le> (of_char c :: nat) \<and> (of_char c :: nat) \<le> 90 then char_of ((of_char c :: nat) + 32) else c)"

definition fold_eq :: "string \<Rightarrow> string \<Rightarrow> bool" where
  "fold_eq k f = (map lower_char k = map lower_char f)"

text \<open>The values the document gives a field, in order; \<open>null\<close> leaves a field as it is.\<close>

definition field_values :: "string \<Rightarrow> (string \<times> json) list \<Rightarrow> json list" where
  "field_values f kvs = map snd (filter (\<lambda>(k, v). fold_eq k f \<and> v \<noteq> JNull) kvs)"

definition as_string :: "json \<Rightarrow> string option" where
  "as_string v = (case v of JStr s \<Rightarrow> Some s | _ \<Rightarrow> None)"

definition as_float :: "json \<Rightarrow> f64 option" where
  "as_float v = (case v of JInt i \<Rightarrow> Some (f64_of_int i) | JNum x \<Rightarrow> Some x | _ \<Rightarrow> None)"

definition as_int :: "json \<Rightarrow> int option" where
  "as_int v = (case v of JInt i \<Rightarrow> if - (2 ^ 63) \<le> i \<and> i < 2 ^ 63 then Some i else None | _ \<Rightarrow> None)"

definition as_bool :: "json \<Rightarrow> bool option" where
  "as_bool v = (case v of JBool b \<Rightarrow> Some b | _ \<Rightarrow> None)"

fun all_some :: "'a option list \<Rightarrow> 'a list option" where
  "all_some [] = Some []"
| "all_some (None # xs) = None"
| "all_some (Some x # xs) = map_option ((#) x) (all_some xs)"

text \<open>A \<open>null\<close> element of a string array decodes to the zero value of the element.\<close>

definition as_string_elem :: "json \<Rightarrow> string option" where
  "as_string_elem v = (if v = JNull then Some [] else as_string v)"

definition as_strings :: "json \<Rightarrow> string list option" where
  "as_strings v = (case v of JArr vs \<Rightarrow> all_some (map as_string_elem vs) | _ \<Rightarrow> None)"

text \<open>The value a field ends with: no value when one of the document's values does not fit.\<close>

definition decode_field :: "(json \<Rightarrow> 'a option) \<Rightarrow> 'a \<Rightarrow> string \<Rightarrow> (string \<times> json) list \<Rightarrow> 'a option" where
  "decode_field conv zero f kvs =
     (case all_some (map conv (field_values f kvs)) of
        None \<Rightarrow> None
      | Some vs \<Rightarrow> Some (if vs = [] then zero else last vs))"

section \<open>Facts\<close>

lemma all_some_map_Some [simp]: "all_some (map Some xs) = Some xs"
  by (induction xs) auto

lemma json_float_not_null [simp]: "json_float x \<noteq> JNull"
  by (simp add: json_float_def)

text \<open>Decoding a field of a literal document.\<close>

lemmas decode_defs = decode_field_def field_values_def fold_eq_def lower_char_def as_string_def as_bool_def

lemma as_float_json_float: "fl64 x = x \<Longrightarrow> as_float (json_float x) = Some x"
  by (auto simp: as_float_def json_float_def)

text \<open>A document without the field decodes to the zero value.\<close>

lemma decode_field_absent:
  "(\<And>k v. (k, v) \<in> set kvs \<Longrightarrow> \<not> fold_eq k f) \<Longrightarrow> decode_field conv zero f kvs = Some zero"
proof -
  assume h: "\<And>k v. (k, v) \<in> set kvs \<Longrightarrow> \<not> fold_eq k f"
  then have "filter (\<lambda>(k, v). fold_eq k f \<and> v \<noteq> JNull) kvs = []" by (auto simp: filter_empty_conv)
  then show ?thesis by (simp add: decode_field_def field_values_def)
qed

text \<open>A field that occurs once decodes to its value.\<close>

lemma decode_field_once:
  assumes "filter (\<lambda>(k, v). fold_eq k f) kvs = [(k, v)]" "v \<noteq> JNull"
  shows "decode_field conv zero f kvs = conv v"
proof -
  have "filter (\<lambda>(k, v). fold_eq k f \<and> v \<noteq> JNull) kvs
      = filter (\<lambda>(k, v). v \<noteq> JNull) (filter (\<lambda>(k, v). fold_eq k f) kvs)"
    by (simp add: case_prod_unfold conj_commute)
  then show ?thesis
    using assms(2) by (cases "conv v") (simp_all add: assms(1) decode_field_def field_values_def)
qed

end
