(* ===== verification/Cluster.thy ===== *)
theory Cluster
  imports GoJson
begin

text \<open>
  What lies outside the program and how the program reaches it. The Kubernetes API server
  and the message broker are the parameter \<open>'c Ext\<close>: one function per call the sources
  make, from the state of the outside world to the call's result and the next state, so a
  call may fail and the world may change on its own between calls. \<open>'c World\<close> threads that
  state through the program and keeps the requests issued, the messages the broker
  accepted and the Prometheus samples, which is what the safety properties speak about.
\<close>

section \<open>Objects\<close>

record Pod =
  pod_Labels :: "string \<rightharpoonup> string"
  pod_Phase :: string
  pod_Conditions :: "(string \<times> string) list" \<comment> \<open>type and status\<close>

record Node =
  node_Unschedulable :: bool

text \<open>The memory limit of a container is the byte value of its quantity, if it has one.\<close>

record Container =
  ct_Name :: string
  ct_MemoryLimit :: "int option"

record Deployment =
  dp_Containers :: "Container list"

record DeleteOptions =
  do_GracePeriodSeconds :: "int option"
  do_DryRun :: "string list"

record PatchOptions =
  pt_DryRun :: "string list"

text \<open>The fields of a Kubernetes event that the audit log sets.\<close>

record Event =
  ev_GenerateName :: string
  ev_Namespace :: string
  ev_InvolvedKind :: string
  ev_InvolvedName :: string
  ev_InvolvedNamespace :: string
  ev_Reason :: string
  ev_Message :: string
  ev_Type :: string
  ev_Timestamp :: instant
  ev_Count :: int
  ev_Component :: string
  ev_Action :: string

section \<open>Calls\<close>

record 'c Ext =
  x_podGet :: "string \<Rightarrow> string \<Rightarrow> 'c \<Rightarrow> (string + Pod) \<times> 'c"
  x_podList :: "string \<Rightarrow> string \<Rightarrow> 'c \<Rightarrow> (string + Pod list) \<times> 'c"
  x_podDelete :: "string \<Rightarrow> string \<Rightarrow> DeleteOptions \<Rightarrow> 'c \<Rightarrow> string option \<times> 'c"
  x_nodeGet :: "string \<Rightarrow> 'c \<Rightarrow> (string + Node) \<times> 'c"
  x_nodePatch :: "string \<Rightarrow> json \<Rightarrow> PatchOptions \<Rightarrow> 'c \<Rightarrow> string option \<times> 'c"
  x_deployGet :: "string \<Rightarrow> string \<Rightarrow> 'c \<Rightarrow> (string + Deployment) \<times> 'c"
  x_deployPatch :: "string \<Rightarrow> string \<Rightarrow> json \<Rightarrow> PatchOptions \<Rightarrow> 'c \<Rightarrow> string option \<times> 'c"
  x_eventCreate :: "string \<Rightarrow> Event \<Rightarrow> 'c \<Rightarrow> string option \<times> 'c"
  x_publishAsync :: "string \<Rightarrow> json \<Rightarrow> 'c \<Rightarrow> string option \<times> 'c"

datatype api_call =
    PodGet string string
  | PodList string string
  | PodDelete string string DeleteOptions
  | NodeGet string
  | NodePatch string json PatchOptions
  | DeployGet string string
  | DeployPatch string string json PatchOptions
  | EventCreate string Event

text \<open>A sample for a Prometheus vector: its name, its label values and the amount.\<close>

type_synonym metric = "string \<times> string list \<times> f64"

record 'c World =
  w_env :: 'c
  w_calls :: "api_call list"
  w_published :: "(string \<times> json) list"
  w_metrics :: "metric list"

definition api :: "api_call \<Rightarrow> ('c \<Rightarrow> 'r \<times> 'c) \<Rightarrow> 'c World \<Rightarrow> 'r \<times> 'c World" where
  "api req f w = (let (r, c) = f (w_env w) in (r, w\<lparr>w_env := c, w_calls := w_calls w @ [req]\<rparr>))"

definition podGet :: "'c Ext \<Rightarrow> string \<Rightarrow> string \<Rightarrow> 'c World \<Rightarrow> (string + Pod) \<times> 'c World" where
  "podGet x ns name = api (PodGet ns name) (x_podGet x ns name)"

definition podList :: "'c Ext \<Rightarrow> string \<Rightarrow> string \<Rightarrow> 'c World \<Rightarrow> (string + Pod list) \<times> 'c World" where
  "podList x ns selector = api (PodList ns selector) (x_podList x ns selector)"

definition podDelete :: "'c Ext \<Rightarrow> string \<Rightarrow> string \<Rightarrow> DeleteOptions \<Rightarrow> 'c World \<Rightarrow> string option \<times> 'c World" where
  "podDelete x ns name opts = api (PodDelete ns name opts) (x_podDelete x ns name opts)"

definition nodeGet :: "'c Ext \<Rightarrow> string \<Rightarrow> 'c World \<Rightarrow> (string + Node) \<times> 'c World" where
  "nodeGet x name = api (NodeGet name) (x_nodeGet x name)"

definition nodePatch :: "'c Ext \<Rightarrow> string \<Rightarrow> json \<Rightarrow> PatchOptions \<Rightarrow> 'c World \<Rightarrow> string option \<times> 'c World" where
  "nodePatch x name p opts = api (NodePatch name p opts) (x_nodePatch x name p opts)"

definition deployGet :: "'c Ext \<Rightarrow> string \<Rightarrow> string \<Rightarrow> 'c World \<Rightarrow> (string + Deployment) \<times> 'c World" where
  "deployGet x ns name = api (DeployGet ns name) (x_deployGet x ns name)"

definition deployPatch ::
  "'c Ext \<Rightarrow> string \<Rightarrow> string \<Rightarrow> json \<Rightarrow> PatchOptions \<Rightarrow> 'c World \<Rightarrow> string option \<times> 'c World" where
  "deployPatch x ns name p opts = api (DeployPatch ns name p opts) (x_deployPatch x ns name p opts)"

definition eventCreate :: "'c Ext \<Rightarrow> string \<Rightarrow> Event \<Rightarrow> 'c World \<Rightarrow> string option \<times> 'c World" where
  "eventCreate x ns e = api (EventCreate ns e) (x_eventCreate x ns e)"

declare podGet_def [api_defs] podList_def [api_defs] podDelete_def [api_defs] nodeGet_def [api_defs]
  nodePatch_def [api_defs] deployGet_def [api_defs] deployPatch_def [api_defs] eventCreate_def [api_defs]

definition publishAsync :: "'c Ext \<Rightarrow> string \<Rightarrow> json \<Rightarrow> 'c World \<Rightarrow> string option \<times> 'c World" where
  "publishAsync x topic data w =
     (let (r, c) = x_publishAsync x topic data (w_env w)
      in (r, w\<lparr>w_env := c,
               w_published := (if r = None then w_published w @ [(topic, data)] else w_published w)\<rparr>))"

definition observe :: "string \<Rightarrow> string list \<Rightarrow> f64 \<Rightarrow> 'c World \<Rightarrow> 'c World" where
  "observe name labels v w = w\<lparr>w_metrics := w_metrics w @ [(name, labels, v)]\<rparr>"

section \<open>Traces\<close>

lemma api_trace [simp]:
  "w_calls (snd (api req f w)) = w_calls w @ [req]"
  "w_published (snd (api req f w)) = w_published w"
  "w_metrics (snd (api req f w)) = w_metrics w"
  by (simp_all add: api_def case_prod_beta)

lemma api_eq:
  assumes "api req f w = (r, w')"
  shows "w_calls w' = w_calls w @ [req]" "w_published w' = w_published w" "w_metrics w' = w_metrics w"
  using api_trace [of req f w] assms by simp_all

lemma publishAsync_trace [simp]:
  "w_calls (snd (publishAsync x t d w)) = w_calls w"
  "w_metrics (snd (publishAsync x t d w)) = w_metrics w"
  by (simp_all add: publishAsync_def case_prod_beta)

lemma publishAsync_published:
  "publishAsync x t d w = (r, w') \<Longrightarrow>
   w_published w' = (if r = None then w_published w @ [(t, d)] else w_published w)"
  by (auto simp: publishAsync_def split: prod.splits)

lemma observe_trace [simp]:
  "w_calls (observe n l v w) = w_calls w"
  "w_published (observe n l v w) = w_published w"
  "w_env (observe n l v w) = w_env w"
  by (simp_all add: observe_def)

text \<open>
  The requests issued from one world to a later one. Requests are only ever appended, so
  the trace of a computation is what it adds.
\<close>

definition issued :: "'c World \<Rightarrow> 'c World \<Rightarrow> api_call list" where
  "issued w w' = drop (length (w_calls w)) (w_calls w')"

definition extends :: "'c World \<Rightarrow> 'c World \<Rightarrow> bool" where
  "extends w w' = prefix (w_calls w) (w_calls w')"

lemma issued_refl [simp]: "issued w w = []"
  by (simp add: issued_def)

lemma issued_app [simp]: "w_calls w' = w_calls w @ cs \<Longrightarrow> issued w w' = cs"
  by (simp add: issued_def)

text \<open>A request that may change the cluster: not a read, not an event, not a dry run.\<close>

definition DryRunAll :: "string list" where
  "DryRunAll = [''All'']"

fun disruptive :: "api_call \<Rightarrow> bool" where
  "disruptive (PodDelete ns name opts) = (do_DryRun opts \<noteq> DryRunAll)"
| "disruptive (NodePatch name p opts) = (pt_DryRun opts \<noteq> DryRunAll)"
| "disruptive (DeployPatch ns name p opts) = (pt_DryRun opts \<noteq> DryRunAll)"
| "disruptive _ = False"

end
