(* ===== verification/Policy.thy ===== *)
theory Policy
  imports GoTime
begin

text \<open>
  The guardrails policy (\<open>internal/controller/guardrails/policy.go\<close>): the YAML schema as
  records, the loader with the file system and the YAML decoder as parameters, and the
  accessors every gate of the reconciler reads. \<open>shipped_policy\<close> is
  \<open>config/guardrails.yaml\<close> as the decoder delivers it; the witnesses run on it.
\<close>

section \<open>Schema\<close>

record ActionConfig =
  ac_RiskLevel :: string
  ac_RequiresConfirmation :: bool
  ac_Cooldown :: string
  ac_MaxPerHour :: int
  ac_MaxMemoryIncreasePct :: int
  ac_MaxCPUIncreasePct :: int
  ac_MinAffectedPods :: int
  ac_MaxScaleFactor :: int

record ProtectedLabel =
  pl_Key :: string
  pl_Value :: string

record CircuitBreakerConfig =
  cbc_Enabled :: bool
  cbc_TriggerOnFailurePct :: int
  cbc_EvaluationWindow :: string
  cbc_Response :: string
  cbc_PauseDuration :: string
  cbc_AlertOnTrip :: bool

record EscalationStep =
  es_Action :: string
  es_MaxAttempts :: int
  es_WaitBetweenAttempts :: string
  es_RequiresPodCount :: int
  es_Alert :: bool

record GlobalConfig =
  gc_MaxActionsPer10s :: int
  gc_MaxActionsPerMinute :: int
  gc_DryRun :: bool

record DryRunModeConfig =
  dr_Enabled :: bool
  dr_LogWouldHaveActed :: bool

record PerPodConfig =
  pp_MaxRestartsPerHour :: int
  pp_CooldownAfterRestart :: string
  pp_MaxResourcePatchesPerHour :: int
  pp_CooldownAfterResourcePatch :: string
  pp_MaxReschedulesPerHour :: int
  pp_CooldownAfterReschedule :: string

record PerNodeConfig =
  pn_MaxCordonsPerHour :: int
  pn_CooldownAfterCordon :: string
  pn_CordonRequiresMinAffectedPods :: int
  pn_DrainRequiresManualApproval :: bool

record EscalationConfig =
  ec_RestartObservationWindow :: string
  ec_RescheduleObservationWindow :: string
  ec_MaxAutonomousAttempts :: int
  ec_EscalationPath :: "EscalationStep list"

record Policy =
  po_Global :: GlobalConfig
  po_DryRunMode :: DryRunModeConfig
  po_PerPod :: PerPodConfig
  po_PerNode :: PerNodeConfig
  po_Escalation :: EscalationConfig
  po_CircuitBreaker :: CircuitBreakerConfig
  po_ProtectedNamespaces :: "string list"
  po_ProtectedLabels :: "ProtectedLabel list"
  po_Actions :: "string \<rightharpoonup> ActionConfig"

section \<open>Loader\<close>

text \<open>Reading and decoding are the operating system's and the YAML package's.\<close>

datatype load_error = ReadFailed string string | ParseFailed string

definition LoadPolicy ::
  "(string \<Rightarrow> string + 'bytes) \<Rightarrow> ('bytes \<Rightarrow> string + Policy) \<Rightarrow> string \<Rightarrow> load_error + Policy" where
  "LoadPolicy readFile unmarshal path =
     (case readFile path of
        Inl e \<Rightarrow> Inl (ReadFailed path e)
      | Inr data \<Rightarrow>
         (case unmarshal data of
            Inl e \<Rightarrow> Inl (ParseFailed e)
          | Inr p \<Rightarrow> Inr p))"

section \<open>Accessors\<close>

fun IsProtectedNamespace_loop :: "string list \<Rightarrow> string \<Rightarrow> bool" where
  "IsProtectedNamespace_loop [] ns = False"
| "IsProtectedNamespace_loop (p # ps) ns = (if ns = p then True else IsProtectedNamespace_loop ps ns)"

definition IsProtectedNamespace :: "Policy \<Rightarrow> string \<Rightarrow> bool" where
  "IsProtectedNamespace p ns = IsProtectedNamespace_loop (po_ProtectedNamespaces p) ns"

fun IsProtectedPod_loop :: "ProtectedLabel list \<Rightarrow> (string \<rightharpoonup> string) \<Rightarrow> bool" where
  "IsProtectedPod_loop [] labels = False"
| "IsProtectedPod_loop (pl # pls) labels =
     (if labels (pl_Key pl) = Some (pl_Value pl) then True else IsProtectedPod_loop pls labels)"

definition IsProtectedPod :: "Policy \<Rightarrow> (string \<rightharpoonup> string) \<Rightarrow> bool" where
  "IsProtectedPod p labels = IsProtectedPod_loop (po_ProtectedLabels p) labels"

definition CooldownFor :: "Policy \<Rightarrow> string \<Rightarrow> duration" where
  "CooldownFor p action =
     (case po_Actions p action of
        Some cfg \<Rightarrow> (case ParseDuration (ac_Cooldown cfg) of Some d \<Rightarrow> d | None \<Rightarrow> 60 * Second)
      | None \<Rightarrow> 60 * Second)"

definition MaxPerHour :: "Policy \<Rightarrow> string \<Rightarrow> int" where
  "MaxPerHour p action =
     (case po_Actions p action of Some cfg \<Rightarrow> ac_MaxPerHour cfg | None \<Rightarrow> 1)"

definition RequiresConfirmation :: "Policy \<Rightarrow> string \<Rightarrow> bool" where
  "RequiresConfirmation p action =
     (case po_Actions p action of Some cfg \<Rightarrow> ac_RequiresConfirmation cfg | None \<Rightarrow> True)"

definition MaxMemoryIncreasePct :: "Policy \<Rightarrow> int" where
  "MaxMemoryIncreasePct p =
     (case po_Actions p ''patch_resource_limits'' of
        Some cfg \<Rightarrow> if ac_MaxMemoryIncreasePct cfg > 0 then ac_MaxMemoryIncreasePct cfg else 100
      | None \<Rightarrow> 100)"

definition CordonMinPodCount :: "Policy \<Rightarrow> int" where
  "CordonMinPodCount p = pn_CordonRequiresMinAffectedPods (po_PerNode p)"

definition IsDryRun :: "Policy \<Rightarrow> bool" where
  "IsDryRun p = (dr_Enabled (po_DryRunMode p) \<or> gc_DryRun (po_Global p))"

definition ObservationWindow :: "Policy \<Rightarrow> string \<Rightarrow> duration" where
  "ObservationWindow p action =
     (if action = ''restart_pod'' then
        (case ParseDuration (ec_RestartObservationWindow (po_Escalation p)) of
           Some d \<Rightarrow> d | None \<Rightarrow> 60 * Second)
      else if action = ''reschedule_pod'' then
        (case ParseDuration (ec_RescheduleObservationWindow (po_Escalation p)) of
           Some d \<Rightarrow> d | None \<Rightarrow> 120 * Second)
      else 90 * Second)"

section \<open>What the accessors compute\<close>

lemma IsProtectedNamespace_iff [simp]:
  "IsProtectedNamespace p ns \<longleftrightarrow> ns \<in> set (po_ProtectedNamespaces p)"
proof -
  have "IsProtectedNamespace_loop xs ns \<longleftrightarrow> ns \<in> set xs" for xs
    by (induction xs) auto
  then show ?thesis by (simp add: IsProtectedNamespace_def)
qed

lemma IsProtectedPod_iff [simp]:
  "IsProtectedPod p labels \<longleftrightarrow>
   (\<exists>pl \<in> set (po_ProtectedLabels p). labels (pl_Key pl) = Some (pl_Value pl))"
proof -
  have "IsProtectedPod_loop xs labels \<longleftrightarrow> (\<exists>pl \<in> set xs. labels (pl_Key pl) = Some (pl_Value pl))" for xs
    by (induction xs) auto
  then show ?thesis by (simp add: IsProtectedPod_def)
qed

lemma CooldownFor_range: "minDuration \<le> CooldownFor p a \<and> CooldownFor p a \<le> maxDuration"
  by (auto simp: CooldownFor_def unit_defs dest: ParseDuration_range split: option.splits)

lemma MaxMemoryIncreasePct_pos: "0 < MaxMemoryIncreasePct p"
  by (auto simp: MaxMemoryIncreasePct_def split: option.splits)

text \<open>A pod without labels (or one that could not be fetched) is never a protected pod.\<close>

lemma IsProtectedPod_no_labels: "\<not> IsProtectedPod p Map.empty"
  by simp

section \<open>The shipped configuration\<close>

definition shipped_action :: "string \<Rightarrow> ActionConfig" where
  "shipped_action a =
     \<lparr>ac_RiskLevel = (if a = ''restart_pod'' then ''low''
                     else if a = ''cordon_node'' then ''high''
                     else if a = ''drain_node'' then ''critical'' else ''medium''),
      ac_RequiresConfirmation = (a = ''drain_node''),
      ac_Cooldown = (if a = ''restart_pod'' then ''60s''
                     else if a = ''reschedule_pod'' then ''120s''
                     else if a = ''cordon_node'' then ''600s''
                     else if a = ''drain_node'' then ''3600s'' else ''300s''),
      ac_MaxPerHour = (if a = ''restart_pod'' then 3
                       else if a = ''cordon_node'' then 1
                       else if a = ''drain_node'' then 0 else 2),
      ac_MaxMemoryIncreasePct = (if a = ''patch_resource_limits'' then 100 else 0),
      ac_MaxCPUIncreasePct = (if a = ''patch_resource_limits'' then 200 else 0),
      ac_MinAffectedPods = (if a = ''cordon_node'' then 3 else 0),
      ac_MaxScaleFactor = (if a = ''scale_deployment'' then 3 else 0)\<rparr>"

definition shipped_actions :: "string \<rightharpoonup> ActionConfig" where
  "shipped_actions a =
     (if a \<in> set [''restart_pod'', ''patch_resource_limits'', ''reschedule_pod'', ''cordon_node'',
                  ''drain_node'', ''scale_deployment'']
      then Some (shipped_action a) else None)"

definition shipped_policy :: Policy where
  "shipped_policy =
     \<lparr>po_Global = \<lparr>gc_MaxActionsPer10s = 1, gc_MaxActionsPerMinute = 4, gc_DryRun = False\<rparr>,
      po_DryRunMode = \<lparr>dr_Enabled = False, dr_LogWouldHaveActed = True\<rparr>,
      po_PerPod = \<lparr>pp_MaxRestartsPerHour = 3, pp_CooldownAfterRestart = ''60s'',
        pp_MaxResourcePatchesPerHour = 2, pp_CooldownAfterResourcePatch = ''300s'',
        pp_MaxReschedulesPerHour = 2, pp_CooldownAfterReschedule = ''120s''\<rparr>,
      po_PerNode = \<lparr>pn_MaxCordonsPerHour = 1, pn_CooldownAfterCordon = ''600s'',
        pn_CordonRequiresMinAffectedPods = 3, pn_DrainRequiresManualApproval = True\<rparr>,
      po_Escalation = \<lparr>ec_RestartObservationWindow = ''60s'', ec_RescheduleObservationWindow = ''120s'',
        ec_MaxAutonomousAttempts = 3,
        ec_EscalationPath =
          [\<lparr>es_Action = ''restart_pod'', es_MaxAttempts = 3, es_WaitBetweenAttempts = ''60s'',
             es_RequiresPodCount = 0, es_Alert = False\<rparr>,
           \<lparr>es_Action = ''reschedule_pod'', es_MaxAttempts = 2, es_WaitBetweenAttempts = ''120s'',
             es_RequiresPodCount = 0, es_Alert = False\<rparr>,
           \<lparr>es_Action = ''cordon_node'', es_MaxAttempts = 1, es_WaitBetweenAttempts = [],
             es_RequiresPodCount = 3, es_Alert = False\<rparr>,
           \<lparr>es_Action = ''manual'', es_MaxAttempts = 0, es_WaitBetweenAttempts = [],
             es_RequiresPodCount = 0, es_Alert = True\<rparr>]\<rparr>,
      po_CircuitBreaker = \<lparr>cbc_Enabled = False, cbc_TriggerOnFailurePct = 50,
        cbc_EvaluationWindow = ''5m'', cbc_Response = ''pause_all_actions'',
        cbc_PauseDuration = ''10m'', cbc_AlertOnTrip = True\<rparr>,
      po_ProtectedNamespaces = [''kube-system'', ''kube-public'', ''kube-node-lease'', ''monitoring''],
      po_ProtectedLabels =
        [\<lparr>pl_Key = ''selfheal.io/exclude'', pl_Value = ''true''\<rparr>,
         \<lparr>pl_Key = ''critical'', pl_Value = ''true''\<rparr>],
      po_Actions = shipped_actions\<rparr>"

lemmas shipped_defs = shipped_policy_def shipped_actions_def shipped_action_def

lemma shipped_cooldowns:
  "CooldownFor shipped_policy ''restart_pod'' = 60 * Second"
  "CooldownFor shipped_policy ''reschedule_pod'' = 120 * Second"
  "CooldownFor shipped_policy ''cordon_node'' = 600 * Second"
  by (simp_all add: CooldownFor_def shipped_defs ParseDuration_samples)

lemma shipped_cooldown_nonneg: "0 \<le> CooldownFor shipped_policy a"
proof -
  have "ParseDuration ''3600s'' = Some (3600 * Second)" by (simp add: ParseDuration_eval unit_defs)
  then show ?thesis
    by (auto simp: CooldownFor_def shipped_defs ParseDuration_samples unit_defs)
qed

lemma shipped_cooldowns_ok: "CooldownFor shipped_policy a \<noteq> minDuration"
  using shipped_cooldown_nonneg [of a] by (simp add: unit_defs)

lemma shipped_limits:
  "MaxPerHour shipped_policy ''restart_pod'' = 3"
  "MaxPerHour shipped_policy ''reschedule_pod'' = 2"
  "MaxPerHour shipped_policy ''cordon_node'' = 1"
  "RequiresConfirmation shipped_policy ''manual''"
  "\<not> RequiresConfirmation shipped_policy ''restart_pod''"
  "\<not> RequiresConfirmation shipped_policy ''reschedule_pod''"
  "\<not> RequiresConfirmation shipped_policy ''cordon_node''"
  "\<not> IsDryRun shipped_policy"
  by (simp_all add: MaxPerHour_def RequiresConfirmation_def IsDryRun_def shipped_defs)

end
