(* ===== verification/Escalation.thy ===== *)
theory Escalation
  imports GoTime
begin

text \<open>
  The escalation state machine of the controller (\<open>internal/controller/escalation.go\<close> and
  the enumerations of \<open>types.go\<close>). The \<open>sync.Map\<close> is an association list with distinct
  keys. The abstract machine is a rung counter per healing context, from 0 (nothing done)
  to 7 (manual); the code's state, action and attempt refine it.
\<close>

section \<open>State\<close>

type_synonym ActionType = string

definition ActionRestartPod :: ActionType where "ActionRestartPod = ''restart_pod''"
definition ActionPatchLimits :: ActionType where "ActionPatchLimits = ''patch_resource_limits''"
definition ActionReschedulePod :: ActionType where "ActionReschedulePod = ''reschedule_pod''"
definition ActionCordonNode :: ActionType where "ActionCordonNode = ''cordon_node''"
definition ActionManual :: ActionType where "ActionManual = ''manual''"

lemmas action_names = ActionRestartPod_def ActionPatchLimits_def ActionReschedulePod_def
  ActionCordonNode_def ActionManual_def

datatype EscalationState = StateObserving | StateActionTaken | StateEscalating | StateNodeSuspect
  | StateManual | StateResolved

type_synonym escalationKey = "string \<times> string \<times> string" \<comment> \<open>pod, namespace, anomaly type\<close>

record escalationEntry =
  ee_state :: EscalationState
  ee_action :: ActionType
  ee_attempt :: int
  ee_lastAction :: instant
  ee_updatedAt :: instant

type_synonym EscalationManager = "(escalationKey \<times> escalationEntry) list"

definition NewEscalationManager :: EscalationManager where
  "NewEscalationManager = []"

section \<open>Operations\<close>

definition esc_fresh :: "instant \<Rightarrow> escalationEntry" where
  "esc_fresh now = \<lparr>ee_state = StateObserving, ee_action = ActionRestartPod, ee_attempt = 0,
     ee_lastAction = zeroTime, ee_updatedAt = now\<rparr>"

text \<open>The switch of \<open>NextAction\<close>; no value is the early return in the manual state.\<close>

definition esc_advance :: "escalationEntry \<Rightarrow> escalationEntry option" where
  "esc_advance entry =
     (case ee_state entry of
        StateObserving \<Rightarrow>
          Some (entry\<lparr>ee_state := StateActionTaken, ee_action := ActionRestartPod, ee_attempt := 1\<rparr>)
      | StateResolved \<Rightarrow>
          Some (entry\<lparr>ee_state := StateActionTaken, ee_action := ActionRestartPod, ee_attempt := 1\<rparr>)
      | StateActionTaken \<Rightarrow>
          if ee_action entry = ActionRestartPod then
            if ee_attempt entry < 3 then Some (entry\<lparr>ee_attempt := ee_attempt entry + 1\<rparr>)
            else Some (entry\<lparr>ee_state := StateEscalating, ee_action := ActionReschedulePod, ee_attempt := 1\<rparr>)
          else if ee_action entry = ActionReschedulePod then
            if ee_attempt entry < 2 then Some (entry\<lparr>ee_attempt := ee_attempt entry + 1\<rparr>)
            else Some (entry\<lparr>ee_state := StateNodeSuspect, ee_action := ActionCordonNode, ee_attempt := 1\<rparr>)
          else Some entry
      | StateEscalating \<Rightarrow>
          if ee_attempt entry < 2 then Some (entry\<lparr>ee_attempt := ee_attempt entry + 1\<rparr>)
          else Some (entry\<lparr>ee_state := StateNodeSuspect, ee_action := ActionCordonNode, ee_attempt := 1\<rparr>)
      | StateNodeSuspect \<Rightarrow>
          Some (entry\<lparr>ee_state := StateManual, ee_action := ActionManual, ee_attempt := 0\<rparr>)
      | StateManual \<Rightarrow> None)"

definition InManualState :: "string \<Rightarrow> string \<Rightarrow> string" where
  "InManualState namespace pod =
     ''escalation['' @ namespace @ ''/'' @ pod @ '']: in MANUAL state - autonomous healing disabled''"

text \<open>
  \<open>NextAction\<close> with its readings of the clock: for a fresh entry, for the last action and
  for the update. The result is the action, the attempt and the error, if any.
\<close>

definition NextAction ::
  "string \<Rightarrow> string \<Rightarrow> string \<Rightarrow> instant \<times> instant \<times> instant \<Rightarrow> EscalationManager
    \<Rightarrow> (ActionType \<times> int \<times> string option) \<times> EscalationManager" where
  "NextAction pod namespace anomalyType now em =
     (let key = (pod, namespace, anomalyType);
          entry = (case map_of em key of None \<Rightarrow> esc_fresh (fst now) | Some e \<Rightarrow> e)
      in case esc_advance entry of
           None \<Rightarrow> ((ActionManual, 0, Some (InManualState namespace pod)), em)
         | Some next \<Rightarrow>
            let next = next\<lparr>ee_lastAction := fst (snd now), ee_updatedAt := snd (snd now)\<rparr>
            in ((ee_action next, ee_attempt next, None), AList.update key next em))"

text \<open>\<open>MarkResolved\<close> stores an entry whose other fields are zero values.\<close>

definition MarkResolved :: "string \<Rightarrow> string \<Rightarrow> string \<Rightarrow> instant \<Rightarrow> EscalationManager \<Rightarrow> EscalationManager" where
  "MarkResolved pod namespace anomalyType now em =
     AList.update (pod, namespace, anomalyType)
       \<lparr>ee_state = StateResolved, ee_action = [], ee_attempt = 0, ee_lastAction = zeroTime, ee_updatedAt = now\<rparr> em"

definition CurrentState :: "string \<Rightarrow> string \<Rightarrow> string \<Rightarrow> EscalationManager \<Rightarrow> EscalationState" where
  "CurrentState pod namespace anomalyType em =
     (case map_of em (pod, namespace, anomalyType) of None \<Rightarrow> StateObserving | Some e \<Rightarrow> ee_state e)"

definition IsManual :: "string \<Rightarrow> string \<Rightarrow> string \<Rightarrow> EscalationManager \<Rightarrow> bool" where
  "IsManual pod namespace anomalyType em = (CurrentState pod namespace anomalyType em = StateManual)"

fun Purge_loop :: "instant \<Rightarrow> EscalationManager \<Rightarrow> int \<Rightarrow> int \<times> EscalationManager" where
  "Purge_loop cutoff [] purged = (purged, [])"
| "Purge_loop cutoff ((k, entry) # em) purged =
     (if ee_state entry = StateResolved \<and> Before (ee_updatedAt entry) cutoff
      then Purge_loop cutoff em (purged + 1)
      else let (n, em') = Purge_loop cutoff em purged in (n, (k, entry) # em'))"

definition Purge :: "duration \<Rightarrow> instant \<Rightarrow> EscalationManager \<Rightarrow> int \<times> EscalationManager" where
  "Purge olderThan now em = Purge_loop (Add now (- olderThan)) em 0"

declare NextAction_def [store_defs] MarkResolved_def [store_defs]

section \<open>The abstract ladder\<close>

text \<open>Rung \<open>r\<close> of the ladder: the action and the attempt it stands for.\<close>

definition ladder :: "nat \<Rightarrow> ActionType \<times> int" where
  "ladder r = (if r \<le> 3 then (ActionRestartPod, int r)
               else if r \<le> 5 then (ActionReschedulePod, int r - 3)
               else if r = 6 then (ActionCordonNode, 1) else (ActionManual, 0))"

definition esc_entry_wf :: "escalationEntry \<Rightarrow> bool" where
  "esc_entry_wf e =
     (case ee_state e of
        StateActionTaken \<Rightarrow> ee_action e = ActionRestartPod \<and> ee_attempt e \<in> {1, 2, 3}
      | StateEscalating \<Rightarrow> ee_action e = ActionReschedulePod \<and> ee_attempt e \<in> {1, 2}
      | StateNodeSuspect \<Rightarrow> ee_action e = ActionCordonNode \<and> ee_attempt e = 1
      | StateManual \<Rightarrow> ee_action e = ActionManual \<and> ee_attempt e = 0
      | _ \<Rightarrow> True)"

definition esc_entry_rung :: "escalationEntry \<Rightarrow> nat" where
  "esc_entry_rung e =
     (case ee_state e of
        StateActionTaken \<Rightarrow> nat (ee_attempt e) | StateEscalating \<Rightarrow> 3 + nat (ee_attempt e)
      | StateNodeSuspect \<Rightarrow> 6 | StateManual \<Rightarrow> 7 | _ \<Rightarrow> 0)"

lemma esc_entry_rung_le: "esc_entry_wf e \<Longrightarrow> esc_entry_rung e \<le> 7"
  by (auto simp: esc_entry_wf_def esc_entry_rung_def split: EscalationState.splits)

lemma esc_advance_rung:
  assumes "esc_entry_wf e"
  shows "esc_entry_rung e < 7 \<Longrightarrow> \<exists>e'. esc_advance e = Some e' \<and> esc_entry_wf e'
           \<and> esc_entry_rung e' = Suc (esc_entry_rung e) \<and> (ee_action e', ee_attempt e') = ladder (Suc (esc_entry_rung e))"
    and "esc_entry_rung e = 7 \<Longrightarrow> esc_advance e = None"
  using assms
  by (auto simp: esc_advance_def esc_entry_wf_def esc_entry_rung_def ladder_def action_names
      split: EscalationState.splits)

text \<open>The rung of a context and the well-formed managers.\<close>

definition esc_rung :: "EscalationManager \<Rightarrow> escalationKey \<Rightarrow> nat" where
  "esc_rung em k = (case map_of em k of None \<Rightarrow> 0 | Some e \<Rightarrow> esc_entry_rung e)"

definition esc_wf :: "EscalationManager \<Rightarrow> bool" where
  "esc_wf em \<longleftrightarrow> distinct (map fst em) \<and> (\<forall>(k, e) \<in> set em. esc_entry_wf e)"

lemma esc_wf_lookup: "esc_wf em \<Longrightarrow> map_of em k = Some e \<Longrightarrow> esc_entry_wf e"
  by (auto simp: esc_wf_def dest!: map_of_SomeD)

lemma esc_rung_le: "esc_wf em \<Longrightarrow> esc_rung em k \<le> 7"
  by (auto simp: esc_rung_def dest: esc_wf_lookup esc_entry_rung_le split: option.splits)

lemma alist_update_mem: "(k', v') \<in> set (AList.update k v xs) \<Longrightarrow> (k', v') = (k, v) \<or> (k', v') \<in> set xs"
  by (induction xs) (auto split: if_splits)

lemma esc_wf_update: "esc_wf em \<Longrightarrow> esc_entry_wf e \<Longrightarrow> esc_wf (AList.update k e em)"
  using alist_update_mem [of _ _ k e em] by (fastforce simp: esc_wf_def distinct_update)

lemma esc_rung_update: "esc_rung (AList.update k e em) = (esc_rung em)(k := esc_entry_rung e)"
  by (auto simp: esc_rung_def fun_eq_iff update_conv)

lemma esc_wf_New: "esc_wf NewEscalationManager" "esc_rung NewEscalationManager k = 0"
  by (simp_all add: esc_wf_def NewEscalationManager_def esc_rung_def)

lemma esc_entry_time [simp]:
  "esc_entry_wf (e\<lparr>ee_lastAction := a, ee_updatedAt := b\<rparr>) = esc_entry_wf e"
  "esc_entry_rung (e\<lparr>ee_lastAction := a, ee_updatedAt := b\<rparr>) = esc_entry_rung e"
  by (cases "ee_state e"; simp add: esc_entry_wf_def esc_entry_rung_def)+

text \<open>\<open>NextAction\<close> climbs one rung, or reports the manual state and changes nothing.\<close>

lemma NextAction_refines:
  assumes "esc_wf em" and k: "k = (pod, ns, ty)"
  shows "esc_rung em k < 7 \<Longrightarrow> \<exists>em'. NextAction pod ns ty now em =
           ((fst (ladder (Suc (esc_rung em k))), snd (ladder (Suc (esc_rung em k))), None), em')
           \<and> esc_wf em' \<and> esc_rung em' = (esc_rung em)(k := Suc (esc_rung em k))"
    and "esc_rung em k = 7 \<Longrightarrow> NextAction pod ns ty now em = ((ActionManual, 0, Some (InManualState ns pod)), em)"
proof -
  define e where "e = (case map_of em k of None \<Rightarrow> esc_fresh (fst now) | Some e \<Rightarrow> e)"
  have wf: "esc_entry_wf e" and r: "esc_rung em k = esc_entry_rung e"
    using esc_wf_lookup [OF assms(1), of k]
    by (auto simp: e_def esc_rung_def esc_fresh_def esc_entry_wf_def esc_entry_rung_def split: option.splits)
  show "\<exists>em'. NextAction pod ns ty now em =
      ((fst (ladder (Suc (esc_rung em k))), snd (ladder (Suc (esc_rung em k))), None), em')
      \<and> esc_wf em' \<and> esc_rung em' = (esc_rung em)(k := Suc (esc_rung em k))" if lt: "esc_rung em k < 7"
  proof -
    obtain e' where e': "esc_advance e = Some e'" "esc_entry_wf e'" "esc_entry_rung e' = Suc (esc_entry_rung e)"
      "ladder (Suc (esc_entry_rung e)) = (ee_action e', ee_attempt e')"
      using esc_advance_rung(1) [OF wf] lt r by metis
    then show ?thesis
      using assms(1) by (simp add: store_defs Let_def r e' esc_wf_update esc_rung_update flip: k e_def)
  qed
  show "NextAction pod ns ty now em = ((ActionManual, 0, Some (InManualState ns pod)), em)" if "esc_rung em k = 7"
    using esc_advance_rung(2) [OF wf] that r by (simp add: store_defs Let_def flip: k e_def)
qed

lemma MarkResolved_refines:
  assumes "esc_wf em"
  shows "esc_wf (MarkResolved pod ns ty now em)"
    and "esc_rung (MarkResolved pod ns ty now em) = (esc_rung em)((pod, ns, ty) := 0)"
  using assms by (auto simp: store_defs esc_rung_update esc_entry_rung_def esc_entry_wf_def intro!: esc_wf_update)

lemma IsManual_rung: "esc_wf em \<Longrightarrow> IsManual pod ns ty em \<longleftrightarrow> esc_rung em (pod, ns, ty) = 7"
  using esc_wf_lookup [of em "(pod, ns, ty)"]
  by (auto simp: IsManual_def CurrentState_def esc_rung_def esc_entry_rung_def esc_entry_wf_def
      split: option.splits EscalationState.splits)

subsection \<open>Purging\<close>

lemma Purge_loop_filter:
  "Purge_loop c em n =
     (n + int (length (filter (\<lambda>(k, e). ee_state e = StateResolved \<and> ee_updatedAt e < c) em)),
      filter (\<lambda>(k, e). \<not> (ee_state e = StateResolved \<and> ee_updatedAt e < c)) em)"
  by (induction c em n rule: Purge_loop.induct) (auto simp: time_simps)

text \<open>Purging forgets resolved contexts only, so no rung changes.\<close>

lemma Purge_refines:
  assumes "esc_wf em"
  shows "esc_wf (snd (Purge d now em))" and "esc_rung (snd (Purge d now em)) = esc_rung em"
proof -
  let ?P = "\<lambda>(k::escalationKey, e). \<not> (ee_state e = StateResolved \<and> ee_updatedAt e < now - d)"
  have p: "snd (Purge d now em) = filter ?P em" by (simp add: Purge_def Purge_loop_filter time_simps)
  show "esc_wf (snd (Purge d now em))" using assms by (auto simp: p esc_wf_def distinct_map_filter)
  have "distinct (map fst em)" using assms by (simp add: esc_wf_def)
  then have m: "map_of (filter ?P em) k = (case map_of em k of None \<Rightarrow> None | Some e \<Rightarrow> if ?P (k, e) then Some e else None)" for k
  proof (induction em)
    case (Cons x em)
    then show ?case by (cases x) (auto split: option.splits dest: map_of_SomeD simp: rev_image_eqI)
  qed simp
  show "esc_rung (snd (Purge d now em)) = esc_rung em"
    unfolding p esc_rung_def m by (auto simp: esc_entry_rung_def fun_eq_iff split: option.splits)
qed

subsection \<open>Runs\<close>

text \<open>Any interleaving of the operations, as the reconciler and the observers issue them.\<close>

datatype esc_op = EscNext escalationKey "instant \<times> instant \<times> instant" | EscResolve escalationKey instant
  | EscPurge duration instant

fun esc_step :: "esc_op \<Rightarrow> EscalationManager \<Rightarrow> (ActionType \<times> int \<times> string option) option \<times> EscalationManager" where
  "esc_step (EscNext (pod, ns, ty) now) em = (let (r, em') = NextAction pod ns ty now em in (Some r, em'))"
| "esc_step (EscResolve (pod, ns, ty) now) em = (None, MarkResolved pod ns ty now em)"
| "esc_step (EscPurge d now) em = (None, snd (Purge d now em))"

fun esc_run :: "esc_op list \<Rightarrow> EscalationManager \<Rightarrow> (ActionType \<times> int \<times> string option) option list \<times> EscalationManager" where
  "esc_run [] em = ([], em)"
| "esc_run (p # ps) em = (let (r, em') = esc_step p em; (rs, em'') = esc_run ps em' in (r # rs, em''))"

text \<open>The specification: a counter per context.\<close>

fun rung_step :: "esc_op \<Rightarrow> (escalationKey \<Rightarrow> nat) \<Rightarrow> (ActionType \<times> int) option \<times> (escalationKey \<Rightarrow> nat)" where
  "rung_step (EscNext k now) \<rho> = (Some (ladder (Suc (\<rho> k))), \<rho>(k := min 7 (Suc (\<rho> k))))"
| "rung_step (EscResolve k now) \<rho> = (None, \<rho>(k := 0))"
| "rung_step (EscPurge d now) \<rho> = (None, \<rho>)"

fun rung_run :: "esc_op list \<Rightarrow> (escalationKey \<Rightarrow> nat) \<Rightarrow> (ActionType \<times> int) option list \<times> (escalationKey \<Rightarrow> nat)" where
  "rung_run [] \<rho> = ([], \<rho>)"
| "rung_run (p # ps) \<rho> = (let (r, \<rho>') = rung_step p \<rho>; (rs, \<rho>'') = rung_run ps \<rho>' in (r # rs, \<rho>''))"

definition esc_out :: "ActionType \<times> int \<times> string option \<Rightarrow> ActionType \<times> int" where
  "esc_out r = (fst r, fst (snd r))"

lemma ladder_top: "7 \<le> r \<Longrightarrow> ladder r = (ActionManual, 0)"
  by (simp add: ladder_def)

lemma esc_step_refines:
  assumes "esc_wf em"
  shows "esc_wf (snd (esc_step p em))"
    and "(map_option esc_out (fst (esc_step p em)), esc_rung (snd (esc_step p em))) = rung_step p (esc_rung em)"
proof -
  have "esc_wf (snd (esc_step p em)) \<and>
    (map_option esc_out (fst (esc_step p em)), esc_rung (snd (esc_step p em))) = rung_step p (esc_rung em)"
  proof (cases p)
    case (EscNext k now)
    obtain pod ns ty where k: "k = (pod, ns, ty)" by (cases k)
    show ?thesis
    proof (cases "esc_rung em k < 7")
      case True
      then show ?thesis using NextAction_refines(1) [OF assms k True, of now] EscNext
        by (auto simp: k esc_out_def)
    next
      case False
      then have "esc_rung em k = 7" using esc_rung_le [OF assms, of k] by simp
      moreover from this have "(esc_rung em)(k := 7) = esc_rung em" by auto
      ultimately show ?thesis using NextAction_refines(2) [OF assms k, of now] EscNext assms
        by (simp add: k esc_out_def ladder_top)
    qed
  next
    case (EscResolve k now)
    then show ?thesis using MarkResolved_refines [OF assms] by (cases k) simp
  next
    case (EscPurge d now)
    then show ?thesis using Purge_refines [OF assms] by simp
  qed
  then show "esc_wf (snd (esc_step p em))"
    "(map_option esc_out (fst (esc_step p em)), esc_rung (snd (esc_step p em))) = rung_step p (esc_rung em)"
    by simp_all
qed

lemma esc_run_refines:
  assumes "esc_wf em"
  shows "esc_wf (snd (esc_run ps em)) \<and>
    (map (map_option esc_out) (fst (esc_run ps em)), esc_rung (snd (esc_run ps em))) = rung_run ps (esc_rung em)"
  using assms
proof (induction ps arbitrary: em)
  case (Cons p ps)
  note st = esc_step_refines [OF Cons.prems, of p]
  show ?case
    using Cons.IH [OF st(1)] st(2) by (simp add: case_prod_beta) (metis fst_conv snd_conv)
qed simp

text \<open>No rung of the ladder is a resource patch.\<close>

lemma ladder_not_patch: "fst (ladder r) \<noteq> ActionPatchLimits"
  by (simp add: ladder_def action_names)

end
