(* ===== verification/Actions.thy ===== *)
theory Actions
  imports Cluster Policy Escalation
begin

text \<open>
  The healing actions (\<open>internal/controller/actions\<close>): the four executors, the dispatcher
  that selects one by name and the pod count of the cordon gate. Logging is left out.
  \<open>qstr\<close> is the text of a byte quantity in the API's binary-SI format, a library function.
  Every executor and the dispatcher satisfy the contract \<open>executor\<close>: it publishes nothing,
  a dry run issues no request that may change the cluster, and otherwise such requests name
  the target only.
\<close>

section \<open>Targets and errors\<close>

record Target =
  tg_Pod :: string
  tg_Namespace :: string
  tg_Node :: string
  tg_Deployment :: string
  tg_Labels :: "string \<rightharpoonup> string"

datatype action_error =
    PodAndNamespaceRequired
  | NodeRequired
  | DeploymentRequired
  | NoContainers string
  | ApiError string
  | UnknownAction string

section \<open>restart_pod\<close>

definition RestartExecutor_Execute ::
  "'c Ext \<Rightarrow> Target \<Rightarrow> bool \<Rightarrow> 'c World \<Rightarrow> action_error option \<times> 'c World" where
  "RestartExecutor_Execute x target dryRun w =
     (if tg_Pod target = [] \<or> tg_Namespace target = [] then (Some PodAndNamespaceRequired, w)
      else let deleteOpts = \<lparr>do_GracePeriodSeconds = Some 0, do_DryRun = (if dryRun then DryRunAll else [])\<rparr>
           in if dryRun then (None, w)
              else let (e, w1) = podDelete x (tg_Namespace target) (tg_Pod target) deleteOpts w
                   in (map_option ApiError e, w1))"

section \<open>patch_resource_limits\<close>

definition buildResourcePatch :: "string \<Rightarrow> string \<Rightarrow> json" where
  "buildResourcePatch containerName newMemory =
     JObj [(''spec'', JObj [(''template'', JObj [(''spec'', JObj [(''containers'', JArr
       [JObj [(''name'', JStr containerName),
              (''resources'', JObj [(''limits'', JObj [(''memory'', JStr newMemory)])])]])])])])]"

text \<open>An absent or zero limit counts as 512 MiB.\<close>

definition baselineMemory :: int where
  "baselineMemory = 512 * 1024 * 1024"

definition currentMemory :: "Container \<Rightarrow> int" where
  "currentMemory c = (case ct_MemoryLimit c of None \<Rightarrow> baselineMemory
     | Some b \<Rightarrow> if b = 0 then baselineMemory else b)"

definition memoryMultiplier :: "int \<Rightarrow> f64" where
  "memoryMultiplier maxMemoryIncreasePct =
     (let maxMultiplier = f64_add 1 (f64_div (f64_of_int maxMemoryIncreasePct) 100)
      in if 3/2 > maxMultiplier then maxMultiplier else 3/2)"

definition newMemory :: "int \<Rightarrow> int \<Rightarrow> int" where
  "newMemory maxMemoryIncreasePct currentBytes =
     f64_trunc (f64_mul (f64_of_int currentBytes) (memoryMultiplier maxMemoryIncreasePct))"

definition PatchLimitsExecutor_Execute ::
  "(int \<Rightarrow> string) \<Rightarrow> int \<Rightarrow> 'c Ext \<Rightarrow> Target \<Rightarrow> bool \<Rightarrow> 'c World \<Rightarrow> action_error option \<times> 'c World" where
  "PatchLimitsExecutor_Execute qstr maxPct x target dryRun w =
     (if tg_Deployment target = [] then (Some DeploymentRequired, w)
      else let (r, w1) = deployGet x (tg_Namespace target) (tg_Deployment target) w
           in case r of Inl e \<Rightarrow> (Some (ApiError e), w1)
           | Inr deploy \<Rightarrow>
              (case dp_Containers deploy of [] \<Rightarrow> (Some (NoContainers (tg_Deployment target)), w1)
               | container # _ \<Rightarrow>
                  let newBytes = newMemory maxPct (currentMemory container);
                      p = buildResourcePatch (ct_Name container) (qstr newBytes)
                  in if dryRun then (None, w1)
                     else let (e, w2) = deployPatch x (tg_Namespace target) (tg_Deployment target) p
                                          \<lparr>pt_DryRun = []\<rparr> w1
                          in (map_option ApiError e, w2)))"

section \<open>reschedule_pod\<close>

definition antiAffinityPatch :: "string \<Rightarrow> json" where
  "antiAffinityPatch node =
     JObj [(''spec'', JObj [(''template'', JObj [(''spec'', JObj [(''affinity'', JObj
       [(''nodeAffinity'', JObj [(''requiredDuringSchedulingIgnoredDuringExecution'', JObj
         [(''nodeSelectorTerms'', JArr [JObj [(''matchExpressions'', JArr
           [JObj [(''key'', JStr ''kubernetes.io/hostname''), (''operator'', JStr ''NotIn''),
                  (''values'', JArr [JStr node])]])]])])])])])])])]"

definition injectAntiAffinity :: "'c Ext \<Rightarrow> Target \<Rightarrow> bool \<Rightarrow> 'c World \<Rightarrow> string option \<times> 'c World" where
  "injectAntiAffinity x target dryRun w =
     deployPatch x (tg_Namespace target) (tg_Deployment target) (antiAffinityPatch (tg_Node target))
       \<lparr>pt_DryRun = (if dryRun then DryRunAll else [])\<rparr> w"

text \<open>A failed injection is only logged.\<close>

definition RescheduleExecutor_Execute ::
  "'c Ext \<Rightarrow> Target \<Rightarrow> bool \<Rightarrow> 'c World \<Rightarrow> action_error option \<times> 'c World" where
  "RescheduleExecutor_Execute x target dryRun w =
     (if tg_Pod target = [] \<or> tg_Namespace target = [] then (Some PodAndNamespaceRequired, w)
      else if tg_Node target = [] then (Some NodeRequired, w)
      else let w1 = (if tg_Deployment target \<noteq> [] then snd (injectAntiAffinity x target dryRun w) else w);
               deleteOpts = \<lparr>do_GracePeriodSeconds = Some 0, do_DryRun = (if dryRun then DryRunAll else [])\<rparr>
           in if dryRun then (None, w1)
              else let (e, w2) = podDelete x (tg_Namespace target) (tg_Pod target) deleteOpts w1
                   in (map_option ApiError e, w2))"

section \<open>cordon_node\<close>

definition cordonPatch :: json where
  "cordonPatch = JObj [(''spec'', JObj [(''unschedulable'', JBool True)])]"

definition CordonExecutor_Execute ::
  "'c Ext \<Rightarrow> Target \<Rightarrow> bool \<Rightarrow> 'c World \<Rightarrow> action_error option \<times> 'c World" where
  "CordonExecutor_Execute x target dryRun w =
     (if tg_Node target = [] then (Some NodeRequired, w)
      else let (r, w1) = nodeGet x (tg_Node target) w
           in case r of Inl e \<Rightarrow> (Some (ApiError e), w1)
           | Inr node \<Rightarrow>
              if node_Unschedulable node then (None, w1)
              else if dryRun then (None, w1)
              else let (e, w2) = nodePatch x (tg_Node target) cordonPatch \<lparr>pt_DryRun = []\<rparr> w1
                   in (map_option ApiError e, w2))"

text \<open>An error reads as 0 pods together with the error.\<close>

definition AffectedPodCount :: "'c Ext \<Rightarrow> string \<Rightarrow> string \<Rightarrow> 'c World \<Rightarrow> (int \<times> string option) \<times> 'c World" where
  "AffectedPodCount x node namespace w =
     (let (r, w1) = podList x namespace (''spec.nodeName='' @ node) w
      in case r of Inl e \<Rightarrow> ((0, Some e), w1) | Inr pods \<Rightarrow> ((int (length pods), None), w1))"

section \<open>The dispatcher\<close>

type_synonym 'c Executor = "'c Ext \<Rightarrow> Target \<Rightarrow> bool \<Rightarrow> 'c World \<Rightarrow> action_error option \<times> 'c World"

definition register :: "string \<Rightarrow> 'c Executor \<Rightarrow> (string \<times> 'c Executor) list \<Rightarrow> (string \<times> 'c Executor) list" where
  "register name e executors = AList.update name e executors"

definition NewDispatcher :: "(int \<Rightarrow> string) \<Rightarrow> int \<Rightarrow> (string \<times> 'c Executor) list" where
  "NewDispatcher qstr maxMemoryIncreasePct =
     register ''cordon_node'' CordonExecutor_Execute
     (register ''reschedule_pod'' RescheduleExecutor_Execute
     (register ''patch_resource_limits'' (PatchLimitsExecutor_Execute qstr maxMemoryIncreasePct)
     (register ''restart_pod'' RestartExecutor_Execute [])))"

definition Dispatcher_Execute :: "(string \<times> 'c Executor) list \<Rightarrow> string \<Rightarrow> 'c Executor" where
  "Dispatcher_Execute executors action x target dryRun w =
     (case map_of executors action of
        None \<Rightarrow> (Some (UnknownAction action), w)
      | Some e \<Rightarrow> e x target dryRun w)"

lemmas executor_defs = RestartExecutor_Execute_def PatchLimitsExecutor_Execute_def
  RescheduleExecutor_Execute_def CordonExecutor_Execute_def injectAntiAffinity_def

section \<open>The contract of an executor\<close>

text \<open>The objects a target names: what a request on its behalf may touch.\<close>

fun names_target :: "Target \<Rightarrow> api_call \<Rightarrow> bool" where
  "names_target t (PodDelete ns name opts) = (ns = tg_Namespace t \<and> name = tg_Pod t \<and> name \<noteq> [])"
| "names_target t (NodePatch name p opts) = (name = tg_Node t \<and> name \<noteq> [])"
| "names_target t (DeployPatch ns name p opts) = (ns = tg_Namespace t \<and> name = tg_Deployment t \<and> name \<noteq> [])"
| "names_target t _ = False"

locale executor =
  fixes execute :: "'c Ext \<Rightarrow> Target \<Rightarrow> bool \<Rightarrow> 'c World \<Rightarrow> action_error option \<times> 'c World"
  assumes quiet: "w_published (snd (execute x t d w)) = w_published w"
    "w_metrics (snd (execute x t d w)) = w_metrics w"
    and trace: "\<exists>cs. w_calls (snd (execute x t d w)) = w_calls w @ cs
      \<and> (\<forall>c \<in> set cs. disruptive c \<longrightarrow> \<not> d \<and> names_target t c)"
begin

lemma prefix_calls: "prefix (w_calls w) (w_calls (snd (execute x t d w)))"
  using trace by (metis prefixI)

lemma dry_run_safe: "c \<in> set (issued w (snd (execute x t True w))) \<Longrightarrow> \<not> disruptive c"
  using trace [of x t True w] by auto

lemma blast_radius: "c \<in> set (issued w (snd (execute x t d w))) \<Longrightarrow> disruptive c \<Longrightarrow> names_target t c"
  using trace [of x t d w] by auto

end

interpretation restart: executor RestartExecutor_Execute
  by unfold_locales (auto simp: executor_defs api_defs Let_def case_prod_beta disruptive.simps)

interpretation patch_limits: executor "PatchLimitsExecutor_Execute qstr maxPct"
  by unfold_locales
    (auto simp: executor_defs api_defs Let_def case_prod_beta split: sum.splits list.splits)

interpretation reschedule: executor RescheduleExecutor_Execute
  by unfold_locales
    (auto simp: executor_defs api_defs Let_def case_prod_beta DryRunAll_def)

interpretation cordon: executor CordonExecutor_Execute
  by unfold_locales (auto simp: executor_defs api_defs Let_def case_prod_beta split: sum.splits)

lemma map_of_NewDispatcher:
  "map_of (NewDispatcher qstr pct) =
     [''restart_pod'' \<mapsto> RestartExecutor_Execute,
      ''patch_resource_limits'' \<mapsto> PatchLimitsExecutor_Execute qstr pct,
      ''reschedule_pod'' \<mapsto> RescheduleExecutor_Execute,
      ''cordon_node'' \<mapsto> CordonExecutor_Execute]"
  by (auto simp: NewDispatcher_def register_def update_conv' fun_eq_iff)

lemma NewDispatcher_cases:
  assumes "map_of (NewDispatcher qstr pct) action = Some e"
  obtains "e = RestartExecutor_Execute" | "e = PatchLimitsExecutor_Execute qstr pct"
    | "e = RescheduleExecutor_Execute" | "e = CordonExecutor_Execute"
  using assms by (auto simp: map_of_NewDispatcher split: if_splits)

text \<open>The dispatcher of any action name keeps the contract.\<close>

interpretation dispatch: executor "Dispatcher_Execute (NewDispatcher qstr pct) action"
proof
  fix x :: "'a Ext" and t d and w :: "'a World"
  show "w_published (snd (Dispatcher_Execute (NewDispatcher qstr pct) action x t d w)) = w_published w"
    by (simp add: Dispatcher_Execute_def map_of_NewDispatcher restart.quiet patch_limits.quiet reschedule.quiet cordon.quiet)
  show "w_metrics (snd (Dispatcher_Execute (NewDispatcher qstr pct) action x t d w)) = w_metrics w"
    by (simp add: Dispatcher_Execute_def map_of_NewDispatcher restart.quiet patch_limits.quiet reschedule.quiet cordon.quiet)
  show "\<exists>cs. w_calls (snd (Dispatcher_Execute (NewDispatcher qstr pct) action x t d w)) = w_calls w @ cs
      \<and> (\<forall>c \<in> set cs. disruptive c \<longrightarrow> \<not> d \<and> names_target t c)"
  proof (cases "map_of (NewDispatcher qstr pct :: (string \<times> 'a Executor) list) action")
    case (Some e)
    then have "Dispatcher_Execute (NewDispatcher qstr pct) action x t d w = e x t d w"
      by (simp add: Dispatcher_Execute_def)
    then show ?thesis using Some
      by (auto elim!: NewDispatcher_cases intro: restart.trace patch_limits.trace reschedule.trace cordon.trace)
  qed (simp add: Dispatcher_Execute_def)
qed

section \<open>What the actions do\<close>

text \<open>
  A raised limit is at least the current one and at most half as much again, for limits
  below two pebibytes: the product and the truncation lose nothing there.
\<close>

lemma memoryMultiplier_bounds:
  assumes "0 \<le> pct"
  shows "1 \<le> memoryMultiplier pct \<and> memoryMultiplier pct \<le> 3/2"
proof -
  have "0 \<le> f64_div (f64_of_int pct) 100" using assms by (intro f64.rnd_ge0) (simp add: f64.rnd_ge0)
  then have "1 \<le> f64_add 1 (f64_div (f64_of_int pct) 100)" by (intro f64.rnd_ge1) simp
  then show ?thesis by (simp add: memoryMultiplier_def Let_def)
qed

lemma newMemory_bounds:
  assumes "0 \<le> pct" "0 \<le> b" "b < 2 ^ 51"
  shows "b \<le> newMemory pct b \<and> newMemory pct b \<le> (3 * b) div 2"
proof -
  note m = memoryMultiplier_bounds [OF assms(1)]
  have r: "f64_of_int b = of_int b" using assms by (intro fl64_of_int) simp
  have lo: "of_int b \<le> (of_int b * memoryMultiplier pct :: rat)"
    using m assms(2) mult_left_mono [of 1 "memoryMultiplier pct" "of_int b"] by simp
  have hi: "(of_int b * memoryMultiplier pct :: rat) \<le> of_int (3 * b) / 2"
    using m assms(2) mult_left_mono [of "memoryMultiplier pct" "3/2" "of_int b"] by simp
  have half: "fl64 (of_int (3 * b) / 2) = of_int (3 * b) / 2" using assms by (intro fl64_half) simp
  have "of_int b \<le> f64_mul (of_int b) (memoryMultiplier pct)" using fl64_mono [OF lo] r by simp
  from f64_trunc_mono [OF this] have "b \<le> newMemory pct b" by (simp add: newMemory_def r)
  moreover have "newMemory pct b \<le> f64_trunc (of_int (3 * b) / 2)"
    using fl64_mono [OF hi] unfolding half by (auto simp: newMemory_def r intro!: f64_trunc_mono)
  moreover have "f64_trunc (of_int (3 * b) / 2 :: rat) = (3 * b) div 2"
    using assms(2) floor_divide_of_int_eq [of "3 * b" 2, where 'a = rat] by (simp add: f64_trunc_def)
  ultimately show ?thesis by simp
qed

text \<open>Without a node a pod is never rescheduled and a node never cordoned.\<close>

lemma reschedule_needs_node:
  assumes "tg_Node t = []"
  shows "\<exists>e. Dispatcher_Execute (NewDispatcher qstr pct) ActionReschedulePod x t d w = (Some e, w)"
  using assms by (simp add: Dispatcher_Execute_def map_of_NewDispatcher action_names executor_defs)

lemma cordon_needs_node:
  assumes "tg_Node t = []"
  shows "\<exists>e. Dispatcher_Execute (NewDispatcher qstr pct) ActionCordonNode x t d w = (Some e, w)"
  using assms by (simp add: Dispatcher_Execute_def map_of_NewDispatcher action_names executor_defs)

text \<open>The four actions have executors and the manual state has none.\<close>

lemma dispatcher_domain:
  "map_of (NewDispatcher qstr pct) a \<noteq> None \<longleftrightarrow>
   a \<in> {ActionRestartPod, ActionPatchLimits, ActionReschedulePod, ActionCordonNode}"
  by (auto simp: map_of_NewDispatcher action_names)

text \<open>A restart is the one delete request of the pod, without grace period.\<close>

lemma restart_calls:
  assumes "tg_Pod t \<noteq> []" "tg_Namespace t \<noteq> []"
  shows "issued w (snd (RestartExecutor_Execute x t False w)) =
         [PodDelete (tg_Namespace t) (tg_Pod t) \<lparr>do_GracePeriodSeconds = Some 0, do_DryRun = []\<rparr>]"
  using assms by (simp add: executor_defs api_defs Let_def case_prod_beta)

end
