(* ===== verification/GoFmt.thy ===== *)
theory GoFmt
  imports GoFloat
begin

text \<open>
  The verbs of \<open>fmt.Sprintf\<close> the sources print data with: \<open>%d\<close>, \<open>%v\<close> of a boolean and \<open>%.2f\<close>,
  which prints the exact binary value rounded to hundredths, ties to even.
\<close>

fun show_nat :: "nat \<Rightarrow> string" where
  "show_nat n = (if n < 10 then [char_of (n + 48)] else show_nat (n div 10) @ [char_of (n mod 10 + 48)])"

declare show_nat.simps [simp del]

definition show_int :: "int \<Rightarrow> string" where
  "show_int i = (if i < 0 then CHR ''-'' # show_nat (nat (- i)) else show_nat (nat i))"

definition show_bool :: "bool \<Rightarrow> string" where
  "show_bool b = (if b then ''true'' else ''false'')"

definition fmt_2f :: "f64 \<Rightarrow> string" where
  "fmt_2f x =
     (let h = nat (rne (\<bar>x\<bar> * 100))
      in (if x < 0 then ''-'' else []) @ show_nat (h div 100) @ ''.''
         @ [char_of (h div 10 mod 10 + 48), char_of (h mod 10 + 48)])"

text \<open>Decimal numerals are read back by the digits' values.\<close>

definition digit_val :: "char \<Rightarrow> nat" where
  "digit_val c = of_char c - 48"

lemma digit_val_char [simp]: "d < 10 \<Longrightarrow> digit_val (char_of (d + 48)) = d"
  by (simp add: digit_val_def of_char_of [where 'a = nat] del: of_char_of)

lemma show_nat_value: "foldl (\<lambda>a c. a * 10 + digit_val c) 0 (show_nat n) = n"
proof (induction n rule: show_nat.induct)
  case (1 n)
  then show ?case by (cases "n < 10") (simp_all add: show_nat.simps [of n])
qed

lemma show_nat_inject: "show_nat m = show_nat n \<longleftrightarrow> m = n"
  by (metis show_nat_value)

end
