(* ===== verification/ControllerEvents.thy ===== *)
theory ControllerEvents
  imports Cluster GoFmt
begin

text \<open>
  The controller's events (\<open>internal/controller/types.go\<close>) with their JSON forms, and the
  audit log (\<open>internal/telemetry/audit.go\<close>), which turns every dispatched action into a
  Kubernetes event.
\<close>

section \<open>Events\<close>

record AnomalyEvent =
  an_AnomalyID :: string
  an_Type :: string
  an_Confidence :: f64
  an_AffectedPod :: string
  an_AffectedNode :: string
  an_Namespace :: string
  an_Deployment :: string
  an_Signals :: "string list"
  an_SuggestedCause :: string
  an_SuggestedAction :: string
  an_Timestamp :: int
  an_TTLS :: int

record ActionEvent =
  ae_ActionID :: string
  ae_AnomalyID :: string
  ae_Action :: string
  ae_TargetKind :: string
  ae_TargetName :: string
  ae_TargetNamespace :: string
  ae_TargetNode :: string
  ae_Patch :: "(string \<times> string) list"
  ae_FromValue :: string
  ae_ToValue :: string
  ae_Reason :: string
  ae_Confidence :: f64
  ae_DryRun :: bool
  ae_Attempt :: int
  ae_Timestamp :: int

record OutcomeEvent =
  oe_ActionID :: string
  oe_AnomalyID :: string
  oe_Resolved :: bool
  oe_ResolutionType :: string
  oe_ResolutionMs :: int
  oe_ObservedAt :: instant
  oe_Timestamp :: int

definition marshal_ActionEvent :: "ActionEvent \<Rightarrow> json" where
  "marshal_ActionEvent a =
     JObj ([(''action_id'', JStr (ae_ActionID a)), (''anomaly_id'', JStr (ae_AnomalyID a)),
       (''action'', JStr (ae_Action a)), (''target_kind'', JStr (ae_TargetKind a)),
       (''target_name'', JStr (ae_TargetName a)), (''target_namespace'', JStr (ae_TargetNamespace a))]
      @ omitempty ''target_node'' (ae_TargetNode a)
      @ (if ae_Patch a = [] then []
         else [(''patch'', JObj (map (\<lambda>(k, v). (k, JStr v)) (ae_Patch a)))])
      @ omitempty ''from_value'' (ae_FromValue a) @ omitempty ''to_value'' (ae_ToValue a)
      @ [(''reason'', JStr (ae_Reason a)), (''confidence'', json_float (ae_Confidence a)),
         (''dry_run'', JBool (ae_DryRun a)), (''attempt'', JInt (ae_Attempt a)),
         (''timestamp'', JInt (ae_Timestamp a))])"

definition marshal_OutcomeEvent :: "OutcomeEvent \<Rightarrow> json" where
  "marshal_OutcomeEvent e =
     JObj [(''action_id'', JStr (oe_ActionID e)), (''anomaly_id'', JStr (oe_AnomalyID e)),
       (''resolved'', JBool (oe_Resolved e)), (''resolution_type'', JStr (oe_ResolutionType e)),
       (''resolution_ms'', JInt (oe_ResolutionMs e)), (''observed_at'', JTime (oe_ObservedAt e)),
       (''timestamp'', JInt (oe_Timestamp e))]"

text \<open>
  \<open>json.Unmarshal\<close> into an \<open>AnomalyEvent\<close>. No value is a decoding error: bytes that are no
  JSON text, a top-level value that is neither an object nor \<open>null\<close>, or a field of the
  wrong kind.
\<close>

definition unmarshal_fields :: "(string \<times> json) list \<Rightarrow> AnomalyEvent option" where
  "unmarshal_fields kvs =
     (let str = (\<lambda>f. decode_field as_string [] f kvs); num = (\<lambda>f. decode_field as_int 0 f kvs)
      in case (str ''id'', str ''metric'', decode_field as_float 0 ''confidence'' kvs, str ''pod'',
               str ''node'', str ''namespace'', str ''deployment'',
               decode_field as_strings [] ''active_signals'' kvs, str ''suggested_cause'',
               str ''suggested_action'', num ''timestamp'', num ''ttl_s'') of
           (Some i, Some ty, Some cf, Some pod, Some node, Some ns, Some dep, Some sigs, Some cause,
            Some act, Some ts, Some ttl) \<Rightarrow>
             Some \<lparr>an_AnomalyID = i, an_Type = ty, an_Confidence = cf, an_AffectedPod = pod,
               an_AffectedNode = node, an_Namespace = ns, an_Deployment = dep, an_Signals = sigs,
               an_SuggestedCause = cause, an_SuggestedAction = act, an_Timestamp = ts, an_TTLS = ttl\<rparr>
         | _ \<Rightarrow> None)"

definition unmarshal_AnomalyEvent :: "json option \<Rightarrow> AnomalyEvent option" where
  "unmarshal_AnomalyEvent data =
     (case data of Some (JObj kvs) \<Rightarrow> unmarshal_fields kvs | Some JNull \<Rightarrow> unmarshal_fields [] | _ \<Rightarrow> None)"

section \<open>Audit log\<close>

record AuditEntry =
  au_ActionID :: string
  au_AnomalyID :: string
  au_Action :: string
  au_Target :: string
  au_Namespace :: string
  au_Reason :: string
  au_Confidence :: f64
  au_DryRun :: bool
  au_OutcomeType :: string

definition audit_message :: "AuditEntry \<Rightarrow> string" where
  "audit_message e =
     ''SelfHeal action='' @ au_Action e @ '' confidence='' @ fmt_2f (au_Confidence e) @
     '' anomaly_id='' @ au_AnomalyID e @ '' dry_run='' @ show_bool (au_DryRun e) @ '' reason='' @ au_Reason e"

definition audit_event :: "AuditEntry \<Rightarrow> instant \<Rightarrow> Event" where
  "audit_event e now =
     \<lparr>ev_GenerateName = ''selfheal-'', ev_Namespace = au_Namespace e, ev_InvolvedKind = ''Pod'',
      ev_InvolvedName = au_Target e, ev_InvolvedNamespace = au_Namespace e, ev_Reason = ''SelfHealAction'',
      ev_Message = audit_message e, ev_Type = ''Normal'', ev_Timestamp = now, ev_Count = 1,
      ev_Component = ''selfheal-controller'', ev_Action = au_Action e\<rparr>"

text \<open>\<open>k8s\<close> is whether the log has a client; a failed request is only logged.\<close>

definition RecordAction :: "bool \<Rightarrow> 'c Ext \<Rightarrow> AuditEntry \<Rightarrow> instant \<Rightarrow> 'c World \<Rightarrow> 'c World" where
  "RecordAction k8s x entry now w =
     (if \<not> k8s then w else snd (eventCreate x (au_Namespace entry) (audit_event entry now) w))"

lemma RecordAction_trace [simp]:
  "w_published (RecordAction k x e now w) = w_published w"
  "w_metrics (RecordAction k x e now w) = w_metrics w"
  "w_calls (RecordAction k x e now w) =
     w_calls w @ (if k then [EventCreate (au_Namespace e) (audit_event e now)] else [])"
  by (simp_all add: RecordAction_def api_defs)

text \<open>A message without a \<open>node\<close> key decodes to an event without a node.\<close>

lemma unmarshal_no_node:
  assumes "unmarshal_AnomalyEvent (Some (JObj kvs)) = Some a" "\<forall>(k, v) \<in> set kvs. \<not> fold_eq k ''node''"
  shows "an_AffectedNode a = []"
proof -
  have "decode_field as_string [] ''node'' kvs = Some []"
    using assms(2) by (intro decode_field_absent) blast
  then show ?thesis
    using assms(1)
    by (auto simp: unmarshal_AnomalyEvent_def unmarshal_fields_def Let_def split: option.splits)
qed

end
