(* ===== verification/Bus.thy ===== *)
theory Bus
  imports Cluster
begin

text \<open>
  The message bus (\<open>internal/bus\<close>): the publisher's topics, the start-up loop that creates
  the stream, and the subscriber's pull loop. JetStream and the context are the parameter
  \<open>('e, 'm) Broker\<close>; waiting is one of its calls and reports whether the context ended
  first. Loops that the sources run until cancellation take fuel, and \<open>None\<close> is an
  exhausted fuel.
\<close>

section \<open>Publisher\<close>

definition publish_to :: "string \<Rightarrow> 'c Ext \<Rightarrow> string \<Rightarrow> json \<Rightarrow> 'c World \<Rightarrow> (string \<times> string) option \<times> 'c World" where
  "publish_to pre x name data w =
     (let topic = pre @ name; (r, w1) = publishAsync x topic data w
      in (map_option (Pair topic) r, w1))"

definition PublishSignal :: "'c Ext \<Rightarrow> string \<Rightarrow> json \<Rightarrow> 'c World \<Rightarrow> (string \<times> string) option \<times> 'c World" where
  "PublishSignal = publish_to ''selfheal.signals.''"

definition PublishAnomaly :: "'c Ext \<Rightarrow> string \<Rightarrow> json \<Rightarrow> 'c World \<Rightarrow> (string \<times> string) option \<times> 'c World" where
  "PublishAnomaly = publish_to ''selfheal.anomalies.''"

definition PublishAction :: "'c Ext \<Rightarrow> string \<Rightarrow> json \<Rightarrow> 'c World \<Rightarrow> (string \<times> string) option \<times> 'c World" where
  "PublishAction = publish_to ''selfheal.actions.''"

definition PublishOutcome :: "'c Ext \<Rightarrow> string \<Rightarrow> json \<Rightarrow> 'c World \<Rightarrow> (string \<times> string) option \<times> 'c World" where
  "PublishOutcome = publish_to ''selfheal.outcomes.''"

definition PublishIncident :: "'c Ext \<Rightarrow> string \<Rightarrow> json \<Rightarrow> 'c World \<Rightarrow> (string \<times> string) option \<times> 'c World" where
  "PublishIncident = publish_to ''selfheal.incidents.''"

lemmas publish_defs = publish_to_def PublishSignal_def PublishAnomaly_def PublishAction_def
  PublishOutcome_def PublishIncident_def

lemma publish_to_trace [simp]:
  "w_calls (snd (publish_to p x s d w)) = w_calls w"
  "w_metrics (snd (publish_to p x s d w)) = w_metrics w"
  by (simp_all add: publish_to_def Let_def case_prod_beta)

lemma publish_to_result:
  "publish_to p x s d w = (r, w') \<Longrightarrow>
   w_published w' = (if r = None then w_published w @ [(p @ s, d)] else w_published w)"
  by (auto simp: publish_to_def Let_def publishAsync_published split: prod.splits)

section \<open>JetStream\<close>

record StreamConfig =
  sc_Name :: string
  sc_Subjects :: "string list"
  sc_MaxAge :: duration
  sc_Storage :: string
  sc_Discard :: string
  sc_MaxMsgs :: int

record ConsumerConfig =
  cc_Name :: string
  cc_Durable :: string
  cc_FilterSubject :: string
  cc_AckPolicy :: string
  cc_AckWait :: duration
  cc_MaxDeliver :: int
  cc_DeliverPolicy :: string

text \<open>
  \<open>b_fetch\<close> returns the error of \<open>Fetch\<close>, or the messages of the batch and the error the
  batch ends with; \<open>b_wait\<close> is true when the context ended before the delay.
\<close>

record ('e, 'm) Broker =
  b_ctxErr :: "'e \<Rightarrow> string option"
  b_wait :: "duration \<Rightarrow> 'e \<Rightarrow> bool \<times> 'e"
  b_createStream :: "StreamConfig \<Rightarrow> 'e \<Rightarrow> string option \<times> 'e"
  b_createConsumer :: "string \<Rightarrow> ConsumerConfig \<Rightarrow> 'e \<Rightarrow> string option \<times> 'e"
  b_fetch :: "int \<Rightarrow> duration \<Rightarrow> 'e \<Rightarrow> (string + ('m list \<times> string option)) \<times> 'e"
  b_ack :: "'m \<Rightarrow> bool \<Rightarrow> 'e \<Rightarrow> 'e"

definition SelfHealStreamName :: string where
  "SelfHealStreamName = ''SELFHEAL''"

definition stream_config :: StreamConfig where
  "stream_config = \<lparr>sc_Name = SelfHealStreamName, sc_Subjects = [''selfheal.>''], sc_MaxAge = 24 * Hour,
     sc_Storage = ''file'', sc_Discard = ''old'', sc_MaxMsgs = 10000000\<rparr>"

datatype bus_error = CtxErr "string option" | ExceededAttempts string int

text \<open>The delay after a failed attempt: \<open>500 << (attempt - 1)\<close> milliseconds, at most 10 s.\<close>

definition ensure_wait :: "nat \<Rightarrow> duration" where
  "ensure_wait attempt =
     (let wait = (500 * 2 ^ (attempt - 1)) * Millisecond
      in if wait > 10 * Second then 10 * Second else wait)"

definition maxAttempts :: nat where "maxAttempts = 10"

function EnsureStream_from :: "('e, 'm) Broker \<Rightarrow> nat \<Rightarrow> 'e \<Rightarrow> bus_error option \<times> 'e" where
  "EnsureStream_from b attempt e =
     (if attempt > maxAttempts then (Some (ExceededAttempts SelfHealStreamName (int maxAttempts)), e)
      else let (r, e1) = b_createStream b stream_config e
           in case r of None \<Rightarrow> (None, e1)
           | Some err \<Rightarrow>
              if b_ctxErr b e1 \<noteq> None then (Some (CtxErr (b_ctxErr b e1)), e1)
              else let (done, e2) = b_wait b (ensure_wait attempt) e1
                   in if done then (Some (CtxErr (b_ctxErr b e2)), e2)
                      else EnsureStream_from b (attempt + 1) e2)"
  by pat_completeness auto
termination
  by (relation "measure (\<lambda>(b, attempt, e). Suc maxAttempts - attempt)") (auto simp: maxAttempts_def)

declare EnsureStream_from.simps [simp del]

definition EnsureStream :: "('e, 'm) Broker \<Rightarrow> 'e \<Rightarrow> bus_error option \<times> 'e" where
  "EnsureStream b e = EnsureStream_from b 1 e"

section \<open>Subscriber\<close>

record SubscriberConfig =
  sb_NATSUrl :: string
  sb_StreamName :: string
  sb_BatchSize :: int
  sb_MaxWait :: duration

text \<open>The defaults \<open>NewSubscriber\<close> fills in.\<close>

definition subscriber_defaults :: "SubscriberConfig \<Rightarrow> SubscriberConfig" where
  "subscriber_defaults cfg =
     cfg\<lparr>sb_StreamName := (if sb_StreamName cfg = [] then ''SELFHEAL'' else sb_StreamName cfg),
         sb_BatchSize := (if sb_BatchSize cfg = 0 then 100 else sb_BatchSize cfg),
         sb_MaxWait := (if sb_MaxWait cfg = 0 then 5 * Second else sb_MaxWait cfg)\<rparr>"

definition isStaleConsumerErr :: "string option \<Rightarrow> bool" where
  "isStaleConsumerErr err =
     (case err of None \<Rightarrow> False
      | Some msg \<Rightarrow> str_contains msg ''no responders available'' \<or> str_contains msg ''consumer not found''
          \<or> str_contains msg ''stream not found'' \<or> str_contains msg ''connection closed''
          \<or> str_contains msg ''EOF'')"

definition consumer_config :: "string \<Rightarrow> string \<Rightarrow> ConsumerConfig" where
  "consumer_config subject consumerName =
     \<lparr>cc_Name = consumerName, cc_Durable = consumerName, cc_FilterSubject = subject,
      cc_AckPolicy = ''explicit'', cc_AckWait = 30 * Second, cc_MaxDeliver = 3, cc_DeliverPolicy = ''all''\<rparr>"

definition acquire_wait :: "nat \<Rightarrow> duration" where
  "acquire_wait attempt =
     (let wait = int attempt * 2 * Second in if wait > 30 * Second then 30 * Second else wait)"

text \<open>\<open>Inl\<close> is the context's error, \<open>Inr\<close> the acquired handle.\<close>

fun acquireConsumer ::
  "nat \<Rightarrow> ('e, 'm) Broker \<Rightarrow> SubscriberConfig \<Rightarrow> ConsumerConfig \<Rightarrow> nat \<Rightarrow> 'e \<Rightarrow> ((string option + unit) \<times> 'e) option" where
  "acquireConsumer 0 b cfg cc attempt e = None"
| "acquireConsumer (Suc fuel) b cfg cc attempt e =
     (if b_ctxErr b e \<noteq> None then Some (Inl (b_ctxErr b e), e)
      else let (r, e1) = b_createConsumer b (sb_StreamName cfg) cc e
           in case r of None \<Rightarrow> Some (Inr (), e1)
           | Some err \<Rightarrow>
              let (done, e2) = b_wait b (acquire_wait (attempt + 1)) e1
              in if done then Some (Inl (b_ctxErr b e2), e2)
                 else acquireConsumer fuel b cfg cc (attempt + 1) e2)"

definition fetch_wait :: "nat \<Rightarrow> duration" where
  "fetch_wait fails = (let wait = int fails * Second in if wait > 10 * Second then 10 * Second else wait)"

text \<open>One batch: every message is handled once, then acknowledged or refused.\<close>

fun handle_batch ::
  "('e, 'm) Broker \<Rightarrow> ('m \<Rightarrow> 's \<Rightarrow> string option \<times> 's) \<Rightarrow> 'm list \<Rightarrow> 's \<Rightarrow> 'e \<Rightarrow> ('m \<times> bool) list \<times> 's \<times> 'e" where
  "handle_batch b handler [] s e = ([], s, e)"
| "handle_batch b handler (msg # msgs) s e =
     (let (err, s1) = handler msg s;
          ok = (err = None);
          (acks, s2, e2) = handle_batch b handler msgs s1 (b_ack b msg ok e)
      in ((msg, ok) # acks, s2, e2))"

text \<open>
  The pull loop. The result is the context's error, with the acknowledgements given on the
  way; \<open>None\<close> is an exhausted fuel, that is, a loop that is still running.
\<close>

fun consume_loop ::
  "nat \<Rightarrow> ('e, 'm) Broker \<Rightarrow> SubscriberConfig \<Rightarrow> ConsumerConfig \<Rightarrow> ('m \<Rightarrow> 's \<Rightarrow> string option \<times> 's)
    \<Rightarrow> nat \<Rightarrow> 's \<Rightarrow> 'e \<Rightarrow> (string option \<times> ('m \<times> bool) list \<times> 's \<times> 'e) option" where
  "consume_loop 0 b cfg cc handler fails s e = None"
| "consume_loop (Suc fuel) b cfg cc handler fails s e =
     (if b_ctxErr b e \<noteq> None then Some (b_ctxErr b e, [], s, e)
      else case b_fetch b (sb_BatchSize cfg) (sb_MaxWait cfg) e of
        (Inl err, e1) \<Rightarrow>
          if b_ctxErr b e1 \<noteq> None then Some (b_ctxErr b e1, [], s, e1)
          else if isStaleConsumerErr (Some err) then
            (case acquireConsumer fuel b cfg cc 0 e1 of
               None \<Rightarrow> None
             | Some (Inl err, e2) \<Rightarrow> Some (err, [], s, e2)
             | Some (Inr _, e2) \<Rightarrow> consume_loop fuel b cfg cc handler 0 s e2)
          else let (done, e2) = b_wait b (fetch_wait (fails + 1)) e1
               in if done then Some (b_ctxErr b e2, [], s, e2)
                  else consume_loop fuel b cfg cc handler (fails + 1) s e2
      | (Inr (msgs, batchErr), e1) \<Rightarrow>
          let (acks, s1, e2) = handle_batch b handler msgs s e1;
              rest = (\<lambda>e3. map_option (\<lambda>(r, as, s2, e4). (r, acks @ as, s2, e4))
                             (consume_loop fuel b cfg cc handler 0 s1 e3))
          in if batchErr \<noteq> None \<and> b_ctxErr b e2 = None \<and> isStaleConsumerErr batchErr then
               (case acquireConsumer fuel b cfg cc 0 e2 of
                  None \<Rightarrow> None
                | Some (Inl err, e3) \<Rightarrow> Some (err, acks, s1, e3)
                | Some (Inr _, e3) \<Rightarrow> rest e3)
             else rest e2)"

definition consume ::
  "nat \<Rightarrow> ('e, 'm) Broker \<Rightarrow> SubscriberConfig \<Rightarrow> string \<Rightarrow> string \<Rightarrow> ('m \<Rightarrow> 's \<Rightarrow> string option \<times> 's)
    \<Rightarrow> 's \<Rightarrow> 'e \<Rightarrow> (string option \<times> ('m \<times> bool) list \<times> 's \<times> 'e) option" where
  "consume fuel b cfg subject consumerName handler s e =
     (let cc = consumer_config subject consumerName
      in case acquireConsumer fuel b cfg cc 0 e of
           None \<Rightarrow> None
         | Some (Inl err, e1) \<Rightarrow> Some (err, [], s, e1)
         | Some (Inr _, e1) \<Rightarrow> consume_loop fuel b cfg cc handler 0 s e1)"

text \<open>The subscriptions: the subject and the durable consumer of each.\<close>

definition SubscribeSignals where
  "SubscribeSignals fuel b cfg handler = consume fuel b cfg ''selfheal.signals.*'' ''selfheal-analyzer-signals'' handler"

definition SubscribeAnomalies where
  "SubscribeAnomalies fuel b cfg handler =
     consume fuel b cfg ''selfheal.anomalies.*'' ''selfheal-controller-anomalies'' handler"

definition SubscribeOutcomes where
  "SubscribeOutcomes fuel b cfg handler = consume fuel b cfg ''selfheal.outcomes.*'' ''selfheal-analyzer-outcomes'' handler"

definition SubscribeIncidents where
  "SubscribeIncidents fuel b cfg handler =
     consume fuel b cfg ''selfheal.incidents.*'' ''selfheal-controller-incidents'' handler"

definition SubscribeAnomaliesIntelligence where
  "SubscribeAnomaliesIntelligence fuel b cfg handler =
     consume fuel b cfg ''selfheal.anomalies.*'' ''selfheal-intelligence-anomalies'' handler"

section \<open>Start-up\<close>

text \<open>
  One failed round that is not cancelled: the stream is refused and the delay passes. The
  environment after \<open>n\<close> such rounds, when they all fail.
\<close>

fun ensure_env :: "('e, 'm) Broker \<Rightarrow> nat \<Rightarrow> nat \<Rightarrow> 'e \<Rightarrow> 'e" where
  "ensure_env b 0 attempt e = e"
| "ensure_env b (Suc n) attempt e =
     ensure_env b n (attempt + 1) (snd (b_wait b (ensure_wait attempt) (snd (b_createStream b stream_config e))))"

definition round_fails :: "('e, 'm) Broker \<Rightarrow> nat \<Rightarrow> 'e \<Rightarrow> bool" where
  "round_fails b attempt e \<longleftrightarrow>
     fst (b_createStream b stream_config e) \<noteq> None
     \<and> b_ctxErr b (snd (b_createStream b stream_config e)) = None
     \<and> \<not> fst (b_wait b (ensure_wait attempt) (snd (b_createStream b stream_config e)))"

lemma EnsureStream_round:
  "attempt \<le> maxAttempts \<Longrightarrow> round_fails b attempt e \<Longrightarrow>
   EnsureStream_from b attempt e =
   EnsureStream_from b (attempt + 1) (snd (b_wait b (ensure_wait attempt) (snd (b_createStream b stream_config e))))"
  by (subst EnsureStream_from.simps) (auto simp: round_fails_def case_prod_beta Let_def)

lemma EnsureStream_rounds:
  assumes "\<forall>i < n. round_fails b (attempt + i) (ensure_env b i attempt e)" "attempt + n \<le> Suc maxAttempts"
  shows "EnsureStream_from b attempt e = EnsureStream_from b (attempt + n) (ensure_env b n attempt e)"
  using assms
proof (induction n arbitrary: attempt e)
  case (Suc n)
  let ?e = "snd (b_wait b (ensure_wait attempt) (snd (b_createStream b stream_config e)))"
  have "round_fails b attempt e" using Suc.prems(1) by (auto dest: spec [of _ 0])
  then have "EnsureStream_from b attempt e = EnsureStream_from b (attempt + 1) ?e"
    using Suc.prems(2) by (intro EnsureStream_round) auto
  also have "\<dots> = EnsureStream_from b (attempt + 1 + n) (ensure_env b n (attempt + 1) ?e)"
    using Suc.prems by (intro Suc.IH) (force dest: spec [of _ "Suc _"])+
  finally show ?case by simp
qed simp

text \<open>Nine failures in a row are survived; the tenth is reported.\<close>

lemma EnsureStream_recovers:
  assumes "\<forall>i < n. round_fails b (1 + i) (ensure_env b i 1 e)" "n < maxAttempts"
    and "fst (b_createStream b stream_config (ensure_env b n 1 e)) = None"
  shows "fst (EnsureStream b e) = None"
  using EnsureStream_rounds [OF assms(1)] assms(2,3)
  by (simp add: EnsureStream_def EnsureStream_from.simps [of b "Suc n"] case_prod_beta)

lemma EnsureStream_gives_up:
  assumes "\<forall>i < maxAttempts. round_fails b (1 + i) (ensure_env b i 1 e)"
  shows "fst (EnsureStream b e) = Some (ExceededAttempts SelfHealStreamName 10)"
  using EnsureStream_rounds [OF assms]
  by (simp add: EnsureStream_def EnsureStream_from.simps [of b "Suc maxAttempts"]) (simp add: maxAttempts_def)

lemma wait_bounds:
  "0 < ensure_wait n \<and> ensure_wait n \<le> 10 * Second"
  "acquire_wait n \<le> 30 * Second" "fetch_wait n \<le> 10 * Second"
  by (auto simp: ensure_wait_def acquire_wait_def fetch_wait_def Let_def unit_defs)

section \<open>The pull loop\<close>

text \<open>A message is acknowledged exactly when its handler succeeded, in delivery order.\<close>

fun run_handler :: "('m \<Rightarrow> 's \<Rightarrow> string option \<times> 's) \<Rightarrow> 'm list \<Rightarrow> 's \<Rightarrow> ('m \<times> bool) list \<times> 's" where
  "run_handler handler [] s = ([], s)"
| "run_handler handler (m # ms) s =
     (let (err, s1) = handler m s; (rs, s2) = run_handler handler ms s1 in ((m, err = None) # rs, s2))"

lemma handle_batch_run:
  "handle_batch b handler ms s e = (acks, s', e') \<Longrightarrow> run_handler handler ms s = (acks, s')"
  by (induction ms arbitrary: s e acks) (auto simp: Let_def case_prod_beta prod_eq_iff)

lemma run_handler_append:
  "run_handler h (ms @ ns) s =
   (let (rs, s1) = run_handler h ms s; (qs, s2) = run_handler h ns s1 in (rs @ qs, s2))"
  by (induction ms arbitrary: s) (auto simp: case_prod_beta)

lemma run_handler_msgs: "map fst (fst (run_handler h ms s)) = ms"
  by (induction ms arbitrary: s) (auto simp: case_prod_beta)

lemma handle_batch_acks: "handle_batch b handler ms s e = (acks, s', e') \<Longrightarrow> map fst acks = ms"
  using run_handler_msgs [of handler ms s] by (auto dest!: handle_batch_run)

text \<open>A wait that reports the end of the context is truthful about it.\<close>

definition wait_honest :: "('e, 'm) Broker \<Rightarrow> bool" where
  "wait_honest b \<longleftrightarrow> (\<forall>d e e'. b_wait b d e = (True, e') \<longrightarrow> b_ctxErr b e' \<noteq> None)"

lemma acquireConsumer_ctx:
  "acquireConsumer fuel b cfg cc n e = Some (Inl r, e') \<Longrightarrow> wait_honest b \<Longrightarrow> r \<noteq> None \<and> b_ctxErr b e' = r"
proof (induction fuel b cfg cc n e rule: acquireConsumer.induct)
  case (2 fuel b cfg cc attempt e)
  then show ?case
    by (auto simp: wait_honest_def Let_def split: if_splits option.splits prod.splits) metis+
qed simp

text \<open>
  What the loop returns is a run of the handler over the messages it took, in order, with
  an acknowledgement exactly where the handler succeeded; and the loop returns only when
  the context has ended.
\<close>

definition consumed :: "('e, 'm) Broker \<Rightarrow> ('m \<Rightarrow> 's \<Rightarrow> string option \<times> 's) \<Rightarrow> 's
    \<Rightarrow> string option \<times> ('m \<times> bool) list \<times> 's \<times> 'e \<Rightarrow> bool" where
  "consumed b handler s res =
     (case res of (r, acks, s', e') \<Rightarrow>
        r \<noteq> None \<and> b_ctxErr b e' = r \<and> run_handler handler (map fst acks) s = (acks, s'))"

lemma consumed_Nil:
  "b_ctxErr b e \<noteq> None \<Longrightarrow> consumed b h s (b_ctxErr b e, [], s, e)"
  "b_ctxErr b e = Some y \<Longrightarrow> consumed b h s (Some y, [], s, e)"
  by (simp_all add: consumed_def)

lemma consumed_batch:
  assumes "handle_batch b h ms s e = (acks, s1, e1)" "consumed b h s1 (r, as, s2, e2)"
  shows "consumed b h s (r, acks @ as, s2, e2)"
  using assms(2) handle_batch_run [OF assms(1)] handle_batch_acks [OF assms(1)]
  by (simp add: consumed_def run_handler_append)

lemma consumed_acquire:
  assumes "acquireConsumer fuel b cfg cc n e = Some (Inl r, e')" "wait_honest b"
  shows "consumed b h s (r, [], s, e')"
  using acquireConsumer_ctx [OF assms] by (auto simp: consumed_def)

lemma consume_loop_fetch_error:
  assumes "consume_loop (Suc fuel) b cfg cc h fails s e = Some res" "wait_honest b"
    and "b_fetch b (sb_BatchSize cfg) (sb_MaxWait cfg) e = (Inl err, e1)" "b_ctxErr b e = None"
    and IH: "\<And>n e2. consume_loop fuel b cfg cc h n s e2 = Some res \<Longrightarrow> consumed b h s res"
  shows "consumed b h s res"
proof (cases "b_ctxErr b e1 = None \<and> \<not> isStaleConsumerErr (Some err)")
  case True
  then show ?thesis
    using assms(1-4) IH
    by (auto simp: wait_honest_def Let_def split: prod.splits if_splits intro!: consumed_Nil)
next
  case False
  then show ?thesis
    using assms(1,3,4) IH
    by (auto split: if_splits option.splits prod.splits sum.splits
        intro: consumed_Nil consumed_acquire [OF _ assms(2)])
qed

lemma consume_loop_batch:
  assumes "consume_loop (Suc fuel) b cfg cc h fails s e = Some res" "wait_honest b"
    and "b_fetch b (sb_BatchSize cfg) (sb_MaxWait cfg) e = (Inr (msgs, batchErr), e1)" "b_ctxErr b e = None"
    and IH: "\<And>s1 e2 res. consume_loop fuel b cfg cc h 0 s1 e2 = Some res \<Longrightarrow> consumed b h s1 res"
  shows "consumed b h s res"
proof -
  obtain acks s1 e2 where hb: "handle_batch b h msgs s e1 = (acks, s1, e2)" by (cases "handle_batch b h msgs s e1")
  consider e3 r as s2 e4 where "consume_loop fuel b cfg cc h 0 s1 e3 = Some (r, as, s2, e4)"
      "res = (r, acks @ as, s2, e4)"
    | err e3 where "acquireConsumer fuel b cfg cc 0 e2 = Some (Inl err, e3)" "res = (err, acks, s1, e3)"
    using assms(1,3,4) hb by (auto simp: Let_def split: if_splits option.splits sum.splits)
  then show ?thesis
  proof cases
    case 1
    then show ?thesis using consumed_batch [OF hb IH [OF 1(1)]] by simp
  next
    case 2
    then show ?thesis using consumed_batch [OF hb consumed_acquire [OF 2(1) assms(2)]] by simp
  qed
qed

lemma consume_loop_consumed:
  "consume_loop fuel b cfg cc h fails s e = Some res \<Longrightarrow> wait_honest b \<Longrightarrow> consumed b h s res"
proof (induction fuel arbitrary: fails s e res)
  case (Suc fuel)
  show ?case
  proof (cases "b_ctxErr b e")
    case None
    obtain r e1 where f: "b_fetch b (sb_BatchSize cfg) (sb_MaxWait cfg) e = (r, e1)" by fastforce
    show ?thesis
    proof (cases r)
      case (Inl err)
      then show ?thesis
        using consume_loop_fetch_error [OF Suc.prems _ None] f Suc.IH [OF _ Suc.prems(2)] by blast
    next
      case (Inr q)
      then show ?thesis
        using consume_loop_batch [OF Suc.prems _ None] f Suc.IH [OF _ Suc.prems(2)] by (cases q) blast
    qed
  next
    case (Some r)
    then show ?thesis using Suc.prems(1) by (auto intro: consumed_Nil)
  qed
qed simp

lemma consume_consumed:
  assumes "consume fuel b cfg subject name h s e = Some res" "wait_honest b"
  shows "consumed b h s res"
  using assms(1)
  by (auto simp: consume_def Let_def split: option.splits sum.splits
      intro: consumed_acquire [OF _ assms(2)] consume_loop_consumed [OF _ assms(2)])

text \<open>
  Cancellation is obeyed: with a context that has already ended no message is taken, and
  one round of fuel is enough to return.
\<close>

lemma consume_cancelled:
  "b_ctxErr b e = Some r \<Longrightarrow> consume (Suc fuel) b cfg subject name h s e = Some (Some r, [], s, e)"
  by (simp add: consume_def)

text \<open>
  The context ends: \<open>left\<close> bounds the calls to the broker and the waits that are still made before
  it is cancelled.
\<close>

definition context_ends :: "('e, 'm) Broker \<Rightarrow> ('e \<Rightarrow> nat) \<Rightarrow> bool" where
  "context_ends b left \<longleftrightarrow>
     (\<forall>e. (left e = 0 \<longrightarrow> b_ctxErr b e \<noteq> None)
        \<and> (\<forall>name cc. left (snd (b_createConsumer b name cc e)) \<le> left e - 1)
        \<and> (\<forall>size wait. left (snd (b_fetch b size wait e)) \<le> left e - 1)
        \<and> (\<forall>d. left (snd (b_wait b d e)) \<le> left e - 1)
        \<and> (\<forall>msg ok. left (b_ack b msg ok e) \<le> left e))"

lemma context_endsD:
  assumes "context_ends b left"
  shows "b_ctxErr b e = None \<Longrightarrow> 0 < left e"
    and "b_createConsumer b name cc e = (r, e1) \<Longrightarrow> left e1 \<le> left e - 1"
    and "b_fetch b k d e = (f, e1) \<Longrightarrow> left e1 \<le> left e - 1"
    and "b_wait b d e = (done, e1) \<Longrightarrow> left e1 \<le> left e - 1"
    and "left (b_ack b msg ok e) \<le> left e"
  using assms unfolding context_ends_def by (metis snd_conv neq0_conv)+

lemma acquireConsumer_returns:
  assumes "context_ends b left" "left e < fuel"
  shows "\<exists>r e'. acquireConsumer fuel b cfg cc n e = Some (r, e') \<and> left e' \<le> left e"
  using assms(2)
proof (induction fuel arbitrary: n e)
  case (Suc fuel)
  obtain r e1 where c: "b_createConsumer b (sb_StreamName cfg) cc e = (r, e1)" by fastforce
  obtain d e2 where w: "b_wait b (acquire_wait (n + 1)) e1 = (d, e2)" by fastforce
  note D = context_endsD [OF assms(1)]
  show ?case
  proof (cases "b_ctxErr b e")
    case None
    then have l: "left e1 < left e" "left e2 < left e"
      using D(1) [of e] D(2) [OF c] D(4) [OF w] by linarith+
    obtain r' e' where "acquireConsumer fuel b cfg cc (n + 1) e2 = Some (r', e')" "left e' \<le> left e2"
      using Suc.IH [of e2 "n + 1"] Suc.prems l by auto
    then show ?thesis using None c w l by (auto split: option.split)
  qed simp
qed simp

lemma handle_batch_left:
  assumes "context_ends b left"
  shows "handle_batch b h ms s e = (acks, s', e') \<Longrightarrow> left e' \<le> left e"
proof (induction ms arbitrary: s e acks)
  case (Cons m ms)
  from Cons.prems obtain ok s1 acks' where
    "handle_batch b h ms s1 (b_ack b m ok e) = (acks', s', e')"
    by (auto simp: Let_def split: prod.splits)
  then have "left e' \<le> left (b_ack b m ok e)" by (rule Cons.IH)
  also have "\<dots> \<le> left e" by (rule context_endsD [OF assms])
  finally show ?case .
qed simp

lemma consume_loop_returns:
  assumes "context_ends b left" "left e < fuel"
  shows "consume_loop fuel b cfg cc h n s e \<noteq> None"
  using assms(2)
proof (induction fuel arbitrary: n s e)
  case (Suc fuel)
  note D = context_endsD [OF assms(1)]
  have acq: "\<exists>r e'. acquireConsumer fuel b cfg cc 0 e1 = Some (r, e') \<and> left e' < fuel" if "left e1 < fuel" for e1
    using acquireConsumer_returns [OF assms(1) that] that le_less_trans by blast
  show ?case
  proof (cases "b_ctxErr b e")
    case None
    obtain f e1 where f: "b_fetch b (sb_BatchSize cfg) (sb_MaxWait cfg) e = (f, e1)" by fastforce
    have e1: "left e1 < fuel" using D(1) [OF None] D(3) [OF f] Suc.prems by linarith
    show ?thesis
    proof (cases f)
      case (Inl err)
      obtain d e2 where w: "b_wait b (fetch_wait (n + 1)) e1 = (d, e2)" by fastforce
      have e2: "left e2 < fuel" using D(4) [OF w] e1 by linarith
      obtain r e3 where a: "acquireConsumer fuel b cfg cc 0 e1 = Some (r, e3)" "left e3 < fuel" using acq [OF e1] by blast
      show ?thesis using None f Inl w a(1) Suc.IH [OF e2, of "n + 1" s] Suc.IH [OF a(2), of 0 s]
        by (cases r) auto
    next
      case (Inr r)
      obtain msgs batchErr where r: "r = (msgs, batchErr)" by (cases r)
      obtain acks s1 e2 where h: "handle_batch b h msgs s e1 = (acks, s1, e2)" by (cases "handle_batch b h msgs s e1")
      have e2: "left e2 < fuel" using handle_batch_left [OF assms(1) h] e1 by linarith
      obtain q e3 where a: "acquireConsumer fuel b cfg cc 0 e2 = Some (q, e3)" "left e3 < fuel" using acq [OF e2] by blast
      show ?thesis using None f Inr r h a(1) Suc.IH [OF e2, of 0 s1] Suc.IH [OF a(2), of 0 s1]
        by (cases q) auto
    qed
  qed simp
qed simp

text \<open>So one unit of fuel per call and one more are enough for the consumer to return.\<close>

lemma consume_returns:
  assumes "context_ends b left" "left e < fuel"
  shows "consume fuel b cfg subject name h s e \<noteq> None"
proof -
  obtain r e' where a: "acquireConsumer fuel b cfg (consumer_config subject name) 0 e = Some (r, e')" "left e' \<le> left e"
    using acquireConsumer_returns [OF assms] by blast
  then have "left e' < fuel" using assms(2) by linarith
  then show ?thesis using a consume_loop_returns [OF assms(1)]
    by (auto simp: consume_def Let_def split: sum.splits)
qed

section \<open>What the broker sees\<close>

text \<open>
  The same broker with two logs beside its environment: the messages its fetches delivered
  and the answers it was given, both in order.
\<close>

definition recording :: "('e, 'm) Broker \<Rightarrow> ('e \<times> 'm list \<times> ('m \<times> bool) list, 'm) Broker" where
  "recording b =
     \<lparr>b_ctxErr = (\<lambda>(e, _). b_ctxErr b e),
      b_wait = (\<lambda>d (e, l). case b_wait b d e of (done, e1) \<Rightarrow> (done, e1, l)),
      b_createStream = (\<lambda>c (e, l). case b_createStream b c e of (r, e1) \<Rightarrow> (r, e1, l)),
      b_createConsumer = (\<lambda>s c (e, l). case b_createConsumer b s c e of (r, e1) \<Rightarrow> (r, e1, l)),
      b_fetch = (\<lambda>k d (e, got, sent). case b_fetch b k d e of
          (Inl err, e1) \<Rightarrow> (Inl err, e1, got, sent)
        | (Inr (ms, err), e1) \<Rightarrow> (Inr (ms, err), e1, got @ ms, sent)),
      b_ack = (\<lambda>m ok (e, got, sent). (b_ack b m ok e, got, sent @ [(m, ok)]))\<rparr>"

lemma recording_ctxErr [simp]: "b_ctxErr (recording b) (e, l) = b_ctxErr b e"
  by (simp add: recording_def)

lemma recording_ack [simp]: "b_ack (recording b) m ok (e, got, sent) = (b_ack b m ok e, got, sent @ [(m, ok)])"
  by (simp add: recording_def)

lemma recording_wait_honest: "wait_honest b \<Longrightarrow> wait_honest (recording b)"
  by (auto simp: wait_honest_def recording_def split: prod.splits)

lemma recording_context_ends: "context_ends b left \<Longrightarrow> context_ends (recording b) (left \<circ> fst)"
  by (auto simp: context_ends_def recording_def split: prod.splits sum.splits) (metis snd_conv)+

text \<open>
  From given logs, a part of the loop that returns the answers \<open>acks\<close> has delivered exactly
  the messages answered and sent exactly those answers.
\<close>

definition logged :: "'m list \<times> ('m \<times> bool) list \<Rightarrow> ('m \<times> bool) list \<Rightarrow> 'm list \<times> ('m \<times> bool) list \<Rightarrow> bool" where
  "logged l acks l' \<longleftrightarrow> l' = (fst l @ map fst acks, snd l @ acks)"

lemma logged_Nil [simp]: "logged l [] l"
  by (simp add: logged_def)

lemma logged_append: "logged l as l1 \<Longrightarrow> logged l1 bs l2 \<Longrightarrow> logged l (as @ bs) l2"
  by (simp add: logged_def)

lemma recording_wait: "b_wait (recording b) d (e, l) = (done, e1, l1) \<Longrightarrow> l1 = l"
  by (auto simp: recording_def split: prod.splits)

lemma recording_create: "b_createConsumer (recording b) s c (e, l) = (r, e1, l1) \<Longrightarrow> l1 = l"
  by (auto simp: recording_def split: prod.splits)

lemma recording_fetch:
  "b_fetch (recording b) k d (e, got, sent) = (Inl err, e1, l1) \<Longrightarrow> l1 = (got, sent)"
  "b_fetch (recording b) k d (e, got, sent) = (Inr (ms, berr), e1, l1) \<Longrightarrow> l1 = (got @ ms, sent)"
  by (auto simp: recording_def split: prod.splits sum.splits)

lemma recording_acquire:
  "acquireConsumer fuel (recording b) cfg cc n (e, l) = Some (r, e', l') \<Longrightarrow> l' = l"
proof (induction fuel arbitrary: n e)
  case (Suc fuel)
  then show ?case
    by (auto simp: Let_def split: if_splits option.splits prod.splits
        dest!: recording_wait recording_create)
qed simp

lemma recording_handle_batch:
  "handle_batch (recording b) h ms s (e, got, sent) = (acks, s', e', l') \<Longrightarrow> l' = (got, sent @ acks)"
proof (induction ms arbitrary: s e sent acks)
  case (Cons m ms)
  then show ?case by (fastforce simp: Let_def split: prod.splits)
qed simp

lemma recording_batch:
  assumes "b_fetch (recording b) k d (e, l) = (Inr (ms, berr), e1, l1)"
    and "handle_batch (recording b) h ms s (e1, l1) = (acks, s1, e2, l2)"
  shows "logged l acks l2"
  using assms recording_fetch(2) [of b k d e "fst l" "snd l"] recording_handle_batch [of b h ms s e1 "fst l1" "snd l1"]
    handle_batch_acks [OF assms(2)]
  by (auto simp: logged_def)

lemma recording_loop:
  "consume_loop fuel (recording b) cfg cc h n s (e, l) = Some (r, acks, s', e', l') \<Longrightarrow> logged l acks l'"
proof (induction fuel arbitrary: n s e l r acks s' e' l')
  case (Suc fuel)
  obtain f e1 l1 where f: "b_fetch (recording b) (sb_BatchSize cfg) (sb_MaxWait cfg) (e, l) = (f, e1, l1)"
    by (cases "b_fetch (recording b) (sb_BatchSize cfg) (sb_MaxWait cfg) (e, l)") auto
  show ?case
  proof (cases f)
    case (Inl err)
    have [simp]: "l1 = l" using recording_fetch(1) [of b _ _ e "fst l" "snd l"] f Inl by auto
    show ?thesis
      using Suc.prems f Inl
      by (auto simp: Let_def split: if_splits option.splits sum.splits prod.splits
          dest: recording_wait recording_acquire dest!: Suc.IH)
  next
    case (Inr q)
    obtain ms berr where [simp]: "q = (ms, berr)" by fastforce
    obtain as s1 e2 l2 where hb: "handle_batch (recording b) h ms s (e1, l1) = (as, s1, e2, l2)"
      by (cases "handle_batch (recording b) h ms s (e1, l1)") auto
    have b: "logged l as l2" using recording_batch [of b _ _ e l ms berr e1 l1] f Inr hb by simp
    show ?thesis
      using Suc.prems f Inr hb b
      by (auto simp: Let_def split: if_splits option.splits sum.splits prod.splits
          dest: recording_acquire dest!: Suc.IH intro: logged_append)
  qed
qed simp

lemma recording_consume:
  "consume fuel (recording b) cfg subject name h s (e, l) = Some (r, acks, s', e', l') \<Longrightarrow> logged l acks l'"
  by (auto simp: consume_def Let_def split: option.splits sum.splits dest!: recording_acquire dest: recording_loop)

text \<open>The logs change nothing: without them the run is the one of the broker itself.\<close>

lemma recording_sim:
  "b_wait (recording b) d (e, l) = (fst (b_wait b d e), snd (b_wait b d e), l)"
  "b_createConsumer (recording b) s c (e, l) = (fst (b_createConsumer b s c e), snd (b_createConsumer b s c e), l)"
  "fst (b_fetch (recording b) k t (e, l)) = fst (b_fetch b k t e)"
  "fst (snd (b_fetch (recording b) k t (e, l))) = snd (b_fetch b k t e)"
  by (auto simp: recording_def split: prod.splits sum.splits)

lemma acquire_erase:
  "acquireConsumer fuel (recording b) cfg cc n (e, l) = map_option (\<lambda>(r, e'). (r, e', l)) (acquireConsumer fuel b cfg cc n e)"
  by (induction fuel arbitrary: n e) (auto simp: Let_def recording_sim case_prod_beta split: option.splits)

lemma handle_batch_erase:
  "handle_batch b h ms s e = (case handle_batch (recording b) h ms s (e, l) of (acks, s', e') \<Rightarrow> (acks, s', fst e'))"
proof (induction ms arbitrary: s e l)
  case (Cons m ms)
  show ?case
    by (cases l) (simp add: Let_def case_prod_beta Cons [of _ _ "(fst l, snd l @ [(m, fst (h m s) = None)])"])
qed simp

definition erase_run :: "(string option \<times> ('m \<times> bool) list \<times> 's \<times> ('e \<times> 'l)) option \<Rightarrow> (string option \<times> ('m \<times> bool) list \<times> 's \<times> 'e) option" where
  "erase_run = map_option (\<lambda>(r, acks, s', e'). (r, acks, s', fst e'))"

lemma loop_erase:
  "consume_loop fuel b cfg cc h n s e = erase_run (consume_loop fuel (recording b) cfg cc h n s (e, l))"
proof (induction fuel arbitrary: n s e l)
  case (Suc fuel)
  note IH = Suc.IH [unfolded erase_run_def]
  obtain f e1 l1 where f: "b_fetch (recording b) (sb_BatchSize cfg) (sb_MaxWait cfg) (e, l) = (f, e1, l1)"
    by (cases "b_fetch (recording b) (sb_BatchSize cfg) (sb_MaxWait cfg) (e, l)") auto
  then have f0: "b_fetch b (sb_BatchSize cfg) (sb_MaxWait cfg) e = (f, e1)"
    using recording_sim(3,4) [of b "sb_BatchSize cfg" "sb_MaxWait cfg" e l] by (simp add: prod_eq_iff)
  note a = acquire_erase [of fuel b cfg cc 0 e1 l1]
  show ?case
  proof (cases f)
    case (Inl err)
    show ?thesis
      using f f0 Inl a IH [of _ _ _ l1]
      by (auto simp: erase_run_def recording_sim Let_def case_prod_beta split: option.splits sum.splits)
  next
    case (Inr q)
    obtain ms berr where [simp]: "q = (ms, berr)" by fastforce
    obtain as s1 e2 l2 where hb: "handle_batch (recording b) h ms s (e1, l1) = (as, s1, e2, l2)"
      by (cases "handle_batch (recording b) h ms s (e1, l1)") auto
    then have hb0: "handle_batch b h ms s e1 = (as, s1, e2)" using handle_batch_erase [of b h ms s e1 l1] by simp
    show ?thesis
      using f f0 Inr hb hb0 acquire_erase [of fuel b cfg cc 0 e2 l2] IH [of _ _ _ l2]
      by (auto simp: erase_run_def recording_sim Let_def case_prod_beta option.map_comp comp_def split: option.splits sum.splits)
  qed
qed (simp add: erase_run_def)

lemma consume_erase:
  "consume fuel b cfg subject name h s e = erase_run (consume fuel (recording b) cfg subject name h s (e, l))"
  using acquire_erase [of fuel b cfg "consumer_config subject name" 0 e l] loop_erase [of fuel b cfg _ h 0 s]
  by (auto simp: consume_def Let_def erase_run_def split: option.splits sum.splits)

end
