(* ===== verification/CircuitBreaker.thy ===== *)
theory CircuitBreaker
  imports Policy
begin

text \<open>
  The circuit breaker (\<open>internal/controller/guardrails/circuit_breaker.go\<close>). Every method
  body is one step under the breaker's mutex, with its clock readings as arguments. The
  abstract breaker is the instant until which actions are paused; \<open>Allow\<close> refines it.
\<close>

section \<open>State and operations\<close>

record outcomeRecord =
  or_at :: instant
  or_success :: bool

record CircuitBreaker =
  cb_history :: "outcomeRecord list"
  cb_trippedAt :: instant
  cb_isOpen :: bool
  cb_failurePct :: int
  cb_evalWindow :: duration
  cb_pauseDuration :: duration
  cb_enabled :: bool

text \<open>An unparsable or zero duration falls back to the default.\<close>

definition parse_or :: "string \<Rightarrow> duration \<Rightarrow> duration" where
  "parse_or s d = (case ParseDuration s of None \<Rightarrow> d | Some w \<Rightarrow> if w = 0 then d else w)"

definition NewCircuitBreaker :: "Policy \<Rightarrow> CircuitBreaker" where
  "NewCircuitBreaker p =
     (let cb = po_CircuitBreaker p
      in \<lparr>cb_history = [], cb_trippedAt = zeroTime, cb_isOpen = False,
          cb_failurePct = cbc_TriggerOnFailurePct cb,
          cb_evalWindow = parse_or (cbc_EvaluationWindow cb) (5 * Minute),
          cb_pauseDuration = parse_or (cbc_PauseDuration cb) (10 * Minute),
          cb_enabled = cbc_Enabled cb\<rparr>)"

definition CircuitBreaker_Allow :: "instant \<Rightarrow> CircuitBreaker \<Rightarrow> bool \<times> CircuitBreaker" where
  "CircuitBreaker_Allow now cb =
     (if \<not> cb_enabled cb then (True, cb)
      else if cb_isOpen cb then
        (if Sub now (cb_trippedAt cb) \<ge> cb_pauseDuration cb
         then (True, cb\<lparr>cb_isOpen := False, cb_history := []\<rparr>)
         else (False, cb))
      else (True, cb))"

definition cb_record :: "instant \<Rightarrow> bool \<Rightarrow> CircuitBreaker \<Rightarrow> CircuitBreaker" where
  "cb_record now success cb =
     (let cutoff = Add now (- cb_evalWindow cb);
          pruned = filter (\<lambda>r. After (or_at r) cutoff) (cb_history cb)
      in cb\<lparr>cb_history := pruned @ [\<lparr>or_at = now, or_success = success\<rparr>]\<rparr>)"

definition cb_failures :: "CircuitBreaker \<Rightarrow> nat" where
  "cb_failures cb = length (filter (\<lambda>r. \<not> or_success r) (cb_history cb))"

text \<open>Go's integer division truncates; both operands are non-negative here.\<close>

definition maybeTrip :: "instant \<Rightarrow> CircuitBreaker \<Rightarrow> CircuitBreaker" where
  "maybeTrip now cb =
     (if length (cb_history cb) < 2 then cb
      else let failurePct = (int (cb_failures cb) * 100) div int (length (cb_history cb))
           in if failurePct > cb_failurePct cb
              then cb\<lparr>cb_isOpen := True, cb_trippedAt := now\<rparr> else cb)"

definition RecordSuccess :: "instant \<Rightarrow> CircuitBreaker \<Rightarrow> CircuitBreaker" where
  "RecordSuccess now cb = (if \<not> cb_enabled cb then cb else cb_record now True cb)"

definition RecordFailure :: "instant \<Rightarrow> instant \<Rightarrow> CircuitBreaker \<Rightarrow> CircuitBreaker" where
  "RecordFailure now1 now2 cb = (if \<not> cb_enabled cb then cb else maybeTrip now2 (cb_record now1 False cb))"

definition IsOpen :: "CircuitBreaker \<Rightarrow> bool" where
  "IsOpen cb = cb_isOpen cb"

text \<open>\<open>TripReason\<close> formats the remaining pause; \<open>None\<close> is its empty string.\<close>

definition TripReason :: "instant \<Rightarrow> CircuitBreaker \<Rightarrow> duration option" where
  "TripReason now cb = (if \<not> cb_isOpen cb then None else Some (cb_pauseDuration cb - Sub now (cb_trippedAt cb)))"

lemmas breaker_defs = CircuitBreaker_Allow_def cb_record_def maybeTrip_def RecordSuccess_def
  RecordFailure_def Let_def

declare CircuitBreaker_Allow_def [gate_defs]

section \<open>Frame\<close>

definition cb_config :: "CircuitBreaker \<Rightarrow> int \<times> duration \<times> duration \<times> bool" where
  "cb_config cb = (cb_failurePct cb, cb_evalWindow cb, cb_pauseDuration cb, cb_enabled cb)"

lemma cb_config_step [simp]:
  "cb_config (snd (CircuitBreaker_Allow now cb)) = cb_config cb"
  "cb_config (RecordSuccess now cb) = cb_config cb"
  "cb_config (RecordFailure now1 now2 cb) = cb_config cb"
  by (simp_all add: breaker_defs cb_config_def)

section \<open>Tripping\<close>

text \<open>The outcomes that count when an outcome is recorded at \<open>now\<close>.\<close>

definition recent :: "instant \<Rightarrow> CircuitBreaker \<Rightarrow> outcomeRecord list" where
  "recent now cb = filter (\<lambda>r. now - cb_evalWindow cb < or_at r) (cb_history cb)"

definition failed :: "outcomeRecord list \<Rightarrow> nat" where
  "failed rs = length (filter (\<lambda>r. \<not> or_success r) rs)"

text \<open>
  A recorded failure opens the breaker exactly when at least one earlier outcome lies in
  the window and the share of failures, as a percentage rounded down, exceeds the
  threshold; without a division, when \<open>100 * failures \<ge> (threshold + 1) * outcomes\<close>.
\<close>

lemma percent_floor: "0 < n \<Longrightarrow> (p::int) < (f * 100) div n \<longleftrightarrow> (p + 1) * n \<le> f * 100"
proof
  assume n: "0 < n" and "p < (f * 100) div n"
  then have "(p + 1) * n \<le> ((f * 100) div n) * n" by (intro mult_right_mono) auto
  also have "\<dots> \<le> f * 100" using n by (simp add: minus_mod_eq_div_mult [symmetric])
  finally show "(p + 1) * n \<le> f * 100" .
next
  assume n: "0 < n" and "(p + 1) * n \<le> f * 100"
  then have "((p + 1) * n) div n \<le> (f * 100) div n" by (intro zdiv_mono1) auto
  then show "p < (f * 100) div n" using n by simp
qed

lemma RecordFailure_opens_iff:
  assumes "cb_enabled cb" "\<not> cb_isOpen cb"
  shows "cb_isOpen (RecordFailure n1 n2 cb) \<longleftrightarrow>
         recent n1 cb \<noteq> [] \<and>
         (cb_failurePct cb + 1) * (int (length (recent n1 cb)) + 1) \<le> (int (failed (recent n1 cb)) + 1) * 100"
proof -
  have "cb_history (cb_record n1 False cb) = recent n1 cb @ [\<lparr>or_at = n1, or_success = False\<rparr>]"
    by (simp add: cb_record_def recent_def Let_def time_simps)
  moreover have "cb_failurePct (cb_record n1 False cb) = cb_failurePct cb" "\<not> cb_isOpen (cb_record n1 False cb)"
    using assms(2) by (simp_all add: cb_record_def Let_def)
  ultimately show ?thesis
    using assms(1) percent_floor [of "int (length (recent n1 cb)) + 1" "cb_failurePct cb"
        "int (failed (recent n1 cb)) + 1"]
    by (auto simp: RecordFailure_def maybeTrip_def cb_failures_def failed_def Let_def add.commute)
qed

lemma RecordFailure_trippedAt:
  "cb_enabled cb \<Longrightarrow> \<not> cb_isOpen cb \<Longrightarrow> cb_isOpen (RecordFailure n1 n2 cb) \<Longrightarrow>
   cb_trippedAt (RecordFailure n1 n2 cb) = n2"
  by (auto simp: breaker_defs split: if_splits)

text \<open>Successes never open the breaker, and every kept outcome lies in the window.\<close>

lemma RecordSuccess_isOpen [simp]: "cb_isOpen (RecordSuccess now cb) = cb_isOpen cb"
  by (simp add: breaker_defs)

lemma cb_record_window:
  "0 < cb_evalWindow cb \<Longrightarrow> r \<in> set (cb_history (cb_record now b cb)) \<Longrightarrow> now - cb_evalWindow cb < or_at r"
  by (auto simp: cb_record_def Let_def time_simps)

section \<open>The pause\<close>

text \<open>What the breaker promises its client: the instant until which actions are paused.\<close>

definition paused_until :: "CircuitBreaker \<Rightarrow> instant option" where
  "paused_until cb =
     (if cb_enabled cb \<and> cb_isOpen cb then Some (cb_trippedAt cb + cb_pauseDuration cb) else None)"

definition cb_wf :: "CircuitBreaker \<Rightarrow> bool" where
  "cb_wf cb = (minDuration < cb_pauseDuration cb \<and> cb_pauseDuration cb \<le> maxDuration)"

lemma CircuitBreaker_Allow_refines:
  assumes "cb_wf cb"
  shows "fst (CircuitBreaker_Allow now cb) \<longleftrightarrow> (case paused_until cb of None \<Rightarrow> True | Some t \<Rightarrow> t \<le> now)"
    and "paused_until (snd (CircuitBreaker_Allow now cb)) =
         (case paused_until cb of None \<Rightarrow> None | Some t \<Rightarrow> if t \<le> now then None else Some t)"
  using assms Sub_less_iff [of "cb_pauseDuration cb" now "cb_trippedAt cb"]
  by (auto simp: CircuitBreaker_Allow_def paused_until_def cb_wf_def not_less)

datatype cb_op = CbAllow instant | CbSuccess instant | CbFailure instant instant

fun cb_step :: "cb_op \<Rightarrow> CircuitBreaker \<Rightarrow> bool \<times> CircuitBreaker" where
  "cb_step (CbAllow now) cb = CircuitBreaker_Allow now cb"
| "cb_step (CbSuccess now) cb = (True, RecordSuccess now cb)"
| "cb_step (CbFailure n1 n2) cb = (True, RecordFailure n1 n2 cb)"

fun cb_run :: "cb_op list \<Rightarrow> CircuitBreaker \<Rightarrow> (cb_op \<times> bool) list \<times> CircuitBreaker" where
  "cb_run [] cb = ([], cb)"
| "cb_run (p # ps) cb =
     (let (b, cb') = cb_step p cb; (bs, cb'') = cb_run ps cb' in ((p, b) # bs, cb''))"

fun cb_times :: "cb_op \<Rightarrow> instant set" where
  "cb_times (CbAllow now) = {now}"
| "cb_times (CbSuccess now) = {now}"
| "cb_times (CbFailure n1 n2) = {n1, n2}"

lemma cb_wf_config: "cb_config cb' = cb_config cb \<Longrightarrow> cb_wf cb' = cb_wf cb"
  by (simp add: cb_wf_def cb_config_def)

text \<open>While it is paused, an open breaker stays open, whatever is recorded.\<close>

lemma cb_step_paused:
  assumes "cb_wf cb" "paused_until cb = Some e" "T \<le> e"
    and "\<forall>t \<in> cb_times p. T - cb_pauseDuration cb \<le> t \<and> t < T"
  shows "\<exists>e' \<ge> T. paused_until (snd (cb_step p cb)) = Some e'"
    and "cb_config (snd (cb_step p cb)) = cb_config cb"
    and "p = CbAllow now \<Longrightarrow> \<not> fst (cb_step p cb)"
proof -
  show "cb_config (snd (cb_step p cb)) = cb_config cb" by (cases p) auto
  show "p = CbAllow now \<Longrightarrow> \<not> fst (cb_step p cb)"
    using assms CircuitBreaker_Allow_refines(1) [OF assms(1)] by auto
  show "\<exists>e' \<ge> T. paused_until (snd (cb_step p cb)) = Some e'"
  proof (cases p)
    case (CbAllow now)
    then show ?thesis using assms CircuitBreaker_Allow_refines(2) [OF assms(1)] by auto
  next
    case (CbSuccess now)
    then show ?thesis using assms by (auto simp: paused_until_def breaker_defs split: if_splits)
  next
    case (CbFailure n1 n2)
    then show ?thesis using assms by (auto simp: paused_until_def breaker_defs split: if_splits)
  qed
qed

lemma cb_run_paused:
  assumes "cb_wf cb" "paused_until cb = Some e" "T \<le> e"
    and "\<forall>p \<in> set ps. \<forall>t \<in> cb_times p. T - cb_pauseDuration cb \<le> t \<and> t < T"
    and "(CbAllow now, b) \<in> set (fst (cb_run ps cb))"
  shows "\<not> b"
  using assms
proof (induction ps arbitrary: cb e)
  case (Cons p ps)
  obtain b' cb' where s: "cb_step p cb = (b', cb')" by fastforce
  note st = cb_step_paused [OF Cons.prems(1-3), of p]
  have t: "\<forall>t \<in> cb_times p. T - cb_pauseDuration cb \<le> t \<and> t < T" using Cons.prems(4) by simp
  obtain e' where e': "T \<le> e'" "paused_until cb' = Some e'" using st(1) [OF t] s by auto
  have c: "cb_config cb' = cb_config cb" using st(2) [OF t] s by simp
  then have "cb_wf cb'" "cb_pauseDuration cb' = cb_pauseDuration cb"
    using Cons.prems(1) cb_wf_config [OF c] by (simp_all add: cb_config_def)
  then have "(CbAllow now, b) \<in> set (fst (cb_run ps cb')) \<Longrightarrow> \<not> b"
    using Cons.IH [of cb' e'] Cons.prems(4) e' by simp
  moreover have "p = CbAllow now \<Longrightarrow> \<not> b'" using st(3) [OF t] s by auto
  moreover have "(CbAllow now, b) \<in> insert (p, b') (set (fst (cb_run ps cb')))"
    using Cons.prems(5) s by (simp add: case_prod_beta)
  ultimately show ?case by blast
qed simp

text \<open>A breaker switched off in the policy never blocks and never changes.\<close>

lemma cb_disabled:
  assumes "\<not> cb_enabled cb"
  shows "cb_step p cb = (True, cb)"
  using assms by (cases p) (auto simp: breaker_defs)

end
