(* ===== verification/Observer.thy ===== *)
theory Observer
  imports ControllerEvents Bus CircuitBreaker Escalation
begin

text \<open>
  The outcome observer (\<open>internal/controller/observer.go\<close>). \<open>watch\<close> polls until the target
  is healthy, the window is over or the context ends; its clock readings are a sequence,
  two before the loop and one per test of the loop condition, the next one being the
  reading of a return. \<open>publish\<close> updates the breaker and the escalation state and
  publishes the outcome.
\<close>

section \<open>Polling\<close>

definition observerPollInterval :: duration where
  "observerPollInterval = 5 * Second"

fun any_ready :: "(string \<times> string) list \<Rightarrow> bool" where
  "any_ready [] = False"
| "any_ready ((ty, status) # cs) = (if ty = ''Ready'' \<and> status = ''True'' then True else any_ready cs)"

text \<open>The error result of \<open>checkPodReady\<close> is always nil.\<close>

definition checkPodReady :: "'c Ext \<Rightarrow> string \<Rightarrow> string \<Rightarrow> 'c World \<Rightarrow> (string + bool) \<times> 'c World" where
  "checkPodReady x podName namespace w =
     (let (r, w1) = podGet x namespace podName w
      in case r of Inl e \<Rightarrow> (Inr False, w1)
         | Inr pod \<Rightarrow> if pod_Phase pod \<noteq> ''Running'' then (Inr False, w1)
                     else (Inr (any_ready (pod_Conditions pod)), w1))"

definition checkNodeCordoned :: "'c Ext \<Rightarrow> string \<Rightarrow> 'c World \<Rightarrow> (string + bool) \<times> 'c World" where
  "checkNodeCordoned x nodeName w =
     (let (r, w1) = nodeGet x nodeName w
      in case r of Inl e \<Rightarrow> (Inl e, w1) | Inr node \<Rightarrow> (Inr (node_Unschedulable node), w1))"

definition check_target :: "'c Ext \<Rightarrow> ActionEvent \<Rightarrow> 'c World \<Rightarrow> (string + bool) \<times> 'c World" where
  "check_target x action w =
     (if ae_Action action = ActionCordonNode then checkNodeCordoned x (ae_TargetNode action) w
      else checkPodReady x (ae_TargetName action) (ae_TargetNamespace action) w)"

text \<open>
  Round \<open>i\<close> of the loop; \<open>cancelled i\<close> is whether the context ends during its wait. An error
  of the check and a negative check both go on with the next round.
\<close>

fun watch_loop ::
  "nat \<Rightarrow> 'c Ext \<Rightarrow> ActionEvent \<Rightarrow> instant \<Rightarrow> instant \<Rightarrow> (nat \<Rightarrow> instant) \<Rightarrow> (nat \<Rightarrow> bool) \<Rightarrow> nat \<Rightarrow> 'c World
    \<Rightarrow> ((bool \<times> int) \<times> 'c World) option" where
  "watch_loop 0 x action deadline start clk cancelled i w = None"
| "watch_loop (Suc fuel) x action deadline start clk cancelled i w =
     (if \<not> Before (clk i) deadline then Some ((False, Milliseconds (Sub (clk (i + 1)) start)), w)
      else if cancelled i then Some ((False, Milliseconds (Sub (clk (i + 1)) start)), w)
      else let (r, w1) = check_target x action w
           in case r of
                Inr True \<Rightarrow> Some ((True, Milliseconds (Sub (clk (i + 1)) start)), w1)
              | _ \<Rightarrow> watch_loop fuel x action deadline start clk cancelled (i + 1) w1)"

definition watch ::
  "nat \<Rightarrow> 'c Ext \<Rightarrow> ActionEvent \<Rightarrow> duration \<Rightarrow> (nat \<Rightarrow> instant) \<Rightarrow> (nat \<Rightarrow> bool) \<Rightarrow> 'c World
    \<Rightarrow> ((bool \<times> int) \<times> 'c World) option" where
  "watch fuel x action window clk cancelled w =
     watch_loop fuel x action (Add (clk 0) window) (clk 1) clk cancelled 2 w"

section \<open>Publishing the outcome\<close>

definition outcome_event :: "ActionEvent \<Rightarrow> bool \<Rightarrow> int \<Rightarrow> instant \<Rightarrow> instant \<Rightarrow> OutcomeEvent" where
  "outcome_event action resolved resolutionMs now1 now2 =
     \<lparr>oe_ActionID = ae_ActionID action, oe_AnomalyID = ae_AnomalyID action, oe_Resolved = resolved,
      oe_ResolutionType = (if resolved then ''immediate'' else ''failed''), oe_ResolutionMs = resolutionMs,
      oe_ObservedAt = now1, oe_Timestamp = to_UnixMilli now2\<rparr>"

text \<open>Readings: the breaker's (two for a failure), the escalation's, and the event's two.\<close>

definition Observer_publish ::
  "bool \<Rightarrow> 'c Ext \<Rightarrow> ActionEvent \<Rightarrow> string \<Rightarrow> bool \<Rightarrow> int \<Rightarrow> (nat \<Rightarrow> instant)
    \<Rightarrow> CircuitBreaker \<Rightarrow> EscalationManager \<Rightarrow> 'c World \<Rightarrow> CircuitBreaker \<times> EscalationManager \<times> 'c World" where
  "Observer_publish metrics x action anomalyType resolved resolutionMs clk cb em w =
     (let resolutionType = (if resolved then ''immediate'' else ''failed'');
          cb1 = (if resolved then RecordSuccess (clk 0) cb else RecordFailure (clk 0) (clk 1) cb);
          em1 = (if resolved
                 then MarkResolved (ae_TargetName action) (ae_TargetNamespace action) anomalyType (clk 2) em
                 else em);
          w1 = (if metrics then observe ''ActionsResolvedTotal'' [ae_Action action, resolutionType] 1 w else w);
          w2 = (if metrics \<and> resolved
                then observe ''ActionLatencyMs'' [ae_Action action] (f64_of_int resolutionMs) w1 else w1);
          outcome = outcome_event action resolved resolutionMs (clk 3) (clk 4);
          (err, w3) = PublishOutcome x (ae_TargetNamespace action) (marshal_OutcomeEvent outcome) w2
      in (cb1, em1, w3))"

section \<open>Polling ends and only reads\<close>

lemma any_ready_iff: "any_ready cs \<longleftrightarrow> (''Ready'', ''True'') \<in> set cs"
  by (induction cs rule: any_ready.induct) auto

lemma check_target_trace:
  "\<exists>c. w_calls (snd (check_target x a w)) = w_calls w @ [c] \<and> \<not> disruptive c"
  "w_published (snd (check_target x a w)) = w_published w"
  by (auto simp: check_target_def checkNodeCordoned_def checkPodReady_def api_defs Let_def case_prod_beta
      split: sum.splits)

text \<open>Each round waits for the poll interval, so the readings of successive tests lie apart.\<close>

definition polls_spaced :: "(nat \<Rightarrow> instant) \<Rightarrow> bool" where
  "polls_spaced clk \<longleftrightarrow> clk 0 \<le> clk 1 \<and> clk 1 \<le> clk 2 \<and> (\<forall>i \<ge> 2. clk i + observerPollInterval \<le> clk (i + 1))"

lemma watch_loop_total:
  assumes "\<forall>i \<ge> 2. clk i + observerPollInterval \<le> clk (i + 1)" "2 \<le> i"
    and "deadline < clk i + int fuel * observerPollInterval"
  shows "\<exists>r. watch_loop (Suc fuel) x a deadline start clk cancelled i w = Some r"
  using assms(2,3)
proof (induction fuel arbitrary: i w)
  case 0
  then show ?case by (auto simp: Before_def)
next
  case (Suc fuel)
  have "clk i + observerPollInterval \<le> clk (i + 1)" using assms(1) Suc.prems(1) by blast
  then have "deadline < clk (i + 1) + int fuel * observerPollInterval"
    using Suc.prems(2) by (simp add: algebra_simps)
  then have "\<exists>r. watch_loop (Suc fuel) x a deadline start clk cancelled (i + 1) w1 = Some r" for w1
    using Suc.IH [of "i + 1"] Suc.prems(1) by simp
  then show ?case
    unfolding watch_loop.simps(2) [of "Suc fuel"]
    by (auto simp: case_prod_beta Let_def simp del: watch_loop.simps split: sum.splits bool.splits)
qed

lemma watch_total:
  assumes "polls_spaced clk" "window < int fuel * observerPollInterval"
  shows "\<exists>r. watch (Suc fuel) x a window clk cancelled w = Some r"
  unfolding watch_def
  by (rule watch_loop_total) (use assms in \<open>auto simp: polls_spaced_def Add_def\<close>)

text \<open>
  A watch issues reads only, one per completed round, and publishes nothing; it reports
  success exactly when its last read showed a healthy target.
\<close>

lemma watch_loop_reads:
  "watch_loop fuel x a deadline start clk cancelled i w = Some ((b, ms), w') \<Longrightarrow>
   \<exists>cs. w_calls w' = w_calls w @ cs \<and> (\<forall>c \<in> set cs. \<not> disruptive c) \<and> w_published w' = w_published w"
proof (induction fuel arbitrary: i w)
  case (Suc fuel)
  obtain r w1 where c: "check_target x a w = (r, w1)" by fastforce
  obtain q where q: "w_calls w1 = w_calls w @ [q]" "\<not> disruptive q" "w_published w1 = w_published w"
    using check_target_trace [of x a w] c by auto
  consider "w' = w" | "w' = w1" | "watch_loop fuel x a deadline start clk cancelled (i + 1) w1 = Some ((b, ms), w')"
    using Suc.prems c by (auto split: if_splits sum.splits bool.splits)
  then show ?case
  proof cases
    case 3
    then show ?thesis using Suc.IH [OF 3] q by fastforce
  qed (use q in auto)
qed simp

lemma watch_loop_resolved:
  "watch_loop fuel x a deadline start clk cancelled i w = Some ((True, ms), w') \<Longrightarrow>
   \<exists>j \<ge> i. \<exists>w0. clk j < deadline \<and> check_target x a w0 = (Inr True, w')"
proof (induction fuel arbitrary: i w)
  case (Suc fuel)
  obtain r w1 where c: "check_target x a w = (r, w1)" by fastforce
  consider "clk i < deadline" "r = Inr True" "w' = w1"
    | "watch_loop fuel x a deadline start clk cancelled (i + 1) w1 = Some ((True, ms), w')"
    using Suc.prems c by (auto simp: Before_def split: if_splits sum.splits bool.splits)
  then show ?case
  proof cases
    case 1
    then show ?thesis using c by blast
  next
    case 2
    then show ?thesis using Suc.IH [OF 2] by (meson Suc_leD add_leD1)
  qed
qed simp

section \<open>Effect of an outcome\<close>

lemma Observer_publish_calls [simp]:
  "w_calls (snd (snd (Observer_publish m x a ty b ms clk cb em w))) = w_calls w"
  by (simp add: Observer_publish_def Let_def case_prod_beta publish_defs(5))

text \<open>A resolved outcome resets the context named by the action's target, no other.\<close>

lemma Observer_publish_rung:
  assumes "esc_wf em"
  shows "esc_wf (fst (snd (Observer_publish m x a ty b ms clk cb em w)))"
    and "esc_rung (fst (snd (Observer_publish m x a ty b ms clk cb em w))) =
         (if b then (esc_rung em)((ae_TargetName a, ae_TargetNamespace a, ty) := 0) else esc_rung em)"
  using assms MarkResolved_refines by (auto simp: Observer_publish_def Let_def case_prod_beta)

end
