(* ===== verification/Gates.thy ===== *)
theory Gates
  imports GoTime
begin

text \<open>
  The contract shared by the admission gates of the control plane: the cluster-wide rate
  limiter, the controller's per-pod cooldowns and the analyzer's per-pod cooldowns. A gate
  is asked for a key at a reading of the clock and answers whether the action may go
  ahead. \<open>spaced_gate\<close> promises a minimum distance between two grants of one key,
  \<open>capped_gate\<close> adds a bound on the grants per rolling hour. What follows from the
  contracts for a whole sequence of requests (of any keys, in any order) is proved here
  once; each gate's theory interprets the locale on its own definitions.
\<close>

section \<open>Runs of a gate\<close>

text \<open>
  A request is a key and two readings of the clock: the one the gate checks and a later
  one (the rate limiter reads the clock a second time when it records the action). The run
  collects the granted requests with the time they were checked at.
\<close>

type_synonym ('k, 's) gate = "'k \<Rightarrow> instant \<Rightarrow> instant \<Rightarrow> 's \<Rightarrow> bool \<times> 's"

fun gate_run :: "('k, 's) gate \<Rightarrow> ('k \<times> instant \<times> instant) list \<Rightarrow> 's \<Rightarrow> ('k \<times> instant) list \<times> 's" where
  "gate_run allow [] s = ([], s)"
| "gate_run allow ((k, n1, n2) # rs) s =
     (let (ok, s') = allow k n1 n2 s; (gs, s'') = gate_run allow rs s'
      in (if ok then (k, n1) # gs else gs, s''))"

text \<open>The times at which a key was granted.\<close>

definition grants_of :: "'k \<Rightarrow> ('k \<times> instant) list \<Rightarrow> instant list" where
  "grants_of k gs = map snd (filter (\<lambda>g. fst g = k) gs)"

lemma grants_of_Nil [simp]: "grants_of k [] = []"
  by (simp add: grants_of_def)

lemma grants_of_Cons [simp]:
  "grants_of k (g # gs) = (if fst g = k then snd g # grants_of k gs else grants_of k gs)"
  by (simp add: grants_of_def)

text \<open>Readings within a request are in order and after the zero time.\<close>

definition clock_ok :: "('k \<times> instant \<times> instant) list \<Rightarrow> bool" where
  "clock_ok rs = list_all (\<lambda>(k, n1, n2). zeroTime < n1 \<and> n1 \<le> n2) rs"

text \<open>The clock does not go back from one request to the next.\<close>

definition clock_mono :: "('k \<times> instant \<times> instant) list \<Rightarrow> bool" where
  "clock_mono rs = sorted (map (\<lambda>(k, n1, n2). n1) rs)"

text \<open>Entries of a history that lie in the hour before an instant.\<close>

definition in_hour :: "instant \<Rightarrow> instant list \<Rightarrow> instant list" where
  "in_hour now ts = filter (\<lambda>t. After t (Add now (- Hour))) ts"

lemma in_hour_filter: "in_hour now ts = filter (\<lambda>t. now - Hour < t) ts"
  by (simp add: in_hour_def time_simps)

text \<open>Instants that are pairwise far apart fit at most once into a short window.\<close>

lemma spaced_window:
  fixes d :: int
  assumes "sorted_wrt (\<lambda>x y. x + d \<le> y) xs" "\<forall>x \<in> set xs. a \<le> x \<and> x < a + d"
  shows "length xs \<le> 1"
  using assms by (cases xs rule: remdups_adj.cases) auto

section \<open>Spaced gates\<close>

locale spaced_gate =
  fixes allow :: "'k \<Rightarrow> instant \<Rightarrow> instant \<Rightarrow> 's \<Rightarrow> bool \<times> 's"
    and last_of :: "'s \<Rightarrow> 'k \<Rightarrow> instant option"
    and gap :: "'s \<Rightarrow> 'k \<Rightarrow> duration"
    and wf :: "'s \<Rightarrow> bool"
  assumes grant_spaced:
      "wf s \<Longrightarrow> zeroTime < n1 \<Longrightarrow> n1 \<le> n2 \<Longrightarrow> allow k n1 n2 s = (True, s') \<Longrightarrow>
       last_of s k = Some t \<Longrightarrow> t + gap s k \<le> n1"
    and grant_records:
      "wf s \<Longrightarrow> zeroTime < n1 \<Longrightarrow> n1 \<le> n2 \<Longrightarrow> allow k n1 n2 s = (True, s') \<Longrightarrow>
       \<exists>t. n1 \<le> t \<and> last_of s' = (last_of s)(k \<mapsto> t)"
    and deny_keeps:
      "wf s \<Longrightarrow> zeroTime < n1 \<Longrightarrow> n1 \<le> n2 \<Longrightarrow> allow k n1 n2 s = (False, s') \<Longrightarrow> last_of s' = last_of s"
    and gap_const: "wf s \<Longrightarrow> allow k n1 n2 s = (b, s') \<Longrightarrow> gap s' = gap s"
    and wf_step: "wf s \<Longrightarrow> allow k n1 n2 s = (b, s') \<Longrightarrow> wf s'"
begin

text \<open>Every grant of a key is at least its gap after the last recorded one.\<close>

lemma run_after_last:
  assumes "wf s" "clock_ok rs" "last_of s k = Some t" "0 \<le> gap s k"
    and "g \<in> set (grants_of k (fst (gate_run allow rs s)))"
  shows "t + gap s k \<le> g"
  using assms
proof (induction rs arbitrary: s t)
  case Nil
  then show ?case by simp
next
  case (Cons r rs)
  obtain k' n1 n2 where r: "r = (k', n1, n2)" by (cases r)
  obtain ok s' where a: "allow k' n1 n2 s = (ok, s')" by fastforce
  have c: "zeroTime < n1" "n1 \<le> n2" "clock_ok rs" using Cons.prems(2) by (auto simp: r clock_ok_def)
  have s': "wf s'" "gap s' = gap s" using Cons.prems(1) a wf_step gap_const by blast+
  have IH: "t' + gap s k \<le> g" if "last_of s' k = Some t'" "g \<in> set (grants_of k (fst (gate_run allow rs s')))" for t'
    using Cons.IH [OF s'(1) c(3) that(1)] that(2) Cons.prems(4) by (simp add: s')
  show ?case
  proof (cases ok)
    case False
    with deny_keeps [OF Cons.prems(1) c(1,2)] a have "last_of s' = last_of s" by simp
    with Cons.prems(3,5) False a IH show ?thesis by (simp add: r split: prod.splits)
  next
    case True
    then have a1: "allow k' n1 n2 s = (True, s')" using a by simp
    obtain t' where t': "n1 \<le> t'" "last_of s' = (last_of s)(k' \<mapsto> t')"
      using grant_records [OF Cons.prems(1) c(1,2) a1] by blast
    have sp: "t + gap s k \<le> n1" if "k' = k"
      using grant_spaced [OF Cons.prems(1) c(1,2) a1] that Cons.prems(3) by blast
    from Cons.prems(5) True a consider "k' = k" "g = n1" | "g \<in> set (grants_of k (fst (gate_run allow rs s')))"
      by (auto simp: r split: prod.splits if_splits)
    then show ?thesis
    proof cases
      case 1
      with sp show ?thesis by simp
    next
      case 2
      show ?thesis
      proof (cases "k' = k")
        case True
        with t' IH [OF _ 2] sp Cons.prems(4) show ?thesis by fastforce
      next
        case False
        with t' IH [OF _ 2] Cons.prems(3) show ?thesis by simp
      qed
    qed
  qed
qed

text \<open>Two grants of one key are at least the gap apart.\<close>

lemma run_spaced:
  assumes "wf s" "clock_ok rs" "0 \<le> gap s k"
  shows "sorted_wrt (\<lambda>a b. a + gap s k \<le> b) (grants_of k (fst (gate_run allow rs s)))"
  using assms
proof (induction rs arbitrary: s)
  case Nil
  then show ?case by simp
next
  case (Cons r rs)
  obtain k' n1 n2 where r: "r = (k', n1, n2)" by (cases r)
  obtain ok s' where a: "allow k' n1 n2 s = (ok, s')" by fastforce
  have c: "zeroTime < n1" "n1 \<le> n2" "clock_ok rs" using Cons.prems(2) by (auto simp: r clock_ok_def)
  have s': "wf s'" "gap s' = gap s" using Cons.prems(1) a wf_step gap_const by blast+
  have IH: "sorted_wrt (\<lambda>a b. a + gap s k \<le> b) (grants_of k (fst (gate_run allow rs s')))"
    using Cons.IH [OF s'(1) c(3)] Cons.prems(3) by (simp add: s')
  show ?case
  proof (cases "ok \<and> k' = k")
    case False
    then show ?thesis using IH a by (auto simp: r split: prod.splits)
  next
    case True
    then obtain t' where t': "n1 \<le> t'" "last_of s' k = Some t'"
      using grant_records [OF Cons.prems(1) c(1,2)] a by fastforce
    have "n1 + gap s k \<le> g" if "g \<in> set (grants_of k (fst (gate_run allow rs s')))" for g
      using run_after_last [OF s'(1) c(3) t'(2) _ that] Cons.prems(3) t'(1) by (simp add: s')
    then show ?thesis using IH a True by (auto simp: r split: prod.splits)
  qed
qed

text \<open>So a window shorter than the gap sees at most one grant of the key.\<close>

lemma run_window:
  assumes "wf s" "clock_ok rs" "0 < gap s k"
  shows "length (filter (\<lambda>g. a \<le> g \<and> g < a + gap s k) (grants_of k (fst (gate_run allow rs s)))) \<le> 1"
proof -
  let ?xs = "filter (\<lambda>g. a \<le> g \<and> g < a + gap s k) (grants_of k (fst (gate_run allow rs s)))"
  have "sorted_wrt (\<lambda>x y. x + gap s k \<le> y) ?xs"
    using run_spaced [OF assms(1,2)] assms(3) by (intro sorted_wrt_filter) simp
  then show ?thesis by (rule spaced_window [where a = a]) simp
qed

end

section \<open>Gates with an hourly cap\<close>

text \<open>
  \<open>hist\<close> is what the gate remembers of a key's grants; it may forget grants older than an
  hour. A cap of 0 is no cap.
\<close>

locale capped_gate = spaced_gate allow last_of gap wf
  for allow :: "'k \<Rightarrow> instant \<Rightarrow> instant \<Rightarrow> 's \<Rightarrow> bool \<times> 's"
    and last_of :: "'s \<Rightarrow> 'k \<Rightarrow> instant option"
    and gap :: "'s \<Rightarrow> 'k \<Rightarrow> duration"
    and wf :: "'s \<Rightarrow> bool" +
  fixes hist :: "'s \<Rightarrow> 'k \<Rightarrow> instant list"
    and cap :: "'s \<Rightarrow> 'k \<Rightarrow> nat"
  assumes grant_hist:
      "wf s \<Longrightarrow> allow k n1 n2 s = (True, s') \<Longrightarrow> hist s' = (hist s)(k := in_hour n1 (hist s k) @ [n1])"
    and grant_capped:
      "wf s \<Longrightarrow> allow k n1 n2 s = (True, s') \<Longrightarrow> 0 < cap s k \<Longrightarrow> length (in_hour n1 (hist s k)) < cap s k"
    and deny_hist:
      "wf s \<Longrightarrow> allow k n1 n2 s = (False, s') \<Longrightarrow>
       hist s' = hist s \<or> hist s' = (hist s)(k := in_hour n1 (hist s k))"
    and cap_const: "wf s \<Longrightarrow> allow k n1 n2 s = (b, s') \<Longrightarrow> cap s' = cap s"
begin

text \<open>The memory holds the grants so far, except some that are older than an hour.\<close>

definition covers :: "'s \<Rightarrow> 'k \<Rightarrow> instant \<Rightarrow> instant list \<Rightarrow> bool" where
  "covers s k n gs = (\<exists>c. c \<le> n - Hour \<and> hist s k = filter (\<lambda>t. c < t) gs)"

definition hour_bounded :: "nat \<Rightarrow> instant list \<Rightarrow> bool" where
  "hour_bounded m gs = (\<forall>a. length (filter (\<lambda>t. a - Hour < t \<and> t \<le> a) gs) \<le> m)"

lemma covers_later: "covers s k n gs \<Longrightarrow> n \<le> n' \<Longrightarrow> covers s k n' gs"
  unfolding covers_def by (metis diff_mono order.trans order_refl)

lemma covers_in_hour:
  assumes "covers s k n gs" "n \<le> n1"
  shows "in_hour n1 (hist s k) = filter (\<lambda>t. n1 - Hour < t) gs"
proof -
  obtain c where c: "c \<le> n - Hour" "hist s k = filter (\<lambda>t. c < t) gs"
    using assms(1) by (auto simp: covers_def)
  have "n1 - Hour < t \<and> c < t \<longleftrightarrow> n1 - Hour < t" for t using c(1) assms(2) by linarith
  then show ?thesis by (simp add: in_hour_filter c(2) conj_commute)
qed

lemma covers_pruned:
  assumes "covers s k n gs" "n \<le> n1" "hist s' k = in_hour n1 (hist s k)"
  shows "covers s' k n1 gs"
  unfolding covers_def
  by (rule exI [of _ "n1 - Hour"]) (simp add: assms(3) covers_in_hour [OF assms(1,2)])

lemma hour_bounded_snoc:
  assumes "hour_bounded m gs" "length (filter (\<lambda>t. n1 - Hour < t) gs) < m"
  shows "hour_bounded m (gs @ [n1])"
  unfolding hour_bounded_def
proof
  fix a
  show "length (filter (\<lambda>t. a - Hour < t \<and> t \<le> a) (gs @ [n1])) \<le> m"
  proof (cases "n1 \<le> a")
    case True
    have "length (filter (\<lambda>t. a - Hour < t \<and> t \<le> a) gs) \<le> length (filter (\<lambda>t. n1 - Hour < t) gs)"
      using True by (induction gs) auto
    then show ?thesis using assms(2) by simp
  next
    case False
    then show ?thesis using assms(1) by (simp add: hour_bounded_def)
  qed
qed

lemma run_capped_from:
  assumes "wf s" "clock_mono rs" "\<forall>r \<in> set rs. n \<le> fst (snd r)"
    and "covers s k n gs" "hour_bounded (cap s k) gs" "0 < cap s k"
  shows "hour_bounded (cap s k) (gs @ grants_of k (fst (gate_run allow rs s)))"
  using assms
proof (induction rs arbitrary: s n gs)
  case Nil
  then show ?case by simp
next
  case (Cons r rs)
  obtain k' n1 n2 where r: "r = (k', n1, n2)" by (cases r)
  obtain ok s' where a: "allow k' n1 n2 s = (ok, s')" by fastforce
  have n1: "n \<le> n1" "\<forall>q \<in> set rs. n1 \<le> fst (snd q)" "clock_mono rs"
    using Cons.prems(2,3) by (auto simp: r clock_mono_def split: prod.splits)
  have s': "wf s'" "cap s' = cap s" using Cons.prems(1) a wf_step cap_const by blast+
  have IH: "hour_bounded (cap s k) (gs' @ grants_of k (fst (gate_run allow rs s')))"
    if "covers s' k n1 gs'" "hour_bounded (cap s k) gs'" for gs'
    using Cons.IH [OF s'(1) n1(3,2) that(1)] that(2) Cons.prems(6) by (simp add: s')
  show ?case
  proof (cases "ok \<and> k' = k")
    case True
    then have a1: "allow k n1 n2 s = (True, s')" using a by simp
    note f = covers_in_hour [OF Cons.prems(4) n1(1)]
    have "covers s' k n1 (gs @ [n1])"
      unfolding covers_def
      by (rule exI [of _ "n1 - Hour"]) (simp add: grant_hist [OF Cons.prems(1) a1] f unit_defs)
    moreover have "hour_bounded (cap s k) (gs @ [n1])"
      using grant_capped [OF Cons.prems(1) a1 Cons.prems(6)] Cons.prems(5)
      by (intro hour_bounded_snoc) (simp_all add: f)
    ultimately show ?thesis using IH [of "gs @ [n1]"] a True by (auto simp: r split: prod.splits)
  next
    case False
    have "hist s' k = hist s k \<or> hist s' k = in_hour n1 (hist s k)"
      using grant_hist [of s k' n1 n2 s'] deny_hist [of s k' n1 n2 s'] Cons.prems(1) a False
      by (cases ok) auto
    then have "covers s' k n1 gs"
      using covers_pruned [OF Cons.prems(4) n1(1)] covers_later [OF Cons.prems(4) n1(1)]
      by (auto simp: covers_def)
    then show ?thesis using IH [of gs] Cons.prems(5) a False by (auto simp: r split: prod.splits)
  qed
qed

text \<open>In no hour are there more grants of a key than its cap.\<close>

lemma run_capped:
  assumes "wf s" "clock_mono rs" "hist s k = []" "0 < cap s k"
  shows "length (filter (\<lambda>g. a - Hour < g \<and> g \<le> a) (grants_of k (fst (gate_run allow rs s)))) \<le> cap s k"
proof (cases rs)
  case Nil
  then show ?thesis by simp
next
  case (Cons r rs')
  have "covers s k (fst (snd r)) []" by (auto simp: covers_def assms(3))
  moreover have "\<forall>q \<in> set rs. fst (snd r) \<le> fst (snd q)"
    using assms(2) by (auto simp: Cons clock_mono_def split: prod.splits)
  ultimately have "hour_bounded (cap s k) ([] @ grants_of k (fst (gate_run allow rs s)))"
    using assms(1,2,4) by (intro run_capped_from) (auto simp: hour_bounded_def)
  then show ?thesis by (simp add: hour_bounded_def)
qed

end

end
