(* ===== verification/RateLimiter.thy ===== *)
theory RateLimiter
  imports Gates
begin

text \<open>
  The cluster-wide rate limiter (\<open>internal/controller/guardrails/ratelimit.go\<close>). \<open>Allow\<close>
  reads the clock twice when it grants, once to check and once to record; the mutex makes
  each call one step. It is a \<open>spaced_gate\<close> with a single key.
\<close>

record GlobalRateLimiter =
  rl_lastAction :: instant
  rl_minInterval :: duration

definition NewGlobalRateLimiter :: "duration \<Rightarrow> GlobalRateLimiter" where
  "NewGlobalRateLimiter minInterval = \<lparr>rl_lastAction = zeroTime, rl_minInterval = minInterval\<rparr>"

definition RateLimiter_Allow :: "instant \<Rightarrow> instant \<Rightarrow> GlobalRateLimiter \<Rightarrow> bool \<times> GlobalRateLimiter" where
  "RateLimiter_Allow now1 now2 r =
     (if Sub now1 (rl_lastAction r) < rl_minInterval r then (False, r)
      else (True, r\<lparr>rl_lastAction := now2\<rparr>))"

definition RateLimiter_TimeUntilNext :: "instant \<Rightarrow> GlobalRateLimiter \<Rightarrow> duration" where
  "RateLimiter_TimeUntilNext now r =
     (let elapsed = Sub now (rl_lastAction r)
      in if elapsed \<ge> rl_minInterval r then 0 else rl_minInterval r - elapsed)"

declare RateLimiter_Allow_def [gate_defs]

section \<open>The limiter as a gate\<close>

definition rl_gate :: "unit \<Rightarrow> instant \<Rightarrow> instant \<Rightarrow> GlobalRateLimiter \<Rightarrow> bool \<times> GlobalRateLimiter" where
  "rl_gate k now1 now2 r = RateLimiter_Allow now1 now2 r"

definition rl_last :: "GlobalRateLimiter \<Rightarrow> unit \<Rightarrow> instant option" where
  "rl_last r k = (if IsZero (rl_lastAction r) then None else Some (rl_lastAction r))"

definition rl_wf :: "GlobalRateLimiter \<Rightarrow> bool" where
  "rl_wf r = (minDuration < rl_minInterval r \<and> rl_minInterval r \<le> maxDuration)"

interpretation rl: spaced_gate rl_gate rl_last "\<lambda>r k. rl_minInterval r" rl_wf
proof
  fix s s' :: GlobalRateLimiter and n1 n2 t k
  assume h: "rl_wf s" "zeroTime < n1" "n1 \<le> n2" "rl_gate k n1 n2 s = (True, s')"
  show "t + rl_minInterval s \<le> n1" if "rl_last s k = Some t"
    using h that Sub_less_iff [of "rl_minInterval s" n1 t]
    by (auto simp: rl_gate_def gate_defs rl_last_def rl_wf_def split: if_splits)
  show "\<exists>t \<ge> n1. rl_last s' = (rl_last s)(k \<mapsto> t)"
    using h by (intro exI [of _ n2]) (auto simp: rl_gate_def gate_defs rl_last_def IsZero_def split: if_splits)
qed (auto simp: rl_gate_def gate_defs rl_wf_def split: if_splits)

text \<open>The limiter's first request is always granted: the zero time lies in the far past.\<close>

lemma RateLimiter_first:
  "0 \<le> now1 \<Longrightarrow> d \<le> maxDuration \<Longrightarrow>
   RateLimiter_Allow now1 now2 (NewGlobalRateLimiter d) = (True, \<lparr>rl_lastAction = now2, rl_minInterval = d\<rparr>)"
  by (simp add: gate_defs NewGlobalRateLimiter_def Sub_zeroTime)

text \<open>A denied request is granted once the announced wait has passed.\<close>

lemma RateLimiter_wait:
  assumes "rl_wf r" "RateLimiter_Allow now1 now2 r = (False, r')"
    and "now1 + RateLimiter_TimeUntilNext now1 r \<le> t" "minDuration \<le> now1 - rl_lastAction r"
  shows "fst (RateLimiter_Allow t t' r')"
proof -
  have "r' = r" "Sub now1 (rl_lastAction r) < rl_minInterval r"
    using assms(2) by (auto simp: gate_defs split: if_splits)
  moreover from this have "Sub now1 (rl_lastAction r) = now1 - rl_lastAction r"
    using assms(1,4) Sub_less_iff [of "rl_minInterval r" now1 "rl_lastAction r"]
    by (intro Sub_exact) (auto simp: rl_wf_def)
  ultimately have "rl_lastAction r + rl_minInterval r \<le> t"
    using assms(3) by (simp add: RateLimiter_TimeUntilNext_def Let_def)
  then show ?thesis
    using assms(1) Sub_less_iff [of "rl_minInterval r" t "rl_lastAction r"] \<open>r' = r\<close>
    by (auto simp: gate_defs rl_wf_def)
qed

end
