(* ===== verification/GuardCooldown.thy ===== *)
theory GuardCooldown
  imports Gates Policy
begin

text \<open>
  The controller's cooldown store (\<open>internal/controller/guardrails/cooldown.go\<close>): per
  (pod, namespace, action) the time of the last action and the actions of the last hour,
  checked against the policy. \<open>Allow\<close> creates the entry, prunes it and, when it grants,
  records the action, all under the store's mutex. It is a \<open>capped_gate\<close>.
\<close>

section \<open>State and operations\<close>

type_synonym GuardCooldownKey = "string \<times> string \<times> string" \<comment> \<open>pod, namespace, action\<close>

record GuardCooldownEntry =
  gce_lastAction :: instant
  gce_history :: "instant list"

record GuardCooldownStore =
  gcs_entries :: "GuardCooldownKey \<rightharpoonup> GuardCooldownEntry"
  gcs_policy :: Policy

definition NewGuardCooldownStore :: "Policy \<Rightarrow> GuardCooldownStore" where
  "NewGuardCooldownStore p = \<lparr>gcs_entries = Map.empty, gcs_policy = p\<rparr>"

text \<open>The entry of a key, a fresh one when there is none.\<close>

definition gcs_entry :: "GuardCooldownStore \<Rightarrow> GuardCooldownKey \<Rightarrow> GuardCooldownEntry" where
  "gcs_entry c k =
     (case gcs_entries c k of Some e \<Rightarrow> e | None \<Rightarrow> \<lparr>gce_lastAction = zeroTime, gce_history = []\<rparr>)"

definition GuardCooldown_Allow ::
  "string \<Rightarrow> string \<Rightarrow> string \<Rightarrow> instant \<Rightarrow> GuardCooldownStore \<Rightarrow> bool \<times> GuardCooldownStore" where
  "GuardCooldown_Allow pod namespace action now c =
     (let key = (pod, namespace, action);
          entry = gcs_entry c key;
          pruned = filter (\<lambda>t. After t (Add now (- Hour))) (gce_history entry);
          blocked = c\<lparr>gcs_entries := (gcs_entries c)(key \<mapsto> entry\<lparr>gce_history := pruned\<rparr>)\<rparr>;
          cooldown = CooldownFor (gcs_policy c) action;
          maxPerHour = MaxPerHour (gcs_policy c) action
      in if \<not> IsZero (gce_lastAction entry) \<and> Sub now (gce_lastAction entry) < cooldown then (False, blocked)
         else if maxPerHour > 0 \<and> int (length pruned) \<ge> maxPerHour then (False, blocked)
         else (True, c\<lparr>gcs_entries := (gcs_entries c)(key \<mapsto>
                        \<lparr>gce_lastAction = now, gce_history = pruned @ [now]\<rparr>)\<rparr>))"

text \<open>The reason is kept as data instead of the sentence the code formats from it.\<close>

datatype block_reason = NotBlocked | CooldownActive string string string | HourlyCap int int string string string

definition GuardCooldown_TimeUntilNext ::
  "string \<Rightarrow> string \<Rightarrow> string \<Rightarrow> instant \<Rightarrow> GuardCooldownStore \<Rightarrow> block_reason \<times> duration" where
  "GuardCooldown_TimeUntilNext pod namespace action now c =
     (case gcs_entries c (pod, namespace, action) of
        None \<Rightarrow> (NotBlocked, 0)
      | Some entry \<Rightarrow>
         let cutoff = Add now (- Hour);
             remaining = CooldownFor (gcs_policy c) action - Sub now (gce_lastAction entry);
             count = int (length (filter (\<lambda>t. After t cutoff) (gce_history entry)));
             maxPerHour = MaxPerHour (gcs_policy c) action
         in if \<not> IsZero (gce_lastAction entry) \<and> remaining > 0
              then (CooldownActive action namespace pod, remaining)
            else if maxPerHour > 0 \<and> count \<ge> maxPerHour
              then (HourlyCap count maxPerHour action namespace pod, Hour)
            else (NotBlocked, 0))"

definition GuardCooldown_Reset :: "string \<Rightarrow> string \<Rightarrow> GuardCooldownStore \<Rightarrow> GuardCooldownStore" where
  "GuardCooldown_Reset pod namespace c =
     c\<lparr>gcs_entries := (\<lambda>(p, n, a). if p = pod \<and> n = namespace then None else gcs_entries c (p, n, a))\<rparr>"

declare GuardCooldown_Allow_def [gate_defs]

section \<open>The store as a gate\<close>

definition gcs_gate ::
  "GuardCooldownKey \<Rightarrow> instant \<Rightarrow> instant \<Rightarrow> GuardCooldownStore \<Rightarrow> bool \<times> GuardCooldownStore" where
  "gcs_gate k now1 now2 c = GuardCooldown_Allow (fst k) (fst (snd k)) (snd (snd k)) now1 c"

definition gcs_last :: "GuardCooldownStore \<Rightarrow> GuardCooldownKey \<Rightarrow> instant option" where
  "gcs_last c k =
     (let t = gce_lastAction (gcs_entry c k) in if IsZero t then None else Some t)"

definition gcs_gap :: "GuardCooldownStore \<Rightarrow> GuardCooldownKey \<Rightarrow> duration" where
  "gcs_gap c k = CooldownFor (gcs_policy c) (snd (snd k))"

definition gcs_hist :: "GuardCooldownStore \<Rightarrow> GuardCooldownKey \<Rightarrow> instant list" where
  "gcs_hist c k = gce_history (gcs_entry c k)"

definition gcs_cap :: "GuardCooldownStore \<Rightarrow> GuardCooldownKey \<Rightarrow> nat" where
  "gcs_cap c k = nat (MaxPerHour (gcs_policy c) (snd (snd k)))"

text \<open>The one duration below which a saturated difference says nothing.\<close>

definition gcs_wf :: "GuardCooldownStore \<Rightarrow> bool" where
  "gcs_wf c \<longleftrightarrow> (\<forall>a. CooldownFor (gcs_policy c) a \<noteq> minDuration)"

text \<open>\<open>Allow\<close> in terms of the gate's view of the store.\<close>

lemma gcs_gate_cases:
  assumes "gcs_gate k n1 n2 c = (b, c')"
  shows "gcs_policy c' = gcs_policy c"
    and "b \<longleftrightarrow> \<not> (gcs_last c k \<noteq> None \<and> Sub n1 (the (gcs_last c k)) < gcs_gap c k)
             \<and> (0 < gcs_cap c k \<longrightarrow> length (in_hour n1 (gcs_hist c k)) < gcs_cap c k)"
    and "gcs_entry c' = (gcs_entry c)(k :=
           if b then \<lparr>gce_lastAction = n1, gce_history = in_hour n1 (gcs_hist c k) @ [n1]\<rparr>
           else (gcs_entry c k)\<lparr>gce_history := in_hour n1 (gcs_hist c k)\<rparr>)"
  using assms
  by (auto simp: gcs_gate_def gate_defs Let_def gcs_last_def gcs_gap_def gcs_cap_def gcs_hist_def
      in_hour_def gcs_entry_def fun_eq_iff split: if_splits)

lemma gcs_gap_range: "gcs_wf c \<Longrightarrow> minDuration < gcs_gap c k \<and> gcs_gap c k \<le> maxDuration"
  using CooldownFor_range [of "gcs_policy c" "snd (snd k)"]
  unfolding gcs_wf_def gcs_gap_def order_less_le by metis

interpretation gcs: capped_gate gcs_gate gcs_last gcs_gap gcs_wf gcs_hist gcs_cap
proof
  fix s s' n1 n2 t k b
  assume wf: "gcs_wf s"
  {
    assume h: "zeroTime < n1" "gcs_gate k n1 n2 s = (True, s')"
    note g = gcs_gate_cases [OF h(2)]
    show "t + gcs_gap s k \<le> n1" if "gcs_last s k = Some t"
      using g(2) that Sub_less_iff [of "gcs_gap s k" n1 t] gcs_gap_range [OF wf, of k] by auto
    show "\<exists>t \<ge> n1. gcs_last s' = (gcs_last s)(k \<mapsto> t)"
      using g(3) h(1) by (intro exI [of _ n1]) (auto simp: gcs_last_def Let_def fun_eq_iff IsZero_def)
  }
  {
    assume h: "gcs_gate k n1 n2 s = (True, s')"
    note g = gcs_gate_cases [OF h]
    show "gcs_hist s' = (gcs_hist s)(k := in_hour n1 (gcs_hist s k) @ [n1])"
      using g(3) by (auto simp: gcs_hist_def fun_eq_iff)
    show "length (in_hour n1 (gcs_hist s k)) < gcs_cap s k" if "0 < gcs_cap s k"
      using g(2) that by simp
  }
  {
    assume h: "gcs_gate k n1 n2 s = (False, s')"
    note g = gcs_gate_cases [OF h]
    show "gcs_last s' = gcs_last s"
      using g(3) by (auto simp: gcs_last_def Let_def fun_eq_iff)
    show "gcs_hist s' = gcs_hist s \<or> gcs_hist s' = (gcs_hist s)(k := in_hour n1 (gcs_hist s k))"
      using g(3) by (auto simp: gcs_hist_def fun_eq_iff)
  }
  {
    assume h: "gcs_gate k n1 n2 s = (b, s')"
    note g = gcs_gate_cases [OF h]
    show "gcs_gap s' = gcs_gap s" "gcs_wf s'" "gcs_cap s' = gcs_cap s"
      using g(1) wf by (auto simp: gcs_gap_def gcs_wf_def gcs_cap_def fun_eq_iff)
  }
qed

section \<open>Explaining and lifting a block\<close>

text \<open>\<open>TimeUntilNext\<close> reports a block exactly when \<open>Allow\<close> denies at the same instant.\<close>

lemma TimeUntilNext_explains:
  "fst (GuardCooldown_Allow pod ns a now c) \<longleftrightarrow> fst (GuardCooldown_TimeUntilNext pod ns a now c) = NotBlocked"
  by (auto simp: gate_defs GuardCooldown_TimeUntilNext_def Let_def gcs_entry_def IsZero_def split: option.splits)

text \<open>A denied call leaves the answer of \<open>TimeUntilNext\<close> as it was.\<close>

lemma Allow_denied_TimeUntilNext:
  assumes "GuardCooldown_Allow pod ns a now c = (False, c')"
  shows "GuardCooldown_TimeUntilNext pod ns a now c' = GuardCooldown_TimeUntilNext pod ns a now c"
  using assms
  by (auto simp: gate_defs GuardCooldown_TimeUntilNext_def Let_def gcs_entry_def IsZero_def
      split: option.splits if_splits)

text \<open>
  No block is for ever: an hour and a cooldown after the last action of a key, the key is
  granted again.
\<close>

lemma GuardCooldown_eventually:
  assumes "gcs_wf c" "zeroTime < now"
    and "\<forall>t \<in> set (gcs_hist c (pod, ns, a)). t \<le> t0" "gcs_last c (pod, ns, a) = Some t0"
    and "t0 + max Hour (CooldownFor (gcs_policy c) a) \<le> now"
  shows "fst (GuardCooldown_Allow pod ns a now c)"
proof -
  obtain b c' where g: "gcs_gate (pod, ns, a) now now c = (b, c')" by fastforce
  have "in_hour now (gcs_hist c (pod, ns, a)) = []"
    using assms(3,5) by (fastforce simp: in_hour_filter filter_empty_conv)
  moreover have "\<not> Sub now t0 < gcs_gap c (pod, ns, a)"
    using Sub_less_iff [of "gcs_gap c (pod, ns, a)" now t0] gcs_gap_range [OF assms(1)] assms(5)
    by (auto simp: gcs_gap_def)
  ultimately have b using gcs_gate_cases(2) [OF g] assms(4) by simp
  then show ?thesis using g by (simp add: gcs_gate_def)
qed

text \<open>\<open>Reset\<close> forgets exactly the pod's entries, so the pod's next request is granted.\<close>

lemma GuardCooldown_Reset_entry:
  "gcs_entry (GuardCooldown_Reset pod ns c) (p, n, a) =
   (if p = pod \<and> n = ns then \<lparr>gce_lastAction = zeroTime, gce_history = []\<rparr> else gcs_entry c (p, n, a))"
  by (simp add: GuardCooldown_Reset_def gcs_entry_def)

lemma GuardCooldown_Reset_allows:
  "fst (GuardCooldown_Allow pod ns a now (GuardCooldown_Reset pod ns c))"
  by (simp add: gate_defs Let_def GuardCooldown_Reset_entry IsZero_def)

end
