(* ===== verification/Reconciler.thy ===== *)
theory Reconciler
  imports Actions Observer RateLimiter GuardCooldown
begin

text \<open>
  The reconciler (\<open>internal/controller/reconciler.go\<close>): eight gates in the order of the
  code, the dispatch of the chosen action and its bookkeeping. The subscriber calls the
  handler for one message at a time, so a reconciliation is one step of the controller;
  the observers it launches are kept as pending work and run as separate steps. The
  readings of the clock are a sequence indexed in program order.
\<close>

section \<open>State\<close>

record Controller =
  rc_policy :: Policy
  rc_rateLimiter :: GlobalRateLimiter
  rc_cooldowns :: GuardCooldownStore
  rc_circuitBreaker :: CircuitBreaker
  rc_escalation :: EscalationManager
  rc_maxPct :: int
  rc_dryRun :: bool
  rc_audit :: bool
  rc_metrics :: bool
  rc_pending :: "(ActionEvent \<times> string \<times> duration) list"

record ReconcilerConfig =
  cfg_Policy :: Policy
  cfg_Audit :: bool
  cfg_Metrics :: bool
  cfg_DryRun :: bool

definition NewReconciler :: "ReconcilerConfig \<Rightarrow> Controller" where
  "NewReconciler cfg =
     \<lparr>rc_policy = cfg_Policy cfg,
      rc_rateLimiter = NewGlobalRateLimiter (10 * Second),
      rc_cooldowns = NewGuardCooldownStore (cfg_Policy cfg),
      rc_circuitBreaker = NewCircuitBreaker (cfg_Policy cfg),
      rc_escalation = NewEscalationManager,
      rc_maxPct = MaxMemoryIncreasePct (cfg_Policy cfg),
      rc_dryRun = (cfg_DryRun cfg \<or> IsDryRun (cfg_Policy cfg)),
      rc_audit = cfg_Audit cfg, rc_metrics = cfg_Metrics cfg, rc_pending = []\<rparr>"

datatype reconcile_error =
    ProtectedNamespace string
  | ProtectedPod string string
  | BreakerOpen "duration option"
  | RateLimited duration
  | ManualRequired string string
  | EscalationFailed string
  | ConfirmationRequired string
  | CooldownBlocked block_reason duration
  | CordonGate int string int
  | DispatchFailed action_error

section \<open>The gates\<close>

text \<open>
  Gates 5 to 8, after the rate limiter has granted. \<open>Inl\<close> is an early return with its
  error; \<open>Inr\<close> is the action to dispatch and the attempt.
\<close>

definition gate_cordon ::
  "'c Ext \<Rightarrow> AnomalyEvent \<Rightarrow> ActionType \<Rightarrow> int \<Rightarrow> Controller \<Rightarrow> 'c World
    \<Rightarrow> (reconcile_error + ActionType \<times> int) \<times> Controller \<times> 'c World" where
  "gate_cordon x anomaly action attempt c w =
     (if action = ActionCordonNode then
        let ((count, err), w1) = AffectedPodCount x (an_AffectedNode anomaly) (an_Namespace anomaly) w;
            minCount = CordonMinPodCount (rc_policy c)
        in if count < minCount then (Inl (CordonGate count (an_AffectedNode anomaly) minCount), c, w1)
           else (Inr (action, attempt), c, w1)
      else (Inr (action, attempt), c, w))"

definition gate_escalation ::
  "'c Ext \<Rightarrow> (nat \<Rightarrow> instant) \<Rightarrow> AnomalyEvent \<Rightarrow> Controller \<Rightarrow> 'c World
    \<Rightarrow> (reconcile_error + ActionType \<times> int) \<times> Controller \<times> 'c World" where
  "gate_escalation x clk anomaly c w =
     (let pod = an_AffectedPod anomaly; ns = an_Namespace anomaly; ty = an_Type anomaly
      in if IsManual pod ns ty (rc_escalation c) then (Inl (ManualRequired ns pod), c, w)
         else let ((action, attempt, err), em) = NextAction pod ns ty (clk 5, clk 6, clk 7) (rc_escalation c);
                  c1 = c\<lparr>rc_escalation := em\<rparr>
         in case err of Some e \<Rightarrow> (Inl (EscalationFailed e), c1, w)
         | None \<Rightarrow>
            if RequiresConfirmation (rc_policy c) action
            then (Inl (ConfirmationRequired action), c1\<lparr>rc_escalation := MarkResolved pod ns ty (clk 8) em\<rparr>, w)
            else let (ok, cds) = GuardCooldown_Allow pod ns action (clk 9) (rc_cooldowns c1);
                     c2 = c1\<lparr>rc_cooldowns := cds\<rparr>
            in if \<not> ok then (Inl (case GuardCooldown_TimeUntilNext pod ns action (clk 10) cds of
                                   (reason, wait) \<Rightarrow> CooldownBlocked reason wait), c2, w)
               else gate_cordon x anomaly action attempt c2 w)"

text \<open>All gates; the labels of the pod, when it could be fetched, go on to the dispatch.\<close>

definition podLabels :: "string + Pod \<Rightarrow> (string \<rightharpoonup> string)" where
  "podLabels r = (case r of Inl e \<Rightarrow> Map.empty | Inr pod \<Rightarrow> pod_Labels pod)"

definition reconcile_gates ::
  "'c Ext \<Rightarrow> (nat \<Rightarrow> instant) \<Rightarrow> AnomalyEvent \<Rightarrow> Controller \<Rightarrow> 'c World
    \<Rightarrow> (reconcile_error + ActionType \<times> int) \<times> (string \<rightharpoonup> string) \<times> Controller \<times> 'c World" where
  "reconcile_gates x clk anomaly c w =
     (if IsProtectedNamespace (rc_policy c) (an_Namespace anomaly)
      then (Inl (ProtectedNamespace (an_Namespace anomaly)), Map.empty, c, w)
      else let (r, w1) = podGet x (an_Namespace anomaly) (an_AffectedPod anomaly) w; labels = podLabels r
      in if IsProtectedPod (rc_policy c) labels
         then (Inl (ProtectedPod (an_Namespace anomaly) (an_AffectedPod anomaly)), labels, c, w1)
      else let (ok, cb) = CircuitBreaker_Allow (clk 0) (rc_circuitBreaker c); c1 = c\<lparr>rc_circuitBreaker := cb\<rparr>
      in if \<not> ok then (Inl (BreakerOpen (TripReason (clk 1) cb)), labels, c1, w1)
      else let (ok, rl) = RateLimiter_Allow (clk 2) (clk 3) (rc_rateLimiter c1); c2 = c1\<lparr>rc_rateLimiter := rl\<rparr>
      in if \<not> ok then (Inl (RateLimited (RateLimiter_TimeUntilNext (clk 4) rl)), labels, c2, w1)
      else let (res, c3, w3) = gate_escalation x clk anomaly c2 w1
      in (res, labels, c3, w3))"

section \<open>Dispatch and bookkeeping\<close>

definition action_event ::
  "string \<Rightarrow> (nat \<Rightarrow> instant) \<Rightarrow> AnomalyEvent \<Rightarrow> ActionType \<Rightarrow> int \<Rightarrow> bool \<Rightarrow> ActionEvent" where
  "action_event uuid clk anomaly action attempt dryRun =
     (let e = \<lparr>ae_ActionID = uuid, ae_AnomalyID = an_AnomalyID anomaly, ae_Action = action,
        ae_TargetKind = ''Pod'', ae_TargetName = an_AffectedPod anomaly,
        ae_TargetNamespace = an_Namespace anomaly, ae_TargetNode = an_AffectedNode anomaly,
        ae_Patch = [], ae_FromValue = [], ae_ToValue = [], ae_Reason = an_SuggestedCause anomaly,
        ae_Confidence = an_Confidence anomaly, ae_DryRun = dryRun, ae_Attempt = attempt,
        ae_Timestamp = to_UnixMilli (clk 11)\<rparr>
      in if action = ActionCordonNode
         then e\<lparr>ae_TargetKind := ''Node'', ae_TargetName := an_AffectedNode anomaly\<rparr> else e)"

definition anomaly_target :: "AnomalyEvent \<Rightarrow> (string \<rightharpoonup> string) \<Rightarrow> Target" where
  "anomaly_target anomaly labels =
     \<lparr>tg_Pod = an_AffectedPod anomaly, tg_Namespace = an_Namespace anomaly, tg_Node = an_AffectedNode anomaly,
      tg_Deployment = an_Deployment anomaly, tg_Labels = labels\<rparr>"

definition reconcile_dispatch ::
  "(int \<Rightarrow> string) \<Rightarrow> 'c Ext \<Rightarrow> string \<Rightarrow> (nat \<Rightarrow> instant) \<Rightarrow> AnomalyEvent \<Rightarrow> (string \<rightharpoonup> string)
    \<Rightarrow> ActionType \<Rightarrow> int \<Rightarrow> Controller \<Rightarrow> 'c World \<Rightarrow> reconcile_error option \<times> Controller \<times> 'c World" where
  "reconcile_dispatch qstr x uuid clk anomaly labels action attempt c w =
     (let (err, w1) = Dispatcher_Execute (NewDispatcher qstr (rc_maxPct c)) action x
                        (anomaly_target anomaly labels) (rc_dryRun c) w;
          event = action_event uuid clk anomaly action attempt (rc_dryRun c);
          (c1, w2) = (if err \<noteq> None
             then (c\<lparr>rc_circuitBreaker := RecordFailure (clk 12) (clk 13) (rc_circuitBreaker c)\<rparr>, w1)
             else let w' = snd (PublishAction x (an_Namespace anomaly) (marshal_ActionEvent event) w1)
                  in (c, if rc_metrics c then observe ''ActionsDispatchedTotal'' [action, an_Namespace anomaly] 1 w'
                         else w'));
          w3 = RecordAction (rc_audit c) x
                 \<lparr>au_ActionID = uuid, au_AnomalyID = an_AnomalyID anomaly, au_Action = action,
                  au_Target = an_AffectedPod anomaly, au_Namespace = an_Namespace anomaly,
                  au_Reason = an_SuggestedCause anomaly, au_Confidence = an_Confidence anomaly,
                  au_DryRun = rc_dryRun c, au_OutcomeType = []\<rparr> (clk 14) w2;
          c2 = (if err = None \<and> \<not> rc_dryRun c
                then c1\<lparr>rc_pending := rc_pending c1 @ [(event, an_Type anomaly, ObservationWindow (rc_policy c) action)]\<rparr>
                else c1)
      in (map_option DispatchFailed err, c2, w3))"

definition reconcile ::
  "(int \<Rightarrow> string) \<Rightarrow> 'c Ext \<Rightarrow> string \<Rightarrow> (nat \<Rightarrow> instant) \<Rightarrow> AnomalyEvent \<Rightarrow> Controller \<Rightarrow> 'c World
    \<Rightarrow> reconcile_error option \<times> Controller \<times> 'c World" where
  "reconcile qstr x uuid clk anomaly c w =
     (let (res, labels, c1, w1) = reconcile_gates x clk anomaly c w
      in case res of Inl e \<Rightarrow> (Some e, c1, w1)
         | Inr (action, attempt) \<Rightarrow> reconcile_dispatch qstr x uuid clk anomaly labels action attempt c1 w1)"

text \<open>The handler acknowledges every message: its error result is always nil.\<close>

definition handleAnomaly ::
  "(int \<Rightarrow> string) \<Rightarrow> 'c Ext \<Rightarrow> string \<Rightarrow> (nat \<Rightarrow> instant) \<Rightarrow> json option \<Rightarrow> Controller \<times> 'c World
    \<Rightarrow> string option \<times> Controller \<times> 'c World" where
  "handleAnomaly qstr x uuid clk data s =
     (case unmarshal_AnomalyEvent data of
        None \<Rightarrow> (None, s)
      | Some anomaly \<Rightarrow> (None, snd (reconcile qstr x uuid clk anomaly (fst s) (snd s))))"

section \<open>What the gates leave alone\<close>

text \<open>What no gate and no dispatch changes.\<close>

definition rc_config :: "Controller \<Rightarrow> Policy \<times> int \<times> bool \<times> bool \<times> bool" where
  "rc_config c = (rc_policy c, rc_maxPct c, rc_dryRun c, rc_audit c, rc_metrics c)"

lemma rc_config_update [simp]:
  "rc_config (c\<lparr>rc_rateLimiter := a\<rparr>) = rc_config c" "rc_config (c\<lparr>rc_cooldowns := b\<rparr>) = rc_config c"
  "rc_config (c\<lparr>rc_circuitBreaker := d\<rparr>) = rc_config c" "rc_config (c\<lparr>rc_escalation := e\<rparr>) = rc_config c"
  "rc_config (c\<lparr>rc_pending := f\<rparr>) = rc_config c"
  by (simp_all add: rc_config_def)

text \<open>A world reached by reads alone.\<close>

definition only_reads :: "'c World \<Rightarrow> 'c World \<Rightarrow> bool" where
  "only_reads w w' \<longleftrightarrow> w_published w' = w_published w \<and>
     (\<exists>cs. w_calls w' = w_calls w @ cs \<and> (\<forall>q \<in> set cs. \<not> disruptive q))"

lemma only_reads_refl [simp]: "only_reads w w"
  by (simp add: only_reads_def)

lemma only_reads_trans: "only_reads w1 w2 \<Longrightarrow> only_reads w2 w3 \<Longrightarrow> only_reads w1 w3"
  by (fastforce simp: only_reads_def)

lemma only_reads_podGet [simp]: "only_reads w (snd (podGet x ns p w))"
  by (simp add: only_reads_def api_defs)

lemma only_reads_AffectedPodCount [simp]: "only_reads w (snd (AffectedPodCount x n ns w))"
  by (simp add: only_reads_def AffectedPodCount_def api_defs case_prod_beta split: sum.splits)

lemma only_reads_issued: "only_reads w w' \<Longrightarrow> q \<in> set (issued w w') \<Longrightarrow> \<not> disruptive q"
  by (auto simp: only_reads_def)

lemma gate_cordon_frame [simp]:
  "fst (snd (gate_cordon x a act n c w)) = c"
  "only_reads w (snd (snd (gate_cordon x a act n c w)))"
  by (simp_all add: gate_cordon_def case_prod_beta Let_def)

lemma gate_cordon_pass:
  assumes "fst (gate_cordon x a act n c w) = Inr (act', n')"
  shows "act' = act" "n' = n"
    and "act = ActionCordonNode \<Longrightarrow>
         CordonMinPodCount (rc_policy c) \<le> fst (fst (AffectedPodCount x (an_AffectedNode a) (an_Namespace a) w))"
  using assms by (auto simp: gate_cordon_def case_prod_beta Let_def split: if_splits)

lemma gate_escalation_reads [simp]: "only_reads w (snd (snd (gate_escalation x clk a c w)))"
  by (simp add: gate_escalation_def case_prod_beta Let_def split: option.split)

lemma gate_escalation_frame [simp]:
  "rc_config (fst (snd (gate_escalation x clk a c w))) = rc_config c"
  "rc_rateLimiter (fst (snd (gate_escalation x clk a c w))) = rc_rateLimiter c"
  "rc_circuitBreaker (fst (snd (gate_escalation x clk a c w))) = rc_circuitBreaker c"
  "rc_pending (fst (snd (gate_escalation x clk a c w))) = rc_pending c"
  by (simp_all add: gate_escalation_def case_prod_beta Let_def split: option.split)

lemma reconcile_gates_reads [simp]: "only_reads w (snd (snd (snd (reconcile_gates x clk a c w))))"
proof -
  have "only_reads w (snd (snd (gate_escalation x clk a c' (snd (podGet x ns p w)))))" for c' ns p
    by (rule only_reads_trans [OF only_reads_podGet gate_escalation_reads])
  then show ?thesis by (simp add: reconcile_gates_def case_prod_beta Let_def)
qed

lemma reconcile_gates_frame [simp]:
  "rc_config (fst (snd (snd (reconcile_gates x clk a c w)))) = rc_config c"
  "rc_pending (fst (snd (snd (reconcile_gates x clk a c w)))) = rc_pending c"
  by (simp_all add: reconcile_gates_def case_prod_beta Let_def)

section \<open>What passing the gates means\<close>

text \<open>The first four gates, as a predicate on the state before.\<close>

definition admitted :: "'c Ext \<Rightarrow> (nat \<Rightarrow> instant) \<Rightarrow> AnomalyEvent \<Rightarrow> Controller \<Rightarrow> 'c World \<Rightarrow> bool" where
  "admitted x clk a c w \<longleftrightarrow>
     \<not> IsProtectedNamespace (rc_policy c) (an_Namespace a)
     \<and> \<not> IsProtectedPod (rc_policy c) (podLabels (fst (podGet x (an_Namespace a) (an_AffectedPod a) w)))
     \<and> fst (CircuitBreaker_Allow (clk 0) (rc_circuitBreaker c))"

definition rate_ok :: "(nat \<Rightarrow> instant) \<Rightarrow> Controller \<Rightarrow> bool" where
  "rate_ok clk c = fst (RateLimiter_Allow (clk 2) (clk 3) (rc_rateLimiter c))"

definition after_limits :: "(nat \<Rightarrow> instant) \<Rightarrow> Controller \<Rightarrow> Controller" where
  "after_limits clk c =
     c\<lparr>rc_circuitBreaker := snd (CircuitBreaker_Allow (clk 0) (rc_circuitBreaker c)),
       rc_rateLimiter := snd (RateLimiter_Allow (clk 2) (clk 3) (rc_rateLimiter c))\<rparr>"

lemma reconcile_gates_admitted:
  assumes "admitted x clk a c w" "rate_ok clk c"
  shows "reconcile_gates x clk a c w =
    (let (res, c3, w3) = gate_escalation x clk a (after_limits clk c)
           (snd (podGet x (an_Namespace a) (an_AffectedPod a) w))
     in (res, podLabels (fst (podGet x (an_Namespace a) (an_AffectedPod a) w)), c3, w3))"
  using assms by (simp add: reconcile_gates_def admitted_def rate_ok_def after_limits_def case_prod_beta Let_def)

lemma reconcile_gates_refused:
  assumes "\<not> (admitted x clk a c w \<and> rate_ok clk c)"
  shows "\<exists>e. fst (reconcile_gates x clk a c w) = Inl e"
    and "rc_escalation (fst (snd (snd (reconcile_gates x clk a c w)))) = rc_escalation c"
    and "rc_cooldowns (fst (snd (snd (reconcile_gates x clk a c w)))) = rc_cooldowns c"
  using assms by (auto simp: reconcile_gates_def admitted_def rate_ok_def case_prod_beta Let_def)

lemma reconcile_gates_limiter:
  "rc_rateLimiter (fst (snd (snd (reconcile_gates x clk a c w)))) =
   (if admitted x clk a c w then snd (RateLimiter_Allow (clk 2) (clk 3) (rc_rateLimiter c)) else rc_rateLimiter c)"
  by (auto simp: reconcile_gates_def admitted_def case_prod_beta Let_def)

lemma gate_escalation_pass:
  assumes "fst (gate_escalation x clk a c w) = Inr (act, n)"
  shows "\<not> IsManual (an_AffectedPod a) (an_Namespace a) (an_Type a) (rc_escalation c)"
    and "fst (NextAction (an_AffectedPod a) (an_Namespace a) (an_Type a) (clk 5, clk 6, clk 7) (rc_escalation c))
         = (act, n, None)"
    and "\<not> RequiresConfirmation (rc_policy c) act"
    and "fst (GuardCooldown_Allow (an_AffectedPod a) (an_Namespace a) act (clk 9) (rc_cooldowns c))"
    and "act = ActionCordonNode \<Longrightarrow>
         CordonMinPodCount (rc_policy c) \<le> fst (fst (AffectedPodCount x (an_AffectedNode a) (an_Namespace a) w))"
proof -
  let ?n = "NextAction (an_AffectedPod a) (an_Namespace a) (an_Type a) (clk 5, clk 6, clk 7) (rc_escalation c)"
  let ?act = "fst (fst ?n)"
  let ?cds = "GuardCooldown_Allow (an_AffectedPod a) (an_Namespace a) ?act (clk 9) (rc_cooldowns c)"
  let ?g = "gate_cordon x a ?act (fst (snd (fst ?n))) (c\<lparr>rc_escalation := snd ?n, rc_cooldowns := snd ?cds\<rparr>) w"
  have h: "\<not> IsManual (an_AffectedPod a) (an_Namespace a) (an_Type a) (rc_escalation c)"
    "snd (snd (fst ?n)) = None" "\<not> RequiresConfirmation (rc_policy c) ?act" "fst ?cds" "fst ?g = Inr (act, n)"
    using assms by (auto simp: gate_escalation_def case_prod_beta Let_def split: if_splits option.splits)
  note g = gate_cordon_pass [OF h(5)]
  show "\<not> IsManual (an_AffectedPod a) (an_Namespace a) (an_Type a) (rc_escalation c)" by (rule h(1))
  show "fst ?n = (act, n, None)" using g h(2) by (simp add: prod_eq_iff)
  show "\<not> RequiresConfirmation (rc_policy c) act" using g h(3) by simp
  show "fst (GuardCooldown_Allow (an_AffectedPod a) (an_Namespace a) act (clk 9) (rc_cooldowns c))"
    using g h(4) by simp
  show "act = ActionCordonNode \<Longrightarrow>
      CordonMinPodCount (rc_policy c) \<le> fst (fst (AffectedPodCount x (an_AffectedNode a) (an_Namespace a) w))"
    using g by simp
qed

lemma after_limits_frame [simp]:
  "rc_policy (after_limits clk c) = rc_policy c" "rc_escalation (after_limits clk c) = rc_escalation c"
  "rc_cooldowns (after_limits clk c) = rc_cooldowns c" "rc_config (after_limits clk c) = rc_config c"
  "rc_pending (after_limits clk c) = rc_pending c" "rc_dryRun (after_limits clk c) = rc_dryRun c"
  by (simp_all add: after_limits_def)

lemma reconcile_gates_pass:
  assumes "fst (reconcile_gates x clk a c w) = Inr (act, n)"
  shows "admitted x clk a c w" "rate_ok clk c"
    and "fst (gate_escalation x clk a (after_limits clk c) (snd (podGet x (an_Namespace a) (an_AffectedPod a) w)))
         = Inr (act, n)"
proof -
  have "admitted x clk a c w \<and> rate_ok clk c"
    using reconcile_gates_refused(1) [of x clk a c w] assms by auto
  then show h: "admitted x clk a c w" "rate_ok clk c" by simp_all
  show "fst (gate_escalation x clk a (after_limits clk c) (snd (podGet x (an_Namespace a) (an_AffectedPod a) w)))
      = Inr (act, n)"
    using assms by (simp add: reconcile_gates_admitted [OF h] case_prod_beta)
qed

section \<open>What a dispatch does\<close>

lemma reconcile_dispatch_frame [simp]:
  "rc_config (fst (snd (reconcile_dispatch q x u clk a l act n c w))) = rc_config c"
  "rc_rateLimiter (fst (snd (reconcile_dispatch q x u clk a l act n c w))) = rc_rateLimiter c"
  "rc_cooldowns (fst (snd (reconcile_dispatch q x u clk a l act n c w))) = rc_cooldowns c"
  "rc_escalation (fst (snd (reconcile_dispatch q x u clk a l act n c w))) = rc_escalation c"
  by (simp_all add: reconcile_dispatch_def case_prod_beta Let_def)

lemma PublishAction_calls [simp]: "w_calls (snd (PublishAction x ns d w)) = w_calls w"
  by (simp add: publish_defs(4))

text \<open>The requests of a dispatch: those of the executor, then the audit event.\<close>

lemma reconcile_dispatch_trace:
  "\<exists>cs. w_calls (snd (snd (reconcile_dispatch q x u clk a l act n c w))) = w_calls w @ cs
      \<and> (\<forall>r \<in> set cs. disruptive r \<longrightarrow> \<not> rc_dryRun c \<and> names_target (anomaly_target a l) r)"
proof -
  let ?d = "Dispatcher_Execute (NewDispatcher q (rc_maxPct c)) act x (anomaly_target a l) (rc_dryRun c) w"
  obtain cs where cs: "w_calls (snd ?d) = w_calls w @ cs"
    "\<forall>r \<in> set cs. disruptive r \<longrightarrow> \<not> rc_dryRun c \<and> names_target (anomaly_target a l) r"
    using dispatch.trace [of q "rc_maxPct c" act x "anomaly_target a l" "rc_dryRun c" w] by blast
  have "\<exists>es. w_calls (snd (snd (reconcile_dispatch q x u clk a l act n c w))) = w_calls (snd ?d) @ es
      \<and> (\<forall>e \<in> set es. \<not> disruptive e)"
    by (auto simp: reconcile_dispatch_def case_prod_beta Let_def)
  then show ?thesis using cs by fastforce
qed

lemma reconcile_trace:
  "\<exists>cs. w_calls (snd (snd (reconcile q x u clk a c w))) = w_calls w @ cs
      \<and> (\<forall>r \<in> set cs. disruptive r \<longrightarrow> \<not> rc_dryRun c \<and>
           (\<exists>act n. fst (reconcile_gates x clk a c w) = Inr (act, n)) \<and>
           names_target (anomaly_target a (fst (snd (reconcile_gates x clk a c w)))) r)"
proof -
  obtain res l c1 w1 where g: "reconcile_gates x clk a c w = (res, l, c1, w1)" by (cases "reconcile_gates x clk a c w")
  obtain cs where cs: "w_calls w1 = w_calls w @ cs" "\<forall>r \<in> set cs. \<not> disruptive r"
    using reconcile_gates_reads [of w x clk a c] by (auto simp: only_reads_def g)
  have d: "rc_dryRun c1 = rc_dryRun c"
    using reconcile_gates_frame(1) [of x clk a c w] by (simp add: g rc_config_def)
  show ?thesis
  proof (cases res)
    case (Inl e)
    then show ?thesis using cs by (auto simp: reconcile_def g)
  next
    case (Inr q')
    obtain act n where q': "q' = (act, n)" by (cases q')
    show ?thesis
      using reconcile_dispatch_trace [of q x u clk a l act n c1 w1] cs
      by (fastforce simp: reconcile_def g Inr q' d)
  qed
qed

lemmas reconcile_issued = reconcile_trace [THEN exE]

text \<open>The blast radius of a target does not depend on its labels.\<close>

lemma names_target_labels: "names_target (anomaly_target a l) q \<longleftrightarrow> names_target (anomaly_target a l') q"
  by (cases q) (simp_all add: anomaly_target_def)

lemma reconcile_disruptive:
  assumes "q \<in> set (issued w (snd (snd (reconcile qs x u clk a c w))))" "disruptive q"
  shows "\<not> rc_dryRun c" "\<exists>act n. fst (reconcile_gates x clk a c w) = Inr (act, n)"
    "names_target (anomaly_target a l) q"
proof -
  obtain cs where "w_calls (snd (snd (reconcile qs x u clk a c w))) = w_calls w @ cs"
    "\<forall>r \<in> set cs. disruptive r \<longrightarrow> \<not> rc_dryRun c \<and>
       (\<exists>act n. fst (reconcile_gates x clk a c w) = Inr (act, n)) \<and>
       names_target (anomaly_target a (fst (snd (reconcile_gates x clk a c w)))) r"
    using reconcile_trace [of qs x u clk a c w] by blast
  then show "\<not> rc_dryRun c" "\<exists>act n. fst (reconcile_gates x clk a c w) = Inr (act, n)"
    "names_target (anomaly_target a l) q"
    using assms names_target_labels [of a _ q l] by auto
qed

lemma reconcile_config [simp]: "rc_config (fst (snd (reconcile q x u clk a c w))) = rc_config c"
proof -
  obtain res l c1 w1 where g: "reconcile_gates x clk a c w = (res, l, c1, w1)" by (cases "reconcile_gates x clk a c w")
  then show ?thesis
    using reconcile_gates_frame(1) [of x clk a c w] by (cases res) (auto simp: reconcile_def)
qed

end
