(* ===== verification/ControllerRun.thy ===== *)
theory ControllerRun
  imports Reconciler
begin

text \<open>
  The running controller as a labelled transition system: reconciliations of incoming
  anomalies, outcomes of pending observers, the purge of \<open>Run\<close>'s background ticker, and
  changes of the outside world. A reconciliation's label records what was dispatched and
  which requests were issued. The invariants hold in every reachable state; the spacing
  and the caps of dispatches over whole runs come from the gates' contracts.
\<close>

section \<open>Steps\<close>

datatype ctl_label =
    LReconcile AnomalyEvent "nat \<Rightarrow> instant" "ActionType option" "api_call list"
  | LOutcome ActionEvent bool
  | LPurge
  | LWorld

definition dispatched :: "reconcile_error + ActionType \<times> int \<Rightarrow> ActionType option" where
  "dispatched r = (case r of Inl _ \<Rightarrow> None | Inr (act, _) \<Rightarrow> Some act)"

text \<open>
  An observer polls while other steps happen, so its verdict is that of a watch started in
  some world \<open>w0\<close>; its publication acts on the current state.
\<close>

inductive ctl_step ::
  "(int \<Rightarrow> string) \<Rightarrow> 'c Ext \<Rightarrow> ctl_label \<Rightarrow> Controller \<times> 'c World \<Rightarrow> Controller \<times> 'c World \<Rightarrow> bool"
  for qstr x where
  step_reconcile:
    "reconcile qstr x u clk a c w = (err, c', w') \<Longrightarrow>
     ctl_step qstr x (LReconcile a clk (dispatched (fst (reconcile_gates x clk a c w))) (issued w w')) (c, w) (c', w')"
| step_outcome:
    "i < length (rc_pending c) \<Longrightarrow> rc_pending c ! i = (action, ty, window) \<Longrightarrow>
     watch fuel x action window clk (\<lambda>_. False) w0 = Some ((b, ms), w1) \<Longrightarrow>
     Observer_publish (rc_metrics c) x action ty b ms clk' (rc_circuitBreaker c) (rc_escalation c) w = (cb, em, w') \<Longrightarrow>
     ctl_step qstr x (LOutcome action b) (c, w)
       (c\<lparr>rc_circuitBreaker := cb, rc_escalation := em,
          rc_pending := take i (rc_pending c) @ drop (Suc i) (rc_pending c)\<rparr>, w')"
| step_purge:
    "ctl_step qstr x LPurge (c, w) (c\<lparr>rc_escalation := snd (Purge (2 * Hour) now (rc_escalation c))\<rparr>, w)"
| step_world:
    "ctl_step qstr x LWorld (c, w) (c, w\<lparr>w_env := e\<rparr>)"

inductive ctl_steps ::
  "(int \<Rightarrow> string) \<Rightarrow> 'c Ext \<Rightarrow> ctl_label list \<Rightarrow> Controller \<times> 'c World \<Rightarrow> Controller \<times> 'c World \<Rightarrow> bool"
  for qstr x where
  steps_nil: "ctl_steps qstr x [] s s"
| steps_cons: "ctl_step qstr x l s s1 \<Longrightarrow> ctl_steps qstr x ls s1 s2 \<Longrightarrow> ctl_steps qstr x (l # ls) s s2"

inductive_cases ctl_reconcileE: "ctl_step qstr x (LReconcile a clk act calls) s s'"

section \<open>Effect of a reconciliation on each component\<close>

lemma reconcile_cases:
  assumes "reconcile q x u clk a c w = (err, c', w')"
  obtains e l where "reconcile_gates x clk a c w = (Inl e, l, c', w')" "err = Some e"
  | act n l c1 w1 where "reconcile_gates x clk a c w = (Inr (act, n), l, c1, w1)"
      "reconcile_dispatch q x u clk a l act n c1 w1 = (err, c', w')"
proof -
  obtain res l c1 w1 where g: "reconcile_gates x clk a c w = (res, l, c1, w1)" by (cases "reconcile_gates x clk a c w")
  show thesis
  proof (cases res)
    case (Inl e)
    then show thesis using that(1) assms g by (auto simp: reconcile_def)
  next
    case (Inr r)
    then show thesis using that(2) assms g by (cases r) (auto simp: reconcile_def)
  qed
qed

lemma reconcile_limiter:
  assumes "reconcile q x u clk a c w = (err, c', w')"
  shows "rc_rateLimiter c' =
    (if admitted x clk a c w then snd (RateLimiter_Allow (clk 2) (clk 3) (rc_rateLimiter c)) else rc_rateLimiter c)"
  using assms
proof (cases rule: reconcile_cases)
  case 1
  then show ?thesis using reconcile_gates_limiter [of x clk a c w] by simp
next
  case (2 act n l c1 w1)
  then show ?thesis
    using reconcile_gates_limiter [of x clk a c w] reconcile_dispatch_frame(2) [of q x u clk a l act n c1 w1] by simp
qed

text \<open>The cooldown store is asked at most once, for the action the escalation chose.\<close>

definition chosen :: "(nat \<Rightarrow> instant) \<Rightarrow> AnomalyEvent \<Rightarrow> Controller \<Rightarrow> ActionType \<times> int \<times> string option" where
  "chosen clk a c =
     fst (NextAction (an_AffectedPod a) (an_Namespace a) (an_Type a) (clk 5, clk 6, clk 7) (rc_escalation c))"

definition asks_cooldown :: "(nat \<Rightarrow> instant) \<Rightarrow> AnomalyEvent \<Rightarrow> Controller \<Rightarrow> bool" where
  "asks_cooldown clk a c \<longleftrightarrow>
     \<not> IsManual (an_AffectedPod a) (an_Namespace a) (an_Type a) (rc_escalation c)
     \<and> snd (snd (chosen clk a c)) = None \<and> \<not> RequiresConfirmation (rc_policy c) (fst (chosen clk a c))"

definition cooldown_key :: "(nat \<Rightarrow> instant) \<Rightarrow> AnomalyEvent \<Rightarrow> Controller \<Rightarrow> GuardCooldownKey" where
  "cooldown_key clk a c = (an_AffectedPod a, an_Namespace a, fst (chosen clk a c))"

lemma gate_escalation_cooldowns:
  "rc_cooldowns (fst (snd (gate_escalation x clk a c w))) =
   (if asks_cooldown clk a c then snd (gcs_gate (cooldown_key clk a c) (clk 9) (clk 9) (rc_cooldowns c))
    else rc_cooldowns c)"
  by (auto simp: gate_escalation_def asks_cooldown_def chosen_def cooldown_key_def gcs_gate_def case_prod_beta Let_def
      split: option.split)

lemma gate_escalation_dispatched:
  assumes "dispatched (fst (gate_escalation x clk a c w)) = Some act"
  shows "asks_cooldown clk a c" "act = fst (chosen clk a c)"
    "fst (gcs_gate (cooldown_key clk a c) (clk 9) (clk 9) (rc_cooldowns c))"
proof -
  obtain n where "fst (gate_escalation x clk a c w) = Inr (act, n)"
    using assms by (auto simp: dispatched_def split: sum.splits)
  note p = gate_escalation_pass [OF this]
  show "asks_cooldown clk a c" "act = fst (chosen clk a c)"
    "fst (gcs_gate (cooldown_key clk a c) (clk 9) (clk 9) (rc_cooldowns c))"
    using p by (simp_all add: asks_cooldown_def chosen_def cooldown_key_def gcs_gate_def)
qed

lemma chosen_after_limits [simp]:
  "chosen clk a (after_limits clk c) = chosen clk a c"
  "asks_cooldown clk a (after_limits clk c) = asks_cooldown clk a c"
  "cooldown_key clk a (after_limits clk c) = cooldown_key clk a c"
  by (simp_all add: chosen_def asks_cooldown_def cooldown_key_def)

definition reaches_cooldown :: "'c Ext \<Rightarrow> (nat \<Rightarrow> instant) \<Rightarrow> AnomalyEvent \<Rightarrow> Controller \<Rightarrow> 'c World \<Rightarrow> bool" where
  "reaches_cooldown x clk a c w \<longleftrightarrow> admitted x clk a c w \<and> rate_ok clk c \<and> asks_cooldown clk a c"

lemma reconcile_gates_cooldowns:
  "rc_cooldowns (fst (snd (snd (reconcile_gates x clk a c w)))) =
   (if reaches_cooldown x clk a c w then snd (gcs_gate (cooldown_key clk a c) (clk 9) (clk 9) (rc_cooldowns c))
    else rc_cooldowns c)"
proof (cases "admitted x clk a c w \<and> rate_ok clk c")
  case True
  then show ?thesis
    using reconcile_gates_admitted [of x clk a c w]
    by (auto simp: reaches_cooldown_def gate_escalation_cooldowns case_prod_beta)
next
  case False
  then show ?thesis using reconcile_gates_refused(3) [OF False] by (auto simp: reaches_cooldown_def)
qed

lemma reconcile_cooldowns:
  assumes "reconcile q x u clk a c w = (err, c', w')"
  shows "rc_cooldowns c' =
    (if reaches_cooldown x clk a c w then snd (gcs_gate (cooldown_key clk a c) (clk 9) (clk 9) (rc_cooldowns c))
     else rc_cooldowns c)"
  using assms
proof (cases rule: reconcile_cases)
  case 1
  then show ?thesis using reconcile_gates_cooldowns [of x clk a c w] by simp
next
  case (2 act n l c1 w1)
  then show ?thesis
    using reconcile_gates_cooldowns [of x clk a c w] reconcile_dispatch_frame(3) [of q x u clk a l act n c1 w1] by simp
qed

lemma reconcile_gates_dispatched:
  assumes "dispatched (fst (reconcile_gates x clk a c w)) = Some act"
  shows "rate_ok clk c" "admitted x clk a c w" "reaches_cooldown x clk a c w" "act = fst (chosen clk a c)"
    "fst (gcs_gate (cooldown_key clk a c) (clk 9) (clk 9) (rc_cooldowns c))"
proof -
  obtain n where "fst (reconcile_gates x clk a c w) = Inr (act, n)"
    using assms by (auto simp: dispatched_def split: sum.splits)
  note p = reconcile_gates_pass [OF this]
  have "dispatched (fst (gate_escalation x clk a (after_limits clk c)
      (snd (podGet x (an_Namespace a) (an_AffectedPod a) w)))) = Some act"
    using p(3) by (simp add: dispatched_def)
  from gate_escalation_dispatched [OF this] p(1,2)
  show "rate_ok clk c" "admitted x clk a c w" "reaches_cooldown x clk a c w" "act = fst (chosen clk a c)"
    "fst (gcs_gate (cooldown_key clk a c) (clk 9) (clk 9) (rc_cooldowns c))"
    by (simp_all add: reaches_cooldown_def)
qed

subsection \<open>Escalation\<close>

definition anomaly_key :: "AnomalyEvent \<Rightarrow> escalationKey" where
  "anomaly_key a = (an_AffectedPod a, an_Namespace a, an_Type a)"

definition climb :: "Policy \<Rightarrow> nat \<Rightarrow> nat" where
  "climb p r = (if r \<ge> 7 then r
                else if RequiresConfirmation p (fst (ladder (Suc r))) then 0 else Suc r)"

lemma gate_escalation_rung:
  assumes "esc_wf (rc_escalation c)"
  shows "esc_wf (rc_escalation (fst (snd (gate_escalation x clk a c w))))"
    and "esc_rung (rc_escalation (fst (snd (gate_escalation x clk a c w)))) =
      (esc_rung (rc_escalation c))(anomaly_key a := climb (rc_policy c) (esc_rung (rc_escalation c) (anomaly_key a)))"
proof -
  let ?em = "rc_escalation c" and ?k = "anomaly_key a"
  have "esc_wf (rc_escalation (fst (snd (gate_escalation x clk a c w)))) \<and>
    esc_rung (rc_escalation (fst (snd (gate_escalation x clk a c w)))) =
      (esc_rung ?em)(?k := climb (rc_policy c) (esc_rung ?em ?k))"
  proof (cases "esc_rung ?em ?k < 7")
    case False
    then have "esc_rung ?em ?k = 7" using esc_rung_le [OF assms, of ?k] by simp
    then have "IsManual (an_AffectedPod a) (an_Namespace a) (an_Type a) ?em"
      by (simp add: IsManual_rung [OF assms] anomaly_key_def)
    then show ?thesis using assms False by (auto simp: gate_escalation_def climb_def Let_def fun_upd_idem)
  next
    case True
    have m: "\<not> IsManual (an_AffectedPod a) (an_Namespace a) (an_Type a) ?em"
      using True by (simp add: IsManual_rung [OF assms] anomaly_key_def)
    obtain em' where n: "NextAction (an_AffectedPod a) (an_Namespace a) (an_Type a) (clk 5, clk 6, clk 7) ?em =
        ((fst (ladder (Suc (esc_rung ?em ?k))), snd (ladder (Suc (esc_rung ?em ?k))), None), em')"
      "esc_wf em'" "esc_rung em' = (esc_rung ?em)(?k := Suc (esc_rung ?em ?k))"
      using NextAction_refines(1) [OF assms anomaly_key_def True] by blast
    show ?thesis
      using True n MarkResolved_refines [OF n(2), of "an_AffectedPod a" "an_Namespace a" "an_Type a" "clk 8"]
      by (auto simp: gate_escalation_def climb_def m Let_def case_prod_beta simp flip: anomaly_key_def)
  qed
  then show "esc_wf (rc_escalation (fst (snd (gate_escalation x clk a c w))))"
    "esc_rung (rc_escalation (fst (snd (gate_escalation x clk a c w)))) =
      (esc_rung ?em)(?k := climb (rc_policy c) (esc_rung ?em ?k))" by simp_all
qed

lemma reconcile_gates_rung:
  assumes "esc_wf (rc_escalation c)"
  shows "esc_wf (rc_escalation (fst (snd (snd (reconcile_gates x clk a c w)))))"
    and "esc_rung (rc_escalation (fst (snd (snd (reconcile_gates x clk a c w))))) =
      (if admitted x clk a c w \<and> rate_ok clk c
       then (esc_rung (rc_escalation c))(anomaly_key a := climb (rc_policy c) (esc_rung (rc_escalation c) (anomaly_key a)))
       else esc_rung (rc_escalation c))"
proof -
  have w: "esc_wf (rc_escalation (after_limits clk c))" using assms by simp
  note g = gate_escalation_rung [OF w]
  show "esc_wf (rc_escalation (fst (snd (snd (reconcile_gates x clk a c w)))))"
    using assms g(1) reconcile_gates_refused(2) [of x clk a c w] reconcile_gates_admitted [of x clk a c w]
    by (cases "admitted x clk a c w \<and> rate_ok clk c") (simp_all add: case_prod_beta)
  show "esc_rung (rc_escalation (fst (snd (snd (reconcile_gates x clk a c w))))) =
      (if admitted x clk a c w \<and> rate_ok clk c
       then (esc_rung (rc_escalation c))(anomaly_key a := climb (rc_policy c) (esc_rung (rc_escalation c) (anomaly_key a)))
       else esc_rung (rc_escalation c))"
    using g(2) reconcile_gates_refused(2) [of x clk a c w] reconcile_gates_admitted [of x clk a c w]
    by (auto simp: case_prod_beta)
qed

lemma reconcile_rung:
  assumes "reconcile q x u clk a c w = (err, c', w')" "esc_wf (rc_escalation c)"
  shows "esc_wf (rc_escalation c')"
    and "esc_rung (rc_escalation c') =
      (if admitted x clk a c w \<and> rate_ok clk c
       then (esc_rung (rc_escalation c))(anomaly_key a := climb (rc_policy c) (esc_rung (rc_escalation c) (anomaly_key a)))
       else esc_rung (rc_escalation c))"
proof -
  have "rc_escalation c' = rc_escalation (fst (snd (snd (reconcile_gates x clk a c w))))"
    using assms(1)
  proof (cases rule: reconcile_cases)
    case (2 act n l c1 w1)
    then show ?thesis using reconcile_dispatch_frame(4) [of q x u clk a l act n c1 w1] by simp
  qed simp
  then show "esc_wf (rc_escalation c')" "esc_rung (rc_escalation c') =
      (if admitted x clk a c w \<and> rate_ok clk c
       then (esc_rung (rc_escalation c))(anomaly_key a := climb (rc_policy c) (esc_rung (rc_escalation c) (anomaly_key a)))
       else esc_rung (rc_escalation c))"
    using reconcile_gates_rung [OF assms(2), of x clk a w] by simp_all
qed

section \<open>Invariants\<close>

definition ctl_wf :: "Controller \<Rightarrow> bool" where
  "ctl_wf c \<longleftrightarrow> esc_wf (rc_escalation c) \<and> rl_minInterval (rc_rateLimiter c) = 10 * Second
     \<and> gcs_policy (rc_cooldowns c) = rc_policy c
     \<and> cb_config (rc_circuitBreaker c) = cb_config (NewCircuitBreaker (rc_policy c))"

lemma ctl_wf_New: "ctl_wf (NewReconciler cfg)"
  by (simp add: ctl_wf_def NewReconciler_def NewGlobalRateLimiter_def NewGuardCooldownStore_def esc_wf_New)

lemma NewReconciler_sel [simp]:
  "rc_policy (NewReconciler cfg) = cfg_Policy cfg"
  "rc_cooldowns (NewReconciler cfg) = NewGuardCooldownStore (cfg_Policy cfg)"
  "rc_dryRun (NewReconciler cfg) = (cfg_DryRun cfg \<or> IsDryRun (cfg_Policy cfg))"
  "rc_escalation (NewReconciler cfg) = NewEscalationManager"
  by (simp_all add: NewReconciler_def)

lemma NewGuardCooldownStore_gate [simp]:
  "gcs_wf (NewGuardCooldownStore p) \<longleftrightarrow> (\<forall>a. CooldownFor p a \<noteq> minDuration)"
  "gcs_hist (NewGuardCooldownStore p) k = []"
  by (simp_all add: NewGuardCooldownStore_def gcs_wf_def gcs_hist_def gcs_entry_def)

lemma RateLimiter_Allow_interval [simp]:
  "rl_minInterval (snd (RateLimiter_Allow n1 n2 r)) = rl_minInterval r"
  by (simp add: gate_defs)

lemma gcs_gate_policy [simp]: "gcs_policy (snd (gcs_gate k n1 n2 s)) = gcs_policy s"
  using gcs_gate_cases(1) [of k n1 n2 s "fst (gcs_gate k n1 n2 s)" "snd (gcs_gate k n1 n2 s)"] by simp

lemma reconcile_breaker_config:
  assumes "reconcile q x u clk a c w = (err, c', w')"
  shows "cb_config (rc_circuitBreaker c') = cb_config (rc_circuitBreaker c)"
proof -
  have g: "cb_config (rc_circuitBreaker (fst (snd (snd (reconcile_gates x clk a c w))))) =
      cb_config (rc_circuitBreaker c)"
    by (simp add: reconcile_gates_def case_prod_beta Let_def)
  have d: "cb_config (rc_circuitBreaker (fst (snd (reconcile_dispatch q x u clk a l act n c1 w1)))) =
      cb_config (rc_circuitBreaker c1)" for l act n c1 w1
    by (simp add: reconcile_dispatch_def case_prod_beta Let_def)
  show ?thesis
    using assms
  proof (cases rule: reconcile_cases)
    case (2 act n l c1 w1)
    then show ?thesis using g d [of l act n c1 w1] by simp
  qed (use g in simp)
qed

lemma reconcile_policy:
  assumes "reconcile q x u clk a c w = (err, c', w')"
  shows "rc_policy c' = rc_policy c" "rc_dryRun c' = rc_dryRun c"
  using reconcile_config [of q x u clk a c w] assms by (simp_all add: rc_config_def)

lemma ctl_step_wf:
  assumes "ctl_step q x l s s'" "ctl_wf (fst s)"
  shows "ctl_wf (fst s')" "rc_config (fst s') = rc_config (fst s)"
  using assms
proof (induction rule: ctl_step.induct)
  case (step_reconcile u clk a c w err c' w')
  note r = step_reconcile(1)
  { case 1
    then show ?case
      using reconcile_rung(1) [OF r] reconcile_limiter [OF r] reconcile_cooldowns [OF r]
        reconcile_breaker_config [OF r] reconcile_policy [OF r]
      by (simp add: ctl_wf_def) }
  { case 2
    show ?case using reconcile_config [of q x u clk a c w] r by simp }
next
  case (step_outcome i c action ty window fuel clk w0 b ms w1 clk' w cb em w')
  have em: "em = fst (snd (Observer_publish (rc_metrics c) x action ty b ms clk' (rc_circuitBreaker c) (rc_escalation c) w))"
    and cb: "cb = fst (Observer_publish (rc_metrics c) x action ty b ms clk' (rc_circuitBreaker c) (rc_escalation c) w)"
    using step_outcome by simp_all
  have "cb_config cb = cb_config (rc_circuitBreaker c)"
    by (simp add: cb Observer_publish_def Let_def case_prod_beta)
  then show "ctl_wf (fst (c\<lparr>rc_circuitBreaker := cb, rc_escalation := em,
      rc_pending := take i (rc_pending c) @ drop (Suc i) (rc_pending c)\<rparr>, w'))" if "ctl_wf (fst (c, w))"
    using that by (simp add: ctl_wf_def em Observer_publish_rung(1))
qed (simp_all add: ctl_wf_def Purge_refines)

lemma ctl_steps_wf:
  "ctl_steps q x ls s s' \<Longrightarrow> ctl_wf (fst s) \<Longrightarrow> ctl_wf (fst s') \<and> rc_config (fst s') = rc_config (fst s)"
proof (induction rule: ctl_steps.induct)
  case (steps_cons l s s1 ls s2)
  then show ?case using ctl_step_wf [OF steps_cons(1)] by simp
qed simp

text \<open>A controller in dry-run mode stays in it and disturbs nothing.\<close>

lemma ctl_dry_run:
  assumes "ctl_steps q x ls s s'" "ctl_wf (fst s)" "rc_dryRun (fst s)"
    and "LReconcile a clk act calls \<in> set ls" "r \<in> set calls"
  shows "\<not> disruptive r"
  using assms
proof (induction rule: ctl_steps.induct)
  case (steps_cons l s s1 ls s2)
  have s1: "ctl_wf (fst s1)" "rc_dryRun (fst s1)"
    using ctl_step_wf [OF steps_cons(1,4)] steps_cons(5) by (simp_all add: rc_config_def)
  show ?case
  proof (cases "l = LReconcile a clk act calls")
    case True
    then obtain u c w err c' w' where "reconcile q x u clk a c w = (err, c', w')" "s = (c, w)" "calls = issued w w'"
      using steps_cons(1) by (auto elim: ctl_reconcileE)
    then show ?thesis
      using reconcile_disruptive(1) [of r w q x u clk a c] steps_cons(5,7) by auto
  next
    case False
    then show ?thesis using steps_cons.IH [OF s1] steps_cons.prems by simp
  qed
qed simp

text \<open>
  With confirmation required for \<open>manual\<close> (the case when the policy does not list it), no
  context ever rests on the manual rung.
\<close>

lemma climb_below_manual:
  assumes "RequiresConfirmation p ActionManual" "r \<le> 6"
  shows "climb p r \<le> 6"
proof (cases "r = 6")
  case True
  then show ?thesis using assms(1) by (simp add: climb_def ladder_def)
qed (use assms(2) in \<open>simp add: climb_def\<close>)

lemma ctl_step_below_manual:
  assumes "ctl_step q x l s s'" "ctl_wf (fst s)" "RequiresConfirmation (rc_policy (fst s)) ActionManual"
    and "\<forall>k. esc_rung (rc_escalation (fst s)) k \<le> 6"
  shows "\<forall>k. esc_rung (rc_escalation (fst s')) k \<le> 6"
  using assms
proof (induction rule: ctl_step.induct)
  case (step_reconcile u clk a c w err c' w')
  then show ?case
    using reconcile_rung(2) [OF step_reconcile(1)] climb_below_manual
    by (simp add: ctl_wf_def del: split_paired_All)
next
  case (step_outcome i c action ty window fuel clk w0 b ms w1 clk' w cb em w')
  have "em = fst (snd (Observer_publish (rc_metrics c) x action ty b ms clk' (rc_circuitBreaker c) (rc_escalation c) w))"
    using step_outcome by simp
  then show ?case
    using step_outcome(5,7) by (simp add: ctl_wf_def Observer_publish_rung(2) del: split_paired_All)
qed (simp_all add: ctl_wf_def Purge_refines)

lemma ctl_steps_below_manual:
  assumes "ctl_steps q x ls s s'" "ctl_wf (fst s)" "RequiresConfirmation (rc_policy (fst s)) ActionManual"
    and "\<forall>k. esc_rung (rc_escalation (fst s)) k \<le> 6"
  shows "\<forall>k. esc_rung (rc_escalation (fst s')) k \<le> 6"
  using assms
proof (induction rule: ctl_steps.induct)
  case (steps_cons l s s1 ls s2)
  have "rc_policy (fst s1) = rc_policy (fst s)"
    using ctl_step_wf(2) [OF steps_cons(1,4)] by (simp add: rc_config_def)
  then show ?case
    using steps_cons ctl_step_wf(1) [OF steps_cons(1,4)] ctl_step_below_manual [OF steps_cons(1,4)] by simp
qed simp

section \<open>Spacing of dispatches\<close>

text \<open>The readings at which dispatches passed the limiter and the cooldown gate.\<close>

fun dispatch_times :: "ctl_label list \<Rightarrow> instant list" where
  "dispatch_times [] = []"
| "dispatch_times (LReconcile a clk (Some act) calls # ls) = clk 2 # dispatch_times ls"
| "dispatch_times (_ # ls) = dispatch_times ls"

fun action_times :: "GuardCooldownKey \<Rightarrow> ctl_label list \<Rightarrow> instant list" where
  "action_times k [] = []"
| "action_times k (LReconcile a clk (Some act) calls # ls) =
     (if k = (an_AffectedPod a, an_Namespace a, act) then clk 9 # action_times k ls else action_times k ls)"
| "action_times k (_ # ls) = action_times k ls"

fun readings :: "ctl_label list \<Rightarrow> (nat \<Rightarrow> instant) list" where
  "readings [] = []"
| "readings (LReconcile a clk act calls # ls) = clk # readings ls"
| "readings (_ # ls) = readings ls"

text \<open>The clock within a reconciliation, and from one to the next.\<close>

definition clocks_ok :: "ctl_label list \<Rightarrow> bool" where
  "clocks_ok ls \<longleftrightarrow> (\<forall>clk \<in> set (readings ls). zeroTime < clk 0 \<and> (\<forall>i j. i \<le> j \<longrightarrow> clk i \<le> clk j))
     \<and> sorted_wrt (\<lambda>c d. c 14 \<le> d 0) (readings ls)"

text \<open>A run of the controller contains a run of its limiter and one of its cooldown store.\<close>

lemma ctl_steps_limiter:
  assumes "ctl_steps q x ls s s'"
  shows "\<exists>rs. subseq (dispatch_times ls) (grants_of () (fst (gate_run rl_gate rs (rc_rateLimiter (fst s)))))
    \<and> (\<forall>r \<in> set rs. \<exists>clk \<in> set (readings ls). r = ((), clk 2, clk 3))"
  using assms
proof (induction rule: ctl_steps.induct)
  case steps_nil
  show ?case by (rule exI [of _ "[]"]) simp
next
  case (steps_cons l s s1 ls s2)
  then obtain rs where rs: "subseq (dispatch_times ls) (grants_of () (fst (gate_run rl_gate rs (rc_rateLimiter (fst s1)))))"
    "\<forall>r \<in> set rs. \<exists>clk \<in> set (readings ls). r = ((), clk 2, clk 3)" by blast
  from steps_cons(1) show ?case
  proof cases
    case (step_reconcile u clk a c w err c' w')
    note lim = reconcile_limiter [OF step_reconcile(4)]
    show ?thesis
    proof (cases "admitted x clk a c w")
      case True
      let ?r = "RateLimiter_Allow (clk 2) (clk 3) (rc_rateLimiter c)"
      have "dispatched (fst (reconcile_gates x clk a c w)) \<noteq> None \<Longrightarrow> fst ?r"
        using reconcile_gates_dispatched(1) [of x clk a c w] by (auto simp: rate_ok_def)
      then have "subseq (dispatch_times (l # ls))
          (grants_of () (fst (gate_run rl_gate (((), clk 2, clk 3) # rs) (rc_rateLimiter (fst s)))))"
        using rs(1) lim True
        by (cases "dispatched (fst (reconcile_gates x clk a c w))"; cases "fst ?r")
          (auto simp: step_reconcile rl_gate_def case_prod_beta)
      then show ?thesis using rs(2) by (intro exI [of _ "((), clk 2, clk 3) # rs"]) (auto simp: step_reconcile)
    next
      case False
      then have "dispatched (fst (reconcile_gates x clk a c w)) = None"
        using reconcile_gates_dispatched(2) [of x clk a c w] by fastforce
      then show ?thesis using rs lim False by (intro exI [of _ rs]) (auto simp: step_reconcile)
    qed
  qed (use rs in \<open>auto intro!: exI [of _ rs]\<close>)
qed

text \<open>Each request of the cooldown store is made at reading 9 of a reconciliation, in order.\<close>

lemma ctl_steps_cooldowns:
  assumes "ctl_steps q x ls s s'"
  shows "\<exists>rs. subseq (action_times k ls) (grants_of k (fst (gate_run gcs_gate rs (rc_cooldowns (fst s)))))
    \<and> subseq (map snd rs) (map (\<lambda>clk. (clk 9, clk 9)) (readings ls))"
  using assms
proof (induction rule: ctl_steps.induct)
  case steps_nil
  show ?case by (rule exI [of _ "[]"]) simp
next
  case (steps_cons l s s1 ls s2)
  then obtain rs where rs: "subseq (action_times k ls) (grants_of k (fst (gate_run gcs_gate rs (rc_cooldowns (fst s1)))))"
    "subseq (map snd rs) (map (\<lambda>clk. (clk 9, clk 9)) (readings ls))" by blast
  from steps_cons(1) show ?case
  proof cases
    case (step_reconcile u clk a c w err c' w')
    note cds = reconcile_cooldowns [OF step_reconcile(4)]
    let ?k = "cooldown_key clk a c" and ?d = "dispatched (fst (reconcile_gates x clk a c w))"
    show ?thesis
    proof (cases "reaches_cooldown x clk a c w")
      case True
      let ?r = "gcs_gate ?k (clk 9) (clk 9) (rc_cooldowns c)"
      have d: "fst ?r \<and> ?k = (an_AffectedPod a, an_Namespace a, act)" if "?d = Some act" for act
        using reconcile_gates_dispatched [OF that] by (simp add: cooldown_key_def)
      have "subseq (action_times k (l # ls))
          (grants_of k (fst (gate_run gcs_gate ((?k, clk 9, clk 9) # rs) (rc_cooldowns (fst s)))))"
        using rs(1) cds True d by (cases ?d; cases "fst ?r") (auto simp: step_reconcile case_prod_beta)
      then show ?thesis
        using rs(2) by (intro exI [of _ "(?k, clk 9, clk 9) # rs"]) (auto simp: step_reconcile)
    next
      case False
      then have "?d = None" using reconcile_gates_dispatched(3) [of x clk a c w] by fastforce
      then show ?thesis using rs cds False by (intro exI [of _ rs]) (auto simp: step_reconcile)
    qed
  qed (use rs in \<open>auto intro!: exI [of _ rs]\<close>)
qed

lemma sorted_wrt_subseq: "subseq xs ys \<Longrightarrow> sorted_wrt R ys \<Longrightarrow> sorted_wrt R xs"
  by (induction rule: list_emb.induct) (auto dest: subseq_order.order_trans list_emb_set)

text \<open>Two dispatches are at least ten seconds apart.\<close>

lemma ctl_dispatch_spaced:
  assumes "ctl_steps q x ls s s'" "ctl_wf (fst s)" "clocks_ok ls"
  shows "sorted_wrt (\<lambda>t u. t + 10 * Second \<le> u) (dispatch_times ls)"
proof -
  obtain rs where rs: "subseq (dispatch_times ls) (grants_of () (fst (gate_run rl_gate rs (rc_rateLimiter (fst s)))))"
    "\<forall>r \<in> set rs. \<exists>clk \<in> set (readings ls). r = ((), clk 2, clk 3)"
    using ctl_steps_limiter [OF assms(1)] by blast
  have m: "rl_minInterval (rc_rateLimiter (fst s)) = 10 * Second" using assms(2) by (simp add: ctl_wf_def)
  have "zeroTime < clk 2 \<and> clk 2 \<le> clk 3" if "clk \<in> set (readings ls)" for clk
  proof -
    have "zeroTime < clk 0 \<and> (\<forall>i j. i \<le> j \<longrightarrow> clk i \<le> clk j)" using assms(3) that by (simp add: clocks_ok_def)
    then have "zeroTime < clk 0" "clk 0 \<le> clk 2" "clk 2 \<le> clk 3" by auto
    then show ?thesis by simp
  qed
  then have "clock_ok rs" using rs(2) by (fastforce simp: clock_ok_def list_all_iff)
  then have "sorted_wrt (\<lambda>t u. t + 10 * Second \<le> u)
      (grants_of () (fst (gate_run rl_gate rs (rc_rateLimiter (fst s)))))"
    using rl.run_spaced [of "rc_rateLimiter (fst s)" rs "()"] by (simp add: m rl_wf_def unit_defs)
  then show ?thesis using rs(1) sorted_wrt_subseq by blast
qed

lemma clocks_ok_reading9:
  assumes "clocks_ok ls" "subseq (map snd rs) (map (\<lambda>clk. (clk 9, clk 9)) (readings ls))"
  shows "clock_ok rs" "clock_mono rs"
proof -
  have "snd r \<in> (\<lambda>clk. (clk 9, clk 9)) ` set (readings ls)" if "r \<in> set rs" for r
    using list_emb_set [OF assms(2), of "snd r"] that by force
  moreover have "zeroTime < clk 9" if "clk \<in> set (readings ls)" for clk
    using assms(1) that unfolding clocks_ok_def by (meson order_less_le_trans zero_le)
  ultimately show "clock_ok rs" by (fastforce simp: clock_ok_def list_all_iff)
  have "sorted_wrt (\<lambda>c d. c 9 \<le> d 9) (readings ls)"
  proof (rule sorted_wrt_mono_rel)
    show "sorted_wrt (\<lambda>c d. c 14 \<le> d 0) (readings ls)" using assms(1) by (simp add: clocks_ok_def)
    fix c d assume "c \<in> set (readings ls)" "d \<in> set (readings ls)" "c (14::nat) \<le> d 0"
    then have "c 9 \<le> c 14" "d 0 \<le> d 9" using assms(1) by (auto simp: clocks_ok_def)
    then show "c 9 \<le> d 9" using \<open>c 14 \<le> d 0\<close> by linarith
  qed
  then have "sorted_wrt (\<lambda>p q. fst p \<le> fst q) (map snd rs)"
    by (intro sorted_wrt_subseq [OF assms(2)]) (simp add: sorted_wrt_map)
  then show "clock_mono rs" by (simp add: clock_mono_def sorted_map sorted_wrt_map case_prod_beta)
qed

text \<open>Dispatches of one action on one pod keep the policy's cooldown and hourly cap.\<close>

lemma ctl_action_spaced:
  assumes "ctl_steps q x ls s s'" "ctl_wf (fst s)" "clocks_ok ls" "gcs_wf (rc_cooldowns (fst s))"
    and "0 \<le> CooldownFor (rc_policy (fst s)) act"
  shows "sorted_wrt (\<lambda>t u. t + CooldownFor (rc_policy (fst s)) act \<le> u) (action_times (pod, ns, act) ls)"
proof -
  obtain rs where rs: "subseq (action_times (pod, ns, act) ls)
      (grants_of (pod, ns, act) (fst (gate_run gcs_gate rs (rc_cooldowns (fst s)))))"
    "subseq (map snd rs) (map (\<lambda>clk. (clk 9, clk 9)) (readings ls))"
    using ctl_steps_cooldowns [OF assms(1)] by blast
  have "gcs_gap (rc_cooldowns (fst s)) (pod, ns, act) = CooldownFor (rc_policy (fst s)) act"
    using assms(2) by (simp add: gcs_gap_def ctl_wf_def)
  then show ?thesis
    using gcs.run_spaced [OF assms(4) clocks_ok_reading9(1) [OF assms(3) rs(2)], of "(pod, ns, act)"] assms(5)
      sorted_wrt_subseq [OF rs(1)] by simp
qed

lemma subseq_filter_length: "subseq xs ys \<Longrightarrow> length (filter P xs) \<le> length (filter P ys)"
  by (rule list_emb_length) (rule subseq_filter)

lemma ctl_action_capped:
  assumes "ctl_steps q x ls s s'" "ctl_wf (fst s)" "clocks_ok ls" "gcs_wf (rc_cooldowns (fst s))"
    and "gcs_hist (rc_cooldowns (fst s)) (pod, ns, act) = []" "0 < MaxPerHour (rc_policy (fst s)) act"
  shows "int (length (filter (\<lambda>g. t - Hour < g \<and> g \<le> t) (action_times (pod, ns, act) ls)))
    \<le> MaxPerHour (rc_policy (fst s)) act"
proof -
  obtain rs where rs: "subseq (action_times (pod, ns, act) ls)
      (grants_of (pod, ns, act) (fst (gate_run gcs_gate rs (rc_cooldowns (fst s)))))"
    "subseq (map snd rs) (map (\<lambda>clk. (clk 9, clk 9)) (readings ls))"
    using ctl_steps_cooldowns [OF assms(1)] by blast
  have c: "gcs_cap (rc_cooldowns (fst s)) (pod, ns, act) = nat (MaxPerHour (rc_policy (fst s)) act)"
    using assms(2) by (simp add: gcs_cap_def ctl_wf_def)
  then have "length (filter (\<lambda>g. t - Hour < g \<and> g \<le> t)
      (grants_of (pod, ns, act) (fst (gate_run gcs_gate rs (rc_cooldowns (fst s))))))
      \<le> nat (MaxPerHour (rc_policy (fst s)) act)"
    using gcs.run_capped [OF assms(4) clocks_ok_reading9(2) [OF assms(3) rs(2)] assms(5)] assms(6) by simp
  then show ?thesis using subseq_filter_length [OF rs(1), of "\<lambda>g. t - Hour < g \<and> g \<le> t"] assms(6) by linarith
qed

end
