(* ===== verification/Demo.thy ===== *)
theory Demo
  imports ControllerRun
begin

text \<open>
  A small concrete outside world and two anomalies, on which the properties of the
  controller are exercised: every request succeeds, every pod is running and ready, no
  node is cordoned and the broker accepts every message.
\<close>

definition demo_pod :: Pod where
  "demo_pod = \<lparr>pod_Labels = Map.empty, pod_Phase = ''Running'', pod_Conditions = [(''Ready'', ''True'')]\<rparr>"

definition demo_ext :: "unit Ext" where
  "demo_ext =
     \<lparr>x_podGet = (\<lambda>ns p c. (Inr demo_pod, c)),
      x_podList = (\<lambda>ns sel c. (Inr [demo_pod, demo_pod, demo_pod], c)),
      x_podDelete = (\<lambda>ns p opts c. (None, c)),
      x_nodeGet = (\<lambda>n c. (Inr \<lparr>node_Unschedulable = False\<rparr>, c)),
      x_nodePatch = (\<lambda>n p opts c. (None, c)),
      x_deployGet = (\<lambda>ns d c. (Inl ''not found'', c)),
      x_deployPatch = (\<lambda>ns d p opts c. (None, c)),
      x_eventCreate = (\<lambda>ns e c. (None, c)),
      x_publishAsync = (\<lambda>t d c. (None, c))\<rparr>"

definition demo_world :: "unit World" where
  "demo_world = \<lparr>w_env = (), w_calls = [], w_published = [], w_metrics = []\<rparr>"

definition demo_anomaly :: "string \<Rightarrow> AnomalyEvent" where
  "demo_anomaly pod =
     \<lparr>an_AnomalyID = ''a1'', an_Type = ''oom_kill'', an_Confidence = 9/10, an_AffectedPod = pod,
      an_AffectedNode = ''n1'', an_Namespace = ''default'', an_Deployment = ''web'', an_Signals = [],
      an_SuggestedCause = ''oom'', an_SuggestedAction = ''restart_pod'', an_Timestamp = 0, an_TTLS = 60\<rparr>"

definition demo_clk :: "instant \<Rightarrow> nat \<Rightarrow> instant" where
  "demo_clk t i = t + int i"

definition demo_qstr :: "int \<Rightarrow> string" where
  "demo_qstr = show_int"

definition demo_cfg :: "bool \<Rightarrow> ReconcilerConfig" where
  "demo_cfg dry = \<lparr>cfg_Policy = shipped_policy, cfg_Audit = True, cfg_Metrics = True, cfg_DryRun = dry\<rparr>"

definition demo_step :: "string \<Rightarrow> instant \<Rightarrow> Controller \<times> unit World \<Rightarrow> Controller \<times> unit World" where
  "demo_step pod t s = snd (reconcile demo_qstr demo_ext ''u1'' (demo_clk t) (demo_anomaly pod) (fst s) (snd s))"

definition demo_init :: "bool \<Rightarrow> Controller \<times> unit World" where
  "demo_init dry = (NewReconciler (demo_cfg dry), demo_world)"

definition demo_dispatched :: "string \<Rightarrow> instant \<Rightarrow> Controller \<times> unit World \<Rightarrow> ActionType option" where
  "demo_dispatched pod t s =
     dispatched (fst (reconcile_gates demo_ext (demo_clk t) (demo_anomaly pod) (fst s) (snd s)))"

definition demo_label :: "string \<Rightarrow> instant \<Rightarrow> Controller \<times> unit World \<Rightarrow> ctl_label" where
  "demo_label pod t s = LReconcile (demo_anomaly pod) (demo_clk t) (demo_dispatched pod t s)
     (issued (snd s) (snd (demo_step pod t s)))"

lemma demo_ctl_step: "ctl_step demo_qstr demo_ext (demo_label pod t s) s (demo_step pod t s)"
proof -
  obtain err c' w' where r: "reconcile demo_qstr demo_ext ''u1'' (demo_clk t) (demo_anomaly pod) (fst s) (snd s) = (err, c', w')"
    by (cases "reconcile demo_qstr demo_ext ''u1'' (demo_clk t) (demo_anomaly pod) (fst s) (snd s)")
  then show ?thesis
    using step_reconcile [OF r] by (simp add: demo_label_def demo_step_def demo_dispatched_def)
qed

text \<open>Two anomalies of one pod, a minute apart, are both answered with a restart.\<close>

definition demo_labels :: "bool \<Rightarrow> ctl_label list" where
  "demo_labels dry = [demo_label ''p'' 0 (demo_init dry),
                      demo_label ''p'' (61 * Second) (demo_step ''p'' 0 (demo_init dry))]"

lemma demo_run:
  "ctl_steps demo_qstr demo_ext (demo_labels dry) (demo_init dry)
     (demo_step ''p'' (61 * Second) (demo_step ''p'' 0 (demo_init dry)))"
  unfolding demo_labels_def
  by (rule steps_cons [OF demo_ctl_step steps_cons [OF demo_ctl_step steps_nil]])

lemma demo_clocks: "clocks_ok (demo_labels dry)"
  by (simp add: clocks_ok_def demo_labels_def demo_label_def demo_clk_def unit_defs)

lemma demo_dispatched1: "demo_dispatched ''p'' 0 (demo_init False) = Some ''restart_pod''"
  by code_simp

lemma demo_dispatched2:
  "demo_dispatched ''p'' (61 * Second) (demo_step ''p'' 0 (demo_init False)) = Some ''restart_pod''"
  by code_simp

lemma demo_issued1:
  "filter disruptive (issued demo_world (snd (demo_step ''p'' 0 (demo_init False)))) =
   [PodDelete ''default'' ''p'' \<lparr>do_GracePeriodSeconds = Some 0, do_DryRun = []\<rparr>]"
  by code_simp

end
