(* ===== verification/AnalyzerWindow.thy ===== *)
theory AnalyzerWindow
  imports GoTime
begin

text \<open>
  The analyzer's sliding windows (\<open>internal/analyzer/window.go\<close>): samples of one pod and
  metric, the eviction on every record, and the aggregations. Values are \<open>float64\<close>, so
  sums and means round at every operation. An index out of range is \<open>None\<close>.
\<close>

section \<open>One window\<close>

definition defaultWindowCapacity :: nat where
  "defaultWindowCapacity = 1024"

record Sample =
  sm_Value :: f64
  sm_Time :: instant

record Window =
  wd_duration :: duration
  wd_samples :: "Sample list"

definition newWindow :: "duration \<Rightarrow> Window" where
  "newWindow d = \<lparr>wd_duration = d, wd_samples = []\<rparr>"

text \<open>The index loop of \<open>Record\<close>: how many samples at the front have expired.\<close>

fun expired_prefix :: "instant \<Rightarrow> Sample list \<Rightarrow> nat" where
  "expired_prefix cutoff [] = 0"
| "expired_prefix cutoff (s # ss) = (if Before (sm_Time s) cutoff then Suc (expired_prefix cutoff ss) else 0)"

definition Window_Record :: "f64 \<Rightarrow> instant \<Rightarrow> Window \<Rightarrow> Window" where
  "Window_Record value t w =
     (let samples = wd_samples w @ [\<lparr>sm_Value = value, sm_Time = t\<rparr>];
          idx = expired_prefix (Add t (- wd_duration w)) samples;
          samples1 = (if idx > 0 then drop idx samples else samples);
          samples2 = (if length samples1 > defaultWindowCapacity
                      then drop (length samples1 - defaultWindowCapacity) samples1 else samples1)
      in w\<lparr>wd_samples := samples2\<rparr>)"

definition Window_Samples :: "Window \<Rightarrow> Sample list" where
  "Window_Samples w = wd_samples w"

definition Window_Count :: "Window \<Rightarrow> int" where
  "Window_Count w = int (length (wd_samples w))"

fun sum_values :: "f64 \<Rightarrow> Sample list \<Rightarrow> f64" where
  "sum_values acc [] = acc"
| "sum_values acc (s # ss) = sum_values (f64_add acc (sm_Value s)) ss"

definition Window_Sum :: "Window \<Rightarrow> f64" where
  "Window_Sum w = sum_values 0 (wd_samples w)"

definition Window_Average :: "Window \<Rightarrow> f64" where
  "Window_Average w =
     (if wd_samples w = [] then 0
      else f64_div (sum_values 0 (wd_samples w)) (f64_of_int (int (length (wd_samples w)))))"

fun max_value :: "f64 \<Rightarrow> Sample list \<Rightarrow> f64" where
  "max_value m [] = m"
| "max_value m (s # ss) = max_value (if sm_Value s > m then sm_Value s else m) ss"

definition Window_Max :: "Window \<Rightarrow> f64" where
  "Window_Max w = (case wd_samples w of [] \<Rightarrow> 0 | s # ss \<Rightarrow> max_value (sm_Value s) ss)"

definition Window_Latest :: "Window \<Rightarrow> f64 \<times> bool" where
  "Window_Latest w = (if wd_samples w = [] then (0, False) else (sm_Value (last (wd_samples w)), True))"

definition Window_Percentile :: "f64 \<Rightarrow> Window \<Rightarrow> f64 option" where
  "Window_Percentile p w =
     (let vals = map sm_Value (wd_samples w)
      in if vals = [] then Some 0
         else let sorted_vals = sort vals;
                  idx = f64_trunc (f64_div (f64_mul (f64_of_int (int (length vals) - 1)) p) 100)
              in if 0 \<le> idx \<and> idx < int (length vals) then Some (sorted_vals ! nat idx) else None)"

section \<open>The store\<close>

type_synonym WindowKey = "string \<times> string" \<comment> \<open>pod, metric\<close>

type_synonym WindowStore = "(WindowKey \<times> Window) list"

definition NewWindowStore :: WindowStore where
  "NewWindowStore = []"

definition WindowStore_Record ::
  "string \<Rightarrow> string \<Rightarrow> f64 \<Rightarrow> instant \<Rightarrow> duration \<Rightarrow> WindowStore \<Rightarrow> WindowStore" where
  "WindowStore_Record pod metric value t d s =
     (let key = (pod, metric);
          w = (case map_of s key of Some w \<Rightarrow> w | None \<Rightarrow> newWindow d)
      in AList.update key (Window_Record value t w) s)"

definition WindowStore_Get :: "string \<Rightarrow> string \<Rightarrow> WindowStore \<Rightarrow> Window option" where
  "WindowStore_Get pod metric s = map_of s (pod, metric)"

definition WindowStore_Average :: "string \<Rightarrow> string \<Rightarrow> WindowStore \<Rightarrow> f64" where
  "WindowStore_Average pod metric s =
     (case WindowStore_Get pod metric s of Some w \<Rightarrow> Window_Average w | None \<Rightarrow> 0)"

definition WindowStore_Latest :: "string \<Rightarrow> string \<Rightarrow> WindowStore \<Rightarrow> f64 \<times> bool" where
  "WindowStore_Latest pod metric s =
     (case WindowStore_Get pod metric s of Some w \<Rightarrow> Window_Latest w | None \<Rightarrow> (0, False))"

text \<open>The order of the result is the iteration order of the map.\<close>

definition ActiveMetrics :: "string \<Rightarrow> WindowStore \<Rightarrow> string list" where
  "ActiveMetrics pod s = map (snd \<circ> fst) (filter (\<lambda>(k, w). fst k = pod \<and> Window_Count w > 0) s)"

definition WindowStore_Evict :: "string \<Rightarrow> WindowStore \<Rightarrow> WindowStore" where
  "WindowStore_Evict pod s = filter (\<lambda>(k, w). fst k \<noteq> pod) s"

section \<open>What a window holds\<close>

lemma expired_prefix_dropWhile:
  "drop (expired_prefix c ss) ss = dropWhile (\<lambda>s. sm_Time s < c) ss"
  by (induction ss) (auto simp: Before_def)

lemma Window_Record_samples:
  "wd_samples (Window_Record v t w) =
   lastn defaultWindowCapacity
     (dropWhile (\<lambda>s. sm_Time s < t - wd_duration w) (wd_samples w @ [\<lparr>sm_Value = v, sm_Time = t\<rparr>]))"
proof -
  let ?s = "wd_samples w @ [\<lparr>sm_Value = v, sm_Time = t\<rparr>]"
  let ?i = "expired_prefix (t - wd_duration w) ?s"
  have "(if 0 < ?i then drop ?i ?s else ?s) = dropWhile (\<lambda>s. sm_Time s < t - wd_duration w) ?s"
    using expired_prefix_dropWhile [of "t - wd_duration w" ?s] by (cases "0 < ?i") auto
  then show ?thesis by (simp add: Window_Record_def Let_def Add_def lastn_def)
qed

lemma Window_Record_duration [simp]: "wd_duration (Window_Record v t w) = wd_duration w"
  by (simp add: Window_Record_def Let_def)

lemma Window_Count_bound: "length (wd_samples (Window_Record v t w)) \<le> defaultWindowCapacity"
  by (simp add: Window_Record_samples)

text \<open>On samples in time order, dropping the expired front is keeping the recent ones.\<close>

lemma dropWhile_sorted_filter:
  "sorted (map sm_Time ss) \<Longrightarrow> dropWhile (\<lambda>s. sm_Time s < c) ss = filter (\<lambda>s. c \<le> sm_Time s) ss"
proof (induction ss)
  case (Cons s ss)
  show ?case
  proof (cases "sm_Time s < c")
    case False
    then have "filter (\<lambda>s. c \<le> sm_Time s) (s # ss) = s # ss"
      using Cons.prems by (intro filter_True) auto
    then show ?thesis using False by simp
  qed (use Cons in auto)
qed simp

lemma sorted_lastn: "sorted (map f xs) \<Longrightarrow> sorted (map f (lastn n xs))"
  by (simp add: lastn_def sorted_wrt_drop flip: drop_map)

lemma lastn_filter_recent:
  assumes "sorted (map sm_Time ss)"
  shows "lastn n (filter (\<lambda>s. c \<le> sm_Time s) (lastn n ss)) = lastn n (filter (\<lambda>s. c \<le> sm_Time s) ss)"
proof -
  let ?P = "\<lambda>s. c \<le> sm_Time s"
  obtain pre where pre: "ss = pre @ lastn n ss" using suffix_lastn [of n ss] by (auto simp: suffix_def)
  show ?thesis
  proof (cases "\<exists>s \<in> set pre. ?P s")
    case False
    then have "filter ?P pre = []" by (simp add: filter_empty_conv)
    then have "filter ?P ss = filter ?P (lastn n ss)" by (subst pre) simp
    then show ?thesis by simp
  next
    case True
    have "sorted (map sm_Time (pre @ lastn n ss))" using assms pre by simp
    then have "\<forall>s \<in> set (lastn n ss). ?P s"
      using True by (force simp: sorted_append)
    then have f: "filter ?P (lastn n ss) = lastn n ss" by (simp add: filter_True)
    have "0 < length pre" using True by auto
    then have "length (lastn n ss) = n" using arg_cong [OF pre, of length] by (auto simp: min_def split: if_splits)
    moreover have "filter ?P ss = filter ?P pre @ lastn n ss" using f by (subst pre) simp
    ultimately show ?thesis by (simp add: f lastn_append lastn_all)
  qed
qed

text \<open>
  A window fed in time order holds the newest 1024 of the samples that lie within its
  duration of the newest one, in order.
\<close>

definition feed :: "Sample list \<Rightarrow> Window \<Rightarrow> Window" where
  "feed ss w = fold (\<lambda>s. Window_Record (sm_Value s) (sm_Time s)) ss w"

lemma feed_duration [simp]: "wd_duration (feed ss w) = wd_duration w"
  unfolding feed_def by (induction ss arbitrary: w) auto

lemma feed_contents:
  assumes "sorted (map sm_Time ss)" "ss \<noteq> []" "0 \<le> d"
  shows "wd_samples (feed ss (newWindow d)) =
    lastn defaultWindowCapacity (filter (\<lambda>s. sm_Time (last ss) - d \<le> sm_Time s) ss)"
  using assms(1,2)
proof (induction ss rule: rev_induct)
  case (snoc x xs)
  let ?n = defaultWindowCapacity
  let ?P = "\<lambda>s. sm_Time x - d \<le> sm_Time s"
  have sx: "sorted (map sm_Time xs)" "\<forall>s \<in> set xs. sm_Time s \<le> sm_Time x"
    using snoc.prems(1) by (auto simp: sorted_append)
  define held where "held = wd_samples (feed xs (newWindow d))"
  have held: "lastn ?n (filter ?P (held @ [x])) = lastn ?n (filter ?P (xs @ [x]))
      \<and> sorted (map sm_Time (held @ [x]))"
  proof (cases "xs = []")
    case True
    then show ?thesis by (simp add: held_def feed_def newWindow_def)
  next
    case False
    let ?Q = "\<lambda>s. sm_Time (last xs) - d \<le> sm_Time s"
    have h: "held = lastn ?n (filter ?Q xs)" using snoc.IH [OF sx(1) False] by (simp add: held_def)
    have "sm_Time (last xs) \<le> sm_Time x" using sx(2) False by simp
    then have pq: "filter ?P (filter ?Q xs) = filter ?P xs"
      by (auto simp: filter_filter intro!: filter_cong)
    have sq: "sorted (map sm_Time (filter ?Q xs))" using sx(1) by (rule sorted_filter)
    have "lastn ?n (filter ?P held) = lastn ?n (filter ?P xs)"
      using lastn_filter_recent [OF sq, of ?n "sm_Time x - d"] unfolding h pq .
    moreover have "lastn ?n (ys @ [x]) = lastn (?n - 1) (lastn ?n ys) @ [x]" for ys
      by (simp add: lastn_snoc lastn_lastn defaultWindowCapacity_def)
    moreover have "sorted (map sm_Time held)" unfolding h using sq by (rule sorted_lastn)
    moreover have "set held \<subseteq> set xs" using set_lastn_subset [of ?n "filter ?Q xs"] by (auto simp: h)
    ultimately show ?thesis using sx(2) assms(3) by (auto simp: sorted_append)
  qed
  have x: "\<lparr>sm_Value = sm_Value x, sm_Time = sm_Time x\<rparr> = x" by simp
  have "wd_samples (feed (xs @ [x]) (newWindow d)) = lastn ?n (dropWhile (\<lambda>s. sm_Time s < sm_Time x - d) (held @ [x]))"
    using Window_Record_samples [of "sm_Value x" "sm_Time x" "feed xs (newWindow d)"]
    by (simp add: feed_def [of "xs @ [x]"] held_def newWindow_def x flip: feed_def)
  also have "\<dots> = lastn ?n (filter ?P (held @ [x]))"
    using held dropWhile_sorted_filter [of "held @ [x]" "sm_Time x - d"] by simp
  finally show ?case using held by simp
qed simp

section \<open>Aggregations\<close>

lemma Max_insert_max: "finite A \<Longrightarrow> Max (insert (max a b) A) = Max (insert a (insert b A))"
  by (cases "A = {}") (simp_all add: max.assoc)

lemma max_value_Max: "max_value m ss = Max (insert m (sm_Value ` set ss))"
proof (induction ss arbitrary: m)
  case (Cons s ss)
  have "max_value m (s # ss) = Max (insert (max m (sm_Value s)) (sm_Value ` set ss))"
    by (simp add: Cons max_def not_less)
  then show ?case by (simp add: Max_insert_max)
qed simp

lemma Window_Max_spec: "wd_samples w \<noteq> [] \<Longrightarrow> Window_Max w = Max (sm_Value ` set (wd_samples w))"
  by (cases "wd_samples w") (auto simp: Window_Max_def max_value_Max)

lemma sum_values_nonneg: "0 \<le> acc \<Longrightarrow> \<forall>s \<in> set ss. 0 \<le> sm_Value s \<Longrightarrow> 0 \<le> sum_values acc ss"
proof (induction ss arbitrary: acc)
  case (Cons s ss)
  then show ?case using Cons.IH [of "f64_add acc (sm_Value s)"] by (simp add: f64.rnd_ge0)
qed simp

text \<open>The percentile never leaves the slice: for \<open>0 \<le> p \<le> 100\<close> it is one of the samples.\<close>

lemma Window_Percentile_safe:
  assumes "0 \<le> p" "p \<le> 100" "length (wd_samples w) \<le> defaultWindowCapacity"
  shows "\<exists>v. Window_Percentile p w = Some v \<and> (wd_samples w \<noteq> [] \<longrightarrow> v \<in> sm_Value ` set (wd_samples w))"
proof (cases "wd_samples w = []")
  case False
  define n where "n = int (length (wd_samples w)) - 1"
  have n: "0 \<le> n" "n \<le> 1023" using False assms(3) by (auto simp: n_def defaultWindowCapacity_def Suc_le_eq)
  have r: "f64_of_int n = of_int n" "fl64 (of_int (n * 100)) = of_int (n * 100)"
    using n by (intro fl64_of_int; simp)+
  have "of_int n * p \<le> of_int (n * 100)" using assms(1,2) n by (simp add: mult_left_mono)
  then have "f64_mul (of_int n) p \<le> of_int (n * 100)" using fl64_mono r(2) by metis
  then have "f64_div (f64_mul (of_int n) p) 100 \<le> fl64 (of_int n)" by (intro fl64_mono) simp
  then have hi: "f64_trunc (f64_div (f64_mul (of_int n) p) 100) \<le> n"
    using r(1) f64_trunc_mono by fastforce
  have "0 \<le> f64_div (f64_mul (of_int n) p) 100"
    using n assms(1) by (intro f64.rnd_ge0 divide_nonneg_nonneg mult_nonneg_nonneg) auto
  then have lo: "0 \<le> f64_trunc (f64_div (f64_mul (of_int n) p) 100)" by (simp add: f64_trunc_def)
  let ?i = "f64_trunc (f64_div (f64_mul (of_int n) p) 100)"
  have "?i < int (length (wd_samples w))" using hi by (simp add: n_def)
  moreover from this have "sort (map sm_Value (wd_samples w)) ! nat ?i \<in> sm_Value ` set (wd_samples w)"
    using lo nth_mem [of "nat ?i" "sort (map sm_Value (wd_samples w))"] by auto
  ultimately show ?thesis
    using lo r(1) False by (simp add: Window_Percentile_def Let_def n_def [symmetric])
qed (simp add: Window_Percentile_def)

section \<open>Laws of the store\<close>

lemma WindowStore_Get_Record:
  "WindowStore_Get pod' metric' (WindowStore_Record pod metric v t d s) =
   (if (pod', metric') = (pod, metric)
    then Some (Window_Record v t (case WindowStore_Get pod metric s of Some w \<Rightarrow> w | None \<Rightarrow> newWindow d))
    else WindowStore_Get pod' metric' s)"
  by (auto simp: WindowStore_Get_def WindowStore_Record_def Let_def update_conv')

lemma WindowStore_Get_Evict:
  "WindowStore_Get pod' metric (WindowStore_Evict pod s) = (if pod' = pod then None else WindowStore_Get pod' metric s)"
  unfolding WindowStore_Get_def WindowStore_Evict_def by (induction s) auto

lemma ActiveMetrics_iff:
  assumes "distinct (map fst s)"
  shows "m \<in> set (ActiveMetrics pod s) \<longleftrightarrow> (\<exists>w. WindowStore_Get pod m s = Some w \<and> wd_samples w \<noteq> [])"
  using assms
  by (force simp: ActiveMetrics_def WindowStore_Get_def Window_Count_def map_of_eq_Some_iff image_iff)

end
