(* ===== verification/AnalyzerCooldown.thy ===== *)
theory AnalyzerCooldown
  imports Gates
begin

text \<open>
  The analyzer's cooldowns (\<open>internal/analyzer/cooldown.go\<close>), per pod and suggested action.
  Here admission and recording are two calls; the engine makes them in sequence for one
  signal, and that pair is a \<open>capped_gate\<close>.
\<close>

section \<open>State and operations\<close>

record CooldownPolicy =
  cp_Duration :: duration
  cp_MaxPerHour :: int

definition DefaultCooldowns :: "string \<rightharpoonup> CooldownPolicy" where
  "DefaultCooldowns =
     [''restart_pod'' \<mapsto> \<lparr>cp_Duration = 60 * Second, cp_MaxPerHour = 3\<rparr>,
      ''patch_resource_limits'' \<mapsto> \<lparr>cp_Duration = 300 * Second, cp_MaxPerHour = 2\<rparr>,
      ''reschedule_pod'' \<mapsto> \<lparr>cp_Duration = 120 * Second, cp_MaxPerHour = 2\<rparr>,
      ''cordon_node'' \<mapsto> \<lparr>cp_Duration = 600 * Second, cp_MaxPerHour = 1\<rparr>]"

definition cooldownPolicyFor :: "string \<Rightarrow> CooldownPolicy" where
  "cooldownPolicyFor action =
     (case DefaultCooldowns action of Some p \<Rightarrow> p | None \<Rightarrow> \<lparr>cp_Duration = 60 * Second, cp_MaxPerHour = 3\<rparr>)"

type_synonym cooldownKey = "string \<times> string" \<comment> \<open>pod, action\<close>

record cooldownEntry =
  ce_lastAction :: instant
  ce_recentTimes :: "instant list"

type_synonym CooldownStore = "cooldownKey \<rightharpoonup> cooldownEntry"

definition NewCooldownStore :: CooldownStore where
  "NewCooldownStore = Map.empty"

fun count_recent :: "instant \<Rightarrow> instant list \<Rightarrow> int \<Rightarrow> int" where
  "count_recent hourAgo [] recent = recent"
| "count_recent hourAgo (t # ts) recent = count_recent hourAgo ts (if After t hourAgo then recent + 1 else recent)"

definition Cooldown_Allow :: "string \<Rightarrow> string \<Rightarrow> CooldownPolicy \<Rightarrow> instant \<Rightarrow> CooldownStore \<Rightarrow> bool" where
  "Cooldown_Allow pod actionType policy now c =
     (case c (pod, actionType) of
        None \<Rightarrow> True
      | Some entry \<Rightarrow>
          if Sub now (ce_lastAction entry) < cp_Duration policy then False
          else count_recent (Add now (- Hour)) (ce_recentTimes entry) 0 < cp_MaxPerHour policy)"

definition Cooldown_Record :: "string \<Rightarrow> string \<Rightarrow> instant \<Rightarrow> CooldownStore \<Rightarrow> CooldownStore" where
  "Cooldown_Record pod actionType now c =
     (let key = (pod, actionType);
          entry = (case c key of Some e \<Rightarrow> e | None \<Rightarrow> \<lparr>ce_lastAction = zeroTime, ce_recentTimes = []\<rparr>);
          times = filter (\<lambda>t. After t (Add now (- Hour))) (ce_recentTimes entry @ [now])
      in c(key \<mapsto> \<lparr>ce_lastAction = now, ce_recentTimes = times\<rparr>))"

definition RemainingCooldown :: "string \<Rightarrow> string \<Rightarrow> CooldownPolicy \<Rightarrow> instant \<Rightarrow> CooldownStore \<Rightarrow> duration" where
  "RemainingCooldown pod actionType policy now c =
     (case c (pod, actionType) of
        None \<Rightarrow> 0
      | Some entry \<Rightarrow>
          let remaining = cp_Duration policy - Sub now (ce_lastAction entry)
          in if remaining < 0 then 0 else remaining)"

definition Cooldown_Evict :: "string \<Rightarrow> CooldownStore \<Rightarrow> CooldownStore" where
  "Cooldown_Evict pod c = (\<lambda>k. if fst k = pod then None else c k)"

lemma count_recent_filter: "count_recent h ts n = n + int (length (filter (\<lambda>t. h < t) ts))"
  by (induction ts arbitrary: n) (auto simp: After_def)

section \<open>Admission followed by recording is a capped gate\<close>

definition acd_gate :: "cooldownKey \<Rightarrow> instant \<Rightarrow> instant \<Rightarrow> CooldownStore \<Rightarrow> bool \<times> CooldownStore" where
  "acd_gate k now now2 c =
     (if Cooldown_Allow (fst k) (snd k) (cooldownPolicyFor (snd k)) now c
      then (True, Cooldown_Record (fst k) (snd k) now c) else (False, c))"

definition acd_last :: "CooldownStore \<Rightarrow> cooldownKey \<Rightarrow> instant option" where
  "acd_last c k = map_option ce_lastAction (c k)"

definition acd_gap :: "CooldownStore \<Rightarrow> cooldownKey \<Rightarrow> duration" where
  "acd_gap c k = cp_Duration (cooldownPolicyFor (snd k))"

definition acd_hist :: "CooldownStore \<Rightarrow> cooldownKey \<Rightarrow> instant list" where
  "acd_hist c k = (case c k of Some e \<Rightarrow> ce_recentTimes e | None \<Rightarrow> [])"

definition acd_cap :: "CooldownStore \<Rightarrow> cooldownKey \<Rightarrow> nat" where
  "acd_cap c k = nat (cp_MaxPerHour (cooldownPolicyFor (snd k)))"

lemma cooldownPolicyFor_range:
  "minDuration < cp_Duration (cooldownPolicyFor a) \<and> cp_Duration (cooldownPolicyFor a) \<le> maxDuration"
  "0 < cp_Duration (cooldownPolicyFor a)" "0 < cp_MaxPerHour (cooldownPolicyFor a)"
  by (auto simp: cooldownPolicyFor_def DefaultCooldowns_def unit_defs)

lemma acd_hist_upd: "acd_hist (c(k \<mapsto> e)) = (acd_hist c)(k := ce_recentTimes e)"
  by (simp add: acd_hist_def fun_eq_iff)

lemma acd_gate_cases:
  assumes "acd_gate k n1 n2 c = (b, c')"
  shows "b \<longleftrightarrow> (\<forall>t. acd_last c k = Some t \<longrightarrow> \<not> n1 - t < acd_gap c k) \<and>
             (acd_last c k \<noteq> None \<longrightarrow> length (in_hour n1 (acd_hist c k)) < acd_cap c k)"
    and "acd_last c' = (if b then (acd_last c)(k \<mapsto> n1) else acd_last c)"
    and "acd_hist c' = (if b then (acd_hist c)(k := in_hour n1 (acd_hist c k) @ [n1]) else acd_hist c)"
proof -
  note s = Sub_less_iff [OF conjunct1 [OF cooldownPolicyFor_range(1)] conjunct2 [OF cooldownPolicyFor_range(1)]]
  show "b \<longleftrightarrow> (\<forall>t. acd_last c k = Some t \<longrightarrow> \<not> n1 - t < acd_gap c k) \<and>
      (acd_last c k \<noteq> None \<longrightarrow> length (in_hour n1 (acd_hist c k)) < acd_cap c k)"
    using assms cooldownPolicyFor_range(3) [of "snd k"]
    by (auto simp: acd_gate_def Cooldown_Allow_def acd_last_def acd_gap_def acd_hist_def acd_cap_def s
        count_recent_filter in_hour_filter Add_def split: option.splits if_splits)
  show "acd_last c' = (if b then (acd_last c)(k \<mapsto> n1) else acd_last c)"
    using assms by (auto simp: acd_gate_def acd_last_def Cooldown_Record_def Let_def split: if_splits)
  show "acd_hist c' = (if b then (acd_hist c)(k := in_hour n1 (acd_hist c k) @ [n1]) else acd_hist c)"
    using assms
    by (cases "c k")
      (auto simp: acd_gate_def acd_hist_upd Cooldown_Record_def Let_def in_hour_filter time_simps unit_defs
        acd_hist_def split: if_splits)
qed

interpretation acd: capped_gate acd_gate acd_last acd_gap "\<lambda>_. True" acd_hist acd_cap
proof
  fix s s' n1 n2 t k b
  assume wf: "True"
  {
    assume h: "acd_gate k n1 n2 s = (True, s')"
    note g = acd_gate_cases [OF h]
    show "t + acd_gap s k \<le> n1" if "acd_last s k = Some t" using g(1) that by auto
    show "\<exists>t \<ge> n1. acd_last s' = (acd_last s)(k \<mapsto> t)" using g(2) by auto
    show "acd_hist s' = (acd_hist s)(k := in_hour n1 (acd_hist s k) @ [n1])" using g(3) by simp
    show "length (in_hour n1 (acd_hist s k)) < acd_cap s k" if "0 < acd_cap s k"
    proof (cases "acd_last s k")
      case None
      then have "acd_hist s k = []" by (auto simp: acd_last_def acd_hist_def)
      then show ?thesis using that by (simp add: in_hour_def)
    qed (use g(1) in simp)
  }
  {
    assume h: "acd_gate k n1 n2 s = (False, s')"
    note g = acd_gate_cases [OF h]
    show "acd_last s' = acd_last s"
      and "acd_hist s' = acd_hist s \<or> acd_hist s' = (acd_hist s)(k := in_hour n1 (acd_hist s k))"
      using g(2,3) by simp_all
  }
qed (auto simp: acd_gap_def acd_cap_def)

text \<open>
  \<open>RemainingCooldown\<close> covers the distance rule only: it is 0 when the hourly cap alone
  blocks.
\<close>

lemma RemainingCooldown_zero:
  assumes "Cooldown_Allow pod act (cooldownPolicyFor act) now c"
  shows "RemainingCooldown pod act (cooldownPolicyFor act) now c = 0"
  using assms by (auto simp: Cooldown_Allow_def RemainingCooldown_def Let_def split: option.splits if_splits)

end
