(* ===== verification/Engine.thy ===== *)
theory Engine
  imports AnalyzerWindow AnalyzerCooldown Bus
begin

text \<open>
  The analyzer: detection rules (\<open>rules.go\<close>), correlations (\<open>correlate.go\<close>), confidence
  (\<open>confidence.go\<close>) and the pipeline of one signal (\<open>engine.go\<close>), all under
  \<open>internal/analyzer\<close>. A set built from a Go map is a list without repetitions, one of its
  iteration orders; what is computed from it does not depend on the order. Arithmetic is
  \<open>float64\<close> with a rounding after every operation.
\<close>

section \<open>Rules\<close>

type_synonym Operator = string

record Condition =
  cn_Operator :: Operator
  cn_Value :: f64

record Rule =
  ru_ID :: string
  ru_Description :: string
  ru_Metric :: string
  ru_Condition :: Condition
  ru_Window :: string
  ru_ConfidenceBase :: f64
  ru_MinSignals :: int
  ru_SuggestedCause :: string
  ru_SuggestedAction :: string
  ru_Enabled :: bool

record Correlation =
  co_Signals :: "string list"
  co_Boost :: f64
  co_Interpretation :: string

record Thresholds =
  th_Suppress :: f64
  th_LogOnly :: f64
  th_TakeAction :: f64

record RulesConfig =
  rg_Rules :: "Rule list"
  rg_Correlations :: "Correlation list"
  rg_SingleSignalPenalty :: f64
  rg_Thresholds :: Thresholds

datatype rules_error = RulesReadFailed string string | RulesParseFailed string

definition LoadRules ::
  "(string \<Rightarrow> string + 'bytes) \<Rightarrow> ('bytes \<Rightarrow> string + RulesConfig) \<Rightarrow> string \<Rightarrow> rules_error + Rule list \<times> RulesConfig" where
  "LoadRules readFile unmarshal path =
     (case readFile path of
        Inl e \<Rightarrow> Inl (RulesReadFailed path e)
      | Inr data \<Rightarrow>
         (case unmarshal data of
            Inl e \<Rightarrow> Inl (RulesParseFailed e)
          | Inr cfg \<Rightarrow> Inr (filter ru_Enabled (rg_Rules cfg), cfg)))"

section \<open>Correlations\<close>

type_synonym ActiveSignalSet = "string list"

definition ActiveSignalSet_Has :: "ActiveSignalSet \<Rightarrow> string \<Rightarrow> bool" where
  "ActiveSignalSet_Has s metric = (metric \<in> set s)"

definition ActiveSignalSet_Names :: "ActiveSignalSet \<Rightarrow> string list" where
  "ActiveSignalSet_Names s = s"

fun BuildActiveSet_loop :: "ActiveSignalSet \<Rightarrow> string list \<Rightarrow> ActiveSignalSet" where
  "BuildActiveSet_loop acc [] = acc"
| "BuildActiveSet_loop acc (i # is) = BuildActiveSet_loop (if i \<in> set acc then acc else acc @ [i]) is"

definition BuildActiveSet :: "string list \<Rightarrow> ActiveSignalSet" where
  "BuildActiveSet triggeredRuleIDs = BuildActiveSet_loop [] triggeredRuleIDs"

fun allSignalsActive :: "ActiveSignalSet \<Rightarrow> string list \<Rightarrow> bool" where
  "allSignalsActive active [] = True"
| "allSignalsActive active (sig # sigs) =
     (if \<not> ActiveSignalSet_Has active sig then False else allSignalsActive active sigs)"

fun EvaluateCorrelations_loop :: "ActiveSignalSet \<Rightarrow> f64 \<Rightarrow> Correlation list \<Rightarrow> f64" where
  "EvaluateCorrelations_loop active boost [] = boost"
| "EvaluateCorrelations_loop active boost (corr # cs) =
     EvaluateCorrelations_loop active
       (if allSignalsActive active (co_Signals corr) then f64_add boost (co_Boost corr) else boost) cs"

definition EvaluateCorrelations :: "ActiveSignalSet \<Rightarrow> Correlation list \<Rightarrow> f64" where
  "EvaluateCorrelations active correlations = EvaluateCorrelations_loop active 0 correlations"

section \<open>Confidence\<close>

record ScoreInput =
  si_BaseConfidence :: f64
  si_ActiveSignals :: "string list"
  si_Correlations :: "Correlation list"
  si_SingleSignalPenalty :: f64

datatype Decision = DecisionSuppress | DecisionLogOnly | DecisionTakeAction

definition allMatch :: "string list \<Rightarrow> string list \<Rightarrow> bool" where
  "allMatch active required = list_all (\<lambda>r. r \<in> set active) required"

fun Score_boosts :: "string list \<Rightarrow> f64 \<Rightarrow> Correlation list \<Rightarrow> f64" where
  "Score_boosts active confidence [] = confidence"
| "Score_boosts active confidence (corr # cs) =
     Score_boosts active (if allMatch active (co_Signals corr) then f64_add confidence (co_Boost corr) else confidence) cs"

definition Score :: "ScoreInput \<Rightarrow> f64" where
  "Score input =
     (let c0 = si_BaseConfidence input;
          c1 = (if length (si_ActiveSignals input) = 1 then f64_add c0 (si_SingleSignalPenalty input) else c0);
          c2 = Score_boosts (si_ActiveSignals input) c1 (si_Correlations input);
          c3 = (if c2 < 0 then 0 else c2)
      in if c3 > 1 then 1 else c3)"

definition Decide :: "f64 \<Rightarrow> Thresholds \<Rightarrow> Decision" where
  "Decide confidence t =
     (if confidence < th_Suppress t then DecisionSuppress
      else if confidence < th_TakeAction t then DecisionLogOnly else DecisionTakeAction)"

section \<open>Events\<close>

record SignalEvent =
  sg_Version :: string
  sg_Node :: string
  sg_Pod :: string
  sg_Namespace :: string
  sg_Deployment :: string
  sg_Container :: string
  sg_Metric :: string
  sg_Value :: f64
  sg_Unit :: string
  sg_DurationMs :: int
  sg_Timestamp :: int
  sg_CgroupID :: int

record AnalyzerAnomalyEvent =
  av_Version :: string
  av_ID :: string
  av_Namespace :: string
  av_Pod :: string
  av_Deployment :: string
  av_Container :: string
  av_Metric :: string
  av_Confidence :: f64
  av_ActiveSignals :: "string list"
  av_SuggestedCause :: string
  av_SuggestedAction :: string
  av_MetricValue :: f64
  av_Threshold :: f64
  av_Window :: string
  av_DryRun :: bool
  av_DetectedAt :: instant

definition marshal_AnalyzerAnomalyEvent :: "AnalyzerAnomalyEvent \<Rightarrow> json" where
  "marshal_AnalyzerAnomalyEvent e =
     JObj [(''version'', JStr (av_Version e)), (''id'', JStr (av_ID e)), (''namespace'', JStr (av_Namespace e)),
       (''pod'', JStr (av_Pod e)), (''deployment'', JStr (av_Deployment e)), (''container'', JStr (av_Container e)),
       (''metric'', JStr (av_Metric e)), (''confidence'', json_float (av_Confidence e)),
       (''active_signals'', JArr (map JStr (av_ActiveSignals e))), (''suggested_cause'', JStr (av_SuggestedCause e)),
       (''suggested_action'', JStr (av_SuggestedAction e)), (''metric_value'', json_float (av_MetricValue e)),
       (''threshold'', json_float (av_Threshold e)), (''window'', JStr (av_Window e)),
       (''dry_run'', JBool (av_DryRun e)), (''detected_at'', JTime (av_DetectedAt e))]"

definition as_uint64 :: "json \<Rightarrow> int option" where
  "as_uint64 v = (case v of JInt i \<Rightarrow> if 0 \<le> i \<and> i < 2 ^ 64 then Some i else None | _ \<Rightarrow> None)"

definition unmarshal_signal_fields :: "(string \<times> json) list \<Rightarrow> SignalEvent option" where
  "unmarshal_signal_fields kvs =
     (let str = (\<lambda>f. decode_field as_string [] f kvs); num = (\<lambda>f. decode_field as_int 0 f kvs)
      in case (str ''version'', str ''node'', str ''pod'', str ''namespace'', str ''deployment'', str ''container'',
               str ''metric'', decode_field as_float 0 ''value'' kvs, str ''unit'', num ''duration_ms'',
               num ''timestamp'', decode_field as_uint64 0 ''cgroup_id'' kvs) of
           (Some ver, Some node, Some pod, Some ns, Some dep, Some con, Some met, Some val, Some u, Some d, Some t, Some cg) \<Rightarrow>
             Some \<lparr>sg_Version = ver, sg_Node = node, sg_Pod = pod, sg_Namespace = ns, sg_Deployment = dep,
               sg_Container = con, sg_Metric = met, sg_Value = val, sg_Unit = u, sg_DurationMs = d,
               sg_Timestamp = t, sg_CgroupID = cg\<rparr>
         | _ \<Rightarrow> None)"

definition unmarshal_SignalEvent :: "json option \<Rightarrow> SignalEvent option" where
  "unmarshal_SignalEvent data =
     (case data of Some (JObj kvs) \<Rightarrow> unmarshal_signal_fields kvs
      | Some JNull \<Rightarrow> unmarshal_signal_fields [] | _ \<Rightarrow> None)"

section \<open>The pipeline\<close>

record Engine =
  en_rules :: "Rule list"
  en_cfg :: RulesConfig
  en_windows :: WindowStore
  en_cooldowns :: CooldownStore
  en_publisher :: bool
  en_dryRun :: bool
  en_thresholds :: Thresholds

definition NewEngine :: "Rule list \<Rightarrow> RulesConfig \<Rightarrow> bool \<Rightarrow> bool \<Rightarrow> Engine" where
  "NewEngine rules cfg publisher dryRun =
     \<lparr>en_rules = rules, en_cfg = cfg, en_windows = NewWindowStore, en_cooldowns = NewCooldownStore,
      en_publisher = publisher, en_dryRun = dryRun, en_thresholds = rg_Thresholds cfg\<rparr>"

definition ParseWindowDuration :: "string \<Rightarrow> duration option" where
  "ParseWindowDuration s0 =
     (let s = TrimSpace s0 in if s = [] then Some (30 * Second) else ParseDuration s)"

definition breaches :: "f64 \<Rightarrow> Condition \<Rightarrow> bool" where
  "breaches value c =
     (if cn_Operator c = ''>'' then value > cn_Value c
      else if cn_Operator c = ''>='' then value \<ge> cn_Value c
      else if cn_Operator c = ''<'' then value < cn_Value c
      else if cn_Operator c = ''<='' then value \<le> cn_Value c
      else if cn_Operator c = ''=='' then value = cn_Value c
      else False)"

definition clamp :: "f64 \<Rightarrow> f64 \<Rightarrow> f64 \<Rightarrow> f64" where
  "clamp v lo hi = (if v < lo then lo else if v > hi then hi else v)"

definition decisionLabel :: "Decision \<Rightarrow> string" where
  "decisionLabel d = (case d of DecisionTakeAction \<Rightarrow> ''action'' | DecisionLogOnly \<Rightarrow> ''log_only''
     | DecisionSuppress \<Rightarrow> ''suppressed'')"

text \<open>Step 1: the sample is recorded once per rule of its metric with a valid window.\<close>

fun record_all :: "SignalEvent \<Rightarrow> instant \<Rightarrow> Rule list \<Rightarrow> WindowStore \<Rightarrow> WindowStore" where
  "record_all sig t [] ws = ws"
| "record_all sig t (rule # rules) ws =
     (if ru_Metric rule \<noteq> sg_Metric sig then record_all sig t rules ws
      else case ParseWindowDuration (ru_Window rule) of
             None \<Rightarrow> record_all sig t rules ws
           | Some dur \<Rightarrow> record_all sig t rules
               (WindowStore_Record (sg_Pod sig) (sg_Metric sig) (sg_Value sig) t dur ws))"

text \<open>Step 2: the rules of the metric whose condition the window's average meets.\<close>

fun collect_hits :: "SignalEvent \<Rightarrow> WindowStore \<Rightarrow> Rule list \<Rightarrow> (Rule \<times> f64) list" where
  "collect_hits sig ws [] = []"
| "collect_hits sig ws (rule # rules) =
     (if ru_Metric rule \<noteq> sg_Metric sig then collect_hits sig ws rules
      else case WindowStore_Get (sg_Pod sig) (sg_Metric sig) ws of
             None \<Rightarrow> collect_hits sig ws rules
           | Some w \<Rightarrow>
               if breaches (Window_Average w) (ru_Condition rule)
               then (rule, Window_Average w) # collect_hits sig ws rules
               else collect_hits sig ws rules)"

text \<open>The score of a hit, with the extra boost when several rules triggered.\<close>

definition hit_score :: "RulesConfig \<Rightarrow> ActiveSignalSet \<Rightarrow> nat \<Rightarrow> Rule \<Rightarrow> f64" where
  "hit_score cfg active triggered rule =
     (let score = Score \<lparr>si_BaseConfidence = ru_ConfidenceBase rule,
                         si_ActiveSignals = ActiveSignalSet_Names active,
                         si_Correlations = rg_Correlations cfg,
                         si_SingleSignalPenalty = rg_SingleSignalPenalty cfg\<rparr>;
          corrBoost = EvaluateCorrelations active (rg_Correlations cfg)
      in if corrBoost > 0 \<and> triggered > 1 then clamp (f64_add score (f64_mul corrBoost (1/2))) 0 1 else score)"

definition anomaly_event ::
  "Engine \<Rightarrow> SignalEvent \<Rightarrow> ActiveSignalSet \<Rightarrow> instant \<Rightarrow> Rule \<Rightarrow> f64 \<Rightarrow> f64 \<Rightarrow> AnalyzerAnomalyEvent" where
  "anomaly_event en sig active now rule value score =
     \<lparr>av_Version = ''1.0'', av_ID = ru_ID rule, av_Namespace = sg_Namespace sig, av_Pod = sg_Pod sig,
      av_Deployment = sg_Deployment sig, av_Container = sg_Container sig, av_Metric = sg_Metric sig,
      av_Confidence = score, av_ActiveSignals = ActiveSignalSet_Names active,
      av_SuggestedCause = ru_SuggestedCause rule, av_SuggestedAction = ru_SuggestedAction rule,
      av_MetricValue = value, av_Threshold = cn_Value (ru_Condition rule), av_Window = ru_Window rule,
      av_DryRun = (en_dryRun en \<or> Decide score (en_thresholds en) = DecisionLogOnly), av_DetectedAt = now\<rparr>"

text \<open>
  Steps 3 to 6 for the hits in order; the emitted events are returned beside the cooldown
  store and the world. A failed publication is only logged.
\<close>

fun process_hits ::
  "'c Ext \<Rightarrow> Engine \<Rightarrow> SignalEvent \<Rightarrow> ActiveSignalSet \<Rightarrow> nat \<Rightarrow> instant \<Rightarrow> (Rule \<times> f64) list
    \<Rightarrow> CooldownStore \<Rightarrow> 'c World \<Rightarrow> AnalyzerAnomalyEvent list \<times> CooldownStore \<times> 'c World" where
  "process_hits x en sig active triggered now [] cds w = ([], cds, w)"
| "process_hits x en sig active triggered now ((rule, value) # hits) cds w =
     (let score = hit_score (en_cfg en) active triggered rule;
          decision = Decide score (en_thresholds en);
          w1 = observe ''confidence'' [ru_ID rule] score w;
          w2 = observe ''anomalies_detected'' [ru_ID rule, sg_Namespace sig, decisionLabel decision] 1 w1;
          action = ru_SuggestedAction rule
      in if decision = DecisionSuppress then
           process_hits x en sig active triggered now hits cds
             (observe ''false_positives'' [ru_ID rule, ''low_confidence''] 1 w2)
         else if \<not> Cooldown_Allow (sg_Pod sig) action (cooldownPolicyFor action) now cds then
           process_hits x en sig active triggered now hits cds
             (observe ''false_positives'' [ru_ID rule, ''cooldown''] 1 w2)
         else
           let event = anomaly_event en sig active now rule value score;
               cds1 = Cooldown_Record (sg_Pod sig) action now cds;
               w3 = (if en_publisher en \<and> \<not> en_dryRun en
                     then snd (PublishAnomaly x (sg_Namespace sig) (marshal_AnalyzerAnomalyEvent event) w2) else w2);
               (events, cds2, w4) = process_hits x en sig active triggered now hits cds1 w3
           in (event # events, cds2, w4))"

text \<open>\<open>now0\<close> is read only for a zero timestamp, \<open>now\<close> before the loop over the hits.\<close>

definition process_decoded ::
  "'c Ext \<Rightarrow> instant \<Rightarrow> instant \<Rightarrow> SignalEvent \<Rightarrow> Engine \<Rightarrow> 'c World \<Rightarrow> AnalyzerAnomalyEvent list \<times> Engine \<times> 'c World" where
  "process_decoded x now0 now sig en w =
     (let t0 = UnixMilli (sg_Timestamp sig);
          t = (if IsZero t0 then now0 else t0);
          ws = record_all sig t (en_rules en) (en_windows en);
          hits = collect_hits sig ws (en_rules en);
          en1 = en\<lparr>en_windows := ws\<rparr>
      in if hits = [] then ([], en1, w)
         else let triggeredIDs = map (ru_ID \<circ> fst) hits;
                  active = BuildActiveSet triggeredIDs;
                  (events, cds, w1) = process_hits x en1 sig active (length triggeredIDs) now hits (en_cooldowns en1) w
              in (events, en1\<lparr>en_cooldowns := cds\<rparr>, w1))"

definition ProcessSignal ::
  "'c Ext \<Rightarrow> instant \<Rightarrow> instant \<Rightarrow> json option \<Rightarrow> Engine \<Rightarrow> 'c World \<Rightarrow> bool \<times> Engine \<times> 'c World" where
  "ProcessSignal x now0 now data en w =
     (case unmarshal_SignalEvent data of
        None \<Rightarrow> (False, en, w)
      | Some sig \<Rightarrow> (True, snd (process_decoded x now0 now sig en w)))"

section \<open>Scores and decisions\<close>

lemma Score_range: "0 \<le> Score i \<and> Score i \<le> 1"
  by (simp add: Score_def Let_def)

lemma clamp_range: "lo \<le> hi \<Longrightarrow> lo \<le> clamp v lo hi \<and> clamp v lo hi \<le> hi"
  by (auto simp: clamp_def)

lemma hit_score_range: "0 \<le> hit_score cfg active n rule \<and> hit_score cfg active n rule \<le> 1"
  using Score_range clamp_range [of 0 1] by (simp add: hit_score_def Let_def)

text \<open>The iteration order of the active set does not matter.\<close>

lemma allMatch_set: "set xs = set ys \<Longrightarrow> allMatch xs r = allMatch ys r"
  by (simp add: allMatch_def)

lemma Score_boosts_set: "set xs = set ys \<Longrightarrow> Score_boosts xs c cs = Score_boosts ys c cs"
  by (induction cs arbitrary: c) (auto simp: allMatch_set [of xs ys])

lemma Score_order:
  assumes "set xs = set ys" "length xs = length ys"
  shows "Score (i\<lparr>si_ActiveSignals := xs\<rparr>) = Score (i\<lparr>si_ActiveSignals := ys\<rparr>)"
  using assms Score_boosts_set [OF assms(1)] by (simp add: Score_def Let_def)

lemma Decide_mono: "c \<le> d \<Longrightarrow> Decide c t = DecisionTakeAction \<Longrightarrow> Decide d t = DecisionTakeAction"
  by (auto simp: Decide_def split: if_splits)

lemma BuildActiveSet_loop_props:
  "distinct acc \<Longrightarrow> distinct (BuildActiveSet_loop acc is) \<and> set (BuildActiveSet_loop acc is) = set acc \<union> set is"
  by (induction acc "is" rule: BuildActiveSet_loop.induct) auto

lemma BuildActiveSet_props: "distinct (BuildActiveSet is)" "set (BuildActiveSet is) = set is"
  using BuildActiveSet_loop_props [of "[]" "is"] by (simp_all add: BuildActiveSet_def)

lemma allSignalsActive_iff: "allSignalsActive active sigs \<longleftrightarrow> set sigs \<subseteq> set active"
  by (induction sigs) (auto simp: ActiveSignalSet_Has_def)

lemma allMatch_iff: "allMatch active sigs \<longleftrightarrow> set sigs \<subseteq> set active"
  by (auto simp: allMatch_def list_all_iff)

section \<open>Which rules are hit\<close>

lemma collect_hits_iff:
  "(rule, v) \<in> set (collect_hits sig ws rules) \<longleftrightarrow>
   rule \<in> set rules \<and> ru_Metric rule = sg_Metric sig \<and>
   (\<exists>w. WindowStore_Get (sg_Pod sig) (sg_Metric sig) ws = Some w \<and> v = Window_Average w
        \<and> breaches v (ru_Condition rule))"
  by (induction rules) (auto split: option.splits)

text \<open>
  A correlation whose signals are rules of different metrics is never satisfied: only
  rules of the signal's own metric can be active.
\<close>

definition single_metric_ids :: "Rule list \<Rightarrow> string \<Rightarrow> string set" where
  "single_metric_ids rules m = ru_ID ` {r \<in> set rules. ru_Metric r = m}"

definition cross_metric :: "Rule list \<Rightarrow> Correlation \<Rightarrow> bool" where
  "cross_metric rules corr \<longleftrightarrow> (\<forall>m \<in> ru_Metric ` set rules. \<not> set (co_Signals corr) \<subseteq> single_metric_ids rules m)"

lemma active_single_metric:
  assumes "hits = collect_hits sig ws rules"
  shows "set (BuildActiveSet (map (ru_ID \<circ> fst) hits)) \<subseteq> single_metric_ids rules (sg_Metric sig)"
  by (auto simp: assms BuildActiveSet_props single_metric_ids_def collect_hits_iff)

lemma no_correlation:
  assumes "\<forall>corr \<in> set cs. \<not> set (co_Signals corr) \<subseteq> set active"
  shows "Score_boosts active c cs = c" "EvaluateCorrelations_loop active b cs = b"
  using assms by (induction cs arbitrary: c b) (auto simp: allMatch_iff allSignalsActive_iff)

definition plain_score :: "RulesConfig \<Rightarrow> ActiveSignalSet \<Rightarrow> Rule \<Rightarrow> f64" where
  "plain_score cfg active rule =
     clamp (if length active = 1 then f64_add (ru_ConfidenceBase rule) (rg_SingleSignalPenalty cfg)
            else ru_ConfidenceBase rule) 0 1"

lemma hit_score_cross_metric:
  assumes "\<forall>corr \<in> set (rg_Correlations cfg). cross_metric rules corr"
    and "hits = collect_hits sig ws rules" "active = BuildActiveSet (map (ru_ID \<circ> fst) hits)" "(rule, v) \<in> set hits"
  shows "hit_score cfg active n rule = plain_score cfg active rule"
proof -
  have "sg_Metric sig \<in> ru_Metric ` set rules" using assms(2,4) by (force simp: collect_hits_iff)
  then have "\<forall>corr \<in> set (rg_Correlations cfg). \<not> set (co_Signals corr) \<subseteq> set active"
    using assms(1) active_single_metric [OF assms(2)] unfolding assms(3) cross_metric_def by blast
  note nc = no_correlation [OF this]
  show ?thesis
    by (simp add: hit_score_def Score_def nc EvaluateCorrelations_def ActiveSignalSet_Names_def plain_score_def
        clamp_def Let_def)
qed

section \<open>Emission\<close>

definition hit_requests ::
  "Engine \<Rightarrow> SignalEvent \<Rightarrow> ActiveSignalSet \<Rightarrow> nat \<Rightarrow> instant \<Rightarrow> (Rule \<times> f64) list \<Rightarrow> (cooldownKey \<times> instant \<times> instant) list" where
  "hit_requests en sig active n now hits =
     map (\<lambda>(rule, v). ((sg_Pod sig, ru_SuggestedAction rule), now, now))
       (filter (\<lambda>(rule, v). Decide (hit_score (en_cfg en) active n rule) (en_thresholds en) \<noteq> DecisionSuppress) hits)"

definition event_grant :: "AnalyzerAnomalyEvent \<Rightarrow> cooldownKey \<times> instant" where
  "event_grant e = ((av_Pod e, av_SuggestedAction e), av_DetectedAt e)"

lemma event_grant_anomaly [simp]:
  "event_grant (anomaly_event en sig active now rule v s) = ((sg_Pod sig, ru_SuggestedAction rule), now)"
  by (simp add: event_grant_def anomaly_event_def)

text \<open>The emitted events are the grants of the cooldown gate for the hits not suppressed.\<close>

lemma process_hits_gate:
  "gate_run acd_gate (hit_requests en sig active n now hits) cds =
   (map event_grant (fst (process_hits x en sig active n now hits cds w)),
    fst (snd (process_hits x en sig active n now hits cds w)))"
proof (induction hits arbitrary: cds w)
  case Nil
  then show ?case by (simp add: hit_requests_def)
next
  case (Cons h hits)
  obtain rule v where h: "h = (rule, v)" by (cases h)
  have g: "acd_gate (p, a) t t' c = (if Cooldown_Allow p a (cooldownPolicyFor a) t c
      then (True, Cooldown_Record p a t c) else (False, c))" for p a t t' c
    by (simp add: acd_gate_def)
  have IH: "map event_grant (fst (process_hits x en sig active n now hits c u)) =
      fst (gate_run acd_gate (hit_requests en sig active n now hits) c)"
    "fst (snd (process_hits x en sig active n now hits c u)) =
      snd (gate_run acd_gate (hit_requests en sig active n now hits) c)" for c u
    using Cons.IH [of c u] by simp_all
  show ?case
    unfolding h process_hits.simps Let_def
    by (simp add: hit_requests_def [of _ _ _ _ _ "_ # _"] g case_prod_beta IH flip: hit_requests_def)
qed

lemma process_hits_events:
  assumes "e \<in> set (fst (process_hits x en sig active n now hits cds w))"
  shows "\<exists>rule v. (rule, v) \<in> set hits \<and> e = anomaly_event en sig active now rule v (hit_score (en_cfg en) active n rule)
    \<and> Decide (hit_score (en_cfg en) active n rule) (en_thresholds en) \<noteq> DecisionSuppress"
  using assms
proof (induction hits arbitrary: cds w)
  case (Cons h hits)
  obtain rule v where h: "h = (rule, v)" by (cases h)
  show ?case
    using Cons.prems Cons.IH by (fastforce simp: h Let_def case_prod_beta split: if_splits)
qed simp

lemma process_hits_published:
  "\<exists>ms. w_published (snd (snd (process_hits x en sig active n now hits cds w))) = w_published w @ ms
      \<and> set ms \<subseteq> (\<lambda>e. (''selfheal.anomalies.'' @ sg_Namespace sig, marshal_AnalyzerAnomalyEvent e)) `
                   set (fst (process_hits x en sig active n now hits cds w))
      \<and> (en_dryRun en \<or> \<not> en_publisher en \<longrightarrow> ms = [])"
proof (induction hits arbitrary: cds w)
  case (Cons h hits)
  obtain rule v where h: "h = (rule, v)" by (cases h)
  let ?s = "hit_score (en_cfg en) active n rule"
  let ?e = "anomaly_event en sig active now rule v ?s"
  let ?act = "ru_SuggestedAction rule"
  consider "Decide ?s (en_thresholds en) = DecisionSuppress"
    | "Decide ?s (en_thresholds en) \<noteq> DecisionSuppress" "\<not> Cooldown_Allow (sg_Pod sig) ?act (cooldownPolicyFor ?act) now cds"
    | "Decide ?s (en_thresholds en) \<noteq> DecisionSuppress" "Cooldown_Allow (sg_Pod sig) ?act (cooldownPolicyFor ?act) now cds"
    by blast
  then show ?case
  proof cases
    case 1
    then show ?thesis
      using Cons.IH [where cds = cds and w = "observe _ _ _ (observe _ _ _ (observe _ _ _ w))"] by (simp add: h Let_def)
  next
    case 2
    then show ?thesis
      using Cons.IH [where cds = cds and w = "observe _ _ _ (observe _ _ _ (observe _ _ _ w))"] by (simp add: h Let_def)
  next
    case 3
    define w2 where "w2 = observe ''anomalies_detected'' [ru_ID rule, sg_Namespace sig, decisionLabel (Decide ?s (en_thresholds en))] 1
      (observe ''confidence'' [ru_ID rule] ?s w)"
    define w3 where "w3 = (if en_publisher en \<and> \<not> en_dryRun en
      then snd (PublishAnomaly x (sg_Namespace sig) (marshal_AnalyzerAnomalyEvent ?e) w2) else w2)"
    have r: "process_hits x en sig active n now (h # hits) cds w =
      (let (es, c, w4) = process_hits x en sig active n now hits (Cooldown_Record (sg_Pod sig) ?act now cds) w3
       in (?e # es, c, w4))"
      using 3 by (simp add: h Let_def w2_def w3_def)
    have "\<exists>ms. w_published w3 = w_published w @ ms \<and>
        set ms \<subseteq> {(''selfheal.anomalies.'' @ sg_Namespace sig, marshal_AnalyzerAnomalyEvent ?e)}
        \<and> (en_dryRun en \<or> \<not> en_publisher en \<longrightarrow> ms = [])"
      using publish_to_result [of "''selfheal.anomalies.''" x "sg_Namespace sig" "marshal_AnalyzerAnomalyEvent ?e" w2]
      by (cases "PublishAnomaly x (sg_Namespace sig) (marshal_AnalyzerAnomalyEvent ?e) w2")
        (auto simp: w3_def w2_def PublishAnomaly_def)
    then obtain ms1 where ms1: "w_published w3 = w_published w @ ms1"
      "set ms1 \<subseteq> {(''selfheal.anomalies.'' @ sg_Namespace sig, marshal_AnalyzerAnomalyEvent ?e)}"
      "en_dryRun en \<or> \<not> en_publisher en \<longrightarrow> ms1 = []" by blast
    obtain ms2 where ms2: "w_published (snd (snd (process_hits x en sig active n now hits
          (Cooldown_Record (sg_Pod sig) ?act now cds) w3))) = w_published w3 @ ms2"
      "set ms2 \<subseteq> (\<lambda>e. (''selfheal.anomalies.'' @ sg_Namespace sig, marshal_AnalyzerAnomalyEvent e)) `
         set (fst (process_hits x en sig active n now hits (Cooldown_Record (sg_Pod sig) ?act now cds) w3))"
      "en_dryRun en \<or> \<not> en_publisher en \<longrightarrow> ms2 = []"
      using Cons.IH [where cds = "Cooldown_Record (sg_Pod sig) ?act now cds" and w = w3] by blast
    show ?thesis
      using ms1 ms2 by (intro exI [of _ "ms1 @ ms2"]) (auto simp: r case_prod_beta)
  qed
qed simp

section \<open>Streams of signals\<close>

text \<open>Signals processed one after the other, with the two clock readings of each.\<close>

fun engine_run ::
  "'c Ext \<Rightarrow> (SignalEvent \<times> instant \<times> instant) list \<Rightarrow> Engine \<Rightarrow> 'c World \<Rightarrow> AnalyzerAnomalyEvent list \<times> Engine \<times> 'c World" where
  "engine_run x [] en w = ([], en, w)"
| "engine_run x ((sig, now0, now) # ss) en w =
     (let (es, en1, w1) = process_decoded x now0 now sig en w; (es', en2, w2) = engine_run x ss en1 w1
      in (es @ es', en2, w2))"

lemma gate_run_append:
  "gate_run a (rs @ qs) s =
   (fst (gate_run a rs s) @ fst (gate_run a qs (snd (gate_run a rs s))), snd (gate_run a qs (snd (gate_run a rs s))))"
  by (induction rs arbitrary: s) (auto simp: case_prod_beta)

lemma process_decoded_gate:
  "\<exists>rs. gate_run acd_gate rs (en_cooldowns en) =
      (map event_grant (fst (process_decoded x now0 now sig en w)),
       en_cooldowns (fst (snd (process_decoded x now0 now sig en w))))
    \<and> (\<forall>r \<in> set rs. snd r = (now, now))"
proof -
  let ?ws = "record_all sig (if IsZero (UnixMilli (sg_Timestamp sig)) then now0 else UnixMilli (sg_Timestamp sig))
      (en_rules en) (en_windows en)"
  let ?h = "collect_hits sig ?ws (en_rules en)"
  let ?en = "en\<lparr>en_windows := ?ws\<rparr>"
  let ?act = "BuildActiveSet (map (ru_ID \<circ> fst) ?h)"
  show ?thesis
  proof (cases "?h = []")
    case True
    then show ?thesis by (intro exI [of _ "[]"]) (simp add: process_decoded_def Let_def)
  next
    case False
    let ?rs = "hit_requests ?en sig ?act (length ?h) now ?h"
    have "gate_run acd_gate ?rs (en_cooldowns en) =
      (map event_grant (fst (process_decoded x now0 now sig en w)),
       en_cooldowns (fst (snd (process_decoded x now0 now sig en w))))"
      using process_hits_gate [of ?en sig ?act "length ?h" now ?h "en_cooldowns en" x w] False
      by (simp add: process_decoded_def Let_def case_prod_beta)
    moreover have "\<forall>r \<in> set ?rs. snd r = (now, now)" by (auto simp: hit_requests_def)
    ultimately show ?thesis by blast
  qed
qed

lemma sorted_const_append:
  "\<forall>r \<in> set rs. f r = n \<Longrightarrow> sorted (map f qs) \<Longrightarrow> \<forall>q \<in> set qs. n \<le> f q \<Longrightarrow> sorted (map f (rs @ qs))"
  by (induction rs) auto

lemma engine_run_gate:
  "\<exists>rs. fst (gate_run acd_gate rs (en_cooldowns en)) = map event_grant (fst (engine_run x ss en w))
    \<and> (\<forall>r \<in> set rs. fst (snd r) = snd (snd r) \<and> fst (snd r) \<in> set (map (snd \<circ> snd) ss))
    \<and> (sorted (map (snd \<circ> snd) ss) \<longrightarrow> sorted (map (fst \<circ> snd) rs))"
proof (induction ss arbitrary: en w)
  case Nil
  show ?case by (rule exI [of _ "[]"]) simp
next
  case (Cons s ss)
  obtain sig now0 now where s: "s = (sig, now0, now)" by (cases s)
  obtain es en1 w1 where p: "process_decoded x now0 now sig en w = (es, en1, w1)"
    by (cases "process_decoded x now0 now sig en w")
  obtain rs where rs: "gate_run acd_gate rs (en_cooldowns en) = (map event_grant es, en_cooldowns en1)"
    "\<forall>r \<in> set rs. snd r = (now, now)"
    using process_decoded_gate [of en x now0 now sig w] by (auto simp: p)
  obtain qs where qs: "fst (gate_run acd_gate qs (en_cooldowns en1)) = map event_grant (fst (engine_run x ss en1 w1))"
    "\<forall>r \<in> set qs. fst (snd r) = snd (snd r) \<and> fst (snd r) \<in> set (map (snd \<circ> snd) ss)"
    "sorted (map (snd \<circ> snd) ss) \<longrightarrow> sorted (map (fst \<circ> snd) qs)"
    using Cons.IH [of en1 w1] by blast
  have "sorted (map (fst \<circ> snd) (rs @ qs))" if sorted: "sorted (map (snd \<circ> snd) (s # ss))"
  proof (rule sorted_const_append [where n = now])
    show "\<forall>q \<in> set qs. now \<le> (fst \<circ> snd) q" using sorted qs(2) by (fastforce simp: s)
  qed (use sorted rs(2) qs(3) in \<open>auto simp: s\<close>)
  moreover have "fst (gate_run acd_gate (rs @ qs) (en_cooldowns en)) = map event_grant (fst (engine_run x (s # ss) en w))"
    using rs(1) qs(1) by (simp add: s p gate_run_append case_prod_beta)
  moreover have "\<forall>r \<in> set (rs @ qs). fst (snd r) = snd (snd r) \<and> fst (snd r) \<in> set (map (snd \<circ> snd) (s # ss))"
    using rs(2) qs(2) by (auto simp: s)
  ultimately show ?case by blast
qed

definition emission_times :: "cooldownKey \<Rightarrow> AnalyzerAnomalyEvent list \<Rightarrow> instant list" where
  "emission_times k es = grants_of k (map event_grant es)"

text \<open>Emitted anomalies of one pod and action keep the cooldown and the hourly cap.\<close>

lemma engine_run_spaced:
  assumes "\<forall>(sig, n0, n) \<in> set ss. zeroTime < n"
  shows "sorted_wrt (\<lambda>t u. t + cp_Duration (cooldownPolicyFor act) \<le> u)
    (emission_times (pod, act) (fst (engine_run x ss en w)))"
proof -
  obtain rs where rs: "fst (gate_run acd_gate rs (en_cooldowns en)) = map event_grant (fst (engine_run x ss en w))"
    "\<forall>r \<in> set rs. fst (snd r) = snd (snd r) \<and> fst (snd r) \<in> set (map (snd \<circ> snd) ss)"
    using engine_run_gate [of en x ss w] by blast
  have "clock_ok rs" using rs(2) assms by (fastforce simp: clock_ok_def list_all_iff)
  then show ?thesis
    using acd.run_spaced [OF TrueI, of rs "en_cooldowns en" "(pod, act)"] cooldownPolicyFor_range(2) [of act]
    by (simp add: rs(1) emission_times_def acd_gap_def)
qed

lemma engine_run_capped:
  assumes "sorted (map (snd \<circ> snd) ss)" "en_cooldowns en = NewCooldownStore"
  shows "int (length (filter (\<lambda>g. t - Hour < g \<and> g \<le> t)
      (emission_times (pod, act) (fst (engine_run x ss en w))))) \<le> cp_MaxPerHour (cooldownPolicyFor act)"
proof -
  obtain rs where rs: "fst (gate_run acd_gate rs (en_cooldowns en)) = map event_grant (fst (engine_run x ss en w))"
    "sorted (map (fst \<circ> snd) rs)"
    using engine_run_gate [of en x ss w] assms(1) by blast
  have "clock_mono rs" using rs(2) by (simp add: clock_mono_def case_prod_unfold comp_def)
  then have "length (filter (\<lambda>g. t - Hour < g \<and> g \<le> t) (emission_times (pod, act) (fst (engine_run x ss en w))))
      \<le> nat (cp_MaxPerHour (cooldownPolicyFor act))"
    using acd.run_capped [OF TrueI, of rs "en_cooldowns en" "(pod, act)" t] cooldownPolicyFor_range(3) [of act]
      rs(1) by (simp add: emission_times_def acd_cap_def acd_hist_def assms(2) NewCooldownStore_def)
  then show ?thesis using cooldownPolicyFor_range(3) [of act] by linarith
qed

section \<open>What an emitted anomaly says\<close>

lemma process_decoded_events:
  assumes "e \<in> set (fst (process_decoded x now0 now sig en w))"
  shows "\<exists>rule win. rule \<in> set (en_rules en) \<and> av_ID e = ru_ID rule \<and> ru_Metric rule = sg_Metric sig
    \<and> WindowStore_Get (sg_Pod sig) (sg_Metric sig) (en_windows (fst (snd (process_decoded x now0 now sig en w)))) = Some win
    \<and> av_MetricValue e = Window_Average win \<and> breaches (Window_Average win) (ru_Condition rule)
    \<and> 0 \<le> av_Confidence e \<and> av_Confidence e \<le> 1
    \<and> Decide (av_Confidence e) (en_thresholds en) \<noteq> DecisionSuppress
    \<and> (av_DryRun e \<longleftrightarrow> en_dryRun en \<or> Decide (av_Confidence e) (en_thresholds en) = DecisionLogOnly)"
proof -
  let ?ws = "record_all sig (if IsZero (UnixMilli (sg_Timestamp sig)) then now0 else UnixMilli (sg_Timestamp sig))
      (en_rules en) (en_windows en)"
  let ?h = "collect_hits sig ?ws (en_rules en)"
  let ?en = "en\<lparr>en_windows := ?ws\<rparr>"
  let ?act = "BuildActiveSet (map (ru_ID \<circ> fst) ?h)"
  have ne: "?h \<noteq> []" using assms by (auto simp: process_decoded_def Let_def)
  then have "e \<in> set (fst (process_hits x ?en sig ?act (length ?h) now ?h (en_cooldowns en) w))"
    using assms by (simp add: process_decoded_def Let_def case_prod_beta)
  from process_hits_events [OF this] obtain rule v where r: "(rule, v) \<in> set ?h"
    "e = anomaly_event ?en sig ?act now rule v (hit_score (en_cfg en) ?act (length ?h) rule)"
    "Decide (hit_score (en_cfg en) ?act (length ?h) rule) (en_thresholds en) \<noteq> DecisionSuppress" by auto
  have "en_windows (fst (snd (process_decoded x now0 now sig en w))) = ?ws"
    by (simp add: process_decoded_def Let_def case_prod_beta)
  then show ?thesis
    using r hit_score_range by (auto simp: collect_hits_iff anomaly_event_def)
qed

text \<open>The millisecond timestamp 0 is the epoch, not the zero time, so it is never replaced.\<close>

lemma UnixMilli_zero: "\<not> IsZero (UnixMilli 0)"
  by (simp add: IsZero_def UnixMilli_def unit_defs)

lemma UnixMilli_IsZero_iff: "IsZero (UnixMilli ms) \<longleftrightarrow> ms = -62135596800000"
  by (auto simp: IsZero_def UnixMilli_def unit_defs)

text \<open>Two rules on one metric record each sample twice.\<close>

lemma record_twice:
  assumes "ru_Metric r1 = sg_Metric sig" "ru_Metric r2 = sg_Metric sig"
    "ParseWindowDuration (ru_Window r1) = Some d1" "ParseWindowDuration (ru_Window r2) = Some d2"
    "0 \<le> d1" "WindowStore_Get (sg_Pod sig) (sg_Metric sig) ws = None"
  shows "\<exists>win. WindowStore_Get (sg_Pod sig) (sg_Metric sig) (record_all sig t [r1, r2] ws) = Some win
    \<and> wd_duration win = d1
    \<and> wd_samples win = [\<lparr>sm_Value = sg_Value sig, sm_Time = t\<rparr>, \<lparr>sm_Value = sg_Value sig, sm_Time = t\<rparr>]"
  using assms
  by (auto simp: WindowStore_Get_Record Window_Record_samples newWindow_def defaultWindowCapacity_def lastn_def)

end
