(* ===== verification/ShippedRules.thy ===== *)
theory ShippedRules
  imports Engine
begin

text \<open>
  The rules the repository ships (\<open>config/rules.yaml\<close>) and what the engine makes of them:
  each metric has one rule, so a signal triggers at most one, the only correlation spans two
  metrics, and every confidence is the rule's base less the single-signal penalty.
\<close>

definition shipped_rule :: "string \<Rightarrow> string \<Rightarrow> string \<Rightarrow> f64 \<Rightarrow> string \<Rightarrow> f64 \<Rightarrow> string \<Rightarrow> string \<Rightarrow> Rule" where
  "shipped_rule i metric oper v window base cause action =
     \<lparr>ru_ID = i, ru_Description = [], ru_Metric = metric, ru_Condition = \<lparr>cn_Operator = oper, cn_Value = v\<rparr>,
      ru_Window = window, ru_ConfidenceBase = base, ru_MinSignals = 0, ru_SuggestedCause = cause,
      ru_SuggestedAction = action, ru_Enabled = True\<rparr>"

definition shipped_rules :: "Rule list" where
  "shipped_rules =
     [shipped_rule ''high_runqueue_delay'' ''cpu_runq_latency_ms'' ''>'' 5 ''60s'' (fl64 (95/100)) ''cpu_contention'' ''reschedule_pod'',
      shipped_rule ''oom_kill_detected'' ''oom_kill'' ''>='' 1 ''5m'' (fl64 (95/100)) ''memory_limit_too_low'' ''patch_resource_limits'',
      shipped_rule ''high_major_page_faults'' ''page_faults_major'' ''>'' 50 ''30s'' (fl64 (80/100)) ''memory_pressure'' ''patch_resource_limits'',
      shipped_rule ''high_io_wait'' ''io_wait_ms'' ''>'' 50 ''30s'' (fl64 (80/100)) ''disk_bottleneck'' ''reschedule_pod'',
      shipped_rule ''high_tcp_retransmit_rate'' ''tcp_retransmit_rate'' ''>'' 5 ''60s'' (fl64 (95/100)) ''network_congestion'' ''restart_pod'',
      shipped_rule ''syscall_latency_spike'' ''syscall_avg_latency_ms'' ''>'' 10 ''60s'' (fl64 (95/100)) ''kernel_contention'' ''reschedule_pod'',
      shipped_rule ''high_syscall_failure_rate'' ''syscall_failure_rate'' ''>'' 10 ''60s'' (fl64 (95/100)) ''application_error'' ''restart_pod'']"

definition shipped_config :: RulesConfig where
  "shipped_config =
     \<lparr>rg_Rules = shipped_rules,
      rg_Correlations = [\<lparr>co_Signals = [''oom_kill_detected'', ''high_major_page_faults''], co_Boost = fl64 (20/100),
        co_Interpretation = []\<rparr>],
      rg_SingleSignalPenalty = fl64 (- 10/100),
      rg_Thresholds = \<lparr>th_Suppress = fl64 (60/100), th_LogOnly = fl64 (75/100), th_TakeAction = fl64 (80/100)\<rparr>\<rparr>"

definition shipped_engine :: "Engine \<Rightarrow> bool" where
  "shipped_engine en \<longleftrightarrow> en_rules en = shipped_rules \<and> en_cfg en = shipped_config \<and> en_thresholds en = rg_Thresholds shipped_config"

definition log_only_rules :: "string list" where
  "log_only_rules = [''high_major_page_faults'', ''high_io_wait'']"

lemma shipped_metrics: "distinct (map ru_Metric shipped_rules)" "distinct (map ru_ID shipped_rules)"
  by code_simp+

definition cross_metric_list :: "Rule list \<Rightarrow> Correlation \<Rightarrow> bool" where
  "cross_metric_list rules corr = list_all (\<lambda>m. \<not> list_all (\<lambda>s. s \<in> set (map ru_ID (filter (\<lambda>r. ru_Metric r = m) rules)))
     (co_Signals corr)) (map ru_Metric rules)"

lemma cross_metric_code: "cross_metric_list rules corr \<longleftrightarrow> cross_metric rules corr"
  by (auto simp: cross_metric_list_def cross_metric_def single_metric_ids_def list_all_iff subset_iff)

lemma shipped_cross: "\<forall>corr \<in> set (rg_Correlations shipped_config). cross_metric shipped_rules corr"
  unfolding cross_metric_code [symmetric] by code_simp

lemma collect_hits_none: "\<forall>r \<in> set rules. ru_Metric r \<noteq> sg_Metric sig \<Longrightarrow> collect_hits sig ws rules = []"
  by (induction rules) auto

lemma collect_hits_single:
  assumes "distinct (map ru_Metric rules)" "(rule, v) \<in> set (collect_hits sig ws rules)"
  shows "collect_hits sig ws rules = [(rule, v)]"
  using assms
proof (induction rules)
  case (Cons r rules)
  show ?case
  proof (cases "ru_Metric r = sg_Metric sig")
    case True
    then have "\<forall>r' \<in> set rules. ru_Metric r' \<noteq> sg_Metric sig" using Cons.prems(1) by force
    then have "collect_hits sig ws rules = []" by (rule collect_hits_none)
    then show ?thesis using True Cons.prems(2) by (auto split: option.splits if_splits)
  next
    case False
    then show ?thesis using Cons by simp
  qed
qed simp

definition shipped_score :: "Rule \<Rightarrow> f64" where
  "shipped_score rule = clamp (f64_add (ru_ConfidenceBase rule) (rg_SingleSignalPenalty shipped_config)) 0 1"

definition shipped_decision :: "f64 \<Rightarrow> Decision" where
  "shipped_decision base =
     Decide (clamp (f64_add base (rg_SingleSignalPenalty shipped_config)) 0 1) (rg_Thresholds shipped_config)"

lemma shipped_decision_values:
  "shipped_decision (fl64 (95/100)) = DecisionTakeAction" "shipped_decision (fl64 (80/100)) = DecisionLogOnly"
  by code_simp+

lemma shipped_bases:
  "list_all (\<lambda>rule. ru_ConfidenceBase rule = (if ru_ID rule \<in> set log_only_rules then fl64 (80/100) else fl64 (95/100))) shipped_rules"
  by (simp add: shipped_rules_def shipped_rule_def log_only_rules_def)

lemma shipped_decisions:
  assumes "rule \<in> set shipped_rules"
  shows "Decide (shipped_score rule) (rg_Thresholds shipped_config) =
     (if ru_ID rule \<in> set log_only_rules then DecisionLogOnly else DecisionTakeAction)"
  using shipped_bases assms shipped_decision_values by (auto simp: list_all_iff shipped_score_def shipped_decision_def)

text \<open>An event of the shipped rules names its rule alone, with that rule's reduced confidence.\<close>

lemma shipped_event:
  assumes "shipped_engine en" "e \<in> set (fst (process_decoded x now0 now sig en w))"
  shows "\<exists>rule \<in> set shipped_rules. av_ID e = ru_ID rule \<and> av_ActiveSignals e = [ru_ID rule]
    \<and> av_Confidence e = shipped_score rule \<and> (av_DryRun e \<longleftrightarrow> en_dryRun en \<or> ru_ID rule \<in> set log_only_rules)"
proof -
  define ws where "ws = record_all sig (if IsZero (UnixMilli (sg_Timestamp sig)) then now0 else UnixMilli (sg_Timestamp sig))
    (en_rules en) (en_windows en)"
  define hits where "hits = collect_hits sig ws (en_rules en)"
  define active where "active = BuildActiveSet (map (ru_ID \<circ> fst) hits)"
  note defs = ws_def hits_def active_def
  have r: "en_rules en = shipped_rules" "en_cfg en = shipped_config" "en_thresholds en = rg_Thresholds shipped_config"
    using assms(1) by (simp_all add: shipped_engine_def)
  have "hits \<noteq> []" using assms(2) by (auto simp: process_decoded_def Let_def defs)
  then have "e \<in> set (fst (process_hits x (en\<lparr>en_windows := ws\<rparr>) sig active (length hits) now hits (en_cooldowns en) w))"
    using assms(2) by (simp add: process_decoded_def Let_def case_prod_beta flip: ws_def hits_def active_def)
  then obtain rule v where hit: "(rule, v) \<in> set hits"
    and e: "e = anomaly_event (en\<lparr>en_windows := ws\<rparr>) sig active now rule v (hit_score shipped_config active (length hits) rule)"
    using process_hits_events r by fastforce
  have hits: "hits = collect_hits sig ws shipped_rules" by (simp add: hits_def r)
  have single: "hits = [(rule, v)]" using collect_hits_single [OF shipped_metrics(1) hit [unfolded hits]] by (simp add: hits)
  have act: "active = [ru_ID rule]" by (simp add: active_def single BuildActiveSet_def)
  have rule: "rule \<in> set shipped_rules" using hit by (simp add: hits collect_hits_iff)
  have "hit_score shipped_config active (length hits) rule = plain_score shipped_config active rule"
    by (rule hit_score_cross_metric [OF shipped_cross hits active_def hit])
  also have "\<dots> = shipped_score rule" by (simp add: act plain_score_def shipped_score_def)
  finally have "hit_score shipped_config active (length hits) rule = shipped_score rule" .
  then show ?thesis
    using shipped_decisions [OF rule]
    by (intro bexI [OF _ rule]) (simp add: e anomaly_event_def act ActiveSignalSet_Names_def r)
qed

end
