(* ===== verification/DependencyGraph.thy ===== *)
theory DependencyGraph
  imports Prelude
begin

text \<open>
  The resource dependency graph (\<open>internal/intelligence/graph.go\<close>): vertices, edges and the
  two indices between pods and nodes, their incremental maintenance and the population
  from the cluster. The three API lists it reads are the parameter \<open>'c GraphApi\<close>.
\<close>

section \<open>State\<close>

type_synonym ResourceKind = string

definition KindPod :: ResourceKind where "KindPod = ''Pod''"
definition KindNode :: ResourceKind where "KindNode = ''Node''"
definition KindVolume :: ResourceKind where "KindVolume = ''PersistentVolume''"

datatype EdgeRelation = RelRunsOn | RelUsesPVC | RelUsesNet

record ResourceNode =
  rn_ID :: string
  rn_Kind :: ResourceKind
  rn_Name :: string
  rn_Namespace :: string
  rn_Labels :: "string \<rightharpoonup> string"

record Edge =
  ed_From :: string
  ed_To :: string
  ed_Relation :: EdgeRelation

record DependencyGraph =
  dg_nodes :: "string \<rightharpoonup> ResourceNode"
  dg_edges :: "Edge list"
  dg_podToNode :: "string \<rightharpoonup> string"
  dg_nodeToPods :: "string \<rightharpoonup> string list"

definition NewDependencyGraph :: DependencyGraph where
  "NewDependencyGraph = \<lparr>dg_nodes = Map.empty, dg_edges = [], dg_podToNode = Map.empty, dg_nodeToPods = Map.empty\<rparr>"

definition resourceID :: "ResourceKind \<Rightarrow> string \<Rightarrow> string \<Rightarrow> string" where
  "resourceID kind namespace name =
     (if namespace = [] then kind @ ''/'' @ name else kind @ ''/'' @ namespace @ ''/'' @ name)"

definition PodID :: "string \<Rightarrow> string \<Rightarrow> string" where
  "PodID namespace name = resourceID KindPod namespace name"

definition NodeID :: "string \<Rightarrow> string" where
  "NodeID name = resourceID KindNode [] name"

section \<open>Updates\<close>

definition AddNode :: "ResourceNode \<Rightarrow> DependencyGraph \<Rightarrow> DependencyGraph" where
  "AddNode n g = g\<lparr>dg_nodes := (dg_nodes g)(rn_ID n \<mapsto> n)\<rparr>"

definition appendUnique :: "string list \<Rightarrow> string \<Rightarrow> string list" where
  "appendUnique slice s = (if s \<in> set slice then slice else slice @ [s])"

definition pods_of :: "DependencyGraph \<Rightarrow> string \<Rightarrow> string list" where
  "pods_of g n = (case dg_nodeToPods g n of Some ps \<Rightarrow> ps | None \<Rightarrow> [])"

definition AddEdge :: "string \<Rightarrow> string \<Rightarrow> EdgeRelation \<Rightarrow> DependencyGraph \<Rightarrow> DependencyGraph" where
  "AddEdge from to rel g =
     (let g1 = g\<lparr>dg_edges := dg_edges g @ [\<lparr>ed_From = from, ed_To = to, ed_Relation = rel\<rparr>]\<rparr>
      in if rel = RelRunsOn
         then g1\<lparr>dg_podToNode := (dg_podToNode g1)(from \<mapsto> to),
                 dg_nodeToPods := (dg_nodeToPods g1)(to \<mapsto> appendUnique (pods_of g1 to) from)\<rparr>
         else g1)"

section \<open>Queries\<close>

definition NodeForPod :: "string \<Rightarrow> DependencyGraph \<Rightarrow> string option" where
  "NodeForPod podID g = dg_podToNode g podID"

definition PeersOnNode :: "string \<Rightarrow> DependencyGraph \<Rightarrow> string list" where
  "PeersOnNode nodeID g = pods_of g nodeID"

definition NodeOf :: "string \<Rightarrow> DependencyGraph \<Rightarrow> ResourceNode option" where
  "NodeOf i g = dg_nodes g i"

definition VolumesForPod :: "string \<Rightarrow> DependencyGraph \<Rightarrow> string list" where
  "VolumesForPod podID g =
     map ed_To (filter (\<lambda>e. ed_From e = podID \<and> ed_Relation e = RelUsesPVC) (dg_edges g))"

text \<open>The loop that intersects the volume sets; the result has the first set's order.\<close>

fun intersect_volumes :: "string list \<Rightarrow> string list list \<Rightarrow> string list" where
  "intersect_volumes shared [] = shared"
| "intersect_volumes shared (s # sets) = intersect_volumes (filter (\<lambda>v. v \<in> set s) shared) sets"

definition SharedVolumes :: "string list \<Rightarrow> DependencyGraph \<Rightarrow> string list" where
  "SharedVolumes podIDs g =
     (case map (\<lambda>p. remdups (VolumesForPod p g)) podIDs of
        [] \<Rightarrow> [] | s # sets \<Rightarrow> intersect_volumes s sets)"

section \<open>Population from the cluster\<close>

record GraphPod =
  gp_Namespace :: string
  gp_Name :: string
  gp_NodeName :: string
  gp_Labels :: "string \<rightharpoonup> string"
  gp_Volumes :: "string option list" \<comment> \<open>claim names of the volumes\<close>

record 'c GraphApi =
  ga_nodeList :: "'c \<Rightarrow> (string + (string \<times> (string \<rightharpoonup> string)) list) \<times> 'c"
  ga_podList :: "'c \<Rightarrow> (string + GraphPod list) \<times> 'c"
  ga_pvcGet :: "string \<Rightarrow> string \<Rightarrow> 'c \<Rightarrow> (string + string) \<times> 'c" \<comment> \<open>the claim's volume name\<close>

definition add_volume :: "string \<Rightarrow> string \<Rightarrow> DependencyGraph \<Rightarrow> DependencyGraph" where
  "add_volume podID volumeName g =
     (let volID = resourceID KindVolume [] volumeName
      in AddEdge podID volID RelUsesPVC
           (AddNode \<lparr>rn_ID = volID, rn_Kind = KindVolume, rn_Name = volumeName, rn_Namespace = [], rn_Labels = Map.empty\<rparr> g))"

fun add_volumes :: "'c GraphApi \<Rightarrow> string \<Rightarrow> string \<Rightarrow> string option list \<Rightarrow> DependencyGraph \<Rightarrow> 'c \<Rightarrow> DependencyGraph \<times> 'c" where
  "add_volumes api ns podID [] g c = (g, c)"
| "add_volumes api ns podID (None # vs) g c = add_volumes api ns podID vs g c"
| "add_volumes api ns podID (Some claim # vs) g c =
     (case ga_pvcGet api ns claim c of
        (Inl e, c1) \<Rightarrow> add_volumes api ns podID vs g c1
      | (Inr volumeName, c1) \<Rightarrow>
          if volumeName = [] then add_volumes api ns podID vs g c1
          else add_volumes api ns podID vs (add_volume podID volumeName g) c1)"

definition RegisterPod :: "GraphPod \<Rightarrow> DependencyGraph \<Rightarrow> DependencyGraph" where
  "RegisterPod p g =
     (if gp_NodeName p = [] then g
      else let podID = resourceID KindPod (gp_Namespace p) (gp_Name p);
               nodeID = resourceID KindNode [] (gp_NodeName p)
           in AddEdge podID nodeID RelRunsOn
                (AddNode \<lparr>rn_ID = podID, rn_Kind = KindPod, rn_Name = gp_Name p, rn_Namespace = gp_Namespace p,
                          rn_Labels = gp_Labels p\<rparr> g))"

definition addPod :: "'c GraphApi \<Rightarrow> GraphPod \<Rightarrow> DependencyGraph \<Rightarrow> 'c \<Rightarrow> DependencyGraph \<times> 'c" where
  "addPod api p g c =
     (let podID = resourceID KindPod (gp_Namespace p) (gp_Name p);
          nodeID = resourceID KindNode [] (gp_NodeName p);
          g1 = AddEdge podID nodeID RelRunsOn
                 (AddNode \<lparr>rn_ID = podID, rn_Kind = KindPod, rn_Name = gp_Name p, rn_Namespace = gp_Namespace p,
                           rn_Labels = gp_Labels p\<rparr> g)
      in add_volumes api (gp_Namespace p) podID (gp_Volumes p) g1 c)"

fun add_nodes :: "(string \<times> (string \<rightharpoonup> string)) list \<Rightarrow> DependencyGraph \<Rightarrow> DependencyGraph" where
  "add_nodes [] g = g"
| "add_nodes ((name, labels) # ns) g =
     add_nodes ns (AddNode \<lparr>rn_ID = resourceID KindNode [] name, rn_Kind = KindNode, rn_Name = name,
                            rn_Namespace = [], rn_Labels = labels\<rparr> g)"

fun add_pods :: "'c GraphApi \<Rightarrow> GraphPod list \<Rightarrow> DependencyGraph \<Rightarrow> 'c \<Rightarrow> DependencyGraph \<times> 'c" where
  "add_pods api [] g c = (g, c)"
| "add_pods api (p # ps) g c =
     (if gp_NodeName p = [] then add_pods api ps g c
      else let (g1, c1) = addPod api p g c in add_pods api ps g1 c1)"

datatype sync_error = ListNodesFailed string | ListPodsFailed string

definition SyncFromCluster ::
  "'c GraphApi \<Rightarrow> DependencyGraph \<Rightarrow> 'c \<Rightarrow> sync_error option \<times> DependencyGraph \<times> 'c" where
  "SyncFromCluster api g c =
     (case ga_nodeList api c of
        (Inl e, c1) \<Rightarrow> (Some (ListNodesFailed e), g, c1)
      | (Inr nodes, c1) \<Rightarrow>
          let g1 = add_nodes nodes g
          in case ga_podList api c1 of
               (Inl e, c2) \<Rightarrow> (Some (ListPodsFailed e), g1, c2)
             | (Inr pods, c2) \<Rightarrow> let (g2, c3) = add_pods api pods g1 c2 in (None, g2, c3))"

text \<open>An unknown pod reads the empty node ID.\<close>

definition UnregisterPod :: "string \<Rightarrow> string \<Rightarrow> DependencyGraph \<Rightarrow> DependencyGraph" where
  "UnregisterPod namespace name g =
     (let podID = resourceID KindPod namespace name;
          nodeID = (case dg_podToNode g podID of Some n \<Rightarrow> n | None \<Rightarrow> []);
          g1 = g\<lparr>dg_nodes := (dg_nodes g)(podID := None), dg_podToNode := (dg_podToNode g)(podID := None)\<rparr>;
          g2 = (if nodeID \<noteq> []
                then g1\<lparr>dg_nodeToPods := (dg_nodeToPods g1)(nodeID \<mapsto> filter (\<lambda>p. p \<noteq> podID) (pods_of g1 nodeID))\<rparr>
                else g1)
      in g2\<lparr>dg_edges := filter (\<lambda>e. ed_From e \<noteq> podID \<and> ed_To e \<noteq> podID) (dg_edges g2)\<rparr>)"

section \<open>Identifiers\<close>

text \<open>Kubernetes names have no slash; on such names identifiers do not clash.\<close>

lemma append_sep_inject:
  "c \<notin> set a \<Longrightarrow> c \<notin> set b \<Longrightarrow> a @ c # x = b @ c # y \<longleftrightarrow> a = b \<and> x = y"
  by (induction a arbitrary: b) (case_tac b; force)+

lemma resourceID_inject:
  assumes "CHR ''/'' \<notin> set k" "CHR ''/'' \<notin> set ns" "CHR ''/'' \<notin> set n"
    and "CHR ''/'' \<notin> set k'" "CHR ''/'' \<notin> set ns'" "CHR ''/'' \<notin> set n'"
  shows "resourceID k ns n = resourceID k' ns' n' \<longleftrightarrow> k = k' \<and> ns = ns' \<and> n = n'"
proof -
  have "n \<noteq> a @ CHR ''/'' # b" "n' \<noteq> a @ CHR ''/'' # b" for a b using assms(3,6) by auto
  then show ?thesis
    using assms append_sep_inject [of "CHR ''/''" k k'] append_sep_inject [of "CHR ''/''" ns ns' n n']
    by (auto simp: resourceID_def)
qed

lemma kinds_no_slash [simp]:
  "CHR ''/'' \<notin> set KindPod" "CHR ''/'' \<notin> set KindNode" "CHR ''/'' \<notin> set KindVolume"
  by (simp_all add: KindPod_def KindNode_def KindVolume_def)

lemma PodID_inject:
  "CHR ''/'' \<notin> set ns \<Longrightarrow> CHR ''/'' \<notin> set n \<Longrightarrow> CHR ''/'' \<notin> set ns' \<Longrightarrow> CHR ''/'' \<notin> set n' \<Longrightarrow>
   PodID ns n = PodID ns' n' \<longleftrightarrow> ns = ns' \<and> n = n'"
  by (simp add: PodID_def resourceID_inject)

lemma resourceID_nonempty [simp]: "resourceID k ns n \<noteq> []"
  by (simp add: resourceID_def)

section \<open>The indices after an update\<close>

lemma AddNode_index [simp]:
  "dg_podToNode (AddNode n g) = dg_podToNode g" "pods_of (AddNode n g) = pods_of g"
  "dg_edges (AddNode n g) = dg_edges g"
  by (simp_all add: AddNode_def pods_of_def fun_eq_iff)

lemma AddEdge_podToNode:
  "dg_podToNode (AddEdge f t r g) = (if r = RelRunsOn then (dg_podToNode g)(f \<mapsto> t) else dg_podToNode g)"
  by (simp add: AddEdge_def Let_def)

lemma AddEdge_pods_of:
  "pods_of (AddEdge f t r g) = (if r = RelRunsOn then (pods_of g)(t := appendUnique (pods_of g t) f) else pods_of g)"
  by (auto simp: AddEdge_def pods_of_def Let_def fun_eq_iff)

lemma AddEdge_edges [simp]:
  "dg_edges (AddEdge f t r g) = dg_edges g @ [\<lparr>ed_From = f, ed_To = t, ed_Relation = r\<rparr>]"
  by (simp add: AddEdge_def Let_def)

lemma appendUnique_props:
  "set (appendUnique xs x) = insert x (set xs)" "distinct xs \<Longrightarrow> distinct (appendUnique xs x)"
  by (auto simp: appendUnique_def)

lemma UnregisterPod_index:
  "dg_podToNode (UnregisterPod ns n g) = (dg_podToNode g)(PodID ns n := None)"
  "pods_of (UnregisterPod ns n g) =
     (case dg_podToNode g (PodID ns n) of
        Some m \<Rightarrow> if m = [] then pods_of g else (pods_of g)(m := filter (\<lambda>p. p \<noteq> PodID ns n) (pods_of g m))
      | None \<Rightarrow> pods_of g)"
  by (auto simp: UnregisterPod_def PodID_def pods_of_def Let_def fun_eq_iff split: option.splits)

text \<open>Registration and removal as seen through the queries.\<close>

lemma RegisterPod_NodeForPod:
  assumes "gp_NodeName p \<noteq> []"
  shows "NodeForPod (PodID (gp_Namespace p) (gp_Name p)) (RegisterPod p g) = Some (NodeID (gp_NodeName p))"
    and "PodID (gp_Namespace p) (gp_Name p) \<in> set (PeersOnNode (NodeID (gp_NodeName p)) (RegisterPod p g))"
  using assms
  by (simp_all add: RegisterPod_def NodeForPod_def PeersOnNode_def PodID_def NodeID_def Let_def
      AddEdge_podToNode AddEdge_pods_of appendUnique_props)

lemma UnregisterPod_gone:
  "NodeForPod (PodID ns n) (UnregisterPod ns n g) = None"
  "VolumesForPod (PodID ns n) (UnregisterPod ns n g) = []"
  by (auto simp: NodeForPod_def UnregisterPod_index VolumesForPod_def UnregisterPod_def PodID_def Let_def
      filter_empty_conv)

text \<open>A pod that moved stays listed on its old node, even after it is removed.\<close>

lemma moved_pod_stays:
  assumes "gp_NodeName p \<noteq> []" "gp_NodeName q \<noteq> []" "NodeID (gp_NodeName p) \<noteq> NodeID (gp_NodeName q)"
    and "gp_Namespace q = gp_Namespace p" "gp_Name q = gp_Name p"
  shows "PodID (gp_Namespace p) (gp_Name p) \<in> set (PeersOnNode (NodeID (gp_NodeName p))
    (UnregisterPod (gp_Namespace p) (gp_Name p) (RegisterPod q (RegisterPod p g))))"
  using assms
  by (simp add: RegisterPod_def PeersOnNode_def PodID_def NodeID_def Let_def UnregisterPod_index
      AddEdge_podToNode AddEdge_pods_of appendUnique_props flip: PodID_def)

section \<open>Shared volumes\<close>

lemma intersect_volumes_set: "set (intersect_volumes s sets) = set s \<inter> (\<Inter>t \<in> set sets. set t)"
  by (induction s sets rule: intersect_volumes.induct) auto

lemma SharedVolumes_iff:
  "v \<in> set (SharedVolumes ps g) \<longleftrightarrow> ps \<noteq> [] \<and> (\<forall>p \<in> set ps. v \<in> set (VolumesForPod p g))"
  by (cases ps) (auto simp: SharedVolumes_def intersect_volumes_set)

section \<open>The history of placements\<close>

text \<open>
  What was asked of a graph, newest first: a pod placed on a node (an edge ''runs on'', a
  registration, a pod listed by the cluster), or a pod removed.
\<close>

datatype placement = Place string string | Remove string

text \<open>The node of a pod: that of its last placement, unless it was removed since.\<close>

primrec placed :: "placement list \<Rightarrow> string \<Rightarrow> string option" where
  "placed [] p = None"
| "placed (x # es) p =
     (case x of Place q n \<Rightarrow> if q = p then Some n else placed es p
      | Remove q \<Rightarrow> if q = p then None else placed es p)"

text \<open>
  The nodes that list a pod: each node it was ever placed on, except those that were its node
  when it was removed.
\<close>

primrec listed :: "placement list \<Rightarrow> string \<Rightarrow> string \<Rightarrow> bool" where
  "listed [] p n = False"
| "listed (x # es) p n =
     (case x of Place q m \<Rightarrow> (q = p \<and> m = n) \<or> listed es p n
      | Remove q \<Rightarrow> listed es p n \<and> \<not> (q = p \<and> n \<noteq> [] \<and> placed es p = Some n))"

text \<open>A pod that was only ever placed again where it already was, or after its removal.\<close>

primrec unmoved :: "placement list \<Rightarrow> string \<Rightarrow> bool" where
  "unmoved [] p = True"
| "unmoved (x # es) p =
     ((case x of Place q m \<Rightarrow> q = p \<longrightarrow> placed es p \<in> {None, Some m} | Remove q \<Rightarrow> True) \<and> unmoved es p)"

definition pod_placements :: "GraphPod list \<Rightarrow> placement list" where
  "pod_placements ps = rev (map (\<lambda>p. Place (PodID (gp_Namespace p) (gp_Name p)) (NodeID (gp_NodeName p)))
     (filter (\<lambda>p. gp_NodeName p \<noteq> []) ps))"

definition sync_placements :: "'c GraphApi \<Rightarrow> 'c \<Rightarrow> placement list" where
  "sync_placements api c =
     (case ga_nodeList api c of (Inl e, c1) \<Rightarrow> []
      | (Inr ns, c1) \<Rightarrow> (case ga_podList api c1 of (Inl e, c2) \<Rightarrow> [] | (Inr ps, c2) \<Rightarrow> pod_placements ps))"

text \<open>The graphs the exported operations produce from an empty one, in any order, with their histories.\<close>

inductive dg_trace :: "'c GraphApi \<Rightarrow> placement list \<Rightarrow> DependencyGraph \<Rightarrow> bool" for api where
  trace_new: "dg_trace api [] NewDependencyGraph"
| trace_node: "dg_trace api es g \<Longrightarrow> dg_trace api es (AddNode n g)"
| trace_edge: "dg_trace api es g \<Longrightarrow> dg_trace api ((if r = RelRunsOn then [Place f t] else []) @ es) (AddEdge f t r g)"
| trace_register: "dg_trace api es g \<Longrightarrow> dg_trace api (pod_placements [p] @ es) (RegisterPod p g)"
| trace_unregister: "dg_trace api es g \<Longrightarrow> dg_trace api (Remove (PodID ns n) # es) (UnregisterPod ns n g)"
| trace_sync: "dg_trace api es g \<Longrightarrow> dg_trace api (sync_placements api c @ es) (fst (snd (SyncFromCluster api g c)))"

text \<open>Both indices are the ones the history gives, and no list names a pod twice.\<close>

definition indexed :: "placement list \<Rightarrow> DependencyGraph \<Rightarrow> bool" where
  "indexed es g \<longleftrightarrow> dg_podToNode g = placed es \<and> (\<forall>n. set (pods_of g n) = {p. listed es p n} \<and> distinct (pods_of g n))"

lemma indexed_New: "indexed [] NewDependencyGraph"
  by (auto simp: indexed_def NewDependencyGraph_def pods_of_def fun_eq_iff)

lemma indexed_AddNode [simp]: "indexed es (AddNode n g) = indexed es g"
  by (simp add: indexed_def)

lemma indexed_AddEdge:
  "indexed es g \<Longrightarrow> indexed ((if r = RelRunsOn then [Place f t] else []) @ es) (AddEdge f t r g)"
  by (auto simp: indexed_def AddEdge_podToNode AddEdge_pods_of appendUnique_props fun_eq_iff)

lemma indexed_place:
  "indexed es g \<Longrightarrow> indexed (Place f t # es) (AddEdge f t RelRunsOn (AddNode n g))"
  using indexed_AddEdge [of es "AddNode n g" RelRunsOn f t] by simp

lemma indexed_RegisterPod: "indexed es g \<Longrightarrow> indexed (pod_placements [p] @ es) (RegisterPod p g)"
  using indexed_place [of es g]
  by (simp add: RegisterPod_def pod_placements_def PodID_def NodeID_def Let_def)

lemma indexed_add_volumes: "indexed es g \<Longrightarrow> indexed es (fst (add_volumes api ns p vs g c))"
proof (induction api ns p vs g c rule: add_volumes.induct)
  case (3 api ns podID claim vs g c)
  have "indexed es (add_volume podID v g)" for v
    using indexed_AddEdge [of es "AddNode _ g" RelUsesPVC] 3(4) by (simp add: add_volume_def Let_def)
  then show ?case using 3 by (auto split: prod.splits sum.splits)
qed auto

lemma indexed_addPod:
  "indexed es g \<Longrightarrow> indexed (Place (PodID (gp_Namespace p) (gp_Name p)) (NodeID (gp_NodeName p)) # es) (fst (addPod api p g c))"
  by (simp add: addPod_def Let_def PodID_def NodeID_def indexed_add_volumes indexed_place)

lemma indexed_add_nodes: "indexed es g \<Longrightarrow> indexed es (add_nodes ns g)"
  by (induction ns g rule: add_nodes.induct) auto

lemma indexed_add_pods: "indexed es g \<Longrightarrow> indexed (pod_placements ps @ es) (fst (add_pods api ps g c))"
proof (induction ps arbitrary: es g c)
  case (Cons p ps)
  then show ?case
    using Cons.IH [OF indexed_addPod [OF Cons.prems, of p api c]]
    by (cases "addPod api p g c") (auto simp: pod_placements_def)
qed (simp add: pod_placements_def)

lemma indexed_SyncFromCluster:
  "indexed es g \<Longrightarrow> indexed (sync_placements api c @ es) (fst (snd (SyncFromCluster api g c)))"
  using indexed_add_pods [OF indexed_add_nodes]
  by (auto simp: SyncFromCluster_def sync_placements_def Let_def indexed_add_nodes case_prod_beta
      split: prod.splits sum.splits)

lemma indexed_UnregisterPod: "indexed es g \<Longrightarrow> indexed (Remove (PodID ns n) # es) (UnregisterPod ns n g)"
  by (auto simp: indexed_def UnregisterPod_index fun_eq_iff split: option.splits)

lemma dg_trace_indexed: "dg_trace api es g \<Longrightarrow> indexed es g"
  by (induction rule: dg_trace.induct)
    (simp_all only: indexed_New indexed_AddNode indexed_AddEdge indexed_RegisterPod indexed_UnregisterPod
      indexed_SyncFromCluster)

lemma placed_listed: "placed es p = Some n \<Longrightarrow> listed es p n"
  by (induction es) (auto split: placement.splits if_splits)

lemma unmoved_listed: "unmoved es p \<Longrightarrow> n \<noteq> [] \<Longrightarrow> listed es p n \<longleftrightarrow> placed es p = Some n"
  by (induction es) (auto split: placement.splits if_splits)

end
