(* ===== verification/Aggregator.thy ===== *)
theory Aggregator
  imports DependencyGraph Engine "HOL-Library.Monad_Syntax"
begin

text \<open>
  The anomaly aggregator (\<open>internal/intelligence/aggregator.go\<close> with the records of
  \<open>incident.go\<close>): decoding of the analyzer's events, one window of entries per node, and the
  flush. A flush reuses the backing array of a window's slice for the pruned and for the
  deduplicated entries; the model keeps that array's contents, so what the second reuse
  overwrites is visible. The lock is released around the handler; the entries recorded
  meanwhile are an argument.
\<close>

section \<open>Records\<close>

record AnomalyEntry =
  ay_PodName :: string
  ay_Namespace :: string
  ay_Deployment :: string
  ay_NodeName :: string
  ay_Signals :: "string list"
  ay_Confidence :: f64
  ay_ReceivedAt :: instant

record NodeIncident =
  ni_NodeName :: string
  ni_Anomalies :: "AnomalyEntry list"
  ni_WindowStart :: instant
  ni_WindowEnd :: instant

record AggregatorConfig =
  ag_AggregationWindow :: duration
  ag_FlushInterval :: duration
  ag_MinPodsThreshold :: int

definition DefaultAggregatorConfig :: AggregatorConfig where
  "DefaultAggregatorConfig =
     \<lparr>ag_AggregationWindow = 5 * Minute, ag_FlushInterval = 30 * Second, ag_MinPodsThreshold = 2\<rparr>"

type_synonym windows = "(string \<times> AnomalyEntry list) list" \<comment> \<open>by node ID\<close>

record Aggregator =
  ar_cfg :: AggregatorConfig
  ar_windows :: windows

definition NewAggregator :: "AggregatorConfig \<Rightarrow> Aggregator" where
  "NewAggregator cfg =
     \<lparr>ar_cfg = \<lparr>ag_AggregationWindow = (if ag_AggregationWindow cfg = 0 then 5 * Minute else ag_AggregationWindow cfg),
                ag_FlushInterval = (if ag_FlushInterval cfg = 0 then 30 * Second else ag_FlushInterval cfg),
                ag_MinPodsThreshold = (if ag_MinPodsThreshold cfg = 0 then 2 else ag_MinPodsThreshold cfg)\<rparr>,
      ar_windows = []\<rparr>"

section \<open>Decoding\<close>

definition as_time :: "json \<Rightarrow> instant option" where
  "as_time v = (case v of JTime t \<Rightarrow> Some t | _ \<Rightarrow> None)"

definition unmarshal_analyzer_fields :: "(string \<times> json) list \<Rightarrow> AnalyzerAnomalyEvent option" where
  "unmarshal_analyzer_fields kvs =
     (let str = (\<lambda>f. decode_field as_string [] f kvs); flt = (\<lambda>f. decode_field as_float 0 f kvs)
      in do {
        ver \<leftarrow> str ''version''; i \<leftarrow> str ''id''; ns \<leftarrow> str ''namespace''; pod \<leftarrow> str ''pod'';
        dep \<leftarrow> str ''deployment''; con \<leftarrow> str ''container''; met \<leftarrow> str ''metric''; cf \<leftarrow> flt ''confidence'';
        sigs \<leftarrow> decode_field as_strings [] ''active_signals'' kvs; cause \<leftarrow> str ''suggested_cause'';
        act \<leftarrow> str ''suggested_action''; mv \<leftarrow> flt ''metric_value''; th \<leftarrow> flt ''threshold''; win \<leftarrow> str ''window'';
        dry \<leftarrow> decode_field as_bool False ''dry_run'' kvs; det \<leftarrow> decode_field as_time zeroTime ''detected_at'' kvs;
        Some \<lparr>av_Version = ver, av_ID = i, av_Namespace = ns, av_Pod = pod, av_Deployment = dep,
              av_Container = con, av_Metric = met, av_Confidence = cf, av_ActiveSignals = sigs,
              av_SuggestedCause = cause, av_SuggestedAction = act, av_MetricValue = mv, av_Threshold = th,
              av_Window = win, av_DryRun = dry, av_DetectedAt = det\<rparr> })"

definition unmarshal_AnalyzerAnomalyEvent :: "json option \<Rightarrow> AnalyzerAnomalyEvent option" where
  "unmarshal_AnalyzerAnomalyEvent data =
     (case data of Some (JObj kvs) \<Rightarrow> unmarshal_analyzer_fields kvs
      | Some JNull \<Rightarrow> unmarshal_analyzer_fields [] | _ \<Rightarrow> None)"

section \<open>Recording\<close>

definition window_of :: "windows \<Rightarrow> string \<Rightarrow> AnomalyEntry list" where
  "window_of ws nodeID = (case map_of ws nodeID of Some es \<Rightarrow> es | None \<Rightarrow> [])"

definition ag_record :: "string \<Rightarrow> AnomalyEntry \<Rightarrow> Aggregator \<Rightarrow> Aggregator" where
  "ag_record nodeID entry a =
     a\<lparr>ar_windows := AList.update nodeID (window_of (ar_windows a) nodeID @ [entry]) (ar_windows a)\<rparr>"

text \<open>The handler acknowledges malformed messages and pods outside the graph.\<close>

definition handleAnomalyMessage :: "DependencyGraph \<Rightarrow> instant \<Rightarrow> json option \<Rightarrow> Aggregator \<Rightarrow> Aggregator" where
  "handleAnomalyMessage g now data a =
     (case unmarshal_AnalyzerAnomalyEvent data of
        None \<Rightarrow> a
      | Some ev \<Rightarrow>
         (case NodeForPod (PodID (av_Namespace ev) (av_Pod ev)) g of
            None \<Rightarrow> a
          | Some nodeID \<Rightarrow>
              ag_record nodeID
                \<lparr>ay_PodName = av_Pod ev, ay_Namespace = av_Namespace ev, ay_Deployment = av_Deployment ev,
                 ay_NodeName = (case NodeOf nodeID g of Some n \<Rightarrow> rn_Name n | None \<Rightarrow> []),
                 ay_Signals = av_ActiveSignals ev, ay_Confidence = av_Confidence ev, ay_ReceivedAt = now\<rparr> a))"

section \<open>Flushing\<close>

definition entry_key :: "AnomalyEntry \<Rightarrow> string" where
  "entry_key e = ay_Namespace e @ ''/'' @ ay_PodName e"

fun dedup :: "string list \<Rightarrow> AnomalyEntry list \<Rightarrow> AnomalyEntry list" where
  "dedup seen [] = []"
| "dedup seen (e # es) =
     (if entry_key e \<in> set seen then dedup seen es else e # dedup (entry_key e # seen) es)"

text \<open>
  One node of a flush. \<open>fresh\<close> are the first elements of the backing array after pruning;
  deduplication writes its result over them, so the stored window becomes the unique
  entries followed by what was behind them.
\<close>

definition prune_window :: "instant \<Rightarrow> AnomalyEntry list \<Rightarrow> AnomalyEntry list" where
  "prune_window cutoff es = filter (\<lambda>e. After (ay_ReceivedAt e) cutoff) es"

definition overwritten :: "AnomalyEntry list \<Rightarrow> AnomalyEntry list" where
  "overwritten fresh = (let unique = dedup [] fresh in unique @ drop (length unique) fresh)"

definition flush_node ::
  "instant \<Rightarrow> instant \<Rightarrow> (string \<times> AnomalyEntry) list \<Rightarrow> string \<Rightarrow> Aggregator \<Rightarrow> NodeIncident list \<times> Aggregator" where
  "flush_node cutoff now during nodeID a =
     (case map_of (ar_windows a) nodeID of
        None \<Rightarrow> ([], a)
      | Some entries \<Rightarrow>
         let fresh = prune_window cutoff entries
         in if fresh = [] then ([], a\<lparr>ar_windows := AList.delete nodeID (ar_windows a)\<rparr>)
            else let unique = dedup [] fresh;
                     a1 = a\<lparr>ar_windows := AList.update nodeID (overwritten fresh) (ar_windows a)\<rparr>
            in if int (length unique) < ag_MinPodsThreshold (ar_cfg a) then ([], a1)
               else let incident = \<lparr>ni_NodeName = ay_NodeName (unique ! 0), ni_Anomalies = unique,
                                    ni_WindowStart = cutoff, ni_WindowEnd = now\<rparr>;
                        a2 = fold (\<lambda>(n, e). ag_record n e) during a1
                    in ([incident], a2\<lparr>ar_windows := AList.delete nodeID (ar_windows a2)\<rparr>))"

text \<open>
  The flush visits node IDs in the iteration order \<open>order\<close> of the map; each visit comes with
  the reading of the clock and the entries recorded while its handler runs.
\<close>

fun flush_loop ::
  "instant \<Rightarrow> (string \<times> instant \<times> (string \<times> AnomalyEntry) list) list \<Rightarrow> Aggregator \<Rightarrow> NodeIncident list \<times> Aggregator" where
  "flush_loop cutoff [] a = ([], a)"
| "flush_loop cutoff ((nodeID, now, during) # order) a =
     (let (is, a1) = flush_node cutoff now during nodeID a; (is', a2) = flush_loop cutoff order a1
      in (is @ is', a2))"

definition flush ::
  "instant \<Rightarrow> (string \<times> instant \<times> (string \<times> AnomalyEntry) list) list \<Rightarrow> Aggregator \<Rightarrow> NodeIncident list \<times> Aggregator" where
  "flush now order a = flush_loop (Add now (- ag_AggregationWindow (ar_cfg a))) order a"

section \<open>Round trip of the event\<close>

lemma strings_roundtrip: "as_strings (JArr (map JStr xs)) = Some xs"
proof -
  have "all_some (map as_string_elem (map JStr xs)) = Some xs"
    by (induction xs) (auto simp: as_string_elem_def as_string_def)
  then show ?thesis by (simp add: as_strings_def)
qed

lemmas decode_eval = decode_defs as_time_def

definition float_event :: "AnalyzerAnomalyEvent \<Rightarrow> bool" where
  "float_event e \<longleftrightarrow> fl64 (av_Confidence e) = av_Confidence e \<and> fl64 (av_MetricValue e) = av_MetricValue e
     \<and> fl64 (av_Threshold e) = av_Threshold e"

lemma analyzer_event_roundtrip:
  assumes "float_event e"
  shows "unmarshal_AnalyzerAnomalyEvent (Some (marshal_AnalyzerAnomalyEvent e)) = Some e"
  using assms as_float_json_float
  by (simp add: float_event_def unmarshal_AnalyzerAnomalyEvent_def marshal_AnalyzerAnomalyEvent_def
      unmarshal_analyzer_fields_def decode_eval strings_roundtrip Let_def)

section \<open>Deduplication\<close>

lemma dedup_keys:
  "set (map entry_key (dedup seen es)) = entry_key ` set es - set seen"
  "distinct (map entry_key (dedup seen es))" "set (dedup seen es) \<subseteq> set es"
  by (induction seen es rule: dedup.induct) auto

lemma dedup_length: "length (dedup seen es) \<le> length es"
  by (induction seen es rule: dedup.induct) (auto intro: le_SucI)

lemma dedup_pods: "int (length (dedup [] es)) = int (card (entry_key ` set es))"
  using dedup_keys(1,2) [of "[]" es] by (metis Diff_empty distinct_card empty_set length_map)

text \<open>An incident lists each pod once, and at least the configured number of pods.\<close>

lemma flush_node_incident:
  assumes "inc \<in> set (fst (flush_node cutoff now during nodeID a))"
  shows "distinct (map entry_key (ni_Anomalies inc))"
    and "ag_MinPodsThreshold (ar_cfg a) \<le> int (length (ni_Anomalies inc))"
    and "\<forall>e \<in> set (ni_Anomalies inc). cutoff < ay_ReceivedAt e \<and> e \<in> set (window_of (ar_windows a) nodeID)"
    and "map_of (ar_windows (snd (flush_node cutoff now during nodeID a))) nodeID = None"
proof -
  obtain es where es: "map_of (ar_windows a) nodeID = Some es"
    using assms by (auto simp: flush_node_def split: option.splits)
  have ne: "prune_window cutoff es \<noteq> []"
    and th: "\<not> int (length (dedup [] (prune_window cutoff es))) < ag_MinPodsThreshold (ar_cfg a)"
    using assms by (auto simp: flush_node_def es Let_def split: if_splits)
  then have inc: "ni_Anomalies inc = dedup [] (prune_window cutoff es)"
    using assms by (simp add: flush_node_def es Let_def)
  show "distinct (map entry_key (ni_Anomalies inc))" by (simp add: inc dedup_keys)
  show "ag_MinPodsThreshold (ar_cfg a) \<le> int (length (ni_Anomalies inc))" using th by (simp add: inc)
  show "\<forall>e \<in> set (ni_Anomalies inc). cutoff < ay_ReceivedAt e \<and> e \<in> set (window_of (ar_windows a) nodeID)"
    using dedup_keys(3) [of "[]" "prune_window cutoff es"]
    by (auto simp: inc prune_window_def window_of_def es After_def)
  show "map_of (ar_windows (snd (flush_node cutoff now during nodeID a))) nodeID = None"
    using ne th by (simp add: flush_node_def es Let_def delete_conv')
qed

text \<open>
  Whether a node becomes an incident is decided by the number of distinct pods with a
  recent entry.
\<close>

lemma flush_node_emits_iff:
  assumes "map_of (ar_windows a) nodeID = Some es" "prune_window cutoff es \<noteq> []"
  shows "fst (flush_node cutoff now during nodeID a) \<noteq> [] \<longleftrightarrow>
    ag_MinPodsThreshold (ar_cfg a) \<le> int (card (entry_key ` set (prune_window cutoff es)))"
  using assms by (auto simp: flush_node_def Let_def dedup_pods [symmetric])

text \<open>
  With a threshold of at most two, a node that stays below it keeps its window as pruned:
  one unique pod overwrites nothing but itself.
\<close>

lemma overwritten_single: "length (dedup [] es) \<le> 1 \<Longrightarrow> overwritten es = es"
  by (cases es) (auto simp: overwritten_def Let_def length_Suc_conv le_Suc_eq)

lemma flush_node_keeps:
  assumes "map_of (ar_windows a) nodeID = Some es" "prune_window cutoff es \<noteq> []"
    and "ag_MinPodsThreshold (ar_cfg a) \<le> 2" "fst (flush_node cutoff now during nodeID a) = []"
  shows "map_of (ar_windows (snd (flush_node cutoff now during nodeID a))) nodeID = Some (prune_window cutoff es)"
proof -
  have lt: "int (length (dedup [] (prune_window cutoff es))) < ag_MinPodsThreshold (ar_cfg a)"
    using assms(1,2,4) by (auto simp: flush_node_def Let_def split: if_splits)
  then have "overwritten (prune_window cutoff es) = prune_window cutoff es"
    using assms(3) by (intro overwritten_single) linarith
  then show ?thesis using assms(1,2) lt by (simp add: flush_node_def Let_def update_conv')
qed

text \<open>With a threshold of three, deduplication loses a later entry and doubles another.\<close>

definition demo_entry :: "string \<Rightarrow> instant \<Rightarrow> AnomalyEntry" where
  "demo_entry pod t = \<lparr>ay_PodName = pod, ay_Namespace = ''default'', ay_Deployment = [], ay_NodeName = ''n1'',
     ay_Signals = [], ay_Confidence = 1, ay_ReceivedAt = t\<rparr>"

lemma overwritten_corrupts:
  "overwritten [demo_entry ''a'' 1, demo_entry ''a'' 2, demo_entry ''b'' 3] =
   [demo_entry ''a'' 1, demo_entry ''b'' 3, demo_entry ''b'' 3]"
  by (simp add: overwritten_def demo_entry_def entry_key_def Let_def)

text \<open>Entries for the node recorded while the handler runs are dropped with the window.\<close>

lemma flush_drops_concurrent:
  assumes "inc \<in> set (fst (flush_node cutoff now [(nodeID, e)] nodeID a))"
  shows "window_of (ar_windows (snd (flush_node cutoff now [(nodeID, e)] nodeID a))) nodeID = []"
  using flush_node_incident(4) [OF assms] by (simp add: window_of_def)

end
