(* ===== verification/Scorer.thy ===== *)
theory Scorer
  imports Cluster "HOL-Library.Multiset"
begin

text \<open>
  The node health scorer (\<open>internal/intelligence/scorer.go\<close>): running statistics per node, the
  score in \<open>float64\<close>, tiers, the sorted list of unhealthy nodes and the decay. Every
  operation that emits the score prunes the node's timestamps, as the code does. Clock
  readings are arguments: of a new entry, of the operation, of the pruning.
\<close>

section \<open>State\<close>

definition HealthThresholdCordon :: f64 where "HealthThresholdCordon = fl64 (40/100)"
definition HealthThresholdAmber :: f64 where "HealthThresholdAmber = fl64 (70/100)"

record nodeStats =
  ns_total :: int
  ns_unresolved :: int
  ns_escalated :: int
  ns_timestamps :: "instant list"
  ns_lastUpdated :: instant

record NodeScore =
  sc_NodeName :: string
  sc_Score :: f64
  sc_Tier :: string

type_synonym NodeHealthScorer = "(string \<times> nodeStats) list"

definition NewNodeHealthScorer :: NodeHealthScorer where
  "NewNodeHealthScorer = []"

definition getOrCreate :: "string \<Rightarrow> instant \<Rightarrow> NodeHealthScorer \<Rightarrow> nodeStats" where
  "getOrCreate nodeID now s =
     (case map_of s nodeID of Some ns \<Rightarrow> ns
      | None \<Rightarrow> \<lparr>ns_total = 0, ns_unresolved = 0, ns_escalated = 0, ns_timestamps = [], ns_lastUpdated = now\<rparr>)"

section \<open>The score\<close>

definition cap1 :: "f64 \<Rightarrow> f64" where
  "cap1 v = (if v > 1 then 1 else v)"

definition score_of :: "int \<Rightarrow> int \<Rightarrow> int \<Rightarrow> int \<Rightarrow> f64" where
  "score_of fresh totalN unresolved escalated =
     (let anomalyRateFactor = cap1 (f64_div (f64_of_int fresh) 10);
          unresolvedFactor = cap1 (f64_div (f64_of_int unresolved) (f64_of_int totalN));
          escalationFactor = cap1 (f64_div (f64_of_int escalated) (f64_of_int totalN));
          score = f64_sub (f64_sub (f64_sub 1 (f64_mul anomalyRateFactor (fl64 (40/100))))
                                   (f64_mul unresolvedFactor (fl64 (35/100))))
                          (f64_mul escalationFactor (fl64 (25/100)))
      in if score < 0 then 0 else score)"

definition computeScore :: "instant \<Rightarrow> nodeStats \<Rightarrow> f64 \<times> nodeStats" where
  "computeScore now ns =
     (let fresh = filter (\<lambda>t. After t (Add now (- 1 * Hour))) (ns_timestamps ns);
          ns1 = ns\<lparr>ns_timestamps := fresh\<rparr>
      in if ns_total ns = 0 then (1, ns1)
         else (score_of (int (length fresh)) (ns_total ns) (ns_unresolved ns) (ns_escalated ns), ns1))"

definition tier :: "f64 \<Rightarrow> string" where
  "tier score = (if score < HealthThresholdCordon then ''unhealthy''
                 else if score < HealthThresholdAmber then ''amber'' else ''healthy'')"

section \<open>Operations\<close>

definition RecordNodeHealth :: "string \<Rightarrow> f64 \<Rightarrow> 'c World \<Rightarrow> 'c World" where
  "RecordNodeHealth node score w = observe ''selfheal_node_health_score'' [node] score w"

definition emitMetric :: "string \<Rightarrow> instant \<Rightarrow> nodeStats \<Rightarrow> 'c World \<Rightarrow> nodeStats \<times> 'c World" where
  "emitMetric nodeID now ns w = (let (score, ns1) = computeScore now ns in (ns1, RecordNodeHealth nodeID score w))"

definition RecordAnomaly ::
  "string \<Rightarrow> instant \<times> instant \<times> instant \<Rightarrow> NodeHealthScorer \<Rightarrow> 'c World \<Rightarrow> NodeHealthScorer \<times> 'c World" where
  "RecordAnomaly nodeID clk s w =
     (case clk of (n0, n1, n2) \<Rightarrow>
        let ns = getOrCreate nodeID n0 s;
            ns1 = ns\<lparr>ns_total := ns_total ns + 1, ns_unresolved := ns_unresolved ns + 1,
                     ns_timestamps := ns_timestamps ns @ [n1], ns_lastUpdated := n1\<rparr>;
            (ns2, w1) = emitMetric nodeID n2 ns1 w
        in (AList.update nodeID ns2 s, w1))"

definition RecordOutcome ::
  "string \<Rightarrow> string \<Rightarrow> instant \<times> instant \<times> instant \<Rightarrow> NodeHealthScorer \<Rightarrow> 'c World \<Rightarrow> NodeHealthScorer \<times> 'c World" where
  "RecordOutcome nodeID outcome clk s w =
     (case clk of (n0, n1, n2) \<Rightarrow>
        let ns = getOrCreate nodeID n0 s;
            lower = (if ns_unresolved ns > 0 then ns_unresolved ns - 1 else ns_unresolved ns);
            ns1 = (if outcome = ''resolved'' then ns\<lparr>ns_unresolved := lower\<rparr>
                   else if outcome \<in> set [''escalated'', ''cordon'']
                        then ns\<lparr>ns_unresolved := lower, ns_escalated := ns_escalated ns + 1\<rparr>
                   else ns);
            (ns2, w1) = emitMetric nodeID n2 (ns1\<lparr>ns_lastUpdated := n1\<rparr>) w
        in (AList.update nodeID ns2 s, w1))"

definition Scorer_Score :: "string \<Rightarrow> instant \<Rightarrow> NodeHealthScorer \<Rightarrow> f64 \<times> NodeHealthScorer" where
  "Scorer_Score nodeID now s =
     (case map_of s nodeID of None \<Rightarrow> (1, s)
      | Some ns \<Rightarrow> let (score, ns1) = computeScore now ns in (score, AList.update nodeID ns1 s))"

fun AllScores :: "instant \<Rightarrow> NodeHealthScorer \<Rightarrow> NodeScore list" where
  "AllScores now [] = []"
| "AllScores now ((nodeID, ns) # s) =
     (let score = fst (computeScore now ns)
      in \<lparr>sc_NodeName = nodeID, sc_Score = score, sc_Tier = tier score\<rparr> # AllScores now s)"

text \<open>
  The insertion sort on the slice: \<open>sift i j\<close> is the inner loop, swapping neighbours
  downwards from \<open>j\<close>; the outer loop starts it at every index.
\<close>

fun sift :: "nat \<Rightarrow> NodeScore list \<Rightarrow> NodeScore list" where
  "sift 0 xs = xs"
| "sift (Suc j) xs =
     (if sc_Score (xs ! Suc j) < sc_Score (xs ! j)
      then sift j (xs[Suc j := xs ! j, j := xs ! Suc j]) else xs)"

fun sort_from :: "nat \<Rightarrow> nat \<Rightarrow> NodeScore list \<Rightarrow> NodeScore list" where
  "sort_from i 0 xs = xs"
| "sort_from i (Suc k) xs = sort_from (Suc i) k (sift i xs)"

definition UnhealthyNodes :: "f64 \<Rightarrow> instant \<Rightarrow> NodeHealthScorer \<Rightarrow> NodeScore list" where
  "UnhealthyNodes threshold now s =
     (let unhealthy = filter (\<lambda>ns. sc_Score ns < threshold) (AllScores now s)
      in sort_from 1 (length unhealthy - 1) unhealthy)"

fun DecayAll_loop :: "instant \<Rightarrow> instant \<Rightarrow> NodeHealthScorer \<Rightarrow> 'c World \<Rightarrow> NodeHealthScorer \<times> 'c World" where
  "DecayAll_loop cutoff now [] w = ([], w)"
| "DecayAll_loop cutoff now ((nodeID, ns) # s) w =
     (let ns1 = (if Before (ns_lastUpdated ns) cutoff \<and> ns_unresolved ns > 0
                 then ns\<lparr>ns_unresolved := ns_unresolved ns - 1\<rparr> else ns);
          (ns2, w1) = emitMetric nodeID now ns1 w;
          (s1, w2) = DecayAll_loop cutoff now s w1
      in ((nodeID, ns2) # s1, w2))"

definition DecayAll :: "instant \<Rightarrow> instant \<Rightarrow> NodeHealthScorer \<Rightarrow> 'c World \<Rightarrow> NodeHealthScorer \<times> 'c World" where
  "DecayAll now0 now s w = DecayAll_loop (Add now0 (- 15 * Minute)) now s w"

section \<open>Range of the score\<close>

definition stats_wf :: "nodeStats \<Rightarrow> bool" where
  "stats_wf ns \<longleftrightarrow> 0 \<le> ns_unresolved ns \<and> ns_unresolved ns \<le> ns_total ns \<and> 0 \<le> ns_escalated ns"

lemma cap1_range: "0 \<le> v \<Longrightarrow> 0 \<le> cap1 v \<and> cap1 v \<le> 1"
  by (simp add: cap1_def)

lemma factor_range: "0 \<le> a \<Longrightarrow> 0 \<le> b \<Longrightarrow> 0 \<le> cap1 (f64_div (f64_of_int a) (f64_of_int b))"
  by (intro conjunct1 [OF cap1_range] f64.rnd_ge0 divide_nonneg_nonneg) simp_all

lemma score_of_range:
  assumes "0 \<le> f" "0 \<le> t" "0 \<le> u" "0 \<le> e"
  shows "0 \<le> score_of f t u e \<and> score_of f t u e \<le> 1"
proof -
  let ?a = "cap1 (f64_div (f64_of_int f) 10)"
  let ?u = "cap1 (f64_div (f64_of_int u) (f64_of_int t))" and ?e = "cap1 (f64_div (f64_of_int e) (f64_of_int t))"
  have "0 \<le> ?a" using assms(1) by (intro conjunct1 [OF cap1_range] f64.rnd_ge0 divide_nonneg_nonneg) simp_all
  moreover have "0 \<le> ?u" "0 \<le> ?e" using factor_range assms by simp_all
  ultimately have p: "0 \<le> f64_mul ?a (fl64 (40/100))" "0 \<le> f64_mul ?u (fl64 (35/100))" "0 \<le> f64_mul ?e (fl64 (25/100))"
    by (intro f64.rnd_ge0 mult_nonneg_nonneg; simp add: f64.rnd_ge0)+
  have "f64_sub 1 (f64_mul ?a (fl64 (40/100))) \<le> 1" using p(1) by (intro f64.rnd_le1) simp
  then have "f64_sub (f64_sub 1 (f64_mul ?a (fl64 (40/100)))) (f64_mul ?u (fl64 (35/100))) \<le> 1"
    using p(2) by (intro f64.rnd_le1) simp
  then have "f64_sub (f64_sub (f64_sub 1 (f64_mul ?a (fl64 (40/100)))) (f64_mul ?u (fl64 (35/100))))
      (f64_mul ?e (fl64 (25/100))) \<le> 1"
    using p(3) by (intro f64.rnd_le1) simp
  then show ?thesis by (simp add: score_of_def Let_def)
qed

lemma computeScore_range: "stats_wf ns \<Longrightarrow> 0 \<le> fst (computeScore now ns) \<and> fst (computeScore now ns) \<le> 1"
  using score_of_range [of "int (length (filter (\<lambda>t. After t (Add now (- 1 * Hour))) (ns_timestamps ns)))"
      "ns_total ns" "ns_unresolved ns" "ns_escalated ns"]
  by (auto simp: computeScore_def stats_wf_def Let_def)

text \<open>Reading a score twice at one instant gives the same score.\<close>

lemma computeScore_idem: "computeScore now (snd (computeScore now ns)) = computeScore now ns"
  by (simp add: computeScore_def Let_def)

lemma computeScore_wf [simp]: "stats_wf (snd (computeScore now ns)) = stats_wf ns"
  by (simp add: computeScore_def stats_wf_def Let_def)

section \<open>Invariant of the statistics\<close>

definition scorer_wf :: "NodeHealthScorer \<Rightarrow> bool" where
  "scorer_wf s \<longleftrightarrow> (\<forall>(k, ns) \<in> set s. stats_wf ns)"

lemma update_set_subset: "set (AList.update k v xs) \<subseteq> insert (k, v) (set xs)"
  by (induction xs) (auto split: if_splits)

lemma scorer_wf_update: "scorer_wf s \<Longrightarrow> stats_wf ns \<Longrightarrow> scorer_wf (AList.update k ns s)"
  using update_set_subset [of k ns s] by (fastforce simp: scorer_wf_def)

lemma getOrCreate_wf: "scorer_wf s \<Longrightarrow> stats_wf (getOrCreate n t s)"
  by (auto simp: getOrCreate_def scorer_wf_def stats_wf_def dest!: map_of_SomeD split: option.splits)

lemma emitMetric_wf:
  "scorer_wf s \<Longrightarrow> stats_wf ns \<Longrightarrow> scorer_wf (AList.update k (fst (emitMetric n t ns w)) s)"
  by (simp add: emitMetric_def case_prod_beta scorer_wf_update)

lemma RecordAnomaly_wf: "scorer_wf s \<Longrightarrow> scorer_wf (fst (RecordAnomaly n clk s w))"
proof -
  assume s: "scorer_wf s"
  have "stats_wf (getOrCreate n (fst clk) s)" using getOrCreate_wf [OF s] .
  then show ?thesis
    unfolding RecordAnomaly_def Let_def case_prod_beta fst_conv
    by (intro emitMetric_wf s) (simp add: stats_wf_def)
qed

lemma RecordOutcome_wf: "scorer_wf s \<Longrightarrow> scorer_wf (fst (RecordOutcome n out clk s w))"
proof -
  assume s: "scorer_wf s"
  have "stats_wf (getOrCreate n (fst clk) s)" using getOrCreate_wf [OF s] .
  then show ?thesis
    unfolding RecordOutcome_def Let_def case_prod_beta fst_conv
    by (intro emitMetric_wf s) (auto simp: stats_wf_def)
qed

lemma emitMetric_stats [simp]: "stats_wf (fst (emitMetric n t ns w)) = stats_wf ns"
  by (simp add: emitMetric_def case_prod_beta)

lemma scorer_wf_Cons [simp]: "scorer_wf ((k, ns) # s) \<longleftrightarrow> stats_wf ns \<and> scorer_wf s"
  by (simp add: scorer_wf_def)

lemma DecayAll_loop_wf: "scorer_wf s \<Longrightarrow> scorer_wf (fst (DecayAll_loop cutoff now s w))"
proof (induction cutoff now s w rule: DecayAll_loop.induct)
  case (2 cutoff now k ns s w)
  let ?ns = "if Before (ns_lastUpdated ns) cutoff \<and> ns_unresolved ns > 0
    then ns\<lparr>ns_unresolved := ns_unresolved ns - 1\<rparr> else ns"
  have "stats_wf ?ns" using 2(2) by (simp add: stats_wf_def)
  then show ?case
    using 2 by (simp only: DecayAll_loop.simps Let_def case_prod_beta fst_conv scorer_wf_Cons emitMetric_stats)
      (metis prod.collapse)
qed (simp add: scorer_wf_def)

lemma AllScores_range:
  "scorer_wf s \<Longrightarrow> x \<in> set (AllScores now s) \<Longrightarrow> 0 \<le> sc_Score x \<and> sc_Score x \<le> 1 \<and> sc_Tier x = tier (sc_Score x)"
proof (induction s)
  case (Cons a s)
  obtain k ns where a: "a = (k, ns)" by (cases a)
  then have "stats_wf ns" "scorer_wf s" using Cons.prems(1) by (auto simp: scorer_wf_def)
  then show ?case
    using Cons.IH Cons.prems(2) computeScore_range [of ns now] by (auto simp: a Let_def)
qed simp

section \<open>The sort\<close>

lemma sift_mset: "j < length xs \<Longrightarrow> mset (sift j xs) = mset xs"
  by (induction j xs rule: sift.induct) (auto simp: mset_swap)

lemma sift_length [simp]: "length (sift j xs) = length xs"
  by (induction j xs rule: sift.induct) auto

lemma sort_from_mset: "i + k \<le> length xs \<Longrightarrow> mset (sort_from i k xs) = mset xs"
  by (induction i k xs rule: sort_from.induct) (auto simp: sift_mset)

text \<open>
  Below the sifted index the prefix is in order except possibly at the moved element;
  \<open>sift\<close> restores the order of the prefix.
\<close>

definition ordered_to :: "nat \<Rightarrow> NodeScore list \<Rightarrow> bool" where
  "ordered_to n xs \<longleftrightarrow> (\<forall>a b. a < b \<longrightarrow> b < n \<longrightarrow> sc_Score (xs ! a) \<le> sc_Score (xs ! b))"

definition ordered_but :: "nat \<Rightarrow> nat \<Rightarrow> NodeScore list \<Rightarrow> bool" where
  "ordered_but j n xs \<longleftrightarrow>
     (\<forall>a b. a < b \<longrightarrow> b < n \<longrightarrow> a \<noteq> j \<longrightarrow> b \<noteq> j \<longrightarrow> sc_Score (xs ! a) \<le> sc_Score (xs ! b))
     \<and> (\<forall>b. j < b \<longrightarrow> b < n \<longrightarrow> sc_Score (xs ! j) \<le> sc_Score (xs ! b))"

lemma sift_ordered:
  "ordered_but j n xs \<Longrightarrow> j < n \<Longrightarrow> n \<le> length xs \<Longrightarrow> ordered_to n (sift j xs)"
proof (induction j xs rule: sift.induct)
  case (1 xs)
  then show ?case unfolding ordered_but_def ordered_to_def sift.simps by (metis gr0I not_less_zero)
next
  case (2 j xs)
  show ?case
  proof (cases "sc_Score (xs ! Suc j) < sc_Score (xs ! j)")
    case True
    let ?ys = "xs[Suc j := xs ! j, j := xs ! Suc j]"
    have nth: "?ys ! a = (if a = j then xs ! Suc j else if a = Suc j then xs ! j else xs ! a)" if "a < n" for a
      using that 2(3,4) by (auto simp: nth_list_update)
    have o: "sc_Score (xs ! a) \<le> sc_Score (xs ! b)" if "a < b" "b < n" "a \<noteq> Suc j" "b \<noteq> Suc j" for a b
      using 2(2) that by (simp add: ordered_but_def)
    have s: "sc_Score (xs ! Suc j) \<le> sc_Score (xs ! b)" if "Suc j < b" "b < n" for b
      using 2(2) that by (simp add: ordered_but_def)
    have "ordered_but j n ?ys"
      unfolding ordered_but_def
    proof (intro conjI allI impI)
      fix a b assume ab: "a < b" "b < n" "a \<noteq> j" "b \<noteq> j"
      then have "a < n" by simp
      show "sc_Score (?ys ! a) \<le> sc_Score (?ys ! b)"
        unfolding nth [OF \<open>a < n\<close>] nth [OF \<open>b < n\<close>]
        using ab o [of a b] o [of j b] o [of a j] 2(3) by auto
    next
      fix b assume b: "j < b" "b < n"
      then have "j < n" by simp
      show "sc_Score (?ys ! j) \<le> sc_Score (?ys ! b)"
        unfolding nth [OF \<open>j < n\<close>] nth [OF \<open>b < n\<close>]
        using b True s [of b] by (cases "b = Suc j") auto
    qed
    then show ?thesis using 2 True by simp
  next
    case False
    have "sc_Score (xs ! a) \<le> sc_Score (xs ! b)" if ab: "a < b" "b < n" for a b
    proof -
      consider "b = Suc j" "a = j" | "b = Suc j" "a < j" | "a = Suc j" | "a \<noteq> Suc j" "b \<noteq> Suc j"
        using ab by linarith
      then show ?thesis
      proof cases
        case 2
        then have "sc_Score (xs ! a) \<le> sc_Score (xs ! j)"
          using \<open>ordered_but (Suc j) n xs\<close> ab by (simp add: ordered_but_def)
        then show ?thesis using False 2 by simp
      qed (use False \<open>ordered_but (Suc j) n xs\<close> ab in \<open>auto simp: ordered_but_def\<close>)
    qed
    then show ?thesis using False by (simp add: ordered_to_def)
  qed
qed

lemma sift_above: "j < a \<Longrightarrow> a < length xs \<Longrightarrow> sift j xs ! a = xs ! a"
  by (induction j xs rule: sift.induct) auto

lemma sort_from_ordered:
  "ordered_to i xs \<Longrightarrow> i + k = length xs \<Longrightarrow> ordered_to (length xs) (sort_from i k xs)"
proof (induction i k xs rule: sort_from.induct)
  case (2 i k xs)
  have "ordered_but i (Suc i) xs" using 2(2) by (auto simp: ordered_to_def ordered_but_def less_Suc_eq)
  then have "ordered_to (Suc i) (sift i xs)" using 2(3) by (intro sift_ordered) auto
  then show ?case using 2 by simp
qed simp

lemma UnhealthyNodes_sorted:
  "sorted (map sc_Score (UnhealthyNodes th now s))"
  "mset (UnhealthyNodes th now s) = mset (filter (\<lambda>n. sc_Score n < th) (AllScores now s))"
proof -
  let ?u = "filter (\<lambda>n. sc_Score n < th) (AllScores now s)"
  have "ordered_to (length ?u) (sort_from 1 (length ?u - 1) ?u)"
  proof (cases "?u = []")
    case False
    have "ordered_to 1 ?u" by (simp add: ordered_to_def)
    then show ?thesis using False by (intro sort_from_ordered) (auto simp: Suc_le_eq)
  qed (simp add: ordered_to_def)
  moreover have m: "mset (sort_from 1 (length ?u - 1) ?u) = mset ?u"
    by (cases "?u = []") (simp, intro sort_from_mset, simp add: Suc_le_eq)
  ultimately show "sorted (map sc_Score (UnhealthyNodes th now s))"
    using mset_eq_length [OF m] by (auto simp: UnhealthyNodes_def Let_def ordered_to_def sorted_iff_nth_mono_less)
  show "mset (UnhealthyNodes th now s) = mset ?u" using m by (simp add: UnhealthyNodes_def Let_def)
qed

section \<open>Runs of the scorer\<close>

datatype scorer_op = ScAnomaly string "instant \<times> instant \<times> instant"
  | ScOutcome string string "instant \<times> instant \<times> instant" | ScDecay instant instant

fun scorer_step :: "scorer_op \<Rightarrow> NodeHealthScorer \<times> 'c World \<Rightarrow> NodeHealthScorer \<times> 'c World" where
  "scorer_step (ScAnomaly n clk) (s, w) = RecordAnomaly n clk s w"
| "scorer_step (ScOutcome n out clk) (s, w) = RecordOutcome n out clk s w"
| "scorer_step (ScDecay n0 n1) (s, w) = DecayAll n0 n1 s w"

lemma scorer_run_wf: "scorer_wf (fst sw) \<Longrightarrow> scorer_wf (fst (fold scorer_step ops sw))"
proof (induction ops arbitrary: sw)
  case (Cons p ops)
  have "scorer_wf (fst (scorer_step p sw))"
    using Cons.prems
    by (cases p; cases sw) (auto simp: RecordAnomaly_wf RecordOutcome_wf DecayAll_def DecayAll_loop_wf)
  then show ?case using Cons.IH by simp
qed simp

end
