(* ===== verification/Reasoner.thy ===== *)
theory Reasoner
  imports Aggregator Scorer
begin

text \<open>
  The causal reasoner (\<open>internal/intelligence/reasoner.go\<close> with the event of \<open>incident.go\<close>):
  signal counts, the majority rule, the confidence in \<open>float64\<close>, the shared-volume boost,
  and the publication of the incident with its effect on the node's health statistics.
\<close>

section \<open>Root causes and patterns\<close>

datatype RootCause = RootCauseDegradedDisk | RootCauseNetworkPartition | RootCauseCPUStarvation
  | RootCauseMemoryPressure | RootCauseUnknown

definition rootCauseText :: "RootCause \<Rightarrow> string" where
  "rootCauseText rc = (case rc of RootCauseDegradedDisk \<Rightarrow> ''degraded_disk''
     | RootCauseNetworkPartition \<Rightarrow> ''network_partition'' | RootCauseCPUStarvation \<Rightarrow> ''cpu_starvation''
     | RootCauseMemoryPressure \<Rightarrow> ''memory_pressure'' | RootCauseUnknown \<Rightarrow> ''unknown'')"

record signalPattern =
  sp_signals :: "string list"
  sp_rootCause :: RootCause
  sp_baseConf :: f64
  sp_suggestion :: string

definition rootCausePatterns :: "signalPattern list" where
  "rootCausePatterns =
     [\<lparr>sp_signals = [''io_wait_high'', ''disk_io_lat''], sp_rootCause = RootCauseDegradedDisk,
       sp_baseConf = fl64 (80/100), sp_suggestion = ''cordon_node''\<rparr>,
      \<lparr>sp_signals = [''tcp_retransmit''], sp_rootCause = RootCauseNetworkPartition,
       sp_baseConf = fl64 (75/100), sp_suggestion = ''investigate_network''\<rparr>,
      \<lparr>sp_signals = [''cpu_runqueue_delay''], sp_rootCause = RootCauseCPUStarvation,
       sp_baseConf = fl64 (75/100), sp_suggestion = ''cordon_node''\<rparr>,
      \<lparr>sp_signals = [''oom_kill''], sp_rootCause = RootCauseMemoryPressure,
       sp_baseConf = fl64 (80/100), sp_suggestion = ''patch_resource_limits''\<rparr>]"

definition MajorityThreshold :: f64 where "MajorityThreshold = fl64 (6/10)"
definition SharedVolumeConfidenceBoost :: f64 where "SharedVolumeConfidenceBoost = fl64 (10/100)"

record PodRef =
  pr_Name :: string
  pr_Namespace :: string
  pr_Deployment :: string
  pr_Signals :: "string list"

record IncidentEvent =
  ie_IncidentID :: string
  ie_RootCause :: RootCause
  ie_RootCauseConf :: f64
  ie_AffectedNode :: string
  ie_AffectedPods :: "PodRef list"
  ie_SignalSummary :: "(string \<times> int) list"
  ie_SharedVolumes :: "string list"
  ie_SuggestedAction :: string
  ie_Namespace :: string
  ie_DetectedAt :: instant
  ie_Timestamp :: int

definition marshal_PodRef :: "PodRef \<Rightarrow> json" where
  "marshal_PodRef p =
     JObj ([(''name'', JStr (pr_Name p)), (''namespace'', JStr (pr_Namespace p))]
       @ omitempty ''deployment'' (pr_Deployment p) @ [(''signals'', JArr (map JStr (pr_Signals p)))])"

definition marshal_IncidentEvent :: "IncidentEvent \<Rightarrow> json" where
  "marshal_IncidentEvent e =
     JObj ([(''incident_id'', JStr (ie_IncidentID e)), (''root_cause'', JStr (rootCauseText (ie_RootCause e))),
       (''root_cause_confidence'', json_float (ie_RootCauseConf e)), (''affected_node'', JStr (ie_AffectedNode e)),
       (''affected_pods'', JArr (map marshal_PodRef (ie_AffectedPods e))),
       (''signal_summary'', JObj (map (\<lambda>(s, n). (s, JInt n)) (ie_SignalSummary e)))]
      @ (if ie_SharedVolumes e = [] then [] else [(''shared_volumes'', JArr (map JStr (ie_SharedVolumes e)))])
      @ [(''suggested_action'', JStr (ie_SuggestedAction e)), (''namespace'', JStr (ie_Namespace e)),
         (''detected_at'', JTime (ie_DetectedAt e)), (''timestamp'', JInt (ie_Timestamp e))])"

section \<open>Pattern matching\<close>

definition signal_count :: "(string \<times> int) list \<Rightarrow> string \<Rightarrow> int" where
  "signal_count counts sig = (case map_of counts sig of Some n \<Rightarrow> n | None \<Rightarrow> 0)"

definition count_signal :: "string \<Rightarrow> (string \<times> int) list \<Rightarrow> (string \<times> int) list" where
  "count_signal sig counts = AList.update sig (signal_count counts sig + 1) counts"

definition signalCounts :: "AnomalyEntry list \<Rightarrow> (string \<times> int) list" where
  "signalCounts anomalies = fold (\<lambda>a. fold count_signal (ay_Signals a)) anomalies []"

definition majority_threshold :: "int \<Rightarrow> int" where
  "majority_threshold totalPods = f64_trunc (f64_mul (f64_of_int totalPods) MajorityThreshold) + 1"

fun patternMatchesMajority :: "string list \<Rightarrow> (string \<times> int) list \<Rightarrow> int \<Rightarrow> bool" where
  "patternMatchesMajority [] counts totalPods = True"
| "patternMatchesMajority (sig # sigs) counts totalPods =
     (if signal_count counts sig < majority_threshold totalPods then False
      else patternMatchesMajority sigs counts totalPods)"

text \<open>The first matching pattern, if any.\<close>

fun first_match :: "signalPattern list \<Rightarrow> (string \<times> int) list \<Rightarrow> int \<Rightarrow> signalPattern option" where
  "first_match [] counts n = None"
| "first_match (p # ps) counts n =
     (if patternMatchesMajority (sp_signals p) counts n then Some p else first_match ps counts n)"

fun matched_signals :: "RootCause \<Rightarrow> signalPattern list \<Rightarrow> string list" where
  "matched_signals rc [] = []"
| "matched_signals rc (p # ps) = (if sp_rootCause p = rc then sp_signals p else matched_signals rc ps)"

text \<open>\<open>strings.EqualFold\<close> on ASCII names.\<close>

definition pod_matches :: "string list \<Rightarrow> AnomalyEntry \<Rightarrow> bool" where
  "pod_matches pats a = list_ex (\<lambda>sig. list_ex (\<lambda>pat. fold_eq sig pat) pats) (ay_Signals a)"

definition countPodsMeetingPattern :: "RootCause \<Rightarrow> AnomalyEntry list \<Rightarrow> signalPattern list \<Rightarrow> f64" where
  "countPodsMeetingPattern rc anomalies patterns =
     (let matchedSignals = matched_signals rc patterns
      in if matchedSignals = [] \<or> anomalies = [] then 1
         else f64_div (f64_of_int (int (length (filter (pod_matches matchedSignals) anomalies))))
                      (f64_of_int (int (length anomalies))))"

definition clampF :: "f64 \<Rightarrow> f64 \<Rightarrow> f64 \<Rightarrow> f64" where
  "clampF v lo hi = (if v < lo then lo else if v > hi then hi else v)"

section \<open>Classification\<close>

definition incident_namespace :: "AnomalyEntry list \<Rightarrow> string" where
  "incident_namespace as =
     (if length (remdups (map ay_Namespace as)) > 1 then ''cluster'' else ay_Namespace (as ! 0))"

definition incident_confidence :: "DependencyGraph \<Rightarrow> AnomalyEntry list \<Rightarrow> RootCause \<Rightarrow> f64 \<Rightarrow> f64 \<times> string list" where
  "incident_confidence g as rootCause baseConf =
     (let c0 = f64_mul baseConf (countPodsMeetingPattern rootCause as rootCausePatterns);
          c1 = (if c0 > 1 then 1 else c0);
          shared = SharedVolumes (map (\<lambda>a. PodID (ay_Namespace a) (ay_PodName a)) as) g;
          c2 = (if shared \<noteq> [] \<and> rootCause = RootCauseDegradedDisk
                then clampF (f64_add c1 SharedVolumeConfidenceBoost) 0 1 else c1)
      in (c2, shared))"

text \<open>\<open>None\<close> is the error for an empty incident.\<close>

definition classify :: "DependencyGraph \<Rightarrow> string \<Rightarrow> instant \<times> instant \<Rightarrow> NodeIncident \<Rightarrow> IncidentEvent option" where
  "classify g uuid clk incident =
     (let as = ni_Anomalies incident; n = int (length as)
      in if as = [] then None
         else let counts = signalCounts as;
                  (rootCause, baseConf, suggestion) =
                    (case first_match rootCausePatterns counts n of
                       Some p \<Rightarrow> (sp_rootCause p, sp_baseConf p, sp_suggestion p)
                     | None \<Rightarrow> (RootCauseUnknown, fl64 (50/100), ''investigate_node''));
                  (confidence, shared) = incident_confidence g as rootCause baseConf
              in Some \<lparr>ie_IncidentID = uuid, ie_RootCause = rootCause, ie_RootCauseConf = confidence,
                       ie_AffectedNode = ni_NodeName incident,
                       ie_AffectedPods = map (\<lambda>a. \<lparr>pr_Name = ay_PodName a, pr_Namespace = ay_Namespace a,
                         pr_Deployment = ay_Deployment a, pr_Signals = ay_Signals a\<rparr>) as,
                       ie_SignalSummary = counts, ie_SharedVolumes = shared, ie_SuggestedAction = suggestion,
                       ie_Namespace = incident_namespace as, ie_DetectedAt = fst clk,
                       ie_Timestamp = to_UnixMilli (snd clk)\<rparr>)"

definition Classify :: "DependencyGraph \<Rightarrow> string \<Rightarrow> instant \<times> instant \<Rightarrow> NodeIncident \<Rightarrow> IncidentEvent option" where
  "Classify = classify"

section \<open>Analysis\<close>

definition RecordIncidentMetrics :: "IncidentEvent \<Rightarrow> 'c World \<Rightarrow> 'c World" where
  "RecordIncidentMetrics ev w =
     observe ''selfheal_node_incidents_total'' [ie_AffectedNode ev, rootCauseText (ie_RootCause ev)] 1
       (observe ''selfheal_node_incident_confidence'' [ie_AffectedNode ev, rootCauseText (ie_RootCause ev)]
         (ie_RootCauseConf ev) w)"

definition publishIncident :: "'c Ext \<Rightarrow> IncidentEvent \<Rightarrow> 'c World \<Rightarrow> (string \<times> string) option \<times> 'c World" where
  "publishIncident x ev w = PublishIncident x (ie_Namespace ev) (marshal_IncidentEvent ev) w"

fun record_each :: "string \<Rightarrow> (instant \<times> instant \<times> instant) list \<Rightarrow> NodeHealthScorer \<Rightarrow> 'c World \<Rightarrow> NodeHealthScorer \<times> 'c World" where
  "record_each nodeID [] s w = (s, w)"
| "record_each nodeID (clk # clks) s w = (let (s1, w1) = RecordAnomaly nodeID clk s w in record_each nodeID clks s1 w1)"

text \<open>\<open>clks\<close> are the readings of the scorer, one triple per anomaly of the incident.\<close>

definition Analyse ::
  "bool \<Rightarrow> 'c Ext \<Rightarrow> DependencyGraph \<Rightarrow> string \<Rightarrow> instant \<times> instant \<Rightarrow> (nat \<Rightarrow> instant \<times> instant \<times> instant)
    \<Rightarrow> NodeIncident \<Rightarrow> NodeHealthScorer \<Rightarrow> 'c World \<Rightarrow> NodeHealthScorer \<times> 'c World" where
  "Analyse publisher x g uuid clk clks incident s w =
     (case classify g uuid clk incident of
        None \<Rightarrow> (s, w)
      | Some ev \<Rightarrow>
         let (s1, w1) = record_each (NodeID (ni_NodeName incident)) (map clks [0..<length (ni_Anomalies incident)]) s w;
             w2 = RecordIncidentMetrics ev w1
         in (s1, if publisher then snd (publishIncident x ev w2) else w2))"

section \<open>Counting\<close>

lemma signal_count_count: "signal_count (count_signal s c) t = signal_count c t + (if t = s then 1 else 0)"
  by (simp add: signal_count_def count_signal_def update_conv')

lemma fold_count_signal: "signal_count (fold count_signal ss c) t = signal_count c t + int (count_list ss t)"
  by (induction ss arbitrary: c) (auto simp: signal_count_count)

lemma signalCounts_from:
  "signal_count (fold (\<lambda>a. fold count_signal (ay_Signals a)) as c) t =
   signal_count c t + (\<Sum>a \<leftarrow> as. int (count_list (ay_Signals a) t))"
  by (induction as arbitrary: c) (auto simp: fold_count_signal)

lemma signalCounts_sum: "signal_count (signalCounts as) t = (\<Sum>a \<leftarrow> as. int (count_list (ay_Signals a) t))"
  by (simp add: signalCounts_def signalCounts_from) (simp add: signal_count_def)

lemma count_list_distinct: "distinct xs \<Longrightarrow> count_list xs x = (if x \<in> set xs then 1 else 0)"
  by (induction xs) auto

text \<open>When no pod repeats a signal, the count is the number of pods with it.\<close>

lemma signalCounts_pods:
  assumes "\<forall>a \<in> set as. distinct (ay_Signals a)"
  shows "signal_count (signalCounts as) t = int (length (filter (\<lambda>a. t \<in> set (ay_Signals a)) as))"
  using assms by (simp add: signalCounts_sum) (induction as; simp add: count_list_distinct)

lemma patternMatchesMajority_iff:
  "patternMatchesMajority sigs counts n \<longleftrightarrow> (\<forall>s \<in> set sigs. majority_threshold n \<le> signal_count counts s)"
  by (induction sigs) auto

section \<open>The majority threshold\<close>

lemma MajorityThreshold_value: "MajorityThreshold = 5404319552844595 / 2 ^ 53"
  by code_simp

text \<open>
  The constant 0.6 is a little below three fifths; the product with a multiple of five is
  rounded back up to the integer.
\<close>

lemma near_int_exp:
  assumes "0 < k" "k \<le> 2 ^ 52" and x: "x = of_int k - of_int k / (3 * 2 ^ 53)"
  shows "0 < x" "-1 \<le> fl_exp x" "fl_exp x \<le> 52" "of_int k \<le> (2 :: rat) powi (fl_exp x + 1)"
proof -
  let ?e = "fl_exp x"
  have k: "1 \<le> (of_int k :: rat)" "(of_int k :: rat) \<le> 2 ^ 52" using assms(1,2) by simp_all
  have d: "0 \<le> (of_int k / (3 * 2 ^ 53) :: rat)" "(of_int k / (3 * 2 ^ 53) :: rat) \<le> 1/2" using k by simp_all
  show pos: "0 < x" using k d by (simp add: x)
  then have lo: "2 powi ?e \<le> x" and hi: "x < 2 powi (?e + 1)" using fl_exp_bounds [of x] by auto
  have "(2 :: rat) powi (-1) \<le> x" using k d by (simp add: x power_int_minus)
  from powi_less_rat [OF order.strict_trans1 [OF this hi]] show e0: "-1 \<le> ?e" by simp
  have "x < (2 :: rat) powi 53" using k d by (simp add: x)
  from powi_less_rat [OF order.strict_trans1 [OF lo this]] show "?e \<le> 52" by simp
  have "(2 :: rat) powi (?e + 1) = of_int (2 ^ nat (?e + 1))" using e0 by (simp add: power_int_def)
  moreover have "of_int (k - 1) < x" using k d by (simp add: x)
  ultimately have "(of_int (k - 1) :: rat) < of_int (2 ^ nat (?e + 1))" using hi by simp
  then have "k - 1 < 2 ^ nat (?e + 1)" by (simp only: of_int_less_iff)
  then have "(of_int k :: rat) \<le> of_int (2 ^ nat (?e + 1))" by (simp only: of_int_le_iff)
  then show "of_int k \<le> (2 :: rat) powi (?e + 1)" using e0 by (simp add: power_int_def)
qed

lemma fl64_near_int:
  assumes "0 < k" "k \<le> 2 ^ 52" and x: "x = of_int k - of_int k / (3 * 2 ^ 53)"
  shows "fl64 x = of_int k"
proof -
  note e = near_int_exp [OF assms]
  define u where "u = fl_ulp x"
  have u: "u = fl_exp x - 52" "u \<le> 0" using e(2,3) by (simp_all add: u_def fl_ulp_def)
  have kz: "of_int (k * 2 ^ nat (- u)) = (of_int k / 2 powi u :: rat)"
    using u(2) by (simp add: power_int_def field_simps)
  have "\<bar>x / 2 powi u - of_int (k * 2 ^ nat (- u))\<bar> = \<bar>(x - of_int k) / 2 powi u\<bar>"
    by (simp only: kz diff_divide_distrib)
  also have "\<dots> = of_int k / (3 * 2 ^ 53) / (2 :: rat) powi u" using assms(1) by (simp add: x)
  also have "\<dots> \<le> 2 powi (fl_exp x + 1) / (3 * 2 ^ 53) / 2 powi u"
    using e(4) by (intro divide_right_mono) simp_all
  also have "\<dots> = 1 / 3"
  proof -
    have "fl_exp x + 1 = 53 + u" using u(1) by simp
    then have "(2 :: rat) powi (fl_exp x + 1) = 2 powi 53 * 2 powi u" by (simp only: powi_add_rat)
    then show ?thesis by simp
  qed
  finally have "\<bar>x / 2 powi u - of_int (k * 2 ^ nat (- u))\<bar> < 1/2" by simp
  then have "rne (x / 2 powi u) = k * 2 ^ nat (- u)" by (rule rne_near)
  then have "fl64 x = of_int (k * 2 ^ nat (- u)) * 2 powi u" using e(1) by (simp add: fl64_def u_def)
  then show ?thesis by (simp only: kz) simp
qed

text \<open>The threshold is one more than three fifths of the pods, rounded down.\<close>

lemma majority_threshold_value:
  assumes "0 \<le> n" "n \<le> 2 ^ 40"
  shows "majority_threshold n = (3 * n) div 5 + 1"
proof -
  define k where "k = (3 * n) div 5"
  have kn: "5 * k \<le> 3 * n" "3 * n \<le> 5 * k + 4" "0 \<le> k" "k < 2 ^ 50"
    using assms by (auto simp: k_def)
  have r: "f64_of_int n = of_int n" using assms by (intro fl64_of_int) simp
  let ?p = "of_int n * MajorityThreshold"
  have p: "?p = of_int (3 * n) / 5 - of_int n / (5 * 2 ^ 53)" by (simp add: MajorityThreshold_value field_simps)
  have "?p \<le> of_int (8 * k + 7) * 2 powi (-3)"
  proof -
    have "(of_int (3 * n) :: rat) \<le> of_int (5 * k + 4)" using kn(2) by (simp only: of_int_le_iff)
    moreover have "0 \<le> (of_int n / (5 * 2 ^ 53) :: rat)" using assms(1) by simp
    ultimately show ?thesis by (simp add: p power_int_minus)
  qed
  then have "fl64 ?p \<le> fl64 (of_int (8 * k + 7) * 2 powi (-3))" by (rule fl64_mono)
  also have "\<dots> = of_int (8 * k + 7) * 2 powi (-3)" using kn(3,4) by (intro fl64_dyadic) simp_all
  finally have hi: "fl64 ?p < of_int (k + 1)" by (simp add: power_int_minus)
  have lo: "of_int k \<le> fl64 ?p"
  proof (cases "3 * n = 5 * k")
    case True
    have "?p = of_int k - of_int k / (3 * 2 ^ 53)"
    proof -
      have "(of_int (3 * n) :: rat) = of_int (5 * k)" using True by (simp only:)
      then have n: "of_int n = 5 * (of_int k :: rat) / 3" by simp
      show ?thesis unfolding p unfolding of_int_mult n by simp
    qed
    then show ?thesis using fl64_near_int [of k ?p] kn(3,4) by (cases "k = 0") auto
  next
    case False
    then have "(of_int (5 * k + 1) :: rat) \<le> of_int (3 * n)" using kn(1) by (simp only: of_int_le_iff)
    moreover have "(of_int n / (5 * 2 ^ 53) :: rat) \<le> 1/5" using assms(2) by simp
    ultimately have "of_int k \<le> ?p" by (simp add: p)
    then have "fl64 (of_int k) \<le> fl64 ?p" by (rule fl64_mono)
    then show ?thesis using fl64_of_int [of k] kn(3,4) by simp
  qed
  have "0 \<le> fl64 ?p" using lo kn(3) by (meson of_int_0_le_iff order_trans)
  then have "f64_trunc (fl64 ?p) = k" using lo hi by (simp add: f64_trunc_def floor_unique)
  then show ?thesis by (simp add: majority_threshold_def r k_def)
qed

section \<open>What an attribution means\<close>

text \<open>A pattern matches when each of its signals is seen strictly more often than in three fifths of the pods.\<close>

lemma patternMatchesMajority_fraction:
  assumes "0 \<le> n" "n \<le> 2 ^ 40"
  shows "patternMatchesMajority sigs counts n \<longleftrightarrow> (\<forall>s \<in> set sigs. 3 * n < 5 * signal_count counts s)"
  by (auto simp: patternMatchesMajority_iff majority_threshold_value [OF assms])

lemma first_match_SomeD: "first_match ps counts n = Some p \<Longrightarrow> p \<in> set ps \<and> patternMatchesMajority (sp_signals p) counts n"
  by (induction ps) (auto split: if_splits)

lemma first_match_None_iff: "first_match ps counts n = None \<longleftrightarrow> (\<forall>p \<in> set ps. \<not> patternMatchesMajority (sp_signals p) counts n)"
  by (induction ps) auto

lemma patterns_known:
  "\<forall>p \<in> set rootCausePatterns. sp_rootCause p \<noteq> RootCauseUnknown \<and> 0 \<le> sp_baseConf p \<and> sp_baseConf p \<le> 1"
  by code_simp

lemma patterns_signals: "\<forall>p \<in> set rootCausePatterns. sp_signals p \<noteq> []"
  by code_simp

lemma base_unknown: "0 \<le> fl64 (50/100)" "fl64 (50/100) \<le> 1"
  by code_simp+

lemma fl64_div_unit: "0 \<le> x \<Longrightarrow> x \<le> y \<Longrightarrow> 0 \<le> fl64 (x / y) \<and> fl64 (x / y) \<le> 1"
proof -
  assume "0 \<le> x" "x \<le> y"
  then have "0 \<le> x / y" "x / y \<le> 1" by (auto simp: divide_le_eq_1)
  then show ?thesis using fl64_mono [of "x / y" 1] by (simp add: fl64_nonneg)
qed

lemma countPods_unit: "0 \<le> countPodsMeetingPattern rc as ps \<and> countPodsMeetingPattern rc as ps \<le> 1"
proof -
  let ?m = "of_int (int (length (filter (pod_matches (matched_signals rc ps)) as))) :: rat"
  let ?n = "of_int (int (length as)) :: rat"
  have "?m \<le> ?n" by simp
  then have "fl64 ?m \<le> fl64 ?n" by (rule fl64_mono)
  then show ?thesis
    using fl64_div_unit [of "fl64 ?m" "fl64 ?n"] by (simp add: countPodsMeetingPattern_def Let_def fl64_nonneg)
qed

lemma clampF_unit: "0 \<le> clampF v 0 1 \<and> clampF v 0 1 \<le> 1"
  by (simp add: clampF_def)

lemma incident_confidence_unit:
  assumes "0 \<le> b" "b \<le> 1"
  shows "0 \<le> fst (incident_confidence g as rc b) \<and> fst (incident_confidence g as rc b) \<le> 1"
proof -
  have "0 \<le> fl64 (b * countPodsMeetingPattern rc as rootCausePatterns)"
    using assms countPods_unit by (intro fl64_nonneg mult_nonneg_nonneg) auto
  then show ?thesis using clampF_unit by (simp add: incident_confidence_def Let_def)
qed

lemma classify_None_iff: "classify g u clk inc = None \<longleftrightarrow> ni_Anomalies inc = []"
  by (simp add: classify_def Let_def split: prod.splits option.splits)

lemma classify_confidence:
  assumes "classify g u clk inc = Some ev"
  shows "0 \<le> ie_RootCauseConf ev \<and> ie_RootCauseConf ev \<le> 1"
proof -
  let ?as = "ni_Anomalies inc"
  let ?m = "first_match rootCausePatterns (signalCounts ?as) (int (length ?as))"
  define b where "b = (case ?m of Some p \<Rightarrow> sp_baseConf p | None \<Rightarrow> fl64 (50/100))"
  define rc where "rc = (case ?m of Some p \<Rightarrow> sp_rootCause p | None \<Rightarrow> RootCauseUnknown)"
  have "0 \<le> b \<and> b \<le> 1"
    using patterns_known first_match_SomeD [of rootCausePatterns] base_unknown
    by (auto simp: b_def split: option.splits)
  moreover have "ie_RootCauseConf ev = fst (incident_confidence g ?as rc b)"
    using assms by (auto simp: classify_def Let_def b_def rc_def split: prod.splits option.splits if_splits)
  ultimately show ?thesis using incident_confidence_unit by simp
qed

text \<open>The cause is unknown exactly when no pattern has its majority.\<close>

lemma classify_root_cause:
  assumes "classify g u clk inc = Some ev"
  shows "ie_RootCause ev = (case first_match rootCausePatterns (signalCounts (ni_Anomalies inc))
            (int (length (ni_Anomalies inc))) of Some p \<Rightarrow> sp_rootCause p | None \<Rightarrow> RootCauseUnknown)"
    and "ie_AffectedNode ev = ni_NodeName inc" "map pr_Name (ie_AffectedPods ev) = map ay_PodName (ni_Anomalies inc)"
  using assms by (auto simp: classify_def Let_def split: prod.splits option.splits if_splits)

lemma classify_unknown_iff:
  assumes "classify g u clk inc = Some ev"
  shows "ie_RootCause ev = RootCauseUnknown \<longleftrightarrow>
    (\<forall>p \<in> set rootCausePatterns. \<not> patternMatchesMajority (sp_signals p) (signalCounts (ni_Anomalies inc))
       (int (length (ni_Anomalies inc))))"
  using patterns_known first_match_SomeD [of rootCausePatterns]
  by (auto simp: classify_root_cause(1) [OF assms] first_match_None_iff [symmetric] split: option.splits)

text \<open>Signals outside the patterns' vocabulary never give a cause.\<close>

lemma signal_count_absent: "\<forall>a \<in> set as. t \<notin> set (ay_Signals a) \<Longrightarrow> signal_count (signalCounts as) t = 0"
  by (simp add: signalCounts_sum) (induction as; simp add: count_list_0_iff)

lemma majority_threshold_pos: "0 \<le> n \<Longrightarrow> 1 \<le> majority_threshold n"
  by (simp add: majority_threshold_def f64_trunc_def fl64_nonneg MajorityThreshold_value)

definition pattern_signals :: "string list" where
  "pattern_signals = concat (map sp_signals rootCausePatterns)"

lemma classify_foreign_signals:
  assumes "classify g u clk inc = Some ev" "\<forall>a \<in> set (ni_Anomalies inc). set (ay_Signals a) \<inter> set pattern_signals = {}"
  shows "ie_RootCause ev = RootCauseUnknown"
  unfolding classify_unknown_iff [OF assms(1)]
proof
  fix p assume p: "p \<in> set rootCausePatterns"
  then obtain s where s: "s \<in> set (sp_signals p)" using patterns_signals by (meson last_in_set)
  then have "s \<in> set pattern_signals" using p by (auto simp: pattern_signals_def)
  then have "signal_count (signalCounts (ni_Anomalies inc)) s = 0"
    using assms(2) by (intro signal_count_absent) auto
  then show "\<not> patternMatchesMajority (sp_signals p) (signalCounts (ni_Anomalies inc)) (int (length (ni_Anomalies inc)))"
    using s majority_threshold_pos [of "int (length (ni_Anomalies inc))"] by (force simp: patternMatchesMajority_iff)
qed

section \<open>Effects of an analysis\<close>

definition node_total :: "NodeHealthScorer \<Rightarrow> string \<Rightarrow> int" where
  "node_total s nd = (case map_of s nd of Some ns \<Rightarrow> ns_total ns | None \<Rightarrow> 0)"

lemma RecordAnomaly_total: "node_total (fst (RecordAnomaly nd clk s w)) nd = node_total s nd + 1"
  by (cases clk) (auto simp: RecordAnomaly_def emitMetric_def computeScore_def getOrCreate_def node_total_def update_conv'
      Let_def split: option.splits)

lemma record_each_total: "node_total (fst (record_each nd clks s w)) nd = node_total s nd + int (length clks)"
proof (induction clks arbitrary: s w)
  case (Cons clk clks)
  then show ?case
    using RecordAnomaly_total [of nd clk s w] by (auto simp: Let_def split: prod.splits)
qed simp

text \<open>An analysed incident counts each of its anomalies against the node.\<close>

lemma Analyse_total:
  "node_total (fst (Analyse p x g u clk clks inc s w)) (NodeID (ni_NodeName inc)) =
   node_total s (NodeID (ni_NodeName inc)) + int (length (ni_Anomalies inc))"
  using record_each_total [of "NodeID (ni_NodeName inc)" "map clks [0..<length (ni_Anomalies inc)]" s w]
    classify_None_iff [of g u clk inc]
  by (auto simp: Analyse_def Let_def split: option.splits prod.splits)

lemma Analyse_empty: "ni_Anomalies inc = [] \<Longrightarrow> Analyse p x g u clk clks inc s w = (s, w)"
  by (simp add: Analyse_def classify_def)

end
