(* ===== verification/Percentile.thy ===== *)
theory Percentile
  imports GoFloat "HOL-Library.Word"
begin

text \<open>
  The latency aggregator of \<open>pkg/percentile/percentile.go\<close>. The histograms are those of the
  HdrHistogram package, a parameter \<open>'h Hdr\<close> of every operation: what the package documents
  of \<open>Reset\<close> is the hypothesis \<open>hdr_reset\<close>. The three windows tumble: a histogram
  holds what was recorded since the last tick whose number its length divides.
\<close>

section \<open>The histogram package\<close>

record 'h Hdr =
  hdr_New :: "int \<Rightarrow> int \<Rightarrow> int \<Rightarrow> 'h"
  hdr_RecordValues :: "int \<Rightarrow> int \<Rightarrow> 'h \<Rightarrow> 'h" \<comment> \<open>the error is discarded\<close>
  hdr_ValueAtQuantile :: "int \<Rightarrow> 'h \<Rightarrow> int"
  hdr_Max :: "'h \<Rightarrow> int"
  hdr_Reset :: "'h \<Rightarrow> 'h"

section \<open>Records\<close>

record Percentiles =
  pc_P50 :: f64
  pc_P95 :: f64
  pc_P99 :: f64
  pc_Max :: f64

record WindowSnapshots =
  ws_W10s :: Percentiles
  ws_W60s :: Percentiles
  ws_W300s :: Percentiles

record 'h keyState =
  ks_active10s :: 'h
  ks_active60s :: 'h
  ks_active300s :: 'h
  ks_snap :: WindowSnapshots

record 'h LatencyAggregator =
  la_keys :: "(string \<times> 'h keyState) list"
  la_ticks :: "64 word"

definition zero_percentiles :: Percentiles where
  "zero_percentiles = \<lparr>pc_P50 = 0, pc_P95 = 0, pc_P99 = 0, pc_Max = 0\<rparr>"

definition newKeyState :: "'h Hdr \<Rightarrow> 'h keyState" where
  "newKeyState h =
     \<lparr>ks_active10s = hdr_New h 1 60000000 2, ks_active60s = hdr_New h 1 60000000 2,
      ks_active300s = hdr_New h 1 60000000 2,
      ks_snap = \<lparr>ws_W10s = zero_percentiles, ws_W60s = zero_percentiles, ws_W300s = zero_percentiles\<rparr>\<rparr>"

definition NewLatencyAggregator :: "'h LatencyAggregator" where
  "NewLatencyAggregator = \<lparr>la_keys = [], la_ticks = 0\<rparr>"

section \<open>Operations\<close>

definition key_state :: "'h Hdr \<Rightarrow> 'h LatencyAggregator \<Rightarrow> string \<Rightarrow> 'h keyState" where
  "key_state h a key = (case map_of (la_keys a) key of Some ks \<Rightarrow> ks | None \<Rightarrow> newKeyState h)"

definition record_windows :: "'h Hdr \<Rightarrow> int \<Rightarrow> int \<Rightarrow> 'h keyState \<Rightarrow> 'h keyState" where
  "record_windows h v n ks =
     ks\<lparr>ks_active10s := hdr_RecordValues h v n (ks_active10s ks),
        ks_active60s := hdr_RecordValues h v n (ks_active60s ks),
        ks_active300s := hdr_RecordValues h v n (ks_active300s ks)\<rparr>"

definition RecordValues :: "'h Hdr \<Rightarrow> string \<Rightarrow> int \<Rightarrow> int \<Rightarrow> 'h LatencyAggregator \<Rightarrow> 'h LatencyAggregator" where
  "RecordValues h key latencyUs n a =
     (let v = (if latencyUs < 1 then 1 else latencyUs)
      in if n < 1 then a
         else a\<lparr>la_keys := AList.update key (record_windows h v n (key_state h a key)) (la_keys a)\<rparr>)"

definition Record :: "'h Hdr \<Rightarrow> string \<Rightarrow> int \<Rightarrow> 'h LatencyAggregator \<Rightarrow> 'h LatencyAggregator" where
  "Record h key latencyUs a = RecordValues h key latencyUs 1 a"

definition take_percentiles :: "'h Hdr \<Rightarrow> 'h \<Rightarrow> Percentiles" where
  "take_percentiles h x =
     \<lparr>pc_P50 = f64_div (f64_of_int (hdr_ValueAtQuantile h 50 x)) 1000,
      pc_P95 = f64_div (f64_of_int (hdr_ValueAtQuantile h 95 x)) 1000,
      pc_P99 = f64_div (f64_of_int (hdr_ValueAtQuantile h 99 x)) 1000,
      pc_Max = f64_div (f64_of_int (hdr_Max h x)) 1000\<rparr>"

definition reset_at :: "'h Hdr \<Rightarrow> 64 word \<Rightarrow> 64 word \<Rightarrow> 'h \<Rightarrow> 'h" where
  "reset_at h ticks len x = (if ticks mod len = 0 then hdr_Reset h x else x)"

definition tick_key :: "'h Hdr \<Rightarrow> 64 word \<Rightarrow> 'h keyState \<Rightarrow> 'h keyState" where
  "tick_key h ticks ks =
     \<lparr>ks_active10s = reset_at h ticks 10 (ks_active10s ks),
      ks_active60s = reset_at h ticks 60 (ks_active60s ks),
      ks_active300s = reset_at h ticks 300 (ks_active300s ks),
      ks_snap = \<lparr>ws_W10s = take_percentiles h (ks_active10s ks), ws_W60s = take_percentiles h (ks_active60s ks),
                 ws_W300s = take_percentiles h (ks_active300s ks)\<rparr>\<rparr>"

definition Tick :: "'h Hdr \<Rightarrow> 'h LatencyAggregator \<Rightarrow> 'h LatencyAggregator" where
  "Tick h a =
     (let t = la_ticks a + 1
      in a\<lparr>la_ticks := t, la_keys := map (\<lambda>(k, ks). (k, tick_key h t ks)) (la_keys a)\<rparr>)"

definition Latency_Snapshot :: "'h LatencyAggregator \<Rightarrow> (string \<times> WindowSnapshots) list" where
  "Latency_Snapshot a = map (\<lambda>(k, ks). (k, ks_snap ks)) (la_keys a)"

section \<open>What a window holds\<close>

text \<open>A history of the aggregator, newest operation last.\<close>

datatype latency_op = LRecord string int int | LTick

fun latency_step :: "'h Hdr \<Rightarrow> latency_op \<Rightarrow> 'h LatencyAggregator \<Rightarrow> 'h LatencyAggregator" where
  "latency_step h (LRecord k v n) a = RecordValues h k v n a"
| "latency_step h LTick a = Tick h a"

definition latency_run :: "'h Hdr \<Rightarrow> latency_op list \<Rightarrow> 'h LatencyAggregator" where
  "latency_run h ops = fold (latency_step h) ops NewLatencyAggregator"

text \<open>
  The specification of a tumbling window of \<open>len\<close> ticks: the samples of the key since the
  last tick whose number \<open>len\<close> divides, with the number of ticks so far.
\<close>

fun tumble_step :: "64 word \<Rightarrow> string \<Rightarrow> latency_op \<Rightarrow> 64 word \<times> (int \<times> int) list \<Rightarrow> 64 word \<times> (int \<times> int) list" where
  "tumble_step len key (LRecord k v n) (t, xs) = (t, if k = key \<and> 1 \<le> n then xs @ [(max 1 v, n)] else xs)"
| "tumble_step len key LTick (t, xs) = (t + 1, if (t + 1) mod len = 0 then [] else xs)"

definition tumbling :: "64 word \<Rightarrow> string \<Rightarrow> latency_op list \<Rightarrow> 64 word \<times> (int \<times> int) list" where
  "tumbling len key ops = fold (tumble_step len key) ops (0, [])"

definition hist_of :: "'h Hdr \<Rightarrow> (int \<times> int) list \<Rightarrow> 'h" where
  "hist_of h xs = fold (\<lambda>(v, n). hdr_RecordValues h v n) xs (hdr_New h 1 60000000 2)"

definition hdr_reset :: "'h Hdr \<Rightarrow> bool" where
  "hdr_reset h \<longleftrightarrow> (\<forall>xs. hdr_Reset h (hist_of h xs) = hist_of h [])"

lemma hist_of_snoc: "hist_of h (xs @ [(v, n)]) = hdr_RecordValues h v n (hist_of h xs)"
  by (simp add: hist_of_def)

definition windows_ok :: "'h Hdr \<Rightarrow> string \<Rightarrow> (int \<times> int) list \<Rightarrow> (int \<times> int) list \<Rightarrow> (int \<times> int) list \<Rightarrow> 'h LatencyAggregator \<Rightarrow> bool" where
  "windows_ok h key x10 x60 x300 a \<longleftrightarrow>
     ks_active10s (key_state h a key) = hist_of h x10 \<and> ks_active60s (key_state h a key) = hist_of h x60
     \<and> ks_active300s (key_state h a key) = hist_of h x300
     \<and> (map_of (la_keys a) key = None \<longrightarrow> x10 = [] \<and> x60 = [] \<and> x300 = [])"

lemma key_state_tick:
  "map_of (la_keys (Tick h a)) key = map_option (tick_key h (la_ticks a + 1)) (map_of (la_keys a) key)"
  by (simp add: Tick_def Let_def map_of_map comp_def)

lemma latency_step_windows:
  assumes "hdr_reset h" "windows_ok h key x10 x60 x300 a" "la_ticks a = t"
  shows "windows_ok h key (snd (tumble_step 10 key p (t, x10))) (snd (tumble_step 60 key p (t, x60)))
           (snd (tumble_step 300 key p (t, x300))) (latency_step h p a)"
    and "la_ticks (latency_step h p a) = fst (tumble_step 10 key p (t, x10))"
proof -
  show "windows_ok h key (snd (tumble_step 10 key p (t, x10))) (snd (tumble_step 60 key p (t, x60)))
           (snd (tumble_step 300 key p (t, x300))) (latency_step h p a)"
  proof (cases p)
    case (LRecord k v n)
    then show ?thesis
      using assms(2) by (auto simp: windows_ok_def RecordValues_def key_state_def record_windows_def Let_def
          hist_of_snoc update_conv' max_def split: option.splits)
  next
    case LTick
    then show ?thesis
      using assms
      by (cases "map_of (la_keys a) key")
        (auto simp: windows_ok_def key_state_def key_state_tick tick_key_def reset_at_def hdr_reset_def)
  qed
  show "la_ticks (latency_step h p a) = fst (tumble_step 10 key p (t, x10))"
    using assms(3) by (cases p) (auto simp: RecordValues_def Tick_def Let_def)
qed

lemma tumble_fst: "fst (tumble_step l key p s) = fst (tumble_step m key p (fst s, xs))"
  by (cases p; cases s) auto

lemma tumbling_ticks: "fst (fold (tumble_step l key) ops (t, xs)) = fst (fold (tumble_step m key) ops (t, ys))"
proof (induction ops arbitrary: t xs ys)
  case (Cons p ops)
  then show ?case by (cases p) auto
qed simp

lemma fold_windows:
  assumes "hdr_reset h" "windows_ok h key x10 x60 x300 a"
  shows "windows_ok h key (snd (fold (tumble_step 10 key) ops (la_ticks a, x10)))
    (snd (fold (tumble_step 60 key) ops (la_ticks a, x60))) (snd (fold (tumble_step 300 key) ops (la_ticks a, x300)))
    (fold (latency_step h) ops a)"
  using assms(2)
proof (induction ops arbitrary: a x10 x60 x300)
  case (Cons p ops)
  have eq: "tumble_step l key p (la_ticks a, xs) = (la_ticks (latency_step h p a), snd (tumble_step l key p (la_ticks a, xs)))"
    for l xs
    by (cases p) (auto simp: RecordValues_def Tick_def Let_def)
  show ?case
    using Cons.IH [OF latency_step_windows(1) [OF assms(1) Cons.prems refl, of p]]
    by (simp add: eq [symmetric])
qed simp

lemma latency_windows:
  assumes "hdr_reset h"
  shows "windows_ok h key (snd (tumbling 10 key ops)) (snd (tumbling 60 key ops)) (snd (tumbling 300 key ops))
    (latency_run h ops)"
proof -
  have "windows_ok h key [] [] [] (NewLatencyAggregator :: 'a LatencyAggregator)"
    by (simp add: windows_ok_def key_state_def NewLatencyAggregator_def newKeyState_def hist_of_def)
  from fold_windows [OF assms this, of ops] show ?thesis
    by (simp add: tumbling_def latency_run_def NewLatencyAggregator_def)
qed

text \<open>
  The snapshot published by a tick reports, for each window, the percentiles of the samples
  the window held just before that tick.
\<close>

lemma tick_snapshot:
  assumes "hdr_reset h" "(key, ws) \<in> set (Latency_Snapshot (latency_run h (ops @ [LTick])))"
    and "distinct (map fst (la_keys (latency_run h ops)))"
  shows "ws_W10s ws = take_percentiles h (hist_of h (snd (tumbling 10 key ops)))"
    and "ws_W60s ws = take_percentiles h (hist_of h (snd (tumbling 60 key ops)))"
    and "ws_W300s ws = take_percentiles h (hist_of h (snd (tumbling 300 key ops)))"
proof -
  let ?a = "latency_run h ops"
  obtain ks where ks: "(key, ks) \<in> set (la_keys ?a)" "ws = ks_snap (tick_key h (la_ticks ?a + 1) ks)"
    using assms(2) by (auto simp: Latency_Snapshot_def latency_run_def Tick_def Let_def)
  then have k: "key_state h ?a key = ks" using assms(3) by (simp add: key_state_def)
  note w = latency_windows [OF assms(1), of key ops, unfolded windows_ok_def k]
  show "ws_W10s ws = take_percentiles h (hist_of h (snd (tumbling 10 key ops)))"
    "ws_W60s ws = take_percentiles h (hist_of h (snd (tumbling 60 key ops)))"
    "ws_W300s ws = take_percentiles h (hist_of h (snd (tumbling 300 key ops)))"
    using w by (simp_all add: ks(2) tick_key_def)
qed

lemma latency_keys_distinct: "distinct (map fst (la_keys (latency_run h ops)))"
proof -
  have "distinct (map fst (la_keys a)) \<Longrightarrow> distinct (map fst (la_keys (latency_step h p a)))" for a :: "'a LatencyAggregator" and p
    by (cases p) (auto simp: RecordValues_def Tick_def Let_def distinct_update comp_def case_prod_unfold)
  then have "distinct (map fst (la_keys a)) \<Longrightarrow> distinct (map fst (la_keys (fold (latency_step h) ops a)))"
    for a :: "'a LatencyAggregator"
    by (induction ops arbitrary: a) auto
  then show ?thesis by (simp add: latency_run_def NewLatencyAggregator_def)
qed

end
