(* ===== verification/TimeSeries.thy ===== *)
theory TimeSeries
  imports Prelude
begin

text \<open>
  The circular buffer of \<open>pkg/timeseries/timeseries.go\<close>. \<open>head\<close>, \<open>size\<close> and \<open>cap\<close> are
  naturals: a negative capacity panics in \<open>make\<close>, and no operation makes one of them
  negative. \<open>None\<close> is the panic of an index out of range. The buffer provides the contract
  \<open>bounded_log\<close>.
\<close>

record 'a Buffer =
  bf_data :: "'a list"
  bf_head :: nat
  bf_size :: nat
  bf_cap :: nat

definition NewBuffer :: "'a \<Rightarrow> int \<Rightarrow> 'a Buffer option" where
  "NewBuffer zero capacity =
     (if capacity < 0 then None
      else Some \<lparr>bf_data = replicate (nat capacity) zero, bf_head = 0, bf_size = 0, bf_cap = nat capacity\<rparr>)"

definition Push :: "'a \<Rightarrow> 'a Buffer \<Rightarrow> 'a Buffer option" where
  "Push item b =
     (if bf_head b < length (bf_data b)
      then Some (b\<lparr>bf_data := (bf_data b)[bf_head b := item], bf_head := (bf_head b + 1) mod bf_cap b,
                   bf_size := (if bf_size b < bf_cap b then bf_size b + 1 else bf_size b)\<rparr>)
      else None)"

definition bf_start :: "'a Buffer \<Rightarrow> nat" where
  "bf_start b = (bf_head b + bf_cap b - bf_size b) mod bf_cap b"

definition Buffer_Snapshot :: "'a Buffer \<Rightarrow> 'a list" where
  "Buffer_Snapshot b =
     (if bf_size b = 0 then []
      else map (\<lambda>i. bf_data b ! ((bf_start b + i) mod bf_cap b)) [0..<bf_size b])"

definition Clear :: "'a Buffer \<Rightarrow> 'a Buffer" where
  "Clear b = b\<lparr>bf_head := 0, bf_size := 0\<rparr>"

section \<open>Invariant\<close>

definition buffer_wf :: "'a Buffer \<Rightarrow> bool" where
  "buffer_wf b \<longleftrightarrow> 0 < bf_cap b \<and> length (bf_data b) = bf_cap b \<and> bf_head b < bf_cap b \<and> bf_size b \<le> bf_cap b"

lemma NewBuffer_wf: "0 < c \<Longrightarrow> \<exists>b. NewBuffer z c = Some b \<and> buffer_wf b \<and> Buffer_Snapshot b = [] \<and> bf_cap b = nat c"
  by (simp add: NewBuffer_def buffer_wf_def Buffer_Snapshot_def)

lemma Clear_wf: "buffer_wf b \<Longrightarrow> buffer_wf (Clear b) \<and> Buffer_Snapshot (Clear b) = []"
  by (simp add: Clear_def buffer_wf_def Buffer_Snapshot_def)

text \<open>A buffer of capacity zero accepts nothing: the first push panics.\<close>

lemma Push_cap_zero: "NewBuffer z 0 = Some b \<Longrightarrow> Push x b = None"
  by (auto simp: NewBuffer_def Push_def)

definition push_buffer :: "'a \<Rightarrow> 'a Buffer \<Rightarrow> 'a Buffer" where
  "push_buffer x b = (case Push x b of Some b' \<Rightarrow> b' | None \<Rightarrow> b)"

lemma Push_Some: "buffer_wf b \<Longrightarrow> Push x b = Some (push_buffer x b)"
  by (simp add: buffer_wf_def push_buffer_def Push_def)

lemma push_buffer_wf: "buffer_wf b \<Longrightarrow> buffer_wf (push_buffer x b) \<and> bf_cap (push_buffer x b) = bf_cap b"
  by (simp add: buffer_wf_def push_buffer_def Push_def)

section \<open>Ring arithmetic\<close>

text \<open>Slot \<open>i\<close> of a ring read from \<open>start\<close>, and the next slot to write.\<close>

lemma ring_slot_fresh:
  fixes h s i c :: nat
  assumes "h < c" "s < c" "i < s"
  shows "((h + c - s) mod c + i) mod c \<noteq> h"
proof -
  have "((h + c - s) mod c + i) mod c = (h + c - (s - i)) mod c"
    using assms by (simp add: mod_add_left_eq)
  also have "\<dots> \<noteq> h"
    using assms by (cases "h < s - i") (auto simp: mod_if)
  finally show ?thesis .
qed

lemma ring_slot_last:
  fixes h s c :: nat
  assumes "h < c" "s \<le> c"
  shows "((h + c - s) mod c + s) mod c = h"
  using assms by (simp add: mod_add_left_eq)

lemma ring_shift:
  fixes h i c :: nat
  assumes "h < c"
  shows "((h + 1) mod c + i) mod c = (h + (i + 1)) mod c"
  by (simp add: mod_add_left_eq)

lemma ring_start_keeps:
  fixes h s c :: nat
  assumes "h < c" "s < c"
  shows "((h + 1) mod c + c - (s + 1)) mod c = (h + c - s) mod c"
proof (cases "h + 1 = c")
  case True
  then have "h + c - s = c + (c - (s + 1))" using assms(2) by simp
  then show ?thesis using True assms(2) by (simp add: mod_if)
next
  case False
  then show ?thesis using assms by simp
qed

lemma push_not_full:
  assumes "buffer_wf b" "bf_size b < bf_cap b"
  shows "Buffer_Snapshot (push_buffer x b) = Buffer_Snapshot b @ [x]"
proof -
  let ?b = "push_buffer x b"
  have b: "bf_size ?b = bf_size b + 1" "bf_cap ?b = bf_cap b" "bf_data ?b = (bf_data b)[bf_head b := x]"
    "bf_head ?b = (bf_head b + 1) mod bf_cap b"
    using assms by (simp_all add: buffer_wf_def push_buffer_def Push_def)
  have w: "bf_head b < bf_cap b" "length (bf_data b) = bf_cap b" using assms by (simp_all add: buffer_wf_def)
  have st: "bf_start ?b = bf_start b"
    using ring_start_keeps [OF w(1) assms(2)] by (simp add: bf_start_def b)
  have "map (\<lambda>i. bf_data ?b ! ((bf_start b + i) mod bf_cap b)) [0..<bf_size b]
      = map (\<lambda>i. bf_data b ! ((bf_start b + i) mod bf_cap b)) [0..<bf_size b]"
    unfolding b bf_start_def
    by (intro map_cong refl nth_list_update_neq not_sym [OF ring_slot_fresh [OF w(1) assms(2)]]) simp
  moreover have "bf_data ?b ! ((bf_start b + bf_size b) mod bf_cap b) = x"
    using ring_slot_last [OF w(1), of "bf_size b"] assms(2) w by (simp add: b bf_start_def)
  ultimately show ?thesis by (simp add: Buffer_Snapshot_def st b)
qed

lemma push_full:
  assumes "buffer_wf b" "bf_size b = bf_cap b"
  shows "Buffer_Snapshot (push_buffer x b) = tl (Buffer_Snapshot b) @ [x]"
proof -
  let ?b = "push_buffer x b" and ?c = "bf_cap b"
  have w: "0 < ?c" "bf_head b < ?c" "length (bf_data b) = ?c" using assms by (simp_all add: buffer_wf_def)
  have b: "bf_size ?b = ?c" "bf_cap ?b = ?c" "bf_data ?b = (bf_data b)[bf_head b := x]"
    "bf_head ?b = (bf_head b + 1) mod ?c"
    using assms by (simp_all add: buffer_wf_def push_buffer_def Push_def)
  have st: "bf_start b = bf_head b" "bf_start ?b = (bf_head b + 1) mod ?c"
    using w assms(2) by (simp_all add: bf_start_def b)
  have nth: "bf_data ?b ! ((bf_start ?b + i) mod ?c) =
      (if i = ?c - 1 then x else bf_data b ! ((bf_head b + (i + 1)) mod ?c))" if "i < ?c" for i
  proof -
    have j: "(bf_start ?b + i) mod ?c = (bf_head b + (i + 1)) mod ?c" by (simp only: st ring_shift [OF w(2)])
    have "(bf_head b + (i + 1)) mod ?c = bf_head b \<longleftrightarrow> i = ?c - 1"
      using w that by (cases "bf_head b + (i + 1) < ?c") (auto simp: mod_if)
    then show ?thesis unfolding j using w by (simp only: b nth_list_update nth_list_update_neq split: if_split) metis
  qed
  have S: "Buffer_Snapshot b = map (\<lambda>i. bf_data b ! ((bf_head b + i) mod ?c)) [0..<?c]"
    and S': "Buffer_Snapshot ?b = map (\<lambda>i. bf_data ?b ! ((bf_start ?b + i) mod ?c)) [0..<?c]"
    using w(1) by (simp_all only: Buffer_Snapshot_def assms(2) b st(1) if_False not_less_zero less_not_refl2)
  show ?thesis
  proof (rule nth_equalityI)
    fix i assume "i < length (Buffer_Snapshot ?b)"
    then have i: "i < ?c" by (simp add: S')
    then have "Buffer_Snapshot ?b ! i = (if i = ?c - 1 then x else bf_data b ! ((bf_head b + (i + 1)) mod ?c))"
      by (simp only: S' nth nth_map_upt diff_zero add_0)
    also have "\<dots> = (tl (Buffer_Snapshot b) @ [x]) ! i" using i by (auto simp: S nth_append nth_tl)
    finally show "Buffer_Snapshot ?b ! i = (tl (Buffer_Snapshot b) @ [x]) ! i" .
  qed (use w(1) in \<open>simp add: S S'\<close>)
qed

lemma Buffer_Snapshot_length: "length (Buffer_Snapshot b) = bf_size b"
  by (simp add: Buffer_Snapshot_def)

lemma push_contents_buffer:
  assumes "buffer_wf b"
  shows "Buffer_Snapshot (push_buffer x b) = lastn (bf_cap b) (Buffer_Snapshot b @ [x])"
proof (cases "bf_size b < bf_cap b")
  case True
  then show ?thesis using assms by (simp add: push_not_full lastn_all Buffer_Snapshot_length)
next
  case False
  then have f: "bf_size b = bf_cap b" "0 < bf_cap b" using assms by (simp_all add: buffer_wf_def)
  then have "Buffer_Snapshot b \<noteq> []" by (metis Buffer_Snapshot_length less_numeral_extra(3) list.size(3))
  then show ?thesis
    using f assms by (simp add: push_full lastn_def Buffer_Snapshot_length) (simp add: drop_Suc)
qed

interpretation ts: bounded_log push_buffer Buffer_Snapshot bf_cap buffer_wf
  by unfold_locales
    (simp_all add: push_contents_buffer push_buffer_wf Buffer_Snapshot_length, simp_all add: buffer_wf_def)

section \<open>Runs of pushes\<close>

fun push_all :: "'a list \<Rightarrow> 'a Buffer \<Rightarrow> 'a Buffer option" where
  "push_all [] b = Some b"
| "push_all (x # xs) b = (case Push x b of None \<Rightarrow> None | Some b' \<Rightarrow> push_all xs b')"

lemma push_all_fold: "buffer_wf b \<Longrightarrow> push_all xs b = Some (fold push_buffer xs b)"
  by (induction xs arbitrary: b) (simp_all add: Push_Some push_buffer_wf)

end
