(* ===== verification/ProcessGraph.thy ===== *)
theory ProcessGraph
  imports TimeSeries GoTime GoFloat "HOL-Library.Word"
begin

text \<open>
  The process graph of \<open>pkg/graph/model.go\<close> over the event envelope of
  \<open>pkg/event/envelope.go\<close>: forks, execs, exits and correlated events, eviction of the oldest
  node, the ancestry walk and the snapshot the terminal reads. Go maps are association
  lists; the iteration order of a map is the order of the list, and \<open>sort.Slice\<close>, which is
  free in the order of equal elements, is the stable \<open>sort_key\<close>. A node whose key was
  evicted is unreachable, so writing through a pointer to it changes nothing.
\<close>

section \<open>Envelope\<close>

text \<open>The dynamic types the sources store in \<open>Metadata\<close>.\<close>

datatype any = AnyUint32 "32 word" | AnyInt "64 word" | AnyUint64 "64 word" | AnyFloat64 f64
  | AnyString string | AnyBool bool | AnyUint16 "16 word" | AnyInt32 "32 word" | AnyStrings "string list"

type_synonym EventType = string

definition EventTypeFork :: EventType where "EventTypeFork = ''process_fork''"
definition EventTypeExec :: EventType where "EventTypeExec = ''exec''"
definition EventTypeDNSQuery :: EventType where "EventTypeDNSQuery = ''dns_query''"
definition EventTypePrivEsc :: EventType where "EventTypePrivEsc = ''privilege_escalation''"
definition EventTypeEscapeIndicator :: EventType where "EventTypeEscapeIndicator = ''escape_indicator''"

record EventEnvelope =
  ee_Timestamp :: instant
  ee_CgroupID :: "64 word"
  ee_ContainerName :: string
  ee_PID :: "32 word"
  ee_PPID :: "32 word"
  ee_Process :: string
  ee_ParentProcess :: string
  ee_EventType :: EventType
  ee_AncestryTruncated :: bool
  ee_Metadata :: "(string \<times> any) list"

definition MaxAncestors :: nat where "MaxAncestors = 8"
definition EventRingCap :: nat where "EventRingCap = 32"
definition DefaultMaxNodes :: int where "DefaultMaxNodes = 8192"

record NodeKey =
  nk_CgroupID :: "64 word"
  nk_PID :: "32 word"

record ProcessNode =
  pn_Key :: NodeKey
  pn_PPID :: "32 word"
  pn_Comm :: string
  pn_ExePath :: string
  pn_ContainerName :: string
  pn_ForkTime :: instant
  pn_ExecTime :: instant
  pn_SID :: "32 word"
  pn_PGID :: "32 word"
  pn_IsAlive :: bool
  pn_ExitCode :: int
  pn_events :: "EventEnvelope option list"
  pn_evHead :: nat
  pn_evCount :: nat
  pn_seq :: "64 word"

text \<open>The zero value of a node with its key and sequence number set.\<close>

definition zero_node :: "NodeKey \<Rightarrow> 64 word \<Rightarrow> ProcessNode" where
  "zero_node key s =
     \<lparr>pn_Key = key, pn_PPID = 0, pn_Comm = [], pn_ExePath = [], pn_ContainerName = [], pn_ForkTime = zeroTime,
      pn_ExecTime = zeroTime, pn_SID = 0, pn_PGID = 0, pn_IsAlive = False, pn_ExitCode = 0,
      pn_events = replicate EventRingCap None, pn_evHead = 0, pn_evCount = 0, pn_seq = s\<rparr>"

definition EventRing :: "ProcessNode \<Rightarrow> EventEnvelope option list" where
  "EventRing n =
     (if pn_evCount n = 0 then []
      else if pn_evCount n < EventRingCap then take (pn_evCount n) (pn_events n)
      else map (\<lambda>i. pn_events n ! ((pn_evHead n + i) mod EventRingCap)) [0..<EventRingCap])"

definition pushEvent :: "EventEnvelope option \<Rightarrow> ProcessNode \<Rightarrow> ProcessNode" where
  "pushEvent ev n =
     n\<lparr>pn_events := (pn_events n)[pn_evHead n := ev], pn_evHead := (pn_evHead n + 1) mod EventRingCap,
       pn_evCount := (if pn_evCount n < EventRingCap then pn_evCount n + 1 else pn_evCount n)\<rparr>"

section \<open>Graph\<close>

record ProcessGraph =
  pg_nodes :: "(NodeKey \<times> ProcessNode) list"
  pg_children :: "(NodeKey \<times> NodeKey list) list"
  pg_sessions :: "(32 word \<times> NodeKey list) list"
  pg_maxNodes :: int
  pg_seq :: "64 word"

definition New_graph :: "int \<Rightarrow> ProcessGraph" where
  "New_graph maxNodes =
     \<lparr>pg_nodes = [], pg_children = [], pg_sessions = [],
      pg_maxNodes = (if maxNodes \<le> 0 then DefaultMaxNodes else maxNodes), pg_seq = 0\<rparr>"

definition keys_at :: "('k \<times> NodeKey list) list \<Rightarrow> 'k \<Rightarrow> NodeKey list" where
  "keys_at m k = (case map_of m k of Some ks \<Rightarrow> ks | None \<Rightarrow> [])"

fun containsKey :: "NodeKey list \<Rightarrow> NodeKey \<Rightarrow> bool" where
  "containsKey [] k = False"
| "containsKey (x # xs) k = (if x = k then True else containsKey xs k)"

fun removeKey :: "NodeKey list \<Rightarrow> NodeKey \<Rightarrow> NodeKey list" where
  "removeKey [] k = []"
| "removeKey (x # xs) k = (if x \<noteq> k then x # removeKey xs k else removeKey xs k)"

text \<open>Conversion of a \<open>float64\<close> in the range of \<open>int64\<close> keeps the low bits of its integer part.\<close>

definition uint32Meta :: "(string \<times> any) list \<Rightarrow> string \<Rightarrow> 32 word option" where
  "uint32Meta md key =
     (case map_of md key of
        Some (AnyUint32 x) \<Rightarrow> Some x
      | Some (AnyInt x) \<Rightarrow> Some (ucast x)
      | Some (AnyUint64 x) \<Rightarrow> Some (ucast x)
      | Some (AnyFloat64 x) \<Rightarrow> Some (word_of_int (f64_trunc x))
      | _ \<Rightarrow> None)"

definition append_key :: "'k \<Rightarrow> NodeKey \<Rightarrow> ('k \<times> NodeKey list) list \<Rightarrow> ('k \<times> NodeKey list) list" where
  "append_key p k cs = (if \<not> containsKey (keys_at cs p) k then AList.update p (keys_at cs p @ [k]) cs else cs)"

fun find_oldest :: "NodeKey \<times> 64 word \<Rightarrow> (NodeKey \<times> ProcessNode) list \<Rightarrow> NodeKey \<times> 64 word" where
  "find_oldest best [] = best"
| "find_oldest best ((k, n) # ns) = find_oldest (if pn_seq n < snd best then (k, pn_seq n) else best) ns"

definition evictIfNeeded :: "ProcessGraph \<Rightarrow> ProcessGraph" where
  "evictIfNeeded g =
     (if int (length (pg_nodes g)) \<le> pg_maxNodes g then g
      else let oldest = fst (find_oldest (\<lparr>nk_CgroupID = 0, nk_PID = 0\<rparr>, - 1) (pg_nodes g));
               children = AList.delete oldest (map (\<lambda>(pk, ks). (pk, removeKey ks oldest)) (pg_children g));
               sessions = (case map_of (pg_nodes g) oldest of
                   Some n \<Rightarrow> if pn_SID n \<noteq> 0
                     then AList.update (pn_SID n) (removeKey (keys_at (pg_sessions g) (pn_SID n)) oldest) (pg_sessions g)
                     else pg_sessions g
                 | None \<Rightarrow> pg_sessions g)
           in g\<lparr>pg_children := children, pg_sessions := sessions, pg_nodes := AList.delete oldest (pg_nodes g)\<rparr>)"

definition insert_node :: "(64 word \<Rightarrow> ProcessNode) \<Rightarrow> NodeKey \<Rightarrow> ProcessGraph \<Rightarrow> ProcessGraph" where
  "insert_node mk key g = g\<lparr>pg_seq := pg_seq g + 1, pg_nodes := AList.update key (mk (pg_seq g + 1)) (pg_nodes g)\<rparr>"

definition update_node :: "NodeKey \<Rightarrow> (ProcessNode \<Rightarrow> ProcessNode) \<Rightarrow> ProcessGraph \<Rightarrow> ProcessGraph" where
  "update_node key f g =
     (case map_of (pg_nodes g) key of
        Some n \<Rightarrow> g\<lparr>pg_nodes := AList.update key (f n) (pg_nodes g)\<rparr> | None \<Rightarrow> g)"

definition add_session :: "32 word \<Rightarrow> NodeKey \<Rightarrow> ProcessGraph \<Rightarrow> ProcessGraph" where
  "add_session sid key g = g\<lparr>pg_sessions := append_key sid key (pg_sessions g)\<rparr>"

definition fork_parent :: "EventEnvelope \<Rightarrow> ProcessGraph \<Rightarrow> ProcessGraph" where
  "fork_parent env g =
     (let pk = \<lparr>nk_CgroupID = ee_CgroupID env, nk_PID = ee_PPID env\<rparr>
      in if map_of (pg_nodes g) pk = None \<and> ee_PPID env \<noteq> 0
         then evictIfNeeded (insert_node (\<lambda>s. (zero_node pk s)\<lparr>pn_Comm := ee_ParentProcess env,
                pn_ContainerName := ee_ContainerName env, pn_IsAlive := True\<rparr>) pk g)
         else g)"

definition fork_child :: "EventEnvelope \<Rightarrow> ProcessGraph \<Rightarrow> ProcessGraph" where
  "fork_child env g =
     (let ck = \<lparr>nk_CgroupID = ee_CgroupID env, nk_PID = ee_PID env\<rparr>;
          g1 = (if map_of (pg_nodes g) ck = None then evictIfNeeded (insert_node (zero_node ck) ck g) else g)
      in update_node ck (\<lambda>n. n\<lparr>pn_PPID := ee_PPID env, pn_Comm := ee_Process env,
           pn_ContainerName := ee_ContainerName env, pn_ForkTime := ee_Timestamp env, pn_IsAlive := True\<rparr>) g1)"

definition AddFork :: "EventEnvelope \<Rightarrow> ProcessGraph \<Rightarrow> ProcessGraph" where
  "AddFork env g =
     (let ck = \<lparr>nk_CgroupID = ee_CgroupID env, nk_PID = ee_PID env\<rparr>;
          pk = \<lparr>nk_CgroupID = ee_CgroupID env, nk_PID = ee_PPID env\<rparr>;
          g1 = fork_child env (fork_parent env g);
          g2 = g1\<lparr>pg_children := append_key pk ck (pg_children g1)\<rparr>;
          g3 = (case uint32Meta (ee_Metadata env) ''sid'' of
                  Some sid \<Rightarrow> if sid \<noteq> 0 then add_session sid ck (update_node ck (\<lambda>n. n\<lparr>pn_SID := sid\<rparr>) g2) else g2
                | None \<Rightarrow> g2)
      in case uint32Meta (ee_Metadata env) ''pgid'' of
           Some pgid \<Rightarrow> update_node ck (\<lambda>n. n\<lparr>pn_PGID := pgid\<rparr>) g3 | None \<Rightarrow> g3)"

definition exec_node :: "EventEnvelope \<Rightarrow> ProcessGraph \<Rightarrow> ProcessGraph" where
  "exec_node env g =
     (let key = \<lparr>nk_CgroupID = ee_CgroupID env, nk_PID = ee_PID env\<rparr>;
          pk = \<lparr>nk_CgroupID = ee_CgroupID env, nk_PID = ee_PPID env\<rparr>
      in if map_of (pg_nodes g) key = None
         then let g1 = insert_node (\<lambda>s. (zero_node key s)\<lparr>pn_PPID := ee_PPID env, pn_IsAlive := True\<rparr>) key g
              in evictIfNeeded (g1\<lparr>pg_children := append_key pk key (pg_children g1)\<rparr>)
         else g)"

definition exec_enrich :: "EventEnvelope \<Rightarrow> ProcessNode \<Rightarrow> ProcessNode" where
  "exec_enrich env n =
     (let n1 = n\<lparr>pn_Comm := ee_Process env, pn_ExecTime := ee_Timestamp env\<rparr>;
          n2 = (if ee_ContainerName env \<noteq> [] then n1\<lparr>pn_ContainerName := ee_ContainerName env\<rparr> else n1)
      in case map_of (ee_Metadata env) ''full_path'' of
           Some (AnyString path) \<Rightarrow> if path \<noteq> [] then n2\<lparr>pn_ExePath := path\<rparr> else n2
         | _ \<Rightarrow> n2)"

definition AddExec :: "EventEnvelope \<Rightarrow> ProcessGraph \<Rightarrow> ProcessGraph" where
  "AddExec env g =
     (let key = \<lparr>nk_CgroupID = ee_CgroupID env, nk_PID = ee_PID env\<rparr>;
          g1 = update_node key (exec_enrich env) (exec_node env g)
      in case uint32Meta (ee_Metadata env) ''sid'' of
           Some sid \<Rightarrow>
             if sid \<noteq> 0
             then (case map_of (pg_nodes g1) key of
                     Some n \<Rightarrow> if pn_SID n = 0 then add_session sid key (update_node key (\<lambda>n. n\<lparr>pn_SID := sid\<rparr>) g1) else g1
                   | None \<Rightarrow> g1)
             else g1
         | None \<Rightarrow> g1)"

definition MarkExit :: "64 word \<Rightarrow> 32 word \<Rightarrow> int \<Rightarrow> ProcessGraph \<Rightarrow> ProcessGraph" where
  "MarkExit cgroupID pid exitCode g =
     update_node \<lparr>nk_CgroupID = cgroupID, nk_PID = pid\<rparr> (\<lambda>n. n\<lparr>pn_IsAlive := False, pn_ExitCode := exitCode\<rparr>) g"

definition CorrelateEvent :: "64 word \<Rightarrow> 32 word \<Rightarrow> EventEnvelope option \<Rightarrow> ProcessGraph \<Rightarrow> ProcessGraph" where
  "CorrelateEvent cgroupID pid ev g = update_node \<lparr>nk_CgroupID = cgroupID, nk_PID = pid\<rparr> (pushEvent ev) g"

section \<open>Queries\<close>

definition Lookup :: "ProcessGraph \<Rightarrow> 64 word \<Rightarrow> 32 word \<Rightarrow> ProcessNode option" where
  "Lookup g cgroupID pid = map_of (pg_nodes g) \<lparr>nk_CgroupID = cgroupID, nk_PID = pid\<rparr>"

text \<open>The walk, nearest first; \<open>depth\<close> levels are left and \<open>parent\<close> reads a node's parent PID.\<close>

fun ancestor_walk :: "('n \<Rightarrow> 32 word) \<Rightarrow> (NodeKey \<times> 'n) list \<Rightarrow> nat \<Rightarrow> NodeKey \<Rightarrow> NodeKey list \<Rightarrow> 'n list" where
  "ancestor_walk ppid nodes 0 key visited = []"
| "ancestor_walk ppid nodes (Suc depth) key visited =
     (case map_of nodes key of
        None \<Rightarrow> []
      | Some n \<Rightarrow>
         if key \<in> set visited then []
         else n # (if ppid n = 0 \<or> ppid n = 1 \<or> ppid n = nk_PID key then []
                   else ancestor_walk ppid nodes depth \<lparr>nk_CgroupID = nk_CgroupID key, nk_PID = ppid n\<rparr>
                          (key # visited)))"

definition Graph_Ancestors :: "ProcessGraph \<Rightarrow> 64 word \<Rightarrow> 32 word \<Rightarrow> int \<Rightarrow> ProcessNode list \<times> bool" where
  "Graph_Ancestors g cgroupID pid maxDepth =
     (let d = (if maxDepth \<le> 0 then int MaxAncestors else maxDepth);
          chain = ancestor_walk pn_PPID (pg_nodes g) (nat d) \<lparr>nk_CgroupID = cgroupID, nk_PID = pid\<rparr> []
      in (rev chain, d \<le> int (length chain)))"

definition nodes_of_keys :: "(NodeKey \<times> 'n) list \<Rightarrow> NodeKey list \<Rightarrow> 'n list" where
  "nodes_of_keys nodes ks = List.map_filter (map_of nodes) ks"

definition Graph_Children :: "ProcessGraph \<Rightarrow> 64 word \<Rightarrow> 32 word \<Rightarrow> ProcessNode list" where
  "Graph_Children g cgroupID pid =
     nodes_of_keys (pg_nodes g) (keys_at (pg_children g) \<lparr>nk_CgroupID = cgroupID, nk_PID = pid\<rparr>)"

definition Session :: "ProcessGraph \<Rightarrow> 32 word \<Rightarrow> ProcessNode list" where
  "Session g sid = nodes_of_keys (pg_nodes g) (keys_at (pg_sessions g) sid)"

definition is_root :: "('n \<Rightarrow> 32 word) \<Rightarrow> (NodeKey \<times> 'n) list \<Rightarrow> NodeKey \<Rightarrow> 'n \<Rightarrow> bool" where
  "is_root ppid nodes key n \<longleftrightarrow> ppid n = 0 \<or> ppid n = 1
     \<or> map_of nodes \<lparr>nk_CgroupID = nk_CgroupID key, nk_PID = ppid n\<rparr> = None"

definition Roots :: "ProcessGraph \<Rightarrow> 64 word \<Rightarrow> ProcessNode list" where
  "Roots g cgroupID =
     sort_key pn_ForkTime (map snd (filter (\<lambda>(key, n).
       \<not> (cgroupID \<noteq> 0 \<and> nk_CgroupID key \<noteq> cgroupID) \<and> is_root pn_PPID (pg_nodes g) key n) (pg_nodes g)))"

definition NodeCount :: "ProcessGraph \<Rightarrow> int" where
  "NodeCount g = int (length (pg_nodes g))"

section \<open>Snapshots\<close>

record SnapshotNode =
  sn_Key :: NodeKey
  sn_PPID :: "32 word"
  sn_Comm :: string
  sn_ExePath :: string
  sn_ContainerName :: string
  sn_ForkTime :: instant
  sn_ExecTime :: instant
  sn_SID :: "32 word"
  sn_PGID :: "32 word"
  sn_IsAlive :: bool
  sn_ExitCode :: int
  sn_Events :: "EventEnvelope option list"
  sn_Children :: "NodeKey list"

record GraphSnapshot =
  gs_Nodes :: "(NodeKey \<times> SnapshotNode) list"
  gs_Sessions :: "(32 word \<times> NodeKey list) list"
  gs_Roots :: "NodeKey list"
  gs_At :: instant

definition snapshot_node :: "ProcessGraph \<Rightarrow> NodeKey \<Rightarrow> ProcessNode \<Rightarrow> SnapshotNode" where
  "snapshot_node g key n =
     \<lparr>sn_Key = pn_Key n, sn_PPID = pn_PPID n, sn_Comm = pn_Comm n, sn_ExePath = pn_ExePath n,
      sn_ContainerName = pn_ContainerName n, sn_ForkTime = pn_ForkTime n, sn_ExecTime = pn_ExecTime n,
      sn_SID = pn_SID n, sn_PGID = pn_PGID n, sn_IsAlive = pn_IsAlive n, sn_ExitCode = pn_ExitCode n,
      sn_Events = EventRing n, sn_Children = keys_at (pg_children g) key\<rparr>"

definition fork_time_at :: "(NodeKey \<times> SnapshotNode) list \<Rightarrow> NodeKey \<Rightarrow> instant" where
  "fork_time_at nodes key = (case map_of nodes key of Some n \<Rightarrow> sn_ForkTime n | None \<Rightarrow> zeroTime)"

definition Graph_Snapshot :: "instant \<Rightarrow> ProcessGraph \<Rightarrow> GraphSnapshot" where
  "Graph_Snapshot now g =
     (let nodes = map (\<lambda>(key, n). (key, snapshot_node g key n)) (pg_nodes g)
      in \<lparr>gs_Nodes = nodes, gs_Sessions = pg_sessions g,
          gs_Roots = sort_key (fork_time_at nodes)
            (map fst (filter (\<lambda>(key, sn). is_root sn_PPID nodes key sn) nodes)),
          gs_At = now\<rparr>)"

definition Snapshot_Ancestors :: "GraphSnapshot \<Rightarrow> NodeKey \<Rightarrow> SnapshotNode list" where
  "Snapshot_Ancestors s key = rev (ancestor_walk sn_PPID (gs_Nodes s) MaxAncestors key [])"

definition Snapshot_Children :: "GraphSnapshot \<Rightarrow> NodeKey \<Rightarrow> SnapshotNode list" where
  "Snapshot_Children s key =
     (case map_of (gs_Nodes s) key of None \<Rightarrow> [] | Some n \<Rightarrow> nodes_of_keys (gs_Nodes s) (sn_Children n))"

definition group_add :: "SnapshotNode \<Rightarrow> (64 word \<times> SnapshotNode list) list \<Rightarrow> (64 word \<times> SnapshotNode list) list" where
  "group_add n m = (let c = nk_CgroupID (sn_Key n) in
     AList.update c ((case map_of m c of Some ns \<Rightarrow> ns | None \<Rightarrow> []) @ [n]) m)"

definition GroupByCgroup :: "GraphSnapshot \<Rightarrow> (64 word \<times> SnapshotNode list) list" where
  "GroupByCgroup s = fold group_add (map snd (gs_Nodes s)) []"

definition RootsForCgroup :: "GraphSnapshot \<Rightarrow> 64 word \<Rightarrow> SnapshotNode list" where
  "RootsForCgroup s cgroupID =
     nodes_of_keys (gs_Nodes s) (filter (\<lambda>key. nk_CgroupID key = cgroupID) (gs_Roots s))"

definition DisplayComm :: "SnapshotNode \<Rightarrow> string" where
  "DisplayComm n =
     (if sn_ExePath n \<noteq> [] then rev (takeWhile (\<lambda>c. c \<noteq> CHR ''/'') (rev (sn_ExePath n))) else sn_Comm n)"

section \<open>The event ring\<close>

definition node_ring :: "ProcessNode \<Rightarrow> EventEnvelope option Buffer" where
  "node_ring n = \<lparr>bf_data = pn_events n, bf_head = pn_evHead n, bf_size = pn_evCount n, bf_cap = EventRingCap\<rparr>"

definition ring_wf :: "ProcessNode \<Rightarrow> bool" where
  "ring_wf n \<longleftrightarrow> length (pn_events n) = EventRingCap \<and> pn_evHead n < EventRingCap \<and> pn_evCount n \<le> EventRingCap
     \<and> (pn_evCount n < EventRingCap \<longrightarrow> pn_evHead n = pn_evCount n)"

lemma ring_wf_zero: "ring_wf (zero_node k s)"
  by (simp add: ring_wf_def zero_node_def EventRingCap_def)

lemma ring_wf_buffer: "ring_wf n \<Longrightarrow> buffer_wf (node_ring n)"
  by (simp add: ring_wf_def buffer_wf_def node_ring_def EventRingCap_def)

lemma node_ring_push: "ring_wf n \<Longrightarrow> node_ring (pushEvent ev n) = push_buffer ev (node_ring n)"
  by (simp add: ring_wf_def node_ring_def pushEvent_def push_buffer_def Push_def)

lemma ring_wf_push: "ring_wf n \<Longrightarrow> ring_wf (pushEvent ev n)"
  by (auto simp: ring_wf_def pushEvent_def mod_if)

lemma EventRing_buffer: "ring_wf n \<Longrightarrow> EventRing n = Buffer_Snapshot (node_ring n)"
proof -
  assume w: "ring_wf n"
  show ?thesis
  proof (cases "pn_evCount n < EventRingCap")
    case True
    then have "take (pn_evCount n) (pn_events n) = map (\<lambda>i. pn_events n ! (i mod EventRingCap)) [0..<pn_evCount n]"
      using w by (intro nth_equalityI) (auto simp: ring_wf_def)
    then show ?thesis
      using True w by (simp add: EventRing_def Buffer_Snapshot_def node_ring_def bf_start_def ring_wf_def)
  next
    case False
    then show ?thesis
      using w by (auto simp: EventRing_def Buffer_Snapshot_def node_ring_def bf_start_def ring_wf_def)
  qed
qed

interpretation er: bounded_log pushEvent EventRing "\<lambda>_. EventRingCap" ring_wf
proof
  fix n :: ProcessNode and ev assume w: "ring_wf n"
  note b = ring_wf_buffer [OF w]
  show "EventRing (pushEvent ev n) = lastn EventRingCap (EventRing n @ [ev])"
    using push_contents_buffer [OF b, of ev] w
    by (simp add: EventRing_buffer ring_wf_push node_ring_push) (simp add: node_ring_def)
  show "ring_wf (pushEvent ev n)" by (rule ring_wf_push [OF w])
  show "length (EventRing n) \<le> EventRingCap"
    using w by (simp add: EventRing_buffer Buffer_Snapshot_length) (simp add: node_ring_def ring_wf_def)
qed (simp_all add: EventRingCap_def)

section \<open>Key lists\<close>

lemma containsKey_iff [simp]: "containsKey ks k \<longleftrightarrow> k \<in> set ks"
  by (induction ks) auto

lemma removeKey_filter [simp]: "removeKey ks k = filter (\<lambda>x. x \<noteq> k) ks"
  by (induction ks) auto

lemma keys_at_append: "keys_at (append_key p k cs) q = (if q = p \<and> k \<notin> set (keys_at cs p) then keys_at cs p @ [k] else keys_at cs q)"
  by (auto simp: keys_at_def append_key_def update_conv')

section \<open>Eviction\<close>

lemma length_delete_key: "distinct (map fst xs) \<Longrightarrow> (k, v) \<in> set xs \<Longrightarrow> length (AList.delete k xs) = length xs - 1"
proof (induction xs)
  case (Cons x xs)
  show ?case
  proof (cases "fst x = k")
    case True
    then have "k \<notin> fst ` set xs" using Cons.prems(1) by auto
    then show ?thesis using True by (cases x) (simp add: AList.delete_idem)
  next
    case False
    then have "(k, v) \<in> set xs" using Cons.prems(2) by auto
    then show ?thesis using False Cons by (cases xs) auto
  qed
qed simp

lemma find_oldest_le: "snd (find_oldest b ns) \<le> snd b"
proof (induction b ns rule: find_oldest.induct)
  case (2 best k n ns)
  then show ?case by (auto split: if_splits)
qed simp

lemma find_oldest_lower: "(k, n) \<in> set ns \<Longrightarrow> snd (find_oldest b ns) \<le> pn_seq n"
proof (induction b ns rule: find_oldest.induct)
  case (2 best k' n' ns)
  let ?b = "if pn_seq n' < snd best then (k', pn_seq n') else best"
  have "snd (find_oldest ?b ns) \<le> pn_seq n'" using find_oldest_le [of ?b ns] by (auto split: if_splits)
  then show ?case using 2 by auto
qed simp

lemma find_oldest_in:
  "find_oldest b ns = b \<or> (\<exists>n. (fst (find_oldest b ns), n) \<in> set ns \<and> pn_seq n = snd (find_oldest b ns))"
  by (induction b ns rule: find_oldest.induct) (auto split: if_splits)

text \<open>The invariant.\<close>

definition nodes_wf :: "ProcessGraph \<Rightarrow> bool" where
  "nodes_wf g \<longleftrightarrow> distinct (map fst (pg_nodes g)) \<and> inj_on pn_seq (snd ` set (pg_nodes g)) \<and> 0 < pg_maxNodes g
     \<and> (\<forall>(k, n) \<in> set (pg_nodes g). pn_Key n = k \<and> unat (pn_seq n) \<le> unat (pg_seq g) \<and> ring_wf n)"

definition pg_wf :: "ProcessGraph \<Rightarrow> bool" where
  "pg_wf g \<longleftrightarrow> nodes_wf g \<and> NodeCount g \<le> pg_maxNodes g \<and> (\<forall>p. distinct (keys_at (pg_children g) p))"

lemma pg_wf_New: "pg_wf (New_graph m)"
  by (auto simp: pg_wf_def nodes_wf_def NodeCount_def New_graph_def DefaultMaxNodes_def keys_at_def)

lemma find_oldest_min:
  assumes "nodes_wf g" "pg_maxNodes g < NodeCount g"
  shows "\<exists>n. (fst (find_oldest (k0, - 1) (pg_nodes g)), n) \<in> set (pg_nodes g)
    \<and> (\<forall>(k, m) \<in> set (pg_nodes g). pn_seq n \<le> pn_seq m)"
proof -
  let ?r = "find_oldest (k0, - 1) (pg_nodes g)"
  have w: "distinct (map fst (pg_nodes g))" "inj_on pn_seq (snd ` set (pg_nodes g))" "\<forall>(k, n) \<in> set (pg_nodes g). pn_Key n = k"
    using assms(1) by (auto simp: nodes_wf_def)
  have "2 \<le> length (pg_nodes g)" using assms by (simp add: nodes_wf_def NodeCount_def)
  then obtain k1 n1 k2 n2 ns where ns: "pg_nodes g = (k1, n1) # (k2, n2) # ns"
    by (metis Suc_le_length_iff numeral_2_eq_2 surj_pair)
  then have "n1 \<noteq> n2" using w(1,3) by auto
  then have "pn_seq n1 \<noteq> pn_seq n2" using w(2) by (auto simp: ns inj_on_def)
  then have lt: "snd ?r \<noteq> - 1"
    using find_oldest_lower [of k1 n1 "pg_nodes g" "(k0, - 1)"] find_oldest_lower [of k2 n2 "pg_nodes g" "(k0, - 1)"]
    by (auto simp: ns word_order.extremum_unique)
  then have "?r \<noteq> (k0, - 1)" by auto
  then obtain n where "(fst ?r, n) \<in> set (pg_nodes g)" "pn_seq n = snd ?r"
    using find_oldest_in [of "(k0, - 1)" "pg_nodes g"] by auto
  then show ?thesis using find_oldest_lower [of _ _ "pg_nodes g" "(k0, - 1)"] by auto
qed

text \<open>An eviction removes exactly one node, the one inserted first, and every edge to it.\<close>

lemma evictIfNeeded_spec:
  assumes "nodes_wf g" "pg_maxNodes g < NodeCount g"
  shows "\<exists>k n. map_of (pg_nodes g) k = Some n \<and> (\<forall>(k', m) \<in> set (pg_nodes g). k' \<noteq> k \<longrightarrow> pn_seq n < pn_seq m)
    \<and> pg_nodes (evictIfNeeded g) = AList.delete k (pg_nodes g)
    \<and> NodeCount (evictIfNeeded g) = NodeCount g - 1
    \<and> (\<forall>p. keys_at (pg_children (evictIfNeeded g)) p = (if p = k then [] else filter (\<lambda>x. x \<noteq> k) (keys_at (pg_children g) p)))"
proof -
  let ?k = "fst (find_oldest (\<lparr>nk_CgroupID = 0, nk_PID = 0\<rparr>, - 1) (pg_nodes g))"
  obtain n where n: "(?k, n) \<in> set (pg_nodes g)" and min: "\<forall>(k, m) \<in> set (pg_nodes g). pn_seq n \<le> pn_seq m"
    using find_oldest_min [OF assms] by blast
  have w: "distinct (map fst (pg_nodes g))" "inj_on pn_seq (snd ` set (pg_nodes g))" "\<forall>(k, n) \<in> set (pg_nodes g). pn_Key n = k"
    using assms(1) by (auto simp: nodes_wf_def)
  have look: "map_of (pg_nodes g) ?k = Some n" using n w(1) by simp
  have strict: "pn_seq n < pn_seq m" if "(k', m) \<in> set (pg_nodes g)" "k' \<noteq> ?k" for k' m
  proof -
    have "pn_Key n = ?k" "pn_Key m = k'" using w(3) n that(1) by auto
    then have "n \<noteq> m" using that(2) by auto
    then have "pn_seq n \<noteq> pn_seq m" using w(2) n that(1) by (metis imageI inj_onD snd_conv)
    then show ?thesis using min that(1) by (auto simp: order_less_le)
  qed
  have ev: "\<not> int (length (pg_nodes g)) \<le> pg_maxNodes g" using assms(2) by (simp add: NodeCount_def)
  have nodes: "pg_nodes (evictIfNeeded g) = AList.delete ?k (pg_nodes g)"
    using ev by (simp add: evictIfNeeded_def Let_def)
  have len: "length (AList.delete ?k (pg_nodes g)) = length (pg_nodes g) - 1"
    using length_delete_key [OF w(1) n] .
  have "pg_children (evictIfNeeded g) = AList.delete ?k (map (\<lambda>(pk, ks). (pk, removeKey ks ?k)) (pg_children g))"
    using ev by (simp add: evictIfNeeded_def Let_def)
  then have ch: "keys_at (pg_children (evictIfNeeded g)) p = (if p = ?k then [] else filter (\<lambda>x. x \<noteq> ?k) (keys_at (pg_children g) p))" for p
    by (simp add: keys_at_def delete_conv' map_of_map split: option.splits)
  have "0 < length (pg_nodes g)" using n by (metis length_pos_if_in_set)
  then have "NodeCount (evictIfNeeded g) = NodeCount g - 1" by (simp add: NodeCount_def nodes len of_nat_diff Suc_le_eq)
  then show ?thesis using look strict nodes ch by blast
qed

lemma nodes_wf_alt:
  "nodes_wf g \<longleftrightarrow> distinct (map fst (pg_nodes g)) \<and> 0 < pg_maxNodes g
     \<and> (\<forall>k n. map_of (pg_nodes g) k = Some n \<longrightarrow> pn_Key n = k \<and> unat (pn_seq n) \<le> unat (pg_seq g) \<and> ring_wf n)
     \<and> (\<forall>k k' n n'. map_of (pg_nodes g) k = Some n \<and> map_of (pg_nodes g) k' = Some n' \<and> pn_seq n = pn_seq n' \<longrightarrow> k = k')"
    (is "_ \<longleftrightarrow> ?d \<and> ?p \<and> ?e \<and> ?i")
proof (cases ?d)
  case True
  note m = map_of_eq_Some_iff [OF True]
  show ?thesis
  proof
    assume w: "nodes_wf g"
    have "?i"
      unfolding m
    proof (intro allI impI)
      fix k k' n n'
      assume a: "(k, n) \<in> set (pg_nodes g) \<and> (k', n') \<in> set (pg_nodes g) \<and> pn_seq n = pn_seq n'"
      then have "n \<in> snd ` set (pg_nodes g)" "n' \<in> snd ` set (pg_nodes g)" by force+
      then have "n = n'" using w a by (auto simp: nodes_wf_def dest: inj_onD)
      moreover have "pn_Key n = k" "pn_Key n' = k'" using w a by (auto simp: nodes_wf_def)
      ultimately show "k = k'" by simp
    qed
    then show "?d \<and> ?p \<and> ?e \<and> ?i" using w unfolding m by (auto simp: nodes_wf_def)
  next
    assume r: "?d \<and> ?p \<and> ?e \<and> ?i"
    then have "inj_on pn_seq (snd ` set (pg_nodes g))" unfolding m by (auto simp: inj_on_def) (metis True eq_key_imp_eq_value)
    then show "nodes_wf g" using r unfolding m by (auto simp: nodes_wf_def)
  qed
qed (simp add: nodes_wf_def)

lemma update_absent: "map_of xs k = None \<Longrightarrow> AList.update k v xs = xs @ [(k, v)]"
  by (induction xs) (auto split: if_splits)

lemma insert_node_wf:
  assumes "nodes_wf g" "unat (pg_seq g) < 2 ^ 64 - 1" "map_of (pg_nodes g) key = None"
    and mk: "\<And>s. pn_Key (mk s) = key \<and> pn_seq (mk s) = s \<and> ring_wf (mk s)"
  shows "nodes_wf (insert_node mk key g)" "NodeCount (insert_node mk key g) = NodeCount g + 1"
    and "unat (pg_seq (insert_node mk key g)) = unat (pg_seq g) + 1"
    and "map_of (pg_nodes (insert_node mk key g)) = (map_of (pg_nodes g))(key \<mapsto> mk (pg_seq g + 1))"
proof -
  have u: "unat (pg_seq g + 1) = unat (pg_seq g) + 1"
    using assms(2) by (simp add: unat_word_ariths)
  show "NodeCount (insert_node mk key g) = NodeCount g + 1"
    by (simp add: NodeCount_def insert_node_def update_absent assms(3))
  show "unat (pg_seq (insert_node mk key g)) = unat (pg_seq g) + 1" by (simp add: insert_node_def u)
  show up: "map_of (pg_nodes (insert_node mk key g)) = (map_of (pg_nodes g))(key \<mapsto> mk (pg_seq g + 1))"
    by (simp add: insert_node_def update_conv')
  have old: "pn_seq n \<noteq> pg_seq g + 1" if "map_of (pg_nodes g) k = Some n" for k n
    using assms(1) that u unfolding nodes_wf_alt by fastforce
  have d: "distinct (map fst (pg_nodes (insert_node mk key g)))"
    using assms(1) by (simp add: insert_node_def distinct_update nodes_wf_def)
  have "pn_Key n = k \<and> unat (pn_seq n) \<le> unat (pg_seq (insert_node mk key g)) \<and> ring_wf n"
    if "map_of (pg_nodes (insert_node mk key g)) k = Some n" for k n
    using that assms(1) mk u unfolding up nodes_wf_alt by (fastforce simp: insert_node_def split: if_splits)
  moreover have "k = k'" if "map_of (pg_nodes (insert_node mk key g)) k = Some n"
    "map_of (pg_nodes (insert_node mk key g)) k' = Some n'" "pn_seq n = pn_seq n'" for k k' n n'
    using that assms(1) mk old unfolding up nodes_wf_alt by (metis fun_upd_apply option.inject)
  moreover have "0 < pg_maxNodes (insert_node mk key g)" using assms(1) by (simp add: insert_node_def nodes_wf_def)
  ultimately show "nodes_wf (insert_node mk key g)" using d unfolding nodes_wf_alt by blast
qed

lemma update_node_frame [simp]:
  "pg_children (update_node k f g) = pg_children g" "pg_seq (update_node k f g) = pg_seq g"
  "pg_maxNodes (update_node k f g) = pg_maxNodes g" "pg_sessions (update_node k f g) = pg_sessions g"
  by (simp_all add: update_node_def split: option.splits)

lemma update_node_look:
  "map_of (pg_nodes (update_node key f g)) k = (if k = key then map_option f (map_of (pg_nodes g) k) else map_of (pg_nodes g) k)"
  by (auto simp: update_node_def update_conv' split: option.splits)

lemma update_node_keys: "map fst (pg_nodes (update_node k f g)) = map fst (pg_nodes g)"
proof (cases "map_of (pg_nodes g) k")
  case (Some n)
  then have "k \<in> set (map fst (pg_nodes g))" by (metis list.set_map map_of_eq_None_iff option.distinct(1))
  then show ?thesis using Some by (simp add: update_node_def update_keys)
qed (simp add: update_node_def)

lemma update_node_wf:
  assumes "pg_wf g" "\<And>n. pn_Key (f n) = pn_Key n \<and> pn_seq (f n) = pn_seq n \<and> (ring_wf n \<longrightarrow> ring_wf (f n))"
  shows "pg_wf (update_node k f g)"
proof -
  have w: "nodes_wf g" using assms(1) by (simp add: pg_wf_def)
  have "nodes_wf (update_node k f g)"
    using w assms(2) unfolding nodes_wf_alt update_node_keys update_node_look update_node_frame
    by (smt (verit, best) map_option_eq_Some)
  moreover have "NodeCount (update_node k f g) = NodeCount g"
    using update_node_keys [of k f g] by (metis NodeCount_def length_map)
  ultimately show ?thesis using assms(1) by (simp add: pg_wf_def)
qed

lemma evict_wf:
  assumes "nodes_wf g" "NodeCount g \<le> pg_maxNodes g + 1" "\<forall>p. distinct (keys_at (pg_children g) p)"
  shows "pg_wf (evictIfNeeded g)" "pg_seq (evictIfNeeded g) = pg_seq g"
proof -
  show "pg_seq (evictIfNeeded g) = pg_seq g" by (simp add: evictIfNeeded_def Let_def)
  have mx: "pg_maxNodes (evictIfNeeded g) = pg_maxNodes g" by (simp add: evictIfNeeded_def Let_def)
  show "pg_wf (evictIfNeeded g)"
  proof (cases "NodeCount g \<le> pg_maxNodes g")
    case True
    then show ?thesis using assms by (simp add: pg_wf_def evictIfNeeded_def NodeCount_def)
  next
    case False
    then obtain k where k: "pg_nodes (evictIfNeeded g) = AList.delete k (pg_nodes g)"
      "NodeCount (evictIfNeeded g) = NodeCount g - 1"
      "\<forall>p. keys_at (pg_children (evictIfNeeded g)) p = (if p = k then [] else filter (\<lambda>x. x \<noteq> k) (keys_at (pg_children g) p))"
      using evictIfNeeded_spec [OF assms(1)] by (auto simp: not_le)
    have "nodes_wf (evictIfNeeded g)"
      using assms(1) unfolding nodes_wf_alt k(1) mx \<open>pg_seq (evictIfNeeded g) = pg_seq g\<close>
      by (auto simp: delete_conv' distinct_delete split: if_splits)
    then show ?thesis using assms(2,3) k(2,3) mx by (simp add: pg_wf_def)
  qed
qed

text \<open>A node just inserted survives the eviction it causes.\<close>

lemma evict_keeps_newest:
  assumes "nodes_wf g" "map_of (pg_nodes g) key = Some n" "unat (pn_seq n) = unat (pg_seq g)"
  shows "map_of (pg_nodes (evictIfNeeded g)) key = Some n"
proof (cases "NodeCount g \<le> pg_maxNodes g")
  case True
  then show ?thesis using assms(2) by (simp add: evictIfNeeded_def NodeCount_def)
next
  case False
  then obtain k m where k: "map_of (pg_nodes g) k = Some m" "pg_nodes (evictIfNeeded g) = AList.delete k (pg_nodes g)"
    "\<forall>(k', m') \<in> set (pg_nodes g). k' \<noteq> k \<longrightarrow> pn_seq m < pn_seq m'"
    using evictIfNeeded_spec [OF assms(1)] by (auto simp: not_le)
  have "k \<noteq> key"
  proof
    assume kk: "k = key"
    have d: "distinct (map fst (pg_nodes g))" using assms(1) by (simp add: nodes_wf_def)
    have "2 \<le> length (pg_nodes g)" using assms(1) False by (simp add: nodes_wf_def NodeCount_def)
    then obtain k' m' where k': "(k', m') \<in> set (pg_nodes g)" "k' \<noteq> key"
      using d by (cases "pg_nodes g"; cases "tl (pg_nodes g)") (auto, metis)
    then have "pn_seq n < pn_seq m'" using k(1,3) kk assms(2) by auto
    moreover have "unat (pn_seq m') \<le> unat (pg_seq g)" using assms(1) k'(1) by (auto simp: nodes_wf_def)
    ultimately show False using assms(3) by (simp add: word_less_nat_alt)
  qed
  then show ?thesis using assms(2) by (simp add: k(2) delete_conv')
qed

section \<open>Operations keep the invariant\<close>

lemma append_key_distinct: "\<forall>p. distinct (keys_at cs p) \<Longrightarrow> \<forall>p. distinct (keys_at (append_key q k cs) p)"
  by (auto simp: keys_at_append)

lemma insert_evict_wf:
  assumes "pg_wf g" "unat (pg_seq g) < 2 ^ 64 - 1" "map_of (pg_nodes g) key = None"
    and mk: "\<And>s. pn_Key (mk s) = key \<and> pn_seq (mk s) = s \<and> ring_wf (mk s)"
    and cs: "\<forall>p. distinct (keys_at cs p)"
  shows "pg_wf (evictIfNeeded ((insert_node mk key g)\<lparr>pg_children := cs\<rparr>))"
    and "unat (pg_seq (evictIfNeeded ((insert_node mk key g)\<lparr>pg_children := cs\<rparr>))) = unat (pg_seq g) + 1"
    and "map_of (pg_nodes (evictIfNeeded ((insert_node mk key g)\<lparr>pg_children := cs\<rparr>))) key = Some (mk (pg_seq g + 1))"
proof -
  let ?g = "insert_node mk key g" and ?h = "(insert_node mk key g)\<lparr>pg_children := cs\<rparr>"
  note i = insert_node_wf [OF _ assms(2,3) mk]
  have g: "nodes_wf g" using assms(1) by (simp add: pg_wf_def)
  have w: "nodes_wf ?h" using i(1) [OF g] by (simp add: nodes_wf_def)
  have "NodeCount ?h \<le> pg_maxNodes ?h + 1"
    using i(2) [OF g] assms(1) by (simp add: NodeCount_def pg_wf_def) (simp add: insert_node_def)
  note e = evict_wf [OF w this]
  show "pg_wf (evictIfNeeded ?h)" using e(1) cs by simp
  show "unat (pg_seq (evictIfNeeded ?h)) = unat (pg_seq g) + 1" using e(2) i(3) [OF g] cs by simp
  have l: "map_of (pg_nodes ?h) key = Some (mk (pg_seq g + 1))" using i(4) [OF g] by simp
  show "map_of (pg_nodes (evictIfNeeded ?h)) key = Some (mk (pg_seq g + 1))"
    using evict_keeps_newest [OF w l] mk i(3) [OF g] by (simp add: insert_node_def)
qed

lemma insert_evict_wf':
  assumes "pg_wf g" "unat (pg_seq g) < 2 ^ 64 - 1" "map_of (pg_nodes g) key = None"
    and mk: "\<And>s. pn_Key (mk s) = key \<and> pn_seq (mk s) = s \<and> ring_wf (mk s)"
  shows "pg_wf (evictIfNeeded (insert_node mk key g))"
    and "unat (pg_seq (evictIfNeeded (insert_node mk key g))) = unat (pg_seq g) + 1"
    and "map_of (pg_nodes (evictIfNeeded (insert_node mk key g))) key = Some (mk (pg_seq g + 1))"
proof -
  have "\<forall>p. distinct (keys_at (pg_children g) p)" using assms(1) by (simp add: pg_wf_def)
  note i = insert_evict_wf [OF assms this]
  have "(insert_node mk key g)\<lparr>pg_children := pg_children g\<rparr> = insert_node mk key g" by (simp add: insert_node_def)
  then show "pg_wf (evictIfNeeded (insert_node mk key g))"
    "unat (pg_seq (evictIfNeeded (insert_node mk key g))) = unat (pg_seq g) + 1"
    "map_of (pg_nodes (evictIfNeeded (insert_node mk key g))) key = Some (mk (pg_seq g + 1))"
    using i by simp_all
qed

lemma zero_node_ok [simp]: "pn_Key (zero_node k s) = k" "pn_seq (zero_node k s) = s"
  by (simp_all add: zero_node_def)

lemma ring_wf_fields [simp]:
  "ring_wf (n\<lparr>pn_PPID := a\<rparr>) = ring_wf n" "ring_wf (n\<lparr>pn_Comm := b\<rparr>) = ring_wf n"
  "ring_wf (n\<lparr>pn_ContainerName := b\<rparr>) = ring_wf n" "ring_wf (n\<lparr>pn_IsAlive := c\<rparr>) = ring_wf n"
  "ring_wf (n\<lparr>pn_ForkTime := d\<rparr>) = ring_wf n" "ring_wf (n\<lparr>pn_SID := a\<rparr>) = ring_wf n"
  "ring_wf (n\<lparr>pn_PGID := a\<rparr>) = ring_wf n" "ring_wf (n\<lparr>pn_ExitCode := e\<rparr>) = ring_wf n"
  "ring_wf (n\<lparr>pn_ExecTime := d\<rparr>) = ring_wf n" "ring_wf (n\<lparr>pn_ExePath := b\<rparr>) = ring_wf n"
  by (simp_all add: ring_wf_def)

lemma pg_wf_children: "pg_wf g \<Longrightarrow> pg_wf (g\<lparr>pg_children := append_key p k (pg_children g)\<rparr>)"
  using append_key_distinct [of "pg_children g"] by (simp add: pg_wf_def nodes_wf_def NodeCount_def)

lemma pg_wf_session [simp]: "pg_wf (add_session sid k g) = pg_wf g"
  by (simp add: pg_wf_def nodes_wf_def NodeCount_def add_session_def)

lemma add_session_frame [simp]:
  "pg_nodes (add_session sid k g) = pg_nodes g" "pg_seq (add_session sid k g) = pg_seq g"
  "pg_children (add_session sid k g) = pg_children g"
  by (simp_all add: add_session_def)

lemma fork_parent_wf:
  assumes "pg_wf g" "unat (pg_seq g) < 2 ^ 64 - 2"
  shows "pg_wf (fork_parent env g)" "unat (pg_seq (fork_parent env g)) \<le> unat (pg_seq g) + 1"
proof -
  have s: "unat (pg_seq g) < 2 ^ 64 - 1" using assms(2) by simp
  note i = insert_evict_wf' [OF assms(1) s]
  show "pg_wf (fork_parent env g)" "unat (pg_seq (fork_parent env g)) \<le> unat (pg_seq g) + 1"
    using assms(1) by (auto simp: fork_parent_def Let_def i ring_wf_zero)
qed

lemma fork_child_wf:
  assumes "pg_wf g" "unat (pg_seq g) < 2 ^ 64 - 1"
  shows "pg_wf (fork_child env g)" "unat (pg_seq (fork_child env g)) \<le> unat (pg_seq g) + 1"
    and "\<exists>n. map_of (pg_nodes (fork_child env g)) \<lparr>nk_CgroupID = ee_CgroupID env, nk_PID = ee_PID env\<rparr> = Some n
      \<and> pn_PPID n = ee_PPID env \<and> pn_Comm n = ee_Process env \<and> pn_ForkTime n = ee_Timestamp env \<and> pn_IsAlive n"
proof -
  note i = insert_evict_wf' [OF assms]
  let ?k = "\<lparr>nk_CgroupID = ee_CgroupID env, nk_PID = ee_PID env\<rparr>"
  let ?g = "if map_of (pg_nodes g) ?k = None then evictIfNeeded (insert_node (zero_node ?k) ?k g) else g"
  have w: "pg_wf ?g" "unat (pg_seq ?g) \<le> unat (pg_seq g) + 1" "map_of (pg_nodes ?g) ?k \<noteq> None"
    using assms(1) by (auto simp: i ring_wf_zero)
  show "pg_wf (fork_child env g)" unfolding fork_child_def Let_def by (rule update_node_wf [OF w(1)]) simp
  show "unat (pg_seq (fork_child env g)) \<le> unat (pg_seq g) + 1" using w(2) by (simp add: fork_child_def Let_def)
  show "\<exists>n. map_of (pg_nodes (fork_child env g)) ?k = Some n
      \<and> pn_PPID n = ee_PPID env \<and> pn_Comm n = ee_Process env \<and> pn_ForkTime n = ee_Timestamp env \<and> pn_IsAlive n"
    using w(3) unfolding fork_child_def Let_def update_node_look by auto
qed

lemma AddFork_wf:
  assumes "pg_wf g" "unat (pg_seq g) < 2 ^ 64 - 2"
  shows "pg_wf (AddFork env g)" "unat (pg_seq (AddFork env g)) \<le> unat (pg_seq g) + 2"
    and "\<exists>n. Lookup (AddFork env g) (ee_CgroupID env) (ee_PID env) = Some n
      \<and> pn_PPID n = ee_PPID env \<and> pn_Comm n = ee_Process env \<and> pn_ForkTime n = ee_Timestamp env \<and> pn_IsAlive n"
    and "\<lparr>nk_CgroupID = ee_CgroupID env, nk_PID = ee_PID env\<rparr>
      \<in> set (keys_at (pg_children (AddFork env g)) \<lparr>nk_CgroupID = ee_CgroupID env, nk_PID = ee_PPID env\<rparr>)"
proof -
  note p = fork_parent_wf [OF assms]
  have "unat (pg_seq (fork_parent env g)) < 2 ^ 64 - 1" using p(2) [of env] assms(2) by simp
  note c = fork_child_wf [OF p(1) this]
  note w = pg_wf_children [OF c(1) [of env]]
  show "pg_wf (AddFork env g)"
    by (auto simp: AddFork_def Let_def w update_node_wf split: option.splits)
  show "unat (pg_seq (AddFork env g)) \<le> unat (pg_seq g) + 2"
    using c(2) [of env] p(2) [of env] by (auto simp: AddFork_def Let_def split: option.splits)
  show "\<exists>n. Lookup (AddFork env g) (ee_CgroupID env) (ee_PID env) = Some n
      \<and> pn_PPID n = ee_PPID env \<and> pn_Comm n = ee_Process env \<and> pn_ForkTime n = ee_Timestamp env \<and> pn_IsAlive n"
    using c(3) [of env] by (auto simp: AddFork_def Lookup_def Let_def update_node_look split: option.splits)
  show "\<lparr>nk_CgroupID = ee_CgroupID env, nk_PID = ee_PID env\<rparr>
      \<in> set (keys_at (pg_children (AddFork env g)) \<lparr>nk_CgroupID = ee_CgroupID env, nk_PID = ee_PPID env\<rparr>)"
    by (auto simp: AddFork_def Let_def keys_at_append split: option.splits)
qed

lemma exec_node_wf:
  assumes "pg_wf g" "unat (pg_seq g) < 2 ^ 64 - 1"
  shows "pg_wf (exec_node env g)" "unat (pg_seq (exec_node env g)) \<le> unat (pg_seq g) + 1"
    and "map_of (pg_nodes (exec_node env g)) \<lparr>nk_CgroupID = ee_CgroupID env, nk_PID = ee_PID env\<rparr> \<noteq> None"
proof -
  have cs: "\<forall>p. distinct (keys_at (pg_children g) p)" using assms(1) by (simp add: pg_wf_def)
  note i = insert_evict_wf [OF assms _ _ append_key_distinct [OF cs]]
  have [simp]: "pg_children (insert_node mk k g) = pg_children g" for mk k by (simp add: insert_node_def)
  show "pg_wf (exec_node env g)" "unat (pg_seq (exec_node env g)) \<le> unat (pg_seq g) + 1"
    "map_of (pg_nodes (exec_node env g)) \<lparr>nk_CgroupID = ee_CgroupID env, nk_PID = ee_PID env\<rparr> \<noteq> None"
    using assms(1) by (auto simp: exec_node_def Let_def i ring_wf_zero)
qed

lemma exec_enrich_ok: "pn_Key (exec_enrich env n) = pn_Key n \<and> pn_seq (exec_enrich env n) = pn_seq n
  \<and> (ring_wf n \<longrightarrow> ring_wf (exec_enrich env n))"
  by (simp add: exec_enrich_def Let_def split: option.splits any.splits)

lemma AddExec_wf:
  assumes "pg_wf g" "unat (pg_seq g) < 2 ^ 64 - 1"
  shows "pg_wf (AddExec env g)" "unat (pg_seq (AddExec env g)) \<le> unat (pg_seq g) + 1"
    and "\<exists>n. Lookup (AddExec env g) (ee_CgroupID env) (ee_PID env) = Some n
      \<and> pn_Comm n = ee_Process env \<and> pn_ExecTime n = ee_Timestamp env"
proof -
  note e = exec_node_wf [OF assms, of env]
  let ?k = "\<lparr>nk_CgroupID = ee_CgroupID env, nk_PID = ee_PID env\<rparr>"
  have w: "pg_wf (update_node ?k (exec_enrich env) (exec_node env g))" by (rule update_node_wf [OF e(1) exec_enrich_ok])
  show "pg_wf (AddExec env g)"
    by (auto simp: AddExec_def Let_def w update_node_wf split: option.splits)
  show "unat (pg_seq (AddExec env g)) \<le> unat (pg_seq g) + 1"
    using e(2) by (auto simp: AddExec_def Let_def split: option.splits)
  have "pn_Comm (exec_enrich env n) = ee_Process env \<and> pn_ExecTime (exec_enrich env n) = ee_Timestamp env" for n
    by (simp add: exec_enrich_def Let_def split: option.splits any.splits)
  then show "\<exists>n. Lookup (AddExec env g) (ee_CgroupID env) (ee_PID env) = Some n
      \<and> pn_Comm n = ee_Process env \<and> pn_ExecTime n = ee_Timestamp env"
    using e(3) by (auto simp: AddExec_def Lookup_def Let_def update_node_look split: option.splits)
qed

section \<open>Runs\<close>

datatype graph_op = OpFork EventEnvelope | OpExec EventEnvelope | OpExit "64 word" "32 word" int
  | OpCorrelate "64 word" "32 word" "EventEnvelope option"

fun graph_step :: "graph_op \<Rightarrow> ProcessGraph \<Rightarrow> ProcessGraph" where
  "graph_step (OpFork env) g = AddFork env g"
| "graph_step (OpExec env) g = AddExec env g"
| "graph_step (OpExit c p e) g = MarkExit c p e g"
| "graph_step (OpCorrelate c p ev) g = CorrelateEvent c p ev g"

lemma graph_step_wf:
  assumes "pg_wf g" "unat (pg_seq g) < 2 ^ 64 - 2"
  shows "pg_wf (graph_step p g)" "unat (pg_seq (graph_step p g)) \<le> unat (pg_seq g) + 2"
    "pg_maxNodes (graph_step p g) = pg_maxNodes g"
proof -
  have s: "unat (pg_seq g) < 2 ^ 64 - 1" using assms(2) by simp
  have ev [simp]: "pg_maxNodes (evictIfNeeded h) = pg_maxNodes h" for h by (simp add: evictIfNeeded_def Let_def)
  note fk = AddFork_wf [OF assms] and ex = AddExec_wf [OF assms(1) s]
  show "pg_wf (graph_step p g)"
    by (cases p) (auto simp: fk ex MarkExit_def CorrelateEvent_def ring_wf_push intro!: update_node_wf assms(1),
      simp_all add: pushEvent_def)
  show "unat (pg_seq (graph_step p g)) \<le> unat (pg_seq g) + 2"
    using fk(2) ex(2) by (cases p) (auto simp: MarkExit_def CorrelateEvent_def intro: le_SucI)
  show "pg_maxNodes (graph_step p g) = pg_maxNodes g"
    by (cases p) (auto simp: AddFork_def AddExec_def fork_parent_def fork_child_def exec_node_def insert_node_def
        add_session_def MarkExit_def CorrelateEvent_def Let_def split: option.splits)
qed

lemma graph_run_wf:
  assumes "pg_wf g" "unat (pg_seq g) + 2 * length ops < 2 ^ 64"
  shows "pg_wf (fold graph_step ops g) \<and> pg_maxNodes (fold graph_step ops g) = pg_maxNodes g"
  using assms
proof (induction ops arbitrary: g)
  case (Cons p ops)
  then have "unat (pg_seq g) < 2 ^ 64 - 2" by simp
  note st = graph_step_wf [OF Cons.prems(1) this, of p]
  then show ?case using Cons.IH [OF st(1)] Cons.prems(2) by simp
qed simp

section \<open>Ancestry\<close>

lemma walk_length: "length (ancestor_walk ppid nodes d key vis) \<le> d"
  by (induction d arbitrary: key vis) (auto split: option.splits)

text \<open>Keys of a walk from \<open>key\<close>: distinct, not visited before, each the parent of the previous.\<close>

definition links :: "('n \<Rightarrow> NodeKey) \<Rightarrow> ('n \<Rightarrow> 32 word) \<Rightarrow> 'n list \<Rightarrow> bool" where
  "links keyf ppid c \<longleftrightarrow> (\<forall>i. Suc i < length c \<longrightarrow>
     keyf (c ! Suc i) = \<lparr>nk_CgroupID = nk_CgroupID (keyf (c ! i)), nk_PID = ppid (c ! i)\<rparr>)"

lemma links_Cons:
  "links keyf ppid (n # c) \<longleftrightarrow> links keyf ppid c \<and>
     (c \<noteq> [] \<longrightarrow> keyf (hd c) = \<lparr>nk_CgroupID = nk_CgroupID (keyf n), nk_PID = ppid n\<rparr>)"
proof (cases c)
  case (Cons m c')
  show ?thesis
    unfolding links_def Cons by (auto simp: nth_Cons split: nat.splits)
qed (simp add: links_def)

lemma walk_cases:
  obtains (stop) "ancestor_walk ppid nodes (Suc d) key vis = []"
  | (go) n rest where "ancestor_walk ppid nodes (Suc d) key vis = n # rest" "map_of nodes key = Some n" "key \<notin> set vis"
      "rest = [] \<or> rest = ancestor_walk ppid nodes d \<lparr>nk_CgroupID = nk_CgroupID key, nk_PID = ppid n\<rparr> (key # vis)"
proof (cases "map_of nodes key = None \<or> key \<in> set vis")
  case True
  then show ?thesis by (intro stop) (auto split: option.splits)
next
  case False
  then obtain n where n: "map_of nodes key = Some n" "key \<notin> set vis" by auto
  show ?thesis by (rule go [OF _ n]) (use n in \<open>auto\<close>)
qed

text \<open>The laws of a walk over a map whose nodes carry their own key.\<close>

definition keyed_by :: "('n \<Rightarrow> NodeKey) \<Rightarrow> (NodeKey \<times> 'n) list \<Rightarrow> bool" where
  "keyed_by keyf nodes \<longleftrightarrow> (\<forall>k n. map_of nodes k = Some n \<longrightarrow> keyf n = k)"

lemma walk_fresh:
  assumes keyed: "keyed_by keyf nodes"
  shows "set (map keyf (ancestor_walk ppid nodes d key vis)) \<inter> set vis = {}"
proof (induction d arbitrary: key vis)
  case (Suc d)
  show ?case
  proof (cases rule: walk_cases [of ppid nodes d key vis])
    case (go n rest)
    have "set (map keyf rest) \<inter> set (key # vis) = {}" using go(4) Suc.IH by (metis Int_empty_left list.set(1) list.simps(8))
    then show ?thesis using go keyed by (auto simp: keyed_by_def simp del: ancestor_walk.simps)
  qed (simp del: ancestor_walk.simps)
qed simp

lemma walk_distinct:
  assumes keyed: "keyed_by keyf nodes"
  shows "distinct (map keyf (ancestor_walk ppid nodes d key vis))"
proof (induction d arbitrary: key vis)
  case (Suc d)
  show ?case
  proof (cases rule: walk_cases [of ppid nodes d key vis])
    case (go n rest)
    have "set (map keyf rest) \<inter> set (key # vis) = {}" using go(4) walk_fresh [OF keyed] by (metis Int_empty_left list.set(1) list.simps(8))
    moreover have "distinct (map keyf rest)" using go(4) Suc.IH by (metis distinct.simps(1) list.simps(8))
    ultimately show ?thesis using go keyed by (auto simp: keyed_by_def simp del: ancestor_walk.simps)
  qed (simp del: ancestor_walk.simps)
qed simp

lemma walk_hd: "keyed_by keyf nodes \<Longrightarrow> ancestor_walk ppid nodes d key vis \<noteq> [] \<Longrightarrow> keyf (hd (ancestor_walk ppid nodes d key vis)) = key"
  by (cases d) (auto simp: keyed_by_def split: option.splits)

lemma walk_links:
  assumes keyed: "keyed_by keyf nodes"
  shows "links keyf ppid (ancestor_walk ppid nodes d key vis)"
proof (induction d arbitrary: key vis)
  case (Suc d)
  show ?case
  proof (cases rule: walk_cases [of ppid nodes d key vis])
    case (go n rest)
    have n: "keyf n = key" using go(2) keyed by (simp add: keyed_by_def)
    show ?thesis
    proof (cases "rest = []")
      case False
      then have r: "rest = ancestor_walk ppid nodes d \<lparr>nk_CgroupID = nk_CgroupID key, nk_PID = ppid n\<rparr> (key # vis)"
        using go(4) by simp
      then have "keyf (hd rest) = \<lparr>nk_CgroupID = nk_CgroupID key, nk_PID = ppid n\<rparr>" using walk_hd [OF keyed] False by metis
      then show ?thesis unfolding go(1) links_Cons n using Suc.IH r by metis
    qed (simp add: go(1) links_def del: ancestor_walk.simps)
  qed (simp add: links_def del: ancestor_walk.simps)
qed (simp add: links_def)

lemma walk_complete:
  "map_of nodes key \<noteq> None \<Longrightarrow> key \<notin> set vis \<Longrightarrow> 0 < d \<Longrightarrow> ancestor_walk ppid nodes d key vis \<noteq> []"
  by (cases d) auto

text \<open>
  A chain shorter than the depth limit ends for a reason: its last node is a root, its
  parent is not tracked, or the next key closes a cycle.
\<close>

lemma walk_ends:
  assumes "keyed_by keyf nodes" "length (ancestor_walk ppid nodes d key vis) < d"
    and "ancestor_walk ppid nodes d key vis \<noteq> []"
  shows "let c = ancestor_walk ppid nodes d key vis; n = last c;
      next = \<lparr>nk_CgroupID = nk_CgroupID (keyf n), nk_PID = ppid n\<rparr>
    in ppid n = 0 \<or> ppid n = 1 \<or> map_of nodes next = None \<or> next \<in> set (map keyf c) \<union> set vis"
  using assms(2,3)
proof (induction d arbitrary: key vis)
  case (Suc d)
  obtain n where n: "map_of nodes key = Some n" "key \<notin> set vis" "keyf n = key"
    using Suc.prems(2) assms(1) by (auto simp: keyed_by_def split: option.splits if_splits)
  let ?k = "\<lparr>nk_CgroupID = nk_CgroupID key, nk_PID = ppid n\<rparr>"
  show ?case
  proof (cases "ppid n = 0 \<or> ppid n = 1 \<or> ppid n = nk_PID key")
    case True
    then show ?thesis using n by (auto simp: Let_def)
  next
    case False
    then have w: "ancestor_walk ppid nodes (Suc d) key vis = n # ancestor_walk ppid nodes d ?k (key # vis)" using n by simp
    show ?thesis
    proof (cases "ancestor_walk ppid nodes d ?k (key # vis) = []")
      case True
      then have "map_of nodes ?k = None \<or> ?k \<in> set (key # vis)"
        using walk_complete [of nodes ?k "key # vis" d ppid] Suc.prems(1) w by auto
      then show ?thesis using n True w by (auto simp: Let_def)
    next
      case ne: False
      have "length (ancestor_walk ppid nodes d ?k (key # vis)) < d" using Suc.prems(1) w by simp
      from Suc.IH [OF this ne] show ?thesis using ne n w by (auto simp: Let_def)
    qed
  qed
qed simp

section \<open>Snapshots show the graph\<close>

lemma walk_map:
  assumes "\<And>k. map_of nodes' k = map_option (f k) (map_of nodes k)" "\<And>k n. ppid' (f k n) = ppid n"
    and "keyed_by keyf nodes"
  shows "ancestor_walk ppid' nodes' d key vis = map (\<lambda>n. f (keyf n) n) (ancestor_walk ppid nodes d key vis)"
  using assms(3) by (induction d arbitrary: key vis) (auto simp: assms(1,2) keyed_by_def split: option.splits)

lemma pg_wf_keyed: "pg_wf g \<Longrightarrow> keyed_by pn_Key (pg_nodes g)"
  by (simp add: pg_wf_def nodes_wf_alt keyed_by_def)

lemma snapshot_look: "map_of (gs_Nodes (Graph_Snapshot now g)) k = map_option (snapshot_node g k) (map_of (pg_nodes g) k)"
proof -
  have "map_of (map (\<lambda>(key, n). (key, snapshot_node g key n)) ns) k = map_option (snapshot_node g k) (map_of ns k)" for ns
    by (induction ns) auto
  then show ?thesis by (simp add: Graph_Snapshot_def Let_def)
qed

lemma snapshot_ancestors:
  assumes "pg_wf g"
  shows "Snapshot_Ancestors (Graph_Snapshot now g) \<lparr>nk_CgroupID = c, nk_PID = p\<rparr>
    = map (\<lambda>n. snapshot_node g (pn_Key n) n) (fst (Graph_Ancestors g c p (int MaxAncestors)))"
proof -
  have "keyed_by pn_Key (pg_nodes g)" using assms by (rule pg_wf_keyed)
  then have "ancestor_walk sn_PPID (gs_Nodes (Graph_Snapshot now g)) d key vis =
      map (\<lambda>n. snapshot_node g (pn_Key n) n) (ancestor_walk pn_PPID (pg_nodes g) d key vis)" for d key vis
    by (intro walk_map) (simp_all add: snapshot_look, simp_all add: snapshot_node_def)
  then show ?thesis
    by (simp add: Snapshot_Ancestors_def Graph_Ancestors_def Let_def rev_map MaxAncestors_def)
qed

lemma snapshot_children:
  assumes "pg_wf g" "Lookup g c p \<noteq> None"
  shows "map sn_Key (Snapshot_Children (Graph_Snapshot now g) \<lparr>nk_CgroupID = c, nk_PID = p\<rparr>)
    = map pn_Key (Graph_Children g c p)"
proof -
  have "map sn_Key (nodes_of_keys (gs_Nodes (Graph_Snapshot now g)) ks) = map pn_Key (nodes_of_keys (pg_nodes g) ks)" for ks
    by (induction ks)
      (auto simp: nodes_of_keys_def map_filter_simps snapshot_look snapshot_node_def split: option.splits)
  then show ?thesis
    using assms(2) by (auto simp: Snapshot_Children_def Graph_Children_def snapshot_look Lookup_def snapshot_node_def)
qed

section \<open>The ancestry query\<close>

lemma ancestors_chain:
  assumes "pg_wf g" "Lookup g c p = Some n" "0 < d"
  shows "let chain = fst (Graph_Ancestors g c p d) in
    chain \<noteq> [] \<and> last chain = n \<and> int (length chain) \<le> d \<and> distinct (map pn_Key chain)
    \<and> (\<forall>i. Suc i < length chain \<longrightarrow>
        pn_Key (chain ! i) = \<lparr>nk_CgroupID = nk_CgroupID (pn_Key (chain ! Suc i)), nk_PID = pn_PPID (chain ! Suc i)\<rparr>)"
proof -
  let ?w = "ancestor_walk pn_PPID (pg_nodes g) (nat d) \<lparr>nk_CgroupID = c, nk_PID = p\<rparr> []"
  note k = pg_wf_keyed [OF assms(1)]
  have look: "map_of (pg_nodes g) \<lparr>nk_CgroupID = c, nk_PID = p\<rparr> = Some n" using assms(2) by (simp add: Lookup_def)
  have chain: "fst (Graph_Ancestors g c p d) = rev ?w" using assms(3) by (simp add: Graph_Ancestors_def Let_def)
  obtain m where d: "nat d = Suc m" using assms(3) by (metis gr0_conv_Suc zero_less_nat_eq)
  have hd: "?w \<noteq> []" "hd ?w = n" using look by (simp_all add: d)
  have len: "int (length ?w) \<le> d" using walk_length [of pn_PPID "pg_nodes g" "nat d" "\<lparr>nk_CgroupID = c, nk_PID = p\<rparr>" "[]"] assms(3) by linarith
  have links: "pn_Key (rev ?w ! i) = \<lparr>nk_CgroupID = nk_CgroupID (pn_Key (rev ?w ! Suc i)), nk_PID = pn_PPID (rev ?w ! Suc i)\<rparr>"
    if i: "Suc i < length ?w" for i
  proof -
    have "Suc (length ?w - Suc (Suc i)) = length ?w - Suc i" using i by simp
    then show ?thesis
      using walk_links [OF k, of pn_PPID "nat d" "\<lparr>nk_CgroupID = c, nk_PID = p\<rparr>" "[]"] i
      by (simp add: links_def rev_nth) (metis diff_Suc_less length_greater_0_conv hd(1) zero_less_Suc)
  qed
  show ?thesis
    unfolding chain Let_def
    using hd len links walk_distinct [OF k, of pn_PPID "nat d" "\<lparr>nk_CgroupID = c, nk_PID = p\<rparr>" "[]"]
    by (simp add: last_rev flip: rev_map)
qed

end
