(* ===== verification/CgroupResolver.thy ===== *)
theory CgroupResolver
  imports GoTime "HOL-Library.Word" "HOL-Library.AList"
begin

text \<open>
  The cgroup resolver of \<open>pkg/cgroup/resolver.go\<close>: labels and container identifiers read off
  cgroup paths, the index of the kubelet's containers, the refresh with its history of
  deleted cgroups, and look-up. Outside code is an argument: the answers of the docker and
  kubelet endpoints, the entries of containerd's task directory, and the calls
  \<open>filepath.WalkDir\<close> makes, as the list of visited paths (relative to the root) with what the
  callback sees there. Go maps are association lists in their iteration order.
\<close>

definition refreshPeriod :: duration where "refreshPeriod = 10 * Second"
definition staleness :: duration where "staleness = 100 * Millisecond"

record ContainerInfo =
  ci_CgroupID :: "64 word"
  ci_Name :: string
  ci_CgroupPath :: string
  ci_Namespace :: string
  ci_Pod :: string
  ci_Container :: string

record KubeletContainer =
  kc_Name :: string
  kc_ContainerID :: string

record KubeletPod =
  kp_Name :: string
  kp_Namespace :: string
  kp_UID :: string
  kp_ContainerStatuses :: "KubeletContainer list"
  kp_InitContainerStatuses :: "KubeletContainer list"
  kp_EphemeralContainerStatuses :: "KubeletContainer list"

record K8sInfo =
  ki_Namespace :: string
  ki_Pod :: string
  ki_Container :: string

text \<open>The cache is \<open>None\<close> in the zero value of a resolver; the other maps are only read when present.\<close>

record Resolver =
  rv_cache :: "(64 word \<times> ContainerInfo) list option"
  rv_history :: "(64 word \<times> ContainerInfo) list"
  rv_deletedAt :: "(64 word \<times> instant) list"
  rv_lastRefresh :: instant
  rv_k8sCache :: "string \<rightharpoonup> K8sInfo"
  rv_k8sMode :: bool
  rv_refreshPeriodD :: duration

section \<open>Paths and identifiers\<close>

text \<open>\<open>strings.Index\<close>.\<close>

fun find_sub :: "string \<Rightarrow> string \<Rightarrow> nat option" where
  "find_sub p [] = (if p = [] then Some 0 else None)"
| "find_sub p (c # cs) = (if prefix p (c # cs) then Some 0 else map_option Suc (find_sub p cs))"

definition cleanContainerID :: "string \<Rightarrow> string" where
  "cleanContainerID i = (case find_sub ''://'' i of Some idx \<Rightarrow> drop (idx + 3) i | None \<Rightarrow> i)"

definition scope_id :: "string \<Rightarrow> string \<Rightarrow> string option" where
  "scope_id pre part =
     (if HasPrefix part pre \<and> HasSuffix part ''.scope'' then Some (TrimSuffix (TrimPrefix part pre) ''.scope'') else None)"

definition extractContainerID :: "string \<Rightarrow> string" where
  "extractContainerID rel =
     (let part = last (split_on CHR ''/'' rel)
      in case scope_id ''cri-containerd-'' part of Some i \<Rightarrow> i
       | None \<Rightarrow> (case scope_id ''crio-'' part of Some i \<Rightarrow> i
       | None \<Rightarrow> (case scope_id ''docker-'' part of Some i \<Rightarrow> i
       | None \<Rightarrow> if length part = 64 then part else [])))"

text \<open>The first twelve bytes of an identifier that has as many.\<close>

definition short_id :: "string \<Rightarrow> string" where
  "short_id i = (if length i \<ge> 12 then take 12 i else i)"

definition labelFromPath :: "(string \<Rightarrow> string) \<Rightarrow> string \<Rightarrow> string" where
  "labelFromPath dockerName rel =
     (if rel = ''.'' \<or> rel = [] then ''host''
      else let parts = split_on CHR ''/'' rel; part = last parts;
               isK8s = list_ex (\<lambda>p. HasPrefix p ''kubepods'') parts
      in case scope_id ''docker-'' part of
           Some i \<Rightarrow> if dockerName i \<noteq> [] then ''docker:'' @ dockerName i else ''docker:'' @ short_id i
         | None \<Rightarrow> (case scope_id ''cri-containerd-'' part of
           Some i \<Rightarrow> ''k8s:'' @ short_id i
         | None \<Rightarrow> (case scope_id ''crio-'' part of
           Some i \<Rightarrow> ''k8s:'' @ short_id i
         | None \<Rightarrow>
             if length parts \<ge> 2 \<and> parts ! (length parts - 2) = ''docker''
             then (if isK8s then ''k8s:'' else ''docker:'') @ short_id part
             else if isK8s \<and> length part = 64 then ''k8s:'' @ take 12 part
             else if length parts \<ge> 2 then parts ! (length parts - 2) @ ''/'' @ part
             else part)))"

section \<open>The kubelet's containers\<close>

definition index_container :: "string \<Rightarrow> string \<Rightarrow> KubeletContainer \<Rightarrow> (string \<rightharpoonup> K8sInfo) \<Rightarrow> (string \<rightharpoonup> K8sInfo)" where
  "index_container ns pod c m =
     (let cID = cleanContainerID (kc_ContainerID c);
          k = \<lparr>ki_Namespace = ns, ki_Pod = pod, ki_Container = kc_Name c\<rparr>
      in if cID \<noteq> [] then (if length cID > 12 then m(cID \<mapsto> k, take 12 cID \<mapsto> k) else m(cID \<mapsto> k)) else m)"

definition index_pod :: "KubeletPod \<Rightarrow> (string \<rightharpoonup> K8sInfo) \<Rightarrow> (string \<rightharpoonup> K8sInfo)" where
  "index_pod p m =
     fold (index_container (kp_Namespace p) (kp_Name p)) (kp_EphemeralContainerStatuses p)
       (fold (index_container (kp_Namespace p) (kp_Name p)) (kp_InitContainerStatuses p)
         (fold (index_container (kp_Namespace p) (kp_Name p)) (kp_ContainerStatuses p) m))"

text \<open>
  Containerd's task directory: for each entry whether it is a directory, its name, and the
  annotations of its configuration, \<open>None\<close> when the file cannot be read or decoded or has none.
\<close>

type_synonym task_entry = "bool \<times> string \<times> (string \<rightharpoonup> string) option"

record podGroup =
  gr_Name :: string
  gr_Namespace :: string
  gr_UID :: string
  gr_Containers :: "KubeletContainer list"

definition annotation :: "(string \<rightharpoonup> string) \<Rightarrow> string \<Rightarrow> string" where
  "annotation m k = (case m k of Some v \<Rightarrow> v | None \<Rightarrow> [])"

definition first_annotation :: "(string \<rightharpoonup> string) \<Rightarrow> string \<Rightarrow> string \<Rightarrow> string" where
  "first_annotation m k k' = (if annotation m k = [] then annotation m k' else annotation m k)"

definition task_container_name :: "(string \<rightharpoonup> string) \<Rightarrow> string" where
  "task_container_name m =
     (if annotation m ''io.kubernetes.cri.container-name'' \<noteq> [] then annotation m ''io.kubernetes.cri.container-name''
      else if annotation m ''io.kubernetes.cri.container-type'' = ''sandbox'' then ''sandbox''
      else annotation m ''io.kubernetes.container.name'')"

definition task_add :: "task_entry \<Rightarrow> (string \<times> podGroup) list \<Rightarrow> (string \<times> podGroup) list" where
  "task_add entry podMap =
     (case entry of (isDir, cID, spec) \<Rightarrow>
        if \<not> isDir then podMap
        else case spec of
          None \<Rightarrow> podMap
        | Some m \<Rightarrow>
           let podName = first_annotation m ''io.kubernetes.cri.sandbox-name'' ''io.kubernetes.pod.name'';
               podNS = first_annotation m ''io.kubernetes.cri.sandbox-namespace'' ''io.kubernetes.pod.namespace'';
               podUID = first_annotation m ''io.kubernetes.cri.sandbox-uid'' ''io.kubernetes.pod.uid''
           in if podName \<noteq> [] \<and> podNS \<noteq> []
              then let podKey = podNS @ ''/'' @ podName;
                       p = (case map_of podMap podKey of Some p \<Rightarrow> p
                            | None \<Rightarrow> \<lparr>gr_Name = podName, gr_Namespace = podNS, gr_UID = podUID, gr_Containers = []\<rparr>)
                   in AList.update podKey
                        (p\<lparr>gr_Containers := gr_Containers p @
                             [\<lparr>kc_Name = task_container_name m, kc_ContainerID = ''containerd://'' @ cID\<rparr>]\<rparr>) podMap
              else podMap)"

definition group_pod :: "podGroup \<Rightarrow> KubeletPod" where
  "group_pod p = \<lparr>kp_Name = gr_Name p, kp_Namespace = gr_Namespace p, kp_UID = gr_UID p,
     kp_ContainerStatuses = gr_Containers p, kp_InitContainerStatuses = [], kp_EphemeralContainerStatuses = []\<rparr>"

definition fetchKubeletPodsFromTaskConfig :: "task_entry list option \<Rightarrow> KubeletPod list option" where
  "fetchKubeletPodsFromTaskConfig dir =
     map_option (\<lambda>entries. map (group_pod \<circ> snd) (fold task_add entries [])) dir"

text \<open>The three sources in order; \<open>http\<close> and \<open>https\<close> are the decoded answers of the kubelet, if any.\<close>

definition fetchKubeletPods :: "task_entry list option \<Rightarrow> KubeletPod list option \<Rightarrow> KubeletPod list option \<Rightarrow> KubeletPod list option" where
  "fetchKubeletPods dir http https =
     (case fetchKubeletPodsFromTaskConfig dir of
        Some (p # ps) \<Rightarrow> Some (p # ps)
      | _ \<Rightarrow> (case http of Some l \<Rightarrow> Some l | None \<Rightarrow> https))"

section \<open>Refreshing\<close>

datatype walk_visit = VisitError | VisitFile | VisitStatError | VisitDir "64 word"

definition enrich :: "(string \<rightharpoonup> K8sInfo) \<Rightarrow> string \<Rightarrow> ContainerInfo \<Rightarrow> ContainerInfo" where
  "enrich k8s cID info =
     (let named = (\<lambda>k. info\<lparr>ci_Name := ki_Namespace k @ ''/'' @ ki_Pod k @ ''/'' @ ki_Container k,
            ci_Namespace := ki_Namespace k, ci_Pod := ki_Pod k, ci_Container := ki_Container k\<rparr>)
      in if cID = [] then info
         else case k8s cID of
           Some k \<Rightarrow> named k
         | None \<Rightarrow> if length cID > 12 then (case k8s (take 12 cID) of Some k \<Rightarrow> named k | None \<Rightarrow> info) else info)"

definition scan_visit ::
  "(string \<Rightarrow> string) \<Rightarrow> (string \<rightharpoonup> K8sInfo) \<Rightarrow> string \<times> walk_visit \<Rightarrow> (64 word \<times> ContainerInfo) list \<Rightarrow> (64 word \<times> ContainerInfo) list" where
  "scan_visit dockerName k8s v fresh =
     (case v of
        (rel, VisitDir ino) \<Rightarrow>
          AList.update ino (enrich k8s (extractContainerID rel)
            \<lparr>ci_CgroupID = ino, ci_Name = labelFromPath dockerName rel, ci_CgroupPath = rel,
             ci_Namespace = [], ci_Pod = [], ci_Container = []\<rparr>) fresh
      | _ \<Rightarrow> fresh)"

text \<open>Cgroups that are no longer listed move to the history, each with its own reading of the clock.\<close>

fun move_deleted ::
  "(64 word \<times> ContainerInfo) list \<Rightarrow> (64 word \<Rightarrow> instant) \<Rightarrow> (64 word \<times> ContainerInfo) list
    \<Rightarrow> (64 word \<times> ContainerInfo) list \<times> (64 word \<times> instant) list \<Rightarrow> (64 word \<times> ContainerInfo) list \<times> (64 word \<times> instant) list" where
  "move_deleted fresh clk [] st = st"
| "move_deleted fresh clk ((i, info) # cache) (h, d) =
     (if map_of fresh i = None then move_deleted fresh clk cache (AList.update i info h, AList.update i (clk i) d)
      else move_deleted fresh clk cache (h, d))"

fun prune_history ::
  "64 word list \<Rightarrow> (64 word \<times> ContainerInfo) list \<times> (64 word \<times> instant) list
    \<Rightarrow> (64 word \<times> ContainerInfo) list \<times> (64 word \<times> instant) list" where
  "prune_history [] st = st"
| "prune_history (i # is) (h, d) =
     (let h1 = AList.delete i h; d1 = AList.delete i d
      in if length h1 \<le> 1000 then (h1, d1) else prune_history is (h1, d1))"

record refresh_input =
  ri_pods :: "KubeletPod list option" \<comment> \<open>what \<open>fetchKubeletPods\<close> returns\<close>
  ri_dockerName :: "string \<Rightarrow> string"
  ri_visits :: "(string \<times> walk_visit) list"
  ri_deletedClk :: "64 word \<Rightarrow> instant"
  ri_now :: instant

definition fresh_index :: "refresh_input \<Rightarrow> (string \<rightharpoonup> K8sInfo)" where
  "fresh_index i = (case ri_pods i of Some ps \<Rightarrow> fold index_pod ps Map.empty | None \<Rightarrow> Map.empty)"

definition fresh_cache :: "refresh_input \<Rightarrow> (64 word \<times> ContainerInfo) list" where
  "fresh_cache i = fold (scan_visit (ri_dockerName i) (fresh_index i)) (ri_visits i) []"

text \<open>
  The callback answers every error with \<open>SkipDir\<close>, so the walk itself never fails and
  \<open>refresh\<close> has no error to return.
\<close>

definition refresh :: "refresh_input \<Rightarrow> Resolver \<Rightarrow> Resolver" where
  "refresh i r =
     (let fresh = fresh_cache i;
          (h, d) = move_deleted fresh (ri_deletedClk i) (case rv_cache r of Some c \<Rightarrow> c | None \<Rightarrow> []) (rv_history r, rv_deletedAt r);
          d1 = fold (\<lambda>(k, _). AList.delete k) fresh d;
          (h2, d2) = (if length h > 1000 then prune_history (map fst h) (h, d1) else (h, d1))
      in r\<lparr>rv_cache := Some fresh, rv_history := h2, rv_deletedAt := d2, rv_k8sCache := fresh_index i,
           rv_lastRefresh := ri_now i\<rparr>)"

definition empty_resolver :: Resolver where
  "empty_resolver = \<lparr>rv_cache = Some [], rv_history = [], rv_deletedAt = [], rv_lastRefresh = zeroTime,
     rv_k8sCache = Map.empty, rv_k8sMode = False, rv_refreshPeriodD = refreshPeriod\<rparr>"

definition NewResolver :: "refresh_input \<Rightarrow> Resolver" where
  "NewResolver i = refresh i empty_resolver"

definition SetK8sMode :: "bool \<Rightarrow> Resolver \<Rightarrow> Resolver" where
  "SetK8sMode enabled r = r\<lparr>rv_k8sMode := enabled, rv_refreshPeriodD := (if enabled then 2 * Second else refreshPeriod)\<rparr>"

fun evict_loop :: "instant \<Rightarrow> (64 word \<times> instant) list
    \<Rightarrow> (64 word \<times> ContainerInfo) list \<times> (64 word \<times> instant) list \<Rightarrow> (64 word \<times> ContainerInfo) list \<times> (64 word \<times> instant) list" where
  "evict_loop now [] st = st"
| "evict_loop now ((i, t) # ds) (h, d) =
     (if Sub now t \<ge> 2 * refreshPeriod then evict_loop now ds (AList.delete i h, AList.delete i d)
      else evict_loop now ds (h, d))"

definition evictStaleEntries :: "instant \<Rightarrow> Resolver \<Rightarrow> Resolver" where
  "evictStaleEntries now r =
     (let (h, d) = evict_loop now (rv_deletedAt r) (rv_history r, rv_deletedAt r)
      in r\<lparr>rv_history := h, rv_deletedAt := d\<rparr>)"

definition cached :: "Resolver \<Rightarrow> 64 word \<Rightarrow> ContainerInfo option" where
  "cached r i = (case map_of (case rv_cache r of Some c \<Rightarrow> c | None \<Rightarrow> []) i of Some x \<Rightarrow> Some x | None \<Rightarrow> map_of (rv_history r) i)"

definition Resolver_Lookup :: "64 word \<Rightarrow> instant \<Rightarrow> refresh_input \<Rightarrow> Resolver \<Rightarrow> ContainerInfo option \<times> Resolver" where
  "Resolver_Lookup cgroupID now i r =
     (if rv_cache r = None then (None, r)
      else case cached r cgroupID of
             Some info \<Rightarrow> (Some info, r)
           | None \<Rightarrow> if Sub now (rv_lastRefresh r) > staleness
                     then let r1 = refresh i r in (cached r1 cgroupID, r1)
                     else (None, r))"

definition Resolver_All :: "Resolver \<Rightarrow> (64 word \<times> ContainerInfo) list" where
  "Resolver_All r = (case rv_cache r of Some c \<Rightarrow> c | None \<Rightarrow> [])"

section \<open>Boot time\<close>

text \<open>
  \<open>fmt.Sscanf\<close> with \<open>%d\<close>: blanks, a sign and decimal digits, at least one, in the range of
  \<open>int64\<close>. The result is the number of seconds times a billion, wrapped to 64 bits.
\<close>

definition scan_int64 :: "string \<Rightarrow> int option" where
  "scan_int64 s0 =
     (let s = dropWhile (\<lambda>c. c \<in> {CHR '' '', CHR 0x09, CHR 0x0B, CHR 0x0C, CHR 0x0D}) s0;
          neg = (s \<noteq> [] \<and> hd s = CHR ''-'');
          t = (if s \<noteq> [] \<and> (hd s = CHR ''-'' \<or> hd s = CHR ''+'') then tl s else s);
          ds = takeWhile is_digit_char t;
          n = foldl (\<lambda>acc c. 10 * acc + digit_value_int c) 0 ds;
          v = (if neg then - n else n)
      in if ds = [] \<or> v < - (2 ^ 63) \<or> v \<ge> 2 ^ 63 then None else Some v)"

datatype boot_error = BootReadFailed string | BootParseFailed | BootNotFound

fun boot_lines :: "string list \<Rightarrow> boot_error + 64 word" where
  "boot_lines [] = Inl BootNotFound"
| "boot_lines (line # ls) =
     (if \<not> HasPrefix line ''btime '' then boot_lines ls
      else case scan_int64 (drop 6 line) of
             None \<Rightarrow> Inl BootParseFailed
           | Some bootSec \<Rightarrow> Inr (word_of_int bootSec * 1000000000))"

definition BootTimeOffset :: "string + string \<Rightarrow> boot_error + 64 word" where
  "BootTimeOffset readFile =
     (case readFile of Inl e \<Rightarrow> Inl (BootReadFailed e) | Inr data \<Rightarrow> boot_lines (split_on CHR ''\<newline>'' data))"

section \<open>Identifiers round trip\<close>

lemma cleanContainerID_scheme: "CHR '':'' \<notin> set scheme \<Longrightarrow> cleanContainerID (scheme @ ''://'' @ i) = i"
proof -
  assume c: "CHR '':'' \<notin> set scheme"
  have "find_sub ''://'' (scheme @ ''://'' @ i) = Some (length scheme)"
    using c by (induction scheme) (auto simp: prefix_def)
  then show ?thesis by (simp add: cleanContainerID_def)
qed

lemma split_on_append: "c \<notin> set b \<Longrightarrow> \<exists>w ws. split_on c (a @ c # b) = w # ws @ [b]"
proof (induction a)
  case Nil
  have "split_on c b = [b]" using Nil by (induction b) auto
  then show ?case by simp
next
  case (Cons x a)
  then obtain w ws where "split_on c (a @ c # b) = w # ws @ [b]" by blast
  then show ?case by (cases "x = c") auto
qed

lemma last_split_on: "c \<notin> set b \<Longrightarrow> last (split_on c (a @ c # b)) = b"
  using split_on_append [of c b a] by auto

lemma scope_id_scope: "scope_id pre (pre @ i @ ''.scope'') = Some i"
  by (simp add: scope_id_def HasPrefix_def HasSuffix_def TrimPrefix_def TrimSuffix_def suffix_def)

lemma extractContainerID_cri:
  assumes "CHR ''/'' \<notin> set i"
  shows "extractContainerID (dir @ ''/cri-containerd-'' @ i @ ''.scope'') = i"
proof -
  have "last (split_on CHR ''/'' (dir @ CHR ''/'' # (''cri-containerd-'' @ i @ ''.scope''))) = ''cri-containerd-'' @ i @ ''.scope''"
    using assms by (intro last_split_on) simp
  then show ?thesis by (simp add: extractContainerID_def Let_def scope_id_scope [of "''cri-containerd-''", simplified])
qed

section \<open>The container index\<close>

definition pod_containers :: "KubeletPod \<Rightarrow> (string \<times> K8sInfo) list" where
  "pod_containers p = map (\<lambda>c. (cleanContainerID (kc_ContainerID c),
      \<lparr>ki_Namespace = kp_Namespace p, ki_Pod = kp_Name p, ki_Container = kc_Name c\<rparr>))
    (kp_ContainerStatuses p @ kp_InitContainerStatuses p @ kp_EphemeralContainerStatuses p)"

definition put_id :: "string \<times> K8sInfo \<Rightarrow> (string \<rightharpoonup> K8sInfo) \<Rightarrow> (string \<rightharpoonup> K8sInfo)" where
  "put_id e m = (case e of (cID, k) \<Rightarrow>
     if cID \<noteq> [] then (if length cID > 12 then m(cID \<mapsto> k, take 12 cID \<mapsto> k) else m(cID \<mapsto> k)) else m)"

lemma index_container_put:
  "index_container ns pod = (\<lambda>c. put_id (cleanContainerID (kc_ContainerID c), \<lparr>ki_Namespace = ns, ki_Pod = pod, ki_Container = kc_Name c\<rparr>))"
  by (simp add: fun_eq_iff index_container_def put_id_def Let_def)

lemma index_pod_put: "index_pod p = fold put_id (pod_containers p)"
  by (simp add: fun_eq_iff index_pod_def pod_containers_def index_container_put fold_map comp_def)

lemma fold_index_put: "fold index_pod ps = fold put_id (concat (map pod_containers ps))"
proof
  fix m show "fold index_pod ps m = fold put_id (concat (map pod_containers ps)) m"
    by (induction ps arbitrary: m) (simp_all add: index_pod_put)
qed

text \<open>With full-length identifiers, no two equal, every container is found under its own.\<close>

lemma fold_put_other: "\<forall>(i, k) \<in> set es. length i = 64 \<Longrightarrow> cID \<notin> fst ` set es \<Longrightarrow> length cID = 64 \<Longrightarrow>
  fold put_id es m cID = m cID"
proof (induction es arbitrary: m)
  case (Cons e es)
  obtain i k where e: "e = (i, k)" by fastforce
  have "cID \<noteq> i" "cID \<noteq> take 12 i" using Cons.prems e by auto
  then have "put_id e m cID = m cID" by (simp add: e put_id_def)
  then show ?case using Cons e by simp
qed simp

lemma fold_put_own:
  assumes "\<forall>(i, k) \<in> set es. length i = 64" "distinct (map fst es)" "(cID, k) \<in> set es"
  shows "fold put_id es m cID = Some k"
  using assms
proof (induction es arbitrary: m)
  case (Cons e es)
  show ?case
  proof (cases "e = (cID, k)")
    case True
    then have l: "length cID = 64" "cID \<notin> fst ` set es" using Cons.prems by auto
    have "put_id e m cID = Some k" using True l by (auto simp: put_id_def)
    then show ?thesis using fold_put_other [of es cID "put_id e m"] Cons.prems(1) l by simp
  next
    case False
    then show ?thesis using Cons by auto
  qed
qed simp

lemma fresh_index_container:
  assumes "ri_pods i = Some ps" "(cID, k) \<in> set (concat (map pod_containers ps))"
    and "\<forall>(c, k) \<in> set (concat (map pod_containers ps)). length c = 64" "distinct (map fst (concat (map pod_containers ps)))"
  shows "fresh_index i cID = Some k"
  using fold_put_own [OF assms(3,4,2)] by (simp add: fresh_index_def assms(1) fold_index_put)

section \<open>What a refresh finds\<close>

definition visit_info :: "(string \<Rightarrow> string) \<Rightarrow> (string \<rightharpoonup> K8sInfo) \<Rightarrow> string \<Rightarrow> 64 word \<Rightarrow> ContainerInfo" where
  "visit_info dockerName k8s rel ino = enrich k8s (extractContainerID rel)
     \<lparr>ci_CgroupID = ino, ci_Name = labelFromPath dockerName rel, ci_CgroupPath = rel,
      ci_Namespace = [], ci_Pod = [], ci_Container = []\<rparr>"

definition dirs :: "(string \<times> walk_visit) list \<Rightarrow> (64 word \<times> string) list" where
  "dirs vs = List.map_filter (\<lambda>(rel, v). case v of VisitDir ino \<Rightarrow> Some (ino, rel) | _ \<Rightarrow> None) vs"

lemma scan_dirs:
  "fold (scan_visit dn k8s) vs m = fold (\<lambda>(ino, rel). AList.update ino (visit_info dn k8s rel ino)) (dirs vs) m"
  by (induction vs arbitrary: m)
    (auto simp: dirs_def List.map_filter_def scan_visit_def visit_info_def split: walk_visit.splits)

lemma fold_update_other:
  "k \<notin> fst ` set es \<Longrightarrow> map_of (fold (\<lambda>(k, v). AList.update k (f k v)) es m) k = map_of m k"
  by (induction es arbitrary: m) (auto simp: update_conv')

lemma fold_update_own:
  "distinct (map fst es) \<Longrightarrow> (k, v) \<in> set es \<Longrightarrow> map_of (fold (\<lambda>(k, v). AList.update k (f k v)) es m) k = Some (f k v)"
proof (induction es arbitrary: m)
  case (Cons e es)
  show ?case
  proof (cases "e = (k, v)")
    case True
    then have "k \<notin> fst ` set es" using Cons.prems by auto
    then show ?thesis using True by (simp add: fold_update_other update_conv')
  next
    case False
    then show ?thesis using Cons by auto
  qed
qed simp

lemma fresh_cache_dir:
  assumes "(ino, rel) \<in> set (dirs (ri_visits i))" "distinct (map fst (dirs (ri_visits i)))"
  shows "map_of (fresh_cache i) ino = Some (visit_info (ri_dockerName i) (fresh_index i) rel ino)"
  using fold_update_own [OF assms(2,1), of "\<lambda>ino rel. visit_info (ri_dockerName i) (fresh_index i) rel ino" "[]"]
  by (simp add: fresh_cache_def scan_dirs)

lemma cached_refresh: "map_of (fresh_cache i) c = Some info \<Longrightarrow> cached (refresh i r) c = Some info"
  by (simp add: cached_def refresh_def Let_def split: prod.splits)

lemma visit_info_container:
  assumes "k8s cID = Some k" "extractContainerID rel = cID" "cID \<noteq> []"
  shows "ci_Namespace (visit_info dn k8s rel ino) = ki_Namespace k" "ci_Pod (visit_info dn k8s rel ino) = ki_Pod k"
    "ci_Container (visit_info dn k8s rel ino) = ki_Container k" "ci_CgroupID (visit_info dn k8s rel ino) = ino"
    "ci_Name (visit_info dn k8s rel ino) = ki_Namespace k @ ''/'' @ ki_Pod k @ ''/'' @ ki_Container k"
  using assms by (simp_all add: visit_info_def enrich_def Let_def)

section \<open>History\<close>

definition resolver_wf :: "Resolver \<Rightarrow> bool" where
  "resolver_wf r \<longleftrightarrow> distinct (map fst (rv_history r)) \<and> distinct (map fst (rv_deletedAt r))
     \<and> fst ` set (rv_deletedAt r) \<subseteq> fst ` set (rv_history r) \<and> length (rv_history r) \<le> 1000"

definition hist_ok :: "(64 word \<times> ContainerInfo) list \<times> (64 word \<times> instant) list \<Rightarrow> bool" where
  "hist_ok st \<longleftrightarrow> distinct (map fst (fst st)) \<and> distinct (map fst (snd st)) \<and> fst ` set (snd st) \<subseteq> fst ` set (fst st)"

lemma resolver_wf_hist: "resolver_wf r \<longleftrightarrow> hist_ok (rv_history r, rv_deletedAt r) \<and> length (rv_history r) \<le> 1000"
  by (auto simp: resolver_wf_def hist_ok_def)

lemma hist_ok_update: "hist_ok (h, d) \<Longrightarrow> hist_ok (AList.update i x h, AList.update i t d)"
  by (auto simp: hist_ok_def distinct_update dom_update)

lemma hist_ok_delete: "hist_ok (h, d) \<Longrightarrow> hist_ok (AList.delete i h, AList.delete i d)"
  unfolding hist_ok_def by (auto simp: distinct_removeAll delete_keys simp flip: set_map)

lemma hist_ok_forget: "hist_ok (h, d) \<Longrightarrow> hist_ok (h, AList.delete i d)"
  unfolding hist_ok_def by (auto simp: distinct_removeAll delete_keys simp flip: set_map)

lemma move_deleted_ok: "hist_ok st \<Longrightarrow> hist_ok (move_deleted fresh clk c st)"
  by (induction fresh clk c st rule: move_deleted.induct) (auto simp: hist_ok_update)

lemma forget_ok: "hist_ok (h, d) \<Longrightarrow> hist_ok (h, fold (\<lambda>(k, _). AList.delete k) fresh d)"
  by (induction fresh arbitrary: d) (auto simp: hist_ok_forget)

lemma prune_history_ok:
  "hist_ok st \<Longrightarrow> is = map fst (fst st) \<Longrightarrow> hist_ok (prune_history is st) \<and> length (fst (prune_history is st)) \<le> 1000"
proof (induction "is" st rule: prune_history.induct)
  case (2 i "is" h d)
  obtain x h' where h: "h = (i, x) # h'" "is = map fst h'" using 2(3) by (cases h) auto
  have "i \<notin> fst ` set h'" using 2(2) h by (auto simp: hist_ok_def)
  then have del: "AList.delete i h = h'" by (simp add: h)
  have ok: "hist_ok (h', AList.delete i d)" using hist_ok_delete [OF 2(2), of i] by (simp add: del)
  show ?case using 2(1) [OF refl refl] ok by (simp add: del Let_def h(2))
qed auto

lemma refresh_wf: "resolver_wf r \<Longrightarrow> resolver_wf (refresh i r)"
proof -
  assume w: "resolver_wf r"
  let ?st = "move_deleted (fresh_cache i) (ri_deletedClk i) (case rv_cache r of Some c \<Rightarrow> c | None \<Rightarrow> []) (rv_history r, rv_deletedAt r)"
  obtain h d where st: "?st = (h, d)" by fastforce
  have "hist_ok (rv_history r, rv_deletedAt r)" using w by (simp add: resolver_wf_def hist_ok_def)
  then have "hist_ok (h, d)" using move_deleted_ok st by metis
  then have ok: "hist_ok (h, fold (\<lambda>(k, _). AList.delete k) (fresh_cache i) d)" by (rule forget_ok)
  show ?thesis
    using prune_history_ok [OF ok refl] ok
    by (auto simp: refresh_def resolver_wf_hist st Let_def split: prod.splits)
qed

lemma evict_loop_ok: "hist_ok st \<Longrightarrow> hist_ok (evict_loop now ds st) \<and> length (fst (evict_loop now ds st)) \<le> length (fst st)"
proof (induction now ds st rule: evict_loop.induct)
  case (2 now i t ds h d)
  then show ?case using hist_ok_delete [of h d i] length_delete_le [of i h] by auto
qed auto

lemma evictStaleEntries_wf: "resolver_wf r \<Longrightarrow> resolver_wf (evictStaleEntries now r)"
  using evict_loop_ok [of "(rv_history r, rv_deletedAt r)" now "rv_deletedAt r"]
  by (auto simp: evictStaleEntries_def resolver_wf_hist split: prod.splits)

lemma empty_resolver_wf: "resolver_wf empty_resolver"
  by (simp add: resolver_wf_def empty_resolver_def)

lemma Resolver_Lookup_wf: "resolver_wf r \<Longrightarrow> resolver_wf (snd (Resolver_Lookup c now i r))"
  by (simp add: Resolver_Lookup_def Let_def refresh_wf split: option.splits)

section \<open>Deleted cgroups\<close>

lemma move_deleted_spec:
  "distinct (map fst c) \<Longrightarrow> map_of c k = Some info \<Longrightarrow> map_of fresh k = None \<Longrightarrow>
   map_of (fst (move_deleted fresh clk c st)) k = Some info \<and> map_of (snd (move_deleted fresh clk c st)) k = Some (clk k)"
proof (induction fresh clk c st rule: move_deleted.induct)
  case (2 fresh clk i x c h d)
  have keep: "k \<notin> fst ` set c \<Longrightarrow> map_of (fst (move_deleted fresh clk c st)) k = map_of (fst st) k
      \<and> map_of (snd (move_deleted fresh clk c st)) k = map_of (snd st) k" for c st
    by (induction fresh clk c st rule: move_deleted.induct) (auto simp: update_conv')
  show ?case
  proof (cases "i = k")
    case True
    then have "k \<notin> fst ` set c" "x = info" using 2 by auto
    then show ?thesis using True 2(5) keep [of c] by (simp add: update_conv')
  next
    case False
    then show ?thesis using 2 by auto
  qed
qed simp

lemma move_deleted_length: "length (fst (move_deleted fresh clk c st)) \<le> length (fst st) + length c"
proof (induction fresh clk c st rule: move_deleted.induct)
  case (2 fresh clk i x c h d)
  have "length (AList.update i x h) \<le> Suc (length h)" by (induction h) auto
  then show ?case using 2 by auto
qed simp

lemma evict_loop_look:
  "distinct (map fst ds) \<Longrightarrow> map_of (fst (evict_loop now ds st)) k =
     (case map_of ds k of Some t \<Rightarrow> if Sub now t \<ge> 2 * refreshPeriod then None else map_of (fst st) k | None \<Rightarrow> map_of (fst st) k)"
proof (induction now ds st rule: evict_loop.induct)
  case (2 now i t ds h d)
  have "k = i \<Longrightarrow> map_of ds k = None" using 2(3) by (simp add: map_of_eq_None_iff)
  then show ?case using 2 by (auto simp: delete_conv' split: option.splits)
qed simp

text \<open>
  A cgroup that disappears stays resolvable for twenty seconds, and no longer once the
  eviction has run.
\<close>

lemma forget_other: "k \<notin> fst ` set fresh \<Longrightarrow> map_of (fold (\<lambda>(k, _). AList.delete k) fresh d) k = map_of d k"
  by (induction fresh arbitrary: d) (auto simp: delete_conv')

lemma deleted_grace:
  assumes "resolver_wf r" "rv_cache r = Some c" "distinct (map fst c)" "map_of c k = Some info"
    and "map_of (fresh_cache i) k = None" "length (rv_history r) + length c \<le> 1000"
  shows "cached (refresh i r) k = Some info"
    and "cached (evictStaleEntries now (refresh i r)) k =
      (if Sub now (ri_deletedClk i k) \<ge> 2 * refreshPeriod then None else Some info)"
proof -
  obtain h d where st: "move_deleted (fresh_cache i) (ri_deletedClk i) c (rv_history r, rv_deletedAt r) = (h, d)" by fastforce
  note mv = move_deleted_spec [OF assms(3-5), of "ri_deletedClk i" "(rv_history r, rv_deletedAt r)", unfolded st]
  have "length h \<le> 1000" using move_deleted_length [of "fresh_cache i" "ri_deletedClk i" c "(rv_history r, rv_deletedAt r)"] st assms(6) by simp
  then have r: "rv_cache (refresh i r) = Some (fresh_cache i)" "rv_history (refresh i r) = h"
    "rv_deletedAt (refresh i r) = fold (\<lambda>(k, _). AList.delete k) (fresh_cache i) d"
    by (simp_all add: refresh_def assms(2) st Let_def)
  show "cached (refresh i r) k = Some info" using mv assms(5) by (simp add: cached_def r)
  have "k \<notin> fst ` set (fresh_cache i)" using assms(5) by (simp add: map_of_eq_None_iff)
  then have "map_of (fold (\<lambda>(k, _). AList.delete k) (fresh_cache i) d) k = map_of d k"
    by (rule forget_other)
  then have t: "map_of (rv_deletedAt (refresh i r)) k = Some (ri_deletedClk i k)" using mv by (simp add: r)
  have "distinct (map fst (rv_deletedAt (refresh i r)))" using refresh_wf [OF assms(1), of i] by (simp add: resolver_wf_def)
  from evict_loop_look [OF this, of now "(rv_history (refresh i r), rv_deletedAt (refresh i r))" k] t mv
  show "cached (evictStaleEntries now (refresh i r)) k =
      (if Sub now (ri_deletedClk i k) \<ge> 2 * refreshPeriod then None else Some info)"
    by (auto simp: cached_def evictStaleEntries_def r assms(5) split: prod.splits)
qed

end
