(* ===== verification/Mapper.thy ===== *)
theory Mapper
  imports CgroupResolver
begin

text \<open>
  The agent's resolution of cgroup identifiers to pods, \<open>internal/ebpf/mapper.go\<close>. The
  container index and the cache hold pointers to shared \<open>PodInfo\<close> objects and \<open>Resolve\<close>
  writes to the object it finds, so the objects live in an explicit heap. The events of the
  informer are arguments, as are the calls of \<open>filepath.WalkDir\<close> under each root and the
  readings of the clock. \<open>None\<close> is a panic.
\<close>

record PodInfo =
  pi_PodName :: string
  pi_Namespace :: string
  pi_Deployment :: string
  pi_Container :: string
  pi_NodeName :: string
  pi_CachedAt :: instant

definition CacheTTL :: duration where "CacheTTL = 60 * Second"

text \<open>What the mapper reads of a pod: container statuses are names with raw identifiers, owners kinds with names.\<close>

record corev1_Pod =
  cp_Name :: string
  cp_Namespace :: string
  cp_NodeName :: string
  cp_ContainerStatuses :: "(string \<times> string) list"
  cp_OwnerReferences :: "(string \<times> string) list"

datatype informer_obj = PodObj corev1_Pod | TombstoneObj "corev1_Pod option" | OtherObj

record Mapper =
  mp_nodeName :: string
  mp_heap :: "PodInfo list"
  mp_podCache :: "64 word \<rightharpoonup> nat"
  mp_containerIndex :: "string \<rightharpoonup> nat"
  mp_cgroupPathCache :: "64 word \<rightharpoonup> string"

definition NewMapper :: "string \<Rightarrow> Mapper" where
  "NewMapper node = \<lparr>mp_nodeName = node, mp_heap = [], mp_podCache = Map.empty,
     mp_containerIndex = Map.empty, mp_cgroupPathCache = Map.empty\<rparr>"

section \<open>Identifiers and owners\<close>

definition is_hex :: "char \<Rightarrow> bool" where
  "is_hex c \<longleftrightarrow> c \<in> set ''abcdef0123456789''"

text \<open>The leftmost match of \<open>[a-f0-9]{64}\<close>, empty when there is none.\<close>

fun containerIDRe :: "string \<Rightarrow> string" where
  "containerIDRe [] = []"
| "containerIDRe (c # cs) =
     (if length (c # cs) \<ge> 64 \<and> list_all is_hex (take 64 (c # cs)) then take 64 (c # cs) else containerIDRe cs)"

definition resolveContainerID :: "string \<Rightarrow> string option" where
  "resolveContainerID path = (let match = containerIDRe path in if match = [] then None else Some match)"

fun strip_runtime :: "string list \<Rightarrow> string \<Rightarrow> string" where
  "strip_runtime [] raw = []"
| "strip_runtime (pre # ps) raw =
     (if HasPrefix raw pre then let i = TrimPrefix raw pre in if length i \<ge> 64 then take 64 i else i
      else strip_runtime ps raw)"

definition normaliseContainerID :: "string \<Rightarrow> string" where
  "normaliseContainerID raw = strip_runtime [''docker://'', ''containerd://'', ''cri-o://''] raw"

text \<open>\<open>strings.LastIndex\<close> of a single character.\<close>

fun last_index :: "char \<Rightarrow> string \<Rightarrow> nat option" where
  "last_index c [] = None"
| "last_index c (x # xs) =
     (case last_index c xs of Some i \<Rightarrow> Some (Suc i) | None \<Rightarrow> if x = c then Some 0 else None)"

fun ownerName_loop :: "(string \<times> string) list \<Rightarrow> string" where
  "ownerName_loop [] = []"
| "ownerName_loop ((kind, name) # refs) =
     (if kind \<in> {''ReplicaSet'', ''StatefulSet'', ''DaemonSet'', ''Job''}
      then (if kind = ''ReplicaSet''
            then (case last_index CHR ''-'' name of
                    Some idx \<Rightarrow> if idx > 0 then take idx name else name
                  | None \<Rightarrow> name)
            else name)
      else ownerName_loop refs)"

definition ownerName :: "corev1_Pod \<Rightarrow> string" where
  "ownerName pod = ownerName_loop (cp_OwnerReferences pod)"

section \<open>Informer events\<close>

text \<open>
  A fresh object per container; \<open>clk\<close> gives the successive readings of the clock. The debug
  line slices the identifier to twelve bytes, which panics on a shorter one.
\<close>

fun index_statuses ::
  "(nat \<Rightarrow> instant) \<Rightarrow> nat \<Rightarrow> corev1_Pod \<Rightarrow> (string \<times> string) list \<Rightarrow> Mapper \<Rightarrow> Mapper option" where
  "index_statuses clk n pod [] m = Some m"
| "index_statuses clk n pod ((name, raw) # css) m =
     (let containerID = normaliseContainerID raw
      in if containerID = [] then index_statuses clk n pod css m
         else let info = \<lparr>pi_PodName = cp_Name pod, pi_Namespace = cp_Namespace pod, pi_Deployment = ownerName pod,
                    pi_Container = name, pi_NodeName = cp_NodeName pod, pi_CachedAt = clk n\<rparr>;
                  m1 = m\<lparr>mp_heap := mp_heap m @ [info],
                         mp_containerIndex := (mp_containerIndex m)(containerID \<mapsto> length (mp_heap m))\<rparr>
              in if length containerID < 12 then None else index_statuses clk (Suc n) pod css m1)"

definition onPodAdd :: "(nat \<Rightarrow> instant) \<Rightarrow> informer_obj \<Rightarrow> Mapper \<Rightarrow> Mapper option" where
  "onPodAdd clk obj m =
     (case obj of PodObj pod \<Rightarrow> index_statuses clk 0 pod (cp_ContainerStatuses pod) m | _ \<Rightarrow> Some m)"

definition status_ids :: "corev1_Pod \<Rightarrow> string list" where
  "status_ids pod = filter (\<lambda>i. i \<noteq> []) (map (normaliseContainerID \<circ> snd) (cp_ContainerStatuses pod))"

definition names_pod :: "corev1_Pod \<Rightarrow> PodInfo \<Rightarrow> bool" where
  "names_pod pod info \<longleftrightarrow> pi_PodName info = cp_Name pod \<and> pi_Namespace info = cp_Namespace pod"

definition delete_pod :: "corev1_Pod \<Rightarrow> Mapper \<Rightarrow> Mapper" where
  "delete_pod pod m =
     m\<lparr>mp_containerIndex := fold (\<lambda>i ix. ix(i := None)) (status_ids pod) (mp_containerIndex m),
       mp_podCache := (\<lambda>k. case mp_podCache m k of
                             Some a \<Rightarrow> if names_pod pod (mp_heap m ! a) then None else Some a
                           | None \<Rightarrow> None)\<rparr>"

definition onPodDelete :: "informer_obj \<Rightarrow> Mapper \<Rightarrow> Mapper" where
  "onPodDelete obj m =
     (case obj of PodObj pod \<Rightarrow> delete_pod pod m | TombstoneObj (Some pod) \<Rightarrow> delete_pod pod m | _ \<Rightarrow> m)"

section \<open>Resolution\<close>

text \<open>
  The callback of the walk never returns an error, so the walk ends with the first directory
  of the inode or with nothing found.
\<close>

fun walkCgroupFS :: "(string \<times> walk_visit) list \<Rightarrow> 64 word \<Rightarrow> string option" where
  "walkCgroupFS [] target = None"
| "walkCgroupFS ((path, v) # vs) target =
     (if v = VisitDir target then (if path = [] then None else Some path) else walkCgroupFS vs target)"

type_synonym walks = "string \<Rightarrow> (string \<times> walk_visit) list"

definition resolveCgroupPath :: "walks \<Rightarrow> 64 word \<Rightarrow> Mapper \<Rightarrow> string option \<times> Mapper" where
  "resolveCgroupPath walk cgroupID m =
     (case mp_cgroupPathCache m cgroupID of
        Some p \<Rightarrow> (Some p, m)
      | None \<Rightarrow>
         let store = (\<lambda>p. (Some p, m\<lparr>mp_cgroupPathCache := (mp_cgroupPathCache m)(cgroupID \<mapsto> p)\<rparr>))
         in case walkCgroupFS (walk ''/sys/fs/cgroup'') cgroupID of
              Some p \<Rightarrow> store p
            | None \<Rightarrow> (case walkCgroupFS (walk ''/sys/fs/cgroup/memory'') cgroupID of
                Some p \<Rightarrow> store p
              | None \<Rightarrow> (None, m)))"

datatype resolve_error = CgroupNotFound "64 word" | NoContainerID string | NotIndexed string

definition slow_resolve :: "walks \<Rightarrow> instant \<Rightarrow> 64 word \<Rightarrow> Mapper \<Rightarrow> (resolve_error + PodInfo) \<times> Mapper" where
  "slow_resolve walk now cgroupID m =
     (case resolveCgroupPath walk cgroupID m of
        (None, m1) \<Rightarrow> (Inl (CgroupNotFound cgroupID), m1)
      | (Some path, m1) \<Rightarrow>
          (case resolveContainerID path of
             None \<Rightarrow> (Inl (NoContainerID path), m1)
           | Some containerID \<Rightarrow>
               (case mp_containerIndex m1 containerID of
                  None \<Rightarrow> (Inl (NotIndexed (take 12 containerID)), m1)
                | Some a \<Rightarrow>
                    let info = (mp_heap m1 ! a)\<lparr>pi_CachedAt := now\<rparr>
                    in (Inr info, m1\<lparr>mp_heap := (mp_heap m1)[a := info],
                                     mp_podCache := (mp_podCache m1)(cgroupID \<mapsto> a)\<rparr>))))"

text \<open>\<open>now\<close> is the reading that judges a cached entry, \<open>now'\<close> the one that stamps a new entry.\<close>

definition Resolve :: "walks \<Rightarrow> instant \<Rightarrow> instant \<Rightarrow> 64 word \<Rightarrow> Mapper \<Rightarrow> (resolve_error + PodInfo) \<times> Mapper" where
  "Resolve walk now now' cgroupID m =
     (case mp_podCache m cgroupID of
        Some a \<Rightarrow>
          if Sub now (pi_CachedAt (mp_heap m ! a)) < CacheTTL then (Inr (mp_heap m ! a), m)
          else slow_resolve walk now' cgroupID (m\<lparr>mp_podCache := (mp_podCache m)(cgroupID := None)\<rparr>)
      | None \<Rightarrow> slow_resolve walk now' cgroupID m)"

definition Invalidate :: "64 word \<Rightarrow> Mapper \<Rightarrow> Mapper" where
  "Invalidate cgroupID m = m\<lparr>mp_podCache := (mp_podCache m)(cgroupID := None),
     mp_cgroupPathCache := (mp_cgroupPathCache m)(cgroupID := None)\<rparr>"

section \<open>Runs\<close>

text \<open>
  The calls the informer and the loader make on a mapper, in any order, with the pods the
  informer has reported so far.
\<close>

definition reported :: "informer_obj \<Rightarrow> corev1_Pod list" where
  "reported obj = (case obj of PodObj pod \<Rightarrow> [pod] | _ \<Rightarrow> [])"

inductive mapper_trace :: "corev1_Pod list \<Rightarrow> Mapper \<Rightarrow> bool" where
  mapper_new: "mapper_trace [] (NewMapper node)"
| mapper_added: "mapper_trace reps m \<Longrightarrow> onPodAdd clk obj m = Some m' \<Longrightarrow> mapper_trace (reported obj @ reps) m'"
| mapper_deleted: "mapper_trace reps m \<Longrightarrow> mapper_trace reps (onPodDelete obj m)"
| mapper_resolved: "mapper_trace reps m \<Longrightarrow> mapper_trace reps (snd (Resolve walk now now' cg m))"
| mapper_invalidated: "mapper_trace reps m \<Longrightarrow> mapper_trace reps (Invalidate cg m)"

text \<open>Every pointer is valid.\<close>

definition mapper_wf :: "Mapper \<Rightarrow> bool" where
  "mapper_wf m \<longleftrightarrow> (\<forall>k a. mp_podCache m k = Some a \<longrightarrow> a < length (mp_heap m))
     \<and> (\<forall>i a. mp_containerIndex m i = Some a \<longrightarrow> a < length (mp_heap m))"

text \<open>No pointer leads to an object that satisfies \<open>P\<close>.\<close>

definition avoids :: "(PodInfo \<Rightarrow> bool) \<Rightarrow> Mapper \<Rightarrow> bool" where
  "avoids P m \<longleftrightarrow> (\<forall>k a. mp_podCache m k = Some a \<longrightarrow> \<not> P (mp_heap m ! a))
     \<and> (\<forall>i a. mp_containerIndex m i = Some a \<longrightarrow> \<not> P (mp_heap m ! a))"

text \<open>A property of the identity of an object, not of its time stamp.\<close>

definition timeless :: "(PodInfo \<Rightarrow> bool) \<Rightarrow> bool" where
  "timeless P \<longleftrightarrow> (\<forall>i t. P (i\<lparr>pi_CachedAt := t\<rparr>) = P i)"

lemma fold_remove: "fold (\<lambda>i ix. ix(i := None)) is m = m |` (- set is)"
  by (induction "is" arbitrary: m) (auto simp: fun_eq_iff restrict_map_def)

lemma delete_pod_fields:
  "mp_containerIndex (delete_pod pod m) = mp_containerIndex m |` (- set (status_ids pod))"
  "mp_podCache (delete_pod pod m) k = Some a \<longleftrightarrow> mp_podCache m k = Some a \<and> \<not> names_pod pod (mp_heap m ! a)"
  "mp_heap (delete_pod pod m) = mp_heap m"
  by (auto simp: delete_pod_def fold_remove split: option.splits)

section \<open>Invariants\<close>

lemma index_statuses_wf: "mapper_wf m \<Longrightarrow> index_statuses clk n pod css m = Some m' \<Longrightarrow> mapper_wf m'"
proof (induction clk n pod css m rule: index_statuses.induct)
  case (2 clk n pod name raw css m)
  have "mapper_wf (m\<lparr>mp_heap := mp_heap m @ [x], mp_containerIndex := (mp_containerIndex m)(i \<mapsto> length (mp_heap m))\<rparr>)" for x i
    using 2(3) by (auto simp: mapper_wf_def less_SucI)
  then show ?case using 2 by (auto simp: Let_def split: if_splits)
qed simp

lemma delete_pod_wf: "mapper_wf m \<Longrightarrow> mapper_wf (delete_pod pod m)"
  by (auto simp: mapper_wf_def delete_pod_fields restrict_map_def)

text \<open>What a resolution may change: paths, and on success one time stamp and one cache entry.\<close>

lemma resolveCgroupPath_same:
  "resolveCgroupPath walk cg m = (p, m1) \<Longrightarrow> mp_heap m1 = mp_heap m \<and> mp_podCache m1 = mp_podCache m
     \<and> mp_containerIndex m1 = mp_containerIndex m"
  by (auto simp: resolveCgroupPath_def Let_def split: option.splits)

lemma slow_resolve_cases:
  obtains (failed) e m1 where "slow_resolve walk now cg m = (Inl e, m1)"
      "mp_heap m1 = mp_heap m" "mp_podCache m1 = mp_podCache m" "mp_containerIndex m1 = mp_containerIndex m"
  | (found) i a m1 where "slow_resolve walk now cg m = (Inr ((mp_heap m ! a)\<lparr>pi_CachedAt := now\<rparr>), m1)"
      "mp_containerIndex m i = Some a" "mp_heap m1 = (mp_heap m)[a := (mp_heap m ! a)\<lparr>pi_CachedAt := now\<rparr>]"
      "mp_podCache m1 = (mp_podCache m)(cg \<mapsto> a)" "mp_containerIndex m1 = mp_containerIndex m"
proof -
  obtain p m1 where r: "resolveCgroupPath walk cg m = (p, m1)" by fastforce
  note same = resolveCgroupPath_same [OF r]
  consider e where "slow_resolve walk now cg m = (Inl e, m1)"
    | path i a where "p = Some path" "resolveContainerID path = Some i" "mp_containerIndex m i = Some a"
    using same by (cases p; cases "resolveContainerID (the p)"; cases "mp_containerIndex m (the (resolveContainerID (the p)))")
      (auto simp: slow_resolve_def r)
  then show thesis
  proof cases
    case 1
    then show ?thesis using failed same by blast
  next
    case 2
    let ?x = "(mp_heap m ! a)\<lparr>pi_CachedAt := now\<rparr>"
    have "slow_resolve walk now cg m = (Inr ?x, m1\<lparr>mp_heap := (mp_heap m)[a := ?x], mp_podCache := (mp_podCache m)(cg \<mapsto> a)\<rparr>)"
      using 2 same by (simp add: slow_resolve_def r Let_def)
    then show ?thesis using found [of a _ i] 2(3) same by simp
  qed
qed

lemma resolve_drop:
  "mapper_wf m \<Longrightarrow> mapper_wf (m\<lparr>mp_podCache := (mp_podCache m)(cg := None)\<rparr>)"
  "avoids P m \<Longrightarrow> avoids P (m\<lparr>mp_podCache := (mp_podCache m)(cg := None)\<rparr>)"
  by (auto simp: mapper_wf_def avoids_def split: if_splits)

lemma slow_resolve_wf: "mapper_wf m \<Longrightarrow> mapper_wf (snd (slow_resolve walk now cg m))"
  by (cases rule: slow_resolve_cases [of walk now cg m]) (auto simp: mapper_wf_def split: if_splits)

lemma Resolve_wf: "mapper_wf m \<Longrightarrow> mapper_wf (snd (Resolve walk now now' cg m))"
  by (simp add: Resolve_def slow_resolve_wf resolve_drop split: option.splits)

lemma Invalidate_wf: "mapper_wf m \<Longrightarrow> mapper_wf (Invalidate cg m)"
  by (auto simp: mapper_wf_def Invalidate_def split: if_splits)

lemma onPodAdd_wf: "mapper_wf m \<Longrightarrow> onPodAdd clk obj m = Some m' \<Longrightarrow> mapper_wf m'"
  by (auto simp: onPodAdd_def split: informer_obj.splits intro: index_statuses_wf)

lemma onPodDelete_wf: "mapper_wf m \<Longrightarrow> mapper_wf (onPodDelete obj m)"
  by (auto simp: onPodDelete_def delete_pod_wf split: informer_obj.splits option.splits)

lemma mapper_trace_wf: "mapper_trace reps m \<Longrightarrow> mapper_wf m"
proof (induction rule: mapper_trace.induct)
  case (mapper_added reps m clk obj m')
  then show ?case by (blast intro: onPodAdd_wf)
qed (simp_all add: onPodDelete_wf Resolve_wf Invalidate_wf, simp add: NewMapper_def mapper_wf_def)

text \<open>
  Where the index comes from: under an identifier stands an object of a pod that was reported
  with this identifier in its status, for the container of that status.
\<close>

definition from_reports :: "corev1_Pod list \<Rightarrow> Mapper \<Rightarrow> bool" where
  "from_reports reps m \<longleftrightarrow> (\<forall>i a. mp_containerIndex m i = Some a \<longrightarrow>
     (\<exists>q \<in> set reps. names_pod q (mp_heap m ! a) \<and> i \<noteq> []
        \<and> (\<exists>raw. (pi_Container (mp_heap m ! a), raw) \<in> set (cp_ContainerStatuses q) \<and> normaliseContainerID raw = i)))"

lemma from_reports_mono: "from_reports reps m \<Longrightarrow> set reps \<subseteq> set reps' \<Longrightarrow> from_reports reps' m"
  unfolding from_reports_def by blast

lemma index_statuses_from_reports:
  "index_statuses clk n pod css m = Some m' \<Longrightarrow> mapper_wf m \<Longrightarrow> from_reports reps m \<Longrightarrow> pod \<in> set reps \<Longrightarrow>
   set css \<subseteq> set (cp_ContainerStatuses pod) \<Longrightarrow> from_reports reps m'"
proof (induction clk n pod css m rule: index_statuses.induct)
  case (2 clk n pod name raw css m)
  let ?x = "\<lparr>pi_PodName = cp_Name pod, pi_Namespace = cp_Namespace pod, pi_Deployment = ownerName pod,
      pi_Container = name, pi_NodeName = cp_NodeName pod, pi_CachedAt = clk n\<rparr>"
  let ?m1 = "m\<lparr>mp_heap := mp_heap m @ [?x], mp_containerIndex := (mp_containerIndex m)(normaliseContainerID raw \<mapsto> length (mp_heap m))\<rparr>"
  show ?case
  proof (cases "normaliseContainerID raw = []")
    case True
    then show ?thesis using 2 by simp
  next
    case False
    have old: "\<exists>q \<in> set reps. names_pod q (mp_heap m ! a) \<and> i \<noteq> []
        \<and> (\<exists>raw. (pi_Container (mp_heap m ! a), raw) \<in> set (cp_ContainerStatuses q) \<and> normaliseContainerID raw = i)
        \<and> a < length (mp_heap m)" if "mp_containerIndex m i = Some a" for i a
      using 2(4,5) that by (fastforce simp: from_reports_def mapper_wf_def)
    have "\<exists>q \<in> set reps. names_pod q ?x \<and> (\<exists>r. (name, r) \<in> set (cp_ContainerStatuses q) \<and> normaliseContainerID r = normaliseContainerID raw)"
      using 2(6,7) by (intro bexI [of _ pod]) (auto simp: names_pod_def)
    then have "from_reports reps ?m1"
      using old False by (fastforce simp: from_reports_def nth_append)
    moreover have "mapper_wf ?m1" using 2(4) by (auto simp: mapper_wf_def less_SucI)
    ultimately show ?thesis using 2(2) [OF refl False refl refl] 2(3,6,7) False by (simp add: Let_def split: if_splits)
  qed
qed simp

lemma stamped_same:
  "names_pod q (xs[a := (xs ! a)\<lparr>pi_CachedAt := t\<rparr>] ! b) = names_pod q (xs ! b)"
  "pi_Container (xs[a := (xs ! a)\<lparr>pi_CachedAt := t\<rparr>] ! b) = pi_Container (xs ! b)"
  by (cases "a < length xs"; cases "a = b"; simp add: names_pod_def list_update_beyond)
    (cases "a < length xs"; cases "a = b"; simp add: list_update_beyond)

lemma slow_resolve_from_reports: "from_reports reps m \<Longrightarrow> from_reports reps (snd (slow_resolve walk now cg m))"
  by (cases rule: slow_resolve_cases [of walk now cg m]) (simp_all add: from_reports_def stamped_same)

lemma mapper_trace_from_reports: "mapper_trace reps m \<Longrightarrow> from_reports reps m"
proof (induction rule: mapper_trace.induct)
  case (mapper_added reps m clk obj m')
  then show ?case
    using from_reports_mono [of reps m "reported obj @ reps"] mapper_trace_wf [of reps m]
      index_statuses_from_reports [of clk 0 _ _ m m' "reported obj @ reps"]
    by (cases obj) (auto simp: onPodAdd_def reported_def)
next
  case (mapper_deleted reps m obj)
  then show ?case
    by (auto simp: onPodDelete_def from_reports_def delete_pod_fields restrict_map_def split: informer_obj.splits option.splits if_splits)
next
  case (mapper_resolved reps m walk now now' cg)
  have "from_reports reps (m\<lparr>mp_podCache := (mp_podCache m)(cg := None)\<rparr>)" using mapper_resolved(2) by (simp add: from_reports_def)
  then show ?case using mapper_resolved(2) slow_resolve_from_reports by (auto simp: Resolve_def split: option.splits)
qed (simp_all add: from_reports_def NewMapper_def Invalidate_def)

section \<open>Deleted pods\<close>

text \<open>
  Once no pointer leads to a pod, none does until the informer reports the pod again, and no
  resolution names it.
\<close>

lemma index_statuses_avoids:
  "mapper_wf m \<Longrightarrow> avoids P m \<Longrightarrow> (\<forall>i. P i \<longrightarrow> names_pod p i) \<Longrightarrow>
   \<not> (cp_Name pod = cp_Name p \<and> cp_Namespace pod = cp_Namespace p) \<Longrightarrow>
   index_statuses clk n pod css m = Some m' \<Longrightarrow> avoids P m'"
proof (induction clk n pod css m rule: index_statuses.induct)
  case (2 clk n pod name raw css m)
  let ?x = "\<lparr>pi_PodName = cp_Name pod, pi_Namespace = cp_Namespace pod, pi_Deployment = ownerName pod,
      pi_Container = name, pi_NodeName = cp_NodeName pod, pi_CachedAt = clk n\<rparr>"
  let ?m1 = "m\<lparr>mp_heap := mp_heap m @ [?x], mp_containerIndex := (mp_containerIndex m)(normaliseContainerID raw \<mapsto> length (mp_heap m))\<rparr>"
  have "\<not> P ?x" using 2(5,6) by (auto simp: names_pod_def)
  then have w: "mapper_wf ?m1" "avoids P ?m1"
    using 2(3,4) by (auto simp: mapper_wf_def avoids_def nth_append less_SucI)
  show ?case
  proof (cases "normaliseContainerID raw = []")
    case True
    then show ?thesis using 2 by simp
  next
    case False
    then show ?thesis using 2(2) [OF refl False refl refl] w 2(5-7) by (simp add: Let_def split: if_splits)
  qed
qed simp

lemma delete_pod_avoids_mono: "avoids P m \<Longrightarrow> avoids P (delete_pod pod m)"
  by (auto simp: avoids_def delete_pod_fields restrict_map_def)

lemma slow_resolve_avoids:
  assumes "mapper_wf m" "avoids P m" "timeless P"
  shows "avoids P (snd (slow_resolve walk now cg m))" "fst (slow_resolve walk now cg m) = Inr info \<Longrightarrow> \<not> P info"
proof -
  have "avoids P (snd (slow_resolve walk now cg m)) \<and> (fst (slow_resolve walk now cg m) = Inr info \<longrightarrow> \<not> P info)"
  proof (cases rule: slow_resolve_cases [of walk now cg m])
    case (found i a m1)
    have "\<not> P (mp_heap m ! a)" "a < length (mp_heap m)" using found(2) assms(1,2) by (auto simp: avoids_def mapper_wf_def)
    then have new: "\<not> P ((mp_heap m ! a)\<lparr>pi_CachedAt := now\<rparr>)" using assms(3) by (simp add: timeless_def)
    then have "\<not> P (mp_heap m ! b) \<Longrightarrow> \<not> P (mp_heap m1 ! b)" for b
      using found(3) \<open>a < _\<close> by (cases "b = a") auto
    then have "avoids P m1" using found(4,5) assms(2) \<open>\<not> P (mp_heap m ! a)\<close> by (simp add: avoids_def)
    then show ?thesis using found(1) new by auto
  qed (use assms in \<open>simp add: avoids_def\<close>)
  then show "avoids P (snd (slow_resolve walk now cg m))" "fst (slow_resolve walk now cg m) = Inr info \<Longrightarrow> \<not> P info" by auto
qed

lemma Resolve_avoids:
  assumes "mapper_wf m" "avoids P m" "timeless P"
  shows "avoids P (snd (Resolve walk now now' cg m))" "fst (Resolve walk now now' cg m) = Inr info \<Longrightarrow> \<not> P info"
proof -
  let ?d = "m\<lparr>mp_podCache := (mp_podCache m)(cg := None)\<rparr>"
  note d = slow_resolve_avoids [OF resolve_drop(1) [OF assms(1), of cg] resolve_drop(2) [OF assms(2), of cg] assms(3), of walk now' cg]
  note s = slow_resolve_avoids [OF assms, of walk now' cg]
  show "avoids P (snd (Resolve walk now now' cg m))"
    using d(1) s(1) assms(2) by (simp add: Resolve_def split: option.splits)
  show "fst (Resolve walk now now' cg m) = Inr info \<Longrightarrow> \<not> P info"
    using d(2) s(2) assms(2) by (auto simp: Resolve_def avoids_def split: option.splits if_splits)
qed

text \<open>Runs in which the informer does not report the pod \<open>p\<close> again.\<close>

inductive quiet_run :: "corev1_Pod \<Rightarrow> Mapper \<Rightarrow> Mapper \<Rightarrow> bool" for p where
  quiet_refl: "quiet_run p m m"
| quiet_add: "quiet_run p m m1 \<Longrightarrow> onPodAdd clk (PodObj q) m1 = Some m2 \<Longrightarrow>
    cp_Name q \<noteq> cp_Name p \<or> cp_Namespace q \<noteq> cp_Namespace p \<Longrightarrow> quiet_run p m m2"
| quiet_delete: "quiet_run p m m1 \<Longrightarrow> quiet_run p m (onPodDelete obj m1)"
| quiet_resolve: "quiet_run p m m1 \<Longrightarrow> quiet_run p m (snd (Resolve walk now now' cg m1))"
| quiet_invalidate: "quiet_run p m m1 \<Longrightarrow> quiet_run p m (Invalidate cg m1)"

lemma quiet_run_avoids:
  "quiet_run p m m' \<Longrightarrow> mapper_wf m \<Longrightarrow> avoids P m \<Longrightarrow> timeless P \<Longrightarrow> (\<forall>i. P i \<longrightarrow> names_pod p i) \<Longrightarrow> mapper_wf m' \<and> avoids P m'"
proof (induction rule: quiet_run.induct)
  case (quiet_add m m1 clk q m2)
  then show ?case
    using index_statuses_wf [of m1] index_statuses_avoids [of m1 P p q clk 0] by (auto simp: onPodAdd_def)
next
  case (quiet_delete m m1 obj)
  then show ?case
    by (auto simp: onPodDelete_def delete_pod_wf delete_pod_avoids_mono split: informer_obj.splits option.splits)
next
  case (quiet_resolve m m1 walk now now' cg)
  then show ?case using Resolve_avoids(1) by (simp add: Resolve_wf)
next
  case (quiet_invalidate m m1 cg)
  then show ?case by (auto simp: Invalidate_wf) (auto simp: avoids_def Invalidate_def split: if_splits)
qed simp

text \<open>
  What a deletion overlooks: a container of the pod that an earlier report named under an
  identifier that is not in the status the pod is deleted with.
\<close>

definition leftover :: "corev1_Pod list \<Rightarrow> corev1_Pod \<Rightarrow> PodInfo \<Rightarrow> bool" where
  "leftover reps p info \<longleftrightarrow> (\<exists>q \<in> set reps. cp_Name q = cp_Name p \<and> cp_Namespace q = cp_Namespace p
     \<and> (\<exists>raw. (pi_Container info, raw) \<in> set (cp_ContainerStatuses q) \<and> normaliseContainerID raw \<noteq> []
          \<and> normaliseContainerID raw \<notin> set (status_ids p)))"

lemma leftover_ids:
  "leftover reps p info \<Longrightarrow>
   \<exists>q \<in> set reps. cp_Name q = cp_Name p \<and> cp_Namespace q = cp_Namespace p \<and> \<not> set (status_ids q) \<subseteq> set (status_ids p)"
proof -
  assume "leftover reps p info"
  then obtain q raw where q: "q \<in> set reps" "cp_Name q = cp_Name p" "cp_Namespace q = cp_Namespace p"
      "(pi_Container info, raw) \<in> set (cp_ContainerStatuses q)" "normaliseContainerID raw \<noteq> []"
      "normaliseContainerID raw \<notin> set (status_ids p)"
    unfolding leftover_def by blast
  have "normaliseContainerID raw \<in> set (status_ids q)"
    using q(4,5) by (auto simp: status_ids_def intro!: image_eqI [where x = "(pi_Container info, raw)"])
  then show ?thesis using q by blast
qed

lemma delete_pod_gone:
  assumes "from_reports reps m"
  shows "avoids (\<lambda>i. names_pod p i \<and> \<not> leftover reps p i) (delete_pod p m)"
proof -
  have "leftover reps p (mp_heap m ! a)"
    if i: "mp_containerIndex m i = Some a" "i \<notin> set (status_ids p)" "names_pod p (mp_heap m ! a)" for i a
  proof -
    obtain q raw where "q \<in> set reps" "names_pod q (mp_heap m ! a)" "i \<noteq> []"
        "(pi_Container (mp_heap m ! a), raw) \<in> set (cp_ContainerStatuses q)" "normaliseContainerID raw = i"
      using assms i(1) unfolding from_reports_def by blast
    then show ?thesis using i(2,3) unfolding leftover_def names_pod_def by metis
  qed
  then show ?thesis by (auto simp: avoids_def delete_pod_fields restrict_map_def split: if_splits)
qed

lemma deleted_pod_gone:
  assumes "mapper_trace reps m" "obj \<in> {PodObj p, TombstoneObj (Some p)}" "quiet_run p (onPodDelete obj m) m'"
    and "fst (Resolve walk now now' cg m') = Inr info" "names_pod p info"
  shows "leftover reps p info"
proof -
  let ?P = "\<lambda>i. names_pod p i \<and> \<not> leftover reps p i"
  have t: "timeless ?P" by (simp add: timeless_def names_pod_def leftover_def)
  have e: "onPodDelete obj m = delete_pod p m" using assms(2) by (auto simp: onPodDelete_def)
  have "mapper_wf m' \<and> avoids ?P m'"
    using quiet_run_avoids [OF assms(3) _ _ t] e delete_pod_wf [OF mapper_trace_wf [OF assms(1)]]
      delete_pod_gone [OF mapper_trace_from_reports [OF assms(1)]] by simp
  then show ?thesis using Resolve_avoids(2) [OF _ _ t assms(4)] assms(5) by blast
qed

section \<open>Reported pods\<close>

text \<open>The identifier of a path whose earlier positions start no run of 64 hexadecimal digits.\<close>

lemma containerIDRe_mono: "containerIDRe s \<noteq> [] \<Longrightarrow> length (containerIDRe s) = 64 \<and> list_all is_hex (containerIDRe s)"
  by (induction s rule: containerIDRe.induct) (auto split: if_splits)

lemma containerIDRe_segment:
  assumes "list_all is_hex i" "length i = 64" "\<forall>k < length dir. \<not> list_all is_hex (take 64 (drop k (dir @ i @ rest)))"
  shows "containerIDRe (dir @ i @ rest) = i"
  using assms(3)
proof (induction dir)
  case Nil
  have "i \<noteq> []" using assms(2) by auto
  then obtain c cs where "i = c # cs" by (cases i) auto
  then show ?case using assms(1,2) by simp
next
  case (Cons c dir)
  have "\<not> list_all is_hex (take 64 (c # dir @ i @ rest))" using Cons.prems [rule_format, of 0] by simp
  moreover have "\<forall>k < length dir. \<not> list_all is_hex (take 64 (drop k (dir @ i @ rest)))"
    using Cons.prems by (auto dest: spec [of _ "Suc _"])
  ultimately show ?case using Cons.IH by (simp only: append_Cons containerIDRe.simps HOL.simp_thms if_False)
qed

lemma index_statuses_keeps:
  "index_statuses clk n pod css m = Some m' \<Longrightarrow> i \<notin> (normaliseContainerID \<circ> snd) ` set css \<Longrightarrow>
   mp_containerIndex m i = Some a \<Longrightarrow> a < length (mp_heap m) \<Longrightarrow>
   mp_containerIndex m' i = Some a \<and> mp_heap m' ! a = mp_heap m ! a \<and> a < length (mp_heap m')"
  by (induction clk n pod css m rule: index_statuses.induct)
    (auto simp: Let_def nth_append split: if_splits)

lemma index_statuses_same: "index_statuses clk n pod css m = Some m' \<Longrightarrow>
   mp_podCache m' = mp_podCache m \<and> mp_cgroupPathCache m' = mp_cgroupPathCache m"
  by (induction clk n pod css m rule: index_statuses.induct) (auto simp: Let_def split: if_splits)

lemma index_statuses_indexed:
  "index_statuses clk n pod css m = Some m' \<Longrightarrow> (name, raw) \<in> set css \<Longrightarrow> normaliseContainerID raw \<noteq> [] \<Longrightarrow>
   distinct (map (normaliseContainerID \<circ> snd) css) \<Longrightarrow>
   \<exists>a. mp_containerIndex m' (normaliseContainerID raw) = Some a \<and> names_pod pod (mp_heap m' ! a)
     \<and> pi_Container (mp_heap m' ! a) = name \<and> pi_Deployment (mp_heap m' ! a) = ownerName pod"
proof (induction clk n pod css m rule: index_statuses.induct)
  case (2 clk n pod name' raw' css m)
  let ?x = "\<lparr>pi_PodName = cp_Name pod, pi_Namespace = cp_Namespace pod, pi_Deployment = ownerName pod,
      pi_Container = name', pi_NodeName = cp_NodeName pod, pi_CachedAt = clk n\<rparr>"
  let ?m1 = "m\<lparr>mp_heap := mp_heap m @ [?x], mp_containerIndex := (mp_containerIndex m)(normaliseContainerID raw' \<mapsto> length (mp_heap m))\<rparr>"
  show ?case
  proof (cases "normaliseContainerID raw' = []")
    case True
    then show ?thesis using 2 by auto
  next
    case False
    then have r: "index_statuses clk (Suc n) pod css ?m1 = Some m'" using 2(3) by (simp add: Let_def split: if_splits)
    show ?thesis
    proof (cases "(name, raw) = (name', raw')")
      case True
      then have "normaliseContainerID raw \<notin> (normaliseContainerID \<circ> snd) ` set css" using 2(6) by auto
      from index_statuses_keeps [OF r this, of "length (mp_heap m)"] show ?thesis
        using True by (simp add: names_pod_def)
    next
      case ne: False
      then show ?thesis using 2(2) [OF refl False refl refl _ r] 2(3-6) False by (auto simp: Let_def split: if_splits)
    qed
  qed
qed simp

text \<open>A cgroup that is not cached resolves to the pod whose container its directory names.\<close>

lemma added_pod_resolved:
  assumes "onPodAdd clk (PodObj pod) m = Some m'" "(name, raw) \<in> set (cp_ContainerStatuses pod)"
    and "normaliseContainerID raw \<noteq> []" "distinct (map (normaliseContainerID \<circ> snd) (cp_ContainerStatuses pod))"
    and "mp_podCache m cg = None" "fst (resolveCgroupPath walk cg m') = Some path"
    and "resolveContainerID path = Some (normaliseContainerID raw)"
  shows "\<exists>info. fst (Resolve walk now now' cg m') = Inr info \<and> names_pod pod info \<and> pi_Container info = name
    \<and> pi_Deployment info = ownerName pod \<and> pi_CachedAt info = now'"
proof -
  have i: "index_statuses clk 0 pod (cp_ContainerStatuses pod) m = Some m'" using assms(1) by (simp add: onPodAdd_def)
  obtain a where a: "mp_containerIndex m' (normaliseContainerID raw) = Some a" "names_pod pod (mp_heap m' ! a)"
    "pi_Container (mp_heap m' ! a) = name" "pi_Deployment (mp_heap m' ! a) = ownerName pod"
    using index_statuses_indexed [OF i assms(2-4)] by blast
  obtain m1 where r: "resolveCgroupPath walk cg m' = (Some path, m1)" using assms(6) by (cases "resolveCgroupPath walk cg m'") auto
  have "mp_podCache m' cg = None" using index_statuses_same [OF i] assms(5) by simp
  then show ?thesis
    using a resolveCgroupPath_same [OF r] by (simp add: Resolve_def slow_resolve_def r assms(7) Let_def names_pod_def)
qed

end
