(* ===== verification/AgentSignals.thy ===== *)
theory AgentSignals
  imports Mapper Bus ShippedRules
begin

text \<open>
  How the agent sends signals: the publisher of \<open>internal/ebpf/publisher.go\<close> and the
  helpers \<open>resolveOrUnknown\<close> and \<open>emit\<close> of \<open>internal/ebpf/loader.go\<close>. A value is \<open>None\<close> when
  it is not a finite float, which \<open>json.Marshal\<close> refuses. The readings of the clock, the
  walks of the cgroup file system and the answers of \<open>PublishAsync\<close> are those of an
  environment, numbered in the order of the calls.
\<close>

section \<open>Publisher\<close>

record PublisherConfig =
  pc_NATSUrl :: string
  pc_NodeName :: string
  pc_StreamName :: string

record Publisher =
  pu_cfg :: PublisherConfig
  pu_topic :: string

record AgentSignal =
  gs_Version :: string
  gs_Node :: string
  gs_Pod :: string
  gs_Namespace :: string
  gs_Deployment :: string
  gs_Container :: string
  gs_Metric :: string
  gs_Value :: "f64 option"
  gs_Unit :: string
  gs_DurationMs :: int
  gs_Timestamp :: int
  gs_CgroupID :: "64 word"
  gs_PID :: int

definition marshal_AgentSignal :: "AgentSignal \<Rightarrow> json option" where
  "marshal_AgentSignal e =
     (case gs_Value e of
        None \<Rightarrow> None
      | Some v \<Rightarrow> Some (JObj ([(''version'', JStr (gs_Version e)), (''node'', JStr (gs_Node e)), (''pod'', JStr (gs_Pod e)),
          (''namespace'', JStr (gs_Namespace e)), (''deployment'', JStr (gs_Deployment e)), (''container'', JStr (gs_Container e)),
          (''metric'', JStr (gs_Metric e)), (''value'', json_float v), (''unit'', JStr (gs_Unit e)),
          (''duration_ms'', JInt (gs_DurationMs e)), (''timestamp'', JInt (gs_Timestamp e)), (''cgroup_id'', JInt (uint (gs_CgroupID e)))]
          @ (if gs_PID e = 0 then [] else [(''pid'', JInt (gs_PID e))]))))"

datatype publisher_error = ConnectFailed string string | JetStreamInit string | MarshalFailed | PublishFailed string string

text \<open>\<open>connect\<close> and \<open>jsNew\<close> are the errors of the NATS library; the error of \<open>ensureStream\<close> is only logged.\<close>

definition NewPublisher :: "(string \<Rightarrow> string option) \<Rightarrow> string option \<Rightarrow> PublisherConfig \<Rightarrow> publisher_error + Publisher" where
  "NewPublisher connect jsNew cfg0 =
     (let cfg = (if pc_StreamName cfg0 = [] then cfg0\<lparr>pc_StreamName := ''SELFHEAL''\<rparr> else cfg0)
      in case connect (pc_NATSUrl cfg) of
           Some err \<Rightarrow> Inl (ConnectFailed (pc_NATSUrl cfg) err)
         | None \<Rightarrow>
            (case jsNew of
               Some err \<Rightarrow> Inl (JetStreamInit err)
             | None \<Rightarrow> Inr \<lparr>pu_cfg = cfg, pu_topic = ''selfheal.signals.'' @ pc_NodeName cfg\<rparr>))"

record AgentStreamConfig = StreamConfig +
  sc_Retention :: string
  sc_Replicas :: int

definition ensureStream_config :: "Publisher \<Rightarrow> AgentStreamConfig" where
  "ensureStream_config p =
     \<lparr>sc_Name = pc_StreamName (pu_cfg p),
      sc_Subjects = [''selfheal.signals.*'', ''selfheal.anomalies.*'', ''selfheal.actions.*'', ''selfheal.outcomes.*'', ''selfheal.audit''],
      sc_MaxAge = 24 * Hour, sc_Storage = ''file'', sc_Discard = ''old'', sc_MaxMsgs = 5000000,
      sc_Retention = ''workqueue'', sc_Replicas = 1\<rparr>"

definition Agent_PublishSignal ::
  "instant \<Rightarrow> (string \<Rightarrow> json \<Rightarrow> string option) \<Rightarrow> Publisher \<Rightarrow> AgentSignal \<Rightarrow> publisher_error option \<times> (string \<times> json) list" where
  "Agent_PublishSignal now pub p event0 =
     (let event1 = event0\<lparr>gs_Version := ''1.0''\<rparr>;
          event = (if gs_Timestamp event1 = 0 then event1\<lparr>gs_Timestamp := to_UnixMilli now\<rparr> else event1)
      in case marshal_AgentSignal event of
           None \<Rightarrow> (Some MarshalFailed, [])
         | Some data \<Rightarrow>
            (case pub (pu_topic p) data of
               Some err \<Rightarrow> (Some (PublishFailed (pu_topic p) err), [])
             | None \<Rightarrow> (None, [(pu_topic p, data)])))"

section \<open>Emission\<close>

record agent_env =
  ae_clock :: "nat \<Rightarrow> instant"
  ae_walk :: "nat \<Rightarrow> walks"
  ae_publish :: "nat \<Rightarrow> string \<Rightarrow> json \<Rightarrow> string option"

text \<open>The loader with its mapper; the counter is the sequence of its increments.\<close>

record Loader =
  ld_mapper :: Mapper
  ld_publisher :: "Publisher option"
  ld_signalsTotal :: "(string \<times> string \<times> string) list"
  ld_sent :: "(string \<times> json) list"
  ld_calls :: nat

definition NewLoader :: "Mapper \<Rightarrow> Loader" where
  "NewLoader m = \<lparr>ld_mapper = m, ld_publisher = None, ld_signalsTotal = [], ld_sent = [], ld_calls = 0\<rparr>"

definition SetPublisher :: "Publisher \<Rightarrow> Loader \<Rightarrow> Loader" where
  "SetPublisher p l = l\<lparr>ld_publisher := Some p\<rparr>"

type_synonym identity = "string \<times> string \<times> string \<times> string"

definition resolveOrUnknown :: "agent_env \<Rightarrow> 64 word \<Rightarrow> Loader \<Rightarrow> identity \<times> Loader" where
  "resolveOrUnknown env cgroupID l =
     (let n = ld_calls l;
          (r, m) = Resolve (ae_walk env n) (ae_clock env n) (ae_clock env (Suc n)) cgroupID (ld_mapper l);
          l1 = l\<lparr>ld_mapper := m, ld_calls := n + 2\<rparr>
      in case r of
           Inl _ \<Rightarrow> ((''<unknown>'', ''<unknown>'', [], []), l1)
         | Inr info \<Rightarrow> ((pi_PodName info, pi_Namespace info, pi_Deployment info, pi_Container info), l1))"

definition emit :: "agent_env \<Rightarrow> AgentSignal \<Rightarrow> Loader \<Rightarrow> Loader" where
  "emit env sig l =
     (let l1 = l\<lparr>ld_signalsTotal := ld_signalsTotal l @ [(gs_Node sig, gs_Metric sig, gs_Pod sig)]\<rparr>
      in case ld_publisher l of
           None \<Rightarrow> l1
         | Some p \<Rightarrow>
            let n = ld_calls l; (err, out) = Agent_PublishSignal (ae_clock env n) (ae_publish env n) p sig
            in l1\<lparr>ld_sent := ld_sent l @ out, ld_calls := Suc n\<rparr>)"

text \<open>The literal of a signal: version and timestamp are left to the publisher.\<close>

definition signal :: "Loader \<Rightarrow> identity \<Rightarrow> string \<Rightarrow> f64 option \<Rightarrow> string \<Rightarrow> int \<Rightarrow> 64 word \<Rightarrow> int \<Rightarrow> AgentSignal" where
  "signal l who metric value unit durationMs cgroupID pid =
     (case who of (pod, ns, dep, container) \<Rightarrow>
        \<lparr>gs_Version = [], gs_Node = mp_nodeName (ld_mapper l), gs_Pod = pod, gs_Namespace = ns, gs_Deployment = dep,
         gs_Container = container, gs_Metric = metric, gs_Value = value, gs_Unit = unit, gs_DurationMs = durationMs,
         gs_Timestamp = 0, gs_CgroupID = cgroupID, gs_PID = pid\<rparr>)"

section \<open>What the analyzer decodes\<close>

definition decoded_signal :: "AgentSignal \<Rightarrow> f64 \<Rightarrow> SignalEvent" where
  "decoded_signal e v =
     \<lparr>sg_Version = gs_Version e, sg_Node = gs_Node e, sg_Pod = gs_Pod e, sg_Namespace = gs_Namespace e,
      sg_Deployment = gs_Deployment e, sg_Container = gs_Container e, sg_Metric = gs_Metric e, sg_Value = v,
      sg_Unit = gs_Unit e, sg_DurationMs = gs_DurationMs e, sg_Timestamp = gs_Timestamp e, sg_CgroupID = uint (gs_CgroupID e)\<rparr>"

definition int64 :: "int \<Rightarrow> bool" where
  "int64 i \<longleftrightarrow> - (2 ^ 63) \<le> i \<and> i < 2 ^ 63"

lemma as_uint64_uint [simp]: "as_uint64 (JInt (uint (w :: 64 word))) = Some (uint w)"
  using uint_lt2p [of w] by (simp add: as_uint64_def)

lemma as_int_int64: "int64 i \<Longrightarrow> as_int (JInt i) = Some i"
  by (simp add: as_int_def int64_def)

lemma signal_decoded:
  assumes "gs_Value e = Some v" "fl64 v = v" "int64 (gs_DurationMs e)" "int64 (gs_Timestamp e)"
  shows "map_option (\<lambda>d. unmarshal_SignalEvent (Some d)) (marshal_AgentSignal e) = Some (Some (decoded_signal e v))"
  using assms as_float_json_float [OF assms(2)]
  by (simp add: marshal_AgentSignal_def unmarshal_SignalEvent_def unmarshal_signal_fields_def Let_def
      decode_defs as_int_int64 decoded_signal_def)

end
