(* ===== verification/GoBinary.thy ===== *)
theory GoBinary
  imports Prelude "HOL-Library.Word"
begin

text \<open>
  Little-endian decoding of \<open>encoding/binary\<close> and the reads of a ring buffer: what the
  agent and the collectors use to turn the records of the probes into Go values. The
  encoding at the end is the probes' side; decoding inverts it.
\<close>

section \<open>Ring buffers\<close>

text \<open>A read ends with a record, with the error of a closed reader or with another error.\<close>

datatype ring_read = RingClosed | RingError | RingRecord "8 word list"

section \<open>Decoding\<close>

definition le_nat :: "8 word list \<Rightarrow> nat" where
  "le_nat bs = foldr (\<lambda>b acc. unat b + 256 * acc) bs 0"

definition u64_at :: "nat \<Rightarrow> 8 word list \<Rightarrow> 64 word" where
  "u64_at n bs = of_nat (le_nat (take 8 (drop n bs)))"

definition u32_at :: "nat \<Rightarrow> 8 word list \<Rightarrow> 32 word" where
  "u32_at n bs = of_nat (le_nat (take 4 (drop n bs)))"

definition u16_at :: "nat \<Rightarrow> 8 word list \<Rightarrow> 16 word" where
  "u16_at n bs = of_nat (le_nat (take 2 (drop n bs)))"

text \<open>\<open>string(b[:i])\<close> up to the first zero byte.\<close>

definition bytes_str :: "8 word list \<Rightarrow> string" where
  "bytes_str bs = map (\<lambda>b. char_of (unat b)) bs"

definition nullTermStr :: "8 word list \<Rightarrow> string" where
  "nullTermStr bs = bytes_str (takeWhile (\<lambda>b. b \<noteq> 0) bs)"

section \<open>Encoding\<close>

text \<open>The bytes the probes write, least significant first.\<close>

primrec le_bytes :: "nat \<Rightarrow> nat \<Rightarrow> 8 word list" where
  "le_bytes 0 x = []"
| "le_bytes (Suc n) x = of_nat (x mod 256) # le_bytes n (x div 256)"

lemma length_le_bytes [simp]: "length (le_bytes n x) = n"
  by (induction n arbitrary: x) auto

lemma le_nat_bytes: "le_nat (le_bytes n x) = x mod 256 ^ n"
proof (induction n arbitrary: x)
  case (Suc n)
  have "unat (of_nat (x mod 256) :: 8 word) = x mod 256" by (simp add: unat_of_nat)
  then show ?case using Suc by (simp add: le_nat_def mod_mult2_eq)
qed (simp add: le_nat_def)

lemma u64_bytes: "u64_at (length pre) (pre @ le_bytes 8 (unat w) @ post) = w"
proof -
  have "unat w < 2 ^ 64" using unsigned_less [of w] by simp
  then show ?thesis by (simp add: u64_at_def le_nat_bytes)
qed

lemma u32_bytes: "u32_at (length pre) (pre @ le_bytes 4 (unat w) @ post) = w"
proof -
  have "unat w < 2 ^ 32" using unsigned_less [of w] by simp
  then show ?thesis by (simp add: u32_at_def le_nat_bytes)
qed

definition str_bytes :: "string \<Rightarrow> 8 word list" where
  "str_bytes s = map (\<lambda>c. of_nat (of_char c)) s"

lemma bytes_str_bytes [simp]: "bytes_str (str_bytes s) = s"
proof (induction s)
  case (Cons c s)
  have "(of_char c :: nat) < 256" by simp
  then have "unat (of_nat (of_char c) :: 8 word) = of_char c" by (simp add: unat_of_nat)
  then show ?case using Cons by (simp add: bytes_str_def str_bytes_def)
qed (simp add: bytes_str_def str_bytes_def)

lemma of_char_nonzero: "c \<noteq> CHR 0x00 \<Longrightarrow> (of_char c :: nat) \<noteq> 0"
proof
  assume c: "c \<noteq> CHR 0x00" "(of_char c :: nat) = 0"
  have "char_of (of_char c :: nat) = char_of (0 :: nat)" by (simp only: c(2))
  moreover have "char_of (of_char c :: nat) = c" by (rule char_of_char)
  moreover have "char_of (0 :: nat) = CHR 0x00" by (simp add: char_of_def)
  ultimately show False using c(1) by simp
qed

lemma nullTermStr_padded:
  "CHR 0x00 \<notin> set s \<Longrightarrow> nullTermStr (str_bytes s @ 0 # rest) = s"
proof -
  assume z: "CHR 0x00 \<notin> set s"
  have "\<forall>b \<in> set (str_bytes s). b \<noteq> 0"
  proof
    fix b assume "b \<in> set (str_bytes s)"
    then obtain c where c: "c \<in> set s" "b = of_nat (of_char c)" by (auto simp: str_bytes_def)
    have "(of_char c :: nat) < 256" by simp
    then have "unat b = of_char c" by (simp add: c(2) unat_of_nat)
    moreover have "c \<noteq> CHR 0x00" using c(1) z by metis
    then have "(of_char c :: nat) \<noteq> 0" by (rule of_char_nonzero)
    ultimately show "b \<noteq> 0" by auto
  qed
  then have "takeWhile (\<lambda>b. b \<noteq> 0) (str_bytes s @ 0 # rest) = str_bytes s" by (simp add: takeWhile_append2)
  then show ?thesis by (simp add: nullTermStr_def)
qed

end
