(* ===== verification/AgentPoll.thy ===== *)
theory AgentPoll
  imports AgentSignals GoBinary
begin

text \<open>
  The signals of the agent: the records of \<open>internal/ebpf/types.go\<close>, the ring-buffer drains
  and the polls of the statistics maps of \<open>internal/ebpf/loader.go\<close>. Counters are 64-bit
  words and wrap; a BPF map is the list of its entries in the order of the iterator, a
  collection maps names to BPF maps, and the reads of a ring buffer are the list of what
  they return.
\<close>

definition PollInterval :: duration where "PollInterval = 5 * Second"

section \<open>Records of the probes\<close>

text \<open>The padding fields are left out; they only move the offsets of the ring-buffer records.\<close>

record CpuStats =
  cpu_TotalNs :: "64 word"
  cpu_RunqLatencyNs :: "64 word"
  cpu_CtxSwitches :: "64 word"
  cpu_ThreadCount :: "32 word"

record PfStats =
  pf_MinorFaults :: "64 word"
  pf_MajorFaults :: "64 word"

record IoStats =
  io_ReadBytes :: "64 word"
  io_WriteBytes :: "64 word"
  io_ReadIOs :: "64 word"
  io_WriteIOs :: "64 word"
  io_ReadLatencyNs :: "64 word"
  io_WriteLatencyNs :: "64 word"

record ConnKey =
  ck_CgroupID :: "64 word"
  ck_Saddr :: "32 word"
  ck_Daddr :: "32 word"
  ck_Sport :: "16 word"
  ck_Dport :: "16 word"

record ConnStats =
  cs_State :: "32 word"
  cs_Retransmits :: "32 word"
  cs_FirstSeenNs :: "64 word"
  cs_LastSeenNs :: "64 word"

record SyscallKey =
  sk_CgroupID :: "64 word"
  sk_SyscallID :: "32 word"

record SyscallStats =
  ss_Count :: "64 word"
  ss_Failures :: "64 word"
  ss_TotalLatencyNs :: "64 word"

record OomEvent =
  oe_CgroupID :: "64 word"
  oe_VictimPID :: "32 word"
  oe_OomScoreAdj :: "32 word"
  oe_Pages :: "64 word"
  oe_Comm :: "8 word list"

record FileEvent =
  fe_CgroupID :: "64 word"
  fe_PID :: "32 word"
  fe_Flags :: "32 word"
  fe_Comm :: "8 word list"
  fe_Filename :: "8 word list"

record TcpEvent =
  te_CgroupID :: "64 word"
  te_TsNs :: "64 word"
  te_Saddr :: "32 word"
  te_Daddr :: "32 word"
  te_Sport :: "16 word"
  te_Dport :: "16 word"
  te_Family :: "16 word"
  te_OldState :: "32 word"
  te_NewState :: "32 word"
  te_SaddrV6 :: "8 word list"
  te_DaddrV6 :: "8 word list"

record SlowSyscallEvent =
  sy_CgroupID :: "64 word"
  sy_PID :: "32 word"
  sy_SyscallID :: "32 word"
  sy_LatencyNs :: "64 word"
  sy_Comm :: "8 word list"

section \<open>Decoding records\<close>

text \<open>\<open>binary.Read\<close> with \<open>LittleEndian\<close> reads the fields in order and fails when the data is too short.\<close>

definition read_OomEvent :: "8 word list \<Rightarrow> OomEvent option" where
  "read_OomEvent bs =
     (if length bs < 40 then None
      else Some \<lparr>oe_CgroupID = u64_at 0 bs, oe_VictimPID = u32_at 8 bs, oe_OomScoreAdj = u32_at 12 bs,
        oe_Pages = u64_at 16 bs, oe_Comm = take 16 (drop 24 bs)\<rparr>)"

definition read_FileEvent :: "8 word list \<Rightarrow> FileEvent option" where
  "read_FileEvent bs =
     (if length bs < 160 then None
      else Some \<lparr>fe_CgroupID = u64_at 0 bs, fe_PID = u32_at 8 bs, fe_Flags = u32_at 12 bs,
        fe_Comm = take 16 (drop 16 bs), fe_Filename = take 128 (drop 32 bs)\<rparr>)"

definition read_TcpEvent :: "8 word list \<Rightarrow> TcpEvent option" where
  "read_TcpEvent bs =
     (if length bs < 72 then None
      else Some \<lparr>te_CgroupID = u64_at 0 bs, te_TsNs = u64_at 8 bs, te_Saddr = u32_at 16 bs, te_Daddr = u32_at 20 bs,
        te_Sport = u16_at 24 bs, te_Dport = u16_at 26 bs, te_Family = u16_at 28 bs,
        te_OldState = u32_at 32 bs, te_NewState = u32_at 36 bs, te_SaddrV6 = take 16 (drop 40 bs),
        te_DaddrV6 = take 16 (drop 56 bs)\<rparr>)"

definition read_SlowSyscallEvent :: "8 word list \<Rightarrow> SlowSyscallEvent option" where
  "read_SlowSyscallEvent bs =
     (if length bs < 40 then None
      else Some \<lparr>sy_CgroupID = u64_at 0 bs, sy_PID = u32_at 8 bs, sy_SyscallID = u32_at 12 bs,
        sy_LatencyNs = u64_at 16 bs, sy_Comm = take 16 (drop 24 bs)\<rparr>)"

section \<open>Values\<close>

definition u2f :: "'a::len word \<Rightarrow> f64" where "u2f w = f64_of_int (uint w)"
definition i2f :: "'a::len word \<Rightarrow> f64" where "i2f w = f64_of_int (sint w)"

definition to_ms :: "f64 \<Rightarrow> f64" where "to_ms x = f64_div x 1000000"

definition cpu_pct :: "CpuStats \<Rightarrow> f64" where
  "cpu_pct v = f64_mul (f64_div (u2f (cpu_TotalNs v)) 5000000000) 100"

text \<open>\<open>CtxSwitches + 1\<close> wraps to zero at the largest counter; the quotient is then infinite.\<close>

definition runq_ms :: "CpuStats \<Rightarrow> f64 option" where
  "runq_ms v =
     (if cpu_CtxSwitches v + 1 = 0 then None
      else Some (to_ms (f64_div (u2f (cpu_RunqLatencyNs v)) (u2f (cpu_CtxSwitches v + 1)))))"

definition io_wait :: "IoStats \<Rightarrow> f64" where
  "io_wait v =
     (let avgReadMs = (if io_ReadIOs v > 0 then to_ms (f64_div (u2f (io_ReadLatencyNs v)) (u2f (io_ReadIOs v))) else 0);
          avgWriteMs = (if io_WriteIOs v > 0 then to_ms (f64_div (u2f (io_WriteLatencyNs v)) (u2f (io_WriteIOs v))) else 0)
      in f64_div (f64_add avgReadMs avgWriteMs) 2)"

section \<open>Ring buffers\<close>

fun drain :: "(8 word list \<Rightarrow> 'e option) \<Rightarrow> ('e \<Rightarrow> Loader \<Rightarrow> Loader) \<Rightarrow> ring_read list \<Rightarrow> Loader \<Rightarrow> Loader" where
  "drain dec handle [] l = l"
| "drain dec handle (RingClosed # rs) l = l"
| "drain dec handle (RingError # rs) l = drain dec handle rs l"
| "drain dec handle (RingRecord bs # rs) l =
     (case dec bs of None \<Rightarrow> drain dec handle rs l | Some ev \<Rightarrow> drain dec handle rs (handle ev l))"

definition emit_event :: "agent_env \<Rightarrow> string \<Rightarrow> f64 \<Rightarrow> string \<Rightarrow> 64 word \<Rightarrow> int \<Rightarrow> Loader \<Rightarrow> Loader" where
  "emit_event env metric value unit cgroupID pid l =
     (let (who, l1) = resolveOrUnknown env cgroupID l
      in emit env (signal l1 who metric (Some value) unit 0 cgroupID pid) l1)"

definition drainOOMEvents :: "agent_env \<Rightarrow> ring_read list \<Rightarrow> Loader \<Rightarrow> Loader" where
  "drainOOMEvents env = drain read_OomEvent
     (\<lambda>ev. emit_event env ''oom_kill'' 1 ''count'' (oe_CgroupID ev) (sint (oe_VictimPID ev)))"

definition drainFileEvents :: "agent_env \<Rightarrow> ring_read list \<Rightarrow> Loader \<Rightarrow> Loader" where
  "drainFileEvents env = drain read_FileEvent
     (\<lambda>ev. emit_event env ''file_open'' 1 ''count'' (fe_CgroupID ev) (sint (fe_PID ev)))"

definition drainTCPEvents :: "agent_env \<Rightarrow> ring_read list \<Rightarrow> Loader \<Rightarrow> Loader" where
  "drainTCPEvents env = drain read_TcpEvent
     (\<lambda>ev. emit_event env ''tcp_state_change'' (i2f (te_NewState ev)) ''state'' (te_CgroupID ev) 0)"

definition drainSlowSyscallEvents :: "agent_env \<Rightarrow> ring_read list \<Rightarrow> Loader \<Rightarrow> Loader" where
  "drainSlowSyscallEvents env = drain read_SlowSyscallEvent
     (\<lambda>ev. emit_event env ''slow_syscall'' (to_ms (u2f (sy_LatencyNs ev))) ''milliseconds'' (sy_CgroupID ev) (sint (sy_PID ev)))"

section \<open>Polling\<close>

datatype bpf_map = CpuMap "(64 word \<times> CpuStats) list" | PfMap "(64 word \<times> PfStats) list" | IoMap "(64 word \<times> IoStats) list"
  | ConnMap "(ConnKey \<times> ConnStats) list" | SyscallMap "(SyscallKey \<times> SyscallStats) list"

type_synonym collection = "string \<rightharpoonup> bpf_map"

definition emit_poll :: "agent_env \<Rightarrow> identity \<Rightarrow> 64 word \<Rightarrow> string \<Rightarrow> f64 option \<Rightarrow> string \<Rightarrow> Loader \<Rightarrow> Loader" where
  "emit_poll env who cgroupID metric value unit l =
     emit env (signal l who metric value unit (Milliseconds PollInterval) cgroupID 0) l"

definition poll_cpu_entry :: "agent_env \<Rightarrow> 64 word \<times> CpuStats \<Rightarrow> Loader \<Rightarrow> Loader" where
  "poll_cpu_entry env entry l =
     (let (key, val) = entry
      in if cpu_TotalNs val = 0 \<and> cpu_CtxSwitches val = 0 then l
         else let (who, l1) = resolveOrUnknown env key l;
                  l2 = emit_poll env who key ''cpu_usage_pct'' (Some (cpu_pct val)) ''percent'' l1;
                  l3 = (if cpu_RunqLatencyNs val > 0
                        then emit_poll env who key ''cpu_runq_latency_ms'' (runq_ms val) ''milliseconds'' l2 else l2)
              in if cpu_ThreadCount val > 0
                 then emit_poll env who key ''thread_count'' (Some (u2f (cpu_ThreadCount val))) ''count'' l3 else l3)"

definition pollCPU :: "agent_env \<Rightarrow> collection \<Rightarrow> Loader \<Rightarrow> Loader" where
  "pollCPU env coll l =
     (case coll ''cpu_stats_map'' of Some (CpuMap es) \<Rightarrow> fold (poll_cpu_entry env) es l | _ \<Rightarrow> l)"

definition poll_memory_entry :: "agent_env \<Rightarrow> 64 word \<times> PfStats \<Rightarrow> Loader \<Rightarrow> Loader" where
  "poll_memory_entry env entry l =
     (let (key, val) = entry
      in if pf_MinorFaults val = 0 \<and> pf_MajorFaults val = 0 then l
         else let (who, l1) = resolveOrUnknown env key l;
                  l2 = emit_poll env who key ''page_faults_minor'' (Some (u2f (pf_MinorFaults val))) ''count'' l1
              in if pf_MajorFaults val > 0
                 then emit_poll env who key ''page_faults_major'' (Some (u2f (pf_MajorFaults val))) ''count'' l2 else l2)"

definition pollMemory :: "agent_env \<Rightarrow> collection \<Rightarrow> Loader \<Rightarrow> Loader" where
  "pollMemory env coll l =
     (case coll ''page_fault_map'' of Some (PfMap es) \<Rightarrow> fold (poll_memory_entry env) es l | _ \<Rightarrow> l)"

definition poll_io_entry :: "agent_env \<Rightarrow> 64 word \<times> IoStats \<Rightarrow> Loader \<Rightarrow> Loader" where
  "poll_io_entry env entry l =
     (let (key, val) = entry
      in if io_ReadIOs val = 0 \<and> io_WriteIOs val = 0 then l
         else let (who, l1) = resolveOrUnknown env key l;
                  l2 = emit_poll env who key ''io_wait_ms'' (Some (io_wait val)) ''milliseconds'' l1;
                  l3 = emit_poll env who key ''io_read_bytes'' (Some (u2f (io_ReadBytes val))) ''bytes'' l2
              in emit_poll env who key ''io_write_bytes'' (Some (u2f (io_WriteBytes val))) ''bytes'' l3)"

definition pollIO :: "agent_env \<Rightarrow> collection \<Rightarrow> Loader \<Rightarrow> Loader" where
  "pollIO env coll l =
     (case coll ''io_stats_map'' of Some (IoMap es) \<Rightarrow> fold (poll_io_entry env) es l | _ \<Rightarrow> l)"

text \<open>Retransmits and flows of the connections of each cgroup.\<close>

definition net_add :: "ConnKey \<times> ConnStats \<Rightarrow> (64 word \<times> 64 word \<times> 64 word) list \<Rightarrow> (64 word \<times> 64 word \<times> 64 word) list" where
  "net_add entry agg =
     (let (key, val) = entry;
          (retransmits, totalFlows) = (case map_of agg (ck_CgroupID key) of Some a \<Rightarrow> a | None \<Rightarrow> (0, 0))
      in AList.update (ck_CgroupID key) (retransmits + ucast (cs_Retransmits val), totalFlows + 1) agg)"

definition poll_net_entry :: "agent_env \<Rightarrow> 64 word \<times> 64 word \<times> 64 word \<Rightarrow> Loader \<Rightarrow> Loader" where
  "poll_net_entry env entry l =
     (let (cgroupID, retransmits, totalFlows) = entry
      in if totalFlows = 0 then l
         else let (who, l1) = resolveOrUnknown env cgroupID l
              in emit_poll env who cgroupID ''tcp_retransmit_rate''
                   (Some (f64_mul (f64_div (u2f retransmits) (u2f totalFlows)) 100)) ''percent'' l1)"

definition pollNetwork :: "agent_env \<Rightarrow> collection \<Rightarrow> Loader \<Rightarrow> Loader" where
  "pollNetwork env coll l =
     (case coll ''conn_stats_map'' of Some (ConnMap es) \<Rightarrow> fold (poll_net_entry env) (fold net_add es []) l | _ \<Rightarrow> l)"

definition sys_add :: "SyscallKey \<times> SyscallStats \<Rightarrow> (64 word \<times> 64 word \<times> 64 word \<times> 64 word) list
    \<Rightarrow> (64 word \<times> 64 word \<times> 64 word \<times> 64 word) list" where
  "sys_add entry agg =
     (let (key, val) = entry;
          (count, failures, latencyNs) = (case map_of agg (sk_CgroupID key) of Some a \<Rightarrow> a | None \<Rightarrow> (0, 0, 0))
      in AList.update (sk_CgroupID key)
           (count + ss_Count val, failures + ss_Failures val, latencyNs + ss_TotalLatencyNs val) agg)"

definition poll_sys_entry :: "agent_env \<Rightarrow> 64 word \<times> 64 word \<times> 64 word \<times> 64 word \<Rightarrow> Loader \<Rightarrow> Loader" where
  "poll_sys_entry env entry l =
     (let (cgroupID, count, failures, latencyNs) = entry
      in if count = 0 then l
         else let (who, l1) = resolveOrUnknown env cgroupID l;
                  avgLatMs = to_ms (f64_div (u2f latencyNs) (u2f count));
                  failRate = f64_mul (f64_div (u2f failures) (u2f count)) 100;
                  l2 = emit_poll env who cgroupID ''syscall_avg_latency_ms'' (Some avgLatMs) ''milliseconds'' l1
              in if failRate > 0
                 then emit_poll env who cgroupID ''syscall_failure_rate'' (Some failRate) ''percent'' l2 else l2)"

definition pollSyscall :: "agent_env \<Rightarrow> collection \<Rightarrow> Loader \<Rightarrow> Loader" where
  "pollSyscall env coll l =
     (case coll ''syscall_stats_map'' of Some (SyscallMap es) \<Rightarrow> fold (poll_sys_entry env) (fold sys_add es []) l | _ \<Rightarrow> l)"

text \<open>What one tick of \<open>PollStatsMaps\<close> does with the collections in the order of attachment.\<close>

definition poll_tick :: "agent_env \<Rightarrow> collection list \<Rightarrow> Loader \<Rightarrow> Loader" where
  "poll_tick env colls l =
     (case colls of
        c0 # c1 # c2 # c3 # c4 # _ \<Rightarrow>
          pollSyscall env c4 (pollNetwork env c3 (pollIO env c2 (pollMemory env c1 (pollCPU env c0 l))))
      | _ \<Rightarrow> l)"

section \<open>Runs\<close>

datatype agent_op = OpPoll "collection list" | OpOOM "ring_read list" | OpFile "ring_read list" | OpTCP "ring_read list"
  | OpSlow "ring_read list"

primrec agent_op_step :: "agent_env \<Rightarrow> agent_op \<Rightarrow> Loader \<Rightarrow> Loader" where
  "agent_op_step env (OpPoll colls) = poll_tick env colls"
| "agent_op_step env (OpOOM rs) = drainOOMEvents env rs"
| "agent_op_step env (OpFile rs) = drainFileEvents env rs"
| "agent_op_step env (OpTCP rs) = drainTCPEvents env rs"
| "agent_op_step env (OpSlow rs) = drainSlowSyscallEvents env rs"

definition agent_metrics :: "string list" where
  "agent_metrics = [''oom_kill'', ''file_open'', ''tcp_state_change'', ''slow_syscall'', ''cpu_usage_pct'', ''cpu_runq_latency_ms'',
     ''thread_count'', ''page_faults_minor'', ''page_faults_major'', ''io_wait_ms'', ''io_read_bytes'', ''io_write_bytes'',
     ''tcp_retransmit_rate'', ''syscall_avg_latency_ms'', ''syscall_failure_rate'']"

text \<open>
  The invariant of a run: each message went to the topic of the node and decodes, at the
  analyzer, to a signal of the agent's schema.
\<close>

definition good_message :: "string \<Rightarrow> string \<times> json \<Rightarrow> bool" where
  "good_message node m \<longleftrightarrow> fst m = ''selfheal.signals.'' @ node \<and>
     (\<exists>s. unmarshal_SignalEvent (Some (snd m)) = Some s \<and> sg_Version s = ''1.0'' \<and> sg_Node s = node
        \<and> sg_Metric s \<in> set agent_metrics \<and> sg_DurationMs s \<in> {0, 5000})"

definition loader_inv :: "string \<Rightarrow> Loader \<Rightarrow> bool" where
  "loader_inv node l \<longleftrightarrow> mp_nodeName (ld_mapper l) = node \<and> list_all (good_message node) (ld_sent l)
     \<and> (\<forall>p. ld_publisher l = Some p \<longrightarrow> pu_topic p = ''selfheal.signals.'' @ node)"

definition clock_ok :: "agent_env \<Rightarrow> bool" where
  "clock_ok env \<longleftrightarrow> (\<forall>n. int64 (to_UnixMilli (ae_clock env n)))"

lemma Resolve_nodeName: "mp_nodeName (snd (Resolve walk now now' cg m)) = mp_nodeName m"
  by (simp add: Resolve_def slow_resolve_def resolveCgroupPath_def Let_def split: option.splits)

lemma resolveOrUnknown_inv: "loader_inv node l \<Longrightarrow> loader_inv node (snd (resolveOrUnknown env cg l))"
  by (auto simp: loader_inv_def resolveOrUnknown_def Let_def split: prod.splits sum.splits)
    (metis Resolve_nodeName snd_conv)+

lemma emit_inv:
  assumes "clock_ok env" "loader_inv node l" "metric \<in> set agent_metrics" "\<forall>v. value = Some v \<longrightarrow> fl64 v = v" "dur \<in> {0, 5000}"
  shows "loader_inv node (emit env (signal l who metric value unit dur cg pid) l)"
proof (cases "ld_publisher l")
  case None
  then show ?thesis using assms(2) by (simp add: emit_def loader_inv_def)
next
  case (Some p)
  let ?n = "ld_calls l"
  let ?e = "signal l who metric value unit dur cg pid"
  let ?t = "?e\<lparr>gs_Version := ''1.0'', gs_Timestamp := to_UnixMilli (ae_clock env ?n)\<rparr>"
  have topic: "pu_topic p = ''selfheal.signals.'' @ node" using assms(2) Some by (simp add: loader_inv_def)
  have t: "gs_Timestamp ?e = 0" "gs_Value ?t = value" "gs_Node ?t = node" "gs_Metric ?t = metric" "gs_DurationMs ?t = dur"
    using assms(2) by (simp_all add: signal_def loader_inv_def split: prod.splits)
  have "list_all (good_message node) (snd (Agent_PublishSignal (ae_clock env ?n) (ae_publish env ?n) p ?e))"
  proof (cases "value")
    case (Some v)
    have "int64 (gs_DurationMs ?t)" using assms(5) t(5) by (auto simp: int64_def)
    then have "map_option (\<lambda>d. unmarshal_SignalEvent (Some d)) (marshal_AgentSignal ?t) = Some (Some (decoded_signal ?t v))"
      using assms(1,4) Some t(2) by (intro signal_decoded) (auto simp: clock_ok_def)
    then obtain d where "marshal_AgentSignal ?t = Some d" "unmarshal_SignalEvent (Some d) = Some (decoded_signal ?t v)" by auto
    then show ?thesis
      using t assms(3,5) topic
      by (auto simp: Agent_PublishSignal_def Let_def good_message_def decoded_signal_def split: option.splits)
  qed (use t in \<open>simp add: Agent_PublishSignal_def Let_def marshal_AgentSignal_def\<close>)
  then show ?thesis
    using assms(2) by (auto simp: emit_def Some loader_inv_def Let_def split: prod.splits)
qed

text \<open>Every signal the operations build meets the conditions of \<open>emit_inv\<close>.\<close>

lemma finite_values [simp]:
  "fl64 (u2f w) = u2f w" "fl64 (i2f w) = i2f w" "fl64 (to_ms x) = to_ms x" "fl64 (cpu_pct c) = cpu_pct c"
  "fl64 (io_wait i) = io_wait i" "runq_ms c = Some v \<Longrightarrow> fl64 v = v"
  by (auto simp: u2f_def i2f_def to_ms_def cpu_pct_def io_wait_def runq_ms_def Let_def fl64_idem split: if_splits)

lemma emit_poll_inv:
  assumes "clock_ok env" "loader_inv node l" "metric \<in> set agent_metrics" "\<forall>v. value = Some v \<longrightarrow> fl64 v = v"
  shows "loader_inv node (emit_poll env who cg metric value unit l)"
  unfolding emit_poll_def using assms by (intro emit_inv) (auto simp: Milliseconds_def PollInterval_def unit_defs)

lemma emit_event_inv:
  assumes "clock_ok env" "loader_inv node l" "metric \<in> set agent_metrics" "fl64 v = v"
  shows "loader_inv node (emit_event env metric v unit cg pid l)"
  using assms resolveOrUnknown_inv [OF assms(2), of env cg]
  by (auto simp: emit_event_def split: prod.splits intro: emit_inv)

lemma drain_inv:
  assumes "\<And>ev l. loader_inv node l \<Longrightarrow> loader_inv node (handle ev l)" "loader_inv node l"
  shows "loader_inv node (drain dec handle rs l)"
  using assms by (induction dec handle rs l rule: drain.induct) (auto split: option.splits)

lemma fold_inv: "(\<And>x l. loader_inv node l \<Longrightarrow> loader_inv node (f x l)) \<Longrightarrow> loader_inv node l \<Longrightarrow> loader_inv node (fold f xs l)"
  by (induction xs arbitrary: l) auto

lemma poll_cpu_entry_inv: "clock_ok env \<Longrightarrow> loader_inv node l \<Longrightarrow> loader_inv node (poll_cpu_entry env e l)"
  using resolveOrUnknown_inv [of node l env "fst e"]
  by (auto simp: poll_cpu_entry_def Let_def agent_metrics_def split: prod.splits intro!: emit_poll_inv)

lemma poll_memory_entry_inv: "clock_ok env \<Longrightarrow> loader_inv node l \<Longrightarrow> loader_inv node (poll_memory_entry env e l)"
  using resolveOrUnknown_inv [of node l env "fst e"]
  by (auto simp: poll_memory_entry_def Let_def agent_metrics_def split: prod.splits intro!: emit_poll_inv)

lemma poll_io_entry_inv: "clock_ok env \<Longrightarrow> loader_inv node l \<Longrightarrow> loader_inv node (poll_io_entry env e l)"
  using resolveOrUnknown_inv [of node l env "fst e"]
  by (auto simp: poll_io_entry_def Let_def agent_metrics_def split: prod.splits intro!: emit_poll_inv)

lemma poll_net_entry_inv: "clock_ok env \<Longrightarrow> loader_inv node l \<Longrightarrow> loader_inv node (poll_net_entry env e l)"
  using resolveOrUnknown_inv [of node l env "fst e"]
  by (auto simp: poll_net_entry_def Let_def agent_metrics_def fl64_idem split: prod.splits intro!: emit_poll_inv)

lemma poll_sys_entry_inv: "clock_ok env \<Longrightarrow> loader_inv node l \<Longrightarrow> loader_inv node (poll_sys_entry env e l)"
  using resolveOrUnknown_inv [of node l env "fst e"]
  by (auto simp: poll_sys_entry_def Let_def agent_metrics_def fl64_idem split: prod.splits intro!: emit_poll_inv)

lemmas poll_entry_invs = poll_cpu_entry_inv poll_memory_entry_inv poll_io_entry_inv poll_net_entry_inv poll_sys_entry_inv

lemma poll_invs:
  assumes "clock_ok env" "loader_inv node l"
  shows "loader_inv node (pollCPU env c l)" "loader_inv node (pollMemory env c l)" "loader_inv node (pollIO env c l)"
    "loader_inv node (pollNetwork env c l)" "loader_inv node (pollSyscall env c l)"
  using assms
  by (auto simp: pollCPU_def pollMemory_def pollIO_def pollNetwork_def pollSyscall_def
      split: option.splits bpf_map.splits intro!: fold_inv poll_entry_invs)

lemma drain_invs:
  assumes "clock_ok env" "loader_inv node l"
  shows "loader_inv node (drainOOMEvents env rs l)" "loader_inv node (drainFileEvents env rs l)"
    "loader_inv node (drainTCPEvents env rs l)" "loader_inv node (drainSlowSyscallEvents env rs l)"
  using assms
  by (auto simp: drainOOMEvents_def drainFileEvents_def drainTCPEvents_def drainSlowSyscallEvents_def agent_metrics_def
      intro!: drain_inv emit_event_inv)

lemma agent_run_inv:
  assumes "clock_ok env" "loader_inv node l"
  shows "loader_inv node (fold (agent_op_step env) ops l)"
  using assms(2)
proof (induction ops arbitrary: l)
  case (Cons op ops)
  have "loader_inv node (agent_op_step env op l)"
    using assms(1) Cons.prems by (cases op) (auto simp: poll_tick_def drain_invs poll_invs split: list.splits)
  then show ?case using Cons.IH by simp
qed simp

text \<open>The rules of the repository only look at metrics the agent sends.\<close>

lemma shipped_metrics_sent: "ru_Metric ` set shipped_rules \<subseteq> set agent_metrics"
  by (simp add: shipped_rules_def shipped_rule_def agent_metrics_def)

section \<open>Records round trip\<close>

definition OomEvent_bytes :: "OomEvent \<Rightarrow> 8 word list" where
  "OomEvent_bytes e = le_bytes 8 (unat (oe_CgroupID e)) @ le_bytes 4 (unat (oe_VictimPID e))
     @ le_bytes 4 (unat (oe_OomScoreAdj e)) @ le_bytes 8 (unat (oe_Pages e)) @ oe_Comm e"

lemma read_OomEvent_bytes: "length (oe_Comm e) = 16 \<Longrightarrow> read_OomEvent (OomEvent_bytes e) = Some e"
proof -
  assume c: "length (oe_Comm e) = 16"
  let ?a = "le_bytes 8 (unat (oe_CgroupID e))" and ?b = "le_bytes 4 (unat (oe_VictimPID e))"
    and ?s = "le_bytes 4 (unat (oe_OomScoreAdj e))" and ?p = "le_bytes 8 (unat (oe_Pages e))"
  have "u64_at 0 (OomEvent_bytes e) = oe_CgroupID e" "u32_at 8 (OomEvent_bytes e) = oe_VictimPID e"
    "u32_at 12 (OomEvent_bytes e) = oe_OomScoreAdj e" "u64_at 16 (OomEvent_bytes e) = oe_Pages e"
    using u64_bytes [of "[]"] u32_bytes [of ?a] u32_bytes [of "?a @ ?b"] u64_bytes [of "?a @ ?b @ ?s"]
    by (simp_all add: OomEvent_bytes_def)
  moreover have "drop 24 (OomEvent_bytes e) = oe_Comm e" "length (OomEvent_bytes e) = 40"
    using c by (simp_all add: OomEvent_bytes_def)
  ultimately show ?thesis using c by (simp add: read_OomEvent_def)
qed

end
