(* ===== verification/ProbeLoader.thy ===== *)
theory ProbeLoader
  imports AgentPoll "HOL-Library.Multiset"
begin

text \<open>
  Loading and attaching the five probes, \<open>LoadCoreProbes\<close> and the attach helpers of
  \<open>internal/ebpf/loader.go\<close>. The calls into the eBPF library and the kernel are parameters
  that answer with an error or succeed; a successful call opens a handle, which the state
  keeps until it is closed. The object files of the repository define every map the helpers
  take for granted; only \<open>file_events\<close> is looked up with a test.
\<close>

record ProbeConfig =
  pb_CPUObj :: string
  pb_MemoryObj :: string
  pb_IOObj :: string
  pb_NetworkObj :: string
  pb_SyscallObj :: string
  pb_LineageObj :: string
  pb_ExecObj :: string
  pb_DNSObj :: string
  pb_PrivescObj :: string
  pb_EscapeObj :: string

datatype probe_handle = HCollection string | HLink string string | HRing string

record LoadedProbes =
  lp_collections :: "probe_handle list"
  lp_links :: "probe_handle list"
  lp_ringbufs :: "probe_handle list"

record bpf_env =
  be_stat :: "string \<Rightarrow> string option"
  be_loadSpec :: "string \<Rightarrow> string option"
  be_newCollection :: "string \<Rightarrow> string option"
  be_tracepoint :: "string \<Rightarrow> string \<Rightarrow> string \<Rightarrow> string option"
  be_newReader :: "string \<Rightarrow> string option"
  be_hasMap :: "string \<Rightarrow> bool"

text \<open>Open handles, and the ring buffers whose drain was started.\<close>

record bpf_state =
  bs_open :: "probe_handle list"
  bs_drains :: "string list"

datatype attach_error = TracepointError string string string | RingbufError string string

datatype load_error = ObjectNotFound string string | LoadSpecError string string | NewCollectionError string string
  | AttachError string attach_error

type_synonym attaching = "LoadedProbes \<times> bpf_state"

fun attach_progs :: "bpf_env \<Rightarrow> (string \<times> string \<times> string) list \<Rightarrow> attaching \<Rightarrow> attach_error option \<times> attaching" where
  "attach_progs k [] st = (None, st)"
| "attach_progs k ((grp, name, prog) # ps) (lp, s) =
     (case be_tracepoint k grp name prog of
        Some err \<Rightarrow> (Some (TracepointError grp name err), (lp, s))
      | None \<Rightarrow> attach_progs k ps (lp\<lparr>lp_links := lp_links lp @ [HLink grp name]\<rparr>,
                                s\<lparr>bs_open := bs_open s @ [HLink grp name]\<rparr>))"

definition attach_ring :: "bpf_env \<Rightarrow> string \<Rightarrow> attaching \<Rightarrow> attach_error option \<times> attaching" where
  "attach_ring k m st =
     (case st of (lp, s) \<Rightarrow>
        (case be_newReader k m of
           Some err \<Rightarrow> (Some (RingbufError m err), st)
         | None \<Rightarrow> (None, (lp\<lparr>lp_ringbufs := lp_ringbufs lp @ [HRing m]\<rparr>,
             s\<lparr>bs_open := bs_open s @ [HRing m], bs_drains := bs_drains s @ [m]\<rparr>))))"

definition attach_then ::
  "(attaching \<Rightarrow> attach_error option \<times> attaching) \<Rightarrow> (attaching \<Rightarrow> attach_error option \<times> attaching)
    \<Rightarrow> attaching \<Rightarrow> attach_error option \<times> attaching" where
  "attach_then f g st = (case f st of (Some err, st1) \<Rightarrow> (Some err, st1) | (None, st1) \<Rightarrow> g st1)"

definition attachCPU :: "bpf_env \<Rightarrow> attaching \<Rightarrow> attach_error option \<times> attaching" where
  "attachCPU k = attach_progs k
     [(''sched'', ''sched_switch'', ''trace_sched_switch''), (''sched'', ''sched_wakeup'', ''trace_sched_wakeup''),
      (''sched'', ''sched_process_fork'', ''trace_sched_fork''), (''sched'', ''sched_process_exit'', ''trace_sched_exit'')]"

definition attachMemory :: "bpf_env \<Rightarrow> attaching \<Rightarrow> attach_error option \<times> attaching" where
  "attachMemory k = attach_then (attach_progs k
     [(''oom'', ''mark_victim'', ''trace_oom_mark_victim''), (''exceptions'', ''page_fault_user'', ''trace_page_fault_user'')])
     (attach_ring k ''oom_events'')"

definition attachIO :: "bpf_env \<Rightarrow> attaching \<Rightarrow> attach_error option \<times> attaching" where
  "attachIO k = attach_then (attach_progs k
     [(''block'', ''block_rq_issue'', ''trace_block_rq_issue''), (''block'', ''block_rq_complete'', ''trace_block_rq_complete''),
      (''syscalls'', ''sys_enter_openat'', ''trace_sys_enter_openat'')])
     (if be_hasMap k ''file_events'' then attach_ring k ''file_events'' else Pair None)"

definition attachNetwork :: "bpf_env \<Rightarrow> attaching \<Rightarrow> attach_error option \<times> attaching" where
  "attachNetwork k = attach_then (attach_progs k
     [(''sock'', ''inet_sock_set_state'', ''trace_inet_sock_set_state''), (''tcp'', ''tcp_retransmit_skb'', ''trace_tcp_retransmit'')])
     (attach_ring k ''tcp_event_rb'')"

definition attachSyscall :: "bpf_env \<Rightarrow> attaching \<Rightarrow> attach_error option \<times> attaching" where
  "attachSyscall k = attach_then (attach_progs k
     [(''raw_syscalls'', ''sys_enter'', ''trace_sys_enter''), (''raw_syscalls'', ''sys_exit'', ''trace_sys_exit'')])
     (attach_ring k ''slow_syscall_rb'')"

definition close_handles :: "probe_handle list \<Rightarrow> bpf_state \<Rightarrow> bpf_state" where
  "close_handles hs s = s\<lparr>bs_open := fold remove1 hs (bs_open s)\<rparr>"

definition LoadedProbes_Close :: "LoadedProbes \<Rightarrow> bpf_state \<Rightarrow> bpf_state" where
  "LoadedProbes_Close p s = close_handles (lp_collections p) (close_handles (lp_links p) (close_handles (lp_ringbufs p) s))"

text \<open>Every object file is looked for first; Go ranges over the map in some order, here that of the list.\<close>

fun stat_objects :: "bpf_env \<Rightarrow> (string \<times> string) list \<Rightarrow> load_error option" where
  "stat_objects k [] = None"
| "stat_objects k ((name, path) # ps) =
     (case be_stat k path of Some err \<Rightarrow> Some (ObjectNotFound name err) | None \<Rightarrow> stat_objects k ps)"

fun load_probes ::
  "bpf_env \<Rightarrow> (string \<times> string \<times> (attaching \<Rightarrow> attach_error option \<times> attaching)) list \<Rightarrow> attaching
    \<Rightarrow> (load_error + LoadedProbes) \<times> bpf_state" where
  "load_probes k [] (lp, s) = (Inr lp, s)"
| "load_probes k ((name, path, load) # ps) (lp, s) =
     (case be_loadSpec k path of
        Some err \<Rightarrow> (Inl (LoadSpecError name err), LoadedProbes_Close lp s)
      | None \<Rightarrow>
         (case be_newCollection k path of
            Some err \<Rightarrow> (Inl (NewCollectionError name err), LoadedProbes_Close lp s)
          | None \<Rightarrow>
             (case load (lp\<lparr>lp_collections := lp_collections lp @ [HCollection name]\<rparr>, s\<lparr>bs_open := bs_open s @ [HCollection name]\<rparr>) of
                (Some err, (lp1, s1)) \<Rightarrow> (Inl (AttachError name err), LoadedProbes_Close lp1 s1)
              | (None, st1) \<Rightarrow> load_probes k ps st1)))"

definition probeSpecs :: "ProbeConfig \<Rightarrow> bpf_env \<Rightarrow> (string \<times> string \<times> (attaching \<Rightarrow> attach_error option \<times> attaching)) list" where
  "probeSpecs cfg k =
     [(''cpu'', pb_CPUObj cfg, attachCPU k), (''memory'', pb_MemoryObj cfg, attachMemory k),
      (''io'', pb_IOObj cfg, attachIO k), (''network'', pb_NetworkObj cfg, attachNetwork k),
      (''syscall'', pb_SyscallObj cfg, attachSyscall k)]"

definition LoadCoreProbes :: "ProbeConfig \<Rightarrow> bpf_env \<Rightarrow> bpf_state \<Rightarrow> (load_error + LoadedProbes) \<times> bpf_state" where
  "LoadCoreProbes cfg k s =
     (case stat_objects k [(''cpu'', pb_CPUObj cfg), (''memory'', pb_MemoryObj cfg), (''io'', pb_IOObj cfg),
             (''network'', pb_NetworkObj cfg), (''syscall'', pb_SyscallObj cfg)] of
        Some err \<Rightarrow> (Inl err, s)
      | None \<Rightarrow>
         load_probes k (probeSpecs cfg k) (\<lparr>lp_collections = [], lp_links = [], lp_ringbufs = []\<rparr>, s))"

section \<open>All or nothing\<close>

definition lp_handles :: "LoadedProbes \<Rightarrow> probe_handle multiset" where
  "lp_handles lp = mset (lp_collections lp) + mset (lp_links lp) + mset (lp_ringbufs lp)"

text \<open>The open handles are those there were before and those of the loaded probes.\<close>

definition owns :: "probe_handle multiset \<Rightarrow> attaching \<Rightarrow> bool" where
  "owns base st \<longleftrightarrow> mset (bs_open (snd st)) = base + lp_handles (fst st)"

definition attacher :: "(attaching \<Rightarrow> attach_error option \<times> attaching) \<Rightarrow> bool" where
  "attacher f \<longleftrightarrow> (\<forall>base st. owns base st \<longrightarrow> owns base (snd (f st)))"

lemma mset_fold_remove1: "mset (fold remove1 hs xs) = mset xs - mset hs"
  by (induction hs arbitrary: xs) (simp_all add: diff_diff_add)

lemma Close_owns: "owns base (lp, s) \<Longrightarrow> mset (bs_open (LoadedProbes_Close lp s)) = base"
  by (simp add: owns_def LoadedProbes_Close_def close_handles_def mset_fold_remove1 lp_handles_def)

lemma attach_progs_owns: "owns base st \<Longrightarrow> owns base (snd (attach_progs k ps st))"
  by (induction k ps st rule: attach_progs.induct) (auto simp: owns_def lp_handles_def split: option.splits)

lemma attacher_progs: "attacher (attach_progs k ps)"
  by (simp add: attacher_def attach_progs_owns)

lemma attacher_ring: "attacher (attach_ring k m)"
  by (auto simp: attacher_def attach_ring_def owns_def lp_handles_def split: prod.splits option.splits)

lemma attacher_then: "attacher f \<Longrightarrow> attacher g \<Longrightarrow> attacher (attach_then f g)"
  unfolding attacher_def attach_then_def by (auto split: prod.splits option.splits) (metis snd_conv)+

lemma attacher_skip: "attacher (Pair None)"
  by (simp add: attacher_def)

lemmas attachers = attacher_progs attacher_ring attacher_then attacher_skip

lemma attachers_all:
  "attacher (attachCPU k)" "attacher (attachMemory k)" "attacher (attachIO k)" "attacher (attachNetwork k)" "attacher (attachSyscall k)"
  by (simp_all add: attachCPU_def attachMemory_def attachIO_def attachNetwork_def attachSyscall_def attachers)

lemma load_probes_owns:
  "owns base st \<Longrightarrow> \<forall>(n, p, f) \<in> set ps. attacher f \<Longrightarrow>
   (case load_probes k ps st of (Inl e, s) \<Rightarrow> mset (bs_open s) = base | (Inr lp, s) \<Rightarrow> owns base (lp, s))"
proof (induction k ps st rule: load_probes.induct)
  case (2 k name path load ps lp s)
  let ?st = "(lp\<lparr>lp_collections := lp_collections lp @ [HCollection name]\<rparr>, s\<lparr>bs_open := bs_open s @ [HCollection name]\<rparr>)"
  obtain r lp1 s1 where r: "load ?st = (r, (lp1, s1))" by (metis surj_pair)
  have "owns base ?st" using 2(2) by (simp add: owns_def lp_handles_def)
  moreover have "attacher load" using 2(3) by auto
  ultimately have "owns base (lp1, s1)" using r by (metis attacher_def snd_conv)
  then show ?case
    using 2 r by (auto simp: Close_owns split: option.splits)
qed simp

lemma LoadCoreProbes_cases:
  "case LoadCoreProbes cfg k s of
     (Inl e, s1) \<Rightarrow> mset (bs_open s1) = mset (bs_open s)
   | (Inr lp, s1) \<Rightarrow> mset (bs_open s1) = mset (bs_open s) + lp_handles lp
       \<and> mset (bs_open (LoadedProbes_Close lp s1)) = mset (bs_open s)"
proof -
  let ?st = "(\<lparr>lp_collections = [], lp_links = [], lp_ringbufs = []\<rparr>, s)"
  have o: "owns (mset (bs_open s)) ?st" by (simp add: owns_def lp_handles_def)
  have "\<forall>(n, p, f) \<in> set (probeSpecs cfg k). attacher f" by (simp add: probeSpecs_def attachers_all)
  note ow = load_probes_owns [OF o this, of k]
  obtain r s1 where r: "load_probes k (probeSpecs cfg k) ?st = (r, s1)" by fastforce
  show ?thesis
    using ow Close_owns
    by (cases r) (auto simp: LoadCoreProbes_def r owns_def split: option.splits)
qed

end
