(* ===== verification/SecurityCollectors.thy ===== *)
theory SecurityCollectors
  imports GoBinary GoFmt CgroupResolver ProcessGraph
begin

text \<open>
  The security collectors of \<open>pkg/collector\<close>: process lineage, execve, DNS, privilege
  escalation and container escape. Each drains a ring buffer until its first failing read,
  parses the records of its probe and turns them into the event envelope, with the container
  name of the cgroup resolver and the ancestry of the lineage interface of \<open>pkg/lineage\<close>.
  The BPF hash map of processes is a map, the same during one call; the times and inputs of
  the resolver's refreshes are those of an environment, numbered in the order of look-ups.
\<close>

section \<open>Shared steps\<close>

record sec_env =
  sv_now :: "nat \<Rightarrow> instant"
  sv_scan :: "nat \<Rightarrow> refresh_input"
  sv_bootOffset :: "64 word"

text \<open>The resolver and the number of look-ups so far.\<close>

type_synonym sec_state = "Resolver \<times> nat"

definition container_name :: "sec_env \<Rightarrow> 64 word \<Rightarrow> sec_state \<Rightarrow> string \<times> sec_state" where
  "container_name env cg st =
     (case st of (r, n) \<Rightarrow>
        let (info, r1) = Resolver_Lookup cg (sv_now env n) (sv_scan env n) r
        in ((case info of Some i \<Rightarrow> ci_Name i | None \<Rightarrow> ''cgroup:'' @ show_nat (unat cg)), (r1, Suc n)))"

text \<open>\<open>time.Unix(0, int64(ts) + bootOffset)\<close>, in wrapping 64-bit arithmetic.\<close>

definition wall_time :: "sec_env \<Rightarrow> 64 word \<Rightarrow> instant" where
  "wall_time env ts = sint (ts + sv_bootOffset env)"

text \<open>The records of a drain: reading stops at the first error, records that are too short are skipped.\<close>

fun ring_records :: "nat \<Rightarrow> ring_read list \<Rightarrow> 8 word list list" where
  "ring_records sz [] = []"
| "ring_records sz (RingRecord bs # rs) = (if length bs < sz then ring_records sz rs else bs # ring_records sz rs)"
| "ring_records sz (RingClosed # rs) = []"
| "ring_records sz (RingError # rs) = []"

text \<open>The loop of a drain: one envelope per record, in order; the writer, if any, gets the same envelopes.\<close>

fun envelopes :: "('r \<Rightarrow> sec_state \<Rightarrow> EventEnvelope \<times> sec_state) \<Rightarrow> 'r list \<Rightarrow> sec_state \<Rightarrow> EventEnvelope list \<times> sec_state" where
  "envelopes f [] st = ([], st)"
| "envelopes f (x # xs) st = (let (e, st1) = f x st; (es, st2) = envelopes f xs st1 in (e # es, st2))"

record drained =
  dr_events :: "EventEnvelope list"
  dr_written :: "EventEnvelope list"

definition drain_events ::
  "nat \<Rightarrow> (8 word list \<Rightarrow> 'r) \<Rightarrow> ('r \<Rightarrow> sec_state \<Rightarrow> EventEnvelope \<times> sec_state) \<Rightarrow> bool \<Rightarrow> ring_read list \<Rightarrow> sec_state
    \<Rightarrow> drained \<times> sec_state" where
  "drain_events sz parse toEnvelope writer reads st =
     (let (es, st1) = envelopes toEnvelope (map parse (ring_records sz reads)) st
      in (\<lparr>dr_events = es, dr_written = (if writer then es else [])\<rparr>, st1))"

section \<open>Lineage\<close>

definition MaxAncestorDepth :: int where "MaxAncestorDepth = 8"

record LineageEntry =
  le_PPID :: "32 word"
  le_CgroupID :: "64 word"
  le_Comm :: string
  le_ForkTime :: instant
  le_CommFinal :: bool

record LineageLookup =
  ll_Lookup :: "64 word \<Rightarrow> 32 word \<Rightarrow> LineageEntry option"
  ll_Ancestors :: "64 word \<Rightarrow> 32 word \<Rightarrow> int \<Rightarrow> LineageEntry list \<times> bool"

record lineageEntryBPF =
  lb_PPID :: "32 word"
  lb_CgroupID :: "64 word"
  lb_Comm :: "8 word list"
  lb_ForkTsNs :: "64 word"
  lb_CommFinal :: "8 word"

type_synonym tree_map = "64 word \<times> 32 word \<rightharpoonup> lineageEntryBPF"

definition toLineageEntry :: "sec_env \<Rightarrow> lineageEntryBPF \<Rightarrow> LineageEntry" where
  "toLineageEntry env v = \<lparr>le_PPID = lb_PPID v, le_CgroupID = lb_CgroupID v, le_Comm = nullTermStr (lb_Comm v),
     le_ForkTime = wall_time env (lb_ForkTsNs v), le_CommFinal = (lb_CommFinal v = 1)\<rparr>"

definition Lineage_Lookup :: "sec_env \<Rightarrow> tree_map \<Rightarrow> 64 word \<Rightarrow> 32 word \<Rightarrow> LineageEntry option" where
  "Lineage_Lookup env tree cg tgid = map_option (toLineageEntry env) (tree (cg, tgid))"

text \<open>The walk up, newest first; the first argument is the number of rounds left.\<close>

fun lineage_walk :: "nat \<Rightarrow> sec_env \<Rightarrow> tree_map \<Rightarrow> 64 word \<Rightarrow> 32 word \<Rightarrow> LineageEntry list" where
  "lineage_walk 0 env tree cg tgid = []"
| "lineage_walk (Suc n) env tree cg tgid =
     (case Lineage_Lookup env tree cg tgid of
        None \<Rightarrow> []
      | Some entry \<Rightarrow>
          entry # (if le_PPID entry = 0 \<or> le_PPID entry = 1 \<or> le_PPID entry = tgid then []
                   else case tree (cg, le_PPID entry) of
                          None \<Rightarrow> []
                        | Some parentVal \<Rightarrow> lineage_walk n env tree (lb_CgroupID parentVal) (le_PPID entry)))"

definition Lineage_Ancestors :: "sec_env \<Rightarrow> tree_map \<Rightarrow> 64 word \<Rightarrow> 32 word \<Rightarrow> int \<Rightarrow> LineageEntry list \<times> bool" where
  "Lineage_Ancestors env tree cg tgid maxDepth0 =
     (let maxDepth = (if maxDepth0 \<le> 0 then MaxAncestorDepth else maxDepth0);
          chain = lineage_walk (nat maxDepth) env tree cg tgid;
          truncated = (int (length chain) \<ge> maxDepth \<and> chain \<noteq> [] \<and> le_PPID (last chain) \<noteq> 0 \<and> le_PPID (last chain) \<noteq> 1)
      in (rev chain, truncated))"

definition lineage_of :: "sec_env \<Rightarrow> tree_map \<Rightarrow> LineageLookup" where
  "lineage_of env tree = \<lparr>ll_Lookup = Lineage_Lookup env tree, ll_Ancestors = Lineage_Ancestors env tree\<rparr>"

record forkEventRaw =
  fk_CgroupID :: "64 word"
  fk_ForkTsNs :: "64 word"
  fk_PPID :: "32 word"
  fk_TGID :: "32 word"
  fk_ParentComm :: "8 word list"
  fk_ChildComm :: "8 word list"
  fk_CommFinal :: "8 word"

definition parseForkEvent :: "8 word list \<Rightarrow> forkEventRaw" where
  "parseForkEvent d = \<lparr>fk_CgroupID = u64_at 0 d, fk_ForkTsNs = u64_at 8 d, fk_PPID = u32_at 16 d, fk_TGID = u32_at 20 d,
     fk_ParentComm = take 16 (drop 24 d), fk_ChildComm = take 16 (drop 40 d), fk_CommFinal = d ! 56\<rparr>"

definition forkEventToEnvelope :: "sec_env \<Rightarrow> forkEventRaw \<Rightarrow> sec_state \<Rightarrow> EventEnvelope \<times> sec_state" where
  "forkEventToEnvelope env raw st =
     (let (name, st1) = container_name env (fk_CgroupID raw) st
      in (\<lparr>ee_Timestamp = wall_time env (fk_ForkTsNs raw), ee_CgroupID = fk_CgroupID raw, ee_ContainerName = name,
           ee_PID = fk_TGID raw, ee_PPID = fk_PPID raw, ee_Process = nullTermStr (fk_ChildComm raw),
           ee_ParentProcess = nullTermStr (fk_ParentComm raw), ee_EventType = EventTypeFork, ee_AncestryTruncated = False,
           ee_Metadata = [(''container'', AnyString name), (''child_comm_final'', AnyBool (fk_CommFinal raw = 1))]\<rparr>, st1))"

text \<open>\<open>None\<close> for the ring buffer is the map-only mode.\<close>

definition ReadForkEvents :: "sec_env \<Rightarrow> bool \<Rightarrow> ring_read list option \<Rightarrow> sec_state \<Rightarrow> drained \<times> sec_state" where
  "ReadForkEvents env writer rb st =
     (case rb of
        None \<Rightarrow> (\<lparr>dr_events = [], dr_written = []\<rparr>, st)
      | Some reads \<Rightarrow> drain_events 64 parseForkEvent (forkEventToEnvelope env) writer reads st)"

section \<open>Execve\<close>

definition execPathLen :: nat where "execPathLen = 256"
definition execMaxTotalLen :: nat where "execMaxTotalLen = 2048"

record execEventRaw =
  xr_CgroupID :: "64 word"
  xr_TsNs :: "64 word"
  xr_TGID :: "32 word"
  xr_PPID :: "32 word"
  xr_Path :: "8 word list"
  xr_Argv :: "8 word list"
  xr_ArgvCount :: "32 word"
  xr_ArgvTotalLen :: "32 word"
  xr_ArgvTruncated :: "8 word"
  xr_PathTruncated :: "8 word"

definition parseExecEvent :: "8 word list \<Rightarrow> execEventRaw" where
  "parseExecEvent d =
     (let argvStart = 24 + execPathLen; e = argvStart + execMaxTotalLen
      in \<lparr>xr_CgroupID = u64_at 0 d, xr_TsNs = u64_at 8 d, xr_TGID = u32_at 16 d, xr_PPID = u32_at 20 d,
          xr_Path = take execPathLen (drop 24 d), xr_Argv = take execMaxTotalLen (drop argvStart d),
          xr_ArgvCount = u32_at e d, xr_ArgvTotalLen = u32_at (e + 4) d, xr_ArgvTruncated = d ! (e + 8),
          xr_PathTruncated = d ! (e + 9)\<rparr>)"

function argv_loop :: "8 word list \<Rightarrow> string list" where
  "argv_loop d =
     (let w = takeWhile (\<lambda>b. b \<noteq> 0) d; rest = dropWhile (\<lambda>b. b \<noteq> 0) d;
          more = (case rest of [] \<Rightarrow> [] | _ # d1 \<Rightarrow> argv_loop d1)
      in if w \<noteq> [] then bytes_str w # more else more)"
  by pat_completeness auto
termination
proof (relation "measure length")
  fix d :: "8 word list" and w rest x d1
  assume "rest = dropWhile (\<lambda>b. b \<noteq> 0) d" "rest = x # d1"
  then have "length (dropWhile (\<lambda>b. b \<noteq> 0) d) = Suc (length d1)" by (metis length_Cons)
  then show "(d1, d) \<in> measure length" using length_dropWhile_le [of "\<lambda>b. b \<noteq> 0" d] by simp
qed simp

declare argv_loop.simps [simp del]

definition decodeArgv :: "8 word list \<Rightarrow> 32 word \<Rightarrow> string list" where
  "decodeArgv buf totalLen =
     (if totalLen = 0 \<or> unat totalLen > length buf then [] else argv_loop (take (unat totalLen) buf))"

text \<open>The path after its last slash.\<close>

definition base_name :: "string \<Rightarrow> string" where
  "base_name s = last (split_on CHR ''/'' s)"

definition lineage_parent :: "LineageLookup option \<Rightarrow> 64 word \<Rightarrow> 32 word \<Rightarrow> string \<Rightarrow> string" where
  "lineage_parent lin cg ppid other =
     (case lin of None \<Rightarrow> other | Some l \<Rightarrow> (case ll_Lookup l cg ppid of Some e \<Rightarrow> le_Comm e | None \<Rightarrow> other))"

definition execEventToEnvelope :: "sec_env \<Rightarrow> LineageLookup option \<Rightarrow> execEventRaw \<Rightarrow> sec_state \<Rightarrow> EventEnvelope \<times> sec_state" where
  "execEventToEnvelope env lin raw st =
     (let (name, st1) = container_name env (xr_CgroupID raw) st
      in (\<lparr>ee_Timestamp = wall_time env (xr_TsNs raw), ee_CgroupID = xr_CgroupID raw, ee_ContainerName = name,
           ee_PID = xr_TGID raw, ee_PPID = xr_PPID raw, ee_Process = base_name (nullTermStr (xr_Path raw)),
           ee_ParentProcess = lineage_parent lin (xr_CgroupID raw) (xr_PPID raw) [], ee_EventType = EventTypeExec,
           ee_AncestryTruncated = False,
           ee_Metadata = [(''container'', AnyString name), (''full_path'', AnyString (nullTermStr (xr_Path raw))),
             (''argv'', AnyStrings (decodeArgv (xr_Argv raw) (xr_ArgvTotalLen raw))),
             (''argv_truncated'', AnyBool (xr_ArgvTruncated raw = 1)), (''path_truncated'', AnyBool (xr_PathTruncated raw = 1)),
             (''arg_count'', AnyUint32 (xr_ArgvCount raw))]\<rparr>, st1))"

definition ReadExecEvents :: "sec_env \<Rightarrow> LineageLookup option \<Rightarrow> bool \<Rightarrow> ring_read list \<Rightarrow> sec_state \<Rightarrow> drained \<times> sec_state" where
  "ReadExecEvents env lin = drain_events 2344 parseExecEvent (execEventToEnvelope env lin)"

section \<open>DNS\<close>

record dnsEventRaw =
  dn_CgroupID :: "64 word"
  dn_SendTsNs :: "64 word"
  dn_LatencyNs :: "64 word"
  dn_TGID :: "32 word"
  dn_PPID :: "32 word"
  dn_Comm :: "8 word list"
  dn_QName :: "8 word list"
  dn_QType :: "16 word"
  dn_RCode :: "16 word"
  dn_HasResponse :: "8 word"
  dn_ViaConnect :: "8 word"

definition qtypeNames :: "(16 word \<times> string) list" where
  "qtypeNames = [(1, ''A''), (2, ''NS''), (5, ''CNAME''), (6, ''SOA''), (12, ''PTR''), (15, ''MX''), (16, ''TXT''),
     (28, ''AAAA''), (33, ''SRV''), (255, ''ANY'')]"

definition rcodeNames :: "(16 word \<times> string) list" where
  "rcodeNames = [(0, ''NOERROR''), (1, ''FORMERR''), (2, ''SERVFAIL''), (3, ''NXDOMAIN''), (4, ''NOTIMP''), (5, ''REFUSED'')]"

definition qtypeName :: "16 word \<Rightarrow> string" where
  "qtypeName qt = (case map_of qtypeNames qt of Some s \<Rightarrow> s | None \<Rightarrow> ''TYPE'' @ show_nat (unat qt))"

definition rcodeName :: "16 word \<Rightarrow> string" where
  "rcodeName rc = (case map_of rcodeNames rc of Some s \<Rightarrow> s | None \<Rightarrow> ''RCODE'' @ show_nat (unat rc))"

definition resolverStyle :: "8 word \<Rightarrow> string" where
  "resolverStyle viaConnect = (if viaConnect = 1 then ''connected'' else ''sendto'')"

definition parseDNSEvent :: "8 word list \<Rightarrow> dnsEventRaw" where
  "parseDNSEvent d = \<lparr>dn_CgroupID = u64_at 0 d, dn_SendTsNs = u64_at 8 d, dn_LatencyNs = u64_at 16 d, dn_TGID = u32_at 24 d,
     dn_PPID = u32_at 28 d, dn_Comm = take 16 (drop 32 d), dn_QName = take 256 (drop 48 d), dn_QType = u16_at 304 d,
     dn_RCode = u16_at 306 d, dn_HasResponse = d ! 308, dn_ViaConnect = d ! 309\<rparr>"

definition dnsEventToEnvelope :: "sec_env \<Rightarrow> LineageLookup option \<Rightarrow> dnsEventRaw \<Rightarrow> sec_state \<Rightarrow> EventEnvelope \<times> sec_state" where
  "dnsEventToEnvelope env lin raw st =
     (let (name, st1) = container_name env (dn_CgroupID raw) st
      in (\<lparr>ee_Timestamp = wall_time env (dn_SendTsNs raw), ee_CgroupID = dn_CgroupID raw, ee_ContainerName = name,
           ee_PID = dn_TGID raw, ee_PPID = dn_PPID raw, ee_Process = nullTermStr (dn_Comm raw),
           ee_ParentProcess = lineage_parent lin (dn_CgroupID raw) (dn_PPID raw) [], ee_EventType = EventTypeDNSQuery,
           ee_AncestryTruncated = False,
           ee_Metadata = [(''container'', AnyString name), (''query'', AnyString (nullTermStr (dn_QName raw))),
             (''query_type'', AnyString (qtypeName (dn_QType raw))), (''qtype_num'', AnyUint16 (dn_QType raw)),
             (''rcode'', AnyString (rcodeName (dn_RCode raw))), (''rcode_num'', AnyUint16 (dn_RCode raw)),
             (''latency_ms'', AnyFloat64 (f64_div (f64_of_int (uint (dn_LatencyNs raw))) 1000000)),
             (''has_response'', AnyBool (dn_HasResponse raw = 1)), (''via_connect'', AnyBool (dn_ViaConnect raw = 1)),
             (''resolver_style'', AnyString (resolverStyle (dn_ViaConnect raw)))]\<rparr>, st1))"

definition ReadDNSEvents :: "sec_env \<Rightarrow> LineageLookup option \<Rightarrow> bool \<Rightarrow> ring_read list \<Rightarrow> sec_state \<Rightarrow> drained \<times> sec_state" where
  "ReadDNSEvents env lin = drain_events 312 parseDNSEvent (dnsEventToEnvelope env lin)"

section \<open>Privilege escalation\<close>

definition capNames :: "string list" where
  "capNames = [''CAP_CHOWN'', ''CAP_DAC_OVERRIDE'', ''CAP_DAC_READ_SEARCH'', ''CAP_FOWNER'', ''CAP_FSETID'', ''CAP_KILL'',
     ''CAP_SETGID'', ''CAP_SETUID'', ''CAP_SETPCAP'', ''CAP_LINUX_IMMUTABLE'', ''CAP_NET_BIND_SERVICE'', ''CAP_NET_BROADCAST'',
     ''CAP_NET_ADMIN'', ''CAP_NET_RAW'', ''CAP_IPC_LOCK'', ''CAP_IPC_OWNER'', ''CAP_SYS_MODULE'', ''CAP_SYS_RAWIO'',
     ''CAP_SYS_CHROOT'', ''CAP_SYS_PTRACE'', ''CAP_SYS_PACCT'', ''CAP_SYS_ADMIN'', ''CAP_SYS_BOOT'', ''CAP_SYS_NICE'',
     ''CAP_SYS_RESOURCE'', ''CAP_SYS_TIME'', ''CAP_SYS_TTY_CONFIG'', ''CAP_MKNOD'', ''CAP_LEASE'', ''CAP_AUDIT_WRITE'',
     ''CAP_AUDIT_CONTROL'', ''CAP_SETFCAP'']"

definition escTypeNames :: "(32 word \<times> string) list" where
  "escTypeNames = [(1, ''setuid''), (2, ''setgid''), (3, ''ptrace''), (4, ''cap_capable'')]"

record privescEventRaw =
  pe_CgroupID :: "64 word"
  pe_TsNs :: "64 word"
  pe_TGID :: "32 word"
  pe_PPID :: "32 word"
  pe_Comm :: "8 word list"
  pe_ParentComm :: "8 word list"
  pe_OldUID :: "32 word"
  pe_NewUID :: "32 word"
  pe_EscType :: "32 word"
  pe_Cap :: "32 word"
  pe_PtracePID :: "32 word"
  pe_Pad :: "32 word"

definition parsePrivEscEvent :: "8 word list \<Rightarrow> privescEventRaw" where
  "parsePrivEscEvent d = \<lparr>pe_CgroupID = u64_at 0 d, pe_TsNs = u64_at 8 d, pe_TGID = u32_at 16 d, pe_PPID = u32_at 20 d,
     pe_Comm = take 16 (drop 24 d), pe_ParentComm = take 16 (drop 40 d), pe_OldUID = u32_at 56 d, pe_NewUID = u32_at 60 d,
     pe_EscType = u32_at 64 d, pe_Cap = u32_at 68 d, pe_PtracePID = u32_at 72 d, pe_Pad = u32_at 76 d\<rparr>"

definition uid_meta :: "string \<Rightarrow> string \<Rightarrow> privescEventRaw \<Rightarrow> (string \<times> any) list" where
  "uid_meta old new raw =
     (if pe_OldUID raw = 0xFFFFFFFF then [(new, AnyUint32 (pe_NewUID raw))]
      else [(old, AnyUint32 (pe_OldUID raw)), (new, AnyUint32 (pe_NewUID raw))])"

definition cap_name :: "32 word \<Rightarrow> string" where
  "cap_name c = (if unat c < length capNames then capNames ! unat c else ''CAP_'' @ show_nat (unat c))"

definition esc_meta :: "privescEventRaw \<Rightarrow> (string \<times> any) list" where
  "esc_meta raw =
     (if pe_EscType raw = 1 then uid_meta ''old_uid'' ''new_uid'' raw
      else if pe_EscType raw = 2 then uid_meta ''old_gid'' ''new_gid'' raw
      else if pe_EscType raw = 3 then [(''target_pid'', AnyUint32 (pe_PtracePID raw))]
      else if pe_EscType raw = 4
        then [(''capability'', AnyString (cap_name (pe_Cap raw))), (''capability_num'', AnyUint32 (pe_Cap raw))]
      else [])"

definition privEscToEnvelope :: "sec_env \<Rightarrow> LineageLookup option \<Rightarrow> privescEventRaw \<Rightarrow> sec_state \<Rightarrow> EventEnvelope \<times> sec_state" where
  "privEscToEnvelope env lin raw st =
     (let (name, st1) = container_name env (pe_CgroupID raw) st;
          process = nullTermStr (pe_Comm raw); parentComm = nullTermStr (pe_ParentComm raw);
          parentProcess = (if parentComm = [] \<or> parentComm = process
                           then lineage_parent lin (pe_CgroupID raw) (pe_PPID raw) parentComm else parentComm);
          escType = (case map_of escTypeNames (pe_EscType raw) of Some s \<Rightarrow> s | None \<Rightarrow> ''unknown_'' @ show_nat (unat (pe_EscType raw)))
      in (\<lparr>ee_Timestamp = wall_time env (pe_TsNs raw), ee_CgroupID = pe_CgroupID raw, ee_ContainerName = name,
           ee_PID = pe_TGID raw, ee_PPID = pe_PPID raw, ee_Process = process, ee_ParentProcess = parentProcess,
           ee_EventType = EventTypePrivEsc, ee_AncestryTruncated = False,
           ee_Metadata = [(''container'', AnyString name), (''escalation_type'', AnyString escType)] @ esc_meta raw\<rparr>, st1))"

definition ReadPrivEscEvents :: "sec_env \<Rightarrow> LineageLookup option \<Rightarrow> bool \<Rightarrow> ring_read list \<Rightarrow> sec_state \<Rightarrow> drained \<times> sec_state" where
  "ReadPrivEscEvents env lin = drain_events 80 parsePrivEscEvent (privEscToEnvelope env lin)"

section \<open>Container escape\<close>

unbundle bit_operations_syntax

definition nsFlagNames :: "(32 word \<times> string) list" where
  "nsFlagNames = [(0x00020000, ''CLONE_NEWNS''), (0x04000000, ''CLONE_NEWUTS''), (0x08000000, ''CLONE_NEWIPC''),
     (0x10000000, ''CLONE_NEWUSER''), (0x20000000, ''CLONE_NEWPID''), (0x40000000, ''CLONE_NEWNET'')]"

definition mountFlagNames :: "(32 word \<times> string) list" where
  "mountFlagNames = [(0x00000001, ''MS_RDONLY''), (0x00000002, ''MS_NOSUID''), (0x00000004, ''MS_NODEV''), (0x00000008, ''MS_NOEXEC''),
     (0x00000010, ''MS_SYNCHRONOUS''), (0x00000020, ''MS_REMOUNT''), (0x00000040, ''MS_MANDLOCK''), (0x00000080, ''MS_DIRSYNC''),
     (0x00000400, ''MS_NOATIME''), (0x00000800, ''MS_NODIRATIME''), (0x00001000, ''MS_BIND''), (0x00002000, ''MS_MOVE''),
     (0x00004000, ''MS_REC'')]"

definition knownRuntimes :: "string list" where
  "knownRuntimes = [''containerd-shim'', ''containerd-shim-runc-v2'', ''runc'', ''dockerd'', ''crio'', ''crun'', ''podman'']"

record escapeEventRaw =
  sr_CgroupID :: "64 word"
  sr_TsNs :: "64 word"
  sr_TGID :: "32 word"
  sr_PPID :: "32 word"
  sr_Comm :: "8 word list"
  sr_ParentComm :: "8 word list"
  sr_IndicatorType :: "32 word"
  sr_NsFlags :: "32 word"

definition parseEscapeEvent :: "8 word list \<Rightarrow> escapeEventRaw" where
  "parseEscapeEvent d = \<lparr>sr_CgroupID = u64_at 0 d, sr_TsNs = u64_at 8 d, sr_TGID = u32_at 16 d, sr_PPID = u32_at 20 d,
     sr_Comm = take 16 (drop 24 d), sr_ParentComm = take 16 (drop 40 d), sr_IndicatorType = u32_at 56 d, sr_NsFlags = u32_at 60 d\<rparr>"

text \<open>The verb \<open>%08x\<close>.\<close>

primrec hex_digits :: "nat \<Rightarrow> nat \<Rightarrow> string" where
  "hex_digits 0 n = []"
| "hex_digits (Suc k) n = hex_digits k (n div 16) @ [''0123456789abcdef'' ! (n mod 16)]"

text \<open>The names of the flags that are set, in the order of the map.\<close>

definition flag_loop :: "32 word \<Rightarrow> (32 word \<times> string) list \<Rightarrow> string" where
  "flag_loop flags fm = fold (\<lambda>(flag, name) result.
     if flags AND flag \<noteq> 0 then (if result \<noteq> [] then result @ ''|'' else result) @ name else result) fm []"

definition decodeNsFlags :: "32 word \<Rightarrow> 32 word \<Rightarrow> string" where
  "decodeNsFlags flags indType =
     (if flags = 0 then []
      else let result = flag_loop flags (if indType = 1 then mountFlagNames else nsFlagNames)
           in if result = [] then ''0x'' @ hex_digits 8 (unat flags) else result)"

definition indicatorTypeName :: "32 word \<Rightarrow> string" where
  "indicatorTypeName t =
     (if t = 1 then ''mount'' else if t = 2 then ''unshare'' else if t = 3 then ''pivot_root''
      else ''unknown_'' @ show_nat (unat t))"

definition escapeToEnvelope :: "sec_env \<Rightarrow> LineageLookup option \<Rightarrow> escapeEventRaw \<Rightarrow> sec_state \<Rightarrow> EventEnvelope \<times> sec_state" where
  "escapeToEnvelope env lin raw st =
     (let (name, st1) = container_name env (sr_CgroupID raw) st;
          process = nullTermStr (sr_Comm raw); parentComm = nullTermStr (sr_ParentComm raw);
          (parentProcess, ancestryTruncated) =
            (case lin of
               None \<Rightarrow> (parentComm, False)
             | Some l \<Rightarrow>
                let (ancestors, truncated) = ll_Ancestors l (sr_CgroupID raw) (sr_TGID raw) MaxAncestorDepth
                in (if ancestors \<noteq> [] then le_Comm (last ancestors) else parentComm, truncated));
          runtimeInitiated = (process \<in> set knownRuntimes \<or> parentComm \<in> set knownRuntimes)
      in (\<lparr>ee_Timestamp = wall_time env (sr_TsNs raw), ee_CgroupID = sr_CgroupID raw, ee_ContainerName = name,
           ee_PID = sr_TGID raw, ee_PPID = sr_PPID raw, ee_Process = process, ee_ParentProcess = parentProcess,
           ee_EventType = EventTypeEscapeIndicator, ee_AncestryTruncated = ancestryTruncated,
           ee_Metadata = [(''container'', AnyString name), (''indicator_type'', AnyString (indicatorTypeName (sr_IndicatorType raw))),
             (''namespace_flags'', AnyString (decodeNsFlags (sr_NsFlags raw) (sr_IndicatorType raw))),
             (''ns_flags_raw'', AnyUint32 (sr_NsFlags raw)), (''runtime_initiated'', AnyBool runtimeInitiated)]\<rparr>, st1))"

definition ReadEscapeEvents :: "sec_env \<Rightarrow> LineageLookup option \<Rightarrow> bool \<Rightarrow> ring_read list \<Rightarrow> sec_state \<Rightarrow> drained \<times> sec_state" where
  "ReadEscapeEvents env lin = drain_events 72 parseEscapeEvent (escapeToEnvelope env lin)"

section \<open>The drains\<close>

text \<open>A drain gives one envelope per complete record before the first failing read, in their order.\<close>

lemma length_envelopes: "length (fst (envelopes f xs st)) = length xs"
  by (induction f xs st rule: envelopes.induct) (auto simp: split: prod.splits)

lemma ring_records_spec:
  "ring_records sz rs = filter (\<lambda>bs. sz \<le> length bs)
     (map (\<lambda>r. case r of RingRecord bs \<Rightarrow> bs | _ \<Rightarrow> []) (takeWhile (\<lambda>r. \<exists>bs. r = RingRecord bs) rs))"
  by (induction sz rs rule: ring_records.induct) auto

lemma envelopes_each:
  assumes "\<And>x st. P x (fst (f x st))"
  shows "list_all2 P xs (fst (envelopes f xs st))"
proof (induction xs arbitrary: st)
  case (Cons x xs)
  show ?case using Cons [of "snd (f x st)"] assms [of x st] by (simp add: Let_def case_prod_beta)
qed simp

lemma drain_events_each:
  assumes "\<And>x st. P x (fst (f x st))"
  shows "list_all2 P (map parse (ring_records sz reads)) (dr_events (fst (drain_events sz parse f writer reads st)))"
  using envelopes_each [of P f, OF assms, of "map parse (ring_records sz reads)" st]
  by (simp add: drain_events_def case_prod_beta)

lemma drain_events_written:
  "dr_written (fst (drain_events sz parse f True reads st)) = dr_events (fst (drain_events sz parse f True reads st))"
  by (simp add: drain_events_def case_prod_beta)

text \<open>The envelope of a fork names the process, its parent and the two command names of the record.\<close>

lemma fork_envelope:
  "ee_PID (fst (forkEventToEnvelope env raw st)) = fk_TGID raw \<and> ee_PPID (fst (forkEventToEnvelope env raw st)) = fk_PPID raw
   \<and> ee_CgroupID (fst (forkEventToEnvelope env raw st)) = fk_CgroupID raw
   \<and> ee_Process (fst (forkEventToEnvelope env raw st)) = nullTermStr (fk_ChildComm raw)
   \<and> ee_ParentProcess (fst (forkEventToEnvelope env raw st)) = nullTermStr (fk_ParentComm raw)
   \<and> ee_EventType (fst (forkEventToEnvelope env raw st)) = EventTypeFork"
  by (simp add: forkEventToEnvelope_def split: prod.splits)

section \<open>Arguments round trip\<close>

lemma argv_loop_cons:
  assumes "a \<noteq> []" "\<forall>b \<in> set a. b \<noteq> 0"
  shows "argv_loop (a @ 0 # d) = bytes_str a # argv_loop d"
proof -
  have "takeWhile (\<lambda>b. b \<noteq> 0) (a @ 0 # d) = a" "dropWhile (\<lambda>b. b \<noteq> 0) (a @ 0 # d) = 0 # d"
    using assms(2) by (simp_all add: takeWhile_append2 dropWhile_append2)
  then show ?thesis using assms(1) by (simp add: argv_loop.simps [of "a @ 0 # d"])
qed

lemma argv_loop_args:
  "\<forall>a \<in> set args. a \<noteq> [] \<and> (\<forall>b \<in> set a. b \<noteq> 0) \<Longrightarrow> argv_loop (concat (map (\<lambda>a. a @ [0]) args)) = map bytes_str args"
proof (induction args)
  case Nil
  then show ?case by (simp add: argv_loop.simps)
next
  case (Cons a args)
  then show ?case using argv_loop_cons [of a "concat (map (\<lambda>a. a @ [0]) args)"] by simp
qed

text \<open>The packed arguments of a record, each ended by a zero byte, are decoded to the arguments.\<close>

lemma decodeArgv_packed:
  assumes "\<forall>a \<in> set args. a \<noteq> [] \<and> (\<forall>b \<in> set a. b \<noteq> 0)"
    and "d = concat (map (\<lambda>a. a @ [0]) args)" "unat n = length d"
  shows "decodeArgv (d @ rest) n = map bytes_str args"
proof (cases "n = 0")
  case True
  then have "d = []" using assms(3) by simp
  then have "args = []" using assms(2) by (cases args) auto
  then show ?thesis using True by (simp add: decodeArgv_def)
next
  case False
  then show ?thesis using assms argv_loop_args [OF assms(1)] by (simp add: decodeArgv_def)
qed

section \<open>The lineage interface\<close>

text \<open>
  What the collectors may rely on: an ancestry is no longer than the depth asked for, and it
  ends with the entry of the process itself, when there is one.
\<close>

locale lineage_contract =
  fixes look :: "64 word \<Rightarrow> 32 word \<Rightarrow> LineageEntry option"
    and anc :: "64 word \<Rightarrow> 32 word \<Rightarrow> int \<Rightarrow> LineageEntry list \<times> bool"
  assumes anc_bound: "0 < d \<Longrightarrow> int (length (fst (anc cg t d))) \<le> d"
    and anc_self: "0 < d \<Longrightarrow> look cg t = Some e \<Longrightarrow> fst (anc cg t d) \<noteq> [] \<and> last (fst (anc cg t d)) = e"
    and anc_unknown: "look cg t = None \<Longrightarrow> fst (anc cg t d) = []"
begin

lemma escape_parent:
  assumes "ll_Lookup l = look" "ll_Ancestors l = anc"
  shows "ee_ParentProcess (fst (escapeToEnvelope env (Some l) raw st)) =
    (case look (sr_CgroupID raw) (sr_TGID raw) of Some e \<Rightarrow> le_Comm e | None \<Rightarrow> nullTermStr (sr_ParentComm raw))"
proof (cases "look (sr_CgroupID raw) (sr_TGID raw)")
  case None
  from anc_unknown [OF this, of MaxAncestorDepth] show ?thesis
    by (simp add: escapeToEnvelope_def assms(2) None Let_def case_prod_beta)
next
  case (Some e)
  have "0 < MaxAncestorDepth" by (simp add: MaxAncestorDepth_def)
  from anc_self [OF this Some] show ?thesis
    by (simp add: escapeToEnvelope_def assms(2) Some Let_def case_prod_beta)
qed

end

lemma lineage_walk_length: "length (lineage_walk n env tree cg t) \<le> n"
  by (induction n env tree cg t rule: lineage_walk.induct) (auto split: option.splits)

lemma lineage_walk_self:
  "lineage_walk (Suc n) env tree cg t = (case Lineage_Lookup env tree cg t of None \<Rightarrow> [] | Some e \<Rightarrow> e # tl (lineage_walk (Suc n) env tree cg t))"
  by (simp split: option.splits)

interpretation ln: lineage_contract "Lineage_Lookup env tree" "Lineage_Ancestors env tree" for env tree
proof unfold_locales
  fix d cg t
  assume "(0 :: int) < d"
  then show "int (length (fst (Lineage_Ancestors env tree cg t d))) \<le> d"
    using lineage_walk_length [of "nat d" env tree cg t] by (simp add: Lineage_Ancestors_def Let_def)
next
  fix d cg t e
  assume a: "(0 :: int) < d" "Lineage_Lookup env tree cg t = Some e"
  then obtain n where n: "nat d = Suc n" by (metis gr0_implies_Suc zero_less_nat_eq)
  have "lineage_walk (nat d) env tree cg t = e # tl (lineage_walk (nat d) env tree cg t)"
    using lineage_walk_self [of n env tree cg t] a(2) n by simp
  then obtain es where "lineage_walk (nat d) env tree cg t = e # es" by blast
  then show "fst (Lineage_Ancestors env tree cg t d) \<noteq> [] \<and> last (fst (Lineage_Ancestors env tree cg t d)) = e"
    using a(1) by (simp add: Lineage_Ancestors_def Let_def)
next
  fix d :: int and cg t
  assume u: "Lineage_Lookup env tree cg t = None"
  obtain n where n: "nat (if d \<le> 0 then MaxAncestorDepth else d) = Suc n"
    by (metis MaxAncestorDepth_def gr0_implies_Suc leI zero_less_nat_eq zero_less_numeral)
  show "fst (Lineage_Ancestors env tree cg t d) = []"
    using u n by (simp add: Lineage_Ancestors_def Let_def)
qed

text \<open>The parent an escape indicator reports is the process itself whenever the process is tracked.\<close>

lemma escape_parent_is_self:
  "tree (sr_CgroupID raw, sr_TGID raw) = Some v \<Longrightarrow>
   ee_ParentProcess (fst (escapeToEnvelope env (Some (lineage_of env' tree)) raw st)) = nullTermStr (lb_Comm v)"
  using ln.escape_parent [of "lineage_of env' tree" env' tree env raw st]
  by (simp add: lineage_of_def Lineage_Lookup_def toLineageEntry_def)

text \<open>Each entry of the walk is the recorded parent of the one before it.\<close>

lemma lineage_walk_chain:
  "Suc i < length (lineage_walk n env tree cg t) \<Longrightarrow>
   \<exists>c v. tree (c, le_PPID (lineage_walk n env tree cg t ! i)) = Some v \<and> lineage_walk n env tree cg t ! Suc i = toLineageEntry env v"
proof (induction n env tree cg t arbitrary: i rule: lineage_walk.induct)
  case (2 n env tree cg t)
  obtain e where e: "Lineage_Lookup env tree cg t = Some e" using 2(2) by (cases "Lineage_Lookup env tree cg t") auto
  show ?case
  proof (cases "le_PPID e = 0 \<or> le_PPID e = 1 \<or> le_PPID e = t")
    case True
    then show ?thesis using 2(2) e by simp
  next
    case False
    then obtain p where p: "tree (cg, le_PPID e) = Some p" using 2(2) e by (cases "tree (cg, le_PPID e)") auto
    let ?w = "lineage_walk n env tree (lb_CgroupID p) (le_PPID e)"
    have w: "lineage_walk (Suc n) env tree cg t = e # ?w" using e False p by simp
    show ?thesis
    proof (cases i)
      case 0
      then have "?w \<noteq> []" using 2(2) w by auto
      then obtain k where k: "n = Suc k" by (cases n) auto
      have "\<exists>v. tree (lb_CgroupID p, le_PPID e) = Some v \<and> hd ?w = toLineageEntry env v"
        using \<open>?w \<noteq> []\<close> unfolding k by (auto simp: Lineage_Lookup_def split: option.splits)
      then show ?thesis using \<open>?w \<noteq> []\<close> unfolding w 0 by (metis hd_conv_nth nth_Cons_0 nth_Cons_Suc)
    next
      case (Suc j)
      then show ?thesis using 2(1) [OF e _ p, of j] False 2(2) unfolding w by auto
    qed
  qed
qed simp

end
