(* ===== verification/GoText.thy ===== *)
theory GoText
  imports GoFloat
begin

text \<open>
  Text the collectors read from the cgroup and process file systems: the lines of
  \<open>bufio.Scanner\<close>, \<open>strings.Fields\<close>, \<open>strconv.ParseUint\<close> in base ten and, of
  \<open>strconv.ParseFloat\<close>, plain decimals, the only numbers the kernel writes there.
\<close>

definition text_lines :: "string \<Rightarrow> string list" where
  "text_lines s = split_on CHR ''\<newline>'' s"

text \<open>\<open>strings.Fields\<close>: the maximal runs of non-blank characters.\<close>

fun fields_loop :: "string \<Rightarrow> string \<Rightarrow> string list" where
  "fields_loop cur [] = (if cur = [] then [] else [cur])"
| "fields_loop cur (c # cs) =
     (if is_space c then (if cur = [] then fields_loop [] cs else cur # fields_loop [] cs)
      else fields_loop (cur @ [c]) cs)"

definition Fields :: "string \<Rightarrow> string list" where
  "Fields s = fields_loop [] s"

definition digits_value :: "string \<Rightarrow> int" where
  "digits_value s = foldl (\<lambda>acc c. 10 * acc + digit_value_int c) 0 s"

definition ParseUint :: "nat \<Rightarrow> string \<Rightarrow> int option" where
  "ParseUint bits s =
     (if s \<noteq> [] \<and> list_all is_digit_char s \<and> digits_value s < 2 ^ bits then Some (digits_value s) else None)"

definition ParseDecimal :: "string \<Rightarrow> f64 option" where
  "ParseDecimal s =
     (let neg = (s \<noteq> [] \<and> hd s = CHR ''-''); t = (if neg \<or> (s \<noteq> [] \<and> hd s = CHR ''+'') then tl s else s);
          i = takeWhile is_digit_char t; r = dropWhile is_digit_char t;
          f = (case r of [] \<Rightarrow> [] | c # cs \<Rightarrow> cs)
      in if (r = [] \<or> hd r = CHR ''.'') \<and> list_all is_digit_char f \<and> i @ f \<noteq> []
         then let v = fl64 (of_int (digits_value (i @ f)) / 10 ^ length f) in Some (if neg then - v else v)
         else None)"

lemma fields_loop_word:
  "\<forall>c \<in> set w. \<not> is_space c \<Longrightarrow> fields_loop cur (w @ s) = fields_loop (cur @ w) s"
  by (induction w arbitrary: cur) auto

text \<open>Words separated by single blanks are the fields.\<close>

lemma Fields_cons:
  assumes "w \<noteq> []" "\<forall>c \<in> set w. \<not> is_space c" "is_space b"
  shows "Fields (w @ b # s) = w # Fields s"
  using assms fields_loop_word [OF assms(2), of "[]" "b # s"] by (simp add: Fields_def)

lemma Fields_one: "w \<noteq> [] \<Longrightarrow> \<forall>c \<in> set w. \<not> is_space c \<Longrightarrow> Fields w = [w]"
  using fields_loop_word [of w "[]" "[]"] by (simp add: Fields_def)

lemma ParseUint_range: "ParseUint bits s = Some v \<Longrightarrow> v < 2 ^ bits"
  by (auto simp: ParseUint_def split: if_splits)

end
