(* ===== verification/MetricCollectors.thy ===== *)
theory MetricCollectors
  imports SecurityCollectors AgentPoll GoText "HOL-Library.Char_ord" "HOL-Library.List_Lexorder" "HOL-Library.Product_Lexorder"
begin

text \<open>
  The metric collectors of \<open>pkg/collector\<close>: CPU, memory, disk, network and system calls. A
  Go type that repeats a record of the agent is that record. The entries of a BPF map are a
  list in the order of the iterator, with the error the iteration ends with; the files of
  the cgroup and process file systems are functions from path and name to content. A
  collection returns its samples with the keys it deletes from the BPF map.
\<close>

section \<open>Shared steps\<close>

definition saturatingSub :: "64 word \<Rightarrow> 64 word \<Rightarrow> 64 word" where
  "saturatingSub a b = (if a < b then 0 else a - b)"

definition saturatingSubU64 :: "64 word \<Rightarrow> 64 word \<Rightarrow> 64 word" where
  "saturatingSubU64 a b = (if a < b then 0 else a - b)"

text \<open>\<open>Duration.Seconds\<close>.\<close>

definition Seconds :: "duration \<Rightarrow> f64" where
  "Seconds d = f64_add (f64_of_int (sgn d * (\<bar>d\<bar> div Second))) (f64_div (f64_of_int (sgn d * (\<bar>d\<bar> mod Second))) 1000000000)"

definition elapsed_secs :: "instant \<Rightarrow> instant \<Rightarrow> f64" where
  "elapsed_secs now prevAt = (let e = Seconds (Sub now prevAt) in if e \<le> 0 then 1 else e)"

definition resolver_step :: "sec_env \<Rightarrow> 64 word \<Rightarrow> sec_state \<Rightarrow> ContainerInfo option \<times> sec_state" where
  "resolver_step env cg st =
     (case st of (r, n) \<Rightarrow> let (info, r1) = Resolver_Lookup cg (sv_now env n) (sv_scan env n) r in (info, (r1, Suc n)))"

text \<open>
  The iteration of a collection: entries of cgroups the resolver does not know are deleted
  afterwards, the others give a sample.
\<close>

fun collect_loop ::
  "sec_env \<Rightarrow> ('k \<Rightarrow> 64 word) \<Rightarrow> ('k \<Rightarrow> 'v \<Rightarrow> ContainerInfo \<Rightarrow> sec_state \<Rightarrow> 's \<times> sec_state) \<Rightarrow> ('k \<times> 'v) list \<Rightarrow> sec_state
    \<Rightarrow> 's list \<times> 'k list \<times> sec_state" where
  "collect_loop env cg mk [] st = ([], [], st)"
| "collect_loop env cg mk ((k, v) # es) st =
     (let (info, st1) = resolver_step env (cg k) st
      in case info of
           None \<Rightarrow> (let (ss, ds, st2) = collect_loop env cg mk es st1 in (ss, k # ds, st2))
         | Some i \<Rightarrow> (let (s, st2) = mk k v i st1; (ss, ds, st3) = collect_loop env cg mk es st2 in (s # ss, ds, st3)))"

record fs_env =
  fs_cgroup :: "string \<Rightarrow> string \<Rightarrow> string option"
  fs_proc :: "string \<Rightarrow> string \<Rightarrow> string option"

section \<open>CPU\<close>

definition min64 :: "f64 \<Rightarrow> f64 \<Rightarrow> f64" where
  "min64 a b = (if a < b then a else b)"

definition numa_line :: "string \<Rightarrow> 64 word \<times> 64 word \<Rightarrow> 64 word \<times> 64 word" where
  "numa_line line acc =
     (case acc of (nrPeriods, nrMigrations) \<Rightarrow>
        (case Fields line of
           f0 # f1 # _ \<Rightarrow>
             (case ParseUint 64 f1 of
                None \<Rightarrow> acc
              | Some val \<Rightarrow>
                  if f0 = ''nr_periods'' then (word_of_int val, nrMigrations)
                  else if f0 \<in> {''nr_migrations_cold'', ''nr_failed_migrations_hot'', ''nr_failed_migrations_running'',
                                ''nr_failed_migrations_numa'', ''nr_migrations''}
                       then (nrPeriods, nrMigrations + word_of_int val)
                       else acc)
         | _ \<Rightarrow> acc))"

definition readNUMAStats :: "fs_env \<Rightarrow> string \<Rightarrow> f64 \<times> f64" where
  "readNUMAStats fs cgPath =
     (case fs_cgroup fs cgPath ''cpu.stat'' of
        None \<Rightarrow> (100, 0)
      | Some data \<Rightarrow>
         let (nrPeriods, nrMigrations) = fold numa_line (text_lines data) (0, 0);
             remotePct = (if nrPeriods = 0
                          then (if nrMigrations > 0 then min64 (f64_div (u2f nrMigrations) 10) 100 else 0)
                          else min64 (f64_mul (f64_div (u2f nrMigrations) (u2f nrPeriods)) 100) 100)
         in (f64_sub 100 remotePct, remotePct))"

record CpuSample =
  cm_CgroupID :: "64 word"
  cm_ContainerName :: string
  cm_TotalNs :: "64 word"
  cm_RunqLatencyNs :: "64 word"
  cm_CtxSwitches :: "64 word"
  cm_ThreadCount :: "32 word"
  cm_CPUSeconds :: f64
  cm_RunqLatencySeconds :: f64
  cm_CtxSwitchesPerSec :: f64
  cm_NUMALocalPct :: f64
  cm_NUMARemotePct :: f64
  cm_CollectedAt :: instant

record CpuCollector =
  cl_prev :: "64 word \<rightharpoonup> CpuStats"
  cl_prevAt :: instant

definition NewCpuCollector :: CpuCollector where
  "NewCpuCollector = \<lparr>cl_prev = Map.empty, cl_prevAt = zeroTime\<rparr>"

definition cpu_sample ::
  "sec_env \<Rightarrow> fs_env \<Rightarrow> CpuCollector \<Rightarrow> instant \<Rightarrow> 64 word \<Rightarrow> CpuStats \<Rightarrow> ContainerInfo \<Rightarrow> sec_state \<Rightarrow> CpuSample \<times> sec_state" where
  "cpu_sample env fs c now cgroupID val info st =
     (let elapsed = elapsed_secs now (cl_prevAt c);
          threadCount = (if cpu_ThreadCount val > 1000000 then 0 else cpu_ThreadCount val);
          (secs, runq, ctx) =
            (case cl_prev c cgroupID of
               None \<Rightarrow> (0, 0, 0)
             | Some prev \<Rightarrow>
                (f64_div (u2f (saturatingSub (cpu_TotalNs val) (cpu_TotalNs prev))) 1000000000,
                 f64_div (u2f (saturatingSub (cpu_RunqLatencyNs val) (cpu_RunqLatencyNs prev))) 1000000000,
                 f64_div (u2f (saturatingSub (cpu_CtxSwitches val) (cpu_CtxSwitches prev))) elapsed));
          (again, st1) = resolver_step env cgroupID st;
          (loc, rem) = (case again of
             Some i \<Rightarrow> if ci_CgroupPath i \<noteq> [] then readNUMAStats fs (ci_CgroupPath i) else (0, 0)
           | None \<Rightarrow> (0, 0))
      in (\<lparr>cm_CgroupID = cgroupID, cm_ContainerName = ci_Name info, cm_TotalNs = cpu_TotalNs val,
           cm_RunqLatencyNs = cpu_RunqLatencyNs val, cm_CtxSwitches = cpu_CtxSwitches val, cm_ThreadCount = threadCount,
           cm_CPUSeconds = secs, cm_RunqLatencySeconds = runq, cm_CtxSwitchesPerSec = ctx, cm_NUMALocalPct = loc,
           cm_NUMARemotePct = rem, cm_CollectedAt = now\<rparr>, st1))"

definition cpu_prev :: "CpuSample list \<Rightarrow> 64 word \<rightharpoonup> CpuStats" where
  "cpu_prev samples = fold (\<lambda>s m. m(cm_CgroupID s \<mapsto>
     \<lparr>cpu_TotalNs = cm_TotalNs s, cpu_RunqLatencyNs = cm_RunqLatencyNs s, cpu_CtxSwitches = cm_CtxSwitches s,
      cpu_ThreadCount = cm_ThreadCount s\<rparr>)) samples Map.empty"

definition Cpu_Collect ::
  "sec_env \<Rightarrow> fs_env \<Rightarrow> instant \<Rightarrow> (64 word \<times> CpuStats) list \<Rightarrow> string option \<Rightarrow> CpuCollector \<Rightarrow> sec_state
    \<Rightarrow> (string + CpuSample list) \<times> 64 word list \<times> CpuCollector \<times> sec_state" where
  "Cpu_Collect env fs now entries iterErr c st =
     (let (samples, toDelete, st1) = collect_loop env id (cpu_sample env fs c now) entries st
      in case iterErr of
           Some err \<Rightarrow> (Inl (''iterating cpu_stats_map: '' @ err), [], c, st1)
         | None \<Rightarrow> (Inr samples, toDelete, \<lparr>cl_prev = cpu_prev samples, cl_prevAt = now\<rparr>, st1))"

section \<open>Disk\<close>

record IoSample =
  is_CgroupID :: "64 word"
  is_ContainerName :: string
  is_ReadBytes :: "64 word"
  is_WriteBytes :: "64 word"
  is_ReadIOs :: "64 word"
  is_WriteIOs :: "64 word"
  is_ReadBytesPerSec :: f64
  is_WriteBytesPerSec :: f64
  is_ReadIOsPerSec :: f64
  is_WriteIOsPerSec :: f64
  is_AvgReadLatencyMs :: f64
  is_AvgWriteLatencyMs :: f64
  is_CollectedAt :: instant

record IoCollector =
  ic_prev :: "64 word \<rightharpoonup> IoStats"
  ic_prevAt :: instant

definition NewIoCollector :: IoCollector where
  "NewIoCollector = \<lparr>ic_prev = Map.empty, ic_prevAt = zeroTime\<rparr>"

definition avg_latency :: "64 word \<Rightarrow> 64 word \<Rightarrow> f64" where
  "avg_latency dLat dIOs = (if dIOs > 0 then to_ms (f64_div (u2f dLat) (u2f dIOs)) else 0)"

definition io_sample ::
  "IoCollector \<Rightarrow> instant \<Rightarrow> 64 word \<Rightarrow> IoStats \<Rightarrow> ContainerInfo \<Rightarrow> sec_state \<Rightarrow> IoSample \<times> sec_state" where
  "io_sample c now cgroupID val info st =
     (let elapsed = elapsed_secs now (ic_prevAt c);
          base = \<lparr>is_CgroupID = cgroupID, is_ContainerName = ci_Name info, is_ReadBytes = io_ReadBytes val,
            is_WriteBytes = io_WriteBytes val, is_ReadIOs = io_ReadIOs val, is_WriteIOs = io_WriteIOs val,
            is_ReadBytesPerSec = 0, is_WriteBytesPerSec = 0, is_ReadIOsPerSec = 0, is_WriteIOsPerSec = 0,
            is_AvgReadLatencyMs = 0, is_AvgWriteLatencyMs = 0, is_CollectedAt = now\<rparr>
      in case ic_prev c cgroupID of
           None \<Rightarrow> (base, st)
         | Some prev \<Rightarrow>
            let deltaRI = saturatingSubU64 (io_ReadIOs val) (io_ReadIOs prev);
                deltaWI = saturatingSubU64 (io_WriteIOs val) (io_WriteIOs prev)
            in (base\<lparr>is_ReadBytesPerSec := f64_div (u2f (saturatingSubU64 (io_ReadBytes val) (io_ReadBytes prev))) elapsed,
                     is_WriteBytesPerSec := f64_div (u2f (saturatingSubU64 (io_WriteBytes val) (io_WriteBytes prev))) elapsed,
                     is_ReadIOsPerSec := f64_div (u2f deltaRI) elapsed, is_WriteIOsPerSec := f64_div (u2f deltaWI) elapsed,
                     is_AvgReadLatencyMs := avg_latency (saturatingSubU64 (io_ReadLatencyNs val) (io_ReadLatencyNs prev)) deltaRI,
                     is_AvgWriteLatencyMs := avg_latency (saturatingSubU64 (io_WriteLatencyNs val) (io_WriteLatencyNs prev)) deltaWI\<rparr>, st))"

text \<open>The latencies of every new reference are those of \<open>val\<close>, the entry the iteration ended with.\<close>

definition io_prev :: "IoStats \<Rightarrow> IoSample list \<Rightarrow> 64 word \<rightharpoonup> IoStats" where
  "io_prev val samples = fold (\<lambda>s m. m(is_CgroupID s \<mapsto>
     \<lparr>io_ReadBytes = is_ReadBytes s, io_WriteBytes = is_WriteBytes s, io_ReadIOs = is_ReadIOs s, io_WriteIOs = is_WriteIOs s,
      io_ReadLatencyNs = io_ReadLatencyNs val, io_WriteLatencyNs = io_WriteLatencyNs val\<rparr>)) samples Map.empty"

definition zero_IoStats :: IoStats where
  "zero_IoStats = \<lparr>io_ReadBytes = 0, io_WriteBytes = 0, io_ReadIOs = 0, io_WriteIOs = 0, io_ReadLatencyNs = 0, io_WriteLatencyNs = 0\<rparr>"

definition Io_Collect ::
  "sec_env \<Rightarrow> instant \<Rightarrow> (64 word \<times> IoStats) list \<Rightarrow> string option \<Rightarrow> IoCollector \<Rightarrow> sec_state
    \<Rightarrow> (string + IoSample list) \<times> 64 word list \<times> IoCollector \<times> sec_state" where
  "Io_Collect env now entries iterErr c st =
     (let (samples, toDelete, st1) = collect_loop env id (io_sample c now) entries st;
          val = (if entries = [] then zero_IoStats else snd (last entries))
      in case iterErr of
           Some err \<Rightarrow> (Inl (''iterating io_stats_map: '' @ err), [], c, st1)
         | None \<Rightarrow> (Inr samples, toDelete, \<lparr>ic_prev = io_prev val samples, ic_prevAt = now\<rparr>, st1))"

record CollectedFile =
  cf_Timestamp :: instant
  cf_CgroupID :: "64 word"
  cf_ContainerName :: string
  cf_PID :: "32 word"
  cf_Flags :: "32 word"
  cf_Comm :: string
  cf_Filename :: string

definition parseFileEvent :: "8 word list \<Rightarrow> FileEvent" where
  "parseFileEvent d = \<lparr>fe_CgroupID = u64_at 0 d, fe_PID = u32_at 8 d, fe_Flags = u32_at 12 d,
     fe_Comm = take 16 (drop 16 d), fe_Filename = take 128 (drop 32 d)\<rparr>"

text \<open>The time stamps of the events read are further readings of the clock, numbered from zero.\<close>

fun read_each :: "nat \<Rightarrow> (nat \<Rightarrow> 'r \<Rightarrow> string \<Rightarrow> 'e) \<Rightarrow> ('r \<Rightarrow> 64 word) \<Rightarrow> sec_env \<Rightarrow> 'r list \<Rightarrow> sec_state \<Rightarrow> 'e list \<times> sec_state" where
  "read_each n f cg env [] st = ([], st)"
| "read_each n f cg env (x # xs) st =
     (let (name, st1) = container_name env (cg x) st; (es, st2) = read_each (Suc n) f cg env xs st1 in (f n x name # es, st2))"

definition ReadFileEvents :: "sec_env \<Rightarrow> (nat \<Rightarrow> instant) \<Rightarrow> ring_read list \<Rightarrow> sec_state \<Rightarrow> CollectedFile list \<times> sec_state" where
  "ReadFileEvents env clk reads =
     read_each 0 (\<lambda>n raw name. \<lparr>cf_Timestamp = clk n, cf_CgroupID = fe_CgroupID raw, cf_ContainerName = name, cf_PID = fe_PID raw,
        cf_Flags = fe_Flags raw, cf_Comm = nullTermStr (fe_Comm raw), cf_Filename = nullTermStr (fe_Filename raw)\<rparr>)
       fe_CgroupID env (map parseFileEvent (ring_records 160 reads))"

section \<open>Every entry is sampled or deleted\<close>

text \<open>
  \<open>key_of\<close> tells the key a sample was made for, when the sampler records it: the samples and
  the deleted keys, each in the order of the iteration, make up the entries.
\<close>

definition tracks :: "('k \<Rightarrow> 'v \<Rightarrow> ContainerInfo \<Rightarrow> sec_state \<Rightarrow> 's \<times> sec_state) \<Rightarrow> ('k \<Rightarrow> 'v \<Rightarrow> 's \<Rightarrow> bool) \<Rightarrow> bool" where
  "tracks mk P \<longleftrightarrow> (\<forall>k v i st. P k v (fst (mk k v i st)))"

text \<open>The order of the entries, as a relation between a list and two lists it is split into.\<close>

fun parted :: "('k \<Rightarrow> 'v \<Rightarrow> 's \<Rightarrow> bool) \<Rightarrow> ('k \<times> 'v) list \<Rightarrow> 's list \<Rightarrow> 'k list \<Rightarrow> bool" where
  "parted P [] ss ds \<longleftrightarrow> ss = [] \<and> ds = []"
| "parted P ((k, v) # es) ss ds \<longleftrightarrow>
     (\<exists>s ss'. ss = s # ss' \<and> P k v s \<and> parted P es ss' ds) \<or> (\<exists>ds'. ds = k # ds' \<and> parted P es ss ds')"

lemma collect_loop_parted:
  assumes "tracks mk P"
  shows "parted P es (fst (collect_loop env cg mk es st)) (fst (snd (collect_loop env cg mk es st)))"
proof (induction es arbitrary: st)
  case (Cons e es)
  obtain k v where e: "e = (k, v)" by fastforce
  obtain info st1 where r: "resolver_step env (cg k) st = (info, st1)" by (metis surj_pair)
  show ?case
  proof (cases info)
    case None
    then show ?thesis using Cons [of st1] by (simp add: e r case_prod_beta Let_def)
  next
    case (Some i)
    have "P k v (fst (mk k v i st1))" using assms by (simp only: tracks_def)
    then show ?thesis using Cons [of "snd (mk k v i st1)"] Some by (simp add: e r case_prod_beta Let_def)
  qed
qed simp

lemma parted_length: "parted P es ss ds \<Longrightarrow> length es = length ss + length ds"
  by (induction P es ss ds rule: parted.induct) auto

lemma parted_sample: "parted P es ss ds \<Longrightarrow> s \<in> set ss \<Longrightarrow> \<exists>(k, v) \<in> set es. P k v s"
proof (induction es arbitrary: ss ds)
  case (Cons e es)
  obtain k v where e: "e = (k, v)" by fastforce
  from Cons.prems(1) consider s' ss' where "ss = s' # ss'" "P k v s'" "parted P es ss' ds" | ds' where "parted P es ss ds'"
    by (auto simp: e)
  then show ?case
  proof cases
    case 1
    then show ?thesis using Cons.IH [OF 1(3)] Cons.prems(2) e by auto
  next
    case 2
    then show ?thesis using Cons.IH [OF 2 Cons.prems(2)] by auto
  qed
qed simp

section \<open>References of the rates\<close>

text \<open>A map filled from a list of samples with distinct keys holds each sample's own entry.\<close>

lemma fold_key_other: "k \<notin> key ` set ss \<Longrightarrow> fold (\<lambda>s m. m(key s \<mapsto> f s)) ss m k = m k"
  by (induction ss arbitrary: m) auto

lemma fold_key_value: "fold (\<lambda>s m. m(key s \<mapsto> f s)) ss m k = Some v \<Longrightarrow> (\<exists>s. v = f s) \<or> m k = Some v"
proof (induction ss arbitrary: m)
  case (Cons a ss)
  from Cons.IH [of "m(key a \<mapsto> f a)"] Cons.prems have "(\<exists>s. v = f s) \<or> (m(key a \<mapsto> f a)) k = Some v" by simp
  then show ?case by (auto simp: fun_upd_apply split: if_splits)
qed simp

lemma fold_key_own:
  assumes "distinct (map key ss)" "s \<in> set ss"
  shows "fold (\<lambda>s m. m(key s \<mapsto> f s)) ss m0 (key s) = Some (f s)"
  using assms
proof (induction ss arbitrary: m0)
  case (Cons a ss)
  show ?case
  proof (cases "s = a")
    case True
    have "key a \<notin> key ` set ss" using Cons.prems(1) by simp
    then show ?thesis using fold_key_other [of "key a" key ss f "m0(key a \<mapsto> f a)"] True by (simp del: fun_upd_apply add: fun_upd_same)
  next
    case False
    then show ?thesis using Cons.IH [of "m0(key a \<mapsto> f a)"] Cons.prems by simp
  qed
qed simp

definition cpu_tracks :: "64 word \<Rightarrow> CpuStats \<Rightarrow> CpuSample \<Rightarrow> bool" where
  "cpu_tracks k v s \<longleftrightarrow> cm_CgroupID s = k \<and> cm_TotalNs s = cpu_TotalNs v \<and> cm_RunqLatencyNs s = cpu_RunqLatencyNs v
     \<and> cm_CtxSwitches s = cpu_CtxSwitches v"

lemma cpu_sample_tracks: "tracks (cpu_sample env fs c now) cpu_tracks"
  by (simp add: tracks_def cpu_tracks_def cpu_sample_def Let_def case_prod_beta)

text \<open>The sampled keys are keys of the entries, so they are distinct when those are.\<close>

lemma parted_distinct:
  assumes "parted P es ss ds" "\<And>k v s. P k v s \<Longrightarrow> key s = k" "distinct (map fst es)"
  shows "distinct (map key ss) \<and> key ` set ss \<subseteq> fst ` set es"
  using assms(1,3)
proof (induction es arbitrary: ss ds)
  case (Cons e es)
  obtain k v where e: "e = (k, v)" by fastforce
  from Cons.prems(1) consider s ss' where "ss = s # ss'" "P k v s" "parted P es ss' ds" | ds' where "parted P es ss ds'"
    by (auto simp: e)
  then show ?case
  proof cases
    case 1
    then show ?thesis using Cons.IH [OF 1(3)] Cons.prems(2) assms(2) [OF 1(2)] e by auto
  next
    case 2
    then show ?thesis using Cons.IH [OF 2] Cons.prems(2) by auto
  qed
qed simp

lemma Cpu_Collect_reference:
  assumes "Cpu_Collect env fs now es None c st = (Inr ss, ds, c', st')" "distinct (map fst es)" "s \<in> set ss"
  shows "\<exists>v. (cm_CgroupID s, v) \<in> set es \<and> cpu_tracks (cm_CgroupID s) v s \<and>
     (\<exists>p. cl_prev c' (cm_CgroupID s) = Some p \<and> cpu_TotalNs p = cpu_TotalNs v \<and> cpu_RunqLatencyNs p = cpu_RunqLatencyNs v
        \<and> cpu_CtxSwitches p = cpu_CtxSwitches v) \<and> cl_prevAt c' = now"
proof -
  obtain ss0 ds0 st0 where l: "collect_loop env id (cpu_sample env fs c now) es st = (ss0, ds0, st0)" by (metis surj_pair)
  then have r: "ss0 = ss" "c' = \<lparr>cl_prev = cpu_prev ss, cl_prevAt = now\<rparr>" using assms(1) by (auto simp: Cpu_Collect_def)
  have p: "parted cpu_tracks es ss ds0" using collect_loop_parted [OF cpu_sample_tracks, of es env id env fs c now st] l r by simp
  have key: "cpu_tracks k v s \<Longrightarrow> cm_CgroupID s = k" for k v s by (simp add: cpu_tracks_def)
  have d: "distinct (map cm_CgroupID ss)" using parted_distinct [OF p key assms(2)] by simp
  obtain k v where v: "(k, v) \<in> set es" "cpu_tracks k v s" using parted_sample [OF p assms(3)] by auto
  have "cl_prev c' (cm_CgroupID s) = Some \<lparr>cpu_TotalNs = cm_TotalNs s, cpu_RunqLatencyNs = cm_RunqLatencyNs s,
      cpu_CtxSwitches = cm_CtxSwitches s, cpu_ThreadCount = cm_ThreadCount s\<rparr>"
    unfolding r(2) cpu_prev_def using fold_key_own [OF d assms(3), of _ Map.empty] by simp
  then show ?thesis using v r(2) by (auto simp: cpu_tracks_def)
qed

text \<open>The disk collector keeps the latencies of the last entry for every cgroup.\<close>

lemma io_prev_latency:
  "io_prev val ss k = Some p \<Longrightarrow> io_ReadLatencyNs p = io_ReadLatencyNs val \<and> io_WriteLatencyNs p = io_WriteLatencyNs val"
  unfolding io_prev_def by (drule fold_key_value) auto

section \<open>NUMA shares\<close>

lemma readNUMAStats_range:
  "0 \<le> snd (readNUMAStats fs cg) \<and> snd (readNUMAStats fs cg) \<le> 100 \<and> 0 \<le> fst (readNUMAStats fs cg) \<and> fst (readNUMAStats fs cg) \<le> 100"
proof -
  have c: "fl64 100 = 100" using fl64_of_int [of 100] by simp
  have u: "0 \<le> u2f w" for w :: "64 word" unfolding u2f_def by (intro fl64_nonneg) (simp only: of_int_0_le_iff uint_ge_0)
  have sub: "0 \<le> r \<Longrightarrow> r \<le> 100 \<Longrightarrow> 0 \<le> f64_sub 100 r \<and> f64_sub 100 r \<le> 100" for r
    using f64.rnd_ge0 [of "100 - r"] f64.rnd_sub_le [of r 100] c by simp
  have r: "0 \<le> min64 a 100 \<and> min64 a 100 \<le> 100" if "0 \<le> a" for a using that by (simp add: min64_def)
  show ?thesis
    using sub r u by (auto simp: readNUMAStats_def Let_def case_prod_beta fl64_nonneg split: option.splits)
qed

end
