(* ===== verification/MemoryCollector.thy ===== *)
theory MemoryCollector
  imports MetricCollectors
begin

text \<open>
  The memory collector of \<open>pkg/collector/memory.go\<close>: page-fault rates, the files of the
  cgroup and of its processes, memory pressure, and the out-of-memory reports its background
  reader queues. The reader and the polls take turns on the queue under a lock.
\<close>

section \<open>Files\<close>

definition readCgroupUint64 :: "fs_env \<Rightarrow> string \<Rightarrow> string \<Rightarrow> 64 word" where
  "readCgroupUint64 fs cgPath filename =
     (case fs_cgroup fs cgPath filename of
        None \<Rightarrow> 0
      | Some data \<Rightarrow>
          let s = TrimSpace data
          in if s = ''max'' then 0 else case ParseUint 64 s of Some v \<Rightarrow> word_of_int v | None \<Rightarrow> 0)"

text \<open>The first field \<open>avg10=\<close> after the kind decides; a value that does not parse ends the line.\<close>

fun psi_fields :: "string \<Rightarrow> string list \<Rightarrow> f64 \<times> f64 \<Rightarrow> f64 \<times> f64" where
  "psi_fields kind [] acc = acc"
| "psi_fields kind (f # fs) acc =
     (if HasPrefix f ''avg10='' then
        (case ParseDecimal (TrimPrefix f ''avg10='') of
           None \<Rightarrow> acc
         | Some val \<Rightarrow> (case acc of (sm, full) \<Rightarrow>
             if kind = ''some'' then (val, full) else if kind = ''full'' then (sm, val) else (sm, full)))
      else psi_fields kind fs acc)"

definition psi_line :: "string \<Rightarrow> f64 \<times> f64 \<Rightarrow> f64 \<times> f64" where
  "psi_line line acc = (case Fields line of kind # f # fs \<Rightarrow> psi_fields kind (f # fs) acc | _ \<Rightarrow> acc)"

definition readMemoryPSI :: "fs_env \<Rightarrow> string \<Rightarrow> f64 \<times> f64" where
  "readMemoryPSI fs cgPath =
     (case fs_cgroup fs cgPath ''memory.pressure'' of None \<Rightarrow> (0, 0) | Some data \<Rightarrow> fold psi_line (text_lines data) (0, 0))"

definition scanCgroupProcs :: "fs_env \<Rightarrow> string \<Rightarrow> int list" where
  "scanCgroupProcs fs cgPath =
     (case fs_cgroup fs cgPath ''cgroup.procs'' of
        None \<Rightarrow> []
      | Some data \<Rightarrow> List.map_filter (\<lambda>l. let line = TrimSpace l in if line = [] then None else ParseUint 32 line)
          (text_lines (TrimSpace data)))"

fun status_field :: "string \<Rightarrow> string list \<Rightarrow> int option" where
  "status_field fld [] = None"
| "status_field fld (line # ls) =
     (if HasPrefix line fld
      then (case Fields line of
              _ # v # _ \<Rightarrow> (case ParseUint 64 v of Some n \<Rightarrow> Some n | None \<Rightarrow> status_field fld ls)
            | _ \<Rightarrow> status_field fld ls)
      else status_field fld ls)"

definition readProcStatusField :: "fs_env \<Rightarrow> string \<Rightarrow> string \<Rightarrow> int option" where
  "readProcStatusField fs pid fld =
     (case fs_proc fs pid ''status'' of None \<Rightarrow> None | Some data \<Rightarrow> status_field fld (text_lines data))"

definition smaps_line :: "string \<Rightarrow> 64 word \<times> 64 word \<Rightarrow> 64 word \<times> 64 word" where
  "smaps_line line acc =
     (case acc of (pss, shared) \<Rightarrow>
        (case Fields line of
           f0 # f1 # f2 # _ \<Rightarrow>
             (case ParseUint 64 f1 of
                None \<Rightarrow> acc
              | Some val \<Rightarrow>
                  if f0 = ''Pss:'' then (pss + word_of_int val * 1024, shared)
                  else if f0 = ''Shared_Clean:'' \<or> f0 = ''Shared_Dirty:'' then (pss, shared + word_of_int val * 1024)
                  else acc)
         | _ \<Rightarrow> acc))"

definition readSmapsRollup :: "fs_env \<Rightarrow> string \<Rightarrow> 64 word \<times> 64 word" where
  "readSmapsRollup fs pid =
     (case fs_proc fs pid ''smaps_rollup'' of None \<Rightarrow> (0, 0) | Some data \<Rightarrow> fold smaps_line (text_lines data) (0, 0))"

definition add_proc :: "fs_env \<Rightarrow> int \<Rightarrow> 64 word \<times> 64 word \<times> 64 word \<Rightarrow> 64 word \<times> 64 word \<times> 64 word" where
  "add_proc fs pid acc =
     (case acc of (virt, pss, shared) \<Rightarrow>
        let pidStr = show_int pid;
            virt1 = (case readProcStatusField fs pidStr ''VmSize:'' of Some v \<Rightarrow> virt + word_of_int v * 1024 | None \<Rightarrow> virt);
            (p, s) = readSmapsRollup fs pidStr
        in (virt1, pss + p, shared + s))"

definition readProcMemStats :: "fs_env \<Rightarrow> string \<Rightarrow> 64 word \<times> 64 word \<times> 64 word" where
  "readProcMemStats fs cgPath = fold (add_proc fs) (scanCgroupProcs fs cgPath) (0, 0, 0)"

section \<open>Samples\<close>

record MemSample =
  ms_CgroupID :: "64 word"
  ms_ContainerName :: string
  ms_MinorFaults :: "64 word"
  ms_MajorFaults :: "64 word"
  ms_MinorPerSec :: f64
  ms_MajorPerSec :: f64
  ms_FaultsPerSec :: f64
  ms_MemoryBytes :: "64 word"
  ms_MemoryLimitBytes :: "64 word"
  ms_VirtBytes :: "64 word"
  ms_PSSBytes :: "64 word"
  ms_SharedBytes :: "64 word"
  ms_PSISome :: f64
  ms_PSIFull :: f64
  ms_TLBMissRate :: f64
  ms_CollectedAt :: instant

record OOMReport =
  om_Timestamp :: instant
  om_CgroupID :: "64 word"
  om_ContainerName :: string
  om_VictimPID :: "32 word"
  om_OOMScoreAdj :: int
  om_Pages :: "64 word"
  om_Comm :: string
  om_MemoryBytes :: "64 word"
  om_MemoryLimitBytes :: "64 word"
  om_SwapBytes :: "64 word"

record MemoryCollector =
  mc_RichMem :: bool
  mc_prev :: "64 word \<rightharpoonup> PfStats"
  mc_prevAt :: instant
  mc_oomEvents :: "OOMReport list"

definition NewMemoryCollector :: MemoryCollector where
  "NewMemoryCollector = \<lparr>mc_RichMem = False, mc_prev = Map.empty, mc_prevAt = zeroTime, mc_oomEvents = []\<rparr>"

definition mem_rates :: "MemoryCollector \<Rightarrow> f64 \<Rightarrow> 64 word \<Rightarrow> PfStats \<Rightarrow> MemSample \<Rightarrow> MemSample" where
  "mem_rates m elapsed cgroupID val s =
     (case mc_prev m cgroupID of
        None \<Rightarrow> s
      | Some prev \<Rightarrow>
          let minor = f64_div (u2f (saturatingSubU64 (pf_MinorFaults val) (pf_MinorFaults prev))) elapsed;
              major = f64_div (u2f (saturatingSubU64 (pf_MajorFaults val) (pf_MajorFaults prev))) elapsed
          in s\<lparr>ms_MinorPerSec := minor, ms_MajorPerSec := major, ms_FaultsPerSec := f64_add minor major, ms_TLBMissRate := minor\<rparr>)"

definition mem_enrich :: "fs_env \<Rightarrow> MemoryCollector \<Rightarrow> string \<Rightarrow> MemSample \<Rightarrow> MemSample" where
  "mem_enrich fs m cgPath s =
     (if cgPath = [] then s
      else let (sm, full) = readMemoryPSI fs cgPath;
               s1 = s\<lparr>ms_MemoryBytes := readCgroupUint64 fs cgPath ''memory.current'',
                      ms_MemoryLimitBytes := readCgroupUint64 fs cgPath ''memory.max'', ms_PSISome := sm, ms_PSIFull := full\<rparr>
           in if mc_RichMem m
              then let (virt, pss, shared) = readProcMemStats fs cgPath
                   in s1\<lparr>ms_VirtBytes := virt, ms_PSSBytes := pss, ms_SharedBytes := shared\<rparr>
              else s1)"

definition mem_sample ::
  "fs_env \<Rightarrow> MemoryCollector \<Rightarrow> instant \<Rightarrow> 64 word \<Rightarrow> PfStats \<Rightarrow> ContainerInfo \<Rightarrow> sec_state \<Rightarrow> MemSample \<times> sec_state" where
  "mem_sample fs m now cgroupID val info st =
     (mem_enrich fs m (ci_CgroupPath info) (mem_rates m (elapsed_secs now (mc_prevAt m)) cgroupID val
        \<lparr>ms_CgroupID = cgroupID, ms_ContainerName = ci_Name info, ms_MinorFaults = pf_MinorFaults val,
         ms_MajorFaults = pf_MajorFaults val, ms_MinorPerSec = 0, ms_MajorPerSec = 0, ms_FaultsPerSec = 0, ms_MemoryBytes = 0,
         ms_MemoryLimitBytes = 0, ms_VirtBytes = 0, ms_PSSBytes = 0, ms_SharedBytes = 0, ms_PSISome = 0, ms_PSIFull = 0,
         ms_TLBMissRate = 0, ms_CollectedAt = now\<rparr>), st)"

definition mem_prev :: "MemSample list \<Rightarrow> 64 word \<rightharpoonup> PfStats" where
  "mem_prev samples = fold (\<lambda>s p. p(ms_CgroupID s \<mapsto> \<lparr>pf_MinorFaults = ms_MinorFaults s, pf_MajorFaults = ms_MajorFaults s\<rparr>))
     samples Map.empty"

definition Mem_Collect ::
  "sec_env \<Rightarrow> fs_env \<Rightarrow> instant \<Rightarrow> (64 word \<times> PfStats) list \<Rightarrow> string option \<Rightarrow> MemoryCollector \<Rightarrow> sec_state
    \<Rightarrow> (string + MemSample list) \<times> 64 word list \<times> MemoryCollector \<times> sec_state" where
  "Mem_Collect env fs now entries iterErr m st =
     (let (samples, toDelete, st1) = collect_loop env id (mem_sample fs m now) entries st
      in case iterErr of
           Some err \<Rightarrow> (Inl (''iterating page_fault_map: '' @ err), [], m, st1)
         | None \<Rightarrow> (Inr samples, toDelete, m\<lparr>mc_prev := mem_prev samples, mc_prevAt := now\<rparr>, st1))"

section \<open>Out-of-memory reports\<close>

definition parseOOMEvent :: "8 word list \<Rightarrow> OomEvent" where
  "parseOOMEvent d = \<lparr>oe_CgroupID = u64_at 0 d, oe_VictimPID = u32_at 8 d, oe_OomScoreAdj = u32_at 12 d, oe_Pages = u64_at 16 d,
     oe_Comm = take 16 (drop 24 d)\<rparr>"

definition commString :: "8 word list \<Rightarrow> string" where
  "commString b = bytes_str (takeWhile (\<lambda>c. c \<noteq> 0) b)"

definition oom_report :: "sec_env \<Rightarrow> fs_env \<Rightarrow> instant \<Rightarrow> OomEvent \<Rightarrow> sec_state \<Rightarrow> OOMReport \<times> sec_state" where
  "oom_report env fs now raw st =
     (let (info, st1) = resolver_step env (oe_CgroupID raw) st;
          name = (case info of Some i \<Rightarrow> ci_Name i | None \<Rightarrow> ''cgroup:'' @ show_nat (unat (oe_CgroupID raw)));
          cgPath = (case info of Some i \<Rightarrow> ci_CgroupPath i | None \<Rightarrow> []);
          file = (\<lambda>f. if cgPath \<noteq> [] then readCgroupUint64 fs cgPath f else 0)
      in (\<lparr>om_Timestamp = now, om_CgroupID = oe_CgroupID raw, om_ContainerName = name, om_VictimPID = oe_VictimPID raw,
           om_OOMScoreAdj = sint (oe_OomScoreAdj raw), om_Pages = oe_Pages raw, om_Comm = commString (oe_Comm raw),
           om_MemoryBytes = file ''memory.current'', om_MemoryLimitBytes = file ''memory.max'',
           om_SwapBytes = file ''memory.swap.current''\<rparr>, st1))"

text \<open>The reader goes on after an error and ends when the ring buffer is closed.\<close>

fun startOOMReader ::
  "sec_env \<Rightarrow> fs_env \<Rightarrow> (nat \<Rightarrow> instant) \<Rightarrow> nat \<Rightarrow> ring_read list \<Rightarrow> MemoryCollector \<Rightarrow> sec_state \<Rightarrow> MemoryCollector \<times> sec_state" where
  "startOOMReader env fs clk n [] m st = (m, st)"
| "startOOMReader env fs clk n (RingClosed # rs) m st = (m, st)"
| "startOOMReader env fs clk n (RingError # rs) m st = startOOMReader env fs clk n rs m st"
| "startOOMReader env fs clk n (RingRecord bs # rs) m st =
     (if length bs < 40 then startOOMReader env fs clk n rs m st
      else let (ev, st1) = oom_report env fs (clk n) (parseOOMEvent bs) st
           in startOOMReader env fs clk (Suc n) rs (m\<lparr>mc_oomEvents := mc_oomEvents m @ [ev]\<rparr>) st1)"

definition ReadOOMEvents :: "MemoryCollector \<Rightarrow> OOMReport list \<times> MemoryCollector" where
  "ReadOOMEvents m = (mc_oomEvents m, m\<lparr>mc_oomEvents := []\<rparr>)"

section \<open>Reports are handed over once\<close>

lemma startOOMReader_appends:
  "\<exists>evs. mc_oomEvents (fst (startOOMReader env fs clk n rs m st)) = mc_oomEvents m @ evs \<and>
     length evs = length (filter (\<lambda>bs. 40 \<le> length bs)
       (map (\<lambda>r. case r of RingRecord bs \<Rightarrow> bs | _ \<Rightarrow> []) (takeWhile (\<lambda>r. r \<noteq> RingClosed) rs)))"
proof (induction env fs clk n rs m st rule: startOOMReader.induct)
  case (4 env fs clk n bs rs m st)
  show ?case
  proof (cases "length bs < 40")
    case True
    then show ?thesis using 4(1) by simp
  next
    case False
    obtain ev st1 where ev: "oom_report env fs (clk n) (parseOOMEvent bs) st = (ev, st1)" by (metis surj_pair)
    from 4(2) [OF False ev [symmetric] refl] show ?thesis using False by (auto simp: ev)
  qed
qed simp_all

lemma ReadOOMEvents_once: "fst (ReadOOMEvents (snd (ReadOOMEvents m))) = []"
  by (simp add: ReadOOMEvents_def)

end
