(* ===== verification/FlowCollectors.thy ===== *)
theory FlowCollectors
  imports MemoryCollector
begin

text \<open>
  The network and system-call collectors of \<open>pkg/collector\<close>: flows, their summary per
  cgroup, TCP events, call statistics with the five most frequent calls of each container,
  and slow calls. \<open>sort.Slice\<close> is free in the order of equal elements; here it is stable.
\<close>

section \<open>Network\<close>

definition tcpStateNames :: "(32 word \<times> string) list" where
  "tcpStateNames = [(1, ''ESTABLISHED''), (2, ''SYN_SENT''), (3, ''SYN_RECV''), (4, ''FIN_WAIT1''), (5, ''FIN_WAIT2''),
     (6, ''TIME_WAIT''), (7, ''CLOSE''), (8, ''CLOSE_WAIT''), (9, ''LAST_ACK''), (10, ''LISTEN''), (11, ''CLOSING''),
     (12, ''NEW_SYN_RECV'')]"

definition StateName :: "32 word \<Rightarrow> string" where
  "StateName state = (case map_of tcpStateNames state of Some s \<Rightarrow> s | None \<Rightarrow> ''UNKNOWN('' @ show_nat (unat state) @ '')'')"

text \<open>The four bytes of the little-endian word, least significant first, in dotted decimal.\<close>

definition uint32ToIP :: "32 word \<Rightarrow> string" where
  "uint32ToIP n = join_with CHR ''.'' (map (\<lambda>k. show_nat (unat n div 256 ^ k mod 256)) [0, 1, 2, 3])"

record ConnSample =
  cx_CgroupID :: "64 word"
  cx_ContainerName :: string
  cx_Saddr :: string
  cx_Daddr :: string
  cx_Sport :: "16 word"
  cx_Dport :: "16 word"
  cx_State :: string
  cx_Retransmits :: "32 word"
  cx_AgeSeconds :: f64

definition conn_sample :: "instant \<Rightarrow> ConnKey \<Rightarrow> ConnStats \<Rightarrow> ContainerInfo \<Rightarrow> sec_state \<Rightarrow> ConnSample \<times> sec_state" where
  "conn_sample now key val info st =
     (\<lparr>cx_CgroupID = ck_CgroupID key, cx_ContainerName = ci_Name info, cx_Saddr = uint32ToIP (ck_Saddr key),
       cx_Daddr = uint32ToIP (ck_Daddr key), cx_Sport = ck_Sport key, cx_Dport = ck_Dport key, cx_State = StateName (cs_State val),
       cx_Retransmits = cs_Retransmits val,
       cx_AgeSeconds = (if cs_FirstSeenNs val > 0
         then f64_div (i2f (word_of_int now - cs_FirstSeenNs val :: 64 word)) 1000000000 else 0)\<rparr>, st)"

definition CollectFlows ::
  "sec_env \<Rightarrow> instant \<Rightarrow> (ConnKey \<times> ConnStats) list \<Rightarrow> string option \<Rightarrow> sec_state \<Rightarrow> (string + ConnSample list) \<times> ConnKey list \<times> sec_state" where
  "CollectFlows env now entries iterErr st =
     (let (flows, toDelete, st1) = collect_loop env ck_CgroupID (conn_sample now) entries st
      in case iterErr of Some err \<Rightarrow> (Inl (''iterating conn_stats_map: '' @ err), [], st1) | None \<Rightarrow> (Inr flows, toDelete, st1))"

record NetSummary =
  nm_CgroupID :: "64 word"
  nm_ContainerName :: string
  nm_Established :: nat
  nm_TimeWait :: nat
  nm_CloseWait :: nat
  nm_Listen :: nat
  nm_OtherStates :: nat
  nm_ActiveFlows :: nat
  nm_TotalRetransmits :: "32 word"

definition count_state :: "string \<Rightarrow> NetSummary \<Rightarrow> NetSummary" where
  "count_state state s =
     (if state = ''ESTABLISHED'' then s\<lparr>nm_Established := nm_Established s + 1\<rparr>
      else if state = ''TIME_WAIT'' then s\<lparr>nm_TimeWait := nm_TimeWait s + 1\<rparr>
      else if state = ''CLOSE_WAIT'' then s\<lparr>nm_CloseWait := nm_CloseWait s + 1\<rparr>
      else if state = ''LISTEN'' then s\<lparr>nm_Listen := nm_Listen s + 1\<rparr>
      else s\<lparr>nm_OtherStates := nm_OtherStates s + 1\<rparr>)"

text \<open>Counting a flow replaces the summary of its cgroup, or adds one.\<close>

definition flow_summary :: "ConnSample \<Rightarrow> (64 word \<times> NetSummary) list \<Rightarrow> NetSummary" where
  "flow_summary f ss = (case map_of ss (cx_CgroupID f) of Some s \<Rightarrow> s
     | None \<Rightarrow> \<lparr>nm_CgroupID = cx_CgroupID f, nm_ContainerName = cx_ContainerName f, nm_Established = 0, nm_TimeWait = 0,
         nm_CloseWait = 0, nm_Listen = 0, nm_OtherStates = 0, nm_ActiveFlows = 0, nm_TotalRetransmits = 0\<rparr>)"

definition add_flow :: "ConnSample \<Rightarrow> (64 word \<times> NetSummary) list \<Rightarrow> (64 word \<times> NetSummary) list" where
  "add_flow f ss = (let s = flow_summary f ss
      in AList.update (cx_CgroupID f)
           (count_state (cx_State f) (s\<lparr>nm_ActiveFlows := nm_ActiveFlows s + 1,
              nm_TotalRetransmits := nm_TotalRetransmits s + cx_Retransmits f\<rparr>)) ss)"

definition CollectSummary ::
  "sec_env \<Rightarrow> instant \<Rightarrow> (ConnKey \<times> ConnStats) list \<Rightarrow> string option \<Rightarrow> sec_state \<Rightarrow> (string + NetSummary list) \<times> ConnKey list \<times> sec_state" where
  "CollectSummary env now entries iterErr st =
     (case CollectFlows env now entries iterErr st of
        (Inl err, ds, st1) \<Rightarrow> (Inl err, ds, st1)
      | (Inr flows, ds, st1) \<Rightarrow> (Inr (map snd (fold add_flow flows [])), ds, st1))"

record CollectedTCP =
  ct_Timestamp :: instant
  ct_CgroupID :: "64 word"
  ct_ContainerName :: string
  ct_Saddr :: string
  ct_Daddr :: string
  ct_Sport :: "16 word"
  ct_Dport :: "16 word"
  ct_Family :: "16 word"
  ct_OldState :: string
  ct_NewState :: string

definition parseTCPEvent :: "8 word list \<Rightarrow> TcpEvent" where
  "parseTCPEvent d = \<lparr>te_CgroupID = u64_at 0 d, te_TsNs = u64_at 8 d, te_Saddr = u32_at 16 d, te_Daddr = u32_at 20 d,
     te_Sport = u16_at 24 d, te_Dport = u16_at 26 d, te_Family = u16_at 28 d, te_OldState = u32_at 32 d, te_NewState = u32_at 36 d,
     te_SaddrV6 = take 16 (drop 40 d), te_DaddrV6 = take 16 (drop 56 d)\<rparr>"

definition ReadTCPEvents :: "sec_env \<Rightarrow> (nat \<Rightarrow> instant) \<Rightarrow> ring_read list \<Rightarrow> sec_state \<Rightarrow> CollectedTCP list \<times> sec_state" where
  "ReadTCPEvents env clk reads =
     read_each 0 (\<lambda>n raw name. \<lparr>ct_Timestamp = clk n, ct_CgroupID = te_CgroupID raw, ct_ContainerName = name,
        ct_Saddr = uint32ToIP (te_Saddr raw), ct_Daddr = uint32ToIP (te_Daddr raw), ct_Sport = te_Sport raw, ct_Dport = te_Dport raw,
        ct_Family = te_Family raw, ct_OldState = StateName (te_OldState raw), ct_NewState = StateName (te_NewState raw)\<rparr>)
       te_CgroupID env (map parseTCPEvent (ring_records 72 reads))"

section \<open>System calls\<close>

definition syscallNames :: "(nat \<times> string) list" where
  "syscallNames =
    [(0, ''read''), (1, ''write''), (2, ''open''), (3, ''close''), (4, ''stat''), (5, ''fstat''), (6, ''lstat''),
     (7, ''poll''), (8, ''lseek''), (9, ''mmap''), (10, ''mprotect''), (11, ''munmap''), (12, ''brk''),
     (13, ''rt_sigaction''), (14, ''rt_sigprocmask''), (15, ''rt_sigreturn''), (16, ''ioctl''), (17, ''pread64''),
     (18, ''pwrite64''), (19, ''readv''), (20, ''writev''), (21, ''access''), (22, ''pipe''), (23, ''select''),
     (24, ''sched_yield''), (25, ''mremap''), (26, ''msync''), (27, ''mincore''), (28, ''madvise''), (32, ''dup''),
     (33, ''dup2''), (35, ''nanosleep''), (39, ''getpid''), (41, ''socket''), (42, ''connect''), (43, ''accept''),
     (44, ''sendto''), (45, ''recvfrom''), (46, ''sendmsg''), (47, ''recvmsg''), (48, ''shutdown''), (49, ''bind''),
     (50, ''listen''), (51, ''getsockname''), (52, ''getpeername''), (53, ''socketpair''), (54, ''setsockopt''),
     (55, ''getsockopt''), (56, ''clone''), (57, ''fork''), (58, ''vfork''), (59, ''execve''), (60, ''exit''),
     (61, ''wait4''), (62, ''kill''), (63, ''uname''), (72, ''fcntl''), (73, ''flock''), (74, ''fsync''),
     (75, ''fdatasync''), (76, ''truncate''), (77, ''ftruncate''), (78, ''getdents''), (79, ''getcwd''),
     (80, ''chdir''), (81, ''fchdir''), (82, ''rename''), (83, ''mkdir''), (84, ''rmdir''), (85, ''creat''),
     (86, ''link''), (87, ''unlink''), (88, ''symlink''), (89, ''readlink''), (90, ''chmod''), (91, ''fchmod''),
     (92, ''chown''), (93, ''fchown''), (94, ''lchown''), (95, ''umask''), (137, ''statfs''), (138, ''fstatfs''),
     (202, ''futex''), (228, ''clock_gettime''), (232, ''epoll_wait''), (233, ''epoll_ctl''), (257, ''openat''),
     (258, ''mkdirat''), (259, ''mknodat''), (260, ''fchownat''), (261, ''futimesat''), (262, ''newfstatat''),
     (263, ''unlinkat''), (264, ''renameat''), (265, ''linkat''), (266, ''symlinkat''), (267, ''readlinkat''),
     (268, ''fchmodat''), (269, ''faccessat''), (272, ''unshare''), (281, ''epoll_pwait''), (288, ''accept4''),
     (290, ''eventfd2''), (291, ''epoll_create1''), (292, ''dup3''), (293, ''pipe2'')]"

definition SyscallName :: "32 word \<Rightarrow> string" where
  "SyscallName i = (case map_of syscallNames (unat i) of Some name \<Rightarrow> name | None \<Rightarrow> ''sys_'' @ show_nat (unat i))"

record SyscallSummary =
  su_ContainerName :: string
  su_SyscallID :: "32 word"
  su_SyscallName :: string
  su_Count :: "64 word"
  su_Failures :: "64 word"
  su_AvgLatencyMs :: f64
  su_Rank :: int

definition syscall_sample :: "SyscallKey \<Rightarrow> SyscallStats \<Rightarrow> ContainerInfo \<Rightarrow> sec_state \<Rightarrow> SyscallSummary \<times> sec_state" where
  "syscall_sample key stats info st =
     (\<lparr>su_ContainerName = ci_Name info, su_SyscallID = sk_SyscallID key, su_SyscallName = SyscallName (sk_SyscallID key),
       su_Count = ss_Count stats, su_Failures = ss_Failures stats,
       su_AvgLatencyMs = (if ss_Count stats > 0 then to_ms (f64_div (u2f (ss_TotalLatencyNs stats)) (u2f (ss_Count stats))) else 0),
       su_Rank = 0\<rparr>, st)"

definition Syscall_Collect ::
  "sec_env \<Rightarrow> (SyscallKey \<times> SyscallStats) list \<Rightarrow> string option \<Rightarrow> sec_state \<Rightarrow> (string + SyscallSummary list) \<times> SyscallKey list \<times> sec_state" where
  "Syscall_Collect env entries iterErr st =
     (let (summaries, toDelete, st1) = collect_loop env sk_CgroupID syscall_sample entries st
      in case iterErr of Some err \<Rightarrow> (Inl err, [], st1) | None \<Rightarrow> (Inr summaries, toDelete, st1))"

definition topN :: nat where "topN = 5"

definition group_by_container :: "SyscallSummary list \<Rightarrow> (string \<times> SyscallSummary list) list" where
  "group_by_container all = fold (\<lambda>s g. AList.update (su_ContainerName s)
     ((case map_of g (su_ContainerName s) of Some l \<Rightarrow> l | None \<Rightarrow> []) @ [s]) g) all []"

definition rank_entries :: "SyscallSummary list \<Rightarrow> SyscallSummary list" where
  "rank_entries es = map (\<lambda>(i, s). s\<lparr>su_Rank := int i + 1\<rparr>) (enumerate 0 es)"

definition top_entries :: "SyscallSummary list \<Rightarrow> SyscallSummary list" where
  "top_entries es = rank_entries (take topN (sort_key (\<lambda>s. - int (unat (su_Count s))) es))"

definition top5 :: "SyscallSummary list \<Rightarrow> SyscallSummary list" where
  "top5 all = sort_key (\<lambda>s. (su_ContainerName s, su_Rank s)) (concat (map (\<lambda>e. top_entries (snd e)) (group_by_container all)))"

definition CollectTop5PerContainer ::
  "sec_env \<Rightarrow> (SyscallKey \<times> SyscallStats) list \<Rightarrow> string option \<Rightarrow> sec_state \<Rightarrow> (string + SyscallSummary list) \<times> SyscallKey list \<times> sec_state" where
  "CollectTop5PerContainer env entries iterErr st =
     (case Syscall_Collect env entries iterErr st of
        (Inl err, ds, st1) \<Rightarrow> (Inl err, ds, st1)
      | (Inr all, ds, st1) \<Rightarrow> (Inr (top5 all), ds, st1))"

record SlowSyscallSummary =
  sl_ContainerName :: string
  sl_PID :: "32 word"
  sl_SyscallID :: "32 word"
  sl_SyscallName :: string
  sl_LatencyMs :: f64
  sl_Comm :: string

definition parse_slow :: "8 word list \<Rightarrow> SlowSyscallEvent" where
  "parse_slow d = \<lparr>sy_CgroupID = u64_at 0 d, sy_PID = u32_at 8 d, sy_SyscallID = u32_at 12 d, sy_LatencyNs = u64_at 16 d,
     sy_Comm = take 16 (drop 24 d)\<rparr>"

definition ReadSlowEvents :: "sec_env \<Rightarrow> ring_read list \<Rightarrow> sec_state \<Rightarrow> SlowSyscallSummary list \<times> sec_state" where
  "ReadSlowEvents env reads =
     read_each 0 (\<lambda>n raw name. \<lparr>sl_ContainerName = name, sl_PID = sy_PID raw, sl_SyscallID = sy_SyscallID raw,
        sl_SyscallName = SyscallName (sy_SyscallID raw), sl_LatencyMs = to_ms (u2f (sy_LatencyNs raw)), sl_Comm = commString (sy_Comm raw)\<rparr>)
       sy_CgroupID env (map parse_slow (ring_records 40 reads))"

section \<open>Summaries\<close>

definition balanced :: "NetSummary \<Rightarrow> bool" where
  "balanced s \<longleftrightarrow> nm_ActiveFlows s = nm_Established s + nm_TimeWait s + nm_CloseWait s + nm_Listen s + nm_OtherStates s"

lemma balanced_count:
  "balanced s \<Longrightarrow> balanced (count_state state (s\<lparr>nm_ActiveFlows := nm_ActiveFlows s + 1, nm_TotalRetransmits := r\<rparr>))"
  "nm_ActiveFlows (count_state state s) = nm_ActiveFlows s" "nm_CgroupID (count_state state s) = nm_CgroupID s"
  by (auto simp: balanced_def count_state_def)

lemma sum_update:
  fixes g :: "'v \<Rightarrow> nat"
  assumes "distinct (map fst ss)"
  shows "sum_list (map (\<lambda>e. g (snd e)) (AList.update k x ss)) + (case map_of ss k of Some y \<Rightarrow> g y | None \<Rightarrow> 0)
      = sum_list (map (\<lambda>e. g (snd e)) ss) + g x"
  using assms
proof (induction ss)
  case (Cons e ss)
  obtain a b where e: "e = (a, b)" by (metis surj_pair)
  then show ?case using Cons by (cases "a = k") simp_all
qed simp

lemma update_snd: "x \<in> snd ` set (AList.update k y ss) \<Longrightarrow> x = y \<or> x \<in> snd ` set ss"
  by (induction ss) (auto split: if_splits)

lemma add_flow_total:
  assumes "distinct (map fst ss)"
  shows "sum_list (map (\<lambda>e. nm_ActiveFlows (snd e)) (add_flow f ss)) = Suc (sum_list (map (\<lambda>e. nm_ActiveFlows (snd e)) ss))"
proof -
  have "(case map_of ss (cx_CgroupID f) of Some y \<Rightarrow> nm_ActiveFlows y | None \<Rightarrow> 0) = nm_ActiveFlows (flow_summary f ss)"
    by (simp add: flow_summary_def split: option.splits)
  moreover have "sum_list (map (\<lambda>e. nm_ActiveFlows (snd e)) (add_flow f ss))
      + (case map_of ss (cx_CgroupID f) of Some y \<Rightarrow> nm_ActiveFlows y | None \<Rightarrow> 0)
      = sum_list (map (\<lambda>e. nm_ActiveFlows (snd e)) ss) + Suc (nm_ActiveFlows (flow_summary f ss))"
    unfolding add_flow_def Let_def sum_update [OF assms] by (simp add: balanced_count(2))
  ultimately show ?thesis by linarith
qed

lemma flow_summary_balanced: "\<forall>s \<in> snd ` set ss. balanced s \<Longrightarrow> balanced (flow_summary f ss)"
proof (cases "map_of ss (cx_CgroupID f)")
  case (Some s)
  assume "\<forall>s \<in> snd ` set ss. balanced s"
  then show ?thesis using map_of_SomeD [OF Some] Some by (force simp: flow_summary_def)
qed (simp add: flow_summary_def balanced_def)

lemma add_flow_balanced: "\<forall>s \<in> snd ` set ss. balanced s \<Longrightarrow> \<forall>s \<in> snd ` set (add_flow f ss). balanced s"
  using flow_summary_balanced [of ss f] balanced_count(1)
  unfolding add_flow_def Let_def by (metis update_snd)

lemma summary_total:
  "sum_list (map nm_ActiveFlows (map snd (fold add_flow flows []))) = length flows \<and> (\<forall>s \<in> set (map snd (fold add_flow flows [])). balanced s)"
proof -
  have "distinct (map fst ss) \<Longrightarrow> \<forall>s \<in> snd ` set ss. balanced s \<Longrightarrow>
    sum_list (map (\<lambda>e. nm_ActiveFlows (snd e)) (fold add_flow flows ss)) = length flows + sum_list (map (\<lambda>e. nm_ActiveFlows (snd e)) ss)
    \<and> (\<forall>s \<in> snd ` set (fold add_flow flows ss). balanced s)" for ss
  proof (induction flows arbitrary: ss)
    case (Cons f flows)
    have "distinct (map fst (add_flow f ss))" using Cons.prems(1) by (simp add: add_flow_def Let_def distinct_update)
    from Cons.IH [OF this add_flow_balanced [OF Cons.prems(2)]] show ?case
      using add_flow_total [OF Cons.prems(1), of f] by simp
  qed simp
  from this [of "[]"] show ?thesis by (simp add: comp_def image_image)
qed

section \<open>Ranks\<close>

lemma rank_entries_nth:
  "i < length es \<Longrightarrow> rank_entries es ! i = (es ! i)\<lparr>su_Rank := int i + 1\<rparr>" "length (rank_entries es) = length es"
  by (simp_all add: rank_entries_def nth_enumerate_eq)

lemma top_entries_ranked:
  "length (top_entries es) = min topN (length es)"
  "i < length (top_entries es) \<Longrightarrow> su_Rank (top_entries es ! i) = int i + 1"
  "i \<le> j \<Longrightarrow> j < length (top_entries es) \<Longrightarrow> unat (su_Count (top_entries es ! j)) \<le> unat (su_Count (top_entries es ! i))"
proof -
  let ?s = "sort_key (\<lambda>s. - int (unat (su_Count s))) es"
  show l: "length (top_entries es) = min topN (length es)" by (simp add: top_entries_def rank_entries_nth min.commute)
  show "i < length (top_entries es) \<Longrightarrow> su_Rank (top_entries es ! i) = int i + 1"
    by (simp add: top_entries_def rank_entries_nth)
  assume ij: "i \<le> j" "j < length (top_entries es)"
  have n: "k < length (top_entries es) \<Longrightarrow> su_Count (top_entries es ! k) = su_Count (?s ! k)" for k
    using l by (simp add: top_entries_def rank_entries_nth)
  have "sorted (map (\<lambda>s. - int (unat (su_Count s))) ?s)" by (rule sorted_sort_key)
  moreover have "j < length ?s" using ij l by simp
  ultimately have "map (\<lambda>s. - int (unat (su_Count s))) ?s ! i \<le> map (\<lambda>s. - int (unat (su_Count s))) ?s ! j"
    using ij(1) by (intro sorted_nth_mono) simp_all
  then have "- int (unat (su_Count (?s ! i))) \<le> - int (unat (su_Count (?s ! j)))"
    using ij l by (simp only: length_sort length_map nth_map)
  then show "unat (su_Count (top_entries es ! j)) \<le> unat (su_Count (top_entries es ! i))"
    using n [of i] n [of j] ij by (simp only: neg_le_iff_le of_nat_le_iff)
qed

text \<open>The groups partition the summaries by container, in their order.\<close>

lemma group_by_container_spec:
  "map_of (group_by_container all) c =
     (if \<exists>s \<in> set all. su_ContainerName s = c then Some (filter (\<lambda>s. su_ContainerName s = c) all) else None)"
  "distinct (map fst (group_by_container all))"
proof -
  let ?add = "\<lambda>s g. AList.update (su_ContainerName s) ((case map_of g (su_ContainerName s) of Some l \<Rightarrow> l | None \<Rightarrow> []) @ [s]) g"
  have "distinct (map fst (fold ?add all g))" if "distinct (map fst g)" for g
    using that by (induction all arbitrary: g) (simp_all add: distinct_update)
  then show "distinct (map fst (group_by_container all))" by (simp add: group_by_container_def)
  have "map_of (fold ?add all g) c = (if \<exists>s \<in> set all. su_ContainerName s = c
      then Some ((case map_of g c of Some l \<Rightarrow> l | None \<Rightarrow> []) @ filter (\<lambda>s. su_ContainerName s = c) all) else map_of g c)" for g
  proof (induction all arbitrary: g)
    case (Cons s all)
    show ?case
    proof (cases "su_ContainerName s = c")
      case True
      then have "map_of (?add s g) c = Some ((case map_of g c of Some l \<Rightarrow> l | None \<Rightarrow> []) @ [s])" by (simp add: update_conv')
      then show ?thesis using Cons [of "?add s g"] True by (auto simp: filter_empty_conv)
    next
      case False
      then have "map_of (?add s g) c = map_of g c" by (simp add: update_conv')
      then show ?thesis using Cons [of "?add s g"] False by auto
    qed
  qed simp
  from this [of "[]"] show "map_of (group_by_container all) c =
     (if \<exists>s \<in> set all. su_ContainerName s = c then Some (filter (\<lambda>s. su_ContainerName s = c) all) else None)"
    by (simp add: group_by_container_def)
qed

text \<open>The entries of one container in the result are its five most frequent calls, ranked.\<close>

lemma top_entries_container: "(c, es) \<in> set (group_by_container all) \<Longrightarrow> s \<in> set (top_entries es) \<Longrightarrow> su_ContainerName s = c"
proof -
  assume a: "(c, es) \<in> set (group_by_container all)" "s \<in> set (top_entries es)"
  have "map_of (group_by_container all) c = Some es" using a(1) group_by_container_spec(2) by simp
  then have e: "es = filter (\<lambda>s. su_ContainerName s = c) all" by (simp add: group_by_container_spec(1) split: if_splits)
  obtain i where i: "i < length (top_entries es)" "s = top_entries es ! i" using a(2) by (metis in_set_conv_nth)
  let ?t = "take topN (sort_key (\<lambda>s. - int (unat (su_Count s))) es)"
  have "i < length ?t" using i(1) top_entries_ranked(1) [of es] by (simp add: top_entries_def rank_entries_nth)
  then have "su_ContainerName s = su_ContainerName (?t ! i)" "?t ! i \<in> set ?t"
    using i(2) by (simp_all only: top_entries_def rank_entries_nth nth_mem) simp
  then show ?thesis using e by (auto dest: in_set_takeD)
qed

lemma filter_concat_group:
  assumes "distinct (map fst g)" "\<And>c' es s. (c', es) \<in> set g \<Longrightarrow> s \<in> set (f es) \<Longrightarrow> su_ContainerName s = c'"
  shows "filter (\<lambda>s. su_ContainerName s = c) (concat (map (\<lambda>e. f (snd e)) g)) = (case map_of g c of Some es \<Rightarrow> f es | None \<Rightarrow> [])"
  using assms
proof (induction g)
  case (Cons e g)
  obtain c' es where e: "e = (c', es)" by fastforce
  have own: "filter (\<lambda>s. su_ContainerName s = c) (f es) = (if c' = c then f es else [])"
    using Cons.prems(2) [of c' es] by (auto simp: e filter_id_conv filter_empty_conv)
  have "map_of g c' = None" using Cons.prems(1) by (simp add: e map_of_eq_None_iff)
  moreover have "filter (\<lambda>s. su_ContainerName s = c) (concat (map (\<lambda>e. f (snd e)) g)) = (case map_of g c of Some es \<Rightarrow> f es | None \<Rightarrow> [])"
    using Cons.prems by (intro Cons.IH) (auto simp: e)
  ultimately show ?case using own by (auto simp: e)
qed simp

lemma top5_container:
  "filter (\<lambda>s. su_ContainerName s = c) (top5 all) = top_entries (filter (\<lambda>s. su_ContainerName s = c) all)"
proof -
  let ?all = "concat (map (\<lambda>e. top_entries (snd e)) (group_by_container all))"
  have nil: "top_entries [] = []" by (simp add: top_entries_def rank_entries_def)
  have f: "filter (\<lambda>s. su_ContainerName s = c) ?all = top_entries (filter (\<lambda>s. su_ContainerName s = c) all)"
    using filter_concat_group [OF group_by_container_spec(2), where f = top_entries and c = c, OF top_entries_container]
    by (auto simp: group_by_container_spec(1) nil filter_empty_conv)
  let ?es = "top_entries (filter (\<lambda>s. su_ContainerName s = c) all)"
  have "filter (\<lambda>s. su_ContainerName s = c) (top5 all) = sort_key (\<lambda>s. (su_ContainerName s, su_Rank s)) ?es"
    by (simp add: top5_def filter_sort f)
  also have "\<dots> = ?es"
  proof (rule sort_key_id_if_sorted)
    have "\<forall>i j. i \<le> j \<longrightarrow> j < length ?es \<longrightarrow>
      (su_ContainerName (?es ! i), su_Rank (?es ! i)) \<le> (su_ContainerName (?es ! j), su_Rank (?es ! j))"
    proof (intro allI impI)
      fix i j assume ij: "i \<le> j" "j < length ?es"
      have "su_ContainerName (?es ! k) = c" if "k < length ?es" for k
      proof -
        have "?es ! k \<in> set (filter (\<lambda>s. su_ContainerName s = c) ?all)" using that f by (metis nth_mem)
        then show ?thesis by simp
      qed
      then show "(su_ContainerName (?es ! i), su_Rank (?es ! i)) \<le> (su_ContainerName (?es ! j), su_Rank (?es ! j))"
        using ij top_entries_ranked(2) by (simp add: less_eq_prod_def)
    qed
    then show "sorted (map (\<lambda>s. (su_ContainerName s, su_Rank s)) ?es)" by (simp add: sorted_iff_nth_mono)
  qed
  finally show ?thesis .
qed

end
