(* ===== verification/TuiCollect.thy ===== *)
theory TuiCollect
  imports FlowCollectors Percentile
begin

text \<open>
  The data cycle of the terminal interface, \<open>internal/tui/app/collect.go\<close>: one call of
  \<open>collectReal\<close> polls the five metric collectors, drains the security collectors into the
  process graph, merges the security events, records latencies and builds the batch the views
  get. The state that outlives a cycle (collectors, resolver, graph, writer, latency
  aggregator, history) is a record; what a cycle reads from the kernel is its input, with the
  readings of the clock by step and, in a drain, by event.
\<close>

section \<open>Batches\<close>

datatype EventKind = EventKindInfo | EventKindTCP | EventKindError | EventKindOOM | EventKindSlowSys | EventKindSecurity

record TuiEvent =
  tv_At :: instant
  tv_Kind :: EventKind
  tv_Container :: string
  tv_Message :: string
  tv_Envelope :: "EventEnvelope option"
  tv_Count :: int

record DataBatch =
  db_Timestamp :: instant
  db_CPU :: "CpuSample list"
  db_Mem :: "MemSample list"
  db_IO :: "IoSample list"
  db_Net :: "NetSummary list"
  db_Sys :: "SyscallSummary list"
  db_Events :: "TuiEvent list"
  db_Graph :: "GraphSnapshot option"
  db_Percentiles :: "(string \<times> WindowSnapshots) list"

definition zero_batch :: DataBatch where
  "zero_batch = \<lparr>db_Timestamp = zeroTime, db_CPU = [], db_Mem = [], db_IO = [], db_Net = [], db_Sys = [], db_Events = [],
     db_Graph = None, db_Percentiles = []\<rparr>"

record CollectFilter =
  cf_ContainersOnly :: bool
  cf_TopN :: int
  cf_ShowFiles :: bool
  cf_ShowTCP :: bool
  cf_ShowSlowSys :: bool

definition isContainer :: "string \<Rightarrow> bool" where
  "isContainer name \<longleftrightarrow>
     HasPrefix name ''docker:'' \<or> HasPrefix name ''cri:'' \<or> HasPrefix name ''k8s:'' \<or> HasPrefix name ''cgroup:''
     \<or> count_list name CHR ''/'' = 2"

definition hidden :: "CollectFilter \<Rightarrow> string \<Rightarrow> bool" where
  "hidden f name \<longleftrightarrow> cf_ContainersOnly f \<and> \<not> isContainer name"

text \<open>The five filters of a batch are the same function at five types.\<close>

definition filter_samples :: "('s \<Rightarrow> string) \<Rightarrow> 's list \<Rightarrow> CollectFilter \<Rightarrow> 's list" where
  "filter_samples name samples f =
     (let out = filter (\<lambda>s. \<not> hidden f (name s)) samples
      in if cf_TopN f > 0 \<and> int (length out) > cf_TopN f then take (nat (cf_TopN f)) out else out)"

definition filterCPU :: "CpuSample list \<Rightarrow> CollectFilter \<Rightarrow> CpuSample list" where "filterCPU = filter_samples cm_ContainerName"
definition filterMem :: "MemSample list \<Rightarrow> CollectFilter \<Rightarrow> MemSample list" where "filterMem = filter_samples ms_ContainerName"
definition filterIO :: "IoSample list \<Rightarrow> CollectFilter \<Rightarrow> IoSample list" where "filterIO = filter_samples is_ContainerName"
definition filterNet :: "NetSummary list \<Rightarrow> CollectFilter \<Rightarrow> NetSummary list" where "filterNet = filter_samples nm_ContainerName"
definition filterSys :: "SyscallSummary list \<Rightarrow> CollectFilter \<Rightarrow> SyscallSummary list" where "filterSys = filter_samples su_ContainerName"

section \<open>Messages\<close>

definition bytes :: "nat list \<Rightarrow> string" where "bytes ns = map char_of ns"

definition red_circle :: string where "red_circle = bytes [0xF0, 0x9F, 0x94, 0xB4]"
definition warning_sign :: string where "warning_sign = bytes [0xE2, 0x9A, 0xA0, 0xEF, 0xB8, 0x8F]"
definition right_arrow :: string where "right_arrow = bytes [0xE2, 0x86, 0x92]"

text \<open>The verb \<open>%x\<close>.\<close>

fun show_hex :: "nat \<Rightarrow> string" where
  "show_hex n = (if n < 16 then [] else show_hex (n div 16)) @ [''0123456789abcdef'' ! (n mod 16)]"

declare show_hex.simps [simp del]

abbreviation show_word :: "'a::len word \<Rightarrow> string" where "show_word w \<equiv> show_nat (unat w)"

definition oom_event :: "OOMReport \<Rightarrow> TuiEvent" where
  "oom_event o1 = \<lparr>tv_At = om_Timestamp o1, tv_Kind = EventKindOOM, tv_Container = om_ContainerName o1,
     tv_Message = red_circle @ '' OOM KILL '' @ om_ContainerName o1 @ '' pid='' @ show_word (om_VictimPID o1)
       @ '' comm='' @ om_Comm o1 @ '' rss='' @ show_word (om_Pages o1 * 4) @ ''KB'',
     tv_Envelope = Some \<lparr>ee_Timestamp = om_Timestamp o1, ee_CgroupID = om_CgroupID o1, ee_ContainerName = om_ContainerName o1,
       ee_PID = om_VictimPID o1, ee_PPID = 0, ee_Process = om_Comm o1, ee_ParentProcess = [], ee_EventType = ''oom_kill'',
       ee_AncestryTruncated = False,
       ee_Metadata = [(''rss_kb'', AnyUint64 (om_Pages o1 * 4)), (''limit_bytes'', AnyUint64 (om_MemoryLimitBytes o1)),
         (''oom_score_adj'', AnyInt32 (word_of_int (om_OOMScoreAdj o1)))]\<rparr>,
     tv_Count = 0\<rparr>"

definition file_event :: "CollectedFile \<Rightarrow> TuiEvent" where
  "file_event fev = \<lparr>tv_At = cf_Timestamp fev, tv_Kind = EventKindInfo, tv_Container = cf_ContainerName fev,
     tv_Message = ''[FILE] '' @ cf_ContainerName fev @ ''  pid='' @ show_word (cf_PID fev) @ ''  '' @ cf_Filename fev
       @ ''  flags=0x'' @ show_hex (unat (cf_Flags fev)), tv_Envelope = None, tv_Count = 0\<rparr>"

definition tcp_event :: "CollectedTCP \<Rightarrow> TuiEvent" where
  "tcp_event t = \<lparr>tv_At = ct_Timestamp t, tv_Kind = EventKindTCP, tv_Container = ct_ContainerName t,
     tv_Message = ''[TCP] '' @ ct_ContainerName t @ ''  '' @ ct_Saddr t @ '':'' @ show_word (ct_Sport t) @ right_arrow
       @ ct_Daddr t @ '':'' @ show_word (ct_Dport t) @ ''  '' @ ct_OldState t @ right_arrow @ ct_NewState t,
     tv_Envelope = None, tv_Count = 0\<rparr>"

definition slow_event :: "instant \<Rightarrow> SlowSyscallSummary \<Rightarrow> TuiEvent" where
  "slow_event now s = \<lparr>tv_At = now, tv_Kind = EventKindSlowSys, tv_Container = sl_ContainerName s,
     tv_Message = warning_sign @ '' SLOW SYSCALL '' @ sl_ContainerName s @ '' pid='' @ show_word (sl_PID s) @ '' comm='' @ sl_Comm s
       @ '' sys_id='' @ show_word (sl_SyscallID s) @ '' lat='' @ fmt_2f (sl_LatencyMs s) @ ''ms'',
     tv_Envelope = None, tv_Count = 0\<rparr>"

section \<open>State and input of a cycle\<close>

record 'h TuiState =
  ts_CPU :: "CpuCollector option"
  ts_Mem :: "MemoryCollector option"
  ts_IO :: "IoCollector option"
  ts_Net :: bool
  ts_Syscall :: bool
  ts_Lineage :: bool
  ts_Exec :: bool
  ts_DNS :: bool
  ts_PrivEsc :: bool
  ts_Escape :: bool
  ts_SecWriter :: "EventEnvelope list option"
  ts_Graph :: "ProcessGraph option"
  ts_resolver :: sec_state
  ts_latencyAgg :: "'h LatencyAggregator"
  ts_tsBuffer :: "DataBatch Buffer"

record collect_input =
  in_now :: "nat \<Rightarrow> instant"
  in_clock :: "nat \<Rightarrow> nat \<Rightarrow> instant"
  in_fs :: fs_env
  in_execLineage :: "LineageLookup option"
  in_lineage :: "LineageLookup option"
  in_cpu :: "(64 word \<times> CpuStats) list \<times> string option"
  in_mem :: "(64 word \<times> PfStats) list \<times> string option"
  in_io :: "(64 word \<times> IoStats) list \<times> string option"
  in_net :: "(ConnKey \<times> ConnStats) list \<times> string option"
  in_sys :: "(SyscallKey \<times> SyscallStats) list \<times> string option"
  in_files :: "ring_read list"
  in_tcp :: "ring_read list"
  in_slow :: "ring_read list"
  in_fork :: "ring_read list option"
  in_exec :: "ring_read list"
  in_dns :: "ring_read list"
  in_priv :: "ring_read list"
  in_esc :: "ring_read list"

definition Writer_Write :: "EventEnvelope list \<Rightarrow> 'h TuiState \<Rightarrow> 'h TuiState" where
  "Writer_Write evs s = s\<lparr>ts_SecWriter := map_option (\<lambda>w. w @ evs) (ts_SecWriter s)\<rparr>"

definition Writer_Drain :: "'h TuiState \<Rightarrow> EventEnvelope list \<times> 'h TuiState" where
  "Writer_Drain s = (case ts_SecWriter s of None \<Rightarrow> ([], s) | Some w \<Rightarrow> (w, s\<lparr>ts_SecWriter := Some []\<rparr>))"

definition add_events :: "TuiEvent list \<Rightarrow> DataBatch \<Rightarrow> DataBatch" where
  "add_events evs b = b\<lparr>db_Events := db_Events b @ evs\<rparr>"

definition latency_key :: "string \<Rightarrow> string \<Rightarrow> string" where
  "latency_key name suf = name @ '':'' @ suf"

text \<open>A latency in milliseconds enters the aggregator in whole microseconds.\<close>

definition to_us :: "f64 \<Rightarrow> int" where
  "to_us ms = f64_trunc (f64_mul ms 1000)"

section \<open>The polls\<close>

definition collect_cpu :: "sec_env \<Rightarrow> collect_input \<Rightarrow> CollectFilter \<Rightarrow> 'h TuiState \<times> DataBatch \<Rightarrow> 'h TuiState \<times> DataBatch" where
  "collect_cpu env inp f = (\<lambda>(s, b). case ts_CPU s of None \<Rightarrow> (s, b) | Some c \<Rightarrow>
     let (res, _, c1, st1) = Cpu_Collect env (in_fs inp) (in_now inp 1) (fst (in_cpu inp)) (snd (in_cpu inp)) c (ts_resolver s);
         s1 = s\<lparr>ts_CPU := Some c1, ts_resolver := st1\<rparr>
     in case res of Inl _ \<Rightarrow> (s1, b) | Inr samples \<Rightarrow> (s1, b\<lparr>db_CPU := filterCPU samples f\<rparr>))"

definition collect_mem :: "sec_env \<Rightarrow> collect_input \<Rightarrow> CollectFilter \<Rightarrow> 'h TuiState \<times> DataBatch \<Rightarrow> 'h TuiState \<times> DataBatch" where
  "collect_mem env inp f = (\<lambda>(s, b). case ts_Mem s of None \<Rightarrow> (s, b) | Some m \<Rightarrow>
     let (res, _, m1, st1) = Mem_Collect env (in_fs inp) (in_now inp 2) (fst (in_mem inp)) (snd (in_mem inp)) m (ts_resolver s);
         (evs, m2) = ReadOOMEvents m1;
         b1 = (case res of Inl _ \<Rightarrow> b | Inr samples \<Rightarrow> b\<lparr>db_Mem := filterMem samples f\<rparr>)
     in (s\<lparr>ts_Mem := Some m2, ts_resolver := st1\<rparr>, add_events (map oom_event evs) b1))"

definition record_io :: "'h Hdr \<Rightarrow> IoSample \<Rightarrow> 'h LatencyAggregator \<Rightarrow> 'h LatencyAggregator" where
  "record_io h s a =
     (let a1 = (if is_ReadIOs s > 0 \<and> is_AvgReadLatencyMs s > 0
                then RecordValues h (latency_key (is_ContainerName s) ''io_read'') (to_us (is_AvgReadLatencyMs s)) (sint (is_ReadIOs s)) a else a)
      in if is_WriteIOs s > 0 \<and> is_AvgWriteLatencyMs s > 0
         then RecordValues h (latency_key (is_ContainerName s) ''io_write'') (to_us (is_AvgWriteLatencyMs s)) (sint (is_WriteIOs s)) a1 else a1)"

definition collect_io :: "'h Hdr \<Rightarrow> sec_env \<Rightarrow> collect_input \<Rightarrow> CollectFilter \<Rightarrow> 'h TuiState \<times> DataBatch \<Rightarrow> 'h TuiState \<times> DataBatch" where
  "collect_io h env inp f = (\<lambda>(s, b). case ts_IO s of None \<Rightarrow> (s, b) | Some c \<Rightarrow>
     let (res, _, c1, st1) = Io_Collect env (in_now inp 3) (fst (in_io inp)) (snd (in_io inp)) c (ts_resolver s);
         s1 = s\<lparr>ts_IO := Some c1, ts_resolver := st1\<rparr>;
         (s2, b1) = (case res of
            Inl _ \<Rightarrow> (s1, b)
          | Inr samples \<Rightarrow> (s1\<lparr>ts_latencyAgg := fold (record_io h) samples (ts_latencyAgg s1)\<rparr>, b\<lparr>db_IO := filterIO samples f\<rparr>))
     in if cf_ShowFiles f
        then let (fevs, st2) = ReadFileEvents env (in_clock inp 0) (in_files inp) (ts_resolver s2)
             in (s2\<lparr>ts_resolver := st2\<rparr>, add_events (map file_event (filter (\<lambda>e. \<not> hidden f (cf_ContainerName e)) fevs)) b1)
        else (s2, b1))"

definition collect_net :: "sec_env \<Rightarrow> collect_input \<Rightarrow> CollectFilter \<Rightarrow> 'h TuiState \<times> DataBatch \<Rightarrow> 'h TuiState \<times> DataBatch" where
  "collect_net env inp f = (\<lambda>(s, b). if \<not> ts_Net s then (s, b) else
     let (res, _, st1) = CollectSummary env (in_now inp 4) (fst (in_net inp)) (snd (in_net inp)) (ts_resolver s);
         b1 = (case res of Inl _ \<Rightarrow> b | Inr summaries \<Rightarrow> b\<lparr>db_Net := filterNet summaries f\<rparr>)
     in if cf_ShowTCP f
        then let (tevs, st2) = ReadTCPEvents env (in_clock inp 1) (in_tcp inp) st1
             in (s\<lparr>ts_resolver := st2\<rparr>, add_events (map tcp_event (filter (\<lambda>e. \<not> hidden f (ct_ContainerName e)) tevs)) b1)
        else (s\<lparr>ts_resolver := st1\<rparr>, b1))"

definition record_sys :: "'h Hdr \<Rightarrow> SyscallSummary \<Rightarrow> 'h LatencyAggregator \<Rightarrow> 'h LatencyAggregator" where
  "record_sys h s a =
     (if su_Count s > 0 \<and> su_AvgLatencyMs s > 0
      then RecordValues h (latency_key (su_ContainerName s) (''sys_'' @ show_word (su_SyscallID s))) (to_us (su_AvgLatencyMs s)) (sint (su_Count s)) a
      else a)"

definition collect_sys :: "'h Hdr \<Rightarrow> sec_env \<Rightarrow> collect_input \<Rightarrow> CollectFilter \<Rightarrow> 'h TuiState \<times> DataBatch \<Rightarrow> 'h TuiState \<times> DataBatch" where
  "collect_sys h env inp f = (\<lambda>(s, b). if \<not> ts_Syscall s then (s, b) else
     let (res, _, st1) = CollectTop5PerContainer env (fst (in_sys inp)) (snd (in_sys inp)) (ts_resolver s);
         (s1, b1) = (case res of
            Inl _ \<Rightarrow> (s, b)
          | Inr summaries \<Rightarrow> (s\<lparr>ts_latencyAgg := fold (record_sys h) summaries (ts_latencyAgg s)\<rparr>, b\<lparr>db_Sys := filterSys summaries f\<rparr>))
     in if cf_ShowSlowSys f
        then let (sevs, st2) = ReadSlowEvents env (in_slow inp) st1;
                 shown = filter (\<lambda>e. \<not> hidden f (sl_ContainerName e)) sevs
             in (s1\<lparr>ts_resolver := st2\<rparr>, add_events (map (\<lambda>(i, e). slow_event (in_clock inp 2 i) e) (enumerate 0 shown)) b1)
        else (s1\<lparr>ts_resolver := st1\<rparr>, b1))"

section \<open>Security events\<close>

definition graph_add :: "(EventEnvelope \<Rightarrow> ProcessGraph \<Rightarrow> ProcessGraph) \<Rightarrow> CollectFilter \<Rightarrow> EventEnvelope list \<Rightarrow> 'h TuiState \<Rightarrow> 'h TuiState" where
  "graph_add add f evs s =
     s\<lparr>ts_Graph := map_option (fold add (filter (\<lambda>e. \<not> hidden f (ee_ContainerName e)) evs)) (ts_Graph s)\<rparr>"

text \<open>A drain of a security collector: its events go to the writer as they are read.\<close>

definition security_drain :: "(bool \<Rightarrow> sec_state \<Rightarrow> drained \<times> sec_state) \<Rightarrow> 'h TuiState \<Rightarrow> EventEnvelope list \<times> 'h TuiState" where
  "security_drain rd s =
     (let (d, st1) = rd (ts_SecWriter s \<noteq> None) (ts_resolver s)
      in (dr_events d, Writer_Write (dr_written d) (s\<lparr>ts_resolver := st1\<rparr>)))"

definition collect_lineage :: "sec_env \<Rightarrow> collect_input \<Rightarrow> CollectFilter \<Rightarrow> 'h TuiState \<Rightarrow> 'h TuiState" where
  "collect_lineage env inp f s =
     (if \<not> ts_Lineage s then s
      else let (evs, s1) = security_drain (\<lambda>w. ReadForkEvents env w (in_fork inp)) s in graph_add AddFork f evs s1)"

definition collect_exec :: "sec_env \<Rightarrow> collect_input \<Rightarrow> CollectFilter \<Rightarrow> 'h TuiState \<Rightarrow> 'h TuiState" where
  "collect_exec env inp f s =
     (if \<not> ts_Exec s then s
      else let (evs, s1) = security_drain (\<lambda>w. ReadExecEvents env (in_execLineage inp) w (in_exec inp)) s in graph_add AddExec f evs s1)"

definition record_dns :: "'h Hdr \<Rightarrow> EventEnvelope \<Rightarrow> 'h LatencyAggregator \<Rightarrow> 'h LatencyAggregator" where
  "record_dns h ev a =
     (case map_of (ee_Metadata ev) ''latency_ms'' of
        Some (AnyFloat64 lat) \<Rightarrow> Record h (latency_key (ee_ContainerName ev) ''dns'') (to_us lat) a
      | _ \<Rightarrow> a)"

definition collect_dns :: "'h Hdr \<Rightarrow> sec_env \<Rightarrow> collect_input \<Rightarrow> 'h TuiState \<Rightarrow> 'h TuiState" where
  "collect_dns h env inp s =
     (if \<not> ts_DNS s then s
      else let (evs, s1) = security_drain (\<lambda>w. ReadDNSEvents env (in_lineage inp) w (in_dns inp)) s
           in s1\<lparr>ts_latencyAgg := fold (record_dns h) evs (ts_latencyAgg s1)\<rparr>)"

definition collect_privesc :: "sec_env \<Rightarrow> collect_input \<Rightarrow> 'h TuiState \<Rightarrow> 'h TuiState" where
  "collect_privesc env inp s =
     (if \<not> ts_PrivEsc s then s else snd (security_drain (\<lambda>w. ReadPrivEscEvents env (in_lineage inp) w (in_priv inp)) s))"

definition collect_escape :: "sec_env \<Rightarrow> collect_input \<Rightarrow> 'h TuiState \<Rightarrow> 'h TuiState" where
  "collect_escape env inp s =
     (if \<not> ts_Escape s then s else snd (security_drain (\<lambda>w. ReadEscapeEvents env (in_lineage inp) w (in_esc inp)) s))"

text \<open>
  Merging: events with the same key count together; the map of groups with the slice of its
  keys is an association list in the order of the first occurrences. The first event of a
  group is also attached to its process.
\<close>

definition security_key :: "EventEnvelope \<Rightarrow> string" where
  "security_key ev = ee_ContainerName ev @ '':'' @ ee_EventType ev @ '':'' @ ee_Process ev"

definition skipped :: "CollectFilter \<Rightarrow> EventEnvelope \<Rightarrow> bool" where
  "skipped f ev \<longleftrightarrow> hidden f (ee_ContainerName ev) \<or> HasPrefix (map lower_char (ee_Process ev)) ''runc''"

definition group_security :: "EventEnvelope \<Rightarrow> (string \<times> TuiEvent) list \<times> ProcessGraph option \<Rightarrow> (string \<times> TuiEvent) list \<times> ProcessGraph option" where
  "group_security ev = (\<lambda>(g, gr).
     case map_of g (security_key ev) of
       Some e \<Rightarrow> (AList.update (security_key ev) (e\<lparr>tv_Count := tv_Count e + 1, tv_At := ee_Timestamp ev\<rparr>) g, gr)
     | None \<Rightarrow>
         (g @ [(security_key ev, \<lparr>tv_At = ee_Timestamp ev, tv_Kind = EventKindSecurity, tv_Container = ee_ContainerName ev,
            tv_Message = ''['' @ ee_EventType ev @ ''] '' @ ee_Process ev, tv_Envelope = Some ev, tv_Count = 1\<rparr>)],
          map_option (CorrelateEvent (ee_CgroupID ev) (ee_PID ev) (Some ev)) gr))"

definition collect_security :: "CollectFilter \<Rightarrow> 'h TuiState \<times> DataBatch \<Rightarrow> 'h TuiState \<times> DataBatch" where
  "collect_security f = (\<lambda>(s, b).
     let (evs, s1) = Writer_Drain s;
         (g, gr) = fold group_security (filter (\<lambda>ev. \<not> skipped f ev) evs) ([], ts_Graph s1)
     in (s1\<lparr>ts_Graph := gr\<rparr>, add_events (map snd g) b))"

section \<open>A cycle\<close>

definition collect_finish :: "'h Hdr \<Rightarrow> collect_input \<Rightarrow> 'h TuiState \<times> DataBatch \<Rightarrow> ('h TuiState \<times> DataBatch) option" where
  "collect_finish h inp = (\<lambda>(s, b).
     let la = Tick h (ts_latencyAgg s);
         b1 = b\<lparr>db_Graph := map_option (Graph_Snapshot (in_now inp 5)) (ts_Graph s), db_Percentiles := Latency_Snapshot la\<rparr>
     in case Push b1 (ts_tsBuffer s) of
          None \<Rightarrow> None
        | Some buf \<Rightarrow> Some (s\<lparr>ts_latencyAgg := la, ts_tsBuffer := buf\<rparr>, b1))"

definition security_cycle :: "'h Hdr \<Rightarrow> sec_env \<Rightarrow> collect_input \<Rightarrow> CollectFilter \<Rightarrow> 'h TuiState \<Rightarrow> 'h TuiState" where
  "security_cycle h env inp f s =
     collect_escape env inp (collect_privesc env inp (collect_dns h env inp (collect_exec env inp f (collect_lineage env inp f s))))"

definition metric_cycle :: "'h Hdr \<Rightarrow> sec_env \<Rightarrow> collect_input \<Rightarrow> CollectFilter \<Rightarrow> 'h TuiState \<times> DataBatch \<Rightarrow> 'h TuiState \<times> DataBatch" where
  "metric_cycle h env inp f sb =
     collect_sys h env inp f (collect_net env inp f (collect_io h env inp f (collect_mem env inp f (collect_cpu env inp f sb))))"

definition collectReal :: "'h Hdr \<Rightarrow> sec_env \<Rightarrow> collect_input \<Rightarrow> CollectFilter \<Rightarrow> 'h TuiState \<Rightarrow> ('h TuiState \<times> DataBatch) option" where
  "collectReal h env inp f s =
     (let (s1, b1) = metric_cycle h env inp f (s, zero_batch\<lparr>db_Timestamp := in_now inp 0\<rparr>)
      in collect_finish h inp (collect_security f (security_cycle h env inp f s1, b1)))"

section \<open>Containers only\<close>

definition batch_ok :: "CollectFilter \<Rightarrow> DataBatch \<Rightarrow> bool" where
  "batch_ok f b \<longleftrightarrow>
     (\<forall>x \<in> set (db_CPU b). \<not> hidden f (cm_ContainerName x)) \<and> (\<forall>x \<in> set (db_Mem b). \<not> hidden f (ms_ContainerName x)) \<and>
     (\<forall>x \<in> set (db_IO b). \<not> hidden f (is_ContainerName x)) \<and> (\<forall>x \<in> set (db_Net b). \<not> hidden f (nm_ContainerName x)) \<and>
     (\<forall>x \<in> set (db_Sys b). \<not> hidden f (su_ContainerName x)) \<and>
     (\<forall>e \<in> set (db_Events b). tv_Kind e = EventKindOOM \<or> \<not> hidden f (tv_Container e))"

lemma filter_samples_shown: "x \<in> set (filter_samples name xs f) \<Longrightarrow> \<not> hidden f (name x)"
  by (auto simp: filter_samples_def Let_def split: if_splits dest: in_set_takeD)

lemma filter_samples_top: "0 < cf_TopN f \<Longrightarrow> int (length (filter_samples name xs f)) \<le> cf_TopN f"
  by (auto simp: filter_samples_def Let_def)

lemma filter_samples_prefix: "prefix (filter_samples name xs f) (filter (\<lambda>s. \<not> hidden f (name s)) xs)"
  by (simp add: filter_samples_def Let_def take_is_prefix)

lemma batch_ok_zero: "batch_ok f (zero_batch\<lparr>db_Timestamp := t\<rparr>)"
  by (simp add: batch_ok_def zero_batch_def)

lemma batch_ok_events:
  "batch_ok f b \<Longrightarrow> \<forall>e \<in> set evs. tv_Kind e = EventKindOOM \<or> \<not> hidden f (tv_Container e) \<Longrightarrow> batch_ok f (add_events evs b)"
  by (auto simp: batch_ok_def add_events_def)

lemma batch_ok_samples:
  "batch_ok f b \<Longrightarrow> batch_ok f (b\<lparr>db_CPU := filterCPU cs f\<rparr>)" "batch_ok f b \<Longrightarrow> batch_ok f (b\<lparr>db_Mem := filterMem ms f\<rparr>)"
  "batch_ok f b \<Longrightarrow> batch_ok f (b\<lparr>db_IO := filterIO is f\<rparr>)" "batch_ok f b \<Longrightarrow> batch_ok f (b\<lparr>db_Net := filterNet ns f\<rparr>)"
  "batch_ok f b \<Longrightarrow> batch_ok f (b\<lparr>db_Sys := filterSys ss f\<rparr>)"
  unfolding batch_ok_def filterCPU_def filterMem_def filterIO_def filterNet_def filterSys_def
  by (auto dest: filter_samples_shown)

lemma collect_cpu_ok: "batch_ok f (snd sb) \<Longrightarrow> batch_ok f (snd (collect_cpu env inp f sb))"
  by (cases sb) (auto simp: collect_cpu_def Let_def case_prod_beta intro: batch_ok_samples split: option.splits sum.splits)

lemma collect_mem_ok: "batch_ok f (snd sb) \<Longrightarrow> batch_ok f (snd (collect_mem env inp f sb))"
  by (cases sb) (auto simp: collect_mem_def Let_def case_prod_beta oom_event_def
      intro!: batch_ok_events batch_ok_samples split: option.splits sum.splits)

lemma collect_io_ok: "batch_ok f (snd sb) \<Longrightarrow> batch_ok f (snd (collect_io h env inp f sb))"
  by (cases sb) (auto simp: collect_io_def Let_def case_prod_beta file_event_def
      intro!: batch_ok_events batch_ok_samples split: option.splits sum.splits)

lemma collect_net_ok: "batch_ok f (snd sb) \<Longrightarrow> batch_ok f (snd (collect_net env inp f sb))"
  by (cases sb) (auto simp: collect_net_def Let_def case_prod_beta tcp_event_def
      intro!: batch_ok_events batch_ok_samples split: option.splits sum.splits)

lemma collect_sys_ok: "batch_ok f (snd sb) \<Longrightarrow> batch_ok f (snd (collect_sys h env inp f sb))"
  by (cases sb) (auto simp: collect_sys_def Let_def case_prod_beta slow_event_def in_set_enumerate_eq
      intro!: batch_ok_events batch_ok_samples split: option.splits sum.splits dest!: nth_mem)

lemma metric_cycle_ok: "batch_ok f (snd sb) \<Longrightarrow> batch_ok f (snd (metric_cycle h env inp f sb))"
  unfolding metric_cycle_def by (intro collect_sys_ok collect_net_ok collect_io_ok collect_mem_ok collect_cpu_ok)

section \<open>Merging security events\<close>

text \<open>
  The groups of the events merged so far: one event per key, with as many occurrences as
  there were events of the key, in the order of the first occurrences.
\<close>

definition groups_of :: "EventEnvelope list \<Rightarrow> (string \<times> TuiEvent) list \<Rightarrow> bool" where
  "groups_of evs g \<longleftrightarrow> distinct (map fst g) \<and> set (map fst g) = security_key ` set evs \<and>
     (\<forall>(k, e) \<in> set g. tv_Count e = int (length (filter (\<lambda>ev. security_key ev = k) evs)) \<and> tv_Kind e = EventKindSecurity \<and>
        (\<exists>ev \<in> set evs. security_key ev = k \<and> tv_Envelope e = Some ev \<and> tv_Container e = ee_ContainerName ev))"

lemma groups_of_step:
  assumes "groups_of evs g"
  shows "groups_of (evs @ [ev]) (fst (group_security ev (g, gr)))"
proof (cases "map_of g (security_key ev)")
  case None
  then have n: "security_key ev \<notin> security_key ` set evs" "security_key ev \<notin> fst ` set g"
    using assms by (auto simp: groups_of_def map_of_eq_None_iff)
  have c: "\<forall>(k, e) \<in> set g. k \<noteq> security_key ev" using n(2) by force
  have z: "filter (\<lambda>x. security_key x = security_key ev) evs = []" using n(1) by (metis (mono_tags, lifting) filter_False image_eqI)
  have "\<forall>(k, e) \<in> set g. tv_Count e = int (length (filter (\<lambda>x. security_key x = k) (evs @ [ev]))) \<and> tv_Kind e = EventKindSecurity \<and>
        (\<exists>x \<in> set (evs @ [ev]). security_key x = k \<and> tv_Envelope e = Some x \<and> tv_Container e = ee_ContainerName x)"
    using assms c unfolding groups_of_def by fastforce
  moreover have "distinct (map fst g)" "set (map fst g) = security_key ` set evs" using assms by (simp_all add: groups_of_def)
  ultimately show ?thesis using None n z by (simp add: group_security_def groups_of_def)
next
  case (Some e)
  have d: "distinct (map fst g)" and s: "set (map fst g) = security_key ` set evs" using assms by (simp_all add: groups_of_def)
  have i: "security_key ev \<in> security_key ` set evs" using map_of_SomeD [OF Some] s by (metis image_eqI fst_conv set_map)
  let ?e = "e\<lparr>tv_Count := tv_Count e + 1, tv_At := ee_Timestamp ev\<rparr>"
  have old: "tv_Count x = int (length (filter (\<lambda>y. security_key y = k) evs)) \<and> tv_Kind x = EventKindSecurity \<and>
        (\<exists>y \<in> set evs. security_key y = k \<and> tv_Envelope x = Some y \<and> tv_Container x = ee_ContainerName y)" if "(k, x) \<in> set g" for k x
    using assms that unfolding groups_of_def by blast
  have "tv_Count x = int (length (filter (\<lambda>y. security_key y = k) (evs @ [ev]))) \<and> tv_Kind x = EventKindSecurity \<and>
        (\<exists>y \<in> set (evs @ [ev]). security_key y = k \<and> tv_Envelope x = Some y \<and> tv_Container x = ee_ContainerName y)"
    if "(k, x) \<in> set (AList.update (security_key ev) ?e g)" for k x
  proof (cases "k = security_key ev")
    case True
    then have "map_of (AList.update (security_key ev) ?e g) (security_key ev) = Some x"
      using that d by (simp add: distinct_update)
    then have x: "x = ?e" by (simp add: update_conv')
    show ?thesis using old [OF map_of_SomeD [OF Some]] True x by auto
  next
    case False
    have "map_of (AList.update (security_key ev) ?e g) k = Some x" using that d by (simp add: distinct_update)
    then have "(k, x) \<in> set g" using False by (simp add: update_conv' map_of_SomeD)
    then show ?thesis using old [of k x] False by auto
  qed
  moreover have "map fst (AList.update (security_key ev) ?e g) = map fst g" using i s by (simp add: update_keys)
  ultimately show ?thesis using Some d s i by (auto simp: group_security_def groups_of_def insert_absorb)
qed

lemma group_security_groups:
  "groups_of done g \<Longrightarrow> groups_of (done @ evs) (fst (fold group_security evs (g, gr)))"
proof (induction evs arbitrary: "done" g gr)
  case (Cons ev evs)
  obtain g1 gr1 where g1: "group_security ev (g, gr) = (g1, gr1)" by fastforce
  then have "groups_of (done @ [ev]) g1" using groups_of_step [OF Cons.prems, of ev gr] by simp
  from Cons.IH [OF this, of gr1] show ?case by (simp add: g1)
qed simp

text \<open>No occurrence is lost: the counts of the groups add up to the number of events.\<close>

lemma sum_counts:
  assumes "distinct ks" "\<forall>x \<in> set xs. key x \<in> set ks"
  shows "sum_list (map (\<lambda>k. int (length (filter (\<lambda>x. key x = k) xs))) ks) = int (length xs)"
  using assms(2)
proof (induction xs)
  case (Cons x xs)
  have "sum_list (map (\<lambda>k. (if key x = k then 1 else 0)) ks) = (1::int)"
    using assms(1) Cons.prems by (simp add: sum_list_distinct_conv_sum_set)
  moreover have "sum_list (map (\<lambda>k. int (length (filter (\<lambda>y. key y = k) (x # xs)))) ks)
      = sum_list (map (\<lambda>k. (if key x = k then 1 else 0)) ks) + sum_list (map (\<lambda>k. int (length (filter (\<lambda>y. key y = k) xs))) ks)"
    by (simp only: sum_list_addf [symmetric]) (rule arg_cong [of _ _ sum_list], simp)
  ultimately show ?case using Cons by simp
qed simp

lemma groups_of_count:
  "groups_of evs g \<Longrightarrow> p \<in> set g \<Longrightarrow> tv_Count (snd p) = int (length (filter (\<lambda>ev. security_key ev = fst p) evs))"
  unfolding groups_of_def by (cases p) auto

lemma groups_of_keys:
  "groups_of evs g \<Longrightarrow> distinct (map fst g)" "groups_of evs g \<Longrightarrow> \<forall>ev \<in> set evs. security_key ev \<in> set (map fst g)"
  by (simp_all add: groups_of_def)

lemma groups_of_total:
  assumes "groups_of evs g"
  shows "sum_list (map (tv_Count \<circ> snd) g) = int (length evs)"
proof -
  have "map (tv_Count \<circ> snd) g = map (\<lambda>k. int (length (filter (\<lambda>ev. security_key ev = k) evs))) (map fst g)"
    using groups_of_count [OF assms] by simp
  then show ?thesis using sum_counts [OF groups_of_keys [OF assms]] by (simp only:)
qed

lemma collect_security_ok:
  assumes "batch_ok f (snd sb)"
  shows "batch_ok f (snd (collect_security f sb))"
proof -
  obtain s b where sb: "sb = (s, b)" by fastforce
  obtain evs s1 where d: "Writer_Drain s = (evs, s1)" by fastforce
  let ?shown = "filter (\<lambda>ev. \<not> skipped f ev) evs"
  obtain g gr where g: "fold group_security ?shown ([], ts_Graph s1) = (g, gr)" by fastforce
  have "groups_of ?shown g"
    using group_security_groups [of "[]" "[]" ?shown "ts_Graph s1"] g by (simp add: groups_of_def)
  then have "\<forall>e \<in> set (map snd g). \<not> hidden f (tv_Container e)"
    unfolding groups_of_def by (fastforce simp: skipped_def)
  then show ?thesis using assms by (auto simp: collect_security_def sb d g Let_def intro!: batch_ok_events)
qed

lemma collectReal_containers:
  assumes "collectReal h env inp f s = Some (s', b)"
  shows "batch_ok f b"
proof -
  obtain s1 b1 where m: "metric_cycle h env inp f (s, zero_batch\<lparr>db_Timestamp := in_now inp 0\<rparr>) = (s1, b1)" by fastforce
  then have "batch_ok f b1" using metric_cycle_ok [of f "(s, zero_batch\<lparr>db_Timestamp := in_now inp 0\<rparr>)"] batch_ok_zero by (metis snd_conv)
  then have "batch_ok f (snd (collect_security f (security_cycle h env inp f s1, b1)))" by (intro collect_security_ok) simp
  then show ?thesis
    using assms by (auto simp: collectReal_def m collect_finish_def Let_def case_prod_beta batch_ok_def split: option.splits)
qed

end
