(* ===== verification/Exporter.thy ===== *)
theory Exporter
  imports TuiCollect
begin

text \<open>
  The Prometheus exporter, \<open>pkg/exporter/prometheus.go\<close>. The client library is not modelled:
  an update is the list of calls it makes to the library, each with the field of the exporter
  it goes to, the label values and the number. \<open>NewPrometheusExporter\<close> gives each field its
  name, kind and label names.
\<close>

datatype Metric =
    CpuSeconds | RunqLatency | CtxSwitchesPerSec | Threads
  | MemoryRSS | MemoryLimit | MemoryVirt | MemoryPSS | MemoryShared | PageFaultsMinorPerSec | PageFaultsMajorPerSec
  | PageFaultsPerSec | PSISomePct | PSIFullPct | TLBMissRate
  | DiskReadBytesPerSec | DiskWriteBytesPerSec | DiskReadLatencyMs | DiskWriteLatencyMs
  | NetActiveFlows | NetEstablished | NetTimeWait | NetCloseWait | NetRetransmits
  | SyscallCount | SyscallFailures | SyscallLatency
  | NUMALocalPct | NUMARemotePct
  | SecurityEvents | OomKills | DnsQueries | LineageForks | ExecEvents | PrivEscalations | EscapeIndicators

datatype MetricKind = GaugeVec | CounterVec

record Family =
  mf_Name :: string
  mf_Kind :: MetricKind
  mf_Labels :: "string list"

definition base_labels :: "string list" where
  "base_labels = [''namespace'', ''pod'', ''container'']"

definition gauge :: "string \<Rightarrow> Family" where
  "gauge name = \<lparr>mf_Name = name, mf_Kind = GaugeVec, mf_Labels = base_labels\<rparr>"

definition counter :: "string \<Rightarrow> Family" where
  "counter name = \<lparr>mf_Name = name, mf_Kind = CounterVec, mf_Labels = base_labels\<rparr>"

definition with_label :: "string \<Rightarrow> Family \<Rightarrow> Family" where
  "with_label l f = f\<lparr>mf_Labels := mf_Labels f @ [l]\<rparr>"

definition NewPrometheusExporter :: "(Metric \<times> Family) list" where
  "NewPrometheusExporter =
    [(CpuSeconds, gauge ''ebpf_cpu_seconds''),
     (RunqLatency, gauge ''ebpf_runq_latency_seconds''),
     (CtxSwitchesPerSec, gauge ''ebpf_ctx_switches_per_sec''),
     (Threads, gauge ''ebpf_threads''),
     (MemoryRSS, gauge ''ebpf_memory_rss_bytes''),
     (MemoryLimit, gauge ''ebpf_memory_limit_bytes''),
     (MemoryVirt, gauge ''ebpf_memory_virt_bytes''),
     (MemoryPSS, gauge ''ebpf_memory_pss_bytes''),
     (MemoryShared, gauge ''ebpf_memory_shared_bytes''),
     (PageFaultsPerSec, gauge ''ebpf_page_faults_per_sec''),
     (PageFaultsMinorPerSec, gauge ''ebpf_page_faults_minor_per_sec''),
     (PageFaultsMajorPerSec, gauge ''ebpf_page_faults_major_per_sec''),
     (PSISomePct, gauge ''ebpf_memory_psi_some_pct''),
     (PSIFullPct, gauge ''ebpf_memory_psi_full_pct''),
     (TLBMissRate, gauge ''ebpf_tlb_miss_rate''),
     (DiskReadBytesPerSec, gauge ''ebpf_disk_read_bytes_per_sec''),
     (DiskWriteBytesPerSec, gauge ''ebpf_disk_write_bytes_per_sec''),
     (DiskReadLatencyMs, gauge ''ebpf_disk_read_latency_ms''),
     (DiskWriteLatencyMs, gauge ''ebpf_disk_write_latency_ms''),
     (NetActiveFlows, gauge ''ebpf_net_active_flows''),
     (NetEstablished, gauge ''ebpf_net_established''),
     (NetTimeWait, gauge ''ebpf_net_time_wait''),
     (NetCloseWait, gauge ''ebpf_net_close_wait''),
     (NetRetransmits, gauge ''ebpf_net_retransmits_total''),
     (SyscallCount, with_label ''syscall'' (gauge ''ebpf_syscall_count'')),
     (SyscallFailures, with_label ''syscall'' (gauge ''ebpf_syscall_failures'')),
     (SyscallLatency, with_label ''syscall'' (gauge ''ebpf_syscall_latency_ms'')),
     (SecurityEvents, with_label ''type'' (counter ''ebpf_security_events_total'')),
     (NUMALocalPct, gauge ''ebpf_numa_local_pct''),
     (NUMARemotePct, gauge ''ebpf_numa_remote_pct''),
     (OomKills, counter ''ebpf_oom_kills_total''),
     (DnsQueries, with_label ''query_type'' (counter ''ebpf_dns_queries_total'')),
     (LineageForks, counter ''ebpf_lineage_forks_total''),
     (ExecEvents, counter ''ebpf_exec_events_total''),
     (PrivEscalations, counter ''ebpf_privilege_escalations_total''),
     (EscapeIndicators, counter ''ebpf_escape_indicators_total'')]"

section \<open>Updates\<close>

datatype MetricCall = GaugeSet Metric "string list" f64 | CounterInc Metric "string list"

definition splitK8sLabels :: "string \<Rightarrow> string \<times> string \<times> string" where
  "splitK8sLabels containerName =
     (case split_on CHR ''/'' containerName of
        [p0, p1, p2] \<Rightarrow> (p0, p1, p2)
      | _ \<Rightarrow> ([], [], containerName))"

definition WithLabels :: "string \<Rightarrow> string list" where
  "WithLabels name = (let (ns, pod, container) = splitK8sLabels name in [ns, pod, container])"

definition UpdateCPU :: "CpuSample list \<Rightarrow> MetricCall list" where
  "UpdateCPU samples = concat (map (\<lambda>s. let ls = WithLabels (cm_ContainerName s) in
     [GaugeSet CpuSeconds ls (cm_CPUSeconds s), GaugeSet RunqLatency ls (cm_RunqLatencySeconds s),
      GaugeSet CtxSwitchesPerSec ls (cm_CtxSwitchesPerSec s), GaugeSet Threads ls (u2f (cm_ThreadCount s)),
      GaugeSet NUMALocalPct ls (cm_NUMALocalPct s), GaugeSet NUMARemotePct ls (cm_NUMARemotePct s)]) samples)"

definition UpdateMemory :: "MemSample list \<Rightarrow> MetricCall list" where
  "UpdateMemory samples = concat (map (\<lambda>s. let ls = WithLabels (ms_ContainerName s) in
     [GaugeSet MemoryRSS ls (u2f (ms_MemoryBytes s)), GaugeSet MemoryLimit ls (u2f (ms_MemoryLimitBytes s)),
      GaugeSet PageFaultsPerSec ls (ms_FaultsPerSec s), GaugeSet PageFaultsMinorPerSec ls (ms_MinorPerSec s),
      GaugeSet PageFaultsMajorPerSec ls (ms_MajorPerSec s), GaugeSet PSISomePct ls (ms_PSISome s),
      GaugeSet PSIFullPct ls (ms_PSIFull s), GaugeSet TLBMissRate ls (ms_TLBMissRate s)]
     @ (if ms_VirtBytes s > 0 then [GaugeSet MemoryVirt ls (u2f (ms_VirtBytes s))] else [])
     @ (if ms_PSSBytes s > 0 then [GaugeSet MemoryPSS ls (u2f (ms_PSSBytes s))] else [])
     @ (if ms_SharedBytes s > 0 then [GaugeSet MemoryShared ls (u2f (ms_SharedBytes s))] else [])) samples)"

definition UpdateIO :: "IoSample list \<Rightarrow> MetricCall list" where
  "UpdateIO samples = concat (map (\<lambda>s. let ls = WithLabels (is_ContainerName s) in
     [GaugeSet DiskReadBytesPerSec ls (is_ReadBytesPerSec s), GaugeSet DiskWriteBytesPerSec ls (is_WriteBytesPerSec s),
      GaugeSet DiskReadLatencyMs ls (is_AvgReadLatencyMs s), GaugeSet DiskWriteLatencyMs ls (is_AvgWriteLatencyMs s)]) samples)"

definition UpdateNetwork :: "NetSummary list \<Rightarrow> MetricCall list" where
  "UpdateNetwork samples = concat (map (\<lambda>s. let ls = WithLabels (nm_ContainerName s) in
     [GaugeSet NetActiveFlows ls (f64_of_int (int (nm_ActiveFlows s))), GaugeSet NetEstablished ls (f64_of_int (int (nm_Established s))),
      GaugeSet NetTimeWait ls (f64_of_int (int (nm_TimeWait s))), GaugeSet NetCloseWait ls (f64_of_int (int (nm_CloseWait s))),
      GaugeSet NetRetransmits ls (u2f (nm_TotalRetransmits s))]) samples)"

definition UpdateSyscalls :: "SyscallSummary list \<Rightarrow> MetricCall list" where
  "UpdateSyscalls samples = concat (map (\<lambda>s. let ls = WithLabels (su_ContainerName s) @ [su_SyscallName s] in
     [GaugeSet SyscallCount ls (u2f (su_Count s)), GaugeSet SyscallFailures ls (u2f (su_Failures s)),
      GaugeSet SyscallLatency ls (su_AvgLatencyMs s)]) samples)"

definition UpdateOOM :: "string \<Rightarrow> MetricCall list" where
  "UpdateOOM containerName = [CounterInc OomKills (WithLabels containerName)]"

section \<open>Security events\<close>

record PrometheusSecurityEventWriter =
  pw_Inner :: bool
  pw_ContainersOnly :: bool

definition Exporter_isContainer :: "string \<Rightarrow> bool" where
  "Exporter_isContainer name \<longleftrightarrow>
     HasPrefix name ''docker:'' \<or> HasPrefix name ''cri:'' \<or> HasPrefix name ''k8s:'' \<or> count_list name CHR ''/'' = 2"

definition query_type :: "EventEnvelope \<Rightarrow> string" where
  "query_type ev = (case map_of (ee_Metadata ev) ''query_type'' of Some (AnyString qt) \<Rightarrow> qt | _ \<Rightarrow> [])"

definition specific_counter :: "EventEnvelope \<Rightarrow> string list \<Rightarrow> MetricCall list" where
  "specific_counter ev ls =
     (if ee_EventType ev = EventTypeFork then [CounterInc LineageForks ls]
      else if ee_EventType ev = EventTypeExec then [CounterInc ExecEvents ls]
      else if ee_EventType ev = EventTypeDNSQuery then [CounterInc DnsQueries (ls @ [query_type ev])]
      else if ee_EventType ev = EventTypePrivEsc then [CounterInc PrivEscalations ls]
      else if ee_EventType ev = EventTypeEscapeIndicator then [CounterInc EscapeIndicators ls]
      else [])"

text \<open>The calls, and the events the inner writer gets.\<close>

definition Prom_Write :: "PrometheusSecurityEventWriter \<Rightarrow> EventEnvelope \<Rightarrow> MetricCall list \<times> EventEnvelope list" where
  "Prom_Write w ev =
     (let inner = (if pw_Inner w then [ev] else [])
      in if pw_ContainersOnly w \<and> \<not> Exporter_isContainer (ee_ContainerName ev) then ([], inner)
         else let ls = WithLabels (ee_ContainerName ev)
              in (CounterInc SecurityEvents (ls @ [ee_EventType ev]) # specific_counter ev ls, inner))"

section \<open>Every call fits a registered metric\<close>

fun call_fits :: "MetricCall \<Rightarrow> bool" where
  "call_fits (GaugeSet m ls x) =
     (case map_of NewPrometheusExporter m of None \<Rightarrow> False | Some f \<Rightarrow> mf_Kind f = GaugeVec \<and> length ls = length (mf_Labels f))"
| "call_fits (CounterInc m ls) =
     (case map_of NewPrometheusExporter m of None \<Rightarrow> False | Some f \<Rightarrow> mf_Kind f = CounterVec \<and> length ls = length (mf_Labels f))"

lemma WithLabels_length [simp]: "length (WithLabels name) = length base_labels"
  by (simp add: WithLabels_def base_labels_def split: prod.splits)

lemma families_distinct: "distinct (map (mf_Name \<circ> snd) NewPrometheusExporter)" "distinct (map fst NewPrometheusExporter)"
  by (simp_all add: NewPrometheusExporter_def gauge_def counter_def with_label_def)

lemma families_complete: "map_of NewPrometheusExporter m \<noteq> None"
  by (cases m) (simp_all add: NewPrometheusExporter_def)

lemma calls_fit:
  "\<forall>c \<in> set (UpdateCPU cs). call_fits c" "\<forall>c \<in> set (UpdateMemory ms). call_fits c" "\<forall>c \<in> set (UpdateIO is). call_fits c"
  "\<forall>c \<in> set (UpdateNetwork ns). call_fits c" "\<forall>c \<in> set (UpdateSyscalls ss). call_fits c" "\<forall>c \<in> set (UpdateOOM name). call_fits c"
  by (auto simp: UpdateCPU_def UpdateMemory_def UpdateIO_def UpdateNetwork_def UpdateSyscalls_def UpdateOOM_def Let_def
      NewPrometheusExporter_def gauge_def counter_def with_label_def)

lemma Prom_Write_fits: "\<forall>c \<in> set (fst (Prom_Write w ev)). call_fits c"
  by (auto simp: Prom_Write_def specific_counter_def Let_def NewPrometheusExporter_def gauge_def counter_def with_label_def)

section \<open>What a scrape shows\<close>

text \<open>The value of a gauge is the one of the last call for its labels.\<close>

fun last_set :: "Metric \<Rightarrow> string list \<Rightarrow> MetricCall list \<Rightarrow> f64 option" where
  "last_set m ls [] = None"
| "last_set m ls (c # cs) =
     (case last_set m ls cs of
        Some x \<Rightarrow> Some x
      | None \<Rightarrow> (case c of GaugeSet m' ls' x \<Rightarrow> if m' = m \<and> ls' = ls then Some x else None | CounterInc m' ls' \<Rightarrow> None))"

lemma last_set_append:
  "last_set m ls (cs @ ds) = (case last_set m ls ds of Some x \<Rightarrow> Some x | None \<Rightarrow> last_set m ls cs)"
  by (induction cs) (auto split: option.splits)

lemma last_set_samples:
  assumes "\<And>s ls. last_set m ls (f s) = (if ls = key s then Some (v s) else None)" "distinct (map key ss)" "s \<in> set ss"
  shows "last_set m (key s) (concat (map f ss)) = Some (v s)"
  using assms(2,3)
proof (induction ss)
  case (Cons x ss)
  have absent: "k \<notin> key ` set ss \<Longrightarrow> last_set m k (concat (map f ss)) = None" for k
    by (induction ss) (auto simp: last_set_append assms(1))
  show ?case
  proof (cases "s = x")
    case True
    then show ?thesis using Cons.prems absent [of "key x"] by (simp add: last_set_append assms(1))
  next
    case False
    then show ?thesis using Cons by (simp add: last_set_append)
  qed
qed simp

lemma UpdateCPU_shown:
  assumes "distinct (map (WithLabels \<circ> cm_ContainerName) ss)" "s \<in> set ss"
  shows "last_set CpuSeconds (WithLabels (cm_ContainerName s)) (UpdateCPU ss) = Some (cm_CPUSeconds s)"
  using last_set_samples [of CpuSeconds _ "WithLabels \<circ> cm_ContainerName" cm_CPUSeconds ss s] assms
  unfolding UpdateCPU_def by (simp add: Let_def)

text \<open>Two names share their labels only if one is the other behind two slashes.\<close>

lemma split_on_ne [simp]: "split_on c s \<noteq> []"
  by (cases s) (auto split: list.splits)

lemma split_on_join: "join_with c (split_on c s) = s"
proof (induction s)
  case (Cons x s)
  then show ?case by (cases "split_on c s"; cases "tl (split_on c s)") auto
qed simp

lemma WithLabels_inj:
  assumes "WithLabels a = WithLabels b"
  shows "a = b \<or> a = ''//'' @ b \<or> b = ''//'' @ a"
proof -
  have w: "WithLabels n = [[], [], n] \<or> (\<exists>x y z. WithLabels n = [x, y, z] \<and> n = x @ ''/'' @ y @ ''/'' @ z)" for n
  proof (cases "\<exists>x y z. split_on CHR ''/'' n = [x, y, z]")
    case True
    then obtain x y z where s: "split_on CHR ''/'' n = [x, y, z]" by blast
    then have "n = join_with CHR ''/'' [x, y, z]" using split_on_join by metis
    then show ?thesis using s by (simp add: WithLabels_def splitK8sLabels_def)
  next
    case False
    then have "WithLabels n = [[], [], n]" by (auto simp: WithLabels_def splitK8sLabels_def split: list.splits)
    then show ?thesis by blast
  qed
  show ?thesis using w [of a] w [of b] assms by auto
qed

section \<open>Events and counters\<close>

definition Prom_Writes :: "PrometheusSecurityEventWriter \<Rightarrow> EventEnvelope list \<Rightarrow> MetricCall list" where
  "Prom_Writes w evs = concat (map (fst \<circ> Prom_Write w) evs)"

lemma Prom_Writes_Cons: "Prom_Writes w (ev # evs) = fst (Prom_Write w ev) @ Prom_Writes w evs"
  by (simp add: Prom_Writes_def)

lemma event_types_differ:
  "EventTypeFork \<noteq> EventTypeExec" "EventTypeFork \<noteq> EventTypeDNSQuery" "EventTypeFork \<noteq> EventTypePrivEsc" "EventTypeFork \<noteq> EventTypeEscapeIndicator"
  "EventTypeExec \<noteq> EventTypeDNSQuery" "EventTypeExec \<noteq> EventTypePrivEsc" "EventTypeExec \<noteq> EventTypeEscapeIndicator"
  "EventTypeDNSQuery \<noteq> EventTypePrivEsc" "EventTypeDNSQuery \<noteq> EventTypeEscapeIndicator" "EventTypePrivEsc \<noteq> EventTypeEscapeIndicator"
  by (simp_all add: EventTypeFork_def EventTypeExec_def EventTypeDNSQuery_def EventTypePrivEsc_def EventTypeEscapeIndicator_def)

lemma security_counted:
  "count_list (Prom_Writes w evs) (CounterInc SecurityEvents (ls @ [t]))
   = length (filter (\<lambda>ev. (pw_ContainersOnly w \<longrightarrow> Exporter_isContainer (ee_ContainerName ev)) \<and> ee_EventType ev = t
       \<and> WithLabels (ee_ContainerName ev) = ls) evs)"
  by (induction evs) (auto simp: Prom_Writes_Cons Prom_Writes_def [of w "[]"] Prom_Write_def specific_counter_def Let_def)

lemma specific_agree:
  "(t, m) \<in> {(EventTypeFork, LineageForks), (EventTypeExec, ExecEvents), (EventTypePrivEsc, PrivEscalations),
      (EventTypeEscapeIndicator, EscapeIndicators)} \<Longrightarrow>
   count_list (Prom_Writes w evs) (CounterInc m ls) = count_list (Prom_Writes w evs) (CounterInc SecurityEvents (ls @ [t]))"
  by (induction evs) (auto simp: Prom_Writes_Cons Prom_Writes_def [of w "[]"] Prom_Write_def specific_counter_def Let_def
      event_types_differ event_types_differ [symmetric])

lemma inner_gets_all: "concat (map (snd \<circ> Prom_Write w) evs) = (if pw_Inner w then evs else [])"
  by (induction evs) (auto simp: Prom_Write_def Let_def)

end
