(* ===== verification/GoUtf8.thy ===== *)
theory GoUtf8
  imports GoFmt
begin

text \<open>
  Strings as runes: the conversion \<open>[]rune(s)\<close> of a Go string, which reads UTF-8 and puts
  U+FFFD for every byte that starts no valid encoding. A rune is kept as the bytes that
  encode it, so that \<open>string(rs)\<close> is the concatenation.
\<close>

definition byte_of :: "char \<Rightarrow> nat" where
  "byte_of c = of_char c"

definition in_range :: "nat \<Rightarrow> nat \<Rightarrow> char \<Rightarrow> bool" where
  "in_range lo hi c \<longleftrightarrow> lo \<le> byte_of c \<and> byte_of c \<le> hi"

text \<open>
  The ranges of the bytes that must follow a leading byte, \<open>None\<close> for a byte that starts no
  encoding; they exclude overlong forms, surrogates and values beyond U+10FFFF.
\<close>

definition tail_ranges :: "nat \<Rightarrow> (nat \<times> nat) list option" where
  "tail_ranges a =
     (if a < 0x80 then Some []
      else if 0xC2 \<le> a \<and> a \<le> 0xDF then Some [(0x80, 0xBF)]
      else if 0xE0 \<le> a \<and> a \<le> 0xEF
           then Some [(if a = 0xE0 then 0xA0 else 0x80, if a = 0xED then 0x9F else 0xBF), (0x80, 0xBF)]
      else if 0xF0 \<le> a \<and> a \<le> 0xF4
           then Some [(if a = 0xF0 then 0x90 else 0x80, if a = 0xF4 then 0x8F else 0xBF), (0x80, 0xBF), (0x80, 0xBF)]
      else None)"

text \<open>The length of the encoding a string starts with, zero when there is none.\<close>

definition rune_len :: "string \<Rightarrow> nat" where
  "rune_len s = (case s of
     [] \<Rightarrow> 0
   | a # t \<Rightarrow>
      (case tail_ranges (byte_of a) of
         None \<Rightarrow> 0
       | Some rs \<Rightarrow>
          if length rs \<le> length t \<and> list_all2 (\<lambda>(lo, hi) c. in_range lo hi c) rs (take (length rs) t)
          then Suc (length rs) else 0))"

definition rune_error :: string where
  "rune_error = [char_of (0xEF::nat), char_of (0xBF::nat), char_of (0xBD::nat)]"

function runes :: "string \<Rightarrow> string list" where
  "runes [] = []"
| "runes (a # t) =
     (let n = rune_len (a # t)
      in if n = 0 then rune_error # runes t else take n (a # t) # runes (drop n (a # t)))"
  by pat_completeness auto
termination by (relation "measure length") auto

definition valid_rune :: "string \<Rightarrow> bool" where
  "valid_rune r \<longleftrightarrow> r \<noteq> [] \<and> rune_len r = length r"

text \<open>U+2026, the ellipsis the display code ends shortened text with.\<close>

definition ellipsis :: string where
  "ellipsis = [char_of (0xE2::nat), char_of (0x80::nat), char_of (0xA6::nat)]"

section \<open>Encodings are read back\<close>

lemma rune_len_prefix:
  assumes "rune_len s = n" "0 < n"
  shows "n \<le> length s \<and> rune_len (take n s) = n"
proof (cases s)
  case (Cons a t)
  then show ?thesis using assms by (auto simp: rune_len_def split: option.splits if_splits)
qed (use assms in \<open>simp add: rune_len_def\<close>)

lemma rune_len_append: "r \<noteq> [] \<Longrightarrow> rune_len r = length r \<Longrightarrow> rune_len (r @ s) = length r"
  by (cases r) (auto simp: rune_len_def split: option.splits if_splits)

lemma runes_append: "valid_rune r \<Longrightarrow> runes (r @ s) = r # runes s"
  using rune_len_append [of r s] by (cases r) (auto simp: valid_rune_def)

lemma runes_concat: "\<forall>r \<in> set rs. valid_rune r \<Longrightarrow> runes (concat rs) = rs"
  by (induction rs) (simp_all add: runes_append)

lemma valid_rune_error: "valid_rune rune_error" and valid_rune_ellipsis: "valid_rune ellipsis"
  by code_simp+

lemma runes_valid: "\<forall>r \<in> set (runes s). valid_rune r"
proof (induction s rule: runes.induct)
  case (2 a t)
  show ?case
  proof (cases "rune_len (a # t) = 0")
    case True
    then show ?thesis using 2(1) [OF refl True] by (simp add: valid_rune_error)
  next
    case False
    then have "valid_rune (take (rune_len (a # t)) (a # t))"
      using rune_len_prefix [OF refl, of "a # t"] by (simp only: valid_rune_def length_take min_absorb2) force
    then show ?thesis using 2(2) [OF refl False] False by (simp only: runes.simps Let_def if_False set_simps) blast
  qed
qed simp

lemma runes_idem: "runes (concat (runes s)) = runes s"
  by (rule runes_concat [OF runes_valid])

lemma valid_rune_ascii: "byte_of c < 0x80 \<Longrightarrow> valid_rune [c]"
  by (simp add: valid_rune_def rune_len_def tail_ranges_def)

lemma runes_ascii: "\<forall>c \<in> set s. byte_of c < 0x80 \<Longrightarrow> runes s = map (\<lambda>c. [c]) s"
  by (induction s) (simp_all add: rune_len_def tail_ranges_def Let_def)

lemma runes_replicate: "byte_of c < 0x80 \<Longrightarrow> runes (replicate n c) = replicate n [c]"
  by (simp add: runes_ascii)

lemma runes_append_ascii_right:
  assumes "\<forall>r \<in> set rs. valid_rune r" "byte_of c < 0x80"
  shows "runes (concat rs @ replicate n c) = rs @ replicate n [c]" "runes (replicate n c @ concat rs) = replicate n [c] @ rs"
proof -
  have c: "concat (replicate n [c]) = replicate n c" by (induction n) simp_all
  have v: "\<forall>r \<in> set (rs @ replicate n [c]). valid_rune r" "\<forall>r \<in> set (replicate n [c] @ rs). valid_rune r"
    using assms(1) valid_rune_ascii [OF assms(2)] by auto
  from runes_concat [OF v(1)] show "runes (concat rs @ replicate n c) = rs @ replicate n [c]" by (simp add: c)
  from runes_concat [OF v(2)] show "runes (replicate n c @ concat rs) = replicate n [c] @ rs" by (simp add: c)
qed

end
