(* ===== verification/TuiTable.thy ===== *)
theory TuiTable
  imports GoUtf8 "HOL-Library.Monad_Syntax" "HOL-Library.Multiset"
begin

text \<open>
  The table widget of \<open>internal/tui/widgets/table\<close>: rows, the indices of the visible ones
  after filtering and sorting, cursor, scroll offset and sort column. Go's \<open>int\<close> values are
  integers; \<open>None\<close> is a run-time panic. A theme is known by its name, and the styles it gives
  to text are left symbolic.
\<close>

type_synonym Theme = string

record 'r Column =
  col_Title :: string
  col_Width :: int
  col_Sortable :: bool
  col_SortLess :: "'r \<Rightarrow> 'r \<Rightarrow> bool"
  col_Format :: "('r \<Rightarrow> int \<Rightarrow> string) option"
  col_Align :: string

record 'r TableModel =
  tb_columns :: "'r Column list"
  tb_rows :: "'r list"
  tb_visible :: "nat list"
  tb_cursor :: int
  tb_offset :: int
  tb_sortCol :: int
  tb_sortAsc :: bool
  tb_filter :: string
  tb_filterFn :: "('r \<Rightarrow> string \<Rightarrow> bool) option"
  tb_width :: int
  tb_height :: int
  tb_focused :: bool
  tb_theme :: Theme

definition Table_New :: "'r Column list \<Rightarrow> Theme \<Rightarrow> 'r TableModel" where
  "Table_New cols th = \<lparr>tb_columns = cols, tb_rows = [], tb_visible = [], tb_cursor = 0, tb_offset = 0, tb_sortCol = -1,
     tb_sortAsc = True, tb_filter = [], tb_filterFn = None, tb_width = 0, tb_height = 0, tb_focused = False, tb_theme = th\<rparr>"

section \<open>Sorting\<close>

text \<open>The inner loop moves the entry at position \<open>j\<close> to the left as long as it must be swapped.\<close>

fun sift_left :: "(nat \<Rightarrow> nat \<Rightarrow> bool) \<Rightarrow> nat \<Rightarrow> nat list \<Rightarrow> nat list" where
  "sift_left swap 0 xs = xs"
| "sift_left swap (Suc j) xs =
     (if swap (xs ! j) (xs ! Suc j) then sift_left swap j (xs[j := xs ! Suc j, Suc j := xs ! j]) else xs)"

definition row_swap :: "'r list \<Rightarrow> ('r \<Rightarrow> 'r \<Rightarrow> bool) \<Rightarrow> bool \<Rightarrow> nat \<Rightarrow> nat \<Rightarrow> bool" where
  "row_swap rows lt asc a b = (if asc then lt (rows ! b) (rows ! a) else lt (rows ! a) (rows ! b))"

definition sortRows :: "'r list \<Rightarrow> nat list \<Rightarrow> ('r \<Rightarrow> 'r \<Rightarrow> bool) \<Rightarrow> bool \<Rightarrow> nat list" where
  "sortRows rows indices lt asc = fold (sift_left (row_swap rows lt asc)) [1..<length indices] indices"

definition row_passes :: "'r TableModel \<Rightarrow> 'r \<Rightarrow> bool" where
  "row_passes m r = (tb_filter m = [] \<or> (case tb_filterFn m of None \<Rightarrow> True | Some fn \<Rightarrow> fn r (tb_filter m)))"

definition passing :: "'r TableModel \<Rightarrow> nat list" where
  "passing m = filter (\<lambda>i. row_passes m (tb_rows m ! i)) [0..<length (tb_rows m)]"

definition reindex :: "'r TableModel \<Rightarrow> 'r TableModel" where
  "reindex m =
     (let vis = passing m;
          c = tb_sortCol m
      in m\<lparr>tb_visible :=
           if 0 \<le> c \<and> c < int (length (tb_columns m)) \<and> col_Sortable (tb_columns m ! nat c)
           then sortRows (tb_rows m) vis (col_SortLess (tb_columns m ! nat c)) (tb_sortAsc m) else vis\<rparr>)"

section \<open>Data\<close>

definition SetRows :: "'r list \<Rightarrow> 'r TableModel \<Rightarrow> 'r TableModel" where
  "SetRows rows m =
     (let m1 = reindex (m\<lparr>tb_rows := rows\<rparr>)
      in if tb_cursor m1 \<ge> int (length (tb_visible m1))
         then m1\<lparr>tb_cursor := max 0 (int (length (tb_visible m1)) - 1)\<rparr> else m1)"

definition SetFilter :: "string \<Rightarrow> ('r \<Rightarrow> string \<Rightarrow> bool) option \<Rightarrow> 'r TableModel \<Rightarrow> 'r TableModel" where
  "SetFilter q fn m = reindex (m\<lparr>tb_filter := q, tb_filterFn := fn, tb_cursor := 0, tb_offset := 0\<rparr>)"

definition Table_SetSize :: "int \<Rightarrow> int \<Rightarrow> 'r TableModel \<Rightarrow> 'r TableModel" where
  "Table_SetSize w h m = m\<lparr>tb_width := w, tb_height := h\<rparr>"

definition Table_SetTheme :: "Theme \<Rightarrow> 'r TableModel \<Rightarrow> 'r TableModel" where
  "Table_SetTheme th m = m\<lparr>tb_theme := th\<rparr>"

definition Table_Focus :: "'r TableModel \<Rightarrow> 'r TableModel" where "Table_Focus m = m\<lparr>tb_focused := True\<rparr>"
definition Table_Blur :: "'r TableModel \<Rightarrow> 'r TableModel" where "Table_Blur m = m\<lparr>tb_focused := False\<rparr>"

text \<open>Indexing panics out of range; a nil row is the inner \<open>None\<close>.\<close>

definition at_int :: "'a list \<Rightarrow> int \<Rightarrow> 'a option" where
  "at_int xs i = (if 0 \<le> i \<and> i < int (length xs) then Some (xs ! nat i) else None)"

definition SelectedRow :: "'r TableModel \<Rightarrow> 'r option option" where
  "SelectedRow m =
     (if tb_visible m = [] then Some None
      else case at_int (tb_visible m) (tb_cursor m) of
             None \<Rightarrow> None
           | Some i \<Rightarrow> (case at_int (tb_rows m) (int i) of None \<Rightarrow> None | Some r \<Rightarrow> Some (Some r)))"

section \<open>Movement\<close>

definition bodyH :: "'r TableModel \<Rightarrow> int" where
  "bodyH m = (if tb_height m - 2 < 1 then 1 else tb_height m - 2)"

definition scrollToCursor :: "'r TableModel \<Rightarrow> 'r TableModel" where
  "scrollToCursor m =
     (let bh = bodyH m;
          m1 = (if tb_cursor m < tb_offset m then m\<lparr>tb_offset := tb_cursor m\<rparr> else m)
      in if tb_cursor m1 \<ge> tb_offset m1 + bh then m1\<lparr>tb_offset := tb_cursor m1 - bh + 1\<rparr> else m1)"

definition moveUp :: "int \<Rightarrow> 'r TableModel \<Rightarrow> 'r TableModel" where
  "moveUp n m = scrollToCursor (m\<lparr>tb_cursor := (if tb_cursor m - n < 0 then 0 else tb_cursor m - n)\<rparr>)"

definition moveDown :: "int \<Rightarrow> 'r TableModel \<Rightarrow> 'r TableModel" where
  "moveDown n m = scrollToCursor (m\<lparr>tb_cursor :=
     (if tb_cursor m + n \<ge> int (length (tb_visible m)) then max 0 (int (length (tb_visible m)) - 1) else tb_cursor m + n)\<rparr>)"

fun cycle_loop :: "bool \<Rightarrow> 'r TableModel \<Rightarrow> int list \<Rightarrow> 'r TableModel option" where
  "cycle_loop nextCol m [] = Some m"
| "cycle_loop nextCol m (i # is) =
     (if \<not> nextCol \<and> tb_sortAsc m then Some (reindex (m\<lparr>tb_sortAsc := False\<rparr>))
      else let idx = (if nextCol then (tb_sortCol m + 1 + i) mod int (length (tb_columns m)) else tb_sortCol m + 1)
           in case at_int (tb_columns m) idx of
                None \<Rightarrow> None
              | Some col \<Rightarrow>
                  if col_Sortable col then Some (reindex (m\<lparr>tb_sortCol := idx, tb_sortAsc := True\<rparr>))
                  else cycle_loop nextCol m is)"

definition cycleSort :: "bool \<Rightarrow> 'r TableModel \<Rightarrow> 'r TableModel option" where
  "cycleSort nextCol m = cycle_loop nextCol m (map int [0..<length (tb_columns m)])"

definition key_Up :: "string list" where "key_Up = [''up'', ''k'']"
definition key_Down :: "string list" where "key_Down = [''down'', ''j'']"
definition key_PageUp :: "string list" where "key_PageUp = [''pgup'', ''ctrl+u'']"
definition key_PageDown :: "string list" where "key_PageDown = [''pgdown'', ''ctrl+d'']"
definition key_Top :: "string list" where "key_Top = [''g'']"
definition key_Bottom :: "string list" where "key_Bottom = [''G'']"
definition key_SortNext :: "string list" where "key_SortNext = [''s'']"
definition key_SortPrev :: "string list" where "key_SortPrev = [''S'']"

definition key_Matches :: "string \<Rightarrow> string list \<Rightarrow> bool" where
  "key_Matches k b \<longleftrightarrow> k \<in> set b"

definition Table_Update :: "string \<Rightarrow> 'r TableModel \<Rightarrow> 'r TableModel option" where
  "Table_Update k m =
     (if \<not> tb_focused m then Some m
      else if key_Matches k key_Up then Some (moveUp 1 m)
      else if key_Matches k key_Down then Some (moveDown 1 m)
      else if key_Matches k key_PageUp then Some (moveUp (bodyH m) m)
      else if key_Matches k key_PageDown then Some (moveDown (bodyH m) m)
      else if key_Matches k key_Top then Some (m\<lparr>tb_cursor := 0, tb_offset := 0\<rparr>)
      else if key_Matches k key_Bottom
           then Some (scrollToCursor (m\<lparr>tb_cursor := max 0 (int (length (tb_visible m)) - 1)\<rparr>))
      else if key_Matches k key_SortNext then cycleSort True m
      else if key_Matches k key_SortPrev then cycleSort False m
      else Some m)"

section \<open>Rendering\<close>

datatype table_style = HeaderStyle | SeparatorStyle | SelectedStyle | AltRowStyle | RowStyle | DimStyle | PlainStyle

definition Repeat :: "string \<Rightarrow> int \<Rightarrow> string option" where
  "Repeat s n = (if n < 0 then None else Some (concat (replicate (nat n) s)))"

definition padOrTrunc :: "string \<Rightarrow> int \<Rightarrow> string \<Rightarrow> string option" where
  "padOrTrunc s w align =
     (let rs = runes s
      in if int (length rs) > w
         then (if w > 1 then Some (concat (take (nat (w - 1)) rs) @ ellipsis)
               else if w < 0 then None else Some (concat (take (nat w) rs)))
         else let pad = replicate (nat (w - int (length rs))) CHR '' ''
              in Some (if align = ''right'' then pad @ s else s @ pad))"

definition arrow_up :: string where "arrow_up = CHR '' '' # [char_of (0xE2::nat), char_of (0x96::nat), char_of (0xB2::nat)]"
definition arrow_down :: string where "arrow_down = CHR '' '' # [char_of (0xE2::nat), char_of (0x96::nat), char_of (0xBC::nat)]"
definition hline :: string where "hline = [char_of (0xE2::nat), char_of (0x94::nat), char_of (0x80::nat)]"

definition renderHeader :: "'r TableModel \<Rightarrow> string option" where
  "renderHeader m = map_option (join_with CHR '' '') (those (map (\<lambda>(i, col).
     padOrTrunc (col_Title col @ (if int i = tb_sortCol m then (if tb_sortAsc m then arrow_up else arrow_down) else []))
       (col_Width col) (col_Align col)) (enumerate 0 (tb_columns m))))"

definition renderRow :: "'r TableModel \<Rightarrow> 'r \<Rightarrow> string option" where
  "renderRow m r = map_option (join_with CHR '' '') (those (map (\<lambda>(i, col).
     padOrTrunc (case col_Format col of Some f \<Rightarrow> f r (int i) | None \<Rightarrow> []) (col_Width col) (col_Align col))
       (enumerate 0 (tb_columns m))))"

text \<open>The lines of a view with their styles; every line but the scroll indicator ends with a newline.\<close>

definition body_line :: "'r TableModel \<Rightarrow> int \<Rightarrow> (table_style \<times> string) option" where
  "body_line m i =
     do { k \<leftarrow> at_int (tb_visible m) i; r \<leftarrow> at_int (tb_rows m) (int k); line \<leftarrow> renderRow m r;
          Some (if i = tb_cursor m \<and> tb_focused m then SelectedStyle
                else if (i - tb_offset m) mod 2 = 1 then AltRowStyle else RowStyle, line) }"

definition body_end :: "'r TableModel \<Rightarrow> int" where
  "body_end m = (if tb_offset m + bodyH m > int (length (tb_visible m)) then int (length (tb_visible m)) else tb_offset m + bodyH m)"

definition scroll_indicator :: "'r TableModel \<Rightarrow> (table_style \<times> string) list option" where
  "scroll_indicator m =
     (let n = int (length (tb_visible m))
      in if n > bodyH m
         then do { l \<leftarrow> Repeat hline (tb_width m - 8);
                   Some [(DimStyle, l @ '' '' @ show_int (if n > 0 then tb_cursor m * 100 div n else 0) @ ''% '')] }
         else Some [])"

definition Table_View :: "'r TableModel \<Rightarrow> (table_style \<times> string) list option" where
  "Table_View m =
     (if tb_width m = 0 then Some []
      else do { hdr \<leftarrow> renderHeader m;
                sep \<leftarrow> Repeat hline (tb_width m);
                ls \<leftarrow> those (map (body_line m) [tb_offset m..body_end m - 1]);
                blank \<leftarrow> Repeat '' '' (tb_width m);
                ind \<leftarrow> scroll_indicator m;
                Some ([(HeaderStyle, hdr), (SeparatorStyle, sep)] @ ls
                  @ replicate (nat (bodyH m - (body_end m - tb_offset m))) (PlainStyle, blank) @ ind) })"

section \<open>The insertion sort is stable\<close>

fun insert_right :: "(nat \<Rightarrow> nat \<Rightarrow> bool) \<Rightarrow> nat \<Rightarrow> nat list \<Rightarrow> nat list" where
  "insert_right swap x [] = [x]"
| "insert_right swap x (y # ys) = (if swap y x then y # insert_right swap x ys else x # y # ys)"

lemma sift_left_insert: "sift_left swap (length p) (p @ x # s) = rev (insert_right swap x (rev p)) @ s"
proof (induction p arbitrary: s rule: rev_induct)
  case (snoc y q)
  have "(q @ y # x # s)[length q := x, Suc (length q) := y] = q @ x # y # s"
    by (simp add: list_update_append)
  then show ?case using snoc [of "y # s"] by (simp add: nth_append)
qed simp

definition insert_step :: "(nat \<Rightarrow> nat \<Rightarrow> bool) \<Rightarrow> nat list \<Rightarrow> nat \<Rightarrow> nat list" where
  "insert_step swap p x = rev (insert_right swap x (rev p))"

lemma length_insert_right [simp]: "length (insert_right swap x ys) = Suc (length ys)"
  by (induction ys) auto

lemma fold_sift: "fold (sift_left swap) [length p..<length p + length s] (p @ s) = foldl (insert_step swap) p s"
proof (induction s arbitrary: p)
  case (Cons x s)
  have "[length p..<length p + length (x # s)] = length p # [Suc (length p)..<Suc (length p) + length s]"
    by (simp add: upt_conv_Cons del: upt_Suc)
  then have "fold (sift_left swap) [length p..<length p + length (x # s)] (p @ x # s)
      = fold (sift_left swap) [Suc (length p)..<Suc (length p) + length s] (insert_step swap p x @ s)"
    by (simp only: fold_simps sift_left_insert insert_step_def)
  then show ?case using Cons [of "insert_step swap p x"] by (simp add: insert_step_def)
qed simp

lemma sortRows_insert: "sortRows rows indices lt asc = foldl (insert_step (row_swap rows lt asc)) [] indices"
proof (cases indices)
  case (Cons x s)
  have "insert_step (row_swap rows lt asc) [] x = [x]" by (simp add: insert_step_def)
  then show ?thesis using fold_sift [of "row_swap rows lt asc" "[x]" s] by (simp add: sortRows_def Cons)
qed (simp add: sortRows_def)

text \<open>What a column's comparison must be for the sort to be one: a strict weak order.\<close>

locale column_order =
  fixes lt :: "'r \<Rightarrow> 'r \<Rightarrow> bool"
  assumes lt_asym: "lt a b \<Longrightarrow> \<not> lt b a"
    and lt_between: "lt a b \<Longrightarrow> lt a c \<or> lt c b"
begin

lemma swap_asym: "row_swap rows lt asc a b \<Longrightarrow> \<not> row_swap rows lt asc b a"
  by (auto simp: row_swap_def lt_asym split: if_splits)

lemma swap_between: "row_swap rows lt asc a b \<Longrightarrow> row_swap rows lt asc a c \<or> row_swap rows lt asc c b"
  using lt_between by (auto simp: row_swap_def split: if_splits)

lemma mset_insert_right: "mset (insert_right swap x ys) = add_mset x (mset ys)"
  by (induction ys) auto

lemma insert_right_sorted:
  "sorted_wrt (\<lambda>a b. \<not> row_swap rows lt asc b a) ys \<Longrightarrow>
   sorted_wrt (\<lambda>a b. \<not> row_swap rows lt asc b a) (insert_right (row_swap rows lt asc) x ys)"
proof (induction ys)
  case (Cons y ys)
  have s: "set (insert_right (row_swap rows lt asc) x ys) = insert x (set ys)"
    by (metis mset_insert_right set_mset_add_mset_insert set_mset_mset)
  show ?case
  proof (cases "row_swap rows lt asc y x")
    case True
    then show ?thesis using Cons swap_asym [OF True] by (simp add: s)
  next
    case False
    have "\<not> row_swap rows lt asc z x" if "z \<in> set ys" for z
      using swap_between [of rows asc z x y] False Cons.prems that by auto
    then show ?thesis using Cons.prems False by simp
  qed
qed simp

lemma insert_right_stable:
  "filter (\<lambda>z. \<not> row_swap rows lt asc u z \<and> \<not> row_swap rows lt asc z u) (insert_right (row_swap rows lt asc) x ys)
   = filter (\<lambda>z. \<not> row_swap rows lt asc u z \<and> \<not> row_swap rows lt asc z u) (x # ys)"
proof (induction ys)
  case (Cons y ys)
  show ?case
  proof (cases "row_swap rows lt asc y x")
    case True
    then show ?thesis using Cons swap_between [OF True, of u] by auto
  qed simp
qed simp

lemma insert_step_props:
  "sorted_wrt (\<lambda>a b. \<not> row_swap rows lt asc a b) p \<Longrightarrow>
     sorted_wrt (\<lambda>a b. \<not> row_swap rows lt asc a b) (insert_step (row_swap rows lt asc) p x)"
  "mset (insert_step swap p x) = add_mset x (mset p)"
  "filter (\<lambda>z. \<not> row_swap rows lt asc u z \<and> \<not> row_swap rows lt asc z u) (insert_step (row_swap rows lt asc) p x)
   = filter (\<lambda>z. \<not> row_swap rows lt asc u z \<and> \<not> row_swap rows lt asc z u) (p @ [x])"
  using insert_right_sorted [of rows asc "rev p" x] insert_right_stable [of rows asc u x "rev p"]
  by (simp_all add: insert_step_def sorted_wrt_rev mset_insert_right rev_filter [symmetric])

lemma foldl_insert_mset: "mset (foldl (insert_step swap) p s) = mset p + mset s"
  by (induction s arbitrary: p) (simp_all add: insert_step_props(2))

lemma foldl_insert_ordered:
  "sorted_wrt (\<lambda>a b. \<not> row_swap rows lt asc a b) p \<Longrightarrow>
   sorted_wrt (\<lambda>a b. \<not> row_swap rows lt asc a b) (foldl (insert_step (row_swap rows lt asc)) p s)"
  by (induction s arbitrary: p) (simp_all add: insert_step_props(1))

lemma foldl_insert_stable:
  "filter (\<lambda>z. \<not> row_swap rows lt asc u z \<and> \<not> row_swap rows lt asc z u) (foldl (insert_step (row_swap rows lt asc)) p s)
   = filter (\<lambda>z. \<not> row_swap rows lt asc u z \<and> \<not> row_swap rows lt asc z u) (p @ s)"
proof (induction s arbitrary: p)
  case (Cons x s)
  then show ?case
    using insert_step_props(3) [of rows asc u p x] by (simp del: filter.simps add: filter_append) simp
qed simp

lemma sortRows_mset: "mset (sortRows rows indices lt asc) = mset indices"
  using foldl_insert_mset [of _ "[]" indices] by (simp add: sortRows_insert)

lemma sortRows_ordered: "sorted_wrt (\<lambda>a b. \<not> row_swap rows lt asc a b) (sortRows rows indices lt asc)"
  using foldl_insert_ordered [of rows asc "[]" indices] by (simp add: sortRows_insert)

lemma sortRows_stable:
  "filter (\<lambda>z. \<not> row_swap rows lt asc u z \<and> \<not> row_swap rows lt asc z u) (sortRows rows indices lt asc)
   = filter (\<lambda>z. \<not> row_swap rows lt asc u z \<and> \<not> row_swap rows lt asc z u) indices"
  using foldl_insert_stable [of rows asc u "[]" indices] by (simp add: sortRows_insert)

end

text \<open>A comparison by a key sorts as the library's stable sort by that key.\<close>

lemma column_order_key: "(\<And>a b. lt a b \<longleftrightarrow> (key a :: 'k::linorder) < key b) \<Longrightarrow> column_order lt"
  by unfold_locales (auto simp: not_less dest: le_less_trans)

lemma column_order_flip: "(\<And>a b. lt a b \<longleftrightarrow> (key b :: 'k::linorder) < key a) \<Longrightarrow> column_order lt"
  by unfold_locales (auto simp: not_less dest: less_le_trans)

lemma sortRows_sort_key:
  assumes "column_order lt" "\<And>a b. (if asc then lt a b else lt b a) \<longleftrightarrow> (key a :: 'k::linorder) < key b"
  shows "sortRows rows indices lt asc = sort_key (\<lambda>i. key (rows ! i)) indices"
proof -
  have sw: "row_swap rows lt asc a b \<longleftrightarrow> key (rows ! b) < key (rows ! a)" for a b
    using assms(2) [of "rows ! b" "rows ! a"] by (auto simp: row_swap_def split: if_splits)
  show ?thesis
  proof (rule properties_for_sort_key [symmetric])
    show "mset (sortRows rows indices lt asc) = mset indices" by (rule column_order.sortRows_mset [OF assms(1)])
    show "sorted (map (\<lambda>i. key (rows ! i)) (sortRows rows indices lt asc))"
      using column_order.sortRows_ordered [OF assms(1), of rows asc indices] by (simp only: sw sorted_map not_less)
    show "filter (\<lambda>x. key (rows ! k) = key (rows ! x)) (sortRows rows indices lt asc)
        = filter (\<lambda>x. key (rows ! k) = key (rows ! x)) indices" for k
      using column_order.sortRows_stable [OF assms(1), of rows asc k indices]
      unfolding sw not_less by (simp only: eq_iff)
  qed
qed

section \<open>Invariant\<close>

text \<open>
  The visible indices are the rows that pass the filter, in some order; the cursor is one of
  them, or zero in an empty view.
\<close>

definition sortable_columns :: "'r Column list \<Rightarrow> bool" where
  "sortable_columns cols \<longleftrightarrow> (\<forall>c \<in> set cols. col_Sortable c \<longrightarrow> column_order (col_SortLess c))"

definition table_ok :: "'r TableModel \<Rightarrow> bool" where
  "table_ok m \<longleftrightarrow>
     sortable_columns (tb_columns m) \<and>
     mset (tb_visible m) = mset (passing m) \<and>
     0 \<le> tb_cursor m \<and> (tb_cursor m = 0 \<or> tb_cursor m < int (length (tb_visible m))) \<and>
     0 \<le> tb_offset m \<and> -1 \<le> tb_sortCol m \<and> tb_sortCol m < int (length (tb_columns m))"

lemma row_passes_cong: "tb_filter m' = tb_filter m \<Longrightarrow> tb_filterFn m' = tb_filterFn m \<Longrightarrow> row_passes m' = row_passes m"
  by (cases "tb_filterFn m") (simp_all add: row_passes_def fun_eq_iff)

lemma row_passes_update [simp]:
  "row_passes (m\<lparr>tb_visible := v\<rparr>) = row_passes m" "row_passes (m\<lparr>tb_cursor := c\<rparr>) = row_passes m"
  "row_passes (m\<lparr>tb_offset := c\<rparr>) = row_passes m" "row_passes (m\<lparr>tb_sortCol := c\<rparr>) = row_passes m"
  "row_passes (m\<lparr>tb_sortAsc := b\<rparr>) = row_passes m" "row_passes (m\<lparr>tb_focused := b\<rparr>) = row_passes m"
  "row_passes (m\<lparr>tb_width := c\<rparr>) = row_passes m" "row_passes (m\<lparr>tb_height := c\<rparr>) = row_passes m"
  "row_passes (m\<lparr>tb_theme := th\<rparr>) = row_passes m" "row_passes (m\<lparr>tb_rows := rows\<rparr>) = row_passes m"
  by (rule row_passes_cong; simp)+

lemma passing_cong: "row_passes m' = row_passes m \<Longrightarrow> tb_rows m' = tb_rows m \<Longrightarrow> passing m' = passing m"
  by (simp add: passing_def)

lemma passing_update [simp]:
  "passing (m\<lparr>tb_visible := v\<rparr>) = passing m" "passing (m\<lparr>tb_cursor := c\<rparr>) = passing m"
  "passing (m\<lparr>tb_offset := c\<rparr>) = passing m" "passing (m\<lparr>tb_sortCol := c\<rparr>) = passing m"
  "passing (m\<lparr>tb_sortAsc := b\<rparr>) = passing m" "passing (m\<lparr>tb_focused := b\<rparr>) = passing m"
  "passing (m\<lparr>tb_width := c\<rparr>) = passing m" "passing (m\<lparr>tb_height := c\<rparr>) = passing m"
  "passing (m\<lparr>tb_theme := th\<rparr>) = passing m"
  by (simp_all add: passing_def)

lemma reindex_frame [simp]:
  "tb_columns (reindex m) = tb_columns m" "tb_rows (reindex m) = tb_rows m" "tb_cursor (reindex m) = tb_cursor m"
  "tb_offset (reindex m) = tb_offset m" "tb_sortCol (reindex m) = tb_sortCol m" "tb_sortAsc (reindex m) = tb_sortAsc m"
  "tb_filter (reindex m) = tb_filter m" "tb_filterFn (reindex m) = tb_filterFn m" "tb_focused (reindex m) = tb_focused m"
  "tb_height (reindex m) = tb_height m" "tb_width (reindex m) = tb_width m" "row_passes (reindex m) = row_passes m"
  "passing (reindex m) = passing m"
  by (simp_all add: reindex_def Let_def)

lemma scroll_frame [simp]:
  "tb_columns (scrollToCursor m) = tb_columns m" "tb_rows (scrollToCursor m) = tb_rows m" "tb_cursor (scrollToCursor m) = tb_cursor m"
  "tb_visible (scrollToCursor m) = tb_visible m" "tb_sortCol (scrollToCursor m) = tb_sortCol m"
  "tb_sortAsc (scrollToCursor m) = tb_sortAsc m" "tb_focused (scrollToCursor m) = tb_focused m"
  "row_passes (scrollToCursor m) = row_passes m" "passing (scrollToCursor m) = passing m" "bodyH (scrollToCursor m) = bodyH m"
  by (simp_all add: scrollToCursor_def Let_def bodyH_def)

lemma reindex_visible:
  assumes "sortable_columns (tb_columns m)"
  shows "mset (tb_visible (reindex m)) = mset (passing m)"
proof (cases "0 \<le> tb_sortCol m \<and> tb_sortCol m < int (length (tb_columns m)) \<and> col_Sortable (tb_columns m ! nat (tb_sortCol m))")
  case True
  then have "tb_columns m ! nat (tb_sortCol m) \<in> set (tb_columns m)" by (intro nth_mem) (simp add: nat_less_iff)
  then have "column_order (col_SortLess (tb_columns m ! nat (tb_sortCol m)))"
    using assms True by (simp add: sortable_columns_def)
  from column_order.sortRows_mset [OF this] show ?thesis using True by (simp add: reindex_def Let_def)
next
  case False
  then show ?thesis by (auto simp: reindex_def Let_def)
qed

lemma length_passing: "length (passing m) = length (filter (row_passes m) (tb_rows m))"
proof -
  have "length (passing m) = length (filter (row_passes m) (map ((!) (tb_rows m)) [0..<length (tb_rows m)]))"
    by (simp only: passing_def filter_map comp_def length_map)
  then show ?thesis by (simp add: map_nth)
qed

lemma table_ok_length: "table_ok m \<Longrightarrow> length (tb_visible m) = length (filter (row_passes m) (tb_rows m))"
  unfolding table_ok_def length_passing [symmetric] by (blast intro: mset_eq_length)

lemma table_ok_visible: "table_ok m \<Longrightarrow> i \<in> set (tb_visible m) \<longleftrightarrow> i < length (tb_rows m) \<and> row_passes m (tb_rows m ! i)"
proof -
  assume "table_ok m"
  then have "set (tb_visible m) = set (passing m)" unfolding table_ok_def by (metis mset_eq_setD)
  then show ?thesis by (auto simp: passing_def)
qed

lemma table_ok_distinct: "table_ok m \<Longrightarrow> distinct (tb_visible m)"
proof -
  assume "table_ok m"
  then have "mset (tb_visible m) = mset (passing m)" by (simp only: table_ok_def)
  moreover have "distinct (passing m)" by (simp add: passing_def)
  ultimately show ?thesis by (metis mset_eq_imp_distinct_iff)
qed

lemma table_ok_New: "sortable_columns cols \<Longrightarrow> table_ok (Table_New cols th)"
  by (simp add: table_ok_def Table_New_def passing_def)

lemma table_ok_reindex:
  assumes "table_ok m" "tb_rows m' = tb_rows m" "row_passes m' = row_passes m" "tb_columns m' = tb_columns m"
    "tb_cursor m' = tb_cursor m" "tb_offset m' = tb_offset m" "-1 \<le> tb_sortCol m'" "tb_sortCol m' < int (length (tb_columns m))"
  shows "table_ok (reindex m')"
proof -
  have v: "mset (tb_visible (reindex m')) = mset (tb_visible m)"
    using assms reindex_visible [of m'] passing_cong [of m' m] by (simp add: table_ok_def)
  then have "length (tb_visible (reindex m')) = length (tb_visible m)" by (rule mset_eq_length)
  then show ?thesis using assms v passing_cong [of m' m] by (simp add: table_ok_def)
qed

lemma table_ok_SetRows: "table_ok m \<Longrightarrow> table_ok (SetRows rows m)"
  using reindex_visible [of "m\<lparr>tb_rows := rows\<rparr>"]
  by (auto simp: table_ok_def SetRows_def Let_def)

lemma table_ok_SetFilter: "table_ok m \<Longrightarrow> table_ok (SetFilter q fn m)"
  using reindex_visible [of "m\<lparr>tb_filter := q, tb_filterFn := fn, tb_cursor := 0, tb_offset := 0\<rparr>"]
  by (auto simp: table_ok_def SetFilter_def)

lemma table_ok_set:
  "table_ok m \<Longrightarrow> table_ok (Table_SetSize w h m)" "table_ok m \<Longrightarrow> table_ok (Table_SetTheme th m)"
  "table_ok m \<Longrightarrow> table_ok (Table_Focus m)" "table_ok m \<Longrightarrow> table_ok (Table_Blur m)"
  by (simp_all add: table_ok_def Table_SetSize_def Table_SetTheme_def Table_Focus_def Table_Blur_def)

lemma bodyH_pos: "1 \<le> bodyH m" by (simp add: bodyH_def)

lemma table_ok_scroll:
  assumes "table_ok m" "0 \<le> c" "c = 0 \<or> c < int (length (tb_visible m))"
  shows "table_ok (scrollToCursor (m\<lparr>tb_cursor := c\<rparr>))"
  using assms bodyH_pos [of "m\<lparr>tb_cursor := c\<rparr>"]
  by (auto simp: table_ok_def scrollToCursor_def Let_def)

lemma table_ok_cycle: "table_ok m \<Longrightarrow> cycle_loop b m is = Some m' \<Longrightarrow> table_ok m'"
proof (induction "is" arbitrary: m')
  case (Cons i "is")
  show ?case
  proof (cases "\<not> b \<and> tb_sortAsc m")
    case True
    then show ?thesis using Cons.prems table_ok_reindex [OF Cons.prems(1), of "m\<lparr>tb_sortAsc := False\<rparr>"]
      by (auto simp: table_ok_def)
  next
    case False
    let ?idx = "if b then (tb_sortCol m + 1 + i) mod int (length (tb_columns m)) else tb_sortCol m + 1"
    obtain col where c: "at_int (tb_columns m) ?idx = Some col"
      using Cons.prems(2) False by (auto simp: Let_def split: option.splits)
    show ?thesis
    proof (cases "col_Sortable col")
      case True
      then have "m' = reindex (m\<lparr>tb_sortCol := ?idx, tb_sortAsc := True\<rparr>)"
        using Cons.prems(2) False c by (simp add: Let_def)
      then show ?thesis
        using table_ok_reindex [OF Cons.prems(1), of "m\<lparr>tb_sortCol := ?idx, tb_sortAsc := True\<rparr>"] c
        by (simp add: at_int_def split: if_splits)
    next
      case F: False
      then have "cycle_loop b m is = Some m'" using Cons.prems(2) False c by (simp add: Let_def)
      then show ?thesis using Cons.IH Cons.prems(1) by blast
    qed
  qed
qed simp

lemma table_ok_Update: "table_ok m \<Longrightarrow> Table_Update k m = Some m' \<Longrightarrow> table_ok m'"
proof -
  assume ok: "table_ok m" and u: "Table_Update k m = Some m'"
  have up: "table_ok (moveUp n m)" if "0 \<le> n" for n
    unfolding moveUp_def using ok that by (intro table_ok_scroll) (auto simp: table_ok_def)
  have down: "table_ok (moveDown n m)" if "0 \<le> n" for n
    unfolding moveDown_def using ok that by (intro table_ok_scroll) (auto simp: table_ok_def)
  have bottom: "table_ok (scrollToCursor (m\<lparr>tb_cursor := max 0 (int (length (tb_visible m)) - 1)\<rparr>))"
    using ok by (intro table_ok_scroll) auto
  have top: "table_ok (m\<lparr>tb_cursor := 0, tb_offset := 0\<rparr>)" using ok by (simp add: table_ok_def)
  have cyc: "cycleSort b m = Some m' \<Longrightarrow> table_ok m'" for b
    unfolding cycleSort_def by (rule table_ok_cycle [OF ok])
  show ?thesis
    using u ok up [of 1] down [of 1] up [of "bodyH m"] down [of "bodyH m"] bottom top cyc bodyH_pos [of m]
    unfolding Table_Update_def by (simp split: if_splits)
qed

lemma SelectedRow_ok:
  assumes "table_ok m"
  shows "SelectedRow m = Some None \<and> filter (row_passes m) (tb_rows m) = [] \<or>
    (\<exists>r. SelectedRow m = Some (Some r) \<and> r \<in> set (tb_rows m) \<and> row_passes m r)"
proof (cases "tb_visible m = []")
  case True
  then show ?thesis using table_ok_length [OF assms] by (simp add: SelectedRow_def)
next
  case False
  then have c: "0 \<le> tb_cursor m" "nat (tb_cursor m) < length (tb_visible m)"
    using assms by (auto simp: table_ok_def)
  then have "tb_visible m ! nat (tb_cursor m) \<in> set (tb_visible m)" by simp
  then show ?thesis using False c table_ok_visible [OF assms, of "tb_visible m ! nat (tb_cursor m)"]
    by (auto simp: SelectedRow_def at_int_def split: option.splits)
qed

section \<open>The reverse sort key\<close>

lemma cycle_loop_next: "0 \<le> tb_sortCol m + 1 \<Longrightarrow> tb_columns m \<noteq> [] \<Longrightarrow> \<forall>i \<in> set is. 0 \<le> i \<Longrightarrow> cycle_loop True m is \<noteq> None"
proof (induction "is")
  case (Cons i "is")
  have "at_int (tb_columns m) ((tb_sortCol m + 1 + i) mod int (length (tb_columns m))) \<noteq> None"
    using Cons.prems by (simp add: at_int_def)
  then show ?case using Cons by (auto simp: Let_def)
qed simp

lemma Table_Update_panics_iff:
  assumes "table_ok m"
  shows "Table_Update k m = None \<longleftrightarrow>
    tb_focused m \<and> k = ''S'' \<and> \<not> tb_sortAsc m \<and> tb_columns m \<noteq> [] \<and> tb_sortCol m + 1 = int (length (tb_columns m))"
proof -
  have n: "cycleSort True m \<noteq> None"
    using assms cycle_loop_next [of m "map int [0..<length (tb_columns m)]"]
    by (cases "tb_columns m = []") (auto simp: cycleSort_def table_ok_def)
  have range: "- 1 \<le> tb_sortCol m" "tb_sortCol m < int (length (tb_columns m))" using assms by (auto simp: table_ok_def)
  have loop: "cycle_loop False m is = None \<longleftrightarrow> is \<noteq> [] \<and> \<not> tb_sortAsc m \<and> tb_sortCol m + 1 = int (length (tb_columns m))" for "is"
  proof (induction "is")
    case (Cons i "is")
    then show ?case using range by (cases "tb_sortAsc m") (auto simp: Let_def at_int_def)
  qed simp
  have p: "cycleSort False m = None \<longleftrightarrow> \<not> tb_sortAsc m \<and> tb_columns m \<noteq> [] \<and> tb_sortCol m + 1 = int (length (tb_columns m))"
    by (auto simp: cycleSort_def loop)
  show ?thesis
    using n p by (auto simp: Table_Update_def key_Matches_def key_Up_def key_Down_def key_PageUp_def key_PageDown_def key_Top_def
        key_Bottom_def key_SortNext_def key_SortPrev_def)
qed

text \<open>Pressing the key again and again walks through both directions of every column.\<close>

fun press :: "string list \<Rightarrow> 'r TableModel \<Rightarrow> 'r TableModel option" where
  "press [] m = Some m"
| "press (k # ks) m = (case Table_Update k m of None \<Rightarrow> None | Some m1 \<Rightarrow> press ks m1)"

lemma press_append: "press (ks @ ls) m = Option.bind (press ks m) (press ls)"
  by (induction ks arbitrary: m) (auto split: option.splits)

lemma press_S:
  assumes "tb_focused m" "\<forall>c \<in> set (tb_columns m). col_Sortable c" "tb_sortCol m = -1" "tb_sortAsc m" "i \<le> 2 * length (tb_columns m) + 1"
    and "tb_columns m \<noteq> []"
  shows "\<exists>m'. press (replicate i ''S'') m = Some m' \<and> tb_focused m' \<and> tb_columns m' = tb_columns m
    \<and> tb_sortCol m' = int (i div 2) - 1 \<and> (tb_sortAsc m' \<longleftrightarrow> even i)"
  using assms(5)
proof (induction i)
  case 0
  then show ?case using assms by simp
next
  case (Suc i)
  then obtain m1 where m1: "press (replicate i ''S'') m = Some m1" "tb_focused m1" "tb_columns m1 = tb_columns m"
    "tb_sortCol m1 = int (i div 2) - 1" "tb_sortAsc m1 \<longleftrightarrow> even i" by auto
  obtain n where n: "length (tb_columns m) = Suc n" using assms(6) by (cases "tb_columns m") auto
  have r: "press (replicate (Suc i) ''S'') m = press [''S''] m1"
    using m1(1) press_append [of "replicate i ''S''" "[''S'']" m] by (simp only: replicate_Suc replicate_append_same bind.simps)
  have u: "Table_Update ''S'' m1 = cycleSort False m1"
    using m1 by (simp add: Table_Update_def key_Matches_def key_Up_def key_Down_def key_PageUp_def key_PageDown_def key_Top_def
        key_Bottom_def key_SortNext_def key_SortPrev_def)
  have step: "cycleSort False m1 = (if even i then Some (reindex (m1\<lparr>tb_sortAsc := False\<rparr>))
      else Some (reindex (m1\<lparr>tb_sortCol := int (i div 2), tb_sortAsc := True\<rparr>)))"
  proof (cases "even i")
    case False
    then have "i div 2 < length (tb_columns m)" using Suc.prems by presburger
    moreover from this have "col_Sortable (tb_columns m ! (i div 2))" using assms(2) by simp
    ultimately show ?thesis using m1 False n by (simp add: cycleSort_def at_int_def upt_conv_Cons del: upt_Suc)
  qed (use m1 n in \<open>simp add: cycleSort_def upt_conv_Cons del: upt_Suc\<close>)
  show ?case
  proof (cases "even i")
    case True
    then show ?thesis unfolding r using m1 u step by simp
  next
    case False
    then have "int (i div 2) = int (Suc i div 2) - 1" by presburger
    then show ?thesis unfolding r using m1 u step False by simp
  qed
qed

section \<open>What a view shows\<close>

text \<open>A padded or shortened cell has the width of its column, in runes.\<close>

lemma padOrTrunc_width:
  assumes "0 < w" "padOrTrunc s w align = Some c" "concat (runes s) = s"
  shows "int (length (runes c)) = w"
proof (cases "int (length (runes s)) > w")
  case True
  show ?thesis
  proof (cases "w > 1")
    case w: True
    have "\<forall>r \<in> set (take (nat (w - 1)) (runes s) @ [ellipsis]). valid_rune r"
      using runes_valid [of s] valid_rune_ellipsis by (auto dest: in_set_takeD)
    from runes_concat [OF this] show ?thesis using assms True w by (auto simp: padOrTrunc_def Let_def)
  next
    case False
    then have "w = 1" using assms(1) by simp
    moreover have "\<forall>r \<in> set (take 1 (runes s)). valid_rune r" using runes_valid [of s] by (auto dest: in_set_takeD)
    ultimately show ?thesis using assms True runes_concat [of "take 1 (runes s)"] by (auto simp: padOrTrunc_def Let_def)
  qed
next
  case False
  have b: "byte_of CHR '' '' < 0x80" by (simp add: byte_of_def)
  show ?thesis
    using assms False runes_append_ascii_right [OF runes_valid [of s] b, of "nat (w - int (length (runes s)))"]
    by (auto simp: padOrTrunc_def Let_def split: if_splits)
qed

lemma length_those: "those xs = Some ys \<Longrightarrow> length ys = length xs"
  by (induction xs arbitrary: ys) (auto split: option.splits)

text \<open>
  As long as the offset lies within the visible rows the body has the height of the widget;
  when the rows shrink below the offset, no row is shown and the body grows instead.
\<close>

lemma Table_View_height:
  assumes "Table_View m = Some ls" "tb_width m \<noteq> 0"
  shows "length ls = 2 + nat (body_end m - tb_offset m) + nat (bodyH m - (body_end m - tb_offset m))
    + (if int (length (tb_visible m)) > bodyH m then 1 else 0)"
proof -
  have i: "scroll_indicator m = Some r \<Longrightarrow> length r = (if int (length (tb_visible m)) > bodyH m then 1 else 0)" for r
    by (auto simp: scroll_indicator_def Let_def split: bind_splits if_splits)
  show ?thesis using assms by (auto simp: Table_View_def dest!: i length_those split: bind_splits)
qed

end
