(* ===== verification/TuiWidgets.thy ===== *)
theory TuiWidgets
  imports TuiTable TimeSeries GoJson
begin

text \<open>
  The small widgets of the terminal interface: layout, tab strip, focus ring, help modal,
  command palette, search bar, status bar and sparkline
  (\<open>internal/tui/layout\<close>, \<open>widgets\<close>, \<open>app/focus.go\<close>). The text field of the
  bubbles library is a parameter with its operations, one for keys and one for the other
  messages (by number); commands are values of a type the application chooses.
\<close>

text \<open>
  \<open>strings.ToLower\<close> on ASCII letters and on the two letters outside ASCII whose lower case is an
  ASCII letter, the Kelvin sign and the dotted capital I, which become shorter; other text is left alone.
\<close>

definition kelvin_sign :: string where "kelvin_sign = [CHR 0xE2, CHR 0x84, CHR 0xAA]"
definition dotted_I :: string where "dotted_I = [CHR 0xC4, CHR 0xB0]"

fun ToLower :: "string \<Rightarrow> string" where
  "ToLower [] = []"
| "ToLower (c # cs) =
     (if take 3 (c # cs) = kelvin_sign then CHR ''k'' # ToLower (drop 2 cs)
      else if take 2 (c # cs) = dotted_I then CHR ''i'' # ToLower (drop 1 cs)
      else lower_char c # ToLower cs)"

section \<open>Layout\<close>

record Layout =
  ly_TermW :: int
  ly_TermH :: int
  ly_HasSidebar :: bool
  ly_SidebarW :: int

definition Layout_New :: "int \<Rightarrow> int \<Rightarrow> Layout" where
  "Layout_New w h = \<lparr>ly_TermW = w, ly_TermH = h, ly_HasSidebar = False, ly_SidebarW = 30\<rparr>"

definition HeaderH :: "Layout \<Rightarrow> int" where "HeaderH l = 1"
definition TabBarH :: "Layout \<Rightarrow> int" where "TabBarH l = 1"
definition StatusBarH :: "Layout \<Rightarrow> int" where "StatusBarH l = 1"
definition FooterH :: "Layout \<Rightarrow> int" where "FooterH l = 1"

definition ChromeH :: "Layout \<Rightarrow> int" where
  "ChromeH l = HeaderH l + TabBarH l + StatusBarH l + FooterH l"

definition BodyH :: "Layout \<Rightarrow> int" where
  "BodyH l = (let h = ly_TermH l - ChromeH l in if h < 4 then 4 else h)"

definition ContentW :: "Layout \<Rightarrow> int" where
  "ContentW l =
     (let w = (if ly_HasSidebar l then ly_TermW l - (ly_SidebarW l + 1) else ly_TermW l)
      in if w < 20 then 20 else w)"

definition ContentRegion :: "Layout \<Rightarrow> int \<times> int \<times> int \<times> int" where
  "ContentRegion l = (0, HeaderH l + TabBarH l, ContentW l, BodyH l)"

definition SidebarRegion :: "Layout \<Rightarrow> int \<times> int \<times> int \<times> int" where
  "SidebarRegion l = (ContentW l + 1, HeaderH l + TabBarH l, ly_SidebarW l, BodyH l)"

definition split_at_least :: "int \<Rightarrow> int \<Rightarrow> f64 \<Rightarrow> int \<times> int" where
  "split_at_least k len ratio =
     (let a = f64_trunc (f64_mul (f64_of_int len) ratio); b = len - a in (if a < k then k else a, if b < k then k else b))"

definition SplitVertical :: "f64 \<Rightarrow> Layout \<Rightarrow> int \<times> int" where
  "SplitVertical ratio l = split_at_least 3 (BodyH l) ratio"

definition SplitHorizontal :: "f64 \<Rightarrow> Layout \<Rightarrow> int \<times> int" where
  "SplitHorizontal ratio l = split_at_least 10 (ContentW l) ratio"

section \<open>Tab strip\<close>

record Tab =
  tab_Title :: string
  tab_Key :: string

record TabbarModel =
  tbar_tabs :: "Tab list"
  tbar_active :: int
  tbar_width :: int
  tbar_theme :: string

definition Tabbar_New :: "Tab list \<Rightarrow> string \<Rightarrow> TabbarModel" where
  "Tabbar_New tabs th = \<lparr>tbar_tabs = tabs, tbar_active = 0, tbar_width = 0, tbar_theme = th\<rparr>"

definition SetActive :: "int \<Rightarrow> TabbarModel \<Rightarrow> TabbarModel" where
  "SetActive i m =
     (let i1 = (if i < 0 then 0 else i);
          i2 = (if i1 \<ge> int (length (tbar_tabs m)) then int (length (tbar_tabs m)) - 1 else i1)
      in m\<lparr>tbar_active := i2\<rparr>)"

text \<open>Go's remainder of a dividend that is not negative; a zero divisor panics.\<close>

definition Tabbar_Next :: "TabbarModel \<Rightarrow> TabbarModel option" where
  "Tabbar_Next m = (if tbar_tabs m = [] then None else Some (SetActive ((tbar_active m + 1) mod int (length (tbar_tabs m))) m))"

definition Tabbar_Prev :: "TabbarModel \<Rightarrow> TabbarModel option" where
  "Tabbar_Prev m = (if tbar_tabs m = [] then None
     else Some (SetActive ((tbar_active m - 1 + int (length (tbar_tabs m))) mod int (length (tbar_tabs m))) m))"

section \<open>Focus ring\<close>

record 'a FocusRing =
  fr_items :: "'a list"
  fr_current :: int

record 'a Focusable =
  fo_Focus :: "'a \<Rightarrow> 'a"
  fo_Blur :: "'a \<Rightarrow> 'a"

definition update_at :: "('a \<Rightarrow> 'a) \<Rightarrow> int \<Rightarrow> 'a list \<Rightarrow> 'a list" where
  "update_at f i xs = xs[nat i := f (xs ! nat i)]"

definition NewFocusRing :: "'a Focusable \<Rightarrow> 'a list \<Rightarrow> 'a FocusRing" where
  "NewFocusRing F items = \<lparr>fr_items = (if items = [] then [] else update_at (fo_Focus F) 0 items), fr_current = 0\<rparr>"

definition refocus :: "'a Focusable \<Rightarrow> int \<Rightarrow> 'a FocusRing \<Rightarrow> 'a FocusRing" where
  "refocus F i f = f\<lparr>fr_items := update_at (fo_Focus F) i (update_at (fo_Blur F) (fr_current f) (fr_items f)), fr_current := i\<rparr>"

definition Ring_Next :: "'a Focusable \<Rightarrow> 'a FocusRing \<Rightarrow> 'a option \<times> 'a FocusRing" where
  "Ring_Next F f =
     (if fr_items f = [] then (None, f)
      else let i = (fr_current f + 1) mod int (length (fr_items f)); f1 = refocus F i f
           in (Some (fr_items f1 ! nat i), f1))"

definition Ring_Prev :: "'a Focusable \<Rightarrow> 'a FocusRing \<Rightarrow> 'a option \<times> 'a FocusRing" where
  "Ring_Prev F f =
     (if fr_items f = [] then (None, f)
      else let i = (fr_current f - 1 + int (length (fr_items f))) mod int (length (fr_items f)); f1 = refocus F i f
           in (Some (fr_items f1 ! nat i), f1))"

definition FocusAt :: "'a Focusable \<Rightarrow> int \<Rightarrow> 'a FocusRing \<Rightarrow> 'a option \<times> 'a FocusRing" where
  "FocusAt F i f =
     (if i < 0 \<or> i \<ge> int (length (fr_items f)) then (None, f)
      else let f1 = refocus F i f in (Some (fr_items f1 ! nat i), f1))"

definition Ring_Current :: "'a FocusRing \<Rightarrow> 'a option" where
  "Ring_Current f = (if fr_items f = [] then None else Some (fr_items f ! nat (fr_current f)))"

definition Ring_Index :: "'a FocusRing \<Rightarrow> int" where "Ring_Index f = fr_current f"

section \<open>Text field and search bar\<close>

record ('ti, 'cmd) TextInput =
  ti_New :: 'ti
  ti_Focus :: "'ti \<Rightarrow> 'ti"
  ti_Blur :: "'ti \<Rightarrow> 'ti"
  ti_Reset :: "'ti \<Rightarrow> 'ti"
  ti_Value :: "'ti \<Rightarrow> string"
  ti_Update :: "string \<Rightarrow> 'ti \<Rightarrow> 'ti \<times> 'cmd"
  ti_Other :: "nat \<Rightarrow> 'ti \<Rightarrow> 'ti \<times> 'cmd"
  ti_View :: "'ti \<Rightarrow> string"

record 'ti SearchbarModel =
  sb_input :: 'ti
  sb_visible :: bool
  sb_theme :: string

definition Search_New :: "('ti, 'cmd) TextInput \<Rightarrow> string \<Rightarrow> 'ti SearchbarModel" where
  "Search_New T th = \<lparr>sb_input = ti_New T, sb_visible = False, sb_theme = th\<rparr>"

definition Search_Show :: "('ti, 'cmd) TextInput \<Rightarrow> 'ti SearchbarModel \<Rightarrow> 'ti SearchbarModel" where
  "Search_Show T m = m\<lparr>sb_visible := True, sb_input := ti_Focus T (sb_input m)\<rparr>"

definition Search_Hide :: "('ti, 'cmd) TextInput \<Rightarrow> 'ti SearchbarModel \<Rightarrow> 'ti SearchbarModel" where
  "Search_Hide T m = m\<lparr>sb_visible := False, sb_input := ti_Blur T (sb_input m)\<rparr>"

definition Search_Reset :: "('ti, 'cmd) TextInput \<Rightarrow> 'ti SearchbarModel \<Rightarrow> 'ti SearchbarModel" where
  "Search_Reset T m = m\<lparr>sb_input := ti_Reset T (sb_input m)\<rparr>"

definition Search_Visible :: "'ti SearchbarModel \<Rightarrow> bool" where "Search_Visible m = sb_visible m"

definition Search_Value :: "('ti, 'cmd) TextInput \<Rightarrow> 'ti SearchbarModel \<Rightarrow> string" where
  "Search_Value T m = ti_Value T (sb_input m)"

definition Search_SetTheme :: "string \<Rightarrow> 'ti SearchbarModel \<Rightarrow> 'ti SearchbarModel" where
  "Search_SetTheme th m = m\<lparr>sb_theme := th\<rparr>"

definition Search_Update :: "('ti, 'cmd) TextInput \<Rightarrow> string \<Rightarrow> 'ti SearchbarModel \<Rightarrow> 'ti SearchbarModel \<times> 'cmd option" where
  "Search_Update T k m =
     (if \<not> sb_visible m then (m, None)
      else let (inp, cmd) = ti_Update T k (sb_input m) in (m\<lparr>sb_input := inp\<rparr>, Some cmd))"

section \<open>Modal\<close>

datatype ModalKind = KindHelp | KindError | KindConfirm

record ModalModel =
  md_kind :: ModalKind
  md_title :: string
  md_content :: string
  md_visible :: bool
  md_theme :: string

definition Modal_New :: "string \<Rightarrow> ModalModel" where
  "Modal_New th = \<lparr>md_kind = KindHelp, md_title = [], md_content = [], md_visible = False, md_theme = th\<rparr>"

definition ShowHelp :: "string \<Rightarrow> ModalModel \<Rightarrow> ModalModel" where
  "ShowHelp content m = m\<lparr>md_kind := KindHelp, md_title := ''  Keyboard Shortcuts'', md_content := content, md_visible := True\<rparr>"

definition ShowError :: "string \<Rightarrow> ModalModel \<Rightarrow> ModalModel" where
  "ShowError msg m = m\<lparr>md_kind := KindError, md_title := ''  Error'', md_content := msg, md_visible := True\<rparr>"

definition Modal_Hide :: "ModalModel \<Rightarrow> ModalModel" where "Modal_Hide m = m\<lparr>md_visible := False\<rparr>"
definition Modal_Visible :: "ModalModel \<Rightarrow> bool" where "Modal_Visible m = md_visible m"
definition Modal_SetTheme :: "string \<Rightarrow> ModalModel \<Rightarrow> ModalModel" where "Modal_SetTheme th m = m\<lparr>md_theme := th\<rparr>"

definition modal_boxW :: "ModalModel \<Rightarrow> int \<Rightarrow> int" where
  "modal_boxW m termW =
     (let maxW = fold (\<lambda>l w. if int (length (runes l)) > w then int (length (runes l)) else w)
            (split_on CHR ''\<newline>'' (md_content m)) 0;
          b1 = (if maxW + 6 < 40 then 40 else maxW + 6)
      in if b1 > termW - 4 then termW - 4 else b1)"

section \<open>Command palette\<close>

record 'cmd Command =
  pc_Name :: string
  pc_Args :: string
  pc_Description :: string
  pc_Action :: "(string \<Rightarrow> 'cmd) option"

record ('ti, 'cmd) PaletteModel =
  pa_commands :: "'cmd Command list"
  pa_matches :: "'cmd Command list"
  pa_input :: 'ti
  pa_cursor :: int
  pa_visible :: bool
  pa_theme :: string

definition Palette_New :: "('ti, 'cmd) TextInput \<Rightarrow> 'cmd Command list \<Rightarrow> string \<Rightarrow> ('ti, 'cmd) PaletteModel" where
  "Palette_New T commands th = \<lparr>pa_commands = commands, pa_matches = [], pa_input = ti_New T, pa_cursor = 0,
     pa_visible = False, pa_theme = th\<rparr>"

definition command_matches :: "string \<Rightarrow> 'cmd Command \<Rightarrow> bool" where
  "command_matches q c \<longleftrightarrow> q = [] \<or> str_contains (ToLower (pc_Name c)) q \<or> str_contains (ToLower (pc_Description c)) q"

definition palette_filter :: "string \<Rightarrow> ('ti, 'cmd) PaletteModel \<Rightarrow> ('ti, 'cmd) PaletteModel" where
  "palette_filter q0 m =
     (let q = TrimSpace (ToLower q0); ms = filter (command_matches q) (pa_commands m)
      in m\<lparr>pa_matches := ms,
           pa_cursor := (if pa_cursor m \<ge> int (length ms) then max 0 (int (length ms) - 1) else pa_cursor m)\<rparr>)"

definition Palette_Show :: "('ti, 'cmd) TextInput \<Rightarrow> ('ti, 'cmd) PaletteModel \<Rightarrow> ('ti, 'cmd) PaletteModel" where
  "Palette_Show T m = palette_filter [] (m\<lparr>pa_visible := True, pa_cursor := 0, pa_input := ti_Focus T (pa_input m)\<rparr>)"

definition Palette_Hide :: "('ti, 'cmd) TextInput \<Rightarrow> ('ti, 'cmd) PaletteModel \<Rightarrow> ('ti, 'cmd) PaletteModel" where
  "Palette_Hide T m = m\<lparr>pa_visible := False, pa_input := ti_Reset T (ti_Blur T (pa_input m)), pa_matches := []\<rparr>"

definition Palette_Visible :: "('ti, 'cmd) PaletteModel \<Rightarrow> bool" where "Palette_Visible m = pa_visible m"

definition Palette_SetTheme :: "string \<Rightarrow> ('ti, 'cmd) PaletteModel \<Rightarrow> ('ti, 'cmd) PaletteModel" where
  "Palette_SetTheme th m = m\<lparr>pa_theme := th\<rparr>"

definition AddCommand :: "'cmd Command \<Rightarrow> ('ti, 'cmd) PaletteModel \<Rightarrow> ('ti, 'cmd) PaletteModel" where
  "AddCommand c m = m\<lparr>pa_commands := pa_commands m @ [c]\<rparr>"

text \<open>A key of the palette; the outer \<open>None\<close> is the panic of a cursor outside the matches.\<close>

definition Palette_Update ::
  "('ti, 'cmd) TextInput \<Rightarrow> string \<Rightarrow> ('ti, 'cmd) PaletteModel \<Rightarrow> (('ti, 'cmd) PaletteModel \<times> 'cmd option) option" where
  "Palette_Update T k m =
     (if \<not> pa_visible m then Some (m, None)
      else if k = ''esc'' then Some (Palette_Hide T m, None)
      else if k = ''enter'' then
        (if pa_matches m = [] then Some (m, None)
         else if 0 \<le> pa_cursor m \<and> pa_cursor m < int (length (pa_matches m))
              then let cmd = pa_matches m ! nat (pa_cursor m);
                       args = TrimSpace (TrimPrefix (TrimSpace (ti_Value T (pa_input m))) (pc_Name cmd))
                   in Some (Palette_Hide T m, case pc_Action cmd of Some act \<Rightarrow> Some (act args) | None \<Rightarrow> None)
              else None)
      else if k = ''up'' \<or> k = ''ctrl+p'' then
        Some (if pa_cursor m > 0 then m\<lparr>pa_cursor := pa_cursor m - 1\<rparr> else m, None)
      else if k = ''down'' \<or> k = ''ctrl+n'' then
        Some (if pa_cursor m < int (length (pa_matches m)) - 1 then m\<lparr>pa_cursor := pa_cursor m + 1\<rparr> else m, None)
      else let (inp, cmd) = ti_Update T k (pa_input m)
           in Some (palette_filter (ti_Value T inp) (m\<lparr>pa_input := inp\<rparr>), Some cmd))"

text \<open>Any other message goes to the text field.\<close>

definition Palette_Other ::
  "('ti, 'cmd) TextInput \<Rightarrow> nat \<Rightarrow> ('ti, 'cmd) PaletteModel \<Rightarrow> ('ti, 'cmd) PaletteModel \<times> 'cmd option" where
  "Palette_Other T n m =
     (if \<not> pa_visible m then (m, None)
      else let (inp, cmd) = ti_Other T n (pa_input m)
           in (palette_filter (ti_Value T inp) (m\<lparr>pa_input := inp\<rparr>), Some cmd))"

section \<open>Status bar\<close>

record StatusbarModel =
  st_keyHints :: string
  st_stats :: string
  st_mode :: string
  st_modeStyle :: string
  st_width :: int
  st_theme :: string

definition Status_New :: "string \<Rightarrow> StatusbarModel" where
  "Status_New th = \<lparr>st_keyHints = [], st_stats = [], st_mode = ''LIVE'', st_modeStyle = ''green'', st_width = 0, st_theme = th\<rparr>"

definition SetKeyHints :: "string \<Rightarrow> StatusbarModel \<Rightarrow> StatusbarModel" where "SetKeyHints s m = m\<lparr>st_keyHints := s\<rparr>"

definition SetStats :: "int \<Rightarrow> int \<Rightarrow> StatusbarModel \<Rightarrow> StatusbarModel" where
  "SetStats batches events m = m\<lparr>st_stats := '' batches:'' @ show_int batches @ ''  events:'' @ show_int events @ '' ''\<rparr>"

definition SetMode :: "string \<Rightarrow> string \<Rightarrow> StatusbarModel \<Rightarrow> StatusbarModel" where
  "SetMode label sty m = m\<lparr>st_mode := label, st_modeStyle := sty\<rparr>"

definition Status_SetWidth :: "int \<Rightarrow> StatusbarModel \<Rightarrow> StatusbarModel" where "Status_SetWidth w m = m\<lparr>st_width := w\<rparr>"
definition Status_SetTheme :: "string \<Rightarrow> StatusbarModel \<Rightarrow> StatusbarModel" where "Status_SetTheme th m = m\<lparr>st_theme := th\<rparr>"

text \<open>The spaces between the hints and the badge.\<close>

definition status_gap :: "StatusbarModel \<Rightarrow> int" where
  "status_gap m =
     (let badgeW = int (length (runes (st_mode m))) + 2;
          gap = st_width m - int (length (''  '' @ st_keyHints m)) - int (length (st_stats m)) - badgeW - 2
      in if gap < 0 then 0 else gap)"

section \<open>Sparkline\<close>

definition defaultCap :: int where "defaultCap = 120"

record SparkModel =
  sk_data :: "f64 list"
  sk_head :: nat
  sk_size :: nat
  sk_cap :: nat
  sk_peak :: f64
  sk_label :: string
  sk_unit :: string
  sk_width :: int

definition Spark_New :: "string \<Rightarrow> string \<Rightarrow> int \<Rightarrow> SparkModel" where
  "Spark_New label un width =
     (let c = (if width > defaultCap then width else defaultCap)
      in \<lparr>sk_data = replicate (nat c) 0, sk_head = 0, sk_size = 0, sk_cap = nat c, sk_peak = 0, sk_label = label,
          sk_unit = un, sk_width = width\<rparr>)"

definition spark_values :: "SparkModel \<Rightarrow> f64 list" where
  "spark_values m =
     (if sk_size m = 0 then []
      else map (\<lambda>i. sk_data m ! (((sk_head m + sk_cap m - sk_size m) mod sk_cap m + i) mod sk_cap m)) [0..<sk_size m])"

definition Spark_Push :: "f64 \<Rightarrow> SparkModel \<Rightarrow> SparkModel" where
  "Spark_Push v m =
     (let m1 = m\<lparr>sk_data := (sk_data m)[sk_head m := v], sk_head := (sk_head m + 1) mod sk_cap m,
                 sk_size := (if sk_size m < sk_cap m then sk_size m + 1 else sk_size m)\<rparr>
      in m1\<lparr>sk_peak := fold (\<lambda>d p. if d > p then d else p) (spark_values m1) 0\<rparr>)"

definition Latest :: "SparkModel \<Rightarrow> f64" where
  "Latest m = (if sk_size m = 0 then 0 else sk_data m ! ((sk_head m + sk_cap m - 1) mod sk_cap m))"

definition Spark_SetWidth :: "int \<Rightarrow> SparkModel \<Rightarrow> SparkModel" where "Spark_SetWidth w m = m\<lparr>sk_width := w\<rparr>"

text \<open>The heights of the bars, from 0 to 7, and the blanks after them.\<close>

definition spark_graphW :: "SparkModel \<Rightarrow> int" where
  "spark_graphW m = (let g = sk_width m - (17 + int (length (sk_unit m))) in if g < 4 then 4 else g)"

definition spark_bar :: "f64 \<Rightarrow> f64 \<Rightarrow> int" where
  "spark_bar peak v =
     (let idx = f64_trunc (f64_mul (f64_div v peak) 7) in if idx < 0 then 0 else if idx \<ge> 8 then 7 else idx)"

definition spark_bars :: "SparkModel \<Rightarrow> int list" where
  "spark_bars m = map (spark_bar (if sk_peak m = 0 then 1 else sk_peak m)) (lastn (nat (spark_graphW m)) (spark_values m))"

definition spark_pad :: "SparkModel \<Rightarrow> int" where
  "spark_pad m = max 0 (spark_graphW m - int (length (spark_bars m)))"

section \<open>Layout sizes\<close>

lemma BodyH_bounds: "4 \<le> BodyH l" "8 \<le> ly_TermH l \<Longrightarrow> HeaderH l + TabBarH l + BodyH l + StatusBarH l + FooterH l = ly_TermH l"
  by (simp_all add: BodyH_def ChromeH_def HeaderH_def TabBarH_def StatusBarH_def FooterH_def Let_def)

lemma ContentW_bound: "20 \<le> ContentW l"
  by (simp add: ContentW_def Let_def)

text \<open>Both parts of a split keep their minimum, and together they fill the length exactly when neither had to be raised.\<close>

lemma split_at_least_bounds: "k \<le> fst (split_at_least k len ratio)" "k \<le> snd (split_at_least k len ratio)"
  by (simp_all add: split_at_least_def Let_def)

lemma split_at_least_sum:
  "fst (split_at_least k len ratio) + snd (split_at_least k len ratio) = len \<longleftrightarrow>
   k \<le> f64_trunc (f64_mul (f64_of_int len) ratio) \<and> f64_trunc (f64_mul (f64_of_int len) ratio) \<le> len - k"
  by (auto simp: split_at_least_def Let_def)

section \<open>Tabs\<close>

definition tabbar_ok :: "TabbarModel \<Rightarrow> bool" where
  "tabbar_ok m \<longleftrightarrow> 0 \<le> tbar_active m \<and> tbar_active m < int (length (tbar_tabs m))"

lemma tabbar_ok_New: "tabs \<noteq> [] \<Longrightarrow> tabbar_ok (Tabbar_New tabs th)"
  by (simp add: tabbar_ok_def Tabbar_New_def)

lemma SetActive_ok: "tbar_tabs m \<noteq> [] \<Longrightarrow> tabbar_ok (SetActive i m) \<and> tbar_tabs (SetActive i m) = tbar_tabs m"
  by (simp add: tabbar_ok_def SetActive_def Let_def)

lemma SetActive_inside: "0 \<le> i \<Longrightarrow> i < int (length (tbar_tabs m)) \<Longrightarrow> SetActive i m = m\<lparr>tbar_active := i\<rparr>"
  by (simp add: SetActive_def)

lemma Tabbar_step: 
  assumes "tabbar_ok m"
  shows "Tabbar_Next m = Some (m\<lparr>tbar_active := (tbar_active m + 1) mod int (length (tbar_tabs m))\<rparr>)"
    and "Tabbar_Prev m = Some (m\<lparr>tbar_active := (tbar_active m - 1) mod int (length (tbar_tabs m))\<rparr>)"
  using assms by (auto simp: tabbar_ok_def Tabbar_Next_def Tabbar_Prev_def SetActive_inside)

lemma Tabbar_Prev_Next: "tabbar_ok m \<Longrightarrow> Option.bind (Tabbar_Next m) Tabbar_Prev = Some m"
proof -
  assume ok: "tabbar_ok m"
  let ?m = "m\<lparr>tbar_active := (tbar_active m + 1) mod int (length (tbar_tabs m))\<rparr>"
  have "0 < int (length (tbar_tabs m))" using ok unfolding tabbar_ok_def by linarith
  then have "tabbar_ok ?m" by (simp add: tabbar_ok_def del: of_nat_0_less_iff length_greater_0_conv)
  moreover have "((tbar_active m + 1) mod int (length (tbar_tabs m)) - 1) mod int (length (tbar_tabs m)) = tbar_active m"
    using ok by (simp add: tabbar_ok_def mod_diff_left_eq)
  ultimately show ?thesis using Tabbar_step(1) [OF ok] Tabbar_step(2) [of ?m] by simp
qed

section \<open>One item has the focus\<close>

locale focusable =
  fixes F :: "'a Focusable" and focused :: "'a \<Rightarrow> bool"
  assumes focus_focused: "focused (fo_Focus F a)"
    and blur_focused: "\<not> focused (fo_Blur F a)"
begin

definition ring_ok :: "'a FocusRing \<Rightarrow> bool" where
  "ring_ok f \<longleftrightarrow> (fr_items f \<noteq> [] \<longrightarrow> 0 \<le> fr_current f \<and> fr_current f < int (length (fr_items f)) \<and>
     (\<forall>i < length (fr_items f). focused (fr_items f ! i) \<longleftrightarrow> i = nat (fr_current f)))"

lemma ring_ok_New: "\<forall>a \<in> set items. \<not> focused a \<Longrightarrow> ring_ok (NewFocusRing F items)"
  by (auto simp: ring_ok_def NewFocusRing_def update_at_def nth_list_update focus_focused)

lemma ring_ok_refocus:
  "ring_ok f \<Longrightarrow> 0 \<le> i \<Longrightarrow> i < int (length (fr_items f)) \<Longrightarrow> ring_ok (refocus F i f)"
  by (auto simp: ring_ok_def refocus_def update_at_def nth_list_update focus_focused blur_focused)

lemma ring_ok_steps: "ring_ok f \<Longrightarrow> ring_ok (snd (Ring_Next F f)) \<and> ring_ok (snd (Ring_Prev F f)) \<and> ring_ok (snd (FocusAt F i f))"
  by (auto simp: Ring_Next_def Ring_Prev_def FocusAt_def Let_def ring_ok_refocus)

text \<open>The item an operation returns is the one with the focus.\<close>

lemma ring_returns: "ring_ok f \<Longrightarrow> fst (Ring_Next F f) = Some a \<Longrightarrow> focused a \<and> Ring_Current (snd (Ring_Next F f)) = Some a"
proof -
  assume a: "ring_ok f" "fst (Ring_Next F f) = Some a"
  let ?i = "(fr_current f + 1) mod int (length (fr_items f))"
  have ne: "fr_items f \<noteq> []" using a(2) by (auto simp: Ring_Next_def)
  then have i: "0 \<le> ?i" "?i < int (length (fr_items f))" by simp_all
  have ok: "ring_ok (refocus F ?i f)" by (rule ring_ok_refocus [OF a(1) i])
  have r: "Ring_Next F f = (Some (fr_items (refocus F ?i f) ! nat ?i), refocus F ?i f)" using ne by (simp add: Ring_Next_def Let_def)
  have l: "fr_items (refocus F ?i f) \<noteq> []" "fr_current (refocus F ?i f) = ?i" "length (fr_items (refocus F ?i f)) = length (fr_items f)"
    using ne by (simp_all add: refocus_def update_at_def)
  have "focused (fr_items (refocus F ?i f) ! nat ?i)"
    using ok l i unfolding ring_ok_def by (metis nat_less_iff)
  then show ?thesis using a(2) l by (simp add: r Ring_Current_def)
qed

end

interpretation table_focus: focusable "\<lparr>fo_Focus = Table_Focus, fo_Blur = Table_Blur\<rparr>" tb_focused
  by unfold_locales (simp_all add: Table_Focus_def Table_Blur_def)

section \<open>The palette\<close>

definition palette_ok :: "('ti, 'cmd) PaletteModel \<Rightarrow> bool" where
  "palette_ok m \<longleftrightarrow> set (pa_matches m) \<subseteq> set (pa_commands m) \<and> 0 \<le> pa_cursor m \<and>
     (pa_matches m = [] \<or> pa_cursor m < int (length (pa_matches m)))"

lemma palette_ok_filter: "0 \<le> pa_cursor m \<Longrightarrow> palette_ok (palette_filter q m)"
  by (auto simp: palette_ok_def palette_filter_def Let_def)

lemma palette_ok_basic:
  "palette_ok (Palette_New T cmds th)" "palette_ok (Palette_Show T m)" "palette_ok m \<Longrightarrow> palette_ok (Palette_Hide T m)"
  "palette_ok m \<Longrightarrow> palette_ok (Palette_SetTheme th m)" "palette_ok m \<Longrightarrow> palette_ok (AddCommand c m)"
  by (auto simp: palette_ok_def Palette_New_def Palette_Show_def Palette_Hide_def Palette_SetTheme_def AddCommand_def
      palette_filter_def Let_def)

lemma palette_ok_cursor:
  assumes "palette_ok m"
  shows "palette_ok (if pa_cursor m > 0 then m\<lparr>pa_cursor := pa_cursor m - 1\<rparr> else m)"
    and "palette_ok (if pa_cursor m < int (length (pa_matches m)) - 1 then m\<lparr>pa_cursor := pa_cursor m + 1\<rparr> else m)"
    and "palette_ok (palette_filter q (m\<lparr>pa_input := i\<rparr>))"
  using assms palette_ok_filter [of "m\<lparr>pa_input := i\<rparr>" q] by (auto simp: palette_ok_def)

lemma Palette_Update_ok:
  assumes "palette_ok m"
  shows "\<exists>m' c. Palette_Update T k m = Some (m', c) \<and> palette_ok m'"
proof -
  have c: "pa_matches m \<noteq> [] \<Longrightarrow> 0 \<le> pa_cursor m \<and> pa_cursor m < int (length (pa_matches m))"
    using assms by (simp add: palette_ok_def)
  obtain i cmd where t: "ti_Update T k (pa_input m) = (i, cmd)" by (metis surj_pair)
  show ?thesis
    using c palette_ok_cursor [OF assms] palette_ok_basic(3) [OF assms, of T] assms
    unfolding Palette_Update_def t Let_def by (simp split del: if_split) (simp split: if_split)
qed

lemma Palette_Other_ok: "palette_ok m \<Longrightarrow> palette_ok (fst (Palette_Other T n m))"
  by (auto simp: Palette_Other_def case_prod_beta intro: palette_ok_cursor(3))

lemma palette_filter_visible [simp]: "pa_visible (palette_filter q m) = pa_visible m"
  by (simp add: palette_filter_def Let_def)

lemma palette_hidden: "pa_visible (Palette_Show T m)" "\<not> pa_visible (Palette_Hide T m)"
  by (simp_all add: Palette_Show_def Palette_Hide_def)

section \<open>The sparkline is a circular buffer\<close>

definition spark_buffer :: "SparkModel \<Rightarrow> f64 Buffer" where
  "spark_buffer m = \<lparr>bf_data = sk_data m, bf_head = sk_head m, bf_size = sk_size m, bf_cap = sk_cap m\<rparr>"

definition spark_wf :: "SparkModel \<Rightarrow> bool" where
  "spark_wf m \<longleftrightarrow> buffer_wf (spark_buffer m)"

lemma spark_values_snapshot: "spark_values m = Buffer_Snapshot (spark_buffer m)"
  by (simp add: spark_values_def Buffer_Snapshot_def spark_buffer_def bf_start_def)

lemma spark_push_buffer: "spark_wf m \<Longrightarrow> spark_buffer (Spark_Push v m) = push_buffer v (spark_buffer m)"
  by (simp add: spark_wf_def buffer_wf_def spark_buffer_def Spark_Push_def push_buffer_def Push_def Let_def)

lemma spark_wf_New: "spark_wf (Spark_New label un width)"
  by (simp add: spark_wf_def buffer_wf_def spark_buffer_def Spark_New_def defaultCap_def Let_def)

interpretation spark: bounded_log Spark_Push spark_values sk_cap spark_wf
proof
  fix m :: SparkModel and x :: f64
  assume wf: "spark_wf m"
  then have b: "buffer_wf (spark_buffer m)" by (simp add: spark_wf_def)
  show "spark_values (Spark_Push x m) = lastn (sk_cap m) (spark_values m @ [x])"
    using push_contents_buffer [OF b, of x] wf by (simp add: spark_values_snapshot spark_push_buffer) (simp add: spark_buffer_def)
  show "sk_cap (Spark_Push x m) = sk_cap m" by (simp add: Spark_Push_def Let_def)
  show "spark_wf (Spark_Push x m)"
    using push_buffer_wf [OF b, of x] wf by (simp add: spark_wf_def spark_push_buffer)
  show "0 < sk_cap m" using b by (simp add: buffer_wf_def spark_buffer_def)
  show "length (spark_values m) \<le> sk_cap m"
    using b by (simp add: spark_values_def buffer_wf_def spark_buffer_def)
qed

lemma fold_max_ge: "p \<le> fold (\<lambda>d p. if d > p then d else p) ds p \<and> (\<forall>d \<in> set ds. (d::f64) \<le> fold (\<lambda>d p. if d > p then d else p) ds p)"
proof (induction ds arbitrary: p)
  case (Cons d ds)
  show ?case using Cons [of "if d > p then d else p"] by (auto split: if_splits)
qed simp

lemma spark_peak: "spark_wf m \<Longrightarrow> 0 \<le> sk_peak (Spark_Push v m) \<and> (\<forall>d \<in> set (spark_values (Spark_Push v m)). d \<le> sk_peak (Spark_Push v m))"
proof -
  have "sk_peak (Spark_Push v m) = fold (\<lambda>d p. if d > p then d else p) (spark_values (Spark_Push v m)) 0"
    by (simp add: Spark_Push_def Let_def spark_values_def)
  then show ?thesis using fold_max_ge [of 0 "spark_values (Spark_Push v m)"] by simp
qed

lemma spark_bars_fit: "int (length (spark_bars m)) + spark_pad m = spark_graphW m" "\<forall>b \<in> set (spark_bars m). 0 \<le> b \<and> b < 8"
proof -
  have "4 \<le> spark_graphW m" by (simp add: spark_graphW_def Let_def)
  moreover have "int (length (spark_bars m)) \<le> spark_graphW m"
    using \<open>4 \<le> spark_graphW m\<close> by (simp add: spark_bars_def) 
  ultimately show "int (length (spark_bars m)) + spark_pad m = spark_graphW m" by (simp add: spark_pad_def)
  show "\<forall>b \<in> set (spark_bars m). 0 \<le> b \<and> b < 8" by (auto simp: spark_bars_def spark_bar_def Let_def)
qed

end
