(* ===== verification/TuiViews.thy ===== *)
theory TuiViews
  imports TuiWidgets TuiCollect
begin

text \<open>
  The table tabs of the terminal interface, \<open>internal/tui/views\<close> \<open>cpu\<close>, \<open>memory\<close>, \<open>io\<close>,
  \<open>network\<close> and \<open>syscall\<close>. The five files repeat the same view around their own rows and
  columns: here the repeated methods are one definition each over the type of rows, and every
  tab has its rows, its columns and its methods as instances. \<open>sort.Slice\<close>, which sorts the
  shared slice of the batch in place, is the stable \<open>sort_key\<close>; the batch is returned with it.
\<close>

section \<open>Texts\<close>

definition em_dash :: string where "em_dash = bytes [0xE2, 0x80, 0x94]"

text \<open>The verbs \<open>%.1f\<close>, \<open>%.3f\<close>, \<open>%.4f\<close>: the exact value rounded to that many decimals.\<close>

definition pad_digits :: "nat \<Rightarrow> nat \<Rightarrow> string" where
  "pad_digits k n = map (\<lambda>i. char_of (n div 10 ^ i mod 10 + 48)) (rev [0..<k])"

definition fmt_fixed :: "nat \<Rightarrow> f64 \<Rightarrow> string" where
  "fmt_fixed k x =
     (let h = nat (rne (\<bar>x\<bar> * 10 ^ k))
      in (if x < 0 then ''-'' else []) @ show_nat (h div 10 ^ k) @ ''.'' @ pad_digits k h)"

text \<open>The width of a verb pads to that many runes, on the left or, with a minus sign, on the right.\<close>

definition pad_left :: "nat \<Rightarrow> string \<Rightarrow> string" where
  "pad_left n s = replicate (n - length (runes s)) CHR '' '' @ s"

definition pad_right :: "nat \<Rightarrow> string \<Rightarrow> string" where
  "pad_right n s = s @ replicate (n - length (runes s)) CHR '' ''"

definition fmtMBOpt :: "f64 \<Rightarrow> string" where
  "fmtMBOpt mb = (if mb = 0 then em_dash else fmt_fixed 2 mb)"

definition view_trunc :: "string \<Rightarrow> nat \<Rightarrow> string" where
  "view_trunc s0 n =
     (let s = fold TrimPrefix [''docker:'', ''cri:'', ''systemd:'', ''cgroup:'', ''host:''] s0; rs = runes s
      in if length rs \<le> n then s else concat (take (n - 1) rs) @ ellipsis)"

definition to_mb :: "64 word \<Rightarrow> f64" where
  "to_mb b = f64_div (f64_div (f64_of_int (uint b)) 1024) 1024"

section \<open>Comparisons of columns\<close>

definition asc_by :: "('r \<Rightarrow> 'k::linorder) \<Rightarrow> 'r \<Rightarrow> 'r \<Rightarrow> bool" where
  "asc_by key a b \<longleftrightarrow> key a < key b"

definition desc_by :: "('r \<Rightarrow> 'k::linorder) \<Rightarrow> 'r \<Rightarrow> 'r \<Rightarrow> bool" where
  "desc_by key a b \<longleftrightarrow> key a > key b"

interpretation asc_by: column_order "asc_by key" for key :: "'r \<Rightarrow> 'k::linorder"
  by (rule column_order_key [of _ key]) (simp add: asc_by_def)

interpretation desc_by: column_order "desc_by key" for key :: "'r \<Rightarrow> 'k::linorder"
  by (rule column_order_flip [of _ key]) (simp add: desc_by_def)

definition column :: "string \<Rightarrow> int \<Rightarrow> ('r \<Rightarrow> 'r \<Rightarrow> bool) \<Rightarrow> string \<Rightarrow> ('r \<Rightarrow> string) \<Rightarrow> 'r Column" where
  "column title w lt align fmt = \<lparr>col_Title = title, col_Width = w, col_Sortable = True, col_SortLess = lt,
     col_Format = Some (\<lambda>r i. fmt r), col_Align = align\<rparr>"

text \<open>A column that does not sort has no comparison; it is never called.\<close>

definition plain_column :: "string \<Rightarrow> int \<Rightarrow> string \<Rightarrow> ('r \<Rightarrow> string) \<Rightarrow> 'r Column" where
  "plain_column title w align fmt = \<lparr>col_Title = title, col_Width = w, col_Sortable = False, col_SortLess = (\<lambda>_ _. False),
     col_Format = Some (\<lambda>r i. fmt r), col_Align = align\<rparr>"

section \<open>The view around a table\<close>

datatype view_line = TitleLine string | TableLine table_style string | SearchLine string int

record ('r, 'ti) TableView =
  vw_tbl :: "'r TableModel"
  vw_search :: "'ti SearchbarModel"
  vw_theme :: Theme
  vw_w :: int
  vw_h :: int
  vw_dirty :: bool
  vw_cached :: "view_line list"
  vw_focused :: bool

definition View_New :: "('ti, 'cmd) TextInput \<Rightarrow> 'r Column list \<Rightarrow> Theme \<Rightarrow> ('r, 'ti) TableView" where
  "View_New T cols th = \<lparr>vw_tbl = Table_New cols th, vw_search = Search_New T th, vw_theme = th, vw_w = 0, vw_h = 0,
     vw_dirty = False, vw_cached = [], vw_focused = False\<rparr>"

definition View_SetRows :: "'r list \<Rightarrow> ('r, 'ti) TableView \<Rightarrow> ('r, 'ti) TableView" where
  "View_SetRows rows v = v\<lparr>vw_tbl := SetRows rows (vw_tbl v), vw_dirty := True, vw_cached := []\<rparr>"

definition View_SetSize :: "int \<Rightarrow> int \<Rightarrow> ('r, 'ti) TableView \<Rightarrow> ('r, 'ti) TableView" where
  "View_SetSize w h v = v\<lparr>vw_w := w, vw_h := h, vw_tbl := Table_SetSize w (h - 2) (vw_tbl v), vw_dirty := True, vw_cached := []\<rparr>"

definition View_SetTheme :: "Theme \<Rightarrow> ('r, 'ti) TableView \<Rightarrow> ('r, 'ti) TableView" where
  "View_SetTheme th v = v\<lparr>vw_theme := th, vw_tbl := Table_SetTheme th (vw_tbl v), vw_search := Search_SetTheme th (vw_search v),
     vw_dirty := True, vw_cached := []\<rparr>"

definition View_Focus :: "('r, 'ti) TableView \<Rightarrow> ('r, 'ti) TableView" where
  "View_Focus v = v\<lparr>vw_focused := True, vw_tbl := Table_Focus (vw_tbl v)\<rparr>"

definition View_Blur :: "('r, 'ti) TableView \<Rightarrow> ('r, 'ti) TableView" where
  "View_Blur v = v\<lparr>vw_focused := False, vw_tbl := Table_Blur (vw_tbl v)\<rparr>"

definition View_SelectedContainer :: "('r \<Rightarrow> string) \<Rightarrow> ('r, 'ti) TableView \<Rightarrow> string option" where
  "View_SelectedContainer container v =
     (case SelectedRow (vw_tbl v) of None \<Rightarrow> None | Some None \<Rightarrow> Some [] | Some (Some r) \<Rightarrow> Some (container r))"

text \<open>A key: while the search bar is open it edits the filter, otherwise it drives the table.\<close>

definition View_Update ::
  "('ti, 'cmd) TextInput \<Rightarrow> ('r \<Rightarrow> string \<Rightarrow> bool) \<Rightarrow> string \<Rightarrow> ('r, 'ti) TableView \<Rightarrow> (('r, 'ti) TableView \<times> 'cmd option) option" where
  "View_Update T matches k v =
     (if Search_Visible (vw_search v) then
        (if k = ''esc'' \<or> k = ''enter'' then
           let v1 = v\<lparr>vw_search := Search_Hide T (vw_search v)\<rparr>;
               v2 = (if k = ''esc'' then v1\<lparr>vw_search := Search_Reset T (vw_search v1), vw_tbl := SetFilter [] None (vw_tbl v1)\<rparr> else v1)
           in Some (v2\<lparr>vw_dirty := True\<rparr>, None)
         else
           let (s, cmd) = Search_Update T k (vw_search v)
           in Some (v\<lparr>vw_search := s, vw_tbl := SetFilter (Search_Value T s) (Some matches) (vw_tbl v), vw_dirty := True\<rparr>, cmd))
      else if k = ''/'' then Some (v\<lparr>vw_search := Search_Show T (vw_search v), vw_dirty := True\<rparr>, None)
      else map_option (\<lambda>t. (v\<lparr>vw_tbl := t, vw_dirty := True\<rparr>, None)) (Table_Update k (vw_tbl v)))"

definition View_View :: "('ti, 'cmd) TextInput \<Rightarrow> string \<Rightarrow> ('r, 'ti) TableView \<Rightarrow> (view_line list \<times> ('r, 'ti) TableView) option" where
  "View_View T title v =
     (if \<not> vw_dirty v \<and> vw_cached v \<noteq> [] then Some (vw_cached v, v)
      else case Table_View (vw_tbl v) of
             None \<Rightarrow> None
           | Some body \<Rightarrow>
               let text = TitleLine title # map (\<lambda>(st, l). TableLine st l) body
                     @ (if Search_Visible (vw_search v) then [SearchLine (ti_View T (sb_input (vw_search v))) (vw_w v)] else [])
               in Some (text, v\<lparr>vw_cached := text, vw_dirty := False\<rparr>))"

definition name_matches :: "('r \<Rightarrow> string) \<Rightarrow> 'r \<Rightarrow> string \<Rightarrow> bool" where
  "name_matches container r q = str_contains (ToLower (container r)) (ToLower q)"

section \<open>CPU\<close>

record CpuRow =
  cr_Container :: string
  cr_CPUSec :: f64
  cr_RunqMs :: f64
  cr_CtxPerSec :: f64
  cr_Threads :: int
  cr_NUMALoc :: f64
  cr_NUMARemote :: f64

definition numa_cell :: "(CpuRow \<Rightarrow> f64) \<Rightarrow> CpuRow \<Rightarrow> string" where
  "numa_cell v r = (if cr_NUMALoc r = 0 \<and> cr_NUMARemote r = 0 then em_dash else fmt_fixed 1 (v r))"

definition delta_title :: string where "delta_title = ''CPU(s/'' @ bytes [0xCE, 0x94] @ ''t)''"

definition cpu_columns :: "CpuRow Column list" where
  "cpu_columns = [
     column ''Container'' 24 (asc_by cr_Container) [] (\<lambda>r. view_trunc (cr_Container r) 24),
     column delta_title 10 (desc_by cr_CPUSec) ''right'' (\<lambda>r. fmt_fixed 4 (cr_CPUSec r)),
     column ''RunQ lat ms'' 12 (desc_by cr_RunqMs) ''right'' (\<lambda>r. fmt_fixed 3 (cr_RunqMs r)),
     column ''ctx-sw/s'' 10 (desc_by cr_CtxPerSec) ''right'' (\<lambda>r. fmt_fixed 1 (cr_CtxPerSec r)),
     column ''Threads'' 8 (desc_by cr_Threads) ''right'' (\<lambda>r. show_int (cr_Threads r)),
     column ''NUMA Loc%'' 10 (desc_by cr_NUMALoc) ''right'' (numa_cell cr_NUMALoc),
     column ''NUMA Rem%'' 10 (desc_by cr_NUMARemote) ''right'' (numa_cell cr_NUMARemote)]"

definition cpu_row :: "CpuSample \<Rightarrow> CpuRow" where
  "cpu_row s = \<lparr>cr_Container = cm_ContainerName s, cr_CPUSec = cm_CPUSeconds s, cr_RunqMs = f64_mul (cm_RunqLatencySeconds s) 1000,
     cr_CtxPerSec = cm_CtxSwitchesPerSec s, cr_Threads = uint (cm_ThreadCount s), cr_NUMALoc = cm_NUMALocalPct s,
     cr_NUMARemote = cm_NUMARemotePct s\<rparr>"

definition Cpu_New :: "('ti, 'cmd) TextInput \<Rightarrow> Theme \<Rightarrow> (CpuRow, 'ti) TableView" where
  "Cpu_New T th = View_New T cpu_columns th"

definition Cpu_SetData :: "DataBatch \<Rightarrow> (CpuRow, 'ti) TableView \<Rightarrow> (CpuRow, 'ti) TableView \<times> DataBatch" where
  "Cpu_SetData b v =
     (let samples = sort_key (\<lambda>s. - cm_CPUSeconds s) (db_CPU b)
      in (View_SetRows (map cpu_row samples) v, b\<lparr>db_CPU := samples\<rparr>))"

definition Cpu_SelectedContainer :: "(CpuRow, 'ti) TableView \<Rightarrow> string option" where
  "Cpu_SelectedContainer = View_SelectedContainer cr_Container"

definition Cpu_Update :: "('ti, 'cmd) TextInput \<Rightarrow> string \<Rightarrow> (CpuRow, 'ti) TableView \<Rightarrow> ((CpuRow, 'ti) TableView \<times> 'cmd option) option" where
  "Cpu_Update T = View_Update T (name_matches cr_Container)"

section \<open>Memory\<close>

record MemRow =
  mr_Container :: string
  mr_VirtMB :: f64
  mr_RSSMb :: f64
  mr_PSSMb :: f64
  mr_SharedMB :: f64
  mr_LimitMb :: string
  mr_FaultsSec :: f64
  mr_MajorSec :: f64
  mr_MinorSec :: f64
  mr_PSISome :: f64
  mr_PSIFull :: f64
  mr_TLBMiss :: f64

definition mem_columns :: "MemRow Column list" where
  "mem_columns = [
     column ''Container'' 22 (asc_by mr_Container) [] (\<lambda>r. view_trunc (mr_Container r) 22),
     column ''VIRT(MB)'' 9 (desc_by mr_VirtMB) ''right'' (\<lambda>r. fmtMBOpt (mr_VirtMB r)),
     column ''RSS(MB)'' 9 (desc_by mr_RSSMb) ''right'' (\<lambda>r. fmt_fixed 2 (mr_RSSMb r)),
     column ''PSS(MB)'' 9 (desc_by mr_PSSMb) ''right'' (\<lambda>r. fmtMBOpt (mr_PSSMb r)),
     column ''Shared(MB)'' 10 (desc_by mr_SharedMB) ''right'' (\<lambda>r. fmtMBOpt (mr_SharedMB r)),
     plain_column ''Limit(MB)'' 10 ''right'' mr_LimitMb,
     column ''Faults/s'' 9 (desc_by mr_FaultsSec) ''right'' (\<lambda>r. fmt_fixed 1 (mr_FaultsSec r)),
     column ''Maj/s'' 7 (desc_by mr_MajorSec) ''right'' (\<lambda>r. fmt_fixed 1 (mr_MajorSec r)),
     column ''Min/s'' 7 (desc_by mr_MinorSec) ''right'' (\<lambda>r. fmt_fixed 1 (mr_MinorSec r)),
     column ''PSI some%'' 10 (desc_by mr_PSISome) ''right'' (\<lambda>r. fmt_fixed 2 (mr_PSISome r)),
     column ''PSI full%'' 10 (desc_by mr_PSIFull) ''right'' (\<lambda>r. fmt_fixed 2 (mr_PSIFull r)),
     column ''TLBMiss/s'' 10 (desc_by mr_TLBMiss) ''right'' (\<lambda>r. fmt_fixed 1 (mr_TLBMiss r))]"

definition mem_row :: "MemSample \<Rightarrow> MemRow" where
  "mem_row s = \<lparr>mr_Container = ms_ContainerName s, mr_VirtMB = to_mb (ms_VirtBytes s), mr_RSSMb = to_mb (ms_MemoryBytes s),
     mr_PSSMb = to_mb (ms_PSSBytes s), mr_SharedMB = to_mb (ms_SharedBytes s),
     mr_LimitMb = (if ms_MemoryLimitBytes s > 0 then fmt_fixed 1 (to_mb (ms_MemoryLimitBytes s)) else ''unlimited''),
     mr_FaultsSec = ms_FaultsPerSec s, mr_MajorSec = ms_MajorPerSec s, mr_MinorSec = ms_MinorPerSec s, mr_PSISome = ms_PSISome s,
     mr_PSIFull = ms_PSIFull s, mr_TLBMiss = ms_TLBMissRate s\<rparr>"

definition Memory_New :: "('ti, 'cmd) TextInput \<Rightarrow> Theme \<Rightarrow> (MemRow, 'ti) TableView" where
  "Memory_New T th = View_New T mem_columns th"

definition Memory_SetData :: "DataBatch \<Rightarrow> (MemRow, 'ti) TableView \<Rightarrow> (MemRow, 'ti) TableView \<times> DataBatch" where
  "Memory_SetData b v =
     (let samples = sort_key (\<lambda>s. - uint (ms_MemoryBytes s)) (db_Mem b)
      in (View_SetRows (map mem_row samples) v, b\<lparr>db_Mem := samples\<rparr>))"

definition Memory_SelectedContainer :: "(MemRow, 'ti) TableView \<Rightarrow> string option" where
  "Memory_SelectedContainer = View_SelectedContainer mr_Container"

definition Memory_Update :: "('ti, 'cmd) TextInput \<Rightarrow> string \<Rightarrow> (MemRow, 'ti) TableView \<Rightarrow> ((MemRow, 'ti) TableView \<times> 'cmd option) option" where
  "Memory_Update T = View_Update T (name_matches mr_Container)"

section \<open>Disk\<close>

record IoRow =
  ir_Container :: string
  ir_ReadKBs :: f64
  ir_WriteKBs :: f64
  ir_RP95Ms :: f64
  ir_RP99Ms :: f64
  ir_WP95Ms :: f64
  ir_WP99Ms :: f64

definition io_columns :: "IoRow Column list" where
  "io_columns = [
     column ''Container'' 24 (asc_by ir_Container) [] (\<lambda>r. view_trunc (ir_Container r) 24),
     column ''Read KB/s'' 11 (desc_by ir_ReadKBs) ''right'' (\<lambda>r. fmt_fixed 2 (ir_ReadKBs r)),
     column ''Write KB/s'' 11 (desc_by ir_WriteKBs) ''right'' (\<lambda>r. fmt_fixed 2 (ir_WriteKBs r)),
     column ''R p95 ms'' 9 (desc_by ir_RP95Ms) ''right'' (\<lambda>r. fmt_fixed 2 (ir_RP95Ms r)),
     column ''R p99 ms'' 9 (desc_by ir_RP99Ms) ''right'' (\<lambda>r. fmt_fixed 2 (ir_RP99Ms r)),
     column ''W p95 ms'' 9 (desc_by ir_WP95Ms) ''right'' (\<lambda>r. fmt_fixed 2 (ir_WP95Ms r)),
     column ''W p99 ms'' 9 (desc_by ir_WP99Ms) ''right'' (\<lambda>r. fmt_fixed 2 (ir_WP99Ms r))]"

text \<open>A key without statistics reads the zero value of the map.\<close>

definition last_minute :: "DataBatch \<Rightarrow> string \<Rightarrow> Percentiles" where
  "last_minute b key = (case map_of (db_Percentiles b) key of Some w \<Rightarrow> ws_W60s w | None \<Rightarrow> zero_percentiles)"

definition io_row :: "DataBatch \<Rightarrow> IoSample \<Rightarrow> IoRow" where
  "io_row b s =
     (let r = last_minute b (latency_key (is_ContainerName s) ''io_read''); w = last_minute b (latency_key (is_ContainerName s) ''io_write'')
      in \<lparr>ir_Container = is_ContainerName s, ir_ReadKBs = f64_div (is_ReadBytesPerSec s) 1024,
          ir_WriteKBs = f64_div (is_WriteBytesPerSec s) 1024, ir_RP95Ms = pc_P95 r, ir_RP99Ms = pc_P99 r, ir_WP95Ms = pc_P95 w,
          ir_WP99Ms = pc_P99 w\<rparr>)"

definition Io_New :: "('ti, 'cmd) TextInput \<Rightarrow> Theme \<Rightarrow> (IoRow, 'ti) TableView" where
  "Io_New T th = View_New T io_columns th"

definition Io_SetData :: "DataBatch \<Rightarrow> (IoRow, 'ti) TableView \<Rightarrow> (IoRow, 'ti) TableView \<times> DataBatch" where
  "Io_SetData b v =
     (let samples = sort_key (\<lambda>s. - f64_add (is_ReadBytesPerSec s) (is_WriteBytesPerSec s)) (db_IO b)
      in (View_SetRows (map (io_row b) samples) v, b\<lparr>db_IO := samples\<rparr>))"

definition Io_SelectedContainer :: "(IoRow, 'ti) TableView \<Rightarrow> string option" where
  "Io_SelectedContainer = View_SelectedContainer ir_Container"

definition Io_Update :: "('ti, 'cmd) TextInput \<Rightarrow> string \<Rightarrow> (IoRow, 'ti) TableView \<Rightarrow> ((IoRow, 'ti) TableView \<times> 'cmd option) option" where
  "Io_Update T = View_Update T (name_matches ir_Container)"

section \<open>Network\<close>

record NetRow =
  nr_Container :: string
  nr_Flows :: int
  nr_Established :: int
  nr_TimeWait :: int
  nr_CloseWait :: int
  nr_Retransmits :: int

definition net_columns :: "NetRow Column list" where
  "net_columns = [
     column ''Container'' 24 (asc_by nr_Container) [] (\<lambda>r. view_trunc (nr_Container r) 24),
     column ''Flows'' 7 (desc_by nr_Flows) ''right'' (\<lambda>r. show_int (nr_Flows r)),
     column ''ESTABL'' 8 (desc_by nr_Established) ''right'' (\<lambda>r. show_int (nr_Established r)),
     column ''TIM_WAIT'' 10 (desc_by nr_TimeWait) ''right'' (\<lambda>r. show_int (nr_TimeWait r)),
     column ''CLO_WAIT'' 10 (desc_by nr_CloseWait) ''right'' (\<lambda>r. show_int (nr_CloseWait r)),
     column ''Retransmit'' 11 (desc_by nr_Retransmits) ''right'' (\<lambda>r. show_int (nr_Retransmits r))]"

definition net_row :: "NetSummary \<Rightarrow> NetRow" where
  "net_row s = \<lparr>nr_Container = nm_ContainerName s, nr_Flows = int (nm_ActiveFlows s), nr_Established = int (nm_Established s),
     nr_TimeWait = int (nm_TimeWait s), nr_CloseWait = int (nm_CloseWait s), nr_Retransmits = uint (nm_TotalRetransmits s)\<rparr>"

definition Network_New :: "('ti, 'cmd) TextInput \<Rightarrow> Theme \<Rightarrow> (NetRow, 'ti) TableView" where
  "Network_New T th = View_New T net_columns th"

definition Network_SetData :: "DataBatch \<Rightarrow> (NetRow, 'ti) TableView \<Rightarrow> (NetRow, 'ti) TableView \<times> DataBatch" where
  "Network_SetData b v =
     (let samples = sort_key (\<lambda>s. - int (nm_ActiveFlows s)) (db_Net b)
      in (View_SetRows (map net_row samples) v, b\<lparr>db_Net := samples\<rparr>))"

definition Network_SelectedContainer :: "(NetRow, 'ti) TableView \<Rightarrow> string option" where
  "Network_SelectedContainer = View_SelectedContainer nr_Container"

definition Network_Update :: "('ti, 'cmd) TextInput \<Rightarrow> string \<Rightarrow> (NetRow, 'ti) TableView \<Rightarrow> ((NetRow, 'ti) TableView \<times> 'cmd option) option" where
  "Network_Update T = View_Update T (name_matches nr_Container)"

section \<open>System calls\<close>

record SysRow =
  sr_Container :: string
  sr_Rank :: int
  sr_SyscallName :: string
  sr_Count :: int
  sr_Failures :: int
  sr_P50Ms :: f64
  sr_P95Ms :: f64
  sr_P99Ms :: f64
  sr_MaxMs :: f64

definition sys_columns :: "SysRow Column list" where
  "sys_columns = [
     column ''Container'' 24 (asc_by sr_Container) [] (\<lambda>r. view_trunc (sr_Container r) 24),
     plain_column ''Rank'' 5 ''right'' (\<lambda>r. CHR ''#'' # show_int (sr_Rank r)),
     column ''Syscall'' 16 (asc_by sr_SyscallName) [] (\<lambda>r. view_trunc (sr_SyscallName r) 16),
     column ''Count'' 10 (desc_by sr_Count) ''right'' (\<lambda>r. show_int (sr_Count r)),
     column ''Failures'' 9 (desc_by sr_Failures) ''right'' (\<lambda>r. show_int (sr_Failures r)),
     column ''p50 ms'' 8 (desc_by sr_P50Ms) ''right'' (\<lambda>r. fmt_fixed 2 (sr_P50Ms r)),
     column ''p95 ms'' 8 (desc_by sr_P95Ms) ''right'' (\<lambda>r. fmt_fixed 2 (sr_P95Ms r)),
     column ''p99 ms'' 8 (desc_by sr_P99Ms) ''right'' (\<lambda>r. fmt_fixed 2 (sr_P99Ms r)),
     column ''Max ms'' 8 (desc_by sr_MaxMs) ''right'' (\<lambda>r. fmt_fixed 2 (sr_MaxMs r))]"

definition sys_row :: "DataBatch \<Rightarrow> SyscallSummary \<Rightarrow> SysRow" where
  "sys_row b s =
     (let p = last_minute b (latency_key (su_ContainerName s) (''sys_'' @ show_word (su_SyscallID s)))
      in \<lparr>sr_Container = su_ContainerName s, sr_Rank = su_Rank s, sr_SyscallName = su_SyscallName s, sr_Count = sint (su_Count s),
          sr_Failures = sint (su_Failures s), sr_P50Ms = pc_P50 p, sr_P95Ms = pc_P95 p, sr_P99Ms = pc_P99 p, sr_MaxMs = pc_Max p\<rparr>)"

definition Syscall_New :: "('ti, 'cmd) TextInput \<Rightarrow> Theme \<Rightarrow> (SysRow, 'ti) TableView" where
  "Syscall_New T th = View_New T sys_columns th"

definition Syscall_SetData :: "DataBatch \<Rightarrow> (SysRow, 'ti) TableView \<Rightarrow> (SysRow, 'ti) TableView \<times> DataBatch" where
  "Syscall_SetData b v =
     (let samples = sort_key (\<lambda>s. (su_ContainerName s, su_Rank s)) (db_Sys b)
      in (View_SetRows (map (sys_row b) samples) v, b\<lparr>db_Sys := samples\<rparr>))"

definition Syscall_SelectedContainer :: "(SysRow, 'ti) TableView \<Rightarrow> string option" where
  "Syscall_SelectedContainer = View_SelectedContainer sr_Container"

definition syscall_matches :: "SysRow \<Rightarrow> string \<Rightarrow> bool" where
  "syscall_matches r q \<longleftrightarrow> name_matches sr_Container r q \<or> name_matches sr_SyscallName r q"

definition Syscall_Update :: "('ti, 'cmd) TextInput \<Rightarrow> string \<Rightarrow> (SysRow, 'ti) TableView \<Rightarrow> ((SysRow, 'ti) TableView \<times> 'cmd option) option" where
  "Syscall_Update T = View_Update T syscall_matches"

section \<open>Every column sorts\<close>

lemma sortable_column:
  "column_order lt \<Longrightarrow> sortable_columns (column t w lt al f # cs) \<longleftrightarrow> sortable_columns cs"
  "sortable_columns (plain_column t w al f # cs) \<longleftrightarrow> sortable_columns cs" "sortable_columns []"
  by (simp_all add: sortable_columns_def column_def plain_column_def)

lemma tab_columns_sortable:
  "sortable_columns cpu_columns" "sortable_columns mem_columns" "sortable_columns io_columns" "sortable_columns net_columns"
  "sortable_columns sys_columns"
  unfolding cpu_columns_def mem_columns_def io_columns_def net_columns_def sys_columns_def
  by (simp_all add: sortable_column asc_by.column_order_axioms desc_by.column_order_axioms)

section \<open>A tab stays consistent\<close>

text \<open>What happens to a tab: new data, layout, theme, focus, keys and rendering.\<close>

datatype 'r view_op = VRows "'r list" | VSize int int | VTheme Theme | VFocus | VBlur | VKey string | VRender string

fun view_step :: "('ti, 'cmd) TextInput \<Rightarrow> ('r \<Rightarrow> string \<Rightarrow> bool) \<Rightarrow> 'r view_op \<Rightarrow> ('r, 'ti) TableView \<Rightarrow> ('r, 'ti) TableView option" where
  "view_step T matches (VRows rows) v = Some (View_SetRows rows v)"
| "view_step T matches (VSize w h) v = Some (View_SetSize w h v)"
| "view_step T matches (VTheme th) v = Some (View_SetTheme th v)"
| "view_step T matches VFocus v = Some (View_Focus v)"
| "view_step T matches VBlur v = Some (View_Blur v)"
| "view_step T matches (VKey k) v = map_option fst (View_Update T matches k v)"
| "view_step T matches (VRender title) v = map_option snd (View_View T title v)"

fun view_run :: "('ti, 'cmd) TextInput \<Rightarrow> ('r \<Rightarrow> string \<Rightarrow> bool) \<Rightarrow> 'r view_op list \<Rightarrow> ('r, 'ti) TableView \<Rightarrow> ('r, 'ti) TableView option" where
  "view_run T matches [] v = Some v"
| "view_run T matches (op # ops) v = (case view_step T matches op v of None \<Rightarrow> None | Some v1 \<Rightarrow> view_run T matches ops v1)"

fun last_rows :: "'r list \<Rightarrow> 'r view_op list \<Rightarrow> 'r list" where
  "last_rows rs [] = rs"
| "last_rows rs (VRows rows # ops) = last_rows rows ops"
| "last_rows rs (_ # ops) = last_rows rs ops"

text \<open>
  The search in force after a sequence of events: what the text field held after the last key
  typed into the open search bar, and nothing after it was left with escape. It is computed
  from the events and the text field alone: whether the bar is open, the field, the search.
\<close>

fun search_step :: "('ti, 'cmd) TextInput \<Rightarrow> 'r view_op \<Rightarrow> bool \<times> 'ti \<times> string \<Rightarrow> bool \<times> 'ti \<times> string" where
  "search_step T (VKey k) (bar, x, q) =
     (if bar then
        (if k = ''esc'' then (False, ti_Reset T (ti_Blur T x), [])
         else if k = ''enter'' then (False, ti_Blur T x, q)
         else (True, fst (ti_Update T k x), ti_Value T (fst (ti_Update T k x))))
      else if k = ''/'' then (True, ti_Focus T x, q) else (False, x, q))"
| "search_step T _ st = st"

definition search_text :: "('ti, 'cmd) TextInput \<Rightarrow> 'r view_op list \<Rightarrow> string" where
  "search_text T ops = snd (snd (fold (search_step T) ops (False, ti_New T, [])))"

text \<open>The index is fresh: it is what filtering and sorting the present rows gives.\<close>

definition table_fresh :: "'r TableModel \<Rightarrow> bool" where
  "table_fresh m \<longleftrightarrow> tb_visible m = tb_visible (reindex m)"

definition shown_rows :: "'r TableModel \<Rightarrow> 'r list" where
  "shown_rows m = map ((!) (tb_rows m)) (tb_visible m)"

text \<open>The rows a drawing of the table has room for, from the scroll offset on.\<close>

definition drawn_rows :: "'r TableModel \<Rightarrow> 'r list" where
  "drawn_rows m = take (nat (bodyH m)) (drop (nat (tb_offset m)) (shown_rows m))"

lemma reindex_visible_cong:
  "tb_rows m' = tb_rows m \<Longrightarrow> row_passes m' = row_passes m \<Longrightarrow> tb_columns m' = tb_columns m \<Longrightarrow> tb_sortCol m' = tb_sortCol m \<Longrightarrow>
   tb_sortAsc m' = tb_sortAsc m \<Longrightarrow> tb_visible (reindex m') = tb_visible (reindex m)"
  using passing_cong [of m' m] by (simp add: reindex_def Let_def)

lemma table_fresh_reindex [intro]: "table_fresh (reindex m)"
  unfolding table_fresh_def by (rule reindex_visible_cong [symmetric]) simp_all

lemma table_fresh_cong:
  "table_fresh m \<Longrightarrow> tb_visible m' = tb_visible m \<Longrightarrow> tb_rows m' = tb_rows m \<Longrightarrow> row_passes m' = row_passes m \<Longrightarrow>
   tb_columns m' = tb_columns m \<Longrightarrow> tb_sortCol m' = tb_sortCol m \<Longrightarrow> tb_sortAsc m' = tb_sortAsc m \<Longrightarrow> table_fresh m'"
  unfolding table_fresh_def using reindex_visible_cong [of m' m] by simp

lemma table_fresh_New: "table_fresh (Table_New cols th)"
  by (simp add: table_fresh_def Table_New_def reindex_def passing_def sortRows_def Let_def)

lemma table_fresh_SetRows: "table_fresh (SetRows rows m)"
  unfolding SetRows_def Let_def by (auto intro: table_fresh_cong [OF table_fresh_reindex])

lemma table_fresh_SetFilter: "table_fresh (SetFilter q fn m)"
  unfolding SetFilter_def by (rule table_fresh_reindex)

lemma table_fresh_set:
  "table_fresh m \<Longrightarrow> table_fresh (Table_SetSize w h m)" "table_fresh m \<Longrightarrow> table_fresh (Table_SetTheme th m)"
  "table_fresh m \<Longrightarrow> table_fresh (Table_Focus m)" "table_fresh m \<Longrightarrow> table_fresh (Table_Blur m)"
  by (rule table_fresh_cong; simp add: Table_SetSize_def Table_SetTheme_def Table_Focus_def Table_Blur_def)+

lemma table_fresh_scroll: "table_fresh m \<Longrightarrow> table_fresh (scrollToCursor (m\<lparr>tb_cursor := c\<rparr>))"
  by (rule table_fresh_cong) simp_all

lemma cycle_loop_result: "cycle_loop b m is = Some m' \<Longrightarrow> m' = m \<or> table_fresh m'"
  by (induction "is") (auto simp: Let_def split: if_splits option.splits)

lemma table_fresh_Update: "table_fresh m \<Longrightarrow> Table_Update k m = Some m' \<Longrightarrow> table_fresh m'"
proof -
  assume m: "table_fresh m" and u: "Table_Update k m = Some m'"
  have top: "table_fresh (m\<lparr>tb_cursor := 0, tb_offset := 0\<rparr>)" by (rule table_fresh_cong [OF m]) simp_all
  have cyc: "cycleSort b m = Some m' \<Longrightarrow> table_fresh m'" for b
    using cycle_loop_result m unfolding cycleSort_def by blast
  show ?thesis
    using u m cyc top table_fresh_scroll [OF m] unfolding Table_Update_def moveUp_def moveDown_def
    by (simp split: if_splits; blast)
qed

text \<open>Events that cannot stop the program: no drawing and not the reverse sort key.\<close>

fun quiet_op :: "'r view_op \<Rightarrow> bool" where
  "quiet_op (VKey k) = (k \<noteq> ''S'')"
| "quiet_op (VRender title) = False"
| "quiet_op _ = True"

section \<open>What is drawn\<close>

lemma those_styled:
  "those (map f xs) = Some ls \<Longrightarrow> (\<And>x. x \<in> set xs \<Longrightarrow> f x = map_option (Pair (sty x)) (g x)) \<Longrightarrow>
   those (map g xs) = Some (map snd ls) \<and> map fst ls = map sty xs"
  by (induction xs arbitrary: ls) (auto split: option.splits)

definition row_style :: "'r TableModel \<Rightarrow> nat \<Rightarrow> table_style" where
  "row_style m i =
     (if tb_offset m + int i = tb_cursor m \<and> tb_focused m then SelectedStyle else if odd i then AltRowStyle else RowStyle)"

lemma int_upto_upt: "[a..b] = map (\<lambda>i. a + int i) [0..<nat (b + 1 - a)]"
  by (rule nth_equalityI) (simp_all add: algebra_simps)

lemma length_drawn: "0 \<le> tb_offset m \<Longrightarrow> length (drawn_rows m) = nat (body_end m - tb_offset m)"
  by (auto simp: drawn_rows_def body_end_def shown_rows_def)

lemma body_line_drawn:
  assumes "table_ok m" "i < length (drawn_rows m)"
  shows "body_line m (tb_offset m + int i) = map_option (Pair (row_style m i)) (renderRow m (drawn_rows m ! i))"
proof -
  have o: "0 \<le> tb_offset m" using assms(1) by (simp add: table_ok_def)
  have v: "nat (tb_offset m) + i < length (tb_visible m)" using assms(2) by (auto simp: drawn_rows_def shown_rows_def)
  have n: "nat (tb_offset m + int i) = nat (tb_offset m) + i" using o by simp
  let ?k = "tb_visible m ! (nat (tb_offset m) + i)"
  have k: "?k < length (tb_rows m)" using table_ok_visible [OF assms(1), of ?k] v by simp
  have "drawn_rows m ! i = tb_rows m ! ?k" using assms(2) v by (simp add: drawn_rows_def shown_rows_def)
  moreover have "at_int (tb_visible m) (tb_offset m + int i) = Some ?k" using o v n by (simp add: at_int_def)
  moreover have "at_int (tb_rows m) (int ?k) = Some (tb_rows m ! ?k)" using k by (simp add: at_int_def)
  moreover have "int i mod 2 = 1 \<longleftrightarrow> odd i" by presburger
  ultimately show ?thesis by (cases "renderRow m (tb_rows m ! ?k)") (auto simp: body_line_def row_style_def)
qed

text \<open>
  A drawing is the header, the separator, the drawn rows in their order, blank lines and the
  scroll indicator; the row under the cursor is marked if the table has the focus.
\<close>

lemma Table_View_drawn:
  assumes "table_ok m" "Table_View m = Some ls" "tb_width m \<noteq> 0"
  shows "\<exists>hdr sep body blanks ind. ls = [(HeaderStyle, hdr), (SeparatorStyle, sep)] @ body @ blanks @ ind
    \<and> those (map (renderRow m) (drawn_rows m)) = Some (map snd body) \<and> map fst body = map (row_style m) [0..<length (drawn_rows m)]
    \<and> length blanks = nat (bodyH m - (body_end m - tb_offset m)) \<and> (\<forall>b \<in> set blanks. fst b = PlainStyle)
    \<and> scroll_indicator m = Some ind"
proof -
  have o: "0 \<le> tb_offset m" using assms(1) by (simp add: table_ok_def)
  obtain hdr sep body blank ind where d: "ls = [(HeaderStyle, hdr), (SeparatorStyle, sep)] @ body
      @ replicate (nat (bodyH m - (body_end m - tb_offset m))) (PlainStyle, blank) @ ind"
    "those (map (body_line m) [tb_offset m..body_end m - 1]) = Some body" "scroll_indicator m = Some ind"
    using assms(2,3) by (auto simp: Table_View_def simp del: replicate_eq_replicate split: bind_splits)
  have "[tb_offset m..body_end m - 1] = map (\<lambda>i. tb_offset m + int i) [0..<length (drawn_rows m)]"
    by (simp only: int_upto_upt length_drawn [OF o]) simp
  then have "those (map (\<lambda>i. body_line m (tb_offset m + int i)) [0..<length (drawn_rows m)]) = Some body"
    using d(2) by (simp add: comp_def)
  from those_styled [OF this, where g = "\<lambda>i. renderRow m (drawn_rows m ! i)" and sty = "row_style m"]
  have b: "those (map (\<lambda>i. renderRow m (drawn_rows m ! i)) [0..<length (drawn_rows m)]) = Some (map snd body)"
    "map fst body = map (row_style m) [0..<length (drawn_rows m)]"
    using body_line_drawn [OF assms(1)] by auto
  have "map (\<lambda>i. renderRow m (drawn_rows m ! i)) [0..<length (drawn_rows m)] = map (renderRow m) (drawn_rows m)"
    by (rule nth_equalityI) simp_all
  then show ?thesis using b d(1,3) by (intro exI conjI) auto
qed

lemma selected_style:
  assumes "map fst body = map (row_style m) [0..<length (drawn_rows m)]"
  shows "\<forall>i < length body. (fst (body ! i) = SelectedStyle) = (tb_offset m + int i = tb_cursor m \<and> tb_focused m)"
proof (intro allI impI)
  fix i assume i: "i < length body"
  have l: "length body = length (drawn_rows m)" using arg_cong [OF assms, of length] by simp
  have "fst (body ! i) = row_style m i" using arg_cong [OF assms, of "\<lambda>xs. xs ! i"] i l by simp
  then show "(fst (body ! i) = SelectedStyle) = (tb_offset m + int i = tb_cursor m \<and> tb_focused m)" by (simp add: row_style_def)
qed

section \<open>The tabs\<close>

lemma filter_frame:
  "tb_filter (scrollToCursor m) = tb_filter m" "tb_filterFn (scrollToCursor m) = tb_filterFn m"
  "tb_filter (SetRows rows m) = tb_filter m" "tb_filterFn (SetRows rows m) = tb_filterFn m"
  by (simp_all add: scrollToCursor_def SetRows_def Let_def)

lemma Table_Update_filter:
  assumes "Table_Update k m = Some m'"
  shows "tb_filter m' = tb_filter m \<and> tb_filterFn m' = tb_filterFn m"
proof -
  have cyc: "cycle_loop b m js = Some m' \<Longrightarrow> tb_filter m' = tb_filter m \<and> tb_filterFn m' = tb_filterFn m" for b js
    by (induction js) (auto simp: Let_def split: if_splits option.splits)
  show ?thesis
    using assms cyc [of True] cyc [of False]
    unfolding Table_Update_def moveUp_def moveDown_def cycleSort_def
    by (auto simp: filter_frame split: if_splits)
qed

locale table_tab =
  fixes cols :: "'r Column list" and container :: "'r \<Rightarrow> string" and matches :: "'r \<Rightarrow> string \<Rightarrow> bool"
  assumes sortable: "sortable_columns cols"
begin

definition tab_ok :: "('r, 'ti) TableView \<Rightarrow> bool" where
  "tab_ok v \<longleftrightarrow> table_ok (vw_tbl v) \<and> table_fresh (vw_tbl v)"

lemma tab_ok_New: "tab_ok (View_New T cols th)"
  by (simp add: tab_ok_def View_New_def table_ok_New [OF sortable] table_fresh_New)

lemma tab_ok_step: "tab_ok v \<Longrightarrow> view_step T matches op v = Some v' \<Longrightarrow> tab_ok v'"
proof (cases op)
  case (VKey k)
  assume v: "tab_ok v" "view_step T matches op v = Some v'"
  obtain s c where s: "Search_Update T k (vw_search v) = (s, c)" by (metis surj_pair)
  show ?thesis using v VKey s
    by (auto simp: tab_ok_def View_Update_def Let_def table_ok_SetFilter table_fresh_SetFilter table_ok_Update table_fresh_Update
        split: if_splits)
next
  case (VRender t)
  assume v: "tab_ok v" "view_step T matches op v = Some v'"
  then show ?thesis using VRender by (auto simp: tab_ok_def View_View_def Let_def split: if_splits option.splits)
qed (auto simp: tab_ok_def View_SetRows_def View_SetSize_def View_SetTheme_def View_Focus_def View_Blur_def
    table_ok_SetRows table_fresh_SetRows table_ok_set table_fresh_set)

lemma tab_ok_run: "tab_ok v \<Longrightarrow> view_run T matches ops v = Some v' \<Longrightarrow> tab_ok v'"
  by (induction ops arbitrary: v) (auto split: option.splits intro: tab_ok_step)

text \<open>The filter of the table is the search.\<close>

definition searched :: "('r, 'ti) TableView \<Rightarrow> bool \<times> 'ti \<times> string \<Rightarrow> bool" where
  "searched v st \<longleftrightarrow> st = (sb_visible (vw_search v), sb_input (vw_search v), tb_filter (vw_tbl v))
     \<and> (tb_filter (vw_tbl v) = [] \<or> tb_filterFn (vw_tbl v) = Some matches)"

lemma searched_New: "searched (View_New T cols th) (False, ti_New T, [])"
  by (simp add: searched_def View_New_def Table_New_def Search_New_def)

lemma searched_step:
  assumes "searched v st" "view_step T matches op v = Some v'"
  shows "searched v' (search_step T op st)"
proof (cases op)
  case (VKey k)
  show ?thesis
  proof (cases "sb_visible (vw_search v)")
    case True
    then show ?thesis using assms VKey
      by (auto simp: searched_def View_Update_def Search_Visible_def Search_Hide_def Search_Reset_def Search_Update_def
          Search_Value_def SetFilter_def Let_def case_prod_beta)
  next
    case False
    then show ?thesis using assms VKey
      by (auto simp: searched_def View_Update_def Search_Visible_def Search_Show_def dest: Table_Update_filter split: if_splits)
  qed
next
  case (VRender t)
  then show ?thesis using assms by (auto simp: searched_def View_View_def Let_def split: if_splits option.splits)
qed (use assms in \<open>auto simp: searched_def View_SetRows_def filter_frame View_SetSize_def Table_SetSize_def View_SetTheme_def
    Table_SetTheme_def Search_SetTheme_def View_Focus_def Table_Focus_def View_Blur_def Table_Blur_def Let_def\<close>)

lemma searched_run: "searched v st \<Longrightarrow> view_run T matches ops v = Some v' \<Longrightarrow> searched v' (fold (search_step T) ops st)"
proof (induction ops arbitrary: v st)
  case (Cons op ops)
  then obtain v1 where v1: "view_step T matches op v = Some v1" "view_run T matches ops v1 = Some v'" by (auto split: option.splits)
  show ?case using Cons.IH [OF searched_step [OF Cons.prems(1) v1(1)] v1(2)] by simp
qed simp

lemma tab_filter:
  assumes "view_run T matches ops (View_New T cols th) = Some v"
  shows "row_passes (vw_tbl v) r \<longleftrightarrow> search_text T ops = [] \<or> matches r (search_text T ops)"
  using searched_run [OF searched_New assms] by (auto simp: searched_def search_text_def row_passes_def)

lemma tab_run_some: "tab_ok v \<Longrightarrow> list_all quiet_op ops \<Longrightarrow> \<exists>v'. view_run T matches ops v = Some v'"
proof (induction ops arbitrary: v)
  case (Cons op ops)
  have "\<exists>v1. view_step T matches op v = Some v1"
  proof (cases op)
    case (VKey k)
    have "Table_Update k (vw_tbl v) \<noteq> None"
      using Cons.prems VKey Table_Update_panics_iff [of "vw_tbl v" k] by (simp add: tab_ok_def)
    then show ?thesis using VKey by (auto simp: View_Update_def Let_def case_prod_beta)
  qed (use Cons.prems in simp_all)
  then obtain v1 where v1: "view_step T matches op v = Some v1" by blast
  then show ?case using Cons.IH [OF tab_ok_step [OF Cons.prems(1) v1]] Cons.prems(2) by simp
qed simp

lemma tab_selection:
  assumes "view_run T matches ops (View_New T cols th) = Some v"
  shows "View_SelectedContainer container v = Some [] \<and> filter (row_passes (vw_tbl v)) (tb_rows (vw_tbl v)) = [] \<or>
    (\<exists>r \<in> set (tb_rows (vw_tbl v)). row_passes (vw_tbl v) r \<and> View_SelectedContainer container v = Some (container r))"
  using SelectedRow_ok [of "vw_tbl v"] tab_ok_run [OF tab_ok_New assms]
  by (auto simp: tab_ok_def View_SelectedContainer_def)

lemma tab_shown:
  assumes "view_run T matches ops (View_New T cols th) = Some v" "m = vw_tbl v"
  shows "mset (shown_rows m) = mset (filter (row_passes m) (tb_rows m))"
    and "0 \<le> tb_sortCol m \<and> col_Sortable (tb_columns m ! nat (tb_sortCol m)) \<longrightarrow>
      sorted_wrt (\<lambda>a b. \<not> (if tb_sortAsc m then col_SortLess (tb_columns m ! nat (tb_sortCol m)) b a
         else col_SortLess (tb_columns m ! nat (tb_sortCol m)) a b)) (shown_rows m)"
proof -
  have ok: "table_ok m" "table_fresh m" using tab_ok_run [OF tab_ok_New assms(1)] assms(2) by (simp_all add: tab_ok_def)
  have "mset (tb_visible m) = mset (passing m)" using ok(1) by (simp only: table_ok_def)
  then have "mset (shown_rows m) = mset (map ((!) (tb_rows m)) (passing m))" by (simp only: shown_rows_def mset_map)
  also have "map ((!) (tb_rows m)) (passing m) = filter (row_passes m) (map ((!) (tb_rows m)) [0..<length (tb_rows m)])"
    by (simp only: passing_def filter_map comp_def)
  finally show "mset (shown_rows m) = mset (filter (row_passes m) (tb_rows m))" by (simp only: map_nth)
  show "0 \<le> tb_sortCol m \<and> col_Sortable (tb_columns m ! nat (tb_sortCol m)) \<longrightarrow>
      sorted_wrt (\<lambda>a b. \<not> (if tb_sortAsc m then col_SortLess (tb_columns m ! nat (tb_sortCol m)) b a
         else col_SortLess (tb_columns m ! nat (tb_sortCol m)) a b)) (shown_rows m)" (is "?c \<longrightarrow> _")
  proof
    assume c: ?c
    let ?lt = "col_SortLess (tb_columns m ! nat (tb_sortCol m))"
    have r: "tb_sortCol m < int (length (tb_columns m))" using ok(1) by (simp add: table_ok_def)
    then have "tb_columns m ! nat (tb_sortCol m) \<in> set (tb_columns m)" using c by (intro nth_mem) (simp add: nat_less_iff)
    then have o: "column_order ?lt" using ok(1) c by (simp add: table_ok_def sortable_columns_def)
    have "tb_visible m = sortRows (tb_rows m) (passing m) ?lt (tb_sortAsc m)"
      using ok(2) c r unfolding table_fresh_def by (simp add: reindex_def Let_def)
    then show "sorted_wrt (\<lambda>a b. \<not> (if tb_sortAsc m then ?lt b a else ?lt a b)) (shown_rows m)"
      using column_order.sortRows_ordered [OF o, of "tb_rows m" "tb_sortAsc m" "passing m"]
      by (simp add: shown_rows_def sorted_wrt_map row_swap_def)
  qed
qed

lemma tab_rows_step:
  "view_step T matches op v = Some v' \<Longrightarrow> tb_rows (vw_tbl v') = last_rows (tb_rows (vw_tbl v)) [op] \<and> tb_columns (vw_tbl v') = tb_columns (vw_tbl v)"
proof (cases op)
  case (VKey k)
  assume v: "view_step T matches op v = Some v'"
  have cyc: "cycle_loop b m js = Some m' \<Longrightarrow> tb_rows m' = tb_rows m \<and> tb_columns m' = tb_columns m" for b js and m m' :: "'r TableModel"
    by (induction js) (auto simp: Let_def split: if_splits option.splits)
  have u: "Table_Update k m = Some m' \<Longrightarrow> tb_rows m' = tb_rows m \<and> tb_columns m' = tb_columns m" for m m' :: "'r TableModel"
    using cyc by (auto simp: Table_Update_def moveUp_def moveDown_def cycleSort_def split: if_splits)
  obtain s c where s: "Search_Update T k (vw_search v) = (s, c)" by (metis surj_pair)
  show ?thesis using v VKey s u by (auto simp: View_Update_def SetFilter_def Let_def split: if_splits)
next
  case (VRender t)
  assume "view_step T matches op v = Some v'"
  then show ?thesis using VRender by (auto simp: View_View_def Let_def split: if_splits option.splits)
qed (auto simp: View_SetRows_def SetRows_def View_SetSize_def Table_SetSize_def View_SetTheme_def Table_SetTheme_def View_Focus_def
    Table_Focus_def View_Blur_def Table_Blur_def Let_def)

lemma tab_rows:
  "view_run T matches ops v = Some v' \<Longrightarrow> tb_rows (vw_tbl v') = last_rows (tb_rows (vw_tbl v)) ops \<and> tb_columns (vw_tbl v') = tb_columns (vw_tbl v)"
proof (induction ops arbitrary: v)
  case (Cons op ops)
  from Cons.prems obtain v1 where v1: "view_step T matches op v = Some v1" "view_run T matches ops v1 = Some v'"
    by (auto split: option.splits)
  have "last_rows rs (op # ops) = last_rows (last_rows rs [op]) ops" for rs by (cases op) simp_all
  then show ?case using Cons.IH [OF v1(2)] tab_rows_step [OF v1(1)] by metis
qed simp

end

interpretation cpu_tab: table_tab cpu_columns cr_Container "name_matches cr_Container"
  by unfold_locales (rule tab_columns_sortable)
interpretation memory_tab: table_tab mem_columns mr_Container "name_matches mr_Container"
  by unfold_locales (rule tab_columns_sortable)
interpretation io_tab: table_tab io_columns ir_Container "name_matches ir_Container"
  by unfold_locales (rule tab_columns_sortable)
interpretation network_tab: table_tab net_columns nr_Container "name_matches nr_Container"
  by unfold_locales (rule tab_columns_sortable)
interpretation syscall_tab: table_tab sys_columns sr_Container syscall_matches
  by unfold_locales (rule tab_columns_sortable)

end
