(* ===== verification/BpfLoaders.thy ===== *)
theory BpfLoaders
  imports Prelude "HOL-Library.Multiset"
begin

text \<open>
  The loaders of \<open>cmd/observer/main.go\<close>, which \<open>cmd/tui/collectors.go\<close> repeats: each loads
  a BPF object, attaches its probes, looks up its maps and wraps them in a collector. The
  calls into the eBPF library and the operating system are parameters that fail with a message
  or succeed. The state holds the handles the program opened and did not close itself. A link
  whose reference is lost is among them: the library documents that it closes such a link when
  the garbage collector finalises it, at no set time, and that a program must close its links
  itself not to leak them. A Go map of the library is named by its object file and its name.
\<close>

type_synonym bpf_map = "string \<times> string"

record Collection =
  co_path :: string
  co_Programs :: "string list"
  co_Maps :: "string list"

datatype bpf_handle = BCollection string | BTracepoint string string | BKprobe string | BReader bpf_map

record bpf_lib =
  bl_LoadCollectionSpec :: "string \<Rightarrow> string option"
  bl_NewCollection :: "string \<Rightarrow> string + Collection"
  bl_NewCollectionWithOptions :: "string \<Rightarrow> (string \<times> bpf_map) list \<Rightarrow> string + Collection"
  bl_Tracepoint :: "string \<Rightarrow> string \<Rightarrow> string \<Rightarrow> string option"
  bl_Kprobe :: "string \<Rightarrow> string \<Rightarrow> string option"
  bl_NewReader :: "bpf_map \<Rightarrow> string option"
  bl_MkdirAll :: "string option"
  bl_Pin :: "bpf_map \<Rightarrow> string option"

text \<open>The handles opened and not closed by the code, and the map pinned as \<open>process_tree_map\<close>.\<close>

record loader_state =
  lo_unclosed :: "bpf_handle list"
  lo_pinned :: "bpf_map option"

datatype loader_error =
    LoadSpec string | NewCollection string | NewCollectionReplaced string
  | ProgramNotFound string | Attaching string string string
  | MapNotFound string | OpeningReader string string

type_synonym 'a loading = "loader_state \<Rightarrow> (loader_error + 'a) \<times> loader_state"

definition lbind :: "'a loading \<Rightarrow> ('a \<Rightarrow> 'b loading) \<Rightarrow> 'b loading" where
  "lbind m f s = (case m s of (Inl err, s1) \<Rightarrow> (Inl err, s1) | (Inr x, s1) \<Rightarrow> f x s1)"

definition lreturn :: "'a \<Rightarrow> 'a loading" where
  "lreturn x s = (Inr x, s)"

section \<open>Handles\<close>

definition add_handle :: "bpf_handle \<Rightarrow> loader_state \<Rightarrow> loader_state" where
  "add_handle h s = s\<lparr>lo_unclosed := lo_unclosed s @ [h]\<rparr>"

definition drop_handles :: "bpf_handle list \<Rightarrow> loader_state \<Rightarrow> loader_state" where
  "drop_handles hs s = s\<lparr>lo_unclosed := fold remove1 hs (lo_unclosed s)\<rparr>"

definition coll_Close :: "Collection \<Rightarrow> loader_state \<Rightarrow> loader_state" where
  "coll_Close coll = drop_handles [BCollection (co_path coll)]"

definition closeLinks :: "bpf_handle list \<Rightarrow> loader_state \<Rightarrow> loader_state" where
  "closeLinks links = drop_handles links"

type_synonym probe = "string \<times> string \<times> string"

fun attachProbes :: "bpf_lib \<Rightarrow> Collection \<Rightarrow> probe list \<Rightarrow> loader_state \<Rightarrow> (bpf_handle list \<times> loader_error option) \<times> loader_state" where
  "attachProbes L coll [] s = (([], None), s)"
| "attachProbes L coll ((cat, ev, prog) # ps) s =
     (if prog \<notin> set (co_Programs coll) then (([], Some (ProgramNotFound prog)), s)
      else case bl_Tracepoint L cat ev prog of
        Some err \<Rightarrow> (([], Some (Attaching cat ev err)), s)
      | None \<Rightarrow> (let ((links, err), s1) = attachProbes L coll ps (add_handle (BTracepoint cat ev) s)
                in ((BTracepoint cat ev # links, err), s1)))"

text \<open>The steps the loaders share; an error closes what the code closes there.\<close>

definition load_collection :: "bpf_lib \<Rightarrow> string \<Rightarrow> Collection loading" where
  "load_collection L path s =
     (case bl_LoadCollectionSpec L path of
        Some err \<Rightarrow> (Inl (LoadSpec err), s)
      | None \<Rightarrow> (case bl_NewCollection L path of
          Inl err \<Rightarrow> (Inl (NewCollection err), s)
        | Inr coll \<Rightarrow> (Inr (coll\<lparr>co_path := path\<rparr>), add_handle (BCollection path) s)))"

definition loadSecurityBPF :: "bpf_lib \<Rightarrow> string \<Rightarrow> bpf_map \<Rightarrow> Collection loading" where
  "loadSecurityBPF L path sharedTreeMap s =
     (case bl_LoadCollectionSpec L path of
        Some err \<Rightarrow> (Inl (LoadSpec err), s)
      | None \<Rightarrow> (case bl_NewCollectionWithOptions L path [(''process_tree_map'', sharedTreeMap)] of
          Inl err \<Rightarrow> (Inl (NewCollectionReplaced err), s)
        | Inr coll \<Rightarrow> (Inr (coll\<lparr>co_path := path\<rparr>), add_handle (BCollection path) s)))"

definition attach_or_close :: "bpf_lib \<Rightarrow> Collection \<Rightarrow> probe list \<Rightarrow> bpf_handle list loading" where
  "attach_or_close L coll probes s =
     (case attachProbes L coll probes s of
        ((links, Some err), s1) \<Rightarrow> (Inl err, coll_Close coll s1)
      | ((links, None), s1) \<Rightarrow> (Inr links, s1))"

definition close_both :: "Collection \<Rightarrow> bpf_handle list \<Rightarrow> loader_state \<Rightarrow> loader_state" where
  "close_both coll links s = closeLinks links (coll_Close coll s)"

definition find_map :: "Collection \<Rightarrow> bpf_handle list \<Rightarrow> string \<Rightarrow> bpf_map loading" where
  "find_map coll links name s =
     (if name \<in> set (co_Maps coll) then (Inr (co_path coll, name), s) else (Inl (MapNotFound name), close_both coll links s))"

text \<open>The constructors of the collectors open a reader on the ring buffer, and do nothing else that can fail.\<close>

definition new_reader :: "bpf_lib \<Rightarrow> bpf_map \<Rightarrow> bpf_map loading" where
  "new_reader L m s =
     (case bl_NewReader L m of
        Some err \<Rightarrow> (Inl (OpeningReader (snd m) err), s)
      | None \<Rightarrow> (Inr m, add_handle (BReader m) s))"

definition reader_or_close :: "bpf_lib \<Rightarrow> Collection \<Rightarrow> bpf_handle list \<Rightarrow> bpf_map \<Rightarrow> bpf_map loading" where
  "reader_or_close L coll links m s =
     (case new_reader L m s of (Inl err, s1) \<Rightarrow> (Inl err, close_both coll links s1) | (Inr r, s1) \<Rightarrow> (Inr r, s1))"

text \<open>What a loader returns: the ring buffer its collector reads, and the links.\<close>

record Loaded =
  ld_reader :: "bpf_map option"
  ld_links :: "bpf_handle list"

section \<open>Metric loaders\<close>

definition cpu_probes :: "probe list" where
  "cpu_probes = [(''sched'', ''sched_switch'', ''trace_sched_switch''), (''sched'', ''sched_wakeup'', ''trace_sched_wakeup''),
     (''sched'', ''sched_process_fork'', ''trace_sched_fork''), (''sched'', ''sched_process_exit'', ''trace_sched_exit'')]"

definition loadCPU :: "bpf_lib \<Rightarrow> string \<Rightarrow> (Loaded \<times> Collection) loading" where
  "loadCPU L objPath =
     lbind (load_collection L objPath) (\<lambda>coll.
     lbind (attach_or_close L coll cpu_probes) (\<lambda>links.
     lbind (find_map coll links ''cpu_stats_map'') (\<lambda>cpuMap.
     lreturn (\<lparr>ld_reader = None, ld_links = links\<rparr>, coll))))"

text \<open>The memory loader attaches its two probes itself: the first is mandatory, the second optional.\<close>

definition loadMemory :: "bpf_lib \<Rightarrow> string \<Rightarrow> Loaded loading" where
  "loadMemory L objPath =
     lbind (load_collection L objPath) (\<lambda>coll.
     lbind (\<lambda>s. if ''trace_oom_mark_victim'' \<notin> set (co_Programs coll) then (Inl (ProgramNotFound ''trace_oom_mark_victim''), coll_Close coll s)
                else case bl_Tracepoint L ''oom'' ''mark_victim'' ''trace_oom_mark_victim'' of
                  Some err \<Rightarrow> (Inl (Attaching ''oom'' ''mark_victim'' err), coll_Close coll s)
                | None \<Rightarrow> (Inr [BTracepoint ''oom'' ''mark_victim''], add_handle (BTracepoint ''oom'' ''mark_victim'') s)) (\<lambda>links0.
     lbind (\<lambda>s. if ''trace_page_fault_user'' \<in> set (co_Programs coll) \<and> bl_Tracepoint L ''exceptions'' ''page_fault_user'' ''trace_page_fault_user'' = None
                then (Inr (links0 @ [BTracepoint ''exceptions'' ''page_fault_user'']), add_handle (BTracepoint ''exceptions'' ''page_fault_user'') s)
                else (Inr links0, s)) (\<lambda>links.
     lbind (find_map coll links ''page_fault_map'') (\<lambda>pfMap.
     lbind (find_map coll links ''oom_events'') (\<lambda>oomMap.
     lbind (reader_or_close L coll links oomMap) (\<lambda>r.
     lreturn \<lparr>ld_reader = Some r, ld_links = links\<rparr>))))))"

text \<open>The loaders of disk, network and system calls have one shape: probes, a statistics map, a ring buffer.\<close>

definition load_metric :: "bpf_lib \<Rightarrow> string \<Rightarrow> probe list \<Rightarrow> string \<Rightarrow> string \<Rightarrow> Loaded loading" where
  "load_metric L objPath probes stats ring =
     lbind (load_collection L objPath) (\<lambda>coll.
     lbind (attach_or_close L coll probes) (\<lambda>links.
     lbind (find_map coll links stats) (\<lambda>m.
     lbind (find_map coll links ring) (\<lambda>rb.
     lbind (reader_or_close L coll links rb) (\<lambda>r.
     lreturn \<lparr>ld_reader = Some r, ld_links = links\<rparr>)))))"

definition io_probes :: "probe list" where
  "io_probes =
     [(''block'', ''block_rq_issue'', ''trace_block_rq_issue''), (''block'', ''block_rq_complete'', ''trace_block_rq_complete''),
      (''syscalls'', ''sys_enter_openat'', ''trace_sys_enter_openat'')]"

definition loadIO :: "bpf_lib \<Rightarrow> string \<Rightarrow> Loaded loading" where
  "loadIO L objPath = load_metric L objPath
     io_probes ''io_stats_map'' ''file_events''"

definition net_probes :: "probe list" where
  "net_probes =
     [(''sock'', ''inet_sock_set_state'', ''trace_inet_sock_set_state''), (''tcp'', ''tcp_retransmit_skb'', ''trace_tcp_retransmit'')]"

definition loadNetwork :: "bpf_lib \<Rightarrow> string \<Rightarrow> Loaded loading" where
  "loadNetwork L objPath = load_metric L objPath
     net_probes
     ''conn_stats_map'' ''tcp_event_rb''"

definition sys_probes :: "probe list" where
  "sys_probes =
     [(''raw_syscalls'', ''sys_enter'', ''trace_sys_enter''), (''raw_syscalls'', ''sys_exit'', ''trace_sys_exit'')]"

definition loadSyscall :: "bpf_lib \<Rightarrow> string \<Rightarrow> Loaded loading" where
  "loadSyscall L objPath = load_metric L objPath
     sys_probes
     ''syscall_stats_map'' ''slow_syscall_rb''"

section \<open>Security loaders\<close>

text \<open>Sharing the process tree: the pin is best effort; a stale pin is removed first.\<close>

definition pin_tree :: "bpf_lib \<Rightarrow> bpf_map \<Rightarrow> loader_state \<Rightarrow> loader_state" where
  "pin_tree L treeMap s =
     (case bl_MkdirAll L of
        Some err \<Rightarrow> s
      | None \<Rightarrow> s\<lparr>lo_pinned := (if bl_Pin L treeMap = None then Some treeMap else None)\<rparr>)"

definition lineage_probes :: "probe list" where
  "lineage_probes =
     [(''sched'', ''sched_process_fork'', ''trace_lineage_fork''), (''sched'', ''sched_process_exit'', ''trace_lineage_exit'')]"

definition loadLineage :: "bpf_lib \<Rightarrow> string \<Rightarrow> (Loaded \<times> bpf_map) loading" where
  "loadLineage L objPath =
     lbind (load_collection L objPath) (\<lambda>coll.
     lbind (attach_or_close L coll lineage_probes) (\<lambda>links.
     lbind (find_map coll links ''process_fork_rb'') (\<lambda>forkRBMap.
     lbind (find_map coll links ''process_tree_map'') (\<lambda>treeMap.
     lbind (\<lambda>s. reader_or_close L coll links forkRBMap (pin_tree L treeMap s)) (\<lambda>r.
     lreturn (\<lparr>ld_reader = Some r, ld_links = links\<rparr>, treeMap))))))"

definition exec_probes :: "probe list" where
  "exec_probes =
     [(''syscalls'', ''sys_enter_execve'', ''trace_exec'')]"

definition loadExecWithColl :: "bpf_lib \<Rightarrow> string \<Rightarrow> (Loaded \<times> Collection) loading" where
  "loadExecWithColl L objPath =
     lbind (load_collection L objPath) (\<lambda>coll.
     lbind (attach_or_close L coll exec_probes) (\<lambda>links.
     lbind (find_map coll links ''exec_events'') (\<lambda>execRBMap.
     lbind (reader_or_close L coll links execRBMap) (\<lambda>r.
     lreturn (\<lparr>ld_reader = Some r, ld_links = links\<rparr>, coll)))))"

text \<open>Without a ring buffer the lineage collector opens no reader.\<close>

definition loadLineageFromExec :: "bpf_lib \<Rightarrow> Collection \<Rightarrow> (Loaded \<times> bpf_map) loading" where
  "loadLineageFromExec L execColl s =
     (if ''process_tree_map'' \<notin> set (co_Maps execColl) then (Inl (MapNotFound ''process_tree_map''), s)
      else let treeMap = (co_path execColl, ''process_tree_map'')
           in (Inr (\<lparr>ld_reader = None, ld_links = []\<rparr>, treeMap), pin_tree L treeMap s))"

definition loadLineageFromCPU :: "bpf_lib \<Rightarrow> Collection \<Rightarrow> (Loaded \<times> bpf_map) loading" where
  "loadLineageFromCPU L cpuColl s =
     (if ''process_fork_rb'' \<notin> set (co_Maps cpuColl) then (Inl (MapNotFound ''process_fork_rb''), s)
      else if ''process_tree_map'' \<notin> set (co_Maps cpuColl) then (Inl (MapNotFound ''process_tree_map''), s)
      else let treeMap = (co_path cpuColl, ''process_tree_map'')
           in lbind (new_reader L (co_path cpuColl, ''process_fork_rb'')) (\<lambda>r.
              lreturn (\<lparr>ld_reader = Some r, ld_links = []\<rparr>, treeMap)) (pin_tree L treeMap s))"

definition dns_probes :: "probe list" where
  "dns_probes =
     [(''syscalls'', ''sys_enter_sendto'', ''trace_dns_send''), (''syscalls'', ''sys_enter_sendmsg'', ''trace_dns_sendmsg''),
      (''syscalls'', ''sys_enter_sendmmsg'', ''trace_dns_sendmmsg''), (''syscalls'', ''sys_enter_write'', ''trace_dns_write''),
      (''syscalls'', ''sys_enter_connect'', ''trace_dns_connect''), (''syscalls'', ''sys_enter_close'', ''trace_dns_close'')]"

definition loadDNS :: "bpf_lib \<Rightarrow> string \<Rightarrow> bpf_map \<Rightarrow> Loaded loading" where
  "loadDNS L objPath sharedTreeMap =
     lbind (loadSecurityBPF L objPath sharedTreeMap) (\<lambda>coll.
     lbind (attach_or_close L coll
       dns_probes) (\<lambda>links.
     lbind (find_map coll links ''dns_events'') (\<lambda>dnsRBMap.
     lbind (reader_or_close L coll links dnsRBMap) (\<lambda>r.
     lreturn \<lparr>ld_reader = Some r, ld_links = links\<rparr>))))"

text \<open>The kprobe is optional; the flag says whether it is attached.\<close>

definition attach_kprobe :: "bpf_lib \<Rightarrow> Collection \<Rightarrow> bpf_handle list \<Rightarrow> (bpf_handle list \<times> bool) loading" where
  "attach_kprobe L coll links s =
     (if ''kprobe_cap_capable'' \<in> set (co_Programs coll) \<and> bl_Kprobe L ''cap_capable'' ''kprobe_cap_capable'' = None
      then (Inr (links @ [BKprobe ''cap_capable''], True), add_handle (BKprobe ''cap_capable'') s)
      else (Inr (links, False), s))"

definition privesc_probes :: "probe list" where
  "privesc_probes =
     [(''syscalls'', ''sys_enter_setuid'', ''trace_setuid''), (''syscalls'', ''sys_enter_setgid'', ''trace_setgid''),
      (''syscalls'', ''sys_enter_ptrace'', ''trace_ptrace'')]"

definition loadPrivEsc :: "bpf_lib \<Rightarrow> string \<Rightarrow> bpf_map \<Rightarrow> (Loaded \<times> bool) loading" where
  "loadPrivEsc L objPath sharedTreeMap =
     lbind (loadSecurityBPF L objPath sharedTreeMap) (\<lambda>coll.
     lbind (attach_or_close L coll
       privesc_probes) (\<lambda>links0.
     lbind (attach_kprobe L coll links0) (\<lambda>(links, capKprobeAvailable).
     lbind (find_map coll links ''privesc_events'') (\<lambda>privescRBMap.
     lbind (reader_or_close L coll links privescRBMap) (\<lambda>r.
     lreturn (\<lparr>ld_reader = Some r, ld_links = links\<rparr>, capKprobeAvailable))))))"

definition escape_probes :: "probe list" where
  "escape_probes =
     [(''syscalls'', ''sys_enter_mount'', ''trace_mount''), (''syscalls'', ''sys_enter_unshare'', ''trace_unshare''),
      (''syscalls'', ''sys_enter_pivot_root'', ''trace_pivot_root'')]"

definition loadEscape :: "bpf_lib \<Rightarrow> string \<Rightarrow> bpf_map \<Rightarrow> Loaded loading" where
  "loadEscape L objPath sharedTreeMap =
     lbind (loadSecurityBPF L objPath sharedTreeMap) (\<lambda>coll.
     lbind (attach_or_close L coll
       escape_probes) (\<lambda>links.
     lbind (find_map coll links ''escape_events'') (\<lambda>escapeRBMap.
     lbind (reader_or_close L coll links escapeRBMap) (\<lambda>r.
     lreturn \<lparr>ld_reader = Some r, ld_links = links\<rparr>))))"

section \<open>What stays unclosed\<close>

text \<open>
  A loader that fails in the middle of its list of probes does not close the links of the
  probes before the failing one: \<open>attachProbes\<close> returns them, and its callers drop them. They
  stay attached until the library finalises them.
\<close>

fun attaching_failed :: "loader_error \<Rightarrow> bool" where
  "attaching_failed (ProgramNotFound p) = True"
| "attaching_failed (Attaching cat ev err) = True"
| "attaching_failed _ = False"

definition attaches :: "bpf_lib \<Rightarrow> Collection \<Rightarrow> probe \<Rightarrow> bool" where
  "attaches L coll = (\<lambda>(cat, ev, prog). prog \<in> set (co_Programs coll) \<and> bl_Tracepoint L cat ev prog = None)"

definition probe_link :: "probe \<Rightarrow> bpf_handle" where
  "probe_link = (\<lambda>(cat, ev, prog). BTracepoint cat ev)"

definition dropped :: "bpf_lib \<Rightarrow> string + Collection \<Rightarrow> probe list \<Rightarrow> loader_error \<Rightarrow> bpf_handle multiset" where
  "dropped L r probes e =
     (case r of Inl err \<Rightarrow> {#} | Inr coll \<Rightarrow> if attaching_failed e then mset (map probe_link (takeWhile (attaches L coll) probes)) else {#})"

definition held :: "Loaded \<Rightarrow> bpf_handle multiset" where
  "held r = mset (ld_links r) + (case ld_reader r of None \<Rightarrow> {#} | Some m \<Rightarrow> {#BReader m#})"

text \<open>A step from the handles \<open>X\<close> to those of its result, or of its error.\<close>

definition handles :: "bpf_handle multiset \<Rightarrow> 'a loading \<Rightarrow> ('a \<Rightarrow> bpf_handle multiset) \<Rightarrow> (loader_error \<Rightarrow> bpf_handle multiset) \<Rightarrow> bool" where
  "handles X m Q E \<longleftrightarrow> (\<forall>base s. mset (lo_unclosed s) = base + X \<longrightarrow>
     (case m s of (Inl e, s1) \<Rightarrow> mset (lo_unclosed s1) = base + E e | (Inr x, s1) \<Rightarrow> mset (lo_unclosed s1) = base + Q x))"

lemma mset_add_handle [simp]: "mset (lo_unclosed (add_handle h s)) = mset (lo_unclosed s) + {#h#}"
  by (simp add: add_handle_def)

lemma mset_drop_handles [simp]: "mset (lo_unclosed (drop_handles hs s)) = mset (lo_unclosed s) - mset hs"
proof -
  have "mset (fold remove1 hs xs) = mset xs - mset hs" for xs :: "bpf_handle list"
    by (induction hs arbitrary: xs) (simp_all add: diff_diff_add)
  then show ?thesis by (simp add: drop_handles_def)
qed

lemma mset_close_both: "mset (lo_unclosed s) = base + ({#BCollection (co_path coll)#} + mset links) \<Longrightarrow> mset (lo_unclosed (close_both coll links s)) = base"
  by (simp add: close_both_def closeLinks_def coll_Close_def diff_diff_add)

lemma lbind_pin: "lbind (\<lambda>s. m (pin_tree L tm s)) f = (\<lambda>s. lbind m f (pin_tree L tm s))"
  by (simp add: lbind_def fun_eq_iff)

lemma handlesD:
  "handles X m Q E \<Longrightarrow> mset (lo_unclosed s) = base + X \<Longrightarrow> m s = (r, s1) \<Longrightarrow>
   (case r of Inl e \<Rightarrow> mset (lo_unclosed s1) = base + E e | Inr x \<Rightarrow> mset (lo_unclosed s1) = base + Q x)"
  unfolding handles_def by (fastforce split: sum.splits)

lemma handles_bind:
  assumes "handles X m Q E" "\<And>x. handles (Q x) (f x) R E"
  shows "handles X (lbind m f) R E"
  unfolding handles_def
proof (intro allI impI)
  fix base and s :: loader_state
  assume s: "mset (lo_unclosed s) = base + X"
  obtain r s1 where m: "m s = (r, s1)" by fastforce
  then have r: "case r of Inl e \<Rightarrow> mset (lo_unclosed s1) = base + E e | Inr x \<Rightarrow> mset (lo_unclosed s1) = base + Q x"
    by (rule handlesD [OF assms(1) s])
  show "case lbind m f s of (Inl e, s1) \<Rightarrow> mset (lo_unclosed s1) = base + E e | (Inr x, s1) \<Rightarrow> mset (lo_unclosed s1) = base + R x"
  proof (cases r)
    case (Inr x)
    then show ?thesis using assms(2) [of x] r m unfolding handles_def lbind_def by simp
  qed (use r m in \<open>simp add: lbind_def\<close>)
qed

lemma handles_return: "Q x = X \<Longrightarrow> handles X (lreturn x) Q E"
  by (simp add: handles_def lreturn_def)

lemma handles_collection:
  assumes "\<And>coll. bl_NewCollection L path = Inr coll \<Longrightarrow> handles {#BCollection path#} (f (coll\<lparr>co_path := path\<rparr>)) Q E"
    "\<And>err. E (LoadSpec err) = {#}" "\<And>err. E (NewCollection err) = {#}"
  shows "handles {#} (lbind (load_collection L path) f) Q E"
  using assms unfolding handles_def lbind_def load_collection_def by (auto split: option.splits sum.splits)

lemma handles_security:
  assumes "\<And>coll. bl_NewCollectionWithOptions L path [(''process_tree_map'', tm)] = Inr coll \<Longrightarrow>
      handles {#BCollection path#} (f (coll\<lparr>co_path := path\<rparr>)) Q E"
    "\<And>err. E (LoadSpec err) = {#}" "\<And>err. E (NewCollectionReplaced err) = {#}"
  shows "handles {#} (lbind (loadSecurityBPF L path tm) f) Q E"
  using assms unfolding handles_def lbind_def loadSecurityBPF_def by (auto split: option.splits sum.splits)

lemma attachProbes_handles:
  "attachProbes L coll ps s = ((links, err), s1) \<Longrightarrow>
   mset (lo_unclosed s1) = mset (lo_unclosed s) + mset (map probe_link (takeWhile (attaches L coll) ps)) \<and>
   links = map probe_link (takeWhile (attaches L coll) ps) \<and> (case err of None \<Rightarrow> True | Some e \<Rightarrow> attaching_failed e)"
proof (induction ps arbitrary: s links err s1)
  case (Cons p ps)
  obtain cat ev prog where p: "p = (cat, ev, prog)" by (metis surj_pair)
  show ?case
  proof (cases "attaches L coll p")
    case True
    obtain ls e s2 where r: "attachProbes L coll ps (add_handle (BTracepoint cat ev) s) = ((ls, e), s2)" by (metis surj_pair)
    then show ?thesis using Cons.IH [OF r] Cons.prems True by (auto simp: p attaches_def probe_link_def)
  qed (use Cons.prems in \<open>auto simp: p attaches_def split: if_splits option.splits\<close>)
qed simp

lemma handles_attach:
  assumes "\<And>e. attaching_failed e \<Longrightarrow> E e = mset (map probe_link (takeWhile (attaches L coll) ps))"
  shows "handles {#BCollection (co_path coll)#} (attach_or_close L coll ps) (\<lambda>links. {#BCollection (co_path coll)#} + mset links) E"
  unfolding handles_def
proof (intro allI impI)
  fix base and s :: loader_state
  assume s: "mset (lo_unclosed s) = base + {#BCollection (co_path coll)#}"
  obtain links err s1 where r: "attachProbes L coll ps s = ((links, err), s1)" by (metis surj_pair)
  show "case attach_or_close L coll ps s of
       (Inl e, s1) \<Rightarrow> mset (lo_unclosed s1) = base + E e
     | (Inr links, s1) \<Rightarrow> mset (lo_unclosed s1) = base + ({#BCollection (co_path coll)#} + mset links)"
    using attachProbes_handles [OF r] s assms
    by (cases err) (auto simp: attach_or_close_def r coll_Close_def)
qed

lemma handles_find_map:
  "E (MapNotFound name) = {#} \<Longrightarrow>
   handles ({#BCollection (co_path coll)#} + mset links) (find_map coll links name) (\<lambda>m. {#BCollection (co_path coll)#} + mset links) E"
  unfolding handles_def find_map_def by (simp add: mset_close_both)

lemma handles_reader:
  assumes "\<And>err. E (OpeningReader (snd m) err) = {#}"
  shows "handles ({#BCollection (co_path coll)#} + mset links) (reader_or_close L coll links m)
     (\<lambda>r. {#BCollection (co_path coll)#} + mset links + {#BReader r#}) E"
  unfolding handles_def reader_or_close_def new_reader_def
  by (auto simp: assms mset_close_both split: option.splits)

lemma handles_pin: "handles X m Q E \<Longrightarrow> handles X (\<lambda>s. m (pin_tree L tm s)) Q E"
  by (auto simp: handles_def pin_tree_def split: option.splits)

lemma dropped_quiet [simp]:
  "dropped L r ps (LoadSpec err) = {#}" "dropped L r ps (NewCollection err) = {#}" "dropped L r ps (NewCollectionReplaced err) = {#}"
  "dropped L r ps (MapNotFound name) = {#}" "dropped L r ps (OpeningReader name err) = {#}"
  by (simp_all add: dropped_def split: sum.splits)

lemma dropped_attach:
  "attaching_failed e \<Longrightarrow> dropped L (Inr c) ps e = mset (map probe_link (takeWhile (attaches L (c\<lparr>co_path := p\<rparr>)) ps))"
proof -
  have "attaches L (c\<lparr>co_path := p\<rparr>) = attaches L c" by (simp add: attaches_def)
  then show "attaching_failed e \<Longrightarrow> ?thesis" by (simp add: dropped_def)
qed

text \<open>The parts of a loader, for a collection loaded from \<open>path\<close>.\<close>

lemma handles_module:
  assumes "r = Inr c" "\<And>links. handles ({#BCollection path#} + mset links) (f links) Q (dropped L r ps)"
  shows "handles {#BCollection path#} (lbind (attach_or_close L (c\<lparr>co_path := path\<rparr>) ps) f) Q (dropped L r ps)"
proof -
  have "handles {#BCollection (co_path (c\<lparr>co_path := path\<rparr>))#} (lbind (attach_or_close L (c\<lparr>co_path := path\<rparr>) ps) f) Q (dropped L r ps)"
    using assms(2) by (intro handles_bind [OF handles_attach]) (simp_all add: assms(1) dropped_attach [of _ L c ps path])
  then show ?thesis by simp
qed

lemma handles_map_then:
  assumes "co_path coll = path" "E (MapNotFound name) = {#}" "\<And>m. handles ({#BCollection path#} + mset links) (f m) Q E"
  shows "handles ({#BCollection path#} + mset links) (lbind (find_map coll links name) f) Q E"
  using handles_bind [OF handles_find_map [of E name coll links], of f Q] assms by simp

lemma handles_reader_last:
  assumes "co_path coll = path" "\<And>name err. E (OpeningReader name err) = {#}"
    and "\<And>r. Q (g r) = {#BCollection path#} + mset links + {#BReader r#}"
  shows "handles ({#BCollection path#} + mset links) (lbind (reader_or_close L coll links m) (\<lambda>r. lreturn (g r))) Q E"
  using handles_bind [OF handles_reader [of E m coll links L], of "\<lambda>r. lreturn (g r)" Q] assms handles_return
  by (metis (no_types, lifting))

lemmas handles_parts = handles_map_then handles_reader_last handles_return

lemma load_metric_handles:
  "handles {#} (load_metric L path ps stats ring) (\<lambda>r. {#BCollection path#} + held r) (dropped L (bl_NewCollection L path) ps)"
  unfolding load_metric_def
  by (intro handles_collection handles_module handles_parts) (simp_all add: held_def)

text \<open>Every loader, by what it keeps on success and what it leaves behind on an error.\<close>

lemma loadCPU_handles:
  "handles {#} (loadCPU L path) (\<lambda>(r, coll). {#BCollection path#} + held r) (dropped L (bl_NewCollection L path) cpu_probes)"
  unfolding loadCPU_def
  by (intro handles_collection handles_module handles_parts) (simp_all add: held_def)

lemma loadExec_handles:
  "handles {#} (loadExecWithColl L path) (\<lambda>(r, coll). {#BCollection path#} + held r) (dropped L (bl_NewCollection L path) exec_probes)"
  unfolding loadExecWithColl_def
  by (intro handles_collection handles_module handles_parts) (simp_all add: held_def)

lemma loadLineage_handles:
  "handles {#} (loadLineage L path) (\<lambda>(r, tm). {#BCollection path#} + held r) (dropped L (bl_NewCollection L path) lineage_probes)"
  unfolding loadLineage_def lbind_pin
  by (intro handles_collection handles_module handles_parts handles_pin) (simp_all add: held_def)

lemma loadMemory_handles: "handles {#} (loadMemory L path) (\<lambda>r. {#BCollection path#} + held r) (\<lambda>e. {#})"
proof -
  let ?m1 = "\<lambda>coll s. if ''trace_oom_mark_victim'' \<notin> set (co_Programs coll) then (Inl (ProgramNotFound ''trace_oom_mark_victim''), coll_Close coll s)
      else case bl_Tracepoint L ''oom'' ''mark_victim'' ''trace_oom_mark_victim'' of
        Some err \<Rightarrow> (Inl (Attaching ''oom'' ''mark_victim'' err), coll_Close coll s)
      | None \<Rightarrow> (Inr [BTracepoint ''oom'' ''mark_victim''], add_handle (BTracepoint ''oom'' ''mark_victim'') s)"
  let ?m2 = "\<lambda>coll links0 s. if ''trace_page_fault_user'' \<in> set (co_Programs coll) \<and> bl_Tracepoint L ''exceptions'' ''page_fault_user'' ''trace_page_fault_user'' = None
      then (Inr (links0 @ [BTracepoint ''exceptions'' ''page_fault_user'']), add_handle (BTracepoint ''exceptions'' ''page_fault_user'') s)
      else (Inr links0, s)"
  have m1: "co_path coll = path \<Longrightarrow> handles {#BCollection path#} (?m1 coll) (\<lambda>links. {#BCollection path#} + mset links) (\<lambda>e. {#})" for coll
    by (auto simp: handles_def coll_Close_def split: option.splits)
  have m2: "handles ({#BCollection path#} + mset links0) (?m2 coll links0) (\<lambda>links. {#BCollection path#} + mset links) (\<lambda>e. {#})" for coll links0
    by (auto simp: handles_def)
  show ?thesis
    unfolding loadMemory_def
    by (intro handles_collection handles_bind [OF m1] handles_bind [OF m2] handles_parts) (simp_all add: held_def)
qed

lemma loadDNS_handles:
  "handles {#} (loadDNS L path tm) (\<lambda>r. {#BCollection path#} + held r)
     (dropped L (bl_NewCollectionWithOptions L path [(''process_tree_map'', tm)]) dns_probes)"
  unfolding loadDNS_def
  by (intro handles_security handles_module handles_parts) (simp_all add: held_def)

lemma loadEscape_handles:
  "handles {#} (loadEscape L path tm) (\<lambda>r. {#BCollection path#} + held r)
     (dropped L (bl_NewCollectionWithOptions L path [(''process_tree_map'', tm)]) escape_probes)"
  unfolding loadEscape_def
  by (intro handles_security handles_module handles_parts) (simp_all add: held_def)

lemma loadPrivEsc_handles:
  "handles {#} (loadPrivEsc L path tm) (\<lambda>(r, cap). {#BCollection path#} + held r)
     (dropped L (bl_NewCollectionWithOptions L path [(''process_tree_map'', tm)]) privesc_probes)"
proof -
  have k: "handles ({#BCollection path#} + mset links) (attach_kprobe L coll links) (\<lambda>x. {#BCollection path#} + mset (fst x)) E" for links coll E
    by (auto simp: handles_def attach_kprobe_def)
  show ?thesis
    unfolding loadPrivEsc_def case_prod_beta
    by (intro handles_security handles_module handles_bind [OF k] handles_parts) (simp_all add: held_def)
qed

lemma loadLineageFromExec_handles: "handles {#} (loadLineageFromExec L coll) (\<lambda>(r, tm). held r) (\<lambda>e. {#})"
  by (auto simp: handles_def loadLineageFromExec_def held_def pin_tree_def Let_def split: option.splits)

lemma loadLineageFromCPU_handles: "handles {#} (loadLineageFromCPU L coll) (\<lambda>(r, tm). held r) (\<lambda>e. {#})"
  by (auto simp: handles_def loadLineageFromCPU_def held_def pin_tree_def lbind_def lreturn_def new_reader_def Let_def split: option.splits)

lemmas loaders_handle = loadCPU_handles loadMemory_handles load_metric_handles loadExec_handles loadDNS_handles loadPrivEsc_handles
  loadEscape_handles loadLineage_handles loadLineageFromExec_handles loadLineageFromCPU_handles

end
