(* ===== verification/ObserverCli.thy ===== *)
theory ObserverCli
  imports Exporter TuiViews BpfLoaders
begin

text \<open>
  The command-line observer, \<open>cmd/observer/main.go\<close>: what one tick of its loop polls,
  exports, prints and logs, how a security event goes through its writers, and how it
  loads and releases the BPF objects. The output is a list of tables and log records; the
  frames of the tables, drawn with box characters, and the time in their titles are left
  out. The filter of the rows works in place on the slice of the samples; here it is \<open>filter\<close>.
\<close>

section \<open>Display\<close>

record displayConfig =
  dc_containersOnly :: bool
  dc_topN :: int

definition Observer_isContainer :: "string \<Rightarrow> bool" where
  "Observer_isContainer name \<longleftrightarrow>
     HasPrefix name ''docker:'' \<or> HasPrefix name ''cri:'' \<or> HasPrefix name ''k8s:'' \<or> count_list name CHR ''/'' = 2"

definition truncate_name :: "string \<Rightarrow> nat \<Rightarrow> string" where
  "truncate_name s0 n =
     (let s = (if HasPrefix s0 ''docker:'' then drop 7 s0 else if HasPrefix s0 ''cri:'' then drop 4 s0 else s0)
      in if length s \<le> n then s else take (n - 3) s @ ''...'')"

definition applyTop :: "'s list \<Rightarrow> int \<Rightarrow> 's list" where
  "applyTop s n = (if n > 0 \<and> int (length s) > n then take (nat n) s else s)"

definition no_value :: string where
  "no_value = em_dash @ replicate 7 CHR '' ''"

definition idle_note :: string where
  "idle_note = ''(no container activity '' @ em_dash @ '' start a Docker container to see data here)''"

definition cpu_line :: "CpuSample \<Rightarrow> string list" where
  "cpu_line s =
     (let numa = cm_NUMALocalPct s \<noteq> 0 \<or> cm_NUMARemotePct s \<noteq> 0;
          numaLoc = (if numa then pad_left 6 (fmt_fixed 1 (cm_NUMALocalPct s)) @ ''%'' else no_value);
          numaRem = (if numa then pad_left 6 (fmt_fixed 1 (cm_NUMARemotePct s)) @ ''%'' else no_value)
      in [pad_right 45 (truncate_name (cm_ContainerName s) 45), pad_left 10 (fmt_fixed 4 (cm_CPUSeconds s)),
          pad_left 13 (fmt_fixed 3 (f64_mul (cm_RunqLatencySeconds s) 1000)), pad_left 8 (fmt_fixed 1 (cm_CtxSwitchesPerSec s)),
          pad_left 5 (show_word (cm_ThreadCount s)), pad_left 8 numaLoc, pad_left 8 numaRem])"

text \<open>A size in megabytes, or a placeholder for zero.\<close>

definition mb_cell :: "string \<Rightarrow> 64 word \<Rightarrow> string" where
  "mb_cell none b = (if b > 0 then pad_left 8 (fmt_fixed 1 (f64_div (u2f b) 1048576)) else none)"

definition mem_line :: "MemSample \<Rightarrow> string list" where
  "mem_line s =
     [pad_right 45 (truncate_name (ms_ContainerName s) 45), pad_left 8 (mb_cell no_value (ms_VirtBytes s)),
      pad_left 8 (fmt_fixed 2 (f64_div (u2f (ms_MemoryBytes s)) 1048576)),
      pad_left 8 (mb_cell no_value (ms_PSSBytes s)), pad_left 8 (mb_cell no_value (ms_SharedBytes s)),
      pad_left 7 (fmt_fixed 1 (ms_MajorPerSec s)), pad_left 7 (fmt_fixed 1 (ms_MinorPerSec s)),
      pad_left 5 (fmt_fixed 2 (ms_PSISome s)), pad_left 5 (fmt_fixed 2 (ms_PSIFull s)), pad_left 8 (fmt_fixed 1 (ms_TLBMissRate s)),
      pad_left 8 (mb_cell ''unlimited'' (ms_MemoryLimitBytes s))]"

definition io_line :: "IoSample \<Rightarrow> string list" where
  "io_line s =
     [pad_right 45 (truncate_name (is_ContainerName s) 45), pad_left 12 (fmt_fixed 2 (f64_div (is_ReadBytesPerSec s) 1024)),
      pad_left 12 (fmt_fixed 2 (f64_div (is_WriteBytesPerSec s) 1024)), pad_left 8 (fmt_fixed 2 (is_AvgReadLatencyMs s)),
      pad_left 9 (fmt_fixed 2 (is_AvgWriteLatencyMs s))]"

definition net_line :: "NetSummary \<Rightarrow> string list" where
  "net_line s =
     [pad_right 45 (truncate_name (nm_ContainerName s) 45), pad_left 5 (show_nat (nm_ActiveFlows s)), pad_left 6 (show_nat (nm_Established s)),
      pad_left 8 (show_nat (nm_TimeWait s)), pad_left 9 (show_nat (nm_CloseWait s)), pad_left 12 (show_word (nm_TotalRetransmits s))]"

definition sys_line :: "SyscallSummary \<Rightarrow> string list" where
  "sys_line s =
     [pad_right 45 (truncate_name (su_ContainerName s) 45), pad_right 4 (''#'' @ show_int (su_Rank s)),
      pad_right 12 (truncate_name (su_SyscallName s) 12), pad_left 10 (show_word (su_Count s)), pad_left 9 (show_word (su_Failures s)),
      pad_left 15 (fmt_fixed 3 (su_AvgLatencyMs s))]"

text \<open>
  A printed row is that of one sample; it opens with the name of the sample's container. An
  empty table shows a note in place of its rows.
\<close>

datatype table_row = CpuRow CpuSample | MemRow MemSample | IoRow IoSample | NetRow NetSummary | SysRow SyscallSummary

fun row_cells :: "table_row \<Rightarrow> string list" where
  "row_cells (CpuRow s) = cpu_line s"
| "row_cells (MemRow s) = mem_line s"
| "row_cells (IoRow s) = io_line s"
| "row_cells (NetRow s) = net_line s"
| "row_cells (SysRow s) = sys_line s"

fun row_container :: "table_row \<Rightarrow> string" where
  "row_container (CpuRow s) = cm_ContainerName s"
| "row_container (MemRow s) = ms_ContainerName s"
| "row_container (IoRow s) = is_ContainerName s"
| "row_container (NetRow s) = nm_ContainerName s"
| "row_container (SysRow s) = su_ContainerName s"

lemma row_cells_name: "hd (row_cells r) = pad_right 45 (truncate_name (row_container r) 45)"
  by (cases r) (simp_all add: cpu_line_def mem_line_def io_line_def net_line_def sys_line_def Let_def)

definition table_lines :: "string \<Rightarrow> table_row list \<Rightarrow> string list list" where
  "table_lines note rows = (if rows = [] then [[note]] else map row_cells rows)"

text \<open>
  What is written: a table with its title, the note for the case that it is empty, and its rows,
  whose text is \<open>table_lines\<close>; a log record; a security event; an error of a collection.
\<close>

datatype ObsOut =
    OutTable string string "table_row list"
  | OutLog string "(string \<times> any) list"
  | OutSecurity EventEnvelope
  | OutError string

section \<open>State\<close>

record Observer =
  ob_CPU :: CpuCollector
  ob_Mem :: "MemoryCollector option"
  ob_IO :: "IoCollector option"
  ob_Net :: bool
  ob_Sys :: bool
  ob_Lineage :: bool
  ob_Exec :: bool
  ob_DNS :: bool
  ob_PrivEsc :: bool
  ob_Escape :: bool
  ob_resolver :: sec_state
  ob_metrics :: "MetricCall list"
  ob_out :: "ObsOut list"

record ObsFlags =
  of_display :: displayConfig
  of_showFiles :: bool
  of_showTCP :: bool
  of_showSlowSys :: bool
  of_showSecurity :: bool

definition obs_emit :: "MetricCall list \<Rightarrow> ObsOut list \<Rightarrow> Observer \<Rightarrow> Observer" where
  "obs_emit calls outs ob = ob\<lparr>ob_metrics := ob_metrics ob @ calls, ob_out := ob_out ob @ outs\<rparr>"

definition obs_hidden :: "displayConfig \<Rightarrow> string \<Rightarrow> bool" where
  "obs_hidden cfg name \<longleftrightarrow> dc_containersOnly cfg \<and> \<not> Observer_isContainer name"

definition obs_shown :: "displayConfig \<Rightarrow> ('s \<Rightarrow> string) \<Rightarrow> 's list \<Rightarrow> 's list" where
  "obs_shown cfg name samples = filter (\<lambda>s. \<not> obs_hidden cfg (name s)) samples"

section \<open>Tables\<close>

definition printCpuTable :: "sec_env \<Rightarrow> collect_input \<Rightarrow> displayConfig \<Rightarrow> Observer \<Rightarrow> Observer" where
  "printCpuTable env inp cfg ob =
     (let (res, _, c1, st1) = Cpu_Collect env (in_fs inp) (in_now inp 1) (fst (in_cpu inp)) (snd (in_cpu inp)) (ob_CPU ob) (ob_resolver ob);
          ob1 = ob\<lparr>ob_CPU := c1, ob_resolver := st1\<rparr>
      in case res of
           Inl err \<Rightarrow> obs_emit [] [OutError ''CPU collect error''] ob1
         | Inr all \<Rightarrow>
             let samples = obs_shown cfg cm_ContainerName all
             in obs_emit (UpdateCPU samples)
                  [OutTable ''M1: CPU Observer'' idle_note
                     (map CpuRow (applyTop (sort_key (\<lambda>s. - cm_CPUSeconds s) samples) (dc_topN cfg)))] ob1)"

definition printMemTable :: "sec_env \<Rightarrow> collect_input \<Rightarrow> displayConfig \<Rightarrow> MemoryCollector \<Rightarrow> Observer \<Rightarrow> Observer" where
  "printMemTable env inp cfg m ob =
     (let (res, _, m1, st1) = Mem_Collect env (in_fs inp) (in_now inp 2) (fst (in_mem inp)) (snd (in_mem inp)) m (ob_resolver ob);
          ob1 = ob\<lparr>ob_Mem := Some m1, ob_resolver := st1\<rparr>
      in case res of
           Inl err \<Rightarrow> obs_emit [] [OutError ''Memory collect error''] ob1
         | Inr all \<Rightarrow>
             let samples = obs_shown cfg ms_ContainerName all
             in obs_emit (UpdateMemory samples)
                  [OutTable ''M2: Memory Observer'' idle_note
                     (map MemRow (applyTop (sort_key (\<lambda>s. - uint (ms_MemoryBytes s)) samples) (dc_topN cfg)))] ob1)"

definition oom_log :: "OOMReport \<Rightarrow> ObsOut" where
  "oom_log ev = OutLog (red_circle @ '' OOM KILL DETECTED'')
     [(''container'', AnyString (om_ContainerName ev)), (''victim_pid'', AnyUint32 (om_VictimPID ev)), (''comm'', AnyString (om_Comm ev)),
      (''rss_kb'', AnyUint64 (om_Pages ev * 4)), (''memory_limit_mb'', AnyUint64 (om_MemoryLimitBytes ev div 1048576)),
      (''memory_current_mb'', AnyUint64 (om_MemoryBytes ev div 1048576)), (''swap_bytes'', AnyUint64 (om_SwapBytes ev)),
      (''oom_score_adj'', AnyInt32 (word_of_int (om_OOMScoreAdj ev)))]"

definition Obs_drainOOMEvents :: "displayConfig \<Rightarrow> Observer \<Rightarrow> Observer" where
  "Obs_drainOOMEvents cfg ob =
     (case ob_Mem ob of
        None \<Rightarrow> ob
      | Some m \<Rightarrow>
          let (evs, m1) = ReadOOMEvents m; es = obs_shown cfg om_ContainerName evs
          in obs_emit (concat (map (\<lambda>ev. UpdateOOM (om_ContainerName ev)) es)) (map oom_log es) (ob\<lparr>ob_Mem := Some m1\<rparr>))"

definition printIOTable :: "sec_env \<Rightarrow> collect_input \<Rightarrow> displayConfig \<Rightarrow> IoCollector \<Rightarrow> Observer \<Rightarrow> Observer" where
  "printIOTable env inp cfg c ob =
     (let (res, _, c1, st1) = Io_Collect env (in_now inp 3) (fst (in_io inp)) (snd (in_io inp)) c (ob_resolver ob);
          ob1 = ob\<lparr>ob_IO := Some c1, ob_resolver := st1\<rparr>
      in case res of
           Inl err \<Rightarrow> obs_emit [] [OutError ''I/O collect error''] ob1
         | Inr all \<Rightarrow>
             let samples = obs_shown cfg is_ContainerName all
             in obs_emit (UpdateIO samples)
                  [OutTable ''M3: I/O Observer'' (''(no container I/O activity '' @ em_dash @ '' run a container with disk I/O to see data)'')
                     (map IoRow (applyTop (sort_key (\<lambda>s. - f64_add (is_ReadBytesPerSec s) (is_WriteBytesPerSec s)) samples) (dc_topN cfg)))] ob1)"

definition file_log :: "CollectedFile \<Rightarrow> ObsOut" where
  "file_log ev = OutLog ''file open''
     [(''container'', AnyString (cf_ContainerName ev)), (''pid'', AnyUint32 (cf_PID ev)), (''comm'', AnyString (cf_Comm ev)),
      (''flags'', AnyString (''0x'' @ show_hex (unat (cf_Flags ev)))), (''file'', AnyString (cf_Filename ev))]"

definition Obs_drainFileEvents :: "sec_env \<Rightarrow> collect_input \<Rightarrow> displayConfig \<Rightarrow> Observer \<Rightarrow> Observer" where
  "Obs_drainFileEvents env inp cfg ob =
     (let (evs, st1) = ReadFileEvents env (in_clock inp 0) (in_files inp) (ob_resolver ob)
      in obs_emit [] (map file_log (obs_shown cfg cf_ContainerName evs)) (ob\<lparr>ob_resolver := st1\<rparr>))"

definition printNetTable :: "sec_env \<Rightarrow> collect_input \<Rightarrow> displayConfig \<Rightarrow> Observer \<Rightarrow> Observer" where
  "printNetTable env inp cfg ob =
     (let (res, _, st1) = CollectSummary env (in_now inp 4) (fst (in_net inp)) (snd (in_net inp)) (ob_resolver ob);
          ob1 = ob\<lparr>ob_resolver := st1\<rparr>
      in case res of
           Inl err \<Rightarrow> obs_emit [] [OutError ''Network collect error''] ob1
         | Inr all \<Rightarrow>
             let summaries = obs_shown cfg nm_ContainerName all
             in obs_emit (UpdateNetwork summaries)
                  [OutTable ''M4: Network Observer'' (''(no TCP activity '' @ em_dash @ '' run a container that makes network connections)'')
                     (map NetRow (applyTop (sort_key (\<lambda>s. - int (nm_ActiveFlows s)) summaries) (dc_topN cfg)))] ob1)"

definition tcp_log :: "CollectedTCP \<Rightarrow> ObsOut" where
  "tcp_log ev = OutLog ''TCP state change''
     [(''container'', AnyString (ct_ContainerName ev)), (''src'', AnyString (ct_Saddr ev @ '':'' @ show_word (ct_Sport ev))),
      (''dst'', AnyString (ct_Daddr ev @ '':'' @ show_word (ct_Dport ev))), (''old'', AnyString (ct_OldState ev)), (''new'', AnyString (ct_NewState ev))]"

definition Obs_drainTCPEvents :: "sec_env \<Rightarrow> collect_input \<Rightarrow> displayConfig \<Rightarrow> Observer \<Rightarrow> Observer" where
  "Obs_drainTCPEvents env inp cfg ob =
     (let (evs, st1) = ReadTCPEvents env (in_clock inp 1) (in_tcp inp) (ob_resolver ob)
      in obs_emit [] (map tcp_log (obs_shown cfg ct_ContainerName evs)) (ob\<lparr>ob_resolver := st1\<rparr>))"

text \<open>The grouping, ranking and final order of the rows are those of the collector's own top five.\<close>

definition printSyscallTable :: "sec_env \<Rightarrow> collect_input \<Rightarrow> displayConfig \<Rightarrow> Observer \<Rightarrow> Observer" where
  "printSyscallTable env inp cfg ob =
     (let (res, _, st1) = Syscall_Collect env (fst (in_sys inp)) (snd (in_sys inp)) (ob_resolver ob);
          ob1 = ob\<lparr>ob_resolver := st1\<rparr>
      in case res of
           Inl err \<Rightarrow> obs_emit [] [OutError ''Syscall collect error''] ob1
         | Inr every \<Rightarrow>
             let all = obs_shown cfg su_ContainerName every
             in obs_emit (UpdateSyscalls all)
                  [OutTable ''M6: Syscall Observer'' ''(no Syscall activity)'' (map SysRow (applyTop (top5 all) (dc_topN cfg)))] ob1)"

definition slow_log :: "SlowSyscallSummary \<Rightarrow> ObsOut" where
  "slow_log ev = OutLog ''Slow Syscall Detected''
     [(''container'', AnyString (sl_ContainerName ev)), (''pid'', AnyUint32 (sl_PID ev)), (''comm'', AnyString (sl_Comm ev)),
      (''syscall'', AnyString (sl_SyscallName ev)), (''latency_ms'', AnyString (fmt_fixed 2 (sl_LatencyMs ev)))]"

definition Obs_drainSlowSyscallEvents :: "sec_env \<Rightarrow> collect_input \<Rightarrow> displayConfig \<Rightarrow> Observer \<Rightarrow> Observer" where
  "Obs_drainSlowSyscallEvents env inp cfg ob =
     (let (evs, st1) = ReadSlowEvents env (in_slow inp) (ob_resolver ob)
      in obs_emit [] (map slow_log (obs_shown cfg sl_ContainerName evs)) (ob\<lparr>ob_resolver := st1\<rparr>))"

section \<open>Security events\<close>

text \<open>The writer to standard error, behind the filter if only containers are wanted, behind the exporter.\<close>

datatype SecurityWriter = StderrWriter | ContainerFilterWriter SecurityWriter

fun inner_Write :: "SecurityWriter \<Rightarrow> EventEnvelope \<Rightarrow> ObsOut list" where
  "inner_Write StderrWriter ev = [OutSecurity ev]"
| "inner_Write (ContainerFilterWriter w) ev = (if \<not> Observer_isContainer (ee_ContainerName ev) then [] else inner_Write w ev)"

definition inner_writer :: "ObsFlags \<Rightarrow> SecurityWriter option" where
  "inner_writer fl =
     (if of_showSecurity fl
      then Some (if dc_containersOnly (of_display fl) then ContainerFilterWriter StderrWriter else StderrWriter)
      else None)"

definition secWriter_Write :: "ObsFlags \<Rightarrow> EventEnvelope \<Rightarrow> Observer \<Rightarrow> Observer" where
  "secWriter_Write fl ev =
     (let (calls, evs) = Prom_Write \<lparr>pw_Inner = inner_writer fl \<noteq> None, pw_ContainersOnly = dc_containersOnly (of_display fl)\<rparr> ev
      in obs_emit calls (case inner_writer fl of None \<Rightarrow> [] | Some w \<Rightarrow> concat (map (inner_Write w) evs)))"

definition obs_drain :: "ObsFlags \<Rightarrow> bool \<Rightarrow> (sec_state \<Rightarrow> drained \<times> sec_state) \<Rightarrow> Observer \<Rightarrow> Observer" where
  "obs_drain fl loaded rd ob =
     (if \<not> loaded then ob
      else let (d, st1) = rd (ob_resolver ob)
           in fold (secWriter_Write fl) (dr_written d) (ob\<lparr>ob_resolver := st1\<rparr>))"

section \<open>A tick\<close>

definition tick_mem :: "sec_env \<Rightarrow> collect_input \<Rightarrow> ObsFlags \<Rightarrow> Observer \<Rightarrow> Observer" where
  "tick_mem env inp fl ob =
     (case ob_Mem ob of None \<Rightarrow> ob | Some m \<Rightarrow> Obs_drainOOMEvents (of_display fl) (printMemTable env inp (of_display fl) m ob))"

definition tick_io :: "sec_env \<Rightarrow> collect_input \<Rightarrow> ObsFlags \<Rightarrow> Observer \<Rightarrow> Observer" where
  "tick_io env inp fl ob =
     (case ob_IO ob of None \<Rightarrow> ob | Some c \<Rightarrow>
        let ob1 = printIOTable env inp (of_display fl) c ob
        in if of_showFiles fl then Obs_drainFileEvents env inp (of_display fl) ob1 else ob1)"

definition tick_net :: "sec_env \<Rightarrow> collect_input \<Rightarrow> ObsFlags \<Rightarrow> Observer \<Rightarrow> Observer" where
  "tick_net env inp fl ob =
     (if \<not> ob_Net ob then ob
      else let ob1 = printNetTable env inp (of_display fl) ob
           in if of_showTCP fl then Obs_drainTCPEvents env inp (of_display fl) ob1 else ob1)"

definition tick_sys :: "sec_env \<Rightarrow> collect_input \<Rightarrow> ObsFlags \<Rightarrow> Observer \<Rightarrow> Observer" where
  "tick_sys env inp fl ob =
     (if \<not> ob_Sys ob then ob
      else let ob1 = printSyscallTable env inp (of_display fl) ob
           in if of_showSlowSys fl then Obs_drainSlowSyscallEvents env inp (of_display fl) ob1 else ob1)"

definition tick_security :: "sec_env \<Rightarrow> collect_input \<Rightarrow> ObsFlags \<Rightarrow> Observer \<Rightarrow> Observer" where
  "tick_security env inp fl ob0 =
     (let ob1 = obs_drain fl (ob_Lineage ob0) (ReadForkEvents env True (in_fork inp)) ob0;
          ob2 = obs_drain fl (ob_Exec ob1) (ReadExecEvents env (in_execLineage inp) True (in_exec inp)) ob1;
          ob3 = obs_drain fl (ob_DNS ob2) (ReadDNSEvents env (in_lineage inp) True (in_dns inp)) ob2;
          ob4 = obs_drain fl (ob_PrivEsc ob3) (ReadPrivEscEvents env (in_lineage inp) True (in_priv inp)) ob3
      in obs_drain fl (ob_Escape ob4) (ReadEscapeEvents env (in_lineage inp) True (in_esc inp)) ob4)"

definition observer_tick :: "sec_env \<Rightarrow> ObsFlags \<Rightarrow> collect_input \<Rightarrow> Observer \<Rightarrow> Observer" where
  "observer_tick env fl inp ob =
     tick_security env inp fl (tick_sys env inp fl (tick_net env inp fl (tick_io env inp fl (tick_mem env inp fl
       (printCpuTable env inp (of_display fl) ob)))))"

section \<open>Containers only\<close>

text \<open>
  What a metric call and a record of the output are about: a table about the containers of all
  its rows, an error message of a collection about none.
\<close>

definition call_about :: "(string \<Rightarrow> bool) \<Rightarrow> MetricCall \<Rightarrow> bool" where
  "call_about P c \<longleftrightarrow> (\<exists>name extra. P name \<and> (case c of GaugeSet m ls x \<Rightarrow> ls | CounterInc m ls \<Rightarrow> ls) = WithLabels name @ extra)"

fun out_about :: "(string \<Rightarrow> bool) \<Rightarrow> ObsOut \<Rightarrow> bool" where
  "out_about P (OutLog m attrs) = (\<exists>name. P name \<and> map_of attrs ''container'' = Some (AnyString name))"
| "out_about P (OutSecurity ev) = P (ee_ContainerName ev)"
| "out_about P (OutTable title note rows) = (\<forall>r \<in> set rows. P (row_container r))"
| "out_about P (OutError msg) = True"

definition obs_about :: "(string \<Rightarrow> bool) \<Rightarrow> Observer \<Rightarrow> bool" where
  "obs_about P ob \<longleftrightarrow> (\<forall>c \<in> set (ob_metrics ob). call_about P c) \<and> (\<forall>x \<in> set (ob_out ob). out_about P x)"

abbreviation shown_name :: "displayConfig \<Rightarrow> string \<Rightarrow> bool" where
  "shown_name cfg \<equiv> (\<lambda>name. \<not> obs_hidden cfg name)"

lemma call_aboutI: "P name \<Longrightarrow> call_about P (GaugeSet m (WithLabels name) x)" "P name \<Longrightarrow> call_about P (CounterInc m (WithLabels name))"
  "P name \<Longrightarrow> call_about P (GaugeSet m (WithLabels name @ extra) x)" "P name \<Longrightarrow> call_about P (CounterInc m (WithLabels name @ extra))"
  unfolding call_about_def by (simp, metis append_Nil2)+

lemma updates_about:
  "\<forall>s \<in> set cs. P (cm_ContainerName s) \<Longrightarrow> \<forall>c \<in> set (UpdateCPU cs). call_about P c"
  "\<forall>s \<in> set ms. P (ms_ContainerName s) \<Longrightarrow> \<forall>c \<in> set (UpdateMemory ms). call_about P c"
  "\<forall>s \<in> set is. P (is_ContainerName s) \<Longrightarrow> \<forall>c \<in> set (UpdateIO is). call_about P c"
  "\<forall>s \<in> set ns. P (nm_ContainerName s) \<Longrightarrow> \<forall>c \<in> set (UpdateNetwork ns). call_about P c"
  "\<forall>s \<in> set ss. P (su_ContainerName s) \<Longrightarrow> \<forall>c \<in> set (UpdateSyscalls ss). call_about P c"
  "P name \<Longrightarrow> \<forall>c \<in> set (UpdateOOM name). call_about P c"
  by (auto simp: UpdateCPU_def UpdateMemory_def UpdateIO_def UpdateNetwork_def UpdateSyscalls_def UpdateOOM_def Let_def call_aboutI)

lemma obs_shown_about: "s \<in> set (obs_shown cfg name xs) \<Longrightarrow> shown_name cfg (name s)"
  by (simp add: obs_shown_def)

lemma obs_about_emit:
  "obs_about P ob \<Longrightarrow> \<forall>c \<in> set calls. call_about P c \<Longrightarrow> \<forall>x \<in> set outs. out_about P x \<Longrightarrow> obs_about P (obs_emit calls outs ob)"
  by (auto simp: obs_about_def obs_emit_def)

lemma obs_about_cong: "ob_metrics ob' = ob_metrics ob \<Longrightarrow> ob_out ob' = ob_out ob \<Longrightarrow> obs_about P ob' = obs_about P ob"
  by (simp add: obs_about_def)

lemma obs_about_frame [simp]:
  "obs_about P (ob_resolver_update f1 ob) = obs_about P ob" "obs_about P (ob_CPU_update f2 ob) = obs_about P ob"
  "obs_about P (ob_Mem_update f3 ob) = obs_about P ob" "obs_about P (ob_IO_update f4 ob) = obs_about P ob"
  by (rule obs_about_cong; simp)+

lemma set_applyTop: "set (applyTop s n) \<subseteq> set s"
  by (auto simp: applyTop_def dest: in_set_takeD)

lemma top5_named:
  assumes "s \<in> set (top5 all)"
  shows "\<exists>s' \<in> set all. su_ContainerName s' = su_ContainerName s"
proof -
  have "s \<in> set (filter (\<lambda>x. su_ContainerName x = su_ContainerName s) (top5 all))" using assms by simp
  then have "top_entries (filter (\<lambda>x. su_ContainerName x = su_ContainerName s) all) \<noteq> []"
    unfolding top5_container by auto
  then have "filter (\<lambda>x. su_ContainerName x = su_ContainerName s) all \<noteq> []"
    by (auto simp: top_entries_def rank_entries_def)
  then show ?thesis by (auto simp: filter_empty_conv)
qed

text \<open>Sorting and cutting bring no other rows.\<close>

lemma shown_rows_about:
  "\<forall>s \<in> set (applyTop (sort_key key (obs_shown cfg name xs)) n). shown_name cfg (name s)"
  "\<forall>s \<in> set (applyTop (top5 (obs_shown cfg su_ContainerName ys)) n). shown_name cfg (su_ContainerName s)"
proof -
  show "\<forall>s \<in> set (applyTop (sort_key key (obs_shown cfg name xs)) n). shown_name cfg (name s)"
    using set_applyTop [of "sort_key key (obs_shown cfg name xs)" n] obs_shown_about [of _ cfg name xs] by auto
  show "\<forall>s \<in> set (applyTop (top5 (obs_shown cfg su_ContainerName ys)) n). shown_name cfg (su_ContainerName s)"
    using set_applyTop [of "top5 (obs_shown cfg su_ContainerName ys)" n] top5_named obs_shown_about [of _ cfg su_ContainerName ys]
    by (metis subsetD)
qed

lemmas about_intros = obs_about_emit updates_about obs_shown_about

lemma tables_about:
  assumes "obs_about (shown_name cfg) ob"
  shows "obs_about (shown_name cfg) (printCpuTable env inp cfg ob)" "obs_about (shown_name cfg) (printMemTable env inp cfg m ob)"
    "obs_about (shown_name cfg) (printIOTable env inp cfg c ob)" "obs_about (shown_name cfg) (printNetTable env inp cfg ob)"
    "obs_about (shown_name cfg) (printSyscallTable env inp cfg ob)"
  unfolding printCpuTable_def printMemTable_def printIOTable_def printNetTable_def printSyscallTable_def case_prod_beta Let_def
  using assms by (auto split: sum.split intro!: obs_about_emit updates_about
      dest: obs_shown_about shown_rows_about [THEN bspec])

lemma logs_about:
  "shown_name cfg (om_ContainerName o1) \<Longrightarrow> out_about (shown_name cfg) (oom_log o1)"
  "shown_name cfg (cf_ContainerName fev) \<Longrightarrow> out_about (shown_name cfg) (file_log fev)"
  "shown_name cfg (ct_ContainerName t) \<Longrightarrow> out_about (shown_name cfg) (tcp_log t)"
  "shown_name cfg (sl_ContainerName sl) \<Longrightarrow> out_about (shown_name cfg) (slow_log sl)"
  by (simp_all add: oom_log_def file_log_def tcp_log_def slow_log_def)

lemma drains_about:
  assumes "obs_about (shown_name cfg) ob"
  shows "obs_about (shown_name cfg) (Obs_drainOOMEvents cfg ob)" "obs_about (shown_name cfg) (Obs_drainFileEvents env inp cfg ob)"
    "obs_about (shown_name cfg) (Obs_drainTCPEvents env inp cfg ob)" "obs_about (shown_name cfg) (Obs_drainSlowSyscallEvents env inp cfg ob)"
  unfolding Obs_drainOOMEvents_def Obs_drainFileEvents_def Obs_drainTCPEvents_def Obs_drainSlowSyscallEvents_def case_prod_beta Let_def
  using assms by (auto split: option.split simp: UpdateOOM_def intro!: obs_about_emit call_aboutI logs_about dest: obs_shown_about)

lemma isContainer_same: "Observer_isContainer = Exporter_isContainer"
  by (simp add: fun_eq_iff Observer_isContainer_def Exporter_isContainer_def)

lemma secWriter_about:
  assumes "obs_about (shown_name (of_display fl)) ob"
  shows "obs_about (shown_name (of_display fl)) (secWriter_Write fl ev ob)"
  unfolding secWriter_Write_def case_prod_beta Let_def
  using assms by (auto intro!: obs_about_emit call_aboutI
      simp: inner_writer_def Prom_Write_def specific_counter_def obs_hidden_def isContainer_same Let_def split: if_splits)

lemma obs_drain_about:
  assumes "obs_about (shown_name (of_display fl)) ob"
  shows "obs_about (shown_name (of_display fl)) (obs_drain fl loaded rd ob)"
proof -
  have "obs_about (shown_name (of_display fl)) o1 \<Longrightarrow> obs_about (shown_name (of_display fl)) (fold (secWriter_Write fl) evs o1)" for evs o1
    by (induction evs arbitrary: o1) (simp_all add: secWriter_about)
  then show ?thesis using assms by (simp add: obs_drain_def case_prod_beta Let_def)
qed

lemma observer_tick_about:
  assumes "obs_about (shown_name (of_display fl)) ob"
  shows "obs_about (shown_name (of_display fl)) (observer_tick env fl inp ob)"
proof -
  let ?P = "obs_about (shown_name (of_display fl))"
  have t: "?P o1 \<Longrightarrow> ?P (tick_mem env inp fl o1)" "?P o1 \<Longrightarrow> ?P (tick_io env inp fl o1)" "?P o1 \<Longrightarrow> ?P (tick_net env inp fl o1)"
    "?P o1 \<Longrightarrow> ?P (tick_sys env inp fl o1)" "?P o1 \<Longrightarrow> ?P (tick_security env inp fl o1)" for o1
    unfolding tick_mem_def tick_io_def tick_net_def tick_sys_def tick_security_def Let_def
    by (auto split: option.split intro!: tables_about drains_about obs_drain_about)
  show ?thesis using assms unfolding observer_tick_def by (intro t tables_about)
qed

lemma observer_run_about:
  "obs_about (shown_name (of_display fl)) ob \<Longrightarrow> obs_about (shown_name (of_display fl)) (fold (observer_tick env fl) inps ob)"
  by (induction inps arbitrary: ob) (simp_all add: observer_tick_about)

section \<open>Counted and logged\<close>

text \<open>Every security event a collector hands over is counted, and logged if logging is on, unless it is filtered.\<close>

definition counted_events :: "Observer \<Rightarrow> nat" where
  "counted_events ob = length (filter (\<lambda>c. case c of CounterInc SecurityEvents ls \<Rightarrow> True | _ \<Rightarrow> False) (ob_metrics ob))"

definition logged_events :: "Observer \<Rightarrow> EventEnvelope list" where
  "logged_events ob = concat (map (\<lambda>x. case x of OutSecurity ev \<Rightarrow> [ev] | _ \<Rightarrow> []) (ob_out ob))"

lemma secWriter_counts:
  "counted_events (secWriter_Write fl ev ob) = counted_events ob + (if obs_hidden (of_display fl) (ee_ContainerName ev) then 0 else 1)"
  "logged_events (secWriter_Write fl ev ob) =
     logged_events ob @ (if of_showSecurity fl \<and> \<not> obs_hidden (of_display fl) (ee_ContainerName ev) then [ev] else [])"
  by (auto simp: secWriter_Write_def Prom_Write_def inner_writer_def counted_events_def logged_events_def obs_emit_def obs_hidden_def
      isContainer_same specific_counter_def Let_def)

lemma obs_drain_counts:
  assumes "loaded" "rd (ob_resolver ob) = (d, st1)"
  shows "counted_events (obs_drain fl loaded rd ob) =
      counted_events ob + length (filter (\<lambda>ev. shown_name (of_display fl) (ee_ContainerName ev)) (dr_written d))"
    "logged_events (obs_drain fl loaded rd ob) =
      logged_events ob @ (if of_showSecurity fl then filter (\<lambda>ev. shown_name (of_display fl) (ee_ContainerName ev)) (dr_written d) else [])"
proof -
  have "counted_events (fold (secWriter_Write fl) evs o1) = counted_events o1 + length (filter (\<lambda>ev. shown_name (of_display fl) (ee_ContainerName ev)) evs)"
    "logged_events (fold (secWriter_Write fl) evs o1) =
       logged_events o1 @ (if of_showSecurity fl then filter (\<lambda>ev. shown_name (of_display fl) (ee_ContainerName ev)) evs else [])" for evs o1
    by (induction evs arbitrary: o1) (simp_all add: secWriter_counts)
  moreover have "counted_events (ob\<lparr>ob_resolver := st1\<rparr>) = counted_events ob" "logged_events (ob\<lparr>ob_resolver := st1\<rparr>) = logged_events ob"
    by (simp_all add: counted_events_def logged_events_def)
  ultimately show "counted_events (obs_drain fl loaded rd ob) =
      counted_events ob + length (filter (\<lambda>ev. shown_name (of_display fl) (ee_ContainerName ev)) (dr_written d))"
    "logged_events (obs_drain fl loaded rd ob) =
      logged_events ob @ (if of_showSecurity fl then filter (\<lambda>ev. shown_name (of_display fl) (ee_ContainerName ev)) (dr_written d) else [])"
    using assms by (simp_all add: obs_drain_def)
qed

section \<open>The rows of a table\<close>

text \<open>With a limit the table shows the first samples in its order: none left out would come before one shown.\<close>

lemma applyTop_prefix: "prefix (applyTop s n) s"
  by (simp add: applyTop_def take_is_prefix)

lemma applyTop_length: "0 < n \<Longrightarrow> length (applyTop s n) = min (nat n) (length s)"
  by (auto simp: applyTop_def)

lemma applyTop_best:
  fixes key :: "'s \<Rightarrow> 'k::linorder"
  shows "\<exists>rest. sort_key key xs = applyTop (sort_key key xs) n @ rest \<and> (\<forall>a \<in> set (applyTop (sort_key key xs) n). \<forall>b \<in> set rest. key a \<le> key b)"
proof -
  obtain rest where r: "sort_key key xs = applyTop (sort_key key xs) n @ rest" using applyTop_prefix prefixE by blast
  have "sorted (map key (sort_key key xs))" by simp
  then have "sorted (map key (applyTop (sort_key key xs) n) @ map key rest)" using r by (metis map_append)
  then show ?thesis using r by (auto simp: sorted_append)
qed

end
