(* ===== verification/TuiStreams.thy ===== *)
theory TuiStreams
  imports TuiViews
begin

text \<open>
  The scrolling tabs of the terminal interface: events, graphs, overview and the page of one
  container (\<open>internal/tui/views\<close> \<open>events\<close>, \<open>graphs\<close>, \<open>overview\<close>, \<open>detail\<close>). The viewport of the
  bubbles library is a parameter with its operations, like the text field; the wall clock text
  of a time and the \<open>%v\<close> of a float are parameters too. A styled text is a list of pieces with
  the name of their style.
\<close>

section \<open>Viewport\<close>

record ('vp, 'cmd) Viewport =
  vp_New :: 'vp
  vp_SetSize :: "int \<Rightarrow> int \<Rightarrow> 'vp \<Rightarrow> 'vp"
  vp_GotoTop :: "'vp \<Rightarrow> 'vp"
  vp_GotoBottom :: "'vp \<Rightarrow> 'vp"
  vp_LineUp :: "'vp \<Rightarrow> 'vp"
  vp_LineDown :: "'vp \<Rightarrow> 'vp"
  vp_HalfViewUp :: "'vp \<Rightarrow> 'vp"
  vp_HalfViewDown :: "'vp \<Rightarrow> 'vp"
  vp_Update :: "string \<Rightarrow> 'vp \<Rightarrow> 'vp \<times> 'cmd"
  vp_Other :: "nat \<Rightarrow> 'vp \<Rightarrow> 'vp \<times> 'cmd"

text \<open>The scrolling keys of the events and the overview, with the follow flag.\<close>

definition scroll_key :: "('vp, 'cmd) Viewport \<Rightarrow> string \<Rightarrow> 'vp \<times> bool \<Rightarrow> 'vp \<times> bool" where
  "scroll_key V k = (\<lambda>(vp, follow).
     if k = ''g'' then (vp_GotoTop V vp, False)
     else if k = ''G'' then (vp, True)
     else if k = ''up'' \<or> k = ''k'' then (vp_LineUp V vp, False)
     else if k = ''down'' \<or> k = ''j'' then (vp_LineDown V vp, follow)
     else if k = ''pgup'' then (vp_HalfViewUp V vp, False)
     else if k = ''pgdown'' then (vp_HalfViewDown V vp, follow)
     else (vp, follow))"

section \<open>Events\<close>

type_synonym styled = "(string \<times> string) list"

record ('ti, 'vp) EventsView =
  ev_vp :: 'vp
  ev_events :: "TuiEvent list"
  ev_search :: "'ti SearchbarModel"
  ev_filter :: string
  ev_follow :: bool
  ev_theme :: Theme
  ev_w :: int
  ev_h :: int
  ev_dirty :: bool
  ev_cached :: string
  ev_focused :: bool

definition Events_New :: "('ti, 'cmd) TextInput \<Rightarrow> ('vp, 'cmd) Viewport \<Rightarrow> Theme \<Rightarrow> ('ti, 'vp) EventsView" where
  "Events_New T V th = \<lparr>ev_vp = vp_New V, ev_events = [], ev_search = Search_New T th, ev_filter = [], ev_follow = True,
     ev_theme = th, ev_w = 0, ev_h = 0, ev_dirty = False, ev_cached = [], ev_focused = False\<rparr>"

text \<open>The scan for a duplicate runs backwards from the newest event and stops at one that is more than five seconds older.\<close>

definition same_event :: "TuiEvent \<Rightarrow> TuiEvent \<Rightarrow> bool" where
  "same_event e1 e2 \<longleftrightarrow> tv_Kind e1 = tv_Kind e2 \<and> tv_Container e1 = tv_Container e2 \<and> tv_Message e1 = tv_Message e2"

fun merge_back :: "TuiEvent \<Rightarrow> TuiEvent list \<Rightarrow> TuiEvent list option" where
  "merge_back new [] = None"
| "merge_back new (old # olds) =
     (if Sub (tv_At new) (tv_At old) > 5 * Second then None
      else if same_event old new then Some (old\<lparr>tv_Count := tv_Count old + tv_Count new, tv_At := tv_At new\<rparr> # olds)
      else map_option (Cons old) (merge_back new olds))"

definition counted :: "TuiEvent \<Rightarrow> TuiEvent" where
  "counted e = (if tv_Count e = 0 then e\<lparr>tv_Count := 1\<rparr> else e)"

definition add_event :: "TuiEvent \<Rightarrow> TuiEvent list \<Rightarrow> TuiEvent list" where
  "add_event e0 evs = (let e = counted e0 in case merge_back e (rev evs) of Some r \<Rightarrow> rev r | None \<Rightarrow> evs @ [e])"

definition maxEvents :: nat where "maxEvents = 2000"

definition Events_SetData :: "DataBatch \<Rightarrow> ('ti, 'vp) EventsView \<Rightarrow> ('ti, 'vp) EventsView" where
  "Events_SetData b v = v\<lparr>ev_events := lastn maxEvents (fold add_event (db_Events b) (ev_events v)), ev_dirty := True, ev_cached := []\<rparr>"

definition Events_SetSize :: "('vp, 'cmd) Viewport \<Rightarrow> int \<Rightarrow> int \<Rightarrow> ('ti, 'vp) EventsView \<Rightarrow> ('ti, 'vp) EventsView" where
  "Events_SetSize V w h v = v\<lparr>ev_w := w, ev_h := h,
     ev_vp := vp_SetSize V w (h - 2 - (if Search_Visible (ev_search v) then 1 else 0)) (ev_vp v), ev_dirty := True, ev_cached := []\<rparr>"

definition Events_SetTheme :: "Theme \<Rightarrow> ('ti, 'vp) EventsView \<Rightarrow> ('ti, 'vp) EventsView" where
  "Events_SetTheme th v = v\<lparr>ev_theme := th, ev_search := Search_SetTheme th (ev_search v), ev_dirty := True, ev_cached := []\<rparr>"

definition Events_Focus :: "('ti, 'vp) EventsView \<Rightarrow> ('ti, 'vp) EventsView" where "Events_Focus v = v\<lparr>ev_focused := True\<rparr>"
definition Events_Blur :: "('ti, 'vp) EventsView \<Rightarrow> ('ti, 'vp) EventsView" where "Events_Blur v = v\<lparr>ev_focused := False\<rparr>"

definition Events_Update ::
  "('ti, 'cmd) TextInput \<Rightarrow> ('vp, 'cmd) Viewport \<Rightarrow> string \<Rightarrow> ('ti, 'vp) EventsView \<Rightarrow> ('ti, 'vp) EventsView \<times> 'cmd option" where
  "Events_Update T V k v =
     (if Search_Visible (ev_search v) then
        (if k = ''esc'' then (v\<lparr>ev_search := Search_Reset T (Search_Hide T (ev_search v)), ev_filter := [], ev_dirty := True\<rparr>, None)
         else if k = ''enter'' then (v\<lparr>ev_search := Search_Hide T (ev_search v), ev_dirty := True\<rparr>, None)
         else let (s, cmd) = Search_Update T k (ev_search v)
              in (v\<lparr>ev_search := s, ev_filter := Search_Value T s, ev_dirty := True\<rparr>, cmd))
      else if k = ''/'' then (v\<lparr>ev_search := Search_Show T (ev_search v), ev_dirty := True\<rparr>, None)
      else let (vp, follow) = scroll_key V k (ev_vp v, ev_follow v);
               (vp1, cmd) = vp_Update V k vp
           in (v\<lparr>ev_vp := vp1, ev_follow := follow, ev_dirty := True\<rparr>, Some cmd))"

definition event_shown :: "string \<Rightarrow> TuiEvent \<Rightarrow> bool" where
  "event_shown q e \<longleftrightarrow> q = [] \<or> str_contains (ToLower (tv_Message e)) (ToLower q) \<or> str_contains (ToLower (tv_Container e)) (ToLower q)"

text \<open>The verb \<open>%v\<close>; a nil interface prints \<open><nil>\<close>, a map its entries by key.\<close>

fun show_any :: "(f64 \<Rightarrow> string) \<Rightarrow> any \<Rightarrow> string" where
  "show_any F (AnyUint32 w) = show_word w"
| "show_any F (AnyInt w) = show_int (sint w)"
| "show_any F (AnyUint64 w) = show_word w"
| "show_any F (AnyFloat64 x) = F x"
| "show_any F (AnyString s) = s"
| "show_any F (AnyBool b) = show_bool b"
| "show_any F (AnyUint16 w) = show_word w"
| "show_any F (AnyInt32 w) = show_int (sint w)"
| "show_any F (AnyStrings ss) = ''['' @ join_with CHR '' '' ss @ '']''"

definition show_opt :: "(f64 \<Rightarrow> string) \<Rightarrow> any option \<Rightarrow> string" where
  "show_opt F a = (case a of None \<Rightarrow> ''<nil>'' | Some x \<Rightarrow> show_any F x)"

definition show_meta :: "(f64 \<Rightarrow> string) \<Rightarrow> (string \<times> any) list \<Rightarrow> string" where
  "show_meta F m = ''map['' @ join_with CHR '' '' (map (\<lambda>(k, x). k @ '':'' @ show_any F x) (sort_key fst m)) @ '']''"

definition event_badge :: "EventType \<Rightarrow> string \<times> string" where
  "event_badge t =
     (if t = EventTypeExec then (''badgeExec'', '' EXEC '') else if t = EventTypeDNSQuery then (''badgeDNS'', '' DNS  '')
      else if t = EventTypePrivEsc then (''badgePriv'', '' PRIV '') else if t = EventTypeEscapeIndicator then (''badgeEscape'', '' ESCP '')
      else if t = EventTypeFork then (''BadgeDim'', '' FORK '') else if t = ''oom_kill'' then (''badgeOOM'', '' OOM  '')
      else (''BadgeDim'', '' SEC  ''))"

definition limit_mb :: "(string \<times> any) list \<Rightarrow> int" where
  "limit_mb m = (case map_of m ''limit_bytes'' of
       Some (AnyUint64 l) \<Rightarrow> sint (l div (1024 * 1024))
     | Some (AnyFloat64 l) \<Rightarrow> f64_trunc (f64_div l (1024 * 1024))
     | _ \<Rightarrow> 0)"

definition escalation_target :: "(f64 \<Rightarrow> string) \<Rightarrow> (string \<times> any) list \<Rightarrow> string" where
  "escalation_target F m =
     (case map_of m ''target_pid'' of Some p \<Rightarrow> ''pid:'' @ show_any F p
      | None \<Rightarrow> (case map_of m ''capability'' of Some c \<Rightarrow> show_any F c
      | None \<Rightarrow> (case map_of m ''new_uid'' of Some u \<Rightarrow> ''uid:'' @ show_any F u
      | None \<Rightarrow> (case map_of m ''new_gid'' of Some g \<Rightarrow> ''gid:'' @ show_any F g
      | None \<Rightarrow> ''<none>''))))"

definition escape_flags :: "(f64 \<Rightarrow> string) \<Rightarrow> (string \<times> any) list \<Rightarrow> string" where
  "escape_flags F m =
     (case map_of m ''namespace_flags'' of None \<Rightarrow> ''<none>'' | Some x \<Rightarrow> if x = AnyString [] then ''<none>'' else show_any F x)"

definition event_meta :: "(f64 \<Rightarrow> string) \<Rightarrow> EventType \<Rightarrow> (string \<times> any) list \<Rightarrow> styled" where
  "event_meta F t m =
     (if m = [] then []
      else (''plain'', ''  '') #
        (if t = EventTypeExec then (case map_of m ''argv'' of Some a \<Rightarrow> [(''metaExec'', ''cmd: '' @ show_any F a)] | None \<Rightarrow> [])
         else if t = EventTypeDNSQuery
           then [(''metaDNS'', ''q: '' @ show_opt F (map_of m ''query'') @ '' ('' @ show_opt F (map_of m ''query_type'') @ '')'')]
         else if t = EventTypePrivEsc
           then [(''metaAlert'', ''op: '' @ show_opt F (map_of m ''escalation_type'') @ '' tgt: '' @ escalation_target F m)]
         else if t = EventTypeEscapeIndicator
           then [(''metaAlert'', ''op: '' @ show_opt F (map_of m ''indicator_type'') @ '' flags: '' @ escape_flags F m)]
         else if t = ''oom_kill''
           then [(''metaAlert'', ''rss: '' @ show_opt F (map_of m ''rss_kb'') @ ''KB limit: '' @ show_int (limit_mb m) @ ''MB'')]
         else [(''TableDim'', show_meta F m)]))"

definition spaced_arrow :: string where "spaced_arrow = '' '' @ right_arrow @ '' ''"

definition formatSecurityEvent :: "(f64 \<Rightarrow> string) \<Rightarrow> EventEnvelope \<Rightarrow> styled" where
  "formatSecurityEvent F env =
     [event_badge (ee_EventType env), (''plain'', '' ''), (''container'', ''['' @ ee_ContainerName env @ '']''), (''plain'', '' ''),
      (''process'', (if ee_ParentProcess env \<noteq> [] then ee_ParentProcess env @ spaced_arrow @ ee_Process env else ee_Process env)
        @ '' (pid:'' @ show_word (ee_PID env) @ '')'')] @ event_meta F (ee_EventType env) (ee_Metadata env)"

definition styleEvent :: "(f64 \<Rightarrow> string) \<Rightarrow> TuiEvent \<Rightarrow> styled" where
  "styleEvent F e =
     (case tv_Kind e of
        EventKindTCP \<Rightarrow> [(''EventTCP'', tv_Message e)]
      | EventKindError \<Rightarrow> [(''EventError'', tv_Message e)]
      | EventKindOOM \<Rightarrow> (case tv_Envelope e of Some env \<Rightarrow> formatSecurityEvent F env | None \<Rightarrow> [(''EventOOM'', tv_Message e)])
      | EventKindSlowSys \<Rightarrow> [(''EventSlowSys'', tv_Message e)]
      | EventKindSecurity \<Rightarrow> (case tv_Envelope e of Some env \<Rightarrow> formatSecurityEvent F env
          | None \<Rightarrow> [(''BadgeRed'', '' SEC ''), (''plain'', CHR '' '' # tv_Message e)])
      | EventKindInfo \<Rightarrow> [(''EventInfo'', tv_Message e)])"

definition event_line :: "(f64 \<Rightarrow> string) \<Rightarrow> (instant \<Rightarrow> string) \<Rightarrow> TuiEvent \<Rightarrow> styled" where
  "event_line F clock e =
     [(''TableDim'', clock (tv_At e)), (''plain'', '' '')] @ styleEvent F e
       @ (if tv_Count e > 1 then [(''TableDim'', '' (x'' @ show_int (tv_Count e) @ '')'')] else [])"

definition no_events :: string where "no_events = ''  No events yet'' @ ellipsis"

definition buildLines :: "(f64 \<Rightarrow> string) \<Rightarrow> (instant \<Rightarrow> string) \<Rightarrow> ('ti, 'vp) EventsView \<Rightarrow> styled list" where
  "buildLines F clock v =
     (let lines = map (event_line F clock) (filter (event_shown (ev_filter v)) (ev_events v))
      in if lines = [] then [[(''TableDim'', no_events)]] else lines)"

section \<open>No occurrence is lost\<close>

definition occurrences :: "TuiEvent list \<Rightarrow> int" where
  "occurrences evs = sum_list (map tv_Count evs)"

lemma occurrences_simps [simp]:
  "occurrences [] = 0" "occurrences (e # es) = tv_Count e + occurrences es" "occurrences (xs @ ys) = occurrences xs + occurrences ys"
  by (simp_all add: occurrences_def)

lemma merge_back_occurrences: "merge_back e evs = Some evs' \<Longrightarrow> occurrences evs' = occurrences evs + tv_Count e \<and> length evs' = length evs"
  by (induction e evs arbitrary: evs' rule: merge_back.induct) (auto split: if_splits)

lemma occurrences_rev [simp]: "occurrences (rev evs) = occurrences evs"
  by (induction evs) simp_all

lemma add_event_occurrences: "occurrences (add_event e evs) = occurrences evs + tv_Count (counted e)"
  using merge_back_occurrences [of "counted e" "rev evs"] 
  by (auto simp: add_event_def Let_def split: option.splits)

lemma fold_add_event_occurrences: "occurrences (fold add_event es evs) = occurrences evs + occurrences (map counted es)"
  by (induction es arbitrary: evs) (simp_all add: add_event_occurrences)

lemma Events_SetData_occurrences:
  assumes "length (ev_events v) + length (db_Events b) \<le> maxEvents"
  shows "occurrences (ev_events (Events_SetData b v)) = occurrences (ev_events v) + occurrences (map counted (db_Events b))"
proof -
  have "length (fold add_event es evs) \<le> length evs + length es" for es evs
  proof (induction es arbitrary: evs)
    case (Cons e es)
    have "length (add_event e evs) \<le> Suc (length evs)"
      using merge_back_occurrences [of "counted e" "rev evs"] by (auto simp: add_event_def Let_def split: option.splits)
    then show ?case using Cons [of "add_event e evs"] by simp
  qed simp
  from this [of "db_Events b" "ev_events v"] show ?thesis
    using assms by (simp add: Events_SetData_def lastn_def fold_add_event_occurrences)
qed

lemma Events_SetData_bound: "length (ev_events (Events_SetData b v)) \<le> maxEvents"
  by (simp add: Events_SetData_def lastn_def)

section \<open>Graphs\<close>

fun fold_opt :: "('x \<Rightarrow> 's \<Rightarrow> 's option) \<Rightarrow> 'x list \<Rightarrow> 's \<Rightarrow> 's option" where
  "fold_opt f [] s = Some s"
| "fold_opt f (x # xs) s = (case f x s of None \<Rightarrow> None | Some s1 \<Rightarrow> fold_opt f xs s1)"

definition maxContainers :: nat where "maxContainers = 50"

record ContainerGraphs =
  cg_cpu :: SparkModel
  cg_mem :: SparkModel
  cg_ioRead :: SparkModel
  cg_ioWrt :: SparkModel
  cg_net :: SparkModel
  cg_seq :: int

record 'vp GraphsView =
  gv_vp :: 'vp
  gv_graphs :: "(string \<times> ContainerGraphs) list"
  gv_order :: "string list"
  gv_seq :: int
  gv_theme :: Theme
  gv_w :: int
  gv_h :: int
  gv_dirty :: bool
  gv_cached :: string
  gv_focused :: bool

definition Graphs_New :: "('vp, 'cmd) Viewport \<Rightarrow> Theme \<Rightarrow> 'vp GraphsView" where
  "Graphs_New V th = \<lparr>gv_vp = vp_New V, gv_graphs = [], gv_order = [], gv_seq = 0, gv_theme = th, gv_w = 0, gv_h = 0,
     gv_dirty = False, gv_cached = [], gv_focused = False\<rparr>"

definition spark_width :: "int \<Rightarrow> int" where
  "spark_width w = (if w - 2 < 20 then 20 else w - 2)"

definition new_graphs :: "int \<Rightarrow> int \<Rightarrow> ContainerGraphs" where
  "new_graphs w sq = \<lparr>cg_cpu = Spark_New ''CPU  '' ''s'' w, cg_mem = Spark_New ''MEM  '' ''MB'' w, cg_ioRead = Spark_New ''READ '' ''KB/s'' w,
     cg_ioWrt = Spark_New ''WRITE'' ''KB/s'' w, cg_net = Spark_New ''NET  '' ''flows'' w, cg_seq = sq\<rparr>"

text \<open>The oldest container goes when a new one finds the map full; taking it from an empty order would panic.\<close>

definition host_name :: "string \<Rightarrow> string" where "host_name n = (if n = [] then ''<host>'' else n)"

definition evict_oldest :: "'vp GraphsView \<Rightarrow> 'vp GraphsView option" where
  "evict_oldest v =
     (if length (gv_graphs v) \<ge> maxContainers
      then (case gv_order v of [] \<Rightarrow> None
            | oldest # rest \<Rightarrow> Some (v\<lparr>gv_order := rest, gv_graphs := AList.delete oldest (gv_graphs v)\<rparr>))
      else Some v)"

definition getGraphs :: "string \<Rightarrow> 'vp GraphsView \<Rightarrow> 'vp GraphsView option" where
  "getGraphs n v =
     (case map_of (gv_graphs v) n of
        Some g \<Rightarrow> Some v
      | None \<Rightarrow> map_option (\<lambda>v1. v1\<lparr>gv_seq := gv_seq v1 + 1,
            gv_graphs := AList.update n (new_graphs (spark_width (gv_w v1)) (gv_seq v1 + 1)) (gv_graphs v1),
            gv_order := gv_order v1 @ [n]\<rparr>) (evict_oldest v))"

definition push_graph :: "(ContainerGraphs \<Rightarrow> ContainerGraphs) \<Rightarrow> string \<Rightarrow> 'vp GraphsView \<Rightarrow> 'vp GraphsView option" where
  "push_graph upd n0 v =
     (let n = host_name n0
      in map_option (\<lambda>v1. v1\<lparr>gv_graphs := AList.map_entry n upd (gv_graphs v1)\<rparr>) (getGraphs n v))"

definition Graphs_SetData :: "DataBatch \<Rightarrow> 'vp GraphsView \<Rightarrow> 'vp GraphsView option" where
  "Graphs_SetData b v =
     do { v1 \<leftarrow> fold_opt (\<lambda>s. push_graph (cg_cpu_update (Spark_Push (cm_CPUSeconds s))) (cm_ContainerName s)) (db_CPU b) v;
          v2 \<leftarrow> fold_opt (\<lambda>s. push_graph (cg_mem_update (Spark_Push (to_mb (ms_MemoryBytes s)))) (ms_ContainerName s)) (db_Mem b) v1;
          v3 \<leftarrow> fold_opt (\<lambda>s. push_graph (cg_ioWrt_update (Spark_Push (f64_div (is_WriteBytesPerSec s) 1024))
                  \<circ> cg_ioRead_update (Spark_Push (f64_div (is_ReadBytesPerSec s) 1024))) (is_ContainerName s)) (db_IO b) v2;
          v4 \<leftarrow> fold_opt (\<lambda>s. push_graph (cg_net_update (Spark_Push (f64_of_int (int (nm_ActiveFlows s))))) (nm_ContainerName s)) (db_Net b) v3;
          Some (v4\<lparr>gv_dirty := True, gv_cached := []\<rparr>) }"

definition resize_graphs :: "int \<Rightarrow> ContainerGraphs \<Rightarrow> ContainerGraphs" where
  "resize_graphs w g = g\<lparr>cg_cpu := Spark_SetWidth w (cg_cpu g), cg_mem := Spark_SetWidth w (cg_mem g),
     cg_ioRead := Spark_SetWidth w (cg_ioRead g), cg_ioWrt := Spark_SetWidth w (cg_ioWrt g), cg_net := Spark_SetWidth w (cg_net g)\<rparr>"

definition Graphs_SetSize :: "('vp, 'cmd) Viewport \<Rightarrow> int \<Rightarrow> int \<Rightarrow> 'vp GraphsView \<Rightarrow> 'vp GraphsView" where
  "Graphs_SetSize V w h v = v\<lparr>gv_w := w, gv_h := h, gv_vp := vp_SetSize V w (h - 2) (gv_vp v),
     gv_graphs := map (\<lambda>(n, g). (n, resize_graphs (spark_width w) g)) (gv_graphs v), gv_dirty := True, gv_cached := []\<rparr>"

definition Graphs_SetTheme :: "Theme \<Rightarrow> 'vp GraphsView \<Rightarrow> 'vp GraphsView" where
  "Graphs_SetTheme th v = v\<lparr>gv_theme := th, gv_dirty := True, gv_cached := []\<rparr>"

definition Graphs_Focus :: "'vp GraphsView \<Rightarrow> 'vp GraphsView" where "Graphs_Focus v = v\<lparr>gv_focused := True\<rparr>"
definition Graphs_Blur :: "'vp GraphsView \<Rightarrow> 'vp GraphsView" where "Graphs_Blur v = v\<lparr>gv_focused := False\<rparr>"

definition Graphs_Update :: "('vp, 'cmd) Viewport \<Rightarrow> string \<Rightarrow> 'vp GraphsView \<Rightarrow> 'vp GraphsView \<times> 'cmd option" where
  "Graphs_Update V k v =
     (if k = ''g'' then (v\<lparr>gv_vp := vp_GotoTop V (gv_vp v)\<rparr>, None)
      else if k = ''G'' then (v\<lparr>gv_vp := vp_GotoBottom V (gv_vp v)\<rparr>, None)
      else if k = ''up'' \<or> k = ''k'' then (v\<lparr>gv_vp := vp_LineUp V (gv_vp v)\<rparr>, None)
      else if k = ''down'' \<or> k = ''j'' then (v\<lparr>gv_vp := vp_LineDown V (gv_vp v)\<rparr>, None)
      else if k = ''pgup'' then (v\<lparr>gv_vp := vp_HalfViewUp V (gv_vp v)\<rparr>, None)
      else if k = ''pgdown'' then (v\<lparr>gv_vp := vp_HalfViewDown V (gv_vp v)\<rparr>, None)
      else let (vp, cmd) = vp_Update V k (gv_vp v) in (v\<lparr>gv_vp := vp\<rparr>, Some cmd))"

text \<open>The containers in the order they are drawn.\<close>

definition graphs_drawn :: "'vp GraphsView \<Rightarrow> (string \<times> ContainerGraphs) list" where
  "graphs_drawn v = concat (map (\<lambda>n. case map_of (gv_graphs v) n of Some g \<Rightarrow> [(n, g)] | None \<Rightarrow> []) (gv_order v))"

definition graphs_wf :: "ContainerGraphs \<Rightarrow> bool" where
  "graphs_wf g \<longleftrightarrow> spark_wf (cg_cpu g) \<and> spark_wf (cg_mem g) \<and> spark_wf (cg_ioRead g) \<and> spark_wf (cg_ioWrt g) \<and> spark_wf (cg_net g)"

definition graphs_ok :: "'vp GraphsView \<Rightarrow> bool" where
  "graphs_ok v \<longleftrightarrow> gv_order v = map fst (gv_graphs v) \<and> distinct (map fst (gv_graphs v)) \<and> length (gv_graphs v) \<le> maxContainers
     \<and> (\<forall>p \<in> set (gv_graphs v). graphs_wf (snd p))"

lemma graphs_ok_New: "graphs_ok (Graphs_New V th)"
  by (simp add: graphs_ok_def Graphs_New_def)

lemma graphs_wf_new: "graphs_wf (new_graphs w sq)"
  by (simp add: graphs_wf_def new_graphs_def spark_wf_New)

lemma graphs_ok_evict:
  assumes "graphs_ok v"
  shows "\<exists>v1. evict_oldest v = Some v1 \<and> graphs_ok v1 \<and> length (gv_order v1) < maxContainers \<and> set (gv_order v1) \<subseteq> set (gv_order v)"
proof (cases "length (gv_graphs v) \<ge> maxContainers")
  case True
  then have "gv_graphs v \<noteq> []" by (auto simp: maxContainers_def)
  then obtain n g r where g: "gv_graphs v = (n, g) # r" by (cases "gv_graphs v") auto
  have "distinct (map fst (gv_graphs v))" using assms by (auto simp: graphs_ok_def)
  then have "n \<notin> fst ` set r" by (simp add: g)
  then have "AList.delete n ((n, g) # r) = r" by simp
  moreover have "distinct (map fst r)" using assms g by (auto simp: graphs_ok_def)
  ultimately have "evict_oldest v = Some (v\<lparr>gv_order := map fst r, gv_graphs := r\<rparr>) \<and> graphs_ok (v\<lparr>gv_order := map fst r, gv_graphs := r\<rparr>)"
    using assms True by (auto simp: evict_oldest_def graphs_ok_def g)
  moreover have "Suc (length r) \<le> maxContainers" "gv_order v = n # map fst r" using assms g by (auto simp: graphs_ok_def)
  ultimately show ?thesis by (intro exI [of _ "v\<lparr>gv_order := map fst r, gv_graphs := r\<rparr>"]) auto
next
  case False
  then show ?thesis using assms by (auto simp: evict_oldest_def graphs_ok_def)
qed

lemma graphs_ok_getGraphs:
  assumes "graphs_ok v"
  shows "\<exists>v1. getGraphs n v = Some v1 \<and> graphs_ok v1 \<and> n \<in> set (gv_order v1)"
proof (cases "map_of (gv_graphs v) n")
  case None
  then have n: "n \<notin> set (gv_order v)" using assms by (simp add: graphs_ok_def map_of_eq_None_iff)
  obtain v1 where v1: "evict_oldest v = Some v1" "graphs_ok v1" "length (gv_order v1) < maxContainers" "set (gv_order v1) \<subseteq> set (gv_order v)"
    using graphs_ok_evict [OF assms] by blast
  have "map_of (gv_graphs v1) n = None" using n v1(2,4) by (auto simp: graphs_ok_def map_of_eq_None_iff)
  then have u: "AList.update n g (gv_graphs v1) = gv_graphs v1 @ [(n, g)]" for g by (rule update_absent)
  have "n \<notin> set (gv_order v1)" using n v1(4) by blast
  show ?thesis using None n v1 u graphs_wf_new by (auto simp: getGraphs_def graphs_ok_def)
next
  case (Some g)
  then have "n \<in> fst ` set (gv_graphs v)" by (metis map_of_eq_None_iff option.distinct(1))
  then show ?thesis using assms Some by (auto simp: getGraphs_def graphs_ok_def)
qed

lemma map_entry_keys: "map fst (AList.map_entry n f xs) = map fst xs"
  by (induction xs) auto

lemma map_entry_set: "p \<in> set (AList.map_entry n f xs) \<Longrightarrow> p \<in> set xs \<or> (\<exists>g. (n, g) \<in> set xs \<and> p = (n, f g))"
  by (induction xs) (auto split: if_splits)

lemma graphs_ok_push:
  assumes "graphs_ok v" "\<And>g. graphs_wf g \<Longrightarrow> graphs_wf (upd g)"
  shows "\<exists>v1. push_graph upd n v = Some v1 \<and> graphs_ok v1"
proof -
  obtain v1 where v1: "getGraphs (host_name n) v = Some v1" "graphs_ok v1" using graphs_ok_getGraphs [OF assms(1)] by blast
  have "length (AList.map_entry (host_name n) upd (gv_graphs v1)) = length (gv_graphs v1)" by (metis length_map map_entry_keys)
  moreover have "\<forall>p \<in> set (AList.map_entry (host_name n) upd (gv_graphs v1)). graphs_wf (snd p)"
    using v1(2) assms(2) map_entry_set unfolding graphs_ok_def by fastforce
  ultimately have "graphs_ok (v1\<lparr>gv_graphs := AList.map_entry (host_name n) upd (gv_graphs v1)\<rparr>)"
    using v1(2) by (simp add: graphs_ok_def map_entry_keys)
  then show ?thesis using v1(1) by (auto simp: push_graph_def Let_def)
qed

lemma fold_opt_inv:
  "(\<And>x s. J s \<Longrightarrow> \<exists>s1. f x s = Some s1 \<and> J s1) \<Longrightarrow> J s \<Longrightarrow> \<exists>s1. fold_opt f xs s = Some s1 \<and> J s1"
proof (induction xs arbitrary: s)
  case (Cons x xs)
  obtain s1 where "f x s = Some s1" "J s1" using Cons.prems by blast
  then show ?case using Cons by auto
qed simp

lemma spark_wf_push: "spark_wf m \<Longrightarrow> spark_wf (Spark_Push x m)"
  by (rule spark.push_wf)

lemma bind_ok:
  "\<exists>s1. m = Some s1 \<and> J s1 \<Longrightarrow> (\<And>s1. J s1 \<Longrightarrow> \<exists>s2. k s1 = Some s2 \<and> J s2) \<Longrightarrow> \<exists>s2. Option.bind m k = Some s2 \<and> J s2"
  by auto

lemma graphs_ok_push_each:
  "graphs_ok v \<Longrightarrow> \<exists>v1. push_graph (cg_cpu_update (Spark_Push x)) n v = Some v1 \<and> graphs_ok v1"
  "graphs_ok v \<Longrightarrow> \<exists>v1. push_graph (cg_mem_update (Spark_Push x)) n v = Some v1 \<and> graphs_ok v1"
  "graphs_ok v \<Longrightarrow> \<exists>v1. push_graph (cg_ioWrt_update (Spark_Push y) \<circ> cg_ioRead_update (Spark_Push x)) n v = Some v1 \<and> graphs_ok v1"
  "graphs_ok v \<Longrightarrow> \<exists>v1. push_graph (cg_net_update (Spark_Push x)) n v = Some v1 \<and> graphs_ok v1"
  by (rule graphs_ok_push; simp add: graphs_wf_def spark_wf_push)+

lemma graphs_ok_SetData: "graphs_ok v \<Longrightarrow> \<exists>v'. Graphs_SetData b v = Some v' \<and> graphs_ok v'"
  unfolding Graphs_SetData_def
  by (intro bind_ok [where J = graphs_ok] fold_opt_inv [where J = graphs_ok] graphs_ok_push_each) (simp_all add: graphs_ok_def)

lemma graphs_ok_set:
  assumes "graphs_ok v"
  shows "graphs_ok (Graphs_SetSize V w h v)" "graphs_ok (Graphs_SetTheme th v)" "graphs_ok (Graphs_Focus v)" "graphs_ok (Graphs_Blur v)"
    "graphs_ok (fst (Graphs_Update V k v))"
proof -
  have "graphs_wf (resize_graphs w g)" if "graphs_wf g" for g w
    using that by (simp add: graphs_wf_def resize_graphs_def Spark_SetWidth_def spark_wf_def spark_buffer_def)
  then show "graphs_ok (Graphs_SetSize V w h v)"
    using assms by (auto simp: graphs_ok_def Graphs_SetSize_def comp_def case_prod_beta)
  show "graphs_ok (Graphs_SetTheme th v)" "graphs_ok (Graphs_Focus v)" "graphs_ok (Graphs_Blur v)" "graphs_ok (fst (Graphs_Update V k v))"
    using assms by (simp_all add: graphs_ok_def Graphs_SetTheme_def Graphs_Focus_def Graphs_Blur_def Graphs_Update_def case_prod_beta)
qed

lemma lookup_all:
  "distinct (map fst xs) \<Longrightarrow> concat (map (\<lambda>n. case map_of xs n of Some g \<Rightarrow> [(n, g)] | None \<Rightarrow> []) (map fst xs)) = xs"
proof -
  assume d: "distinct (map fst xs)"
  have "map (\<lambda>n. case map_of xs n of Some g \<Rightarrow> [(n, g)] | None \<Rightarrow> []) (map fst xs) = map (\<lambda>p. [p]) xs"
    using map_of_is_SomeI [OF d] by (auto simp: prod.case_eq_if)
  then show ?thesis by (simp only: concat_map_singleton map_ident)
qed

lemma graphs_drawn_all: "graphs_ok v \<Longrightarrow> graphs_drawn v = gv_graphs v"
  using lookup_all [of "gv_graphs v"] by (auto simp only: graphs_drawn_def graphs_ok_def)

section \<open>Overview\<close>

definition maxHistory :: nat where "maxHistory = 60"

record cpuHist =
  hi_cpu :: SparkModel
  hi_mem :: SparkModel

record 'vp OverviewView =
  ov_vp :: 'vp
  ov_batches :: "DataBatch list"
  ov_hists :: "(string \<times> cpuHist) list"
  ov_theme :: Theme
  ov_w :: int
  ov_h :: int
  ov_dirty :: bool
  ov_cached :: string
  ov_follow :: bool
  ov_focused :: bool

definition Overview_New :: "('vp, 'cmd) Viewport \<Rightarrow> Theme \<Rightarrow> 'vp OverviewView" where
  "Overview_New V th = \<lparr>ov_vp = vp_New V, ov_batches = [], ov_hists = [], ov_theme = th, ov_w = 0, ov_h = 0, ov_dirty = False,
     ov_cached = [], ov_follow = True, ov_focused = False\<rparr>"

definition ensureHist :: "string \<Rightarrow> (string \<times> cpuHist) list \<Rightarrow> (string \<times> cpuHist) list" where
  "ensureHist n hs =
     (case map_of hs n of
        Some h \<Rightarrow> hs
      | None \<Rightarrow> AList.update n \<lparr>hi_cpu = Spark_New ''CPU'' ''s'' 24, hi_mem = Spark_New ''MEM'' ''MB'' 24\<rparr> hs)"

definition push_hist :: "(cpuHist \<Rightarrow> cpuHist) \<Rightarrow> string \<Rightarrow> (string \<times> cpuHist) list \<Rightarrow> (string \<times> cpuHist) list" where
  "push_hist upd n hs = AList.map_entry n upd (ensureHist n hs)"

definition Overview_SetData :: "DataBatch \<Rightarrow> 'vp OverviewView \<Rightarrow> 'vp OverviewView" where
  "Overview_SetData b v =
     (let h1 = fold (\<lambda>s. push_hist (hi_cpu_update (Spark_Push (cm_CPUSeconds s))) (cm_ContainerName s)) (db_CPU b) (ov_hists v);
          h2 = fold (\<lambda>s. push_hist (hi_mem_update (Spark_Push (to_mb (ms_MemoryBytes s)))) (ms_ContainerName s)) (db_Mem b) h1
      in v\<lparr>ov_batches := lastn maxHistory (ov_batches v @ [b]), ov_hists := h2, ov_dirty := True, ov_cached := []\<rparr>)"

definition Overview_SetSize :: "('vp, 'cmd) Viewport \<Rightarrow> int \<Rightarrow> int \<Rightarrow> 'vp OverviewView \<Rightarrow> 'vp OverviewView" where
  "Overview_SetSize V w h v = v\<lparr>ov_w := w, ov_h := h, ov_vp := vp_SetSize V w (h - 1) (ov_vp v), ov_dirty := True, ov_cached := []\<rparr>"

definition Overview_SetTheme :: "Theme \<Rightarrow> 'vp OverviewView \<Rightarrow> 'vp OverviewView" where
  "Overview_SetTheme th v = v\<lparr>ov_theme := th, ov_dirty := True, ov_cached := []\<rparr>"

definition Overview_Focus :: "'vp OverviewView \<Rightarrow> 'vp OverviewView" where "Overview_Focus v = v\<lparr>ov_focused := True\<rparr>"
definition Overview_Blur :: "'vp OverviewView \<Rightarrow> 'vp OverviewView" where "Overview_Blur v = v\<lparr>ov_focused := False\<rparr>"

definition Overview_Update :: "('vp, 'cmd) Viewport \<Rightarrow> string \<Rightarrow> 'vp OverviewView \<Rightarrow> 'vp OverviewView \<times> 'cmd option" where
  "Overview_Update V k v =
     (let (vp, follow) = scroll_key V k (ov_vp v, ov_follow v);
          (vp1, cmd) = vp_Update V k vp
      in (v\<lparr>ov_vp := vp1, ov_follow := follow, ov_dirty := True\<rparr>, Some cmd))"

lemma lastn_again: "lastn n (lastn n xs @ ys) = lastn n (xs @ ys)"
  by (simp add: lastn_append lastn_lastn)

lemma Overview_batches: "ov_batches (fold Overview_SetData bs v) = lastn maxHistory (ov_batches v @ bs)"
  if "length (ov_batches v) \<le> maxHistory"
  using that
proof (induction bs arbitrary: v)
  case (Cons b bs)
  have "ov_batches (Overview_SetData b v) = lastn maxHistory (ov_batches v @ [b])" by (simp add: Overview_SetData_def Let_def)
  then show ?case using Cons.IH [of "Overview_SetData b v"] by (simp add: lastn_again)
qed (simp add: lastn_all)

text \<open>The histories are never removed: a container once seen keeps its two sparklines.\<close>

lemma push_hist_keys: "fst ` set (push_hist upd n hs) = insert n (fst ` set hs)"
  by (auto simp: push_hist_def ensureHist_def dom_map_entry dom_update split: option.splits dest: map_of_SomeD intro: rev_image_eqI)

lemma fold_push_hist_keys: "fst ` set (fold (\<lambda>s. push_hist (upd s) (nm s)) xs hs) = fst ` set hs \<union> nm ` set xs"
  by (induction xs arbitrary: hs) (auto simp: push_hist_keys)

lemma Overview_hists:
  "fst ` set (ov_hists (Overview_SetData b v)) = fst ` set (ov_hists v) \<union> cm_ContainerName ` set (db_CPU b) \<union> ms_ContainerName ` set (db_Mem b)"
  by (simp add: Overview_SetData_def Let_def fold_push_hist_keys)

section \<open>The page of a container\<close>

record containerHistory =
  ch_cpu :: SparkModel
  ch_mem :: SparkModel
  ch_ioRead :: SparkModel
  ch_ioWrt :: SparkModel
  ch_sysLat :: SparkModel

record ('ti, 'vp) DetailView =
  dv_container :: string
  dv_hist :: containerHistory
  dv_lastBatch :: DataBatch
  dv_events :: "TuiEvent list"
  dv_search :: "'ti SearchbarModel"
  dv_filter :: string
  dv_vp :: 'vp
  dv_theme :: Theme
  dv_w :: int
  dv_h :: int
  dv_paused :: bool
  dv_dirty :: bool
  dv_cached :: string

definition zero_spark :: SparkModel where
  "zero_spark = \<lparr>sk_data = [], sk_head = 0, sk_size = 0, sk_cap = 0, sk_peak = 0, sk_label = [], sk_unit = [], sk_width = 0\<rparr>"

definition Detail_New :: "('ti, 'cmd) TextInput \<Rightarrow> ('vp, 'cmd) Viewport \<Rightarrow> Theme \<Rightarrow> ('ti, 'vp) DetailView" where
  "Detail_New T V th = \<lparr>dv_container = [],
     dv_hist = \<lparr>ch_cpu = zero_spark, ch_mem = zero_spark, ch_ioRead = zero_spark, ch_ioWrt = zero_spark, ch_sysLat = zero_spark\<rparr>,
     dv_lastBatch = zero_batch, dv_events = [], dv_search = Search_New T th, dv_filter = [], dv_vp = vp_New V, dv_theme = th,
     dv_w = 0, dv_h = 0, dv_paused = False, dv_dirty = False, dv_cached = []\<rparr>"

definition new_history :: containerHistory where
  "new_history = \<lparr>ch_cpu = Spark_New ''CPU  '' ''s'' 40, ch_mem = Spark_New ''MEM  '' ''MB'' 40, ch_ioRead = Spark_New ''READ '' ''KB/s'' 40,
     ch_ioWrt = Spark_New ''WRITE'' ''KB/s'' 40, ch_sysLat = Spark_New ''SYSLAT'' ''ms'' 40\<rparr>"

definition SetContainer :: "string \<Rightarrow> ('ti, 'vp) DetailView \<Rightarrow> ('ti, 'vp) DetailView" where
  "SetContainer n v =
     (if dv_container v = n then v
      else v\<lparr>dv_container := n, dv_hist := new_history, dv_events := [], dv_dirty := True, dv_cached := []\<rparr>)"

text \<open>Pushing to the zero sparkline indexes an empty slice.\<close>

definition push_spark :: "f64 \<Rightarrow> SparkModel \<Rightarrow> SparkModel option" where
  "push_spark x m = (if sk_head m < length (sk_data m) then Some (Spark_Push x m) else None)"

definition push_own :: "(containerHistory \<Rightarrow> SparkModel) \<Rightarrow> ((SparkModel \<Rightarrow> SparkModel) \<Rightarrow> containerHistory \<Rightarrow> containerHistory)
    \<Rightarrow> ('s \<Rightarrow> bool) \<Rightarrow> ('s \<Rightarrow> f64) \<Rightarrow> 's \<Rightarrow> containerHistory \<Rightarrow> containerHistory option" where
  "push_own get upd own val s h =
     (if own s then map_option (\<lambda>m. upd (\<lambda>_. m) h) (push_spark (val s) (get h)) else Some h)"

definition push_both :: "('s \<Rightarrow> containerHistory \<Rightarrow> containerHistory option) \<Rightarrow> ('s \<Rightarrow> containerHistory \<Rightarrow> containerHistory option)
    \<Rightarrow> 's \<Rightarrow> containerHistory \<Rightarrow> containerHistory option" where
  "push_both p q s h = Option.bind (p s h) (q s)"

definition detail_history :: "string \<Rightarrow> DataBatch \<Rightarrow> containerHistory \<Rightarrow> containerHistory option" where
  "detail_history c b h =
     do { h1 \<leftarrow> fold_opt (push_own ch_cpu ch_cpu_update (\<lambda>s. cm_ContainerName s = c) cm_CPUSeconds) (db_CPU b) h;
          h2 \<leftarrow> fold_opt (push_own ch_mem ch_mem_update (\<lambda>s. ms_ContainerName s = c) (\<lambda>s. to_mb (ms_MemoryBytes s))) (db_Mem b) h1;
          h3 \<leftarrow> fold_opt (push_both
                  (push_own ch_ioRead ch_ioRead_update (\<lambda>s. is_ContainerName s = c) (\<lambda>s. f64_div (is_ReadBytesPerSec s) 1024))
                  (push_own ch_ioWrt ch_ioWrt_update (\<lambda>s. is_ContainerName s = c) (\<lambda>s. f64_div (is_WriteBytesPerSec s) 1024))) (db_IO b) h2;
          fold_opt (push_own ch_sysLat ch_sysLat_update (\<lambda>s. su_ContainerName s = c \<and> su_Rank s = 1) su_AvgLatencyMs) (db_Sys b) h3 }"

definition Detail_SetData :: "DataBatch \<Rightarrow> ('ti, 'vp) DetailView \<Rightarrow> ('ti, 'vp) DetailView option" where
  "Detail_SetData b v =
     (if dv_paused v then Some v
      else map_option (\<lambda>h. v\<lparr>dv_lastBatch := b, dv_hist := h,
          dv_events := lastn 500 (dv_events v @ filter (\<lambda>e. tv_Container e = dv_container v \<or> dv_container v = []) (db_Events b)),
          dv_dirty := True, dv_cached := []\<rparr>)
        (detail_history (dv_container v) b (dv_hist v)))"

definition Detail_SetSize :: "('vp, 'cmd) Viewport \<Rightarrow> int \<Rightarrow> int \<Rightarrow> ('ti, 'vp) DetailView \<Rightarrow> ('ti, 'vp) DetailView" where
  "Detail_SetSize V w h v = v\<lparr>dv_w := w, dv_h := h, dv_vp := vp_SetSize V w (h - 2) (dv_vp v), dv_dirty := True, dv_cached := []\<rparr>"

definition Detail_SetTheme :: "Theme \<Rightarrow> ('ti, 'vp) DetailView \<Rightarrow> ('ti, 'vp) DetailView" where
  "Detail_SetTheme th v = v\<lparr>dv_theme := th, dv_search := Search_SetTheme th (dv_search v), dv_dirty := True, dv_cached := []\<rparr>"

definition Detail_Update ::
  "('ti, 'cmd) TextInput \<Rightarrow> ('vp, 'cmd) Viewport \<Rightarrow> string \<Rightarrow> ('ti, 'vp) DetailView \<Rightarrow> ('ti, 'vp) DetailView \<times> 'cmd option" where
  "Detail_Update T V k v =
     (if Search_Visible (dv_search v) then
        (if k = ''esc'' then (v\<lparr>dv_search := Search_Reset T (Search_Hide T (dv_search v)), dv_filter := [], dv_dirty := True\<rparr>, None)
         else if k = ''enter'' then (v\<lparr>dv_search := Search_Hide T (dv_search v), dv_dirty := True\<rparr>, None)
         else let (s, cmd) = Search_Update T k (dv_search v)
              in (v\<lparr>dv_search := s, dv_filter := Search_Value T s, dv_dirty := True\<rparr>, cmd))
      else
        let v1 = (if k = ''p'' then v\<lparr>dv_paused := \<not> dv_paused v\<rparr>
                  else if k = ''/'' then v\<lparr>dv_search := Search_Show T (dv_search v)\<rparr>
                  else if k = ''g'' then v\<lparr>dv_vp := vp_GotoTop V (dv_vp v)\<rparr>
                  else if k = ''G'' then v\<lparr>dv_vp := vp_GotoBottom V (dv_vp v)\<rparr>
                  else if k = ''up'' \<or> k = ''k'' then v\<lparr>dv_vp := vp_LineUp V (dv_vp v)\<rparr>
                  else if k = ''down'' \<or> k = ''j'' then v\<lparr>dv_vp := vp_LineDown V (dv_vp v)\<rparr>
                  else if k = ''pgup'' then v\<lparr>dv_vp := vp_HalfViewUp V (dv_vp v)\<rparr>
                  else if k = ''pgdown'' then v\<lparr>dv_vp := vp_HalfViewDown V (dv_vp v)\<rparr> else v);
            (vp, cmd) = vp_Update V k (dv_vp v1)
        in (v1\<lparr>dv_vp := vp, dv_dirty := True\<rparr>, Some cmd))"

definition history_ok :: "containerHistory \<Rightarrow> bool" where
  "history_ok h \<longleftrightarrow> spark_wf (ch_cpu h) \<and> spark_wf (ch_mem h) \<and> spark_wf (ch_ioRead h) \<and> spark_wf (ch_ioWrt h) \<and> spark_wf (ch_sysLat h)"

definition detail_ok :: "('ti, 'vp) DetailView \<Rightarrow> bool" where
  "detail_ok v \<longleftrightarrow> (dv_container v \<noteq> [] \<longrightarrow> history_ok (dv_hist v)) \<and> length (dv_events v) \<le> 500"

lemma push_spark_wf: "spark_wf m \<Longrightarrow> push_spark x m = Some (Spark_Push x m)"
  by (simp add: push_spark_def spark_wf_def buffer_wf_def spark_buffer_def)

lemma history_ok_new: "history_ok new_history"
  by (simp add: history_ok_def new_history_def spark_wf_New)

lemma push_own_ok:
  assumes "history_ok h" "spark_wf (get h)" "\<And>m. spark_wf m \<Longrightarrow> history_ok (upd (\<lambda>_. m) h)"
  shows "\<exists>h1. push_own get upd own val s h = Some h1 \<and> history_ok h1"
  using assms by (simp add: push_own_def push_spark_wf spark_wf_push)

lemma push_both_ok:
  "(\<And>s h. history_ok h \<Longrightarrow> \<exists>h1. p s h = Some h1 \<and> history_ok h1) \<Longrightarrow> (\<And>s h. history_ok h \<Longrightarrow> \<exists>h1. q s h = Some h1 \<and> history_ok h1) \<Longrightarrow>
   history_ok h \<Longrightarrow> \<exists>h1. push_both p q s h = Some h1 \<and> history_ok h1"
  unfolding push_both_def by (metis bind.simps(2))

lemma push_own_each:
  "history_ok h \<Longrightarrow> \<exists>h1. push_own ch_cpu ch_cpu_update own val s h = Some h1 \<and> history_ok h1"
  "history_ok h \<Longrightarrow> \<exists>h1. push_own ch_mem ch_mem_update own1 val1 s1 h = Some h1 \<and> history_ok h1"
  "history_ok h \<Longrightarrow> \<exists>h1. push_own ch_ioRead ch_ioRead_update own2 val2 s2 h = Some h1 \<and> history_ok h1"
  "history_ok h \<Longrightarrow> \<exists>h1. push_own ch_ioWrt ch_ioWrt_update own2 val2 s2 h = Some h1 \<and> history_ok h1"
  "history_ok h \<Longrightarrow> \<exists>h1. push_own ch_sysLat ch_sysLat_update own3 val3 s3 h = Some h1 \<and> history_ok h1"
  by (rule push_own_ok; simp add: history_ok_def)+

lemma detail_history_ok: "history_ok h \<Longrightarrow> \<exists>h'. detail_history c b h = Some h' \<and> history_ok h'"
  unfolding detail_history_def by (intro bind_ok fold_opt_inv [where J = history_ok] push_both_ok push_own_each)

lemma detail_ok_steps:
  "detail_ok (Detail_New T V th)" "detail_ok v \<Longrightarrow> detail_ok (SetContainer n v)" "detail_ok v \<Longrightarrow> detail_ok (Detail_SetSize V w h v)"
  "detail_ok v \<Longrightarrow> detail_ok (Detail_SetTheme th v)" "detail_ok v \<Longrightarrow> detail_ok (fst (Detail_Update T V k v))"
  by (auto simp: detail_ok_def Detail_New_def SetContainer_def history_ok_new Detail_SetSize_def Detail_SetTheme_def Detail_Update_def
      Let_def case_prod_beta)

lemma Detail_SetData_ok:
  assumes "detail_ok v" "dv_container v \<noteq> []"
  shows "\<exists>v'. Detail_SetData b v = Some v' \<and> detail_ok v'"
  using assms detail_history_ok [of "dv_hist v" "dv_container v" b] by (auto simp: Detail_SetData_def detail_ok_def)

text \<open>Before a container is chosen, a sample without a name stops the program.\<close>

lemma Detail_SetData_unnamed:
  assumes "db_CPU b = s # ss" "cm_ContainerName s = []"
  shows "Detail_SetData b (Detail_New T V th) = None"
  using assms by (simp add: Detail_SetData_def Detail_New_def detail_history_def push_own_def push_spark_def zero_spark_def)

end
