(* ===== verification/TuiProcTree.thy ===== *)
theory TuiProcTree
  imports TuiViews
begin

text \<open>
  The process graph tab, \<open>internal/tui/views/procgraph\<close>: the list of containers, the tree of
  the processes of the selected one, and the navigation between the panels. The walk over the
  children is recursive with a visited set; it runs on fuel here, and \<open>tree_fuel\<close> is enough
  for every snapshot (\<open>walk_fuel_enough\<close>).
\<close>

record treeNode =
  tn_key :: NodeKey
  tn_depth :: nat
  tn_prefix :: string
  tn_comm :: string
  tn_pid :: "32 word"
  tn_hasEvts :: bool
  tn_evTypes :: "EventType list"
  tn_alive :: bool

definition panelCgroup :: int where "panelCgroup = 0"
definition panelTree :: int where "panelTree = 1"
definition panelDetail :: int where "panelDetail = 2"

record ProcView =
  pv_theme :: Theme
  pv_w :: int
  pv_h :: int
  pv_focused :: bool
  pv_dirty :: bool
  pv_cached :: string
  pv_snap :: "GraphSnapshot option"
  pv_cgroupKeys :: "string list"
  pv_cgroupSel :: int
  pv_treeLines :: "treeNode list"
  pv_treeSel :: int
  pv_treeOffset :: int
  pv_activePanel :: int
  pv_filter :: string

definition Proc_New :: "Theme \<Rightarrow> ProcView" where
  "Proc_New th = \<lparr>pv_theme = th, pv_w = 0, pv_h = 0, pv_focused = False, pv_dirty = True, pv_cached = [], pv_snap = None,
     pv_cgroupKeys = [], pv_cgroupSel = 0, pv_treeLines = [], pv_treeSel = 0, pv_treeOffset = 0, pv_activePanel = panelTree,
     pv_filter = []\<rparr>"

definition invalidate :: "ProcView \<Rightarrow> ProcView" where "invalidate v = v\<lparr>pv_dirty := True, pv_cached := []\<rparr>"

section \<open>Containers\<close>

definition cgroupKeyFor :: "SnapshotNode \<Rightarrow> string" where
  "cgroupKeyFor n = (if sn_ContainerName n \<noteq> [] then sn_ContainerName n else ''cg:'' @ show_word (nk_CgroupID (sn_Key n)))"

definition rebuildCgroupList :: "ProcView \<Rightarrow> ProcView" where
  "rebuildCgroupList v =
     (case pv_snap v of
        None \<Rightarrow> v\<lparr>pv_cgroupKeys := []\<rparr>
      | Some s \<Rightarrow>
          let keys = sort (remdups (map (cgroupKeyFor \<circ> snd) (gs_Nodes s)))
          in v\<lparr>pv_cgroupKeys := keys, pv_cgroupSel := (if pv_cgroupSel v \<ge> int (length keys) then 0 else pv_cgroupSel v)\<rparr>)"

section \<open>The tree\<close>

definition selected_nodes :: "GraphSnapshot \<Rightarrow> string \<Rightarrow> string \<Rightarrow> SnapshotNode list" where
  "selected_nodes s sel q = filter (\<lambda>n. cgroupKeyFor n = sel \<and> (q = [] \<or> str_contains (ToLower (DisplayComm n)) (ToLower q)))
     (map snd (gs_Nodes s))"

type_synonym pid_map = "(32 word \<times> SnapshotNode) list"

text \<open>A later node with the same process id replaces an earlier one; the list of ids keeps both.\<close>

definition selPidMap :: "SnapshotNode list \<Rightarrow> pid_map" where
  "selPidMap ns = fold (\<lambda>n. AList.update (nk_PID (sn_Key n)) n) ns []"

definition selPIDs :: "SnapshotNode list \<Rightarrow> 32 word list" where
  "selPIDs ns = map (\<lambda>n. nk_PID (sn_Key n)) ns"

definition local_parent :: "pid_map \<Rightarrow> 32 word \<Rightarrow> 32 word option" where
  "local_parent pm pid =
     (case map_of pm pid of
        None \<Rightarrow> None
      | Some n \<Rightarrow> if sn_PPID n = 0 \<or> sn_PPID n = 1 then None
                  else if map_of pm (sn_PPID n) \<noteq> None \<and> sn_PPID n \<noteq> pid then Some (sn_PPID n) else None)"

definition pid_order :: "pid_map \<Rightarrow> 32 word \<Rightarrow> instant \<times> 32 word" where
  "pid_order pm pid = (case map_of pm pid of Some n \<Rightarrow> (sn_ForkTime n, pid) | None \<Rightarrow> (0, pid))"

definition localKids :: "pid_map \<Rightarrow> 32 word list \<Rightarrow> 32 word \<Rightarrow> 32 word list" where
  "localKids pm pids p = sort_key (pid_order pm) (filter (\<lambda>k. local_parent pm k = Some p) pids)"

definition rootPIDs :: "pid_map \<Rightarrow> 32 word list \<Rightarrow> 32 word list" where
  "rootPIDs pm pids = sort_key (pid_order pm) (filter (\<lambda>k. local_parent pm k = None) pids)"

definition box_bar :: string where "box_bar = bytes [0xE2, 0x94, 0x82]"
definition box_last :: string where "box_last = bytes [0xE2, 0x94, 0x94, 0xE2, 0x94, 0x80, 0xE2, 0x94, 0x80] @ '' ''"
definition box_tee :: string where "box_tee = bytes [0xE2, 0x94, 0x9C, 0xE2, 0x94, 0x80, 0xE2, 0x94, 0x80] @ '' ''"

definition connector :: "bool \<Rightarrow> nat \<Rightarrow> string" where
  "connector isLast depth = (if depth > 0 then if isLast then box_last else box_tee else [])"

definition child_cont :: "string \<Rightarrow> bool \<Rightarrow> nat \<Rightarrow> string" where
  "child_cont pfx isLast depth =
     (if depth = 0 then if isLast then '' '' else box_bar
      else if isLast then pfx @ ''    '' else pfx @ box_bar @ ''   '')"

definition ev_types :: "EventEnvelope option list \<Rightarrow> EventType list" where
  "ev_types evs = fold (\<lambda>ev ts. case ev of None \<Rightarrow> ts | Some e \<Rightarrow> if ee_EventType e \<in> set ts then ts else ts @ [ee_EventType e]) evs []"

definition tree_node :: "SnapshotNode \<Rightarrow> 32 word \<Rightarrow> string \<Rightarrow> bool \<Rightarrow> nat \<Rightarrow> treeNode" where
  "tree_node n pid pfx isLast depth =
     \<lparr>tn_key = sn_Key n, tn_depth = depth, tn_prefix = pfx @ connector isLast depth, tn_comm = DisplayComm n, tn_pid = pid,
      tn_hasEvts = (ev_types (sn_Events n) \<noteq> []), tn_evTypes = ev_types (sn_Events n), tn_alive = sn_IsAlive n\<rparr>"

type_synonym walk_state = "32 word list \<times> treeNode list"

primrec walk :: "nat \<Rightarrow> pid_map \<Rightarrow> 32 word list \<Rightarrow> 32 word \<Rightarrow> string \<Rightarrow> bool \<Rightarrow> nat \<Rightarrow> walk_state \<Rightarrow> walk_state" where
  "walk 0 pm pids pid pfx isLast depth st = st"
| "walk (Suc fuel) pm pids pid pfx isLast depth st =
     (if pid \<in> set (fst st) then st
      else let st1 = (fst st @ [pid], snd st)
           in case map_of pm pid of
                None \<Rightarrow> st1
              | Some n \<Rightarrow>
                  let kids = localKids pm pids pid
                  in fold (\<lambda>(i, k). walk fuel pm pids k (child_cont pfx isLast depth) (i + 1 = length kids) (depth + 1))
                       (enumerate 0 kids) (fst st1, snd st1 @ [tree_node n pid pfx isLast depth]))"

definition tree_fuel :: "32 word list \<Rightarrow> nat" where "tree_fuel pids = Suc (length pids)"

definition tree_walk :: "nat \<Rightarrow> pid_map \<Rightarrow> 32 word list \<Rightarrow> walk_state" where
  "tree_walk fuel pm pids =
     (let roots = rootPIDs pm pids
      in fold (\<lambda>(i, r). walk fuel pm pids r [] (i + 1 = length roots) 0) (enumerate 0 roots) ([], []))"

definition build_tree :: "SnapshotNode list \<Rightarrow> treeNode list" where
  "build_tree ns = snd (tree_walk (tree_fuel (selPIDs ns)) (selPidMap ns) (selPIDs ns))"

text \<open>\<open>None\<close> is the panic of a selection outside the list of containers.\<close>

definition rebuildTree :: "ProcView \<Rightarrow> ProcView option" where
  "rebuildTree v =
     (case pv_snap v of
        None \<Rightarrow> Some (v\<lparr>pv_treeLines := []\<rparr>)
      | Some s \<Rightarrow>
          if pv_cgroupKeys v = [] then Some (v\<lparr>pv_treeLines := []\<rparr>)
          else case at_int (pv_cgroupKeys v) (pv_cgroupSel v) of
                 None \<Rightarrow> None
               | Some sel \<Rightarrow>
                   let ns = selected_nodes s sel (pv_filter v)
                   in if ns = [] then Some (v\<lparr>pv_treeLines := []\<rparr>)
                      else let ls = build_tree ns
                           in Some (v\<lparr>pv_treeLines := ls, pv_treeSel := (if pv_treeSel v \<ge> int (length ls) then 0 else pv_treeSel v)\<rparr>))"

section \<open>The view\<close>

definition Proc_SetData :: "DataBatch \<Rightarrow> ProcView \<Rightarrow> ProcView option" where
  "Proc_SetData b v =
     (case db_Graph b of
        None \<Rightarrow> Some v
      | Some g \<Rightarrow> map_option invalidate (rebuildTree (rebuildCgroupList (v\<lparr>pv_snap := Some g\<rparr>))))"

definition Proc_SetSize :: "int \<Rightarrow> int \<Rightarrow> ProcView \<Rightarrow> ProcView option" where
  "Proc_SetSize w h v = map_option invalidate (rebuildTree (v\<lparr>pv_w := w, pv_h := h\<rparr>))"

definition Proc_SetTheme :: "Theme \<Rightarrow> ProcView \<Rightarrow> ProcView" where
  "Proc_SetTheme th v = invalidate (v\<lparr>pv_theme := th\<rparr>)"

definition Proc_Focus :: "ProcView \<Rightarrow> ProcView" where "Proc_Focus v = v\<lparr>pv_focused := True\<rparr>"
definition Proc_Blur :: "ProcView \<Rightarrow> ProcView" where "Proc_Blur v = v\<lparr>pv_focused := False\<rparr>"

definition navUp :: "ProcView \<Rightarrow> ProcView option" where
  "navUp v = map_option invalidate
     (if pv_activePanel v = panelCgroup
      then if pv_cgroupSel v > 0 then rebuildTree (v\<lparr>pv_cgroupSel := pv_cgroupSel v - 1\<rparr>) else Some v
      else if pv_treeSel v > 0 then Some (v\<lparr>pv_treeSel := pv_treeSel v - 1\<rparr>) else Some v)"

definition navDown :: "ProcView \<Rightarrow> ProcView option" where
  "navDown v = map_option invalidate
     (if pv_activePanel v = panelCgroup
      then if pv_cgroupSel v < int (length (pv_cgroupKeys v)) - 1 then rebuildTree (v\<lparr>pv_cgroupSel := pv_cgroupSel v + 1\<rparr>) else Some v
      else if pv_treeSel v < int (length (pv_treeLines v)) - 1 then Some (v\<lparr>pv_treeSel := pv_treeSel v + 1\<rparr>) else Some v)"

definition navTop :: "ProcView \<Rightarrow> ProcView option" where
  "navTop v = map_option invalidate
     (if pv_activePanel v = panelCgroup then rebuildTree (v\<lparr>pv_cgroupSel := 0\<rparr>) else Some (v\<lparr>pv_treeSel := 0\<rparr>))"

definition navBottom :: "ProcView \<Rightarrow> ProcView" where
  "navBottom v = invalidate
     (if pv_activePanel v = panelTree \<and> pv_treeLines v \<noteq> [] then v\<lparr>pv_treeSel := int (length (pv_treeLines v)) - 1\<rparr> else v)"

definition Proc_Update :: "string \<Rightarrow> ProcView \<Rightarrow> ProcView option" where
  "Proc_Update k v =
     (if k = ''left'' \<or> k = ''h'' then Some (if pv_activePanel v > 0 then invalidate (v\<lparr>pv_activePanel := pv_activePanel v - 1\<rparr>) else v)
      else if k = ''right'' \<or> k = ''l''
        then Some (if pv_activePanel v < panelDetail then invalidate (v\<lparr>pv_activePanel := pv_activePanel v + 1\<rparr>) else v)
      else if k = ''up'' \<or> k = ''k'' then navUp v
      else if k = ''down'' \<or> k = ''j'' then navDown v
      else if k = ''g'' then navTop v
      else if k = ''G'' then Some (navBottom v)
      else Some v)"

definition countForKey :: "ProcView \<Rightarrow> string \<Rightarrow> nat" where
  "countForKey v key = (case pv_snap v of None \<Rightarrow> 0 | Some s \<Rightarrow> length (filter (\<lambda>n. cgroupKeyFor n = key) (map snd (gs_Nodes s))))"

text \<open>The scroll of the tree panel keeps the selection visible.\<close>

definition tree_scroll :: "int \<Rightarrow> ProcView \<Rightarrow> ProcView" where
  "tree_scroll h v =
     (let visH = h - 3;
          v1 = (if pv_treeSel v < pv_treeOffset v then v\<lparr>pv_treeOffset := pv_treeSel v\<rparr> else v)
      in if pv_treeSel v1 \<ge> pv_treeOffset v1 + visH then v1\<lparr>pv_treeOffset := pv_treeSel v1 - visH + 1\<rparr> else v1)"

section \<open>The walk shows the rooted processes, each once\<close>

primrec up :: "pid_map \<Rightarrow> nat \<Rightarrow> 32 word \<Rightarrow> 32 word option" where
  "up pm 0 pid = Some pid"
| "up pm (Suc n) pid = Option.bind (local_parent pm pid) (up pm n)"

text \<open>A process is rooted if its chain of parents inside the container ends.\<close>

definition rooted :: "pid_map \<Rightarrow> 32 word \<Rightarrow> bool" where
  "rooted pm pid \<longleftrightarrow> (\<exists>n. up pm n pid = None)"

lemma up_step: "up pm (n + m) pid = Option.bind (up pm n pid) (up pm m)"
proof (induction n arbitrary: pid)
  case (Suc n)
  then show ?case by (cases "local_parent pm pid") simp_all
qed simp

lemma set_localKids: "set (localKids pm pids p) = {k \<in> set pids. local_parent pm k = Some p}"
  by (auto simp: localKids_def)

lemma set_rootPIDs: "set (rootPIDs pm pids) = {k \<in> set pids. local_parent pm k = None}"
  by (auto simp: rootPIDs_def)

text \<open>The unvisited processes bound the fuel that is needed.\<close>

definition unvisited :: "32 word list \<Rightarrow> walk_state \<Rightarrow> nat" where
  "unvisited pids st = card (set pids - set (fst st))"

definition walk_inv :: "32 word list \<Rightarrow> walk_state \<Rightarrow> bool" where
  "walk_inv pids st \<longleftrightarrow> distinct (fst st) \<and> set (fst st) \<subseteq> set pids"

text \<open>
  What a walk over the processes \<open>S\<close> at depth \<open>d\<close> adds: every process once, its children with
  it, and at the depth that counts its ancestors.
\<close>

definition walk_ok :: "pid_map \<Rightarrow> 32 word list \<Rightarrow> nat \<Rightarrow> 32 word set \<Rightarrow> walk_state \<Rightarrow> walk_state \<Rightarrow> bool" where
  "walk_ok pm pids d S st st' \<longleftrightarrow>
     (\<exists>ls. fst st' = fst st @ map tn_pid ls \<and> snd st' = snd st @ ls \<and>
        (\<forall>l \<in> set ls. set (localKids pm pids (tn_pid l)) \<subseteq> set (fst st') \<and> d \<le> tn_depth l \<and>
           (\<exists>k \<in> S. up pm (tn_depth l - d) (tn_pid l) = Some k))) \<and>
     walk_inv pids st' \<and> S \<subseteq> set (fst st')"

lemma walk_ok_refl: "walk_inv pids st \<Longrightarrow> S \<subseteq> set (fst st) \<Longrightarrow> walk_ok pm pids d S st st"
  by (simp add: walk_ok_def)

lemma walk_ok_trans:
  assumes "walk_ok pm pids d S st st1" "walk_ok pm pids d S' st1 st2"
  shows "walk_ok pm pids d (S \<union> S') st st2"
proof -
  obtain l1 where l1: "fst st1 = fst st @ map tn_pid l1" "snd st1 = snd st @ l1"
    "\<forall>l \<in> set l1. set (localKids pm pids (tn_pid l)) \<subseteq> set (fst st1) \<and> d \<le> tn_depth l \<and> (\<exists>k \<in> S. up pm (tn_depth l - d) (tn_pid l) = Some k)"
    using assms(1) unfolding walk_ok_def by blast
  obtain l2 where l2: "fst st2 = fst st1 @ map tn_pid l2" "snd st2 = snd st1 @ l2"
    "\<forall>l \<in> set l2. set (localKids pm pids (tn_pid l)) \<subseteq> set (fst st2) \<and> d \<le> tn_depth l \<and> (\<exists>k \<in> S'. up pm (tn_depth l - d) (tn_pid l) = Some k)"
    using assms(2) unfolding walk_ok_def by blast
  have s: "set (fst st1) \<subseteq> set (fst st2)" using l2(1) by auto
  have "\<forall>l \<in> set (l1 @ l2). set (localKids pm pids (tn_pid l)) \<subseteq> set (fst st2) \<and> d \<le> tn_depth l \<and>
      (\<exists>k \<in> S \<union> S'. up pm (tn_depth l - d) (tn_pid l) = Some k)"
    using l1(3) l2(3) s by (simp add: ball_Un) blast
  moreover have "fst st2 = fst st @ map tn_pid (l1 @ l2)" "snd st2 = snd st @ l1 @ l2" using l1 l2 by simp_all
  ultimately show ?thesis using assms s unfolding walk_ok_def by blast
qed

lemma walk_ok_unvisited: "walk_ok pm pids d S st st' \<Longrightarrow> unvisited pids st' \<le> unvisited pids st"
  unfolding walk_ok_def unvisited_def by (intro card_mono) auto

lemma fold_walk_ok:
  assumes "\<And>x st. x \<in> set xs \<Longrightarrow> walk_inv pids st \<Longrightarrow> unvisited pids st \<le> f \<Longrightarrow> walk_ok pm pids d {snd x} st (g x st)"
    and "walk_inv pids st" "unvisited pids st \<le> f"
  shows "walk_ok pm pids d (snd ` set xs) st (fold g xs st)"
  using assms
proof (induction xs arbitrary: st)
  case (Cons x xs)
  have w: "walk_ok pm pids d {snd x} st (g x st)" using Cons.prems by simp
  then have "walk_inv pids (g x st)" "unvisited pids (g x st) \<le> f"
    using Cons.prems(3) walk_ok_unvisited [OF w] by (simp_all add: walk_ok_def)
  then have "walk_ok pm pids d (snd ` set xs) (g x st) (fold g xs (g x st))" using Cons by simp
  from walk_ok_trans [OF w this] show ?case by simp
qed (simp add: walk_ok_refl)

lemma unvisited_visit:
  "pid \<in> set pids \<Longrightarrow> pid \<notin> set (fst st) \<Longrightarrow> unvisited pids st = Suc (unvisited pids (fst st @ [pid], ls))"
proof -
  assume a: "pid \<in> set pids" "pid \<notin> set (fst st)"
  have "set pids - set (fst st @ [pid]) = (set pids - set (fst st)) - {pid}" by auto
  then show ?thesis using card_Suc_Diff1 [of "set pids - set (fst st)" pid] a unfolding unvisited_def by simp
qed

lemma visited_all: "unvisited pids st = 0 \<Longrightarrow> pid \<in> set pids \<Longrightarrow> pid \<in> set (fst st)"
  by (auto simp: unvisited_def)

lemma walk_unvisited:
  assumes "pid \<notin> set (fst st)" "map_of pm pid = Some n"
  shows "walk (Suc f) pm pids pid pfx isLast depth st =
    fold (\<lambda>(i, k). walk f pm pids k (child_cont pfx isLast depth) (i + 1 = length (localKids pm pids pid)) (depth + 1))
      (enumerate 0 (localKids pm pids pid)) (fst st @ [pid], snd st @ [tree_node n pid pfx isLast depth])"
  using assms by (simp add: Let_def)

lemma enumerate_member: "(i, k) \<in> set (enumerate n xs) \<Longrightarrow> k \<in> set xs"
  by (metis imageI map_snd_enumerate set_map snd_conv)

lemma walk_spec:
  assumes "\<forall>p \<in> set pids. map_of pm p \<noteq> None"
  shows "pid \<in> set pids \<Longrightarrow> walk_inv pids st \<Longrightarrow> unvisited pids st \<le> f \<Longrightarrow>
    walk_ok pm pids depth {pid} st (walk f pm pids pid pfx isLast depth st)"
proof (induction f arbitrary: pid pfx isLast depth st)
  case 0
  then show ?case using visited_all [of pids st pid] by (simp add: walk_ok_refl)
next
  case (Suc f)
  show ?case
  proof (cases "pid \<in> set (fst st)")
    case True
    then show ?thesis using Suc.prems by (simp add: walk_ok_refl)
  next
    case False
    obtain n where n: "map_of pm pid = Some n" using assms Suc.prems(1) by blast
    let ?tn = "tree_node n pid pfx isLast depth" and ?kids = "localKids pm pids pid"
    let ?st1 = "(fst st @ [pid], snd st @ [?tn])"
    have i1: "walk_inv pids ?st1" using Suc.prems False by (simp add: walk_inv_def)
    have u1: "unvisited pids ?st1 \<le> f" using unvisited_visit [OF Suc.prems(1) False] Suc.prems(3) by (metis Suc_le_mono)
    let ?st2 = "walk (Suc f) pm pids pid pfx isLast depth st"
    have "walk_ok pm pids (depth + 1) (snd ` set (enumerate 0 ?kids)) ?st1 ?st2"
      unfolding walk_unvisited [OF False n]
    proof (rule fold_walk_ok [OF _ i1 u1])
      fix x st' assume x: "x \<in> set (enumerate 0 ?kids)" "walk_inv pids st'" "unvisited pids st' \<le> f"
      obtain i k where ik: "x = (i, k)" by fastforce
      then have "k \<in> set ?kids" using x(1) by (simp add: enumerate_member)
      then show "walk_ok pm pids (depth + 1) {snd x} st' ((case x of (i, k) \<Rightarrow>
          walk f pm pids k (child_cont pfx isLast depth) (i + 1 = length ?kids) (depth + 1)) st')"
        using Suc.IH [of k st' "depth + 1"] x ik by (simp add: set_localKids)
    qed
    moreover have "snd ` set (enumerate 0 ?kids) = set ?kids" by (metis map_snd_enumerate set_map)
    ultimately have w: "walk_ok pm pids (depth + 1) (set ?kids) ?st1 ?st2" by simp
    then obtain ls where ls: "fst ?st2 = fst st @ [pid] @ map tn_pid ls" "snd ?st2 = snd st @ [?tn] @ ls"
      "\<forall>l \<in> set ls. set (localKids pm pids (tn_pid l)) \<subseteq> set (fst ?st2) \<and> depth + 1 \<le> tn_depth l \<and>
         (\<exists>k \<in> set ?kids. up pm (tn_depth l - (depth + 1)) (tn_pid l) = Some k)"
      unfolding walk_ok_def by (auto simp del: walk.simps)
    have inv2: "walk_inv pids ?st2" "set ?kids \<subseteq> set (fst ?st2)" using w unfolding walk_ok_def by blast+
    have "\<forall>l \<in> set (?tn # ls). set (localKids pm pids (tn_pid l)) \<subseteq> set (fst ?st2) \<and> depth \<le> tn_depth l \<and>
        up pm (tn_depth l - depth) (tn_pid l) = Some pid"
    proof
      fix l assume "l \<in> set (?tn # ls)"
      then consider "l = ?tn" | "l \<in> set ls" by auto
      then show "set (localKids pm pids (tn_pid l)) \<subseteq> set (fst ?st2) \<and> depth \<le> tn_depth l \<and> up pm (tn_depth l - depth) (tn_pid l) = Some pid"
      proof cases
        case 1
        then show ?thesis using inv2(2) by (simp add: tree_node_def del: walk.simps)
      next
        case 2
        then obtain k where k: "k \<in> set ?kids" "up pm (tn_depth l - (depth + 1)) (tn_pid l) = Some k" "depth + 1 \<le> tn_depth l"
          "set (localKids pm pids (tn_pid l)) \<subseteq> set (fst ?st2)" using ls(3) by blast
        have "tn_depth l - depth = (tn_depth l - (depth + 1)) + Suc 0" using k(3) by simp
        then have "up pm (tn_depth l - depth) (tn_pid l) = up pm (Suc 0) k" using up_step k(2) by (metis bind.simps(2))
        then show ?thesis using k by (simp add: set_localKids del: walk.simps)
      qed
    qed
    moreover have "fst ?st2 = fst st @ map tn_pid (?tn # ls)" "snd ?st2 = snd st @ ?tn # ls" using ls by (simp_all add: tree_node_def del: walk.simps)
    moreover have "{pid} \<subseteq> set (fst ?st2)" using ls(1) by (simp del: walk.simps)
    ultimately show ?thesis using inv2(1) unfolding walk_ok_def by blast
  qed
qed

text \<open>More fuel than unvisited processes changes nothing.\<close>

lemma fold_same:
  "(\<And>x st. x \<in> set xs \<Longrightarrow> J st \<Longrightarrow> g x st = h x st \<and> J (h x st)) \<Longrightarrow> J st \<Longrightarrow> fold g xs st = fold h xs st"
  by (induction xs arbitrary: st) auto

lemma walk_fuel_enough:
  assumes "\<forall>p \<in> set pids. map_of pm p \<noteq> None"
  shows "pid \<in> set pids \<Longrightarrow> walk_inv pids st \<Longrightarrow> unvisited pids st \<le> f \<Longrightarrow>
    walk (Suc f) pm pids pid pfx isLast depth st = walk f pm pids pid pfx isLast depth st"
proof (induction f arbitrary: pid pfx isLast depth st)
  case 0
  then show ?case using visited_all [of pids st pid] by simp
next
  case (Suc f)
  show ?case
  proof (cases "pid \<in> set (fst st)")
    case False
    obtain n where n: "map_of pm pid = Some n" using assms Suc.prems(1) by blast
    let ?kids = "localKids pm pids pid" and ?st1 = "(fst st @ [pid], snd st @ [tree_node n pid pfx isLast depth])"
    have "walk_inv pids ?st1" using Suc.prems False by (simp add: walk_inv_def)
    moreover have "unvisited pids ?st1 \<le> f" using unvisited_visit [OF Suc.prems(1) False] Suc.prems(3) by (metis Suc_le_mono)
    ultimately have i1: "walk_inv pids ?st1 \<and> unvisited pids ?st1 \<le> f" ..
    show ?thesis
      unfolding walk_unvisited [OF False n]
    proof (rule fold_same [where J = "\<lambda>st. walk_inv pids st \<and> unvisited pids st \<le> f", OF _ i1])
      fix x st' assume x: "x \<in> set (enumerate 0 ?kids)" "walk_inv pids st' \<and> unvisited pids st' \<le> f"
      obtain i k where ik: "x = (i, k)" by fastforce
      then have "k \<in> set ?kids" using x(1) by (simp add: enumerate_member)
      then have k: "k \<in> set pids" by (simp add: set_localKids)
      let ?w = "\<lambda>f. walk f pm pids k (child_cont pfx isLast depth) (i + 1 = length ?kids) (depth + 1) st'"
      have "walk_ok pm pids (depth + 1) {k} st' (?w f)" using walk_spec [OF assms k] x(2) by blast
      then have "walk_inv pids (?w f) \<and> unvisited pids (?w f) \<le> f"
        using x(2) walk_ok_unvisited by (metis le_trans walk_ok_def)
      moreover have "?w (Suc f) = ?w f" using Suc.IH [OF k] x(2) by blast
      ultimately show "(case x of (i, k) \<Rightarrow> walk (Suc f) pm pids k (child_cont pfx isLast depth) (i + 1 = length ?kids) (depth + 1)) st' =
          (case x of (i, k) \<Rightarrow> walk f pm pids k (child_cont pfx isLast depth) (i + 1 = length ?kids) (depth + 1)) st' \<and>
          walk_inv pids ((case x of (i, k) \<Rightarrow> walk f pm pids k (child_cont pfx isLast depth) (i + 1 = length ?kids) (depth + 1)) st') \<and>
          unvisited pids ((case x of (i, k) \<Rightarrow> walk f pm pids k (child_cont pfx isLast depth) (i + 1 = length ?kids) (depth + 1)) st') \<le> f"
        by (simp only: ik prod.case)
    qed
  qed simp
qed

section \<open>The tree of a container\<close>

lemma tree_walk_ok:
  assumes "\<forall>p \<in> set pids. map_of pm p \<noteq> None" "card (set pids) \<le> f"
  shows "walk_ok pm pids 0 (set (rootPIDs pm pids)) ([], []) (tree_walk f pm pids)"
proof -
  let ?r = "rootPIDs pm pids"
  have "walk_ok pm pids 0 (snd ` set (enumerate 0 ?r)) ([], []) (tree_walk f pm pids)"
    unfolding tree_walk_def Let_def
  proof (rule fold_walk_ok)
    fix x st assume x: "x \<in> set (enumerate 0 ?r)" "walk_inv pids st" "unvisited pids st \<le> f"
    obtain i k where ik: "x = (i, k)" by fastforce
    then have "k \<in> set pids" using x(1) enumerate_member [of i k 0 ?r] by (simp add: set_rootPIDs)
    then show "walk_ok pm pids 0 {snd x} st ((case x of (i, r) \<Rightarrow> walk f pm pids r [] (i + 1 = length ?r) 0) st)"
      using walk_spec [OF assms(1), of k st f 0] x ik by simp
  qed (use assms(2) in \<open>simp_all add: walk_inv_def unvisited_def\<close>)
  moreover have "snd ` set (enumerate 0 ?r) = set ?r" by (metis map_snd_enumerate set_map)
  ultimately show ?thesis by simp
qed

lemma tree_walk_rooted:
  assumes dom: "\<forall>p. map_of pm p \<noteq> None \<longleftrightarrow> p \<in> set pids" and f: "card (set pids) \<le> f"
  shows "distinct (map tn_pid (snd (tree_walk f pm pids)))"
    and "set (map tn_pid (snd (tree_walk f pm pids))) = {p \<in> set pids. rooted pm p}"
    and "\<forall>l \<in> set (snd (tree_walk f pm pids)). up pm (Suc (tn_depth l)) (tn_pid l) = None \<and> up pm (tn_depth l) (tn_pid l) \<noteq> None"
proof -
  let ?st = "tree_walk f pm pids"
  have w: "walk_ok pm pids 0 (set (rootPIDs pm pids)) ([], []) ?st" using tree_walk_ok [OF _ f] dom by blast
  then obtain ls where ls: "fst ?st = map tn_pid ls" "snd ?st = ls"
    "\<forall>l \<in> set ls. set (localKids pm pids (tn_pid l)) \<subseteq> set (fst ?st) \<and> (\<exists>k \<in> set (rootPIDs pm pids). up pm (tn_depth l) (tn_pid l) = Some k)"
    unfolding walk_ok_def by auto
  have inv: "distinct (fst ?st)" "set (fst ?st) \<subseteq> set pids" "set (rootPIDs pm pids) \<subseteq> set (fst ?st)"
    using w unfolding walk_ok_def walk_inv_def by blast+
  show "distinct (map tn_pid (snd ?st))" using inv(1) ls by simp
  show top: "\<forall>l \<in> set (snd ?st). up pm (Suc (tn_depth l)) (tn_pid l) = None \<and> up pm (tn_depth l) (tn_pid l) \<noteq> None"
  proof
    fix l assume "l \<in> set (snd ?st)"
    then obtain k where k: "k \<in> set (rootPIDs pm pids)" "up pm (tn_depth l) (tn_pid l) = Some k" using ls by auto
    have "up pm (tn_depth l + Suc 0) (tn_pid l) = up pm (Suc 0) k" using up_step k(2) by (metis bind.simps(2))
    then show "up pm (Suc (tn_depth l)) (tn_pid l) = None \<and> up pm (tn_depth l) (tn_pid l) \<noteq> None"
      using k by (simp add: set_rootPIDs)
  qed
  have "p \<in> set (fst ?st)" if "p \<in> set pids" "up pm n p = None" for p n
    using that
  proof (induction n arbitrary: p)
    case (Suc n)
    show ?case
    proof (cases "local_parent pm p")
      case None
      then show ?thesis using Suc.prems(1) inv(3) by (auto simp: set_rootPIDs)
    next
      case (Some q)
      then have "map_of pm q \<noteq> None" by (auto simp: local_parent_def split: option.splits if_splits)
      then have "q \<in> set (fst ?st)" using Suc.IH [of q] Suc.prems(2) Some dom by simp
      then show ?thesis using ls(1,3) Some Suc.prems(1) by (auto simp: set_localKids)
    qed
  qed simp
  moreover have "rooted pm p" if r: "p \<in> set (fst ?st)" for p
  proof -
    obtain l where "l \<in> set (snd ?st)" "p = tn_pid l" using r ls by auto
    then show ?thesis using top unfolding rooted_def by blast
  qed
  ultimately show "set (map tn_pid (snd ?st)) = {p \<in> set pids. rooted pm p}"
    using inv(2) ls unfolding rooted_def by auto
qed

lemma selPidMap_dom: "map_of (selPidMap ns) p \<noteq> None \<longleftrightarrow> p \<in> set (selPIDs ns)"
proof -
  have "fst ` set (fold (\<lambda>n. AList.update (nk_PID (sn_Key n)) n) ns m) = fst ` set m \<union> set (selPIDs ns)" for m
    by (induction ns arbitrary: m) (auto simp: selPIDs_def dom_update)
  then show ?thesis by (simp add: selPidMap_def map_of_eq_None_iff)
qed

lemma build_tree_rooted:
  "distinct (map tn_pid (build_tree ns))"
  "set (map tn_pid (build_tree ns)) = {p \<in> set (selPIDs ns). rooted (selPidMap ns) p}"
  "\<forall>l \<in> set (build_tree ns). up (selPidMap ns) (Suc (tn_depth l)) (tn_pid l) = None \<and> up (selPidMap ns) (tn_depth l) (tn_pid l) \<noteq> None"
proof -
  have "card (set (selPIDs ns)) \<le> tree_fuel (selPIDs ns)" by (simp add: tree_fuel_def card_length le_SucI)
  note t = tree_walk_rooted [OF _ this, of "selPidMap ns"]
  show "distinct (map tn_pid (build_tree ns))" unfolding build_tree_def using t(1) selPidMap_dom by blast
  show "set (map tn_pid (build_tree ns)) = {p \<in> set (selPIDs ns). rooted (selPidMap ns) p}"
    unfolding build_tree_def using t(2) selPidMap_dom by blast
  show "\<forall>l \<in> set (build_tree ns). up (selPidMap ns) (Suc (tn_depth l)) (tn_pid l) = None \<and> up (selPidMap ns) (tn_depth l) (tn_pid l) \<noteq> None"
    unfolding build_tree_def using t(3) selPidMap_dom by blast
qed

text \<open>
  A line shows the node of the container that has its process id, the last one if there are
  several; so there is no line for a process of another container.
\<close>

definition shows_node :: "pid_map \<Rightarrow> treeNode \<Rightarrow> bool" where
  "shows_node pm l \<longleftrightarrow> (\<exists>n. map_of pm (tn_pid l) = Some n \<and> tn_key l = sn_Key n \<and> tn_comm l = DisplayComm n \<and> tn_alive l = sn_IsAlive n)"

lemma fold_keeps: "(\<And>x st. x \<in> set xs \<Longrightarrow> J st \<Longrightarrow> J (g x st)) \<Longrightarrow> J st \<Longrightarrow> J (fold g xs st)"
  by (induction xs arbitrary: st) auto

lemma walk_shows:
  "\<forall>l \<in> set (snd st). shows_node pm l \<Longrightarrow> \<forall>l \<in> set (snd (walk f pm pids pid pfx isLast depth st)). shows_node pm l"
proof (induction f arbitrary: pid pfx isLast depth st)
  case (Suc f)
  show ?case
  proof (cases "pid \<in> set (fst st) \<or> map_of pm pid = None")
    case True
    then show ?thesis using Suc.prems by auto
  next
    case False
    then obtain n where n: "pid \<notin> set (fst st)" "map_of pm pid = Some n" by auto
    have "shows_node pm (tree_node n pid pfx isLast depth)" using n(2) by (simp add: shows_node_def tree_node_def)
    then show ?thesis
      unfolding walk_unvisited [OF n] using Suc
      by (intro fold_keeps [where J = "\<lambda>st. \<forall>l \<in> set (snd st). shows_node pm l"]) (auto simp: case_prod_beta)
  qed
qed simp

lemma tree_walk_shows: "\<forall>l \<in> set (snd (tree_walk f pm pids)). shows_node pm l"
  unfolding tree_walk_def Let_def case_prod_beta
  by (intro fold_keeps [where J = "\<lambda>st. \<forall>l \<in> set (snd st). shows_node pm l"] walk_shows) simp_all

lemma selPidMap_last: "map_of (selPidMap ns) = map_of (rev (map (\<lambda>n. (nk_PID (sn_Key n), n)) ns))"
  by (induction ns rule: rev_induct) (simp_all add: selPidMap_def update_conv' fun_eq_iff)

lemma build_tree_shows: "l \<in> set (build_tree ns) \<Longrightarrow> shows_node (selPidMap ns) l"
  using tree_walk_shows unfolding build_tree_def by blast

text \<open>Where processes fork after their parents, all of them are rooted: nothing is hidden.\<close>

lemma rooted_by_rank:
  assumes "\<And>p q. local_parent pm p = Some q \<Longrightarrow> (rank q :: nat) < rank p"
  shows "rooted pm p"
proof -
  have "up pm (Suc (rank p)) p = None"
  proof (induction "rank p" arbitrary: p rule: less_induct)
    case less
    show ?case
    proof (cases "local_parent pm p")
      case (Some q)
      have r: "rank q < rank p" using assms Some .
      then have n: "up pm (Suc (rank q)) q = None" using less by blast
      obtain k where "rank p = Suc (rank q) + k" using r less_iff_Suc_add by (metis add_Suc add_Suc_right)
      then have "up pm (rank p) q = None" using n up_step by (metis bind.simps(1))
      then show ?thesis using Some by simp
    qed simp
  qed
  then show ?thesis unfolding rooted_def by blast
qed

section \<open>The view keeps its selections inside\<close>

definition proc_ok :: "ProcView \<Rightarrow> bool" where
  "proc_ok v \<longleftrightarrow> 0 \<le> pv_cgroupSel v \<and> (pv_cgroupKeys v = [] \<or> pv_cgroupSel v < int (length (pv_cgroupKeys v))) \<and>
     0 \<le> pv_treeSel v \<and> (pv_treeLines v = [] \<or> pv_treeSel v < int (length (pv_treeLines v))) \<and>
     0 \<le> pv_activePanel v \<and> pv_activePanel v \<le> panelDetail \<and> (pv_cgroupKeys v = [] \<longrightarrow> pv_treeLines v = [])"

lemma proc_ok_New: "proc_ok (Proc_New th)"
  by (simp add: proc_ok_def Proc_New_def panelTree_def panelDetail_def)

lemma proc_ok_invalidate [simp]: "proc_ok (invalidate v) = proc_ok v"
  by (simp add: proc_ok_def invalidate_def)

definition selections_ok :: "ProcView \<Rightarrow> bool" where
  "selections_ok v \<longleftrightarrow> 0 \<le> pv_cgroupSel v \<and> (pv_cgroupKeys v = [] \<or> pv_cgroupSel v < int (length (pv_cgroupKeys v))) \<and>
     0 \<le> pv_treeSel v \<and> 0 \<le> pv_activePanel v \<and> pv_activePanel v \<le> panelDetail"

lemma rebuildTree_ok: "selections_ok v \<Longrightarrow> \<exists>v'. rebuildTree v = Some v' \<and> proc_ok v'"
  by (auto simp: selections_ok_def rebuildTree_def proc_ok_def at_int_def Let_def split: option.splits)

lemma selections_rebuildCgroupList: "selections_ok v \<Longrightarrow> selections_ok (rebuildCgroupList v)"
  by (auto simp: selections_ok_def rebuildCgroupList_def Let_def split: option.splits)

lemma proc_ok_selections: "proc_ok v \<Longrightarrow> selections_ok v"
  by (simp add: proc_ok_def selections_ok_def)

lemma proc_ok_steps:
  assumes "proc_ok v"
  shows "\<exists>v'. Proc_SetData b v = Some v' \<and> proc_ok v'" "\<exists>v'. Proc_SetSize w h v = Some v' \<and> proc_ok v'"
    "\<exists>v'. Proc_Update k v = Some v' \<and> proc_ok v'" "proc_ok (Proc_SetTheme th v)" "proc_ok (Proc_Focus v)" "proc_ok (Proc_Blur v)"
proof -
  have sel: "selections_ok v" by (rule proc_ok_selections [OF assms])
  show "\<exists>v'. Proc_SetData b v = Some v' \<and> proc_ok v'"
  proof (cases "db_Graph b")
    case (Some g)
    have "selections_ok (v\<lparr>pv_snap := Some g\<rparr>)" using sel by (simp add: selections_ok_def)
    then show ?thesis using rebuildTree_ok [OF selections_rebuildCgroupList] Some by (fastforce simp: Proc_SetData_def)
  qed (use assms in \<open>simp add: Proc_SetData_def\<close>)
  have "selections_ok (v\<lparr>pv_w := w, pv_h := h\<rparr>)" using sel by (simp add: selections_ok_def)
  then show "\<exists>v'. Proc_SetSize w h v = Some v' \<and> proc_ok v'" using rebuildTree_ok by (fastforce simp: Proc_SetSize_def)
  have move: "\<exists>v'. rebuildTree (v\<lparr>pv_cgroupSel := c\<rparr>) = Some v' \<and> proc_ok v'"
    if "0 \<le> c" "pv_cgroupKeys v = [] \<or> c < int (length (pv_cgroupKeys v))" for c
    using rebuildTree_ok [of "v\<lparr>pv_cgroupSel := c\<rparr>"] sel that by (simp add: selections_ok_def)
  have up: "\<exists>v'. navUp v = Some v' \<and> proc_ok v'"
    using move [of "pv_cgroupSel v - 1"] assms by (auto simp: navUp_def proc_ok_def [of v] intro: exI) (auto simp: proc_ok_def)
  have down: "\<exists>v'. navDown v = Some v' \<and> proc_ok v'"
    using move [of "pv_cgroupSel v + 1"] assms by (auto simp: navDown_def proc_ok_def [of v]) (auto simp: proc_ok_def)
  have top: "\<exists>v'. navTop v = Some v' \<and> proc_ok v'"
    using move [of 0] assms by (auto simp: navTop_def proc_ok_def [of v]) (auto simp: proc_ok_def)
  have bottom: "proc_ok (navBottom v)"
  proof -
    have "proc_ok (v\<lparr>pv_treeSel := int (length (pv_treeLines v)) - 1\<rparr>)" if "pv_treeLines v \<noteq> []"
      using assms that unfolding proc_ok_def by (cases "pv_treeLines v") auto
    then show ?thesis using assms by (simp add: navBottom_def)
  qed
  have left: "pv_activePanel v > 0 \<Longrightarrow> proc_ok (v\<lparr>pv_activePanel := pv_activePanel v - 1\<rparr>)"
    and right: "pv_activePanel v < panelDetail \<Longrightarrow> proc_ok (v\<lparr>pv_activePanel := pv_activePanel v + 1\<rparr>)"
    using assms by (simp_all add: proc_ok_def)
  show "\<exists>v'. Proc_Update k v = Some v' \<and> proc_ok v'"
    using up down top bottom left right assms unfolding Proc_Update_def by simp
  show "proc_ok (Proc_SetTheme th v)" "proc_ok (Proc_Focus v)" "proc_ok (Proc_Blur v)"
    using assms by (simp_all add: proc_ok_def Proc_SetTheme_def Proc_Focus_def Proc_Blur_def invalidate_def)
qed

end
