(* ===== verification/TuiApp.thy ===== *)
theory TuiApp
  imports TuiStreams TuiProcTree
begin

text \<open>
  The root model of the terminal interface, \<open>internal/tui/app/app.go\<close> with \<open>state.go\<close>,
  \<open>internal/tui/msg\<close> and the intervals of \<open>internal/tui/config\<close>. The interface \<open>views.View\<close> is
  the sum of the nine tabs with the methods dispatched on it. A command is a value of
  \<open>Cmd\<close>: the runtime carries it out and delivers the message it yields. Messages of the
  libraries are numbered, and so are their commands.
\<close>

section \<open>Messages, commands, configuration\<close>

datatype Msg = WindowSizeMsg int int | RenderTickMsg | DataMsg DataBatch | NavDetailMsg string | NavBackMsg
  | ThemeChangedMsg string | KeyMsg string | OtherMsg nat

datatype Cmd = RenderTick duration | Collect duration bool CollectFilter | ChangeTheme string | Quit | LibCmd nat

record Config =
  co_Theme :: string
  co_RenderFPS :: int
  co_DataIntervalMs :: int
  co_ContainersOnly :: bool
  co_TopN :: int
  co_ShowTCP :: bool
  co_ShowFiles :: bool
  co_ShowSlowSys :: bool

definition Config_Default :: Config where
  "Config_Default = \<lparr>co_Theme = ''github-dark'', co_RenderFPS = 10, co_DataIntervalMs = 1000, co_ContainersOnly = False,
     co_TopN = 0, co_ShowTCP = False, co_ShowFiles = False, co_ShowSlowSys = False\<rparr>"

text \<open>Settings below the range of \<open>time.Duration\<close>: the products do not wrap.\<close>

definition RenderInterval :: "Config \<Rightarrow> duration" where
  "RenderInterval c = (1000 div (if co_RenderFPS c \<le> 0 then 10 else co_RenderFPS c)) * Millisecond"

definition DataInterval :: "Config \<Rightarrow> duration" where
  "DataInterval c = (if co_DataIntervalMs c \<le> 0 then 1000 else co_DataIntervalMs c) * Millisecond"

definition theme_Names :: "string list" where
  "theme_Names = [''github-dark'', ''nord'', ''gruvbox'', ''tokyo-night'', ''catppuccin'', ''solarized'']"

definition theme_Get :: "string \<Rightarrow> Theme" where
  "theme_Get n = (if n \<in> set theme_Names then n else ''github-dark'')"

section \<open>The views\<close>

datatype ('ti, 'vp) TabView =
    OverviewTab "'vp OverviewView"
  | CpuTab "(CpuRow, 'ti) TableView"
  | MemoryTab "(MemRow, 'ti) TableView"
  | IoTab "(IoRow, 'ti) TableView"
  | NetworkTab "(NetRow, 'ti) TableView"
  | SyscallTab "(SysRow, 'ti) TableView"
  | EventsTab "('ti, 'vp) EventsView"
  | GraphsTab "'vp GraphsView"
  | ProcGraphTab ProcView

fun Tab_SetData :: "DataBatch \<Rightarrow> ('ti, 'vp) TabView \<Rightarrow> (('ti, 'vp) TabView \<times> DataBatch) option" where
  "Tab_SetData b (OverviewTab v) = Some (OverviewTab (Overview_SetData b v), b)"
| "Tab_SetData b (CpuTab v) = Some (apfst CpuTab (Cpu_SetData b v))"
| "Tab_SetData b (MemoryTab v) = Some (apfst MemoryTab (Memory_SetData b v))"
| "Tab_SetData b (IoTab v) = Some (apfst IoTab (Io_SetData b v))"
| "Tab_SetData b (NetworkTab v) = Some (apfst NetworkTab (Network_SetData b v))"
| "Tab_SetData b (SyscallTab v) = Some (apfst SyscallTab (Syscall_SetData b v))"
| "Tab_SetData b (EventsTab v) = Some (EventsTab (Events_SetData b v), b)"
| "Tab_SetData b (GraphsTab v) = map_option (\<lambda>v1. (GraphsTab v1, b)) (Graphs_SetData b v)"
| "Tab_SetData b (ProcGraphTab v) = map_option (\<lambda>v1. (ProcGraphTab v1, b)) (Proc_SetData b v)"

fun Tab_SetSize :: "('vp, Cmd) Viewport \<Rightarrow> int \<Rightarrow> int \<Rightarrow> ('ti, 'vp) TabView \<Rightarrow> ('ti, 'vp) TabView option" where
  "Tab_SetSize V w h (OverviewTab v) = Some (OverviewTab (Overview_SetSize V w h v))"
| "Tab_SetSize V w h (CpuTab v) = Some (CpuTab (View_SetSize w h v))"
| "Tab_SetSize V w h (MemoryTab v) = Some (MemoryTab (View_SetSize w h v))"
| "Tab_SetSize V w h (IoTab v) = Some (IoTab (View_SetSize w h v))"
| "Tab_SetSize V w h (NetworkTab v) = Some (NetworkTab (View_SetSize w h v))"
| "Tab_SetSize V w h (SyscallTab v) = Some (SyscallTab (View_SetSize w h v))"
| "Tab_SetSize V w h (EventsTab v) = Some (EventsTab (Events_SetSize V w h v))"
| "Tab_SetSize V w h (GraphsTab v) = Some (GraphsTab (Graphs_SetSize V w h v))"
| "Tab_SetSize V w h (ProcGraphTab v) = map_option ProcGraphTab (Proc_SetSize w h v)"

fun Tab_SetTheme :: "Theme \<Rightarrow> ('ti, 'vp) TabView \<Rightarrow> ('ti, 'vp) TabView" where
  "Tab_SetTheme th (OverviewTab v) = OverviewTab (Overview_SetTheme th v)"
| "Tab_SetTheme th (CpuTab v) = CpuTab (View_SetTheme th v)"
| "Tab_SetTheme th (MemoryTab v) = MemoryTab (View_SetTheme th v)"
| "Tab_SetTheme th (IoTab v) = IoTab (View_SetTheme th v)"
| "Tab_SetTheme th (NetworkTab v) = NetworkTab (View_SetTheme th v)"
| "Tab_SetTheme th (SyscallTab v) = SyscallTab (View_SetTheme th v)"
| "Tab_SetTheme th (EventsTab v) = EventsTab (Events_SetTheme th v)"
| "Tab_SetTheme th (GraphsTab v) = GraphsTab (Graphs_SetTheme th v)"
| "Tab_SetTheme th (ProcGraphTab v) = ProcGraphTab (Proc_SetTheme th v)"

fun Tab_Focus :: "('ti, 'vp) TabView \<Rightarrow> ('ti, 'vp) TabView" where
  "Tab_Focus (OverviewTab v) = OverviewTab (Overview_Focus v)"
| "Tab_Focus (CpuTab v) = CpuTab (View_Focus v)"
| "Tab_Focus (MemoryTab v) = MemoryTab (View_Focus v)"
| "Tab_Focus (IoTab v) = IoTab (View_Focus v)"
| "Tab_Focus (NetworkTab v) = NetworkTab (View_Focus v)"
| "Tab_Focus (SyscallTab v) = SyscallTab (View_Focus v)"
| "Tab_Focus (EventsTab v) = EventsTab (Events_Focus v)"
| "Tab_Focus (GraphsTab v) = GraphsTab (Graphs_Focus v)"
| "Tab_Focus (ProcGraphTab v) = ProcGraphTab (Proc_Focus v)"

fun Tab_Blur :: "('ti, 'vp) TabView \<Rightarrow> ('ti, 'vp) TabView" where
  "Tab_Blur (OverviewTab v) = OverviewTab (Overview_Blur v)"
| "Tab_Blur (CpuTab v) = CpuTab (View_Blur v)"
| "Tab_Blur (MemoryTab v) = MemoryTab (View_Blur v)"
| "Tab_Blur (IoTab v) = IoTab (View_Blur v)"
| "Tab_Blur (NetworkTab v) = NetworkTab (View_Blur v)"
| "Tab_Blur (SyscallTab v) = SyscallTab (View_Blur v)"
| "Tab_Blur (EventsTab v) = EventsTab (Events_Blur v)"
| "Tab_Blur (GraphsTab v) = GraphsTab (Graphs_Blur v)"
| "Tab_Blur (ProcGraphTab v) = ProcGraphTab (Proc_Blur v)"

fun Tab_SelectedContainer :: "('ti, 'vp) TabView \<Rightarrow> string option" where
  "Tab_SelectedContainer (CpuTab v) = Cpu_SelectedContainer v"
| "Tab_SelectedContainer (MemoryTab v) = Memory_SelectedContainer v"
| "Tab_SelectedContainer (IoTab v) = Io_SelectedContainer v"
| "Tab_SelectedContainer (NetworkTab v) = Network_SelectedContainer v"
| "Tab_SelectedContainer (SyscallTab v) = Syscall_SelectedContainer v"
| "Tab_SelectedContainer _ = Some []"

fun Tab_Update :: "('ti, Cmd) TextInput \<Rightarrow> ('vp, Cmd) Viewport \<Rightarrow> string \<Rightarrow> ('ti, 'vp) TabView \<Rightarrow> (('ti, 'vp) TabView \<times> Cmd option) option" where
  "Tab_Update T V k (OverviewTab v) = Some (apfst OverviewTab (Overview_Update V k v))"
| "Tab_Update T V k (CpuTab v) = map_option (apfst CpuTab) (Cpu_Update T k v)"
| "Tab_Update T V k (MemoryTab v) = map_option (apfst MemoryTab) (Memory_Update T k v)"
| "Tab_Update T V k (IoTab v) = map_option (apfst IoTab) (Io_Update T k v)"
| "Tab_Update T V k (NetworkTab v) = map_option (apfst NetworkTab) (Network_Update T k v)"
| "Tab_Update T V k (SyscallTab v) = map_option (apfst SyscallTab) (Syscall_Update T k v)"
| "Tab_Update T V k (EventsTab v) = Some (apfst EventsTab (Events_Update T V k v))"
| "Tab_Update T V k (GraphsTab v) = Some (apfst GraphsTab (Graphs_Update V k v))"
| "Tab_Update T V k (ProcGraphTab v) = map_option (\<lambda>v1. (ProcGraphTab v1, None)) (Proc_Update k v)"

text \<open>A message that is not a key: the tables only mark themselves dirty, the others hand it to their viewport.\<close>

definition View_Other :: "('r, 'ti) TableView \<Rightarrow> ('r, 'ti) TableView" where
  "View_Other v = v\<lparr>vw_dirty := True\<rparr>"

fun Tab_Other :: "('vp, Cmd) Viewport \<Rightarrow> nat \<Rightarrow> ('ti, 'vp) TabView \<Rightarrow> ('ti, 'vp) TabView \<times> Cmd option" where
  "Tab_Other V n (OverviewTab v) = (let (vp, c) = vp_Other V n (ov_vp v) in (OverviewTab (v\<lparr>ov_vp := vp\<rparr>), Some c))"
| "Tab_Other V n (CpuTab v) = (CpuTab (View_Other v), None)"
| "Tab_Other V n (MemoryTab v) = (MemoryTab (View_Other v), None)"
| "Tab_Other V n (IoTab v) = (IoTab (View_Other v), None)"
| "Tab_Other V n (NetworkTab v) = (NetworkTab (View_Other v), None)"
| "Tab_Other V n (SyscallTab v) = (SyscallTab (View_Other v), None)"
| "Tab_Other V n (EventsTab v) = (let (vp, c) = vp_Other V n (ev_vp v) in (EventsTab (v\<lparr>ev_vp := vp\<rparr>), Some c))"
| "Tab_Other V n (GraphsTab v) = (let (vp, c) = vp_Other V n (gv_vp v) in (GraphsTab (v\<lparr>gv_vp := vp\<rparr>), Some c))"
| "Tab_Other V n (ProcGraphTab v) = (ProcGraphTab v, None)"

section \<open>The application\<close>

datatype AppState = StateLoading | StateDashboard | StateDetail | StateSearch | StateCommandPalette | StateHelp

record ('ti, 'vp) App =
  ap_state :: AppState
  ap_prevState :: AppState
  ap_layout :: Layout
  ap_theme :: Theme
  ap_themeIdx :: nat
  ap_tabs :: TabbarModel
  ap_statusBar :: StatusbarModel
  ap_modal :: ModalModel
  ap_palette :: "('ti, Cmd) PaletteModel"
  ap_tabViews :: "('ti, 'vp) TabView list"
  ap_detailPg :: "('ti, 'vp) DetailView"
  ap_cfg :: Config
  ap_demo :: bool
  ap_termW :: int
  ap_termH :: int
  ap_batchCount :: int
  ap_eventCount :: int

definition buildCommands :: "Cmd Command list" where
  "buildCommands = \<lparr>pc_Name = ''quit'', pc_Args = [], pc_Description = ''Exit the application'', pc_Action = None\<rparr>
     # map (\<lambda>n. \<lparr>pc_Name = ''theme '' @ n, pc_Args = [], pc_Description = ''Switch to '' @ n @ '' theme'',
          pc_Action = Some (\<lambda>_. ChangeTheme n)\<rparr>) theme_Names"

definition tab_titles :: "Tab list" where
  "tab_titles = map (\<lambda>(t, k). \<lparr>tab_Title = t, tab_Key = k\<rparr>)
     [(''Overview'', ''1''), (''CPU'', ''2''), (''Memory'', ''3''), (''I/O'', ''4''), (''Network'', ''5''), (''Syscall'', ''6''),
      (''Events'', ''7''), (''Graphs'', ''8''), (''ProcGraph'', ''9'')]"

definition App_New :: "('ti, Cmd) TextInput \<Rightarrow> ('vp, Cmd) Viewport \<Rightarrow> Config \<Rightarrow> bool \<Rightarrow> ('ti, 'vp) App" where
  "App_New T V cfg demo =
     (let th = theme_Get (co_Theme cfg);
          tabViews = [OverviewTab (Overview_New V th), CpuTab (Cpu_New T th), MemoryTab (Memory_New T th), IoTab (Io_New T th),
            NetworkTab (Network_New T th), SyscallTab (Syscall_New T th), EventsTab (Events_New T V th), GraphsTab (Graphs_New V th),
            ProcGraphTab (Proc_New th)]
      in \<lparr>ap_state = StateLoading, ap_prevState = StateLoading, ap_layout = Layout_New 80 24, ap_theme = th,
          ap_themeIdx = (if co_Theme cfg \<in> set theme_Names then length (takeWhile (\<lambda>n. n \<noteq> co_Theme cfg) theme_Names) else 0),
          ap_tabs = Tabbar_New tab_titles th, ap_statusBar = Status_New th, ap_modal = Modal_New th,
          ap_palette = Palette_New T buildCommands th, ap_tabViews = tabViews[0 := Tab_Focus (tabViews ! 0)],
          ap_detailPg = Detail_New T V th, ap_cfg = cfg, ap_demo = demo, ap_termW = 0, ap_termH = 0, ap_batchCount = 0,
          ap_eventCount = 0\<rparr>)"

definition collectFilter :: "('ti, 'vp) App \<Rightarrow> CollectFilter" where
  "collectFilter a = \<lparr>cf_ContainersOnly = co_ContainersOnly (ap_cfg a), cf_TopN = co_TopN (ap_cfg a),
     cf_ShowFiles = co_ShowFiles (ap_cfg a), cf_ShowTCP = co_ShowTCP (ap_cfg a), cf_ShowSlowSys = co_ShowSlowSys (ap_cfg a)\<rparr>"

definition App_Init :: "('ti, 'vp) App \<Rightarrow> Cmd list" where
  "App_Init a = [RenderTick (RenderInterval (ap_cfg a)), Collect 0 (ap_demo a) (collectFilter a)]"

text \<open>Indexing the views with the active tab panics out of range.\<close>

definition activeView :: "('ti, 'vp) App \<Rightarrow> ('ti, 'vp) TabView option" where
  "activeView a = at_int (ap_tabViews a) (tbar_active (ap_tabs a))"

definition set_active :: "('ti, 'vp) TabView \<Rightarrow> ('ti, 'vp) App \<Rightarrow> ('ti, 'vp) App" where
  "set_active v a = a\<lparr>ap_tabViews := (ap_tabViews a)[nat (tbar_active (ap_tabs a)) := v]\<rparr>"

definition focus_active :: "('ti, 'vp) App \<Rightarrow> ('ti, 'vp) App option" where
  "focus_active a = map_option (\<lambda>v. set_active (Tab_Focus v) a) (activeView a)"

definition blurAll :: "('ti, 'vp) App \<Rightarrow> ('ti, 'vp) App" where
  "blurAll a = a\<lparr>ap_tabViews := map Tab_Blur (ap_tabViews a)\<rparr>"

definition applyTheme :: "string \<Rightarrow> ('ti, 'vp) App \<Rightarrow> ('ti, 'vp) App" where
  "applyTheme n a =
     (let th = theme_Get n
      in a\<lparr>ap_theme := th, ap_cfg := (ap_cfg a)\<lparr>co_Theme := n\<rparr>, ap_tabs := (ap_tabs a)\<lparr>tbar_theme := th\<rparr>,
           ap_statusBar := Status_SetTheme th (ap_statusBar a), ap_modal := Modal_SetTheme th (ap_modal a),
           ap_palette := Palette_SetTheme th (ap_palette a), ap_tabViews := map (Tab_SetTheme th) (ap_tabViews a),
           ap_detailPg := Detail_SetTheme th (ap_detailPg a)\<rparr>)"

definition helpContent :: string where
  "helpContent = join_with CHR ''\<newline>''
    [''  Navigation'',
     ''  '' @ concat (replicate 10 (bytes [0xE2, 0x94, 0x80])),
     ''  Tab / ]       next tab'',
     ''  Shift+Tab / [ prev tab'',
     ''  1-9           jump to tab'',
     ''  Enter         open container detail'',
     ''  Esc           go back'',
     [],
     ''  Table'',
     ''  '' @ concat (replicate 5 (bytes [0xE2, 0x94, 0x80])),
     ''  '' @ bytes [0xE2, 0x86, 0x91] @ ''/k  '' @ bytes [0xE2, 0x86, 0x93] @ ''/j     move cursor'',
     ''  PgUp/PgDn     page up/down'',
     ''  g / G         top / live mode'',
     ''  s / S         sort column next/prev'',
     ''  /             filter mode'',
     ''  y             yank row'',
     [],
     ''  Detail page'',
     ''  '' @ concat (replicate 11 (bytes [0xE2, 0x94, 0x80])),
     ''  p             pause/resume'',
     ''  /             filter events'',
     ''  '' @ bytes [0xE2, 0x86, 0x91, 0xE2, 0x86, 0x93] @ '' g G       scroll'',
     [],
     ''  ProcGraph tab (9)'',
     ''  '' @ concat (replicate 17 (bytes [0xE2, 0x94, 0x80])),
     ''  '' @ bytes [0xE2, 0x86, 0x90] @ ''/'' @ bytes [0xE2, 0x86, 0x92] @ '' or h/l   switch panels'',
     ''  '' @ bytes [0xE2, 0x86, 0x91, 0xE2, 0x86, 0x93] @ '' or j/k    navigate list/tree'',
     ''  g / G         top / bottom'',
     ''  a             show ancestry'',
     ''  /             filter by comm'',
     [],
     ''  Global'',
     ''  '' @ concat (replicate 6 (bytes [0xE2, 0x94, 0x80])),
     ''  T             cycle theme'',
     ''  :             command palette'',
     ''  ?             this help'',
     ''  q / Ctrl+C    quit'']"

section \<open>Messages\<close>

definition nav_detail :: "string \<Rightarrow> ('ti, 'vp) App \<Rightarrow> ('ti, 'vp) App" where
  "nav_detail c a = a\<lparr>ap_detailPg := SetContainer c (ap_detailPg a), ap_prevState := ap_state a, ap_state := StateDetail,
     ap_statusBar := SetMode ''DETAIL'' ''blue'' (ap_statusBar a)\<rparr>"

definition nav_back :: "('ti, 'vp) App \<Rightarrow> ('ti, 'vp) App" where
  "nav_back a = a\<lparr>ap_state := (if ap_prevState a = StateDetail then StateDashboard else ap_prevState a),
     ap_statusBar := SetMode ''LIVE'' ''green'' (ap_statusBar a)\<rparr>"

definition delegate_key :: "('ti, Cmd) TextInput \<Rightarrow> ('vp, Cmd) Viewport \<Rightarrow> string \<Rightarrow> ('ti, 'vp) App \<Rightarrow> (('ti, 'vp) App \<times> Cmd option) option" where
  "delegate_key T V k a =
     (if ap_state a = StateDetail
      then let (v, cmd) = Detail_Update T V k (ap_detailPg a) in Some (a\<lparr>ap_detailPg := v\<rparr>, cmd)
      else case activeView a of
             None \<Rightarrow> None
           | Some v \<Rightarrow> map_option (\<lambda>(v1, cmd). (set_active v1 a, cmd)) (Tab_Update T V k v))"

definition open_detail :: "('ti, Cmd) TextInput \<Rightarrow> ('vp, Cmd) Viewport \<Rightarrow> ('ti, 'vp) App \<Rightarrow> (('ti, 'vp) App \<times> Cmd option) option" where
  "open_detail T V a =
     (if ap_state a \<noteq> StateDashboard then delegate_key T V ''enter'' a
      else case Option.bind (activeView a) Tab_SelectedContainer of
             None \<Rightarrow> None
           | Some c \<Rightarrow> if c \<noteq> [] then Some (nav_detail c a, None) else delegate_key T V ''enter'' a)"

definition select_tab :: "TabbarModel \<Rightarrow> ('ti, 'vp) App \<Rightarrow> (('ti, 'vp) App \<times> Cmd option) option" where
  "select_tab t a = map_option (\<lambda>a1. (a1, None)) (focus_active (blurAll (a\<lparr>ap_tabs := t\<rparr>)))"

definition digit_keys :: "string list" where
  "digit_keys = [''1'', ''2'', ''3'', ''4'', ''5'', ''6'', ''7'', ''8'', ''9'']"

definition digit_index :: "string \<Rightarrow> int" where
  "digit_index k = int (of_char (k ! 0)) - 49"

definition global_key :: "('ti, Cmd) TextInput \<Rightarrow> ('vp, Cmd) Viewport \<Rightarrow> string \<Rightarrow> ('ti, 'vp) App \<Rightarrow> (('ti, 'vp) App \<times> Cmd option) option" where
  "global_key T V k a =
     (if k = ''q'' \<or> k = ''ctrl+c'' then Some (a, Some Quit)
      else if k = ''?'' then
        Some (a\<lparr>ap_prevState := ap_state a, ap_state := StateHelp, ap_modal := ShowHelp helpContent (ap_modal a)\<rparr>, None)
      else if k = '':'' then Some (a\<lparr>ap_state := StateCommandPalette, ap_palette := Palette_Show T (ap_palette a)\<rparr>, None)
      else if k = ''esc'' then
        Some (if ap_state a = StateDetail \<or> ap_state a = StateSearch
              then a\<lparr>ap_state := StateDashboard, ap_statusBar := SetMode ''LIVE'' ''green'' (ap_statusBar a)\<rparr> else a, None)
      else if k = ''T'' then
        let i = (ap_themeIdx a + 1) mod length theme_Names in Some (applyTheme (theme_Names ! i) (a\<lparr>ap_themeIdx := i\<rparr>), None)
      else if k = ''tab'' \<or> k = '']'' then Option.bind (Tabbar_Next (ap_tabs a)) (\<lambda>t. select_tab t a)
      else if k = ''shift+tab'' \<or> k = ''['' then Option.bind (Tabbar_Prev (ap_tabs a)) (\<lambda>t. select_tab t a)
      else if k \<in> set digit_keys then
        if digit_index k < int (length (ap_tabViews a)) then select_tab (SetActive (digit_index k) (ap_tabs a)) a else Some (a, None)
      else if k = ''enter'' then open_detail T V a
      else delegate_key T V k a)"

definition handleKey :: "('ti, Cmd) TextInput \<Rightarrow> ('vp, Cmd) Viewport \<Rightarrow> string \<Rightarrow> ('ti, 'vp) App \<Rightarrow> (('ti, 'vp) App \<times> Cmd option) option" where
  "handleKey T V k a =
     (if Palette_Visible (ap_palette a)
      then map_option (\<lambda>(p, cmd). (a\<lparr>ap_palette := p\<rparr>, cmd)) (Palette_Update T k (ap_palette a))
      else if Modal_Visible (ap_modal a) then Some (a\<lparr>ap_modal := Modal_Hide (ap_modal a), ap_state := ap_prevState a\<rparr>, None)
      else global_key T V k a)"

text \<open>The batch goes from view to view: the tables sort its slices in place.\<close>

fun set_data_all :: "DataBatch \<Rightarrow> ('ti, 'vp) TabView list \<Rightarrow> (('ti, 'vp) TabView list \<times> DataBatch) option" where
  "set_data_all b [] = Some ([], b)"
| "set_data_all b (v # vs) =
     (case Tab_SetData b v of
        None \<Rightarrow> None
      | Some (v1, b1) \<Rightarrow> map_option (apfst (Cons v1)) (set_data_all b1 vs))"

definition on_data :: "DataBatch \<Rightarrow> ('ti, 'vp) App \<Rightarrow> (('ti, 'vp) App \<times> Cmd option) option" where
  "on_data b a0 =
     (let a = a0\<lparr>ap_state := (if ap_state a0 = StateLoading then StateDashboard else ap_state a0), ap_batchCount := ap_batchCount a0 + 1,
            ap_eventCount := ap_eventCount a0 + int (length (db_Events b))\<rparr>
      in case set_data_all b (ap_tabViews a) of
           None \<Rightarrow> None
         | Some (vs, b1) \<Rightarrow>
             map_option (\<lambda>d. (a\<lparr>ap_tabViews := vs, ap_detailPg := d,
                 ap_statusBar := SetStats (ap_batchCount a) (ap_eventCount a) (ap_statusBar a)\<rparr>,
               Some (Collect (DataInterval (ap_cfg a)) (ap_demo a) (collectFilter a)))) (Detail_SetData b1 (ap_detailPg a)))"

definition on_resize :: "('vp, Cmd) Viewport \<Rightarrow> int \<Rightarrow> int \<Rightarrow> ('ti, 'vp) App \<Rightarrow> (('ti, 'vp) App \<times> Cmd option) option" where
  "on_resize V w h a =
     (let l = Layout_New w h
      in map_option (\<lambda>vs. (a\<lparr>ap_termW := w, ap_termH := h, ap_layout := l, ap_tabs := (ap_tabs a)\<lparr>tbar_width := w\<rparr>,
             ap_statusBar := Status_SetWidth w (ap_statusBar a), ap_tabViews := vs,
             ap_detailPg := Detail_SetSize V (ContentW l) (BodyH l) (ap_detailPg a)\<rparr>, None))
           (those (map (Tab_SetSize V (ContentW l) (BodyH l)) (ap_tabViews a))))"

definition on_other :: "('ti, Cmd) TextInput \<Rightarrow> ('vp, Cmd) Viewport \<Rightarrow> nat \<Rightarrow> ('ti, 'vp) App \<Rightarrow> (('ti, 'vp) App \<times> Cmd option) option" where
  "on_other T V n a =
     (if Palette_Visible (ap_palette a)
      then let (p, cmd) = Palette_Other T n (ap_palette a) in Some (a\<lparr>ap_palette := p\<rparr>, cmd)
      else if ap_state a = StateDetail
      then let (vp, cmd) = vp_Other V n (dv_vp (ap_detailPg a)) in Some (a\<lparr>ap_detailPg := (ap_detailPg a)\<lparr>dv_vp := vp\<rparr>\<rparr>, Some cmd)
      else map_option (\<lambda>v. let (v1, cmd) = Tab_Other V n v in (set_active v1 a, cmd)) (activeView a))"

fun App_Update :: "('ti, Cmd) TextInput \<Rightarrow> ('vp, Cmd) Viewport \<Rightarrow> Msg \<Rightarrow> ('ti, 'vp) App \<Rightarrow> (('ti, 'vp) App \<times> Cmd option) option" where
  "App_Update T V (WindowSizeMsg w h) a = on_resize V w h a"
| "App_Update T V RenderTickMsg a = Some (a, Some (RenderTick (RenderInterval (ap_cfg a))))"
| "App_Update T V (DataMsg b) a = on_data b a"
| "App_Update T V (NavDetailMsg c) a = Some (nav_detail c a, None)"
| "App_Update T V NavBackMsg a = Some (nav_back a, None)"
| "App_Update T V (ThemeChangedMsg n) a = Some (applyTheme n a, None)"
| "App_Update T V (KeyMsg k) a = handleKey T V k a"
| "App_Update T V (OtherMsg n) a = on_other T V n a"

text \<open>A run of the program is the sequence of messages it gets; \<open>None\<close> is a crash.\<close>

fun App_run :: "('ti, Cmd) TextInput \<Rightarrow> ('vp, Cmd) Viewport \<Rightarrow> Msg list \<Rightarrow> ('ti, 'vp) App \<Rightarrow> (('ti, 'vp) App \<times> Cmd list) option" where
  "App_run T V [] a = Some (a, [])"
| "App_run T V (m # ms) a =
     (case App_Update T V m a of
        None \<Rightarrow> None
      | Some (a1, c) \<Rightarrow> map_option (apsnd (append (case c of None \<Rightarrow> [] | Some cmd \<Rightarrow> [cmd]))) (App_run T V ms a1))"

section \<open>The program does not crash\<close>

fun tabview_ok :: "('ti, 'vp) TabView \<Rightarrow> bool" where
  "tabview_ok (CpuTab v) = table_ok (vw_tbl v)"
| "tabview_ok (MemoryTab v) = table_ok (vw_tbl v)"
| "tabview_ok (IoTab v) = table_ok (vw_tbl v)"
| "tabview_ok (NetworkTab v) = table_ok (vw_tbl v)"
| "tabview_ok (SyscallTab v) = table_ok (vw_tbl v)"
| "tabview_ok (GraphsTab v) = graphs_ok v"
| "tabview_ok (ProcGraphTab v) = proc_ok v"
| "tabview_ok _ = True"

text \<open>The collectors name every sample; a batch of unnamed samples would stop the page of a container.\<close>

definition batch_named :: "DataBatch \<Rightarrow> bool" where
  "batch_named b \<longleftrightarrow> (\<forall>s \<in> set (db_CPU b). cm_ContainerName s \<noteq> []) \<and> (\<forall>s \<in> set (db_Mem b). ms_ContainerName s \<noteq> []) \<and>
     (\<forall>s \<in> set (db_IO b). is_ContainerName s \<noteq> []) \<and> (\<forall>s \<in> set (db_Sys b). su_ContainerName s \<noteq> [])"

definition app_ok :: "('ti, 'vp) App \<Rightarrow> bool" where
  "app_ok a \<longleftrightarrow> tabbar_ok (ap_tabs a) \<and> length (ap_tabViews a) = length (tbar_tabs (ap_tabs a)) \<and>
     list_all tabview_ok (ap_tabViews a) \<and> palette_ok (ap_palette a) \<and> detail_ok (ap_detailPg a)"

lemma table_ok_view_set:
  assumes "table_ok (vw_tbl v)"
  shows "table_ok (vw_tbl (View_SetRows rows v))" "table_ok (vw_tbl (View_SetSize w h v))" "table_ok (vw_tbl (View_SetTheme th v))"
    "table_ok (vw_tbl (View_Focus v))" "table_ok (vw_tbl (View_Blur v))" "table_ok (vw_tbl (View_Other v))"
  using assms by (simp_all add: View_SetRows_def View_SetSize_def View_SetTheme_def View_Focus_def View_Blur_def View_Other_def
      table_ok_SetRows table_ok_set)

lemma View_Update_ok:
  assumes "table_ok (vw_tbl v)" "k \<noteq> ''S''"
  shows "\<exists>v' c. View_Update T matches k v = Some (v', c) \<and> table_ok (vw_tbl v')"
proof -
  obtain s c where s: "Search_Update T k (vw_search v) = (s, c)" by (metis surj_pair)
  obtain t where t: "Table_Update k (vw_tbl v) = Some t" using Table_Update_panics_iff [OF assms(1), of k] assms(2) by fastforce
  show ?thesis using assms t table_ok_Update [OF assms(1) t] s
    by (auto simp: View_Update_def Let_def table_ok_SetFilter)
qed

lemma tabview_SetData:
  "tabview_ok v \<Longrightarrow> batch_named b \<Longrightarrow> \<exists>v' b'. Tab_SetData b v = Some (v', b') \<and> tabview_ok v' \<and> batch_named b'"
proof (cases v)
  case (GraphsTab x)
  assume "tabview_ok v" "batch_named b"
  then show ?thesis using graphs_ok_SetData [of x b] GraphsTab by fastforce
next
  case (ProcGraphTab x)
  assume "tabview_ok v" "batch_named b"
  then show ?thesis using proc_ok_steps(1) [of x b] ProcGraphTab by fastforce
qed (auto simp: Cpu_SetData_def Memory_SetData_def Io_SetData_def Network_SetData_def Syscall_SetData_def Let_def
    batch_named_def table_ok_view_set)

lemma set_data_all_ok:
  "list_all tabview_ok vs \<Longrightarrow> batch_named b \<Longrightarrow>
   \<exists>vs' b'. set_data_all b vs = Some (vs', b') \<and> list_all tabview_ok vs' \<and> length vs' = length vs \<and> batch_named b'"
proof (induction vs arbitrary: b)
  case (Cons v vs)
  obtain v1 b1 where v1: "Tab_SetData b v = Some (v1, b1)" "tabview_ok v1" "batch_named b1"
    using tabview_SetData [of v b] Cons.prems by auto
  obtain vs2 b2 where "set_data_all b1 vs = Some (vs2, b2)" "list_all tabview_ok vs2" "length vs2 = length vs" "batch_named b2"
    using Cons.IH [OF _ v1(3)] Cons.prems by auto
  then show ?case using v1 by simp
qed simp

lemma tabview_set:
  assumes "tabview_ok v"
  shows "\<exists>v'. Tab_SetSize V w h v = Some v' \<and> tabview_ok v'" "tabview_ok (Tab_SetTheme th v)" "tabview_ok (Tab_Focus v)" "tabview_ok (Tab_Blur v)"
    "tabview_ok (fst (Tab_Other V n v))"
proof -
  show "\<exists>v'. Tab_SetSize V w h v = Some v' \<and> tabview_ok v'"
  proof (cases v)
    case (ProcGraphTab x)
    then show ?thesis using assms proc_ok_steps(2) [of x w h] by fastforce
  qed (use assms in \<open>auto simp: table_ok_view_set graphs_ok_set\<close>)
  show "tabview_ok (Tab_SetTheme th v)" using assms by (cases v) (simp_all add: table_ok_view_set graphs_ok_set proc_ok_steps)
  show "tabview_ok (Tab_Focus v)" using assms by (cases v) (simp_all add: table_ok_view_set graphs_ok_set proc_ok_steps)
  show "tabview_ok (Tab_Blur v)" using assms by (cases v) (simp_all add: table_ok_view_set graphs_ok_set proc_ok_steps)
  show "tabview_ok (fst (Tab_Other V n v))"
    using assms by (cases v) (simp_all add: table_ok_view_set graphs_ok_def case_prod_beta)
qed

lemma tabview_Update:
  assumes "tabview_ok v" "k \<noteq> ''S''"
  shows "\<exists>v' c. Tab_Update T V k v = Some (v', c) \<and> tabview_ok v'"
proof (cases v)
  case (CpuTab x)
  then show ?thesis using View_Update_ok [of x k T "name_matches cr_Container"] assms by (auto simp: Cpu_Update_def)
next
  case (MemoryTab x)
  then show ?thesis using View_Update_ok [of x k T "name_matches mr_Container"] assms by (auto simp: Memory_Update_def)
next
  case (IoTab x)
  then show ?thesis using View_Update_ok [of x k T "name_matches ir_Container"] assms by (auto simp: Io_Update_def)
next
  case (NetworkTab x)
  then show ?thesis using View_Update_ok [of x k T "name_matches nr_Container"] assms by (auto simp: Network_Update_def)
next
  case (SyscallTab x)
  then show ?thesis using View_Update_ok [of x k T syscall_matches] assms by (auto simp: Syscall_Update_def)
next
  case (GraphsTab x)
  then show ?thesis using assms graphs_ok_set(5) [of x V k] by (auto simp: apfst_def map_prod_def case_prod_beta)
next
  case (ProcGraphTab x)
  then show ?thesis using assms proc_ok_steps(3) [of x k] by auto
qed (auto simp: apfst_def map_prod_def case_prod_beta)

lemma SelectedRow_some: "table_ok m \<Longrightarrow> \<exists>y. SelectedRow m = Some y"
  using SelectedRow_ok [of m] by auto

lemma View_Selected_some: "table_ok (vw_tbl v) \<Longrightarrow> \<exists>c. View_SelectedContainer container v = Some c"
  using SelectedRow_some [of "vw_tbl v"] by (auto simp: View_SelectedContainer_def split: option.splits)

lemma tabview_Selected: "tabview_ok v \<Longrightarrow> \<exists>c. Tab_SelectedContainer v = Some c"
  by (cases v) (simp_all add: Cpu_SelectedContainer_def Memory_SelectedContainer_def Io_SelectedContainer_def
      Network_SelectedContainer_def Syscall_SelectedContainer_def View_Selected_some)

lemma Detail_SetData_named:
  assumes "detail_ok v" "batch_named b"
  shows "\<exists>v'. Detail_SetData b v = Some v' \<and> detail_ok v'"
proof (cases "dv_container v = []")
  case False
  then show ?thesis using Detail_SetData_ok assms(1) by blast
next
  case True
  have skip: "fold_opt (push_own get upd own val) xs h = Some h" if "\<forall>s \<in> set xs. \<not> own s" for get upd own val h and xs :: "'s list"
    using that by (induction xs) (auto simp: push_own_def)
  have skip2: "fold_opt (push_both (push_own g1 u1 own v1) (push_own g2 u2 own v2)) xs h = Some h" if "\<forall>s \<in> set xs. \<not> own s"
    for g1 u1 own v1 g2 u2 v2 h and xs :: "'s list"
    using that by (induction xs) (auto simp: push_own_def push_both_def)
  have "detail_history [] b h = Some h" for h
    using assms(2) by (simp add: detail_history_def batch_named_def skip skip2)
  then show ?thesis using assms(1) True by (auto simp: Detail_SetData_def detail_ok_def)
qed

lemma app_ok_New: "app_ok (App_New T V cfg demo)"
proof -
  have "palette_ok (Palette_New T buildCommands (theme_Get (co_Theme cfg)))" by (rule palette_ok_basic)
  moreover have "tabbar_ok (Tabbar_New tab_titles (theme_Get (co_Theme cfg)))" by (rule tabbar_ok_New) (simp add: tab_titles_def)
  ultimately show ?thesis
    by (simp add: app_ok_def App_New_def Let_def tab_titles_def Tabbar_New_def detail_ok_steps graphs_ok_New proc_ok_New
        Cpu_New_def Memory_New_def Io_New_def Network_New_def Syscall_New_def View_New_def table_ok_New tab_columns_sortable)
qed

lemma app_ok_active:
  assumes "app_ok a"
  shows "\<exists>v. activeView a = Some v \<and> tabview_ok v"
proof -
  have r: "0 \<le> tbar_active (ap_tabs a)" "nat (tbar_active (ap_tabs a)) < length (ap_tabViews a)"
    using assms by (auto simp: app_ok_def tabbar_ok_def)
  then show ?thesis using assms by (auto simp: activeView_def at_int_def app_ok_def list_all_length)
qed

lemma app_ok_set_active: "app_ok a \<Longrightarrow> tabview_ok v \<Longrightarrow> app_ok (set_active v a)"
  using set_update_subset_insert [of "ap_tabViews a" "nat (tbar_active (ap_tabs a))" v]
  by (auto simp: app_ok_def set_active_def list_all_iff)

text \<open>The fields the invariant does not read.\<close>

lemma app_ok_cong:
  "app_ok a \<Longrightarrow> ap_tabs a' = ap_tabs a \<Longrightarrow> ap_tabViews a' = ap_tabViews a \<Longrightarrow> ap_palette a' = ap_palette a \<Longrightarrow>
   ap_detailPg a' = ap_detailPg a \<Longrightarrow> app_ok a'"
  by (simp add: app_ok_def)

lemma app_ok_parts:
  assumes "app_ok a"
  shows "palette_ok p \<Longrightarrow> app_ok (a\<lparr>ap_palette := p\<rparr>)" "detail_ok d \<Longrightarrow> app_ok (a\<lparr>ap_detailPg := d\<rparr>)"
    "list_all tabview_ok vs \<Longrightarrow> length vs = length (ap_tabViews a) \<Longrightarrow> app_ok (a\<lparr>ap_tabViews := vs\<rparr>)"
    "tabbar_ok t \<Longrightarrow> length (tbar_tabs t) = length (ap_tabViews a) \<Longrightarrow> app_ok (a\<lparr>ap_tabs := t\<rparr>)"
  using assms by (simp_all add: app_ok_def)

lemma app_ok_blurAll: "app_ok a \<Longrightarrow> app_ok (blurAll a)"
  by (auto simp: app_ok_def blurAll_def list_all_iff tabview_set)

lemma app_ok_applyTheme: "app_ok a \<Longrightarrow> app_ok (applyTheme n a)"
  by (auto simp: app_ok_def applyTheme_def Let_def list_all_iff tabview_set detail_ok_steps palette_ok_basic tabbar_ok_def)

lemma app_ok_select_tab:
  assumes "app_ok a" "tabbar_ok t" "length (tbar_tabs t) = length (ap_tabViews a)"
  shows "\<exists>a' c. select_tab t a = Some (a', c) \<and> app_ok a'"
proof -
  let ?b = "blurAll (a\<lparr>ap_tabs := t\<rparr>)"
  have b: "app_ok ?b" by (intro app_ok_blurAll app_ok_parts(4) assms)
  then obtain v where "activeView ?b = Some v" "tabview_ok v" using app_ok_active by blast
  then show ?thesis using app_ok_set_active [OF b tabview_set(3)] by (simp add: select_tab_def focus_active_def)
qed

lemma app_ok_delegate:
  assumes "app_ok a" "k \<noteq> ''S''"
  shows "\<exists>a' c. delegate_key T V k a = Some (a', c) \<and> app_ok a'"
proof (cases "ap_state a = StateDetail")
  case True
  obtain v c where v: "Detail_Update T V k (ap_detailPg a) = (v, c)" by (metis surj_pair)
  have "detail_ok v" using detail_ok_steps(5) [of "ap_detailPg a" T V k] assms(1) v by (simp add: app_ok_def)
  then show ?thesis using True v app_ok_parts(2) [OF assms(1)] by (simp add: delegate_key_def)
next
  case False
  obtain v where v: "activeView a = Some v" "tabview_ok v" using app_ok_active [OF assms(1)] by blast
  obtain v1 c where "Tab_Update T V k v = Some (v1, c)" "tabview_ok v1" using tabview_Update [OF v(2) assms(2), of T V] by blast
  then show ?thesis using False v(1) app_ok_set_active [OF assms(1)] by (simp add: delegate_key_def)
qed

lemma detail_ok_SetContainer: "app_ok a \<Longrightarrow> app_ok (nav_detail c a)"
  by (simp add: app_ok_def nav_detail_def detail_ok_steps)

lemma app_ok_open_detail:
  assumes "app_ok a"
  shows "\<exists>a' c. open_detail T V a = Some (a', c) \<and> app_ok a'"
proof -
  obtain v where v: "activeView a = Some v" "tabview_ok v" using app_ok_active [OF assms] by blast
  obtain c where "Tab_SelectedContainer v = Some c" using tabview_Selected [OF v(2)] by blast
  then show ?thesis using v(1) app_ok_delegate [OF assms, of "''enter''" T V] detail_ok_SetContainer [OF assms]
    by (simp add: open_detail_def)
qed

lemma app_ok_global:
  assumes "app_ok a" "k \<noteq> ''S''"
  shows "\<exists>a' c. global_key T V k a = Some (a', c) \<and> app_ok a'"
proof -
  have ok: "tabbar_ok (ap_tabs a)" and len: "length (ap_tabViews a) = length (tbar_tabs (ap_tabs a))" using assms(1) by (simp_all add: app_ok_def)
  then have ne: "tbar_tabs (ap_tabs a) \<noteq> []" "0 < int (length (tbar_tabs (ap_tabs a)))" by (auto simp: tabbar_ok_def)
  have tab: "\<exists>a' c. select_tab ((ap_tabs a)\<lparr>tbar_active := i mod int (length (tbar_tabs (ap_tabs a)))\<rparr>) a = Some (a', c) \<and> app_ok a'" for i
    using ne len by (intro app_ok_select_tab [OF assms(1)]) (simp_all add: tabbar_ok_def)
  have act: "\<exists>a' c. select_tab (SetActive i (ap_tabs a)) a = Some (a', c) \<and> app_ok a'" for i
    using SetActive_ok [OF ne(1), of i] len by (intro app_ok_select_tab [OF assms(1)]) simp_all
  have cong: "app_ok (a\<lparr>ap_prevState := p, ap_state := q, ap_modal := m\<rparr>)" "app_ok (a\<lparr>ap_state := q, ap_statusBar := sb\<rparr>)"
    "app_ok (a\<lparr>ap_themeIdx := i\<rparr>)" for p q m sb i
    by (rule app_ok_cong [OF assms(1)]; simp)+
  have pal: "app_ok (a\<lparr>ap_state := q, ap_palette := Palette_Show T (ap_palette a)\<rparr>)" for q
    using assms(1) by (simp add: app_ok_def palette_ok_basic)
  show ?thesis
    using assms tab [of "tbar_active (ap_tabs a) + 1"] tab [of "tbar_active (ap_tabs a) - 1"] act cong pal app_ok_applyTheme [OF cong(3)]
      app_ok_open_detail [OF assms(1), of T V] app_ok_delegate [OF assms, of T V]
    unfolding global_key_def Let_def Tabbar_step [OF ok] by (simp del: Tabbar_step)
qed

text \<open>What may arrive: anything but the reverse sort key and batches with unnamed samples.\<close>

fun msg_safe :: "Msg \<Rightarrow> bool" where
  "msg_safe (KeyMsg k) = (k \<noteq> ''S'')"
| "msg_safe (DataMsg b) = batch_named b"
| "msg_safe _ = True"

lemma app_ok_handleKey:
  assumes "app_ok a" "k \<noteq> ''S''"
  shows "\<exists>a' c. handleKey T V k a = Some (a', c) \<and> app_ok a'"
proof -
  obtain p c where p: "Palette_Update T k (ap_palette a) = Some (p, c)" "palette_ok p"
    using Palette_Update_ok [of "ap_palette a" T k] assms(1) by (auto simp: app_ok_def)
  have m: "app_ok (a\<lparr>ap_modal := md, ap_state := q\<rparr>)" for md q by (rule app_ok_cong [OF assms(1)]) simp_all
  show ?thesis using p m app_ok_parts(1) [OF assms(1) p(2)] app_ok_global [OF assms, of T V] by (simp add: handleKey_def)
qed

lemma app_ok_data:
  assumes "app_ok a" "batch_named b"
  shows "\<exists>a' c. on_data b a = Some (a', c) \<and> app_ok a'"
proof -
  obtain vs b1 where vs: "set_data_all b (ap_tabViews a) = Some (vs, b1)" "list_all tabview_ok vs" "length vs = length (ap_tabViews a)" "batch_named b1"
    using set_data_all_ok [OF _ assms(2), of "ap_tabViews a"] assms(1) by (auto simp: app_ok_def)
  obtain d where "Detail_SetData b1 (ap_detailPg a) = Some d" "detail_ok d"
    using Detail_SetData_named [OF _ vs(4), of "ap_detailPg a"] assms(1) by (auto simp: app_ok_def)
  then show ?thesis using vs assms(1) by (simp add: on_data_def Let_def app_ok_def)
qed

lemma those_ok: "list_all P xs \<Longrightarrow> (\<And>x. P x \<Longrightarrow> \<exists>y. f x = Some y \<and> Q y) \<Longrightarrow> \<exists>ys. those (map f xs) = Some ys \<and> list_all Q ys \<and> length ys = length xs"
proof (induction xs)
  case (Cons x xs)
  from Cons.prems obtain y where y: "f x = Some y" "Q y" by auto
  from Cons obtain ys where "those (map f xs) = Some ys" "list_all Q ys" "length ys = length xs" by auto
  then show ?case using y by simp
qed simp

lemma app_ok_resize:
  assumes "app_ok a"
  shows "\<exists>a' c. on_resize V w h a = Some (a', c) \<and> app_ok a'"
proof -
  let ?l = "Layout_New w h"
  obtain vs where "those (map (Tab_SetSize V (ContentW ?l) (BodyH ?l)) (ap_tabViews a)) = Some vs" "list_all tabview_ok vs" "length vs = length (ap_tabViews a)"
    using those_ok [where P = tabview_ok and xs = "ap_tabViews a" and f = "Tab_SetSize V (ContentW ?l) (BodyH ?l)", OF _ tabview_set(1)] assms unfolding app_ok_def by blast
  then show ?thesis using assms by (auto simp: on_resize_def Let_def app_ok_def tabbar_ok_def detail_ok_steps)
qed

lemma app_ok_other:
  assumes "app_ok a"
  shows "\<exists>a' c. on_other T V n a = Some (a', c) \<and> app_ok a'"
proof -
  obtain v where v: "activeView a = Some v" "tabview_ok v" using app_ok_active [OF assms] by blast
  obtain p c where p: "Palette_Other T n (ap_palette a) = (p, c)" by (metis surj_pair)
  have "palette_ok p" using Palette_Other_ok [of "ap_palette a" T n] p assms by (simp add: app_ok_def)
  moreover have "app_ok (a\<lparr>ap_detailPg := (ap_detailPg a)\<lparr>dv_vp := vp\<rparr>\<rparr>)" for vp
    using assms by (simp add: app_ok_def detail_ok_def)
  ultimately show ?thesis
    using v p app_ok_parts(1) [OF assms] app_ok_set_active [OF assms tabview_set(5) [OF v(2)]]
    by (simp add: on_other_def case_prod_beta Let_def)
qed

lemma App_Update_safe:
  assumes "app_ok a" "msg_safe m"
  shows "\<exists>a' c. App_Update T V m a = Some (a', c) \<and> app_ok a'"
proof (cases m)
  case NavBackMsg
  have "app_ok (nav_back a)" unfolding nav_back_def by (rule app_ok_cong [OF assms(1)]) simp_all
  then show ?thesis using NavBackMsg by simp
qed (use assms app_ok_resize app_ok_data detail_ok_SetContainer app_ok_applyTheme app_ok_handleKey app_ok_other in \<open>auto\<close>)

lemma App_run_safe:
  assumes "app_ok a" "\<forall>m \<in> set ms. msg_safe m"
  shows "\<exists>a' cs. App_run T V ms a = Some (a', cs) \<and> app_ok a'"
  using assms
proof (induction ms arbitrary: a)
  case (Cons m ms)
  obtain a1 c where a1: "App_Update T V m a = Some (a1, c)" "app_ok a1" using App_Update_safe [OF Cons.prems(1), of m T V] Cons.prems(2) by auto
  then show ?case using Cons.IH [OF a1(2)] Cons.prems(2) by (auto simp: apsnd_def map_prod_def)
qed simp

lemma App_Update_crash:
  assumes "app_ok a"
  shows "App_Update T V (KeyMsg k) a = None \<longleftrightarrow>
    k = ''S'' \<and> \<not> Palette_Visible (ap_palette a) \<and> \<not> Modal_Visible (ap_modal a) \<and> ap_state a \<noteq> StateDetail \<and>
    (\<exists>v. activeView a = Some v \<and> Tab_Update T V ''S'' v = None)"
proof (cases "k = ''S''")
  case False
  then show ?thesis using app_ok_handleKey [OF assms False, of T V] by auto
next
  case True
  obtain v where v: "activeView a = Some v" using app_ok_active [OF assms] by blast
  obtain p c where p: "Palette_Update T k (ap_palette a) = Some (p, c)"
    using Palette_Update_ok [of "ap_palette a" T k] assms by (auto simp: app_ok_def)
  show ?thesis using True v p
    by (simp add: handleKey_def global_key_def digit_keys_def delegate_key_def case_prod_beta)
qed

section \<open>The palette locks the navigation\<close>

text \<open>
  The messages of the runtime: the keys and sizes of the terminal, and what the commands of the
  program yield. No command yields a navigation message; opening a page is the only use of one.
\<close>

fun external :: "Msg \<Rightarrow> bool" where
  "external (NavDetailMsg c) = False"
| "external NavBackMsg = False"
| "external _ = True"

definition locked :: "('ti, 'vp) App \<Rightarrow> bool" where
  "locked a \<longleftrightarrow> ap_state a = StateCommandPalette \<and> \<not> Modal_Visible (ap_modal a) \<or>
     ap_state a = StateHelp \<and> ap_prevState a = StateCommandPalette \<and> Modal_Visible (ap_modal a)"

lemma set_active_frame [simp]:
  "ap_state (set_active v a) = ap_state a" "ap_prevState (set_active v a) = ap_prevState a" "ap_modal (set_active v a) = ap_modal a"
  "ap_palette (set_active v a) = ap_palette a" "ap_batchCount (set_active v a) = ap_batchCount a" "ap_eventCount (set_active v a) = ap_eventCount a"
  "ap_cfg (set_active v a) = ap_cfg a"
  by (simp_all add: set_active_def)

lemma select_tab_frame:
  "select_tab t a = Some (a', c) \<Longrightarrow> c = None \<and> ap_state a' = ap_state a \<and> ap_prevState a' = ap_prevState a \<and> ap_modal a' = ap_modal a
     \<and> ap_palette a' = ap_palette a \<and> ap_batchCount a' = ap_batchCount a \<and> ap_eventCount a' = ap_eventCount a"
  by (auto simp: select_tab_def focus_active_def blurAll_def)

lemma delegate_frame:
  "delegate_key T V k a = Some (a', c) \<Longrightarrow> ap_state a' = ap_state a \<and> ap_prevState a' = ap_prevState a \<and> ap_modal a' = ap_modal a
     \<and> ap_palette a' = ap_palette a \<and> ap_batchCount a' = ap_batchCount a \<and> ap_eventCount a' = ap_eventCount a"
  by (auto simp: delegate_key_def case_prod_beta split: if_splits option.splits)

lemma applyTheme_frame [simp]:
  "ap_state (applyTheme n a) = ap_state a" "ap_prevState (applyTheme n a) = ap_prevState a"
  "Modal_Visible (ap_modal (applyTheme n a)) = Modal_Visible (ap_modal a)"
  "ap_batchCount (applyTheme n a) = ap_batchCount a" "ap_eventCount (applyTheme n a) = ap_eventCount a"
  by (simp_all add: applyTheme_def Let_def Modal_Visible_def Modal_SetTheme_def)

text \<open>The cases of a global key, by what they leave.\<close>

lemma ifelim: "(if b then x else y) = z \<Longrightarrow> (b \<Longrightarrow> x = z \<Longrightarrow> P) \<Longrightarrow> (\<not> b \<Longrightarrow> y = z \<Longrightarrow> P) \<Longrightarrow> P"
  by (simp split: if_splits)

lemma global_key_cases:
  assumes "global_key T V k a = Some (a', c)"
  obtains (quit) "a' = a" "c = Some Quit" | (stay) "a' = a" "c = None"
  | (overlay) "a' = a\<lparr>ap_prevState := ap_state a, ap_state := StateHelp, ap_modal := ShowHelp helpContent (ap_modal a)\<rparr>" "c = None"
  | (palette) "k = '':''" "a' = a\<lparr>ap_state := StateCommandPalette, ap_palette := Palette_Show T (ap_palette a)\<rparr>" "c = None"
  | (leave) "ap_state a = StateDetail \<or> ap_state a = StateSearch"
      "a' = a\<lparr>ap_state := StateDashboard, ap_statusBar := SetMode ''LIVE'' ''green'' (ap_statusBar a)\<rparr>" "c = None"
  | (theme) i where "a' = applyTheme (theme_Names ! i) (a\<lparr>ap_themeIdx := i\<rparr>)" "c = None"
  | (tab) t where "select_tab t a = Some (a', c)"
  | (detail) n where "ap_state a = StateDashboard" "n \<noteq> []" "a' = nav_detail n a" "c = None"
  | (delegate) k' where "delegate_key T V k' a = Some (a', c)"
proof -
  note ex = that
  have o: thesis if "open_detail T V a = Some (a', c)"
    using that ex(8,9) by (auto simp: open_detail_def split: if_splits option.splits)
  have b: thesis if "Option.bind x (\<lambda>t. select_tab t a) = Some (a', c)" for x
    using that ex(7) by (auto simp: bind_eq_Some_conv)
  show ?thesis
    using assms unfolding global_key_def Let_def
  proof (elim ifelim, goal_cases)
    case 1 then show ?case by (intro ex(1)) simp_all
  next
    case 2 then show ?case by (intro ex(3)) simp_all
  next
    case 3 then show ?case by (intro ex(4)) simp_all
  next
    case 4 then show ?case by (cases "ap_state a = StateDetail \<or> ap_state a = StateSearch") (rule ex(5), simp_all, rule ex(2), simp_all)
  next
    case 5 then show ?case by (intro ex(6) [of "(ap_themeIdx a + 1) mod length theme_Names"]) (simp_all only: option.inject prod.inject)
  next
    case 6 then show ?case by (intro b)
  next
    case 7 then show ?case by (intro b)
  next
    case 8 then show ?case by (intro ex(7))
  next
    case 9 then show ?case by (intro ex(2)) simp_all
  next
    case 10 then show ?case by (intro o)
  next
    case 11 then show ?case by (intro ex(9))
  qed
qed

lemma locked_global:
  assumes "ap_state a = StateCommandPalette" "\<not> Modal_Visible (ap_modal a)" "global_key T V k a = Some (a', c)"
  shows "locked a'"
  using assms(3)
proof (cases rule: global_key_cases)
  case (tab t)
  then show ?thesis using select_tab_frame [OF tab] assms by (simp add: locked_def)
next
  case (delegate k')
  then show ?thesis using delegate_frame [OF delegate] assms by (simp add: locked_def)
qed (use assms in \<open>simp_all add: locked_def ShowHelp_def\<close>, simp_all add: Modal_Visible_def)

lemma locked_Update:
  assumes "locked a" "external m" "App_Update T V m a = Some (a', c)"
  shows "locked a'"
proof (cases m)
  case (KeyMsg k)
  have u: "handleKey T V k a = Some (a', c)" using assms(3) KeyMsg by simp
  have p: "locked (a\<lparr>ap_palette := p\<rparr>)" for p using assms(1) by (simp add: locked_def)
  show ?thesis
  proof (cases "Palette_Visible (ap_palette a) \<or> Modal_Visible (ap_modal a)")
    case True
    then show ?thesis using u p assms(1)
      by (auto simp: handleKey_def locked_def case_prod_beta Modal_Visible_def Modal_Hide_def split: if_splits)
  next
    case False
    then have "ap_state a = StateCommandPalette" using assms(1) by (auto simp: locked_def)
    then show ?thesis using locked_global [of a T V k a' c] u False by (simp add: handleKey_def)
  qed
next
  case (DataMsg b)
  then show ?thesis using assms by (auto simp: on_data_def locked_def Let_def split: option.splits)
next
  case (WindowSizeMsg w h)
  then show ?thesis using assms by (auto simp: on_resize_def locked_def Let_def)
next
  case (OtherMsg n)
  then show ?thesis using assms
    by (auto simp: on_other_def locked_def Let_def case_prod_beta split: if_splits option.splits)
next
  case (ThemeChangedMsg n)
  then show ?thesis using assms by (auto simp: locked_def)
qed (use assms in \<open>simp_all\<close>)

lemma locked_run:
  "locked a \<Longrightarrow> \<forall>m \<in> set ms. external m \<Longrightarrow> App_run T V ms a = Some (a', cs) \<Longrightarrow> locked a'"
proof (induction ms arbitrary: a cs)
  case (Cons m ms)
  then obtain a1 c cs1 where "App_Update T V m a = Some (a1, c)" "App_run T V ms a1 = Some (a', cs1)"
    by (auto split: option.splits)
  then show ?case using Cons locked_Update [of a m T V a1 c] by auto
qed simp

text \<open>The key that opens the palette is what leads there.\<close>

lemma palette_key_locks:
  assumes "\<not> Palette_Visible (ap_palette a)" "\<not> Modal_Visible (ap_modal a)"
    and "App_run T V (KeyMsg '':'' # ms) a = Some (a', cs)" "\<forall>m \<in> set ms. external m"
  shows "locked a'"
proof -
  let ?a = "a\<lparr>ap_state := StateCommandPalette, ap_palette := Palette_Show T (ap_palette a)\<rparr>"
  have "App_Update T V (KeyMsg '':'') a = Some (?a, None)" using assms(1,2) by (simp add: handleKey_def global_key_def)
  then obtain cs1 where "App_run T V ms ?a = Some (a', cs1)" using assms(3) by auto
  moreover have "locked ?a" using assms(2) by (simp add: locked_def)
  ultimately show ?thesis using locked_run [of ?a ms T V a' cs1] assms(4) by blast
qed

section \<open>One collection at a time\<close>

text \<open>The commands of the libraries are their own.\<close>

definition library_cmds :: "('ti, Cmd) TextInput \<Rightarrow> ('vp, Cmd) Viewport \<Rightarrow> bool" where
  "library_cmds T V \<longleftrightarrow> (\<forall>k x. \<exists>n. snd (ti_Update T k x) = LibCmd n) \<and> (\<forall>i x. \<exists>n. snd (ti_Other T i x) = LibCmd n) \<and>
     (\<forall>k x. \<exists>n. snd (vp_Update V k x) = LibCmd n) \<and> (\<forall>i x. \<exists>n. snd (vp_Other V i x) = LibCmd n)"

fun is_collect :: "Cmd \<Rightarrow> bool" where "is_collect (Collect d b f) = True" | "is_collect _ = False"
fun is_tick :: "Cmd \<Rightarrow> bool" where "is_tick (RenderTick d) = True" | "is_tick _ = False"
fun is_data :: "Msg \<Rightarrow> bool" where "is_data (DataMsg b) = True" | "is_data _ = False"
fun is_render :: "Msg \<Rightarrow> bool" where "is_render RenderTickMsg = True" | "is_render _ = False"

definition quiet :: "Cmd option \<Rightarrow> bool" where
  "quiet c \<longleftrightarrow> (\<forall>x. c = Some x \<longrightarrow> \<not> is_collect x \<and> \<not> is_tick x)"

lemma quiet_simps [simp]: "quiet None" "quiet (Some Quit)" "quiet (Some (LibCmd n))" "quiet (Some (ChangeTheme t))"
  by (simp_all add: quiet_def)

text \<open>The commands of the palette change the theme.\<close>

definition palette_commands :: "('ti, 'vp) App \<Rightarrow> bool" where
  "palette_commands a \<longleftrightarrow> pa_commands (ap_palette a) = buildCommands \<and> set (pa_matches (ap_palette a)) \<subseteq> set buildCommands"

lemma buildCommands_quiet: "cmd \<in> set buildCommands \<Longrightarrow> pc_Action cmd = Some act \<Longrightarrow> quiet (Some (act x))"
  by (auto simp: buildCommands_def)

lemma library_quiet:
  assumes "library_cmds T V"
  shows "quiet (Some (snd (ti_Update T k x)))" "quiet (Some (snd (ti_Other T i x)))" "quiet (Some (snd (vp_Update V k y)))"
    "quiet (Some (snd (vp_Other V i y)))"
  using assms unfolding library_cmds_def by (metis quiet_simps(3))+

lemma Search_Update_quiet: "library_cmds T V \<Longrightarrow> quiet (snd (Search_Update T k m))"
  using library_quiet(1) [of T V k "sb_input m"] by (auto simp: Search_Update_def case_prod_beta)

lemma View_Update_quiet: "library_cmds T V \<Longrightarrow> View_Update T matches k v = Some (v', c) \<Longrightarrow> quiet c"
  using Search_Update_quiet [of T V k "vw_search v"] by (auto simp: View_Update_def Let_def case_prod_beta split: if_splits)

lemma Tab_Update_quiet:
  assumes "library_cmds T V" "Tab_Update T V k v = Some (v', c)"
  shows "quiet c"
proof (cases v)
  case (EventsTab x)
  then show ?thesis using assms Search_Update_quiet [of T V k "ev_search x"] library_quiet(3) [OF assms(1)]
    by (auto simp: Events_Update_def Let_def case_prod_beta split: if_splits)
qed (use assms View_Update_quiet library_quiet(3) in \<open>auto simp: Overview_Update_def Cpu_Update_def Memory_Update_def Io_Update_def
    Network_Update_def Syscall_Update_def Graphs_Update_def Let_def case_prod_beta split: if_splits\<close>)

lemma Detail_Update_quiet: "library_cmds T V \<Longrightarrow> quiet (snd (Detail_Update T V k v))"
  by (simp add: Detail_Update_def Let_def case_prod_beta Search_Update_quiet library_quiet)

lemma delegate_quiet:
  assumes "library_cmds T V" "delegate_key T V k a = Some (a', c)"
  shows "quiet c"
proof (cases "ap_state a = StateDetail")
  case True
  then show ?thesis using assms Detail_Update_quiet [OF assms(1), of k "ap_detailPg a"] by (auto simp: delegate_key_def case_prod_beta)
next
  case False
  then obtain v v1 where "activeView a = Some v" "Tab_Update T V k v = Some (v1, c)"
    using assms(2) by (auto simp: delegate_key_def split: option.splits)
  then show ?thesis using Tab_Update_quiet [OF assms(1)] by blast
qed

lemma global_quiet:
  assumes "library_cmds T V" "global_key T V k a = Some (a', c)"
  shows "quiet c" "ap_batchCount a' = ap_batchCount a" "ap_eventCount a' = ap_eventCount a" "palette_commands a \<Longrightarrow> palette_commands a'"
proof -
  have "quiet c \<and> ap_batchCount a' = ap_batchCount a \<and> ap_eventCount a' = ap_eventCount a \<and> (palette_commands a \<longrightarrow> palette_commands a')"
    using assms(2)
  proof (cases rule: global_key_cases)
    case (tab t)
    then show ?thesis using select_tab_frame [OF tab] by (simp add: palette_commands_def)
  next
    case (delegate k')
    then show ?thesis using delegate_frame [OF delegate] delegate_quiet [OF assms(1)] by (simp add: palette_commands_def)
  qed (simp_all add: palette_commands_def nav_detail_def applyTheme_def Let_def Palette_SetTheme_def Palette_Show_def palette_filter_def subset_eq)
  then show "quiet c" "ap_batchCount a' = ap_batchCount a" "ap_eventCount a' = ap_eventCount a" "palette_commands a \<Longrightarrow> palette_commands a'"
    by blast+
qed

lemma palette_filter_commands: "palette_commands (a\<lparr>ap_palette := palette_filter q p\<rparr>) \<longleftrightarrow> pa_commands p = buildCommands"
  by (auto simp: palette_commands_def palette_filter_def Let_def)

lemma Palette_Update_quiet:
  assumes "library_cmds T V" "palette_commands a" "Palette_Update T k (ap_palette a) = Some (p, c)"
  shows "quiet c \<and> palette_commands (a\<lparr>ap_palette := p\<rparr>)"
proof -
  obtain i cmd where t: "ti_Update T k (pa_input (ap_palette a)) = (i, cmd)" by (metis surj_pair)
  have q: "quiet (Some cmd)" using library_quiet(1) [OF assms(1), of k "pa_input (ap_palette a)"] t by simp
  have m: "pa_matches (ap_palette a) ! nat (pa_cursor (ap_palette a)) \<in> set buildCommands"
    if "0 \<le> pa_cursor (ap_palette a)" "pa_cursor (ap_palette a) < int (length (pa_matches (ap_palette a)))"
    using assms(2) that nth_mem [of "nat (pa_cursor (ap_palette a))" "pa_matches (ap_palette a)"] by (auto simp: palette_commands_def)
  have h: "palette_commands (a\<lparr>ap_palette := Palette_Hide T (ap_palette a)\<rparr>)"
    "palette_commands (a\<lparr>ap_palette := (ap_palette a)\<lparr>pa_cursor := x\<rparr>\<rparr>)" "palette_commands (a\<lparr>ap_palette := ap_palette a\<rparr>)" for x
    using assms(2) by (simp_all add: palette_commands_def Palette_Hide_def)
  have f: "palette_commands (a\<lparr>ap_palette := palette_filter y ((ap_palette a)\<lparr>pa_input := i\<rparr>)\<rparr>)" for y
    using assms(2) by (simp add: palette_filter_commands) (simp add: palette_commands_def)
  show ?thesis
    using assms(3) unfolding Palette_Update_def t Let_def prod.case
  proof (elim ifelim, goal_cases)
    case 1
    then show ?case using h(3) by simp
  next
    case 2
    then show ?case using h(1) by simp
  next
    case 3
    then show ?case using h(3) by simp
  next
    case 4
    let ?cmd = "pa_matches (ap_palette a) ! nat (pa_cursor (ap_palette a))"
    have "?cmd \<in> set buildCommands" using m 4 by simp
    then show ?case using 4 h(1) buildCommands_quiet [of ?cmd] by (auto split: option.splits)
  next
    case 5
    then show ?case by simp
  next
    case 6
    then have "c = None" "p = (if pa_cursor (ap_palette a) > 0 then (ap_palette a)\<lparr>pa_cursor := pa_cursor (ap_palette a) - 1\<rparr> else ap_palette a)"
      by (simp_all only: option.inject prod.inject)
    then show ?case using h(2,3) by (simp only: quiet_simps split: if_split) blast
  next
    case 7
    then have "c = None" "p = (if pa_cursor (ap_palette a) < int (length (pa_matches (ap_palette a))) - 1 then (ap_palette a)\<lparr>pa_cursor := pa_cursor (ap_palette a) + 1\<rparr> else ap_palette a)"
      by (simp_all only: option.inject prod.inject)
    then show ?case using h(2,3) by (simp only: quiet_simps split: if_split) blast
  next
    case 8
    then have "p = palette_filter (ti_Value T i) ((ap_palette a)\<lparr>pa_input := i\<rparr>)" "c = Some cmd" by simp_all
    then show ?case using q f by simp
  qed
qed

lemma App_Update_cmds:
  assumes "library_cmds T V" "palette_commands a" "App_Update T V m a = Some (a', c)"
  shows "(\<exists>x. c = Some x \<and> is_collect x) \<longleftrightarrow> is_data m" "(\<exists>x. c = Some x \<and> is_tick x) \<longleftrightarrow> is_render m" "palette_commands a'"
    "ap_batchCount a' = ap_batchCount a + (if is_data m then 1 else 0)"
    "ap_eventCount a' = ap_eventCount a + (case m of DataMsg b \<Rightarrow> int (length (db_Events b)) | _ \<Rightarrow> 0)"
proof -
  have "((\<exists>x. c = Some x \<and> is_collect x) \<longleftrightarrow> is_data m) \<and> ((\<exists>x. c = Some x \<and> is_tick x) \<longleftrightarrow> is_render m) \<and> palette_commands a' \<and>
    ap_batchCount a' = ap_batchCount a + (if is_data m then 1 else 0) \<and>
    ap_eventCount a' = ap_eventCount a + (case m of DataMsg b \<Rightarrow> int (length (db_Events b)) | _ \<Rightarrow> 0)"
  proof (cases m)
    case (KeyMsg k)
    have u: "handleKey T V k a = Some (a', c)" using assms(3) KeyMsg by simp
    consider (pal) p where "Palette_Update T k (ap_palette a) = Some (p, c)" "a' = a\<lparr>ap_palette := p\<rparr>"
      | (modal) "a' = a\<lparr>ap_modal := Modal_Hide (ap_modal a), ap_state := ap_prevState a\<rparr>" "c = None"
      | (key) "global_key T V k a = Some (a', c)"
    proof -
      note ex = that
      show thesis
        using u unfolding handleKey_def
      proof (elim ifelim, goal_cases)
        case 1
        then obtain p where "Palette_Update T k (ap_palette a) = Some (p, c)" "a' = a\<lparr>ap_palette := p\<rparr>" by (auto simp: case_prod_beta)
        then show ?case by (rule ex(1))
      next
        case 2
        then show ?case by (intro ex(2)) simp_all
      next
        case 3
        then show ?case by (intro ex(3))
      qed
    qed
    then have "quiet c \<and> palette_commands a' \<and> ap_batchCount a' = ap_batchCount a \<and> ap_eventCount a' = ap_eventCount a"
    proof cases
      case pal
      then show ?thesis using Palette_Update_quiet [OF assms(1,2) pal(1)] by simp
    next
      case modal
      then show ?thesis using assms(2) by (simp add: palette_commands_def)
    next
      case key
      show ?thesis using global_quiet [OF assms(1) key] assms(2) by simp
    qed
    then show ?thesis using KeyMsg by (auto simp: quiet_def)
  next
    case (OtherMsg n)
    have o: "quiet (Some (snd (vp_Other V n y)))" "quiet (Some (snd (ti_Other T n z)))" for y z using library_quiet [OF assms(1)] by blast+
    have t: "quiet (snd (Tab_Other V n v))" for v :: "('a, 'b) TabView" using o(1) by (cases v) (simp_all add: case_prod_beta)
    have "quiet c \<and> palette_commands a' \<and> ap_batchCount a' = ap_batchCount a \<and> ap_eventCount a' = ap_eventCount a"
      using assms(2,3) OtherMsg o t
      by (auto simp: on_other_def Palette_Other_def palette_commands_def palette_filter_def Let_def case_prod_beta split: if_splits)
    then show ?thesis using OtherMsg by (auto simp: quiet_def)
  next
    case (DataMsg b)
    then show ?thesis using assms by (auto simp: on_data_def Let_def palette_commands_def split: option.splits)
  next
    case (WindowSizeMsg w h)
    then show ?thesis using assms by (auto simp: on_resize_def Let_def palette_commands_def)
  qed (use assms in \<open>auto simp: palette_commands_def nav_detail_def nav_back_def applyTheme_def Let_def Palette_SetTheme_def\<close>)
  then show "(\<exists>x. c = Some x \<and> is_collect x) \<longleftrightarrow> is_data m" "(\<exists>x. c = Some x \<and> is_tick x) \<longleftrightarrow> is_render m" "palette_commands a'"
    "ap_batchCount a' = ap_batchCount a + (if is_data m then 1 else 0)"
    "ap_eventCount a' = ap_eventCount a + (case m of DataMsg b \<Rightarrow> int (length (db_Events b)) | _ \<Rightarrow> 0)" by blast+
qed

fun batch_events :: "Msg \<Rightarrow> int" where
  "batch_events (DataMsg b) = int (length (db_Events b))"
| "batch_events _ = 0"

lemma App_run_cmds:
  assumes "library_cmds T V"
  shows "palette_commands a \<Longrightarrow> App_run T V ms a = Some (a', cs) \<Longrightarrow>
    length (filter is_collect cs) = length (filter is_data ms) \<and> length (filter is_tick cs) = length (filter is_render ms) \<and>
    ap_batchCount a' = ap_batchCount a + int (length (filter is_data ms)) \<and>
    ap_eventCount a' = ap_eventCount a + sum_list (map batch_events ms)"
proof (induction ms arbitrary: a cs)
  case (Cons m ms)
  then obtain a1 c cs1 where r: "App_Update T V m a = Some (a1, c)" "App_run T V ms a1 = Some (a', cs1)"
    "cs = (case c of None \<Rightarrow> [] | Some x \<Rightarrow> [x]) @ cs1"
    by (auto split: option.splits)
  note u = App_Update_cmds [OF assms Cons.prems(1) r(1)]
  have "length (filter is_collect (case c of None \<Rightarrow> [] | Some x \<Rightarrow> [x])) = (if is_data m then 1 else 0)"
    "length (filter is_tick (case c of None \<Rightarrow> [] | Some x \<Rightarrow> [x])) = (if is_render m then 1 else 0)"
    using u(1,2) by (auto split: option.splits)
  moreover have "batch_events m = (case m of DataMsg b \<Rightarrow> int (length (db_Events b)) | _ \<Rightarrow> 0)" by (cases m) simp_all
  ultimately show ?case using Cons.IH [OF u(3) r(2)] r(3) u(4,5) by simp
qed simp

lemma palette_commands_New: "palette_commands (App_New T V cfg demo)"
  by (simp add: palette_commands_def App_New_def Let_def Palette_New_def)

end
