(* ===== verification/Startup.thy ===== *)
theory Startup
  imports ObserverCli TuiApp
begin

text \<open>
  How the two observers start and stop: \<open>main\<close> of \<open>cmd/observer/main.go\<close> and of
  \<open>cmd/tui/main.go\<close> load the BPF objects one after the other, keep going without what fails
  except the CPU object, and release on exit what they deferred. Not modelled are the
  capability checks and the HTTP server, which only log.
\<close>

section \<open>Loading with deferred releases\<close>

type_synonym starting = "bpf_handle list \<times> loader_state"

definition ld_handles :: "Loaded \<Rightarrow> bpf_handle list" where
  "ld_handles r = (case ld_reader r of None \<Rightarrow> [] | Some m \<Rightarrow> [BReader m]) @ ld_links r"

text \<open>A load whose failure is logged; on success the given handles are released on exit.\<close>

definition optional :: "'a loading \<Rightarrow> ('a \<Rightarrow> bpf_handle list) \<Rightarrow> starting \<Rightarrow> 'a option \<times> starting" where
  "optional m own st =
     (case st of (defers, s) \<Rightarrow>
        (case m s of (Inl err, s1) \<Rightarrow> (None, (defers, s1)) | (Inr x, s1) \<Rightarrow> (Some x, (defers @ own x, s1))))"

definition unless :: "bool \<Rightarrow> (starting \<Rightarrow> 'a option \<times> starting) \<Rightarrow> starting \<Rightarrow> 'a option \<times> starting" where
  "unless skip f st = (if skip then (None, st) else f st)"

record ObjPaths =
  op_cpu :: string
  op_mem :: string
  op_io :: string
  op_net :: string
  op_sys :: string
  op_lineage :: string
  op_exec :: string
  op_dns :: string
  op_privesc :: string
  op_escape :: string

record LoadedSet =
  ls_Mem :: bool
  ls_IO :: bool
  ls_Net :: bool
  ls_Sys :: bool
  ls_Lineage :: bool
  ls_Exec :: bool
  ls_DNS :: bool
  ls_PrivEsc :: bool
  ls_Escape :: bool

section \<open>The command-line observer\<close>

text \<open>
  \<open>None\<close> is the exit after the CPU object failed. The three modules that read the process
  tree are loaded only if an object is given and the tree was found.
\<close>

definition observer_load :: "bpf_lib \<Rightarrow> ObjPaths \<Rightarrow> loader_state \<Rightarrow> LoadedSet option \<times> starting" where
  "observer_load L p s0 =
     (case loadCPU L (op_cpu p) s0 of
        (Inl err, s) \<Rightarrow> (None, ([], s))
      | (Inr (cpu, cpuColl), s) \<Rightarrow>
          let st0 = (ld_links cpu @ [BCollection (op_cpu p)], s);
              (mem, st1) = optional (loadMemory L (op_mem p)) ld_handles st0;
              (io, st2) = optional (loadIO L (op_io p)) ld_handles st1;
              (net, st3) = optional (loadNetwork L (op_net p)) ld_handles st2;
              (sys, st4) = optional (loadSyscall L (op_sys p)) ld_handles st3;
              (exec, st5) = unless (op_exec p = [])
                 (optional (loadExecWithColl L (op_exec p)) (\<lambda>(r, c). ld_handles r @ [BCollection (op_exec p)])) st4;
              (lin, st6) = unless (exec = None \<or> op_lineage p = [])
                 (optional (loadLineageFromExec L (snd (the exec))) (\<lambda>(r, tm). ld_handles r)) st5;
              tree = snd (the lin);
              (dns, st7) = unless (op_dns p = [] \<or> lin = None) (optional (loadDNS L (op_dns p) tree) ld_handles) st6;
              (priv, st8) = unless (op_privesc p = [] \<or> lin = None) (optional (loadPrivEsc L (op_privesc p) tree) (\<lambda>(r, cap). ld_handles r)) st7;
              (esc, st9) = unless (op_escape p = [] \<or> lin = None) (optional (loadEscape L (op_escape p) tree) ld_handles) st8
          in (Some \<lparr>ls_Mem = mem \<noteq> None, ls_IO = io \<noteq> None, ls_Net = net \<noteq> None, ls_Sys = sys \<noteq> None, ls_Lineage = lin \<noteq> None,
                ls_Exec = exec \<noteq> None, ls_DNS = dns \<noteq> None, ls_PrivEsc = priv \<noteq> None, ls_Escape = esc \<noteq> None\<rparr>, st9))"

text \<open>On a signal the deferred releases run, and the pinned map is removed.\<close>

definition observer_shutdown :: "starting \<Rightarrow> loader_state" where
  "observer_shutdown st = (drop_handles (fst st) (snd st))\<lparr>lo_pinned := None\<rparr>"

text \<open>The observer the loop of ticks starts with.\<close>

definition observer_start :: "LoadedSet \<Rightarrow> Resolver \<Rightarrow> bool \<Rightarrow> Observer" where
  "observer_start ls r richMem =
     \<lparr>ob_CPU = NewCpuCollector, ob_Mem = (if ls_Mem ls then Some (NewMemoryCollector\<lparr>mc_RichMem := richMem\<rparr>) else None),
      ob_IO = (if ls_IO ls then Some NewIoCollector else None), ob_Net = ls_Net ls, ob_Sys = ls_Sys ls, ob_Lineage = ls_Lineage ls,
      ob_Exec = ls_Exec ls, ob_DNS = ls_DNS ls, ob_PrivEsc = ls_PrivEsc ls, ob_Escape = ls_Escape ls, ob_resolver = (r, 0),
      ob_metrics = [], ob_out = []\<rparr>"

text \<open>The loop: ticks until the context ends.\<close>

definition observer_loop :: "sec_env \<Rightarrow> ObsFlags \<Rightarrow> collect_input list \<Rightarrow> Observer \<Rightarrow> Observer" where
  "observer_loop env fl = fold (observer_tick env fl)"

section \<open>The terminal\<close>

text \<open>
  \<open>cmd/tui/collectors.go\<close> repeats the loaders of the observer line by line; only its
  \<open>loadCPU\<close> does not return the collection.
\<close>

definition Tui_attachProbes :: "bpf_lib \<Rightarrow> Collection \<Rightarrow> probe list \<Rightarrow> loader_state \<Rightarrow> (bpf_handle list \<times> loader_error option) \<times> loader_state" where
  "Tui_attachProbes = attachProbes"

definition Tui_loadCPU :: "bpf_lib \<Rightarrow> string \<Rightarrow> Loaded loading" where
  "Tui_loadCPU L objPath = lbind (loadCPU L objPath) (\<lambda>(r, coll). lreturn r)"

definition Tui_loadMemory :: "bpf_lib \<Rightarrow> string \<Rightarrow> Loaded loading" where "Tui_loadMemory = loadMemory"
definition Tui_loadIO :: "bpf_lib \<Rightarrow> string \<Rightarrow> Loaded loading" where "Tui_loadIO = loadIO"
definition Tui_loadNetwork :: "bpf_lib \<Rightarrow> string \<Rightarrow> Loaded loading" where "Tui_loadNetwork = loadNetwork"
definition Tui_loadSyscall :: "bpf_lib \<Rightarrow> string \<Rightarrow> Loaded loading" where "Tui_loadSyscall = loadSyscall"
definition Tui_loadLineage :: "bpf_lib \<Rightarrow> string \<Rightarrow> (Loaded \<times> bpf_map) loading" where "Tui_loadLineage = loadLineage"
definition Tui_loadSecurityBPF :: "bpf_lib \<Rightarrow> string \<Rightarrow> bpf_map \<Rightarrow> Collection loading" where "Tui_loadSecurityBPF = loadSecurityBPF"
definition Tui_loadExecWithColl :: "bpf_lib \<Rightarrow> string \<Rightarrow> (Loaded \<times> Collection) loading" where "Tui_loadExecWithColl = loadExecWithColl"
definition Tui_loadLineageFromExec :: "bpf_lib \<Rightarrow> Collection \<Rightarrow> (Loaded \<times> bpf_map) loading" where "Tui_loadLineageFromExec = loadLineageFromExec"
definition Tui_loadDNS :: "bpf_lib \<Rightarrow> string \<Rightarrow> bpf_map \<Rightarrow> Loaded loading" where "Tui_loadDNS = loadDNS"
definition Tui_loadPrivEsc :: "bpf_lib \<Rightarrow> string \<Rightarrow> bpf_map \<Rightarrow> (Loaded \<times> bool) loading" where "Tui_loadPrivEsc = loadPrivEsc"
definition Tui_loadEscape :: "bpf_lib \<Rightarrow> string \<Rightarrow> bpf_map \<Rightarrow> Loaded loading" where "Tui_loadEscape = loadEscape"

text \<open>
  The terminal keeps the links in one list that it closes on exit, with the collection of
  the exec object; it never closes a collector, so their readers stay open.
\<close>

definition tui_load :: "bpf_lib \<Rightarrow> ObjPaths \<Rightarrow> loader_state \<Rightarrow> LoadedSet option \<times> starting" where
  "tui_load L p s0 =
     (case Tui_loadCPU L (op_cpu p) s0 of
        (Inl err, s) \<Rightarrow> (None, ([], s))
      | (Inr cpu, s) \<Rightarrow>
          let st0 = (ld_links cpu, s);
              (mem, st1) = optional (Tui_loadMemory L (op_mem p)) ld_links st0;
              (io, st2) = optional (Tui_loadIO L (op_io p)) ld_links st1;
              (net, st3) = optional (Tui_loadNetwork L (op_net p)) ld_links st2;
              (sys, st4) = optional (Tui_loadSyscall L (op_sys p)) ld_links st3;
              (exec, st5) = optional (Tui_loadExecWithColl L (op_exec p)) (\<lambda>(r, c). ld_links r @ [BCollection (op_exec p)]) st4;
              (lin, st6) = unless (exec = None) (optional (Tui_loadLineageFromExec L (snd (the exec))) (\<lambda>(r, tm). ld_links r)) st5;
              tree = snd (the lin);
              (dns, st7) = unless (lin = None) (optional (Tui_loadDNS L (op_dns p) tree) ld_links) st6;
              (priv, st8) = unless (lin = None) (optional (Tui_loadPrivEsc L (op_privesc p) tree) (\<lambda>(r, cap). ld_links r)) st7;
              (esc, st9) = unless (lin = None) (optional (Tui_loadEscape L (op_escape p) tree) ld_links) st8
          in (Some \<lparr>ls_Mem = mem \<noteq> None, ls_IO = io \<noteq> None, ls_Net = net \<noteq> None, ls_Sys = sys \<noteq> None, ls_Lineage = lin \<noteq> None,
                ls_Exec = exec \<noteq> None, ls_DNS = dns \<noteq> None, ls_PrivEsc = priv \<noteq> None, ls_Escape = esc \<noteq> None\<rparr>, st9))"

definition tui_exit :: "starting \<Rightarrow> loader_state" where
  "tui_exit st = drop_handles (fst st) (snd st)"

text \<open>The configuration file, read and parsed by the system and the YAML library, then the flags.\<close>

datatype config_read = ConfigNotExist | ConfigReadError string | ConfigData string

definition Config_Load :: "bool \<Rightarrow> config_read \<Rightarrow> (string \<Rightarrow> Config \<Rightarrow> string + Config) \<Rightarrow> Config \<times> string option" where
  "Config_Load homeKnown rd unmarshal =
     (if \<not> homeKnown then (Config_Default, None)
      else case rd of
        ConfigNotExist \<Rightarrow> (Config_Default, None)
      | ConfigReadError err \<Rightarrow> (Config_Default, Some err)
      | ConfigData dat \<Rightarrow> (case unmarshal dat Config_Default of Inl err \<Rightarrow> (Config_Default, Some err) | Inr cfg \<Rightarrow> (cfg, None)))"

record TuiFlags =
  fl_interval :: duration
  fl_containersOnly :: bool
  fl_showFiles :: bool
  fl_showTCP :: bool
  fl_showSlowSys :: bool
  fl_topN :: int
  fl_theme :: string
  fl_richMem :: bool
  fl_demo :: bool

definition apply_flags :: "TuiFlags \<Rightarrow> Config \<Rightarrow> Config" where
  "apply_flags f c0 =
     (let c1 = (if fl_interval f > 0 then c0\<lparr>co_DataIntervalMs := fl_interval f div Millisecond\<rparr> else c0);
          c2 = (if fl_containersOnly f then c1\<lparr>co_ContainersOnly := True\<rparr> else c1);
          c3 = (if fl_showFiles f then c2\<lparr>co_ShowFiles := True\<rparr> else c2);
          c4 = (if fl_showTCP f then c3\<lparr>co_ShowTCP := True\<rparr> else c3);
          c5 = (if fl_showSlowSys f then c4\<lparr>co_ShowSlowSys := True\<rparr> else c4);
          c6 = (if fl_topN f > 0 then c5\<lparr>co_TopN := fl_topN f\<rparr> else c5)
      in if fl_theme f \<noteq> [] then c6\<lparr>co_Theme := fl_theme f\<rparr> else c6)"

text \<open>The collectors handed to the application; in demo mode there are none.\<close>

definition CollectorSet_New :: "TuiFlags \<Rightarrow> LoadedSet option \<Rightarrow> Resolver \<Rightarrow> 'h TuiState" where
  "CollectorSet_New f loaded r =
     (let has = (\<lambda>sel. \<not> fl_demo f \<and> (case loaded of None \<Rightarrow> False | Some ls \<Rightarrow> sel ls))
      in \<lparr>ts_CPU = (if has (\<lambda>ls. True) then Some NewCpuCollector else None),
          ts_Mem = (if has ls_Mem then Some (NewMemoryCollector\<lparr>mc_RichMem := fl_richMem f\<rparr>) else None),
          ts_IO = (if has ls_IO then Some NewIoCollector else None), ts_Net = has ls_Net, ts_Syscall = has ls_Sys,
          ts_Lineage = has ls_Lineage, ts_Exec = has ls_Exec, ts_DNS = has ls_DNS, ts_PrivEsc = has ls_PrivEsc, ts_Escape = has ls_Escape,
          ts_SecWriter = Some [], ts_Graph = Some (New_graph DefaultMaxNodes), ts_resolver = (r, 0),
          ts_latencyAgg = NewLatencyAggregator, ts_tsBuffer = the (NewBuffer zero_batch 300)\<rparr>)"

section \<open>What an exit leaves open\<close>

text \<open>
  \<open>tidy ok base\<close>: beside the handles open before and those deferred only handles of the
  kind \<open>ok\<close> are open.
\<close>

definition tidy :: "(bpf_handle \<Rightarrow> bool) \<Rightarrow> bpf_handle multiset \<Rightarrow> starting \<Rightarrow> bool" where
  "tidy ok base st \<longleftrightarrow> (\<exists>R. mset (lo_unclosed (snd st)) = base + mset (fst st) + R \<and> (\<forall>h \<in># R. ok h))"

definition kept :: "(bpf_handle \<Rightarrow> bool) \<Rightarrow> 'a loading \<Rightarrow> ('a \<Rightarrow> bpf_handle list) \<Rightarrow> bool" where
  "kept ok m own \<longleftrightarrow> (\<exists>Q E. handles {#} m Q E \<and> (\<forall>x. \<exists>R. Q x = mset (own x) + R \<and> (\<forall>h \<in># R. ok h)) \<and> (\<forall>e. \<forall>h \<in># E e. ok h))"

lemma keptI:
  "handles {#} m Q E \<Longrightarrow> (\<And>x. \<exists>R. Q x = mset (own x) + R \<and> (\<forall>h \<in># R. ok h)) \<Longrightarrow> (\<And>e h. h \<in># E e \<Longrightarrow> ok h) \<Longrightarrow> kept ok m own"
  unfolding kept_def by blast

lemma tidy_add:
  assumes "tidy ok base (defers, s)" "mset (lo_unclosed s1) = mset (lo_unclosed s) + mset hs + R" "\<forall>h \<in># R. ok h"
  shows "tidy ok base (defers @ hs, s1)"
proof -
  obtain R0 where "mset (lo_unclosed s) = base + mset defers + R0" "\<forall>h \<in># R0. ok h" using assms(1) by (auto simp: tidy_def)
  then have "mset (lo_unclosed s1) = base + mset (defers @ hs) + (R0 + R)" "\<forall>h \<in># R0 + R. ok h"
    using assms(2,3) by (auto simp: ac_simps)
  then show ?thesis unfolding tidy_def by auto
qed

lemma optional_tidy:
  assumes "kept ok m own" "tidy ok base st"
  shows "tidy ok base (snd (optional m own st))"
proof -
  obtain defers s where st: "st = (defers, s)" by fastforce
  obtain Q E where h: "handles {#} m Q E" "\<And>x. \<exists>R. Q x = mset (own x) + R \<and> (\<forall>h \<in># R. ok h)" "\<And>e. \<forall>h \<in># E e. ok h"
    using assms(1) unfolding kept_def by blast
  obtain r s1 where r: "m s = (r, s1)" by fastforce
  then have o: "case r of Inl e \<Rightarrow> mset (lo_unclosed s1) = mset (lo_unclosed s) + E e | Inr x \<Rightarrow> mset (lo_unclosed s1) = mset (lo_unclosed s) + Q x"
    using handlesD [OF h(1), of s "mset (lo_unclosed s)" r s1] by simp
  show ?thesis
  proof (cases r)
    case (Inl e)
    then show ?thesis using r o h(3) [of e] assms(2) tidy_add [of ok base defers s s1 "[]" "E e"] by (simp add: optional_def st)
  next
    case (Inr x)
    obtain R where "Q x = mset (own x) + R" "\<forall>h \<in># R. ok h" using h(2) by blast
    then show ?thesis using Inr r o assms(2) tidy_add [of ok base defers s s1 "own x" R] by (simp add: optional_def st ac_simps)
  qed
qed

lemma unless_tidy: "tidy ok base st \<Longrightarrow> (\<not> skip \<Longrightarrow> tidy ok base (snd (f st))) \<Longrightarrow> tidy ok base (snd (unless skip f st))"
  by (simp add: unless_def)

text \<open>Of the objects loaded by the observer only collections stay, and probes of a module that failed halfway.\<close>

fun unowned :: "bpf_handle \<Rightarrow> bool" where
  "unowned (BCollection p) = True"
| "unowned (BTracepoint cat ev) = True"
| "unowned _ = False"

lemma dropped_unowned: "h \<in># dropped L r ps e \<Longrightarrow> unowned h"
  by (auto simp: dropped_def probe_link_def split: sum.splits if_splits)

lemma held_handles: "held r = mset (ld_handles r)"
  by (auto simp: held_def ld_handles_def split: option.splits)

lemma kept_loaders:
  "kept unowned (loadMemory L p) ld_handles" "kept unowned (loadIO L p) ld_handles" "kept unowned (loadNetwork L p) ld_handles"
  "kept unowned (loadSyscall L p) ld_handles" "kept unowned (loadDNS L p tm) ld_handles" "kept unowned (loadEscape L p tm) ld_handles"
  unfolding loadIO_def loadNetwork_def loadSyscall_def
  by (rule keptI [OF loadMemory_handles] keptI [OF load_metric_handles] keptI [OF loadDNS_handles] keptI [OF loadEscape_handles],
      force simp: held_handles, auto intro: dropped_unowned)+

lemma kept_pairs:
  "kept unowned (loadExecWithColl L p) (\<lambda>(r, c). ld_handles r @ [BCollection p])"
  "kept unowned (loadLineageFromExec L c) (\<lambda>(r, tm). ld_handles r)"
  "kept unowned (loadPrivEsc L p tm) (\<lambda>(r, cap). ld_handles r)"
  by (rule keptI [OF loadExec_handles] keptI [OF loadLineageFromExec_handles] keptI [OF loadPrivEsc_handles],
      force simp: held_handles, auto intro: dropped_unowned)+

lemma observer_load_tidy:
  assumes "observer_load L p s = (Some ls, st)"
  shows "tidy unowned (mset (lo_unclosed s)) st"
proof -
  obtain cpu c s1 where cpu: "loadCPU L (op_cpu p) s = (Inr (cpu, c), s1)"
    using assms by (auto simp: observer_load_def split: prod.splits sum.splits)
  then have "mset (lo_unclosed s1) = mset (lo_unclosed s) + ({#BCollection (op_cpu p)#} + held cpu)"
    using handlesD [OF loadCPU_handles _ cpu, of "mset (lo_unclosed s)"] by simp
  moreover have "ld_reader cpu = None"
    using cpu by (auto simp: loadCPU_def lbind_def lreturn_def split: prod.splits sum.splits)
  ultimately have t0: "tidy unowned (mset (lo_unclosed s)) (ld_links cpu @ [BCollection (op_cpu p)], s1)"
    by (simp add: tidy_def held_def)
  note k = kept_loaders [THEN optional_tidy] kept_pairs [THEN optional_tidy, unfolded case_prod_beta]
  have "tidy unowned (mset (lo_unclosed s)) (snd (observer_load L p s))"
    unfolding observer_load_def cpu Let_def case_prod_beta prod.sel sum.case
    by (intro unless_tidy k t0)
  then show ?thesis using assms by simp
qed

fun reads_or_kprobes :: "bpf_handle \<Rightarrow> bool" where
  "reads_or_kprobes (BReader m) = True"
| "reads_or_kprobes (BKprobe k) = True"
| "reads_or_kprobes _ = False"

lemma observer_shutdown_releases:
  assumes "observer_load L p s = (Some ls, st)"
  shows "filter_mset reads_or_kprobes (mset (lo_unclosed (observer_shutdown st))) = filter_mset reads_or_kprobes (mset (lo_unclosed s))"
proof -
  obtain R where R: "mset (lo_unclosed (snd st)) = mset (lo_unclosed s) + mset (fst st) + R" "\<forall>h \<in># R. unowned h"
    using observer_load_tidy [OF assms] unfolding tidy_def by blast
  then have "\<forall>h \<in># R. \<not> reads_or_kprobes h" by (metis reads_or_kprobes.simps(3,4) unowned.elims(2))
  then have "filter_mset reads_or_kprobes R = {#}" by (auto simp: multiset_eq_iff not_in_iff [symmetric])
  moreover have "mset (lo_unclosed (observer_shutdown st)) = mset (lo_unclosed s) + R"
    using R(1) by (simp add: observer_shutdown_def)
  ultimately show ?thesis by simp
qed

lemma observer_load_modules:
  assumes "observer_load L p s = (Some ls, st)"
  shows "ls_Lineage ls \<longrightarrow> ls_Exec ls" "ls_DNS ls \<or> ls_PrivEsc ls \<or> ls_Escape ls \<longrightarrow> ls_Lineage ls"
  using assms by (auto simp: observer_load_def unless_def Let_def case_prod_beta split: sum.splits prod.splits if_splits)

end
