(* ===== verification/ExecRecords.thy ===== *)
theory ExecRecords
  imports SecurityCollectors
begin

text \<open>
  The execve record as the probe writes it (\<open>ebpf/security/exec.c\<close>), byte by byte, and what
  the collector makes of it. The probe assembles the record in a scratch slot that keeps the
  bytes of earlier records, cuts the path and each argument to their room, and stops after
  twenty arguments or when the argument buffer has no room for one more. The strings of the
  caller are those it can read; a fault on an argument ends the list. Its upsert into the shared
  process map is not part of the record and is left out.
\<close>

section \<open>The probe\<close>

definition MAX_ARGS :: nat where "MAX_ARGS = 20"
definition MAX_ARG_LEN :: nat where "MAX_ARG_LEN = 128"
definition MAX_TOTAL_LEN :: nat where "MAX_TOTAL_LEN = 2048"
definition EXEC_PATH_LEN :: nat where "EXEC_PATH_LEN = 256"

lemmas probe_sizes = MAX_ARGS_def MAX_ARG_LEN_def MAX_TOTAL_LEN_def EXEC_PATH_LEN_def execPathLen_def execMaxTotalLen_def

text \<open>The bytes of the slot that the probe does not set on every event.\<close>

record exec_scratch =
  es_path :: "8 word list"
  es_argv :: "8 word list"
  es_pad :: "8 word list"

definition scratch_ok :: "exec_scratch \<Rightarrow> bool" where
  "scratch_ok sc \<longleftrightarrow> length (es_path sc) = EXEC_PATH_LEN \<and> length (es_argv sc) = MAX_TOTAL_LEN \<and> length (es_pad sc) = 6"

definition overwrite :: "nat \<Rightarrow> 8 word list \<Rightarrow> 8 word list \<Rightarrow> 8 word list" where
  "overwrite pos bs buf = take pos buf @ bs @ drop (pos + length bs) buf"

text \<open>\<open>bpf_probe_read_user_str\<close>: the string cut to the room, with its zero byte; the length counts it.\<close>

definition user_str :: "nat \<Rightarrow> string \<Rightarrow> 8 word list" where
  "user_str room s = take (room - 1) (str_bytes s) @ [0]"

text \<open>The argument loop: its position, the number of arguments, the buffer and the truncation mark.\<close>

fun probe_args :: "nat \<Rightarrow> string list \<Rightarrow> nat \<Rightarrow> nat \<Rightarrow> 8 word list \<Rightarrow> nat \<times> nat \<times> 8 word list \<times> bool" where
  "probe_args 0 args pos argc buf = (pos, argc, buf, False)"
| "probe_args (Suc n) args pos argc buf =
     (if MAX_TOTAL_LEN - MAX_ARG_LEN \<le> pos then (pos, argc, buf, True)
      else case args of
        [] \<Rightarrow> (pos, argc, buf, False)
      | a # as \<Rightarrow> (let w = user_str MAX_ARG_LEN a
                  in probe_args n as ((pos + length w) mod MAX_TOTAL_LEN) (argc + 1) (overwrite pos w buf)))"

definition trace_exec ::
  "64 word \<Rightarrow> 64 word \<Rightarrow> 32 word \<Rightarrow> 32 word option \<Rightarrow> string \<Rightarrow> string list \<Rightarrow> exec_scratch \<Rightarrow> 8 word list \<times> exec_scratch" where
  "trace_exec cg ts tgid parent path args sc =
     (let w = user_str EXEC_PATH_LEN path;
          p = overwrite 0 w (es_path sc);
          (pos, argc, v, truncated) = probe_args MAX_ARGS args 0 0 (es_argv sc);
          ppid = (case parent of None \<Rightarrow> 0 | Some q \<Rightarrow> q)
      in (le_bytes 8 (unat cg) @ le_bytes 8 (unat ts) @ le_bytes 4 (unat tgid) @ le_bytes 4 (unat ppid) @ p @ v
            @ le_bytes 4 argc @ le_bytes 4 pos @ [of_bool truncated, of_bool (EXEC_PATH_LEN \<le> length w)] @ es_pad sc,
          sc\<lparr>es_path := p, es_argv := v\<rparr>))"

section \<open>What is captured\<close>

text \<open>
  The arguments the record holds, in terms of the command line alone: each cut to 127 bytes, at
  most twenty, and none that would start at byte 1920 or later.
\<close>

fun captured :: "nat \<Rightarrow> nat \<Rightarrow> string list \<Rightarrow> string list" where
  "captured 0 pos args = []"
| "captured (Suc n) pos [] = []"
| "captured (Suc n) pos (a # as) =
     (if 1920 \<le> pos then [] else take 127 a # captured n (pos + length (take 127 a) + 1) as)"

definition packed_args :: "string list \<Rightarrow> 8 word list" where
  "packed_args args = concat (map (\<lambda>a. str_bytes a @ [0]) args)"

definition c_string :: "string \<Rightarrow> bool" where
  "c_string s \<longleftrightarrow> CHR 0x00 \<notin> set s"

lemma packed_args_simps [simp]:
  "packed_args [] = []" "packed_args (a # as) = str_bytes a @ 0 # packed_args as"
  by (simp_all add: packed_args_def)

lemma length_str_bytes [simp]: "length (str_bytes s) = length s"
  by (simp add: str_bytes_def)

lemma take_str_bytes: "take n (str_bytes s) = str_bytes (take n s)"
  by (simp add: str_bytes_def take_map)

lemma user_str_arg: "user_str MAX_ARG_LEN a = str_bytes (take 127 a) @ [0]"
  by (simp add: user_str_def MAX_ARG_LEN_def take_str_bytes)

lemma captured_len: "length (captured n pos args) \<le> n"
  by (induction n pos args rule: captured.induct) auto

lemma captured_room:
  "pos < 2048 \<Longrightarrow> pos + length (packed_args (captured n pos args)) < 2048"
proof (induction n pos args rule: captured.induct)
  case (3 n pos a as)
  show ?case
  proof (cases "1920 \<le> pos")
    case False
    then have "pos + length (take 127 a) + 1 < 2048" by simp
    from 3(1) [OF False this] show ?thesis using False by simp
  qed (use 3 in simp)
qed simp_all

text \<open>The loop writes the captured arguments from its position on and leaves the bytes before it.\<close>

lemma probe_args_result:
  assumes "pos < 2048" "length buf = 2048"
  shows "\<exists>rest t. probe_args n args pos argc buf =
      (pos + length (packed_args (captured n pos args)), argc + length (captured n pos args),
       take pos buf @ packed_args (captured n pos args) @ rest, t)
    \<and> length (take pos buf @ packed_args (captured n pos args) @ rest) = 2048
    \<and> (t \<longleftrightarrow> length (captured n pos args) < n \<and> 1920 \<le> pos + length (packed_args (captured n pos args)))"
  using assms
proof (induction n arbitrary: args pos argc buf)
  case 0
  then show ?case by (intro exI [of _ "drop pos buf"] exI [of _ False]) simp
next
  case (Suc n)
  show ?case
  proof (cases "1920 \<le> pos")
    case True
    then have "captured (Suc n) pos args = []" by (cases args) auto
    then show ?thesis using True Suc.prems
      by (intro exI [of _ "drop pos buf"] exI [of _ True]) (simp add: probe_sizes)
  next
    case room: False
    show ?thesis
    proof (cases args)
      case Nil
      then show ?thesis using room Suc.prems
        by (intro exI [of _ "drop pos buf"] exI [of _ False]) (simp add: probe_sizes)
    next
      case (Cons a as)
      let ?w = "str_bytes (take 127 a) @ [0]"
      let ?pos = "pos + length (take 127 a) + 1" and ?buf = "overwrite pos ?w buf"
      have p: "?pos < 2048" using room by simp
      have b: "length ?buf = 2048" "take ?pos ?buf = take pos buf @ ?w"
        using p Suc.prems by (simp_all add: overwrite_def)
      have step: "probe_args (Suc n) args pos argc buf = probe_args n as ?pos (Suc argc) ?buf"
        using Cons room p by (simp add: user_str_arg Let_def) (simp add: probe_sizes)
      have c: "captured (Suc n) pos args = take 127 a # captured n ?pos as" using Cons room by simp
      obtain rest t where r: "probe_args n as ?pos (Suc argc) ?buf =
          (?pos + length (packed_args (captured n ?pos as)), Suc argc + length (captured n ?pos as),
           take ?pos ?buf @ packed_args (captured n ?pos as) @ rest, t)"
        "length (take ?pos ?buf @ packed_args (captured n ?pos as) @ rest) = 2048"
        "t \<longleftrightarrow> length (captured n ?pos as) < n \<and> 1920 \<le> ?pos + length (packed_args (captured n ?pos as))"
        using Suc.IH [OF p b(1), of as "Suc argc"] by blast
      show ?thesis
        unfolding step r(1) b(2) c using r(2,3) unfolding b(2)
        by (intro exI [of _ rest] exI [of _ t]) (simp add: add.assoc)
    qed
  qed
qed

text \<open>A command line that fits is captured whole.\<close>

lemma captured_all:
  "length args \<le> n \<Longrightarrow> \<forall>a \<in> set args. length a \<le> 127 \<Longrightarrow> pos + length (packed_args args) \<le> 1920 \<Longrightarrow> captured n pos args = args"
  by (induction n pos args rule: captured.induct) auto

section \<open>The collector\<close>

lemma str_bytes_nonzero: "c_string s \<Longrightarrow> b \<in> set (str_bytes s) \<Longrightarrow> b \<noteq> 0"
proof -
  assume s: "c_string s" and "b \<in> set (str_bytes s)"
  then obtain c where c: "c \<in> set s" "b = of_nat (of_char c)" by (auto simp: str_bytes_def)
  have "(of_char c :: nat) < 256" by simp
  then have "unat b = of_char c" by (simp add: c(2) unat_of_nat)
  moreover have "(of_char c :: nat) \<noteq> 0" using c(1) s by (intro of_char_nonzero) (auto simp: c_string_def)
  ultimately show "b \<noteq> 0" by auto
qed

lemma c_string_take: "c_string s \<Longrightarrow> c_string (take n s)"
  by (auto simp: c_string_def dest: in_set_takeD)

lemma captured_strings: "\<forall>a \<in> set args. c_string a \<Longrightarrow> \<forall>a \<in> set (captured n pos args). c_string a"
  by (induction n pos args rule: captured.induct) (auto simp: c_string_take)

text \<open>Decoding drops the empty arguments.\<close>

lemma argv_loop_zero: "argv_loop (0 # d) = argv_loop d"
  by (subst argv_loop.simps) simp

lemma argv_loop_packed:
  "\<forall>a \<in> set args. c_string a \<Longrightarrow> argv_loop (packed_args args) = filter (\<lambda>a. a \<noteq> []) args"
proof (induction args)
  case Nil
  then show ?case by (simp add: argv_loop.simps)
next
  case (Cons a args)
  have "bytes_str (str_bytes a) = a" by simp
  moreover have "str_bytes a \<noteq> [] \<longleftrightarrow> a \<noteq> []" by (simp add: str_bytes_def)
  ultimately show ?case
    using Cons argv_loop_cons [of "str_bytes a" "packed_args args"] str_bytes_nonzero [of a]
    by (cases "a = []") (auto simp: argv_loop_zero str_bytes_def)
qed

lemma decodeArgv_captured:
  assumes "\<forall>a \<in> set args. c_string a" "length (packed_args args) < 2048"
  shows "decodeArgv (packed_args args @ rest) (of_nat (length (packed_args args))) = filter (\<lambda>a. a \<noteq> []) args"
proof -
  have "unat (of_nat (length (packed_args args)) :: 32 word) = length (packed_args args)"
    using assms(2) by (simp add: unat_of_nat)
  moreover have "packed_args args = [] \<Longrightarrow> args = []" by (cases args) auto
  ultimately show ?thesis using argv_loop_packed [OF assms(1)] by (auto simp: decodeArgv_def)
qed

lemma user_str_path: "c_string path \<Longrightarrow> nullTermStr (overwrite 0 (user_str EXEC_PATH_LEN path) buf) = take 255 path"
  using nullTermStr_padded [of "take 255 path"] c_string_take [of path 255]
  by (simp add: overwrite_def user_str_def EXEC_PATH_LEN_def take_str_bytes c_string_def)

lemma length_overwrite: "pos + length bs \<le> length buf \<Longrightarrow> length (overwrite pos bs buf) = length buf"
  by (simp add: overwrite_def)

text \<open>The fields of a record come back from the bytes.\<close>

lemma segment: "length pre = n \<Longrightarrow> length x = k \<Longrightarrow> take k (drop n (pre @ x @ post)) = x"
  by simp

lemma segment_byte: "length pre = n \<Longrightarrow> (pre @ x # post) ! n = x"
  by auto

lemma parse_segments:
  assumes "length a = 8" "length b = 8" "length c = 4" "length d = 4" "length p = 256" "length v = 2048" "length n = 4" "length l = 4"
    and r: "r = parseExecEvent (a @ b @ c @ d @ p @ v @ n @ l @ [vt, pt] @ pad)"
  shows "xr_CgroupID r = u64_at 0 a" "xr_TsNs r = u64_at 0 b" "xr_TGID r = u32_at 0 c" "xr_PPID r = u32_at 0 d" "xr_Path r = p"
    "xr_Argv r = v" "xr_ArgvCount r = u32_at 0 n" "xr_ArgvTotalLen r = u32_at 0 l" "xr_ArgvTruncated r = vt" "xr_PathTruncated r = pt"
proof -
  let ?e = "[vt, pt] @ pad"
  have t: "take 8 (drop 0 (a @ b @ c @ d @ p @ v @ n @ l @ ?e)) = a" "take 8 (drop 8 (a @ b @ c @ d @ p @ v @ n @ l @ ?e)) = b"
    "take 4 (drop 16 (a @ b @ c @ d @ p @ v @ n @ l @ ?e)) = c" "take 4 (drop 20 (a @ b @ c @ d @ p @ v @ n @ l @ ?e)) = d"
    "take 256 (drop 24 (a @ b @ c @ d @ p @ v @ n @ l @ ?e)) = p" "take 2048 (drop 280 (a @ b @ c @ d @ p @ v @ n @ l @ ?e)) = v"
    "take 4 (drop 2328 (a @ b @ c @ d @ p @ v @ n @ l @ ?e)) = n" "take 4 (drop 2332 (a @ b @ c @ d @ p @ v @ n @ l @ ?e)) = l"
    using segment [of "[]" 0 a 8] segment [of a 8 b 8] segment [of "a @ b" 16 c 4] segment [of "a @ b @ c" 20 d 4]
      segment [of "a @ b @ c @ d" 24 p 256] segment [of "a @ b @ c @ d @ p" 280 v 2048]
      segment [of "a @ b @ c @ d @ p @ v" 2328 n 4] segment [of "a @ b @ c @ d @ p @ v @ n" 2332 l 4]
    by (simp_all only: assms(1-8) append_assoc append_Nil length_append list.size)
  have n: "(a @ b @ c @ d @ p @ v @ n @ l @ ?e) ! 2336 = vt" "(a @ b @ c @ d @ p @ v @ n @ l @ ?e) ! 2337 = pt"
    using segment_byte [of "a @ b @ c @ d @ p @ v @ n @ l" 2336 vt "pt # pad"]
      segment_byte [of "a @ b @ c @ d @ p @ v @ n @ l @ [vt]" 2337 pt pad]
    by (simp_all only: assms(1-8) append_assoc append_Nil append_Cons length_append list.size)
  have w: "u64_at 0 x = of_nat (le_nat (take 8 x))" "u32_at 0 x = of_nat (le_nat (take 4 x))" for x
    by (simp_all add: u64_at_def u32_at_def)
  have whole: "take 8 a = a" "take 8 b = b" "take 4 c = c" "take 4 d = d" "take 4 n = n" "take 4 l = l"
    using assms(1-8) by simp_all
  have o: "(24 :: nat) + 256 = 280" "(280 :: nat) + 2048 = 2328" "(2328 :: nat) + 4 = 2332" "(2328 :: nat) + 8 = 2336"
    "(2328 :: nat) + 9 = 2337" by simp_all
  note q = r [unfolded parseExecEvent_def Let_def u64_at_def u32_at_def execPathLen_def execMaxTotalLen_def o]
  show "xr_CgroupID r = u64_at 0 a" "xr_TsNs r = u64_at 0 b" "xr_TGID r = u32_at 0 c" "xr_PPID r = u32_at 0 d" "xr_Path r = p"
    "xr_Argv r = v" "xr_ArgvCount r = u32_at 0 n" "xr_ArgvTotalLen r = u32_at 0 l" "xr_ArgvTruncated r = vt" "xr_PathTruncated r = pt"
    by (simp_all only: q w whole execEventRaw.simps t n)
qed

lemma parse_record:
  assumes "length p = 256" "length v = 2048" "argc < 2 ^ 32" "pos < 2 ^ 32"
    and r: "r = parseExecEvent (le_bytes 8 (unat cg) @ le_bytes 8 (unat ts) @ le_bytes 4 (unat pid) @ le_bytes 4 (unat ppid)
      @ p @ v @ le_bytes 4 argc @ le_bytes 4 pos @ [vt, pt] @ pad)"
  shows "xr_CgroupID r = cg" "xr_TsNs r = ts" "xr_TGID r = pid" "xr_PPID r = ppid" "xr_Path r = p" "xr_Argv r = v"
    "xr_ArgvCount r = of_nat argc" "xr_ArgvTotalLen r = of_nat pos" "xr_ArgvTruncated r = vt" "xr_PathTruncated r = pt"
proof -
  have u: "u64_at 0 (le_bytes 8 (unat w)) = w" "u32_at 0 (le_bytes 4 (unat w')) = w'" for w w'
    using u64_bytes [of "[]" w "[]"] u32_bytes [of "[]" w' "[]"] by (simp_all only: append_Nil append_Nil2 list.size)
  have m: "unat (of_nat argc :: 32 word) = argc" "unat (of_nat pos :: 32 word) = pos"
    using assms(3,4) by (simp_all add: unat_of_nat)
  have n: "u32_at 0 (le_bytes 4 argc) = of_nat argc" "u32_at 0 (le_bytes 4 pos) = of_nat pos"
    using u(2) [of "of_nat argc"] u(2) [of "of_nat pos"] by (simp_all only: m)
  note s = parse_segments [OF _ _ _ _ assms(1,2) _ _ r]
  show "xr_CgroupID r = cg" "xr_TsNs r = ts" "xr_TGID r = pid" "xr_PPID r = ppid" "xr_Path r = p" "xr_Argv r = v"
    "xr_ArgvCount r = of_nat argc" "xr_ArgvTotalLen r = of_nat pos" "xr_ArgvTruncated r = vt" "xr_PathTruncated r = pt"
    by (simp_all only: s length_le_bytes u n)
qed

text \<open>So the slot's earlier bytes never show in the event.\<close>

lemma exec_envelope_recovered:
  assumes "c_string path" "\<forall>a \<in> set args. c_string a" "scratch_ok sc"
    and ev: "ev = fst (execEventToEnvelope env lin (parseExecEvent (fst (trace_exec cg ts tgid parent path args sc))) st)"
    and cap: "cap = captured 20 0 args"
  shows "ee_CgroupID ev = cg \<and> ee_PID ev = tgid \<and> ee_PPID ev = (case parent of None \<Rightarrow> 0 | Some q \<Rightarrow> q)
    \<and> ee_Process ev = base_name (take 255 path)
    \<and> map_of (ee_Metadata ev) ''full_path'' = Some (AnyString (take 255 path))
    \<and> map_of (ee_Metadata ev) ''path_truncated'' = Some (AnyBool (255 \<le> length path))
    \<and> map_of (ee_Metadata ev) ''argv'' = Some (AnyStrings (filter (\<lambda>a. a \<noteq> []) cap))
    \<and> map_of (ee_Metadata ev) ''arg_count'' = Some (AnyUint32 (of_nat (length cap)))
    \<and> map_of (ee_Metadata ev) ''argv_truncated'' = Some (AnyBool (length cap < 20 \<and> 1920 \<le> length (packed_args cap)))"
proof -
  let ?w = "user_str EXEC_PATH_LEN path" and ?p = "overwrite 0 (user_str EXEC_PATH_LEN path) (es_path sc)"
  have w: "length ?w \<le> 256" "256 \<le> length ?w \<longleftrightarrow> 255 \<le> length path" by (auto simp: user_str_def EXEC_PATH_LEN_def)
  obtain rest t where r: "probe_args MAX_ARGS args 0 0 (es_argv sc) =
      (length (packed_args cap), length cap, packed_args cap @ rest, t)"
    and v: "length (packed_args cap @ rest) = 2048" "t \<longleftrightarrow> length cap < 20 \<and> 1920 \<le> length (packed_args cap)"
    using probe_args_result [of 0 "es_argv sc" MAX_ARGS args 0] assms(3) by (auto simp: scratch_ok_def probe_sizes cap)
  have b: "length (packed_args cap) < 2048" "length cap \<le> 20"
    using captured_room [of 0 20 args] captured_len [of 20 0 args] by (simp_all add: cap)
  have p: "length ?p = 256" using w(1) assms(3) by (simp add: length_overwrite scratch_ok_def EXEC_PATH_LEN_def)
  have rec: "fst (trace_exec cg ts tgid parent path args sc) =
      le_bytes 8 (unat cg) @ le_bytes 8 (unat ts) @ le_bytes 4 (unat tgid) @ le_bytes 4 (unat (case parent of None \<Rightarrow> 0 | Some q \<Rightarrow> q))
      @ ?p @ (packed_args cap @ rest) @ le_bytes 4 (length cap) @ le_bytes 4 (length (packed_args cap))
      @ [of_bool t, of_bool (EXEC_PATH_LEN \<le> length ?w)] @ es_pad sc"
    by (simp add: trace_exec_def r Let_def)
  have lim: "length cap < 2 ^ 32" "length (packed_args cap) < 2 ^ 32" using b by simp_all
  note P = parse_record [OF p v(1) lim arg_cong [OF rec, of parseExecEvent]]
  have "decodeArgv (packed_args cap @ rest) (of_nat (length (packed_args cap))) = filter (\<lambda>a. a \<noteq> []) cap"
    using decodeArgv_captured [of cap rest] captured_strings [OF assms(2), of 20 0] b by (simp add: cap)
  moreover have "(of_bool q :: 8 word) = 1 \<longleftrightarrow> q" for q by simp
  ultimately show ?thesis
    using P user_str_path [OF assms(1), of "es_path sc"] w(2) v(2)
    by (simp add: ev execEventToEnvelope_def case_prod_beta Let_def) (simp add: EXEC_PATH_LEN_def)
qed

end
