(* ===== verification/TuiDraw.thy ===== *)
theory TuiDraw
  imports TuiApp
begin

text \<open>
  What the terminal interface draws: the \<open>View\<close> methods of the widgets and of the tabs
  (\<open>internal/tui/widgets\<close>, \<open>internal/tui/views\<close>) with their caches. The style library and the
  viewport are parameters: a style is known by its name and the theme it comes from, and gives a
  text for a text; placing a box takes the theme when it colours the space around it; the colour
  a sparkline takes from the theme is left out. \<open>None\<close> is a panic, of
  a negative count of repetitions or of an index out of range.
\<close>

section \<open>Parameters\<close>

record 'vp Drawing =
  dr_Render :: "Theme \<Rightarrow> string \<Rightarrow> string \<Rightarrow> string"
  dr_Width :: "Theme \<Rightarrow> string \<Rightarrow> int \<Rightarrow> string \<Rightarrow> string"
  dr_Panel :: "Theme \<Rightarrow> string \<Rightarrow> int \<Rightarrow> int \<Rightarrow> string \<Rightarrow> string"
  dr_Spark :: "string \<Rightarrow> string"
  dr_JoinH :: "string list \<Rightarrow> string"
  dr_JoinV :: "string list \<Rightarrow> string"
  dr_Place :: "Theme option \<Rightarrow> int \<Rightarrow> int \<Rightarrow> string \<Rightarrow> string"
  dr_Measure :: "string \<Rightarrow> int"
  dr_SetContent :: "string \<Rightarrow> 'vp \<Rightarrow> 'vp"
  dr_View :: "'vp \<Rightarrow> string"
  dr_Clock :: "instant \<Rightarrow> string"
  dr_Millis :: "instant \<Rightarrow> string"
  dr_Date :: "instant \<Rightarrow> string"
  dr_Float :: "f64 \<Rightarrow> string"

definition NL :: string where "NL = [CHR ''\<newline>'']"

definition paint :: "'vp Drawing \<Rightarrow> Theme \<Rightarrow> styled \<Rightarrow> string" where
  "paint D th ps = concat (map (\<lambda>(st, t). if st = ''plain'' then t else dr_Render D th st t) ps)"

definition fmt_0f :: "f64 \<Rightarrow> string" where
  "fmt_0f x = (if x < 0 then ''-'' else []) @ show_nat (nat (rne \<bar>x\<bar>))"

text \<open>The parts of a status line, with a middle dot between them.\<close>

fun dots :: "string list \<Rightarrow> string" where
  "dots [] = []"
| "dots [s] = s"
| "dots (s # t # ts) = s @ ''  '' @ bytes [0xC2, 0xB7] @ ''  '' @ dots (t # ts)"

definition up_down :: string where "up_down = bytes [0xE2, 0x86, 0x91, 0xE2, 0x86, 0x93]"
definition fisheye :: string where "fisheye = bytes [0xE2, 0x97, 0x89]"
definition triangle :: string where "triangle = bytes [0xE2, 0x96, 0xB8]"

section \<open>Widgets\<close>

definition bar_glyph :: "int \<Rightarrow> string" where
  "bar_glyph i = bytes [0xE2, 0x96, 0x81 + nat i]"

definition Spark_View :: "'vp Drawing \<Rightarrow> SparkModel \<Rightarrow> string" where
  "Spark_View D m = pad_right 8 (sk_label m) @ '' ''
     @ dr_Spark D (concat (map bar_glyph (spark_bars m)) @ replicate (nat (spark_pad m)) CHR '' '') @ '' ''
     @ pad_left 6 (fmt_fixed 1 (Latest m)) @ '' '' @ sk_unit m"

definition Search_View :: "'vp Drawing \<Rightarrow> ('ti, 'cmd) TextInput \<Rightarrow> 'ti SearchbarModel \<Rightarrow> int \<Rightarrow> string" where
  "Search_View D T m width =
     (if \<not> sb_visible m then []
      else dr_Render D (sb_theme m) ''BadgeBlue'' '' / '' @ dr_Width D (sb_theme m) ''SearchBox'' (width - 5) (ti_View T (sb_input m)))"

text \<open>The width of the strip is measured without the escape sequences of the styles.\<close>

fun stripAnsi :: "bool \<Rightarrow> string \<Rightarrow> string" where
  "stripAnsi inEsc [] = []"
| "stripAnsi inEsc (c # cs) =
     (if c = CHR 0x1B then stripAnsi True cs
      else if inEsc \<and> c = CHR ''m'' then stripAnsi False cs
      else if inEsc then stripAnsi inEsc cs
      else c # stripAnsi inEsc cs)"

definition tab_label :: "Tab \<Rightarrow> string" where
  "tab_label t = (if tab_Key t \<noteq> [] then '' '' @ tab_Key t @ '':'' @ tab_Title t @ '' '' else '' '' @ tab_Title t @ '' '')"

definition Tabbar_View :: "'vp Drawing \<Rightarrow> TabbarModel \<Rightarrow> string" where
  "Tabbar_View D m =
     (let bar = concat (map (\<lambda>(i, t). dr_Render D (tbar_theme m) (if int i = tbar_active m then ''TabActive'' else ''TabInactive'') (tab_label t))
            (enumerate 0 (tbar_tabs m)));
          pad = tbar_width m - int (length (runes (stripAnsi False bar)))
      in if pad > 0 then bar @ dr_Render D (tbar_theme m) ''TabBar'' (replicate (nat pad) CHR '' '') else bar)"

definition badge_style :: "string \<Rightarrow> string" where
  "badge_style s = (if s = ''green'' then ''BadgeGreen'' else if s = ''yellow'' then ''BadgeYellow'' else if s = ''red'' then ''BadgeRed''
     else if s = ''blue'' then ''BadgeBlue'' else ''BadgeDim'')"

definition Status_View :: "'vp Drawing \<Rightarrow> StatusbarModel \<Rightarrow> string" where
  "Status_View D m = dr_Width D (st_theme m) ''Footer'' (st_width m)
     (''  '' @ st_keyHints m @ replicate (nat (status_gap m)) CHR '' '' @ dr_Render D (st_theme m) (badge_style (st_modeStyle m)) (st_mode m)
       @ st_stats m)"

definition Modal_Render :: "'vp Drawing \<Rightarrow> string \<Rightarrow> int \<Rightarrow> int \<Rightarrow> ModalModel \<Rightarrow> string" where
  "Modal_Render D background termW termH m =
     (if \<not> md_visible m then background
      else dr_Place D (Some (md_theme m)) termW termH
        (dr_Width D (md_theme m) ''ModalBox'' (modal_boxW m termW)
          (dr_JoinV D [dr_Render D (md_theme m) ''ModalTitle'' (md_title m), [], md_content m])))"

text \<open>The first occurrence of the query in the lower-case name; slicing past its end would panic.\<close>

fun find_sub :: "string \<Rightarrow> string \<Rightarrow> nat option" where
  "find_sub q [] = (if q = [] then Some 0 else None)"
| "find_sub q (c # cs) = (if prefix q (c # cs) then Some 0 else map_option Suc (find_sub q cs))"

definition highlightMatch :: "'vp Drawing \<Rightarrow> string \<Rightarrow> string \<Rightarrow> Theme \<Rightarrow> string option" where
  "highlightMatch D name q th =
     (if q = [] then Some (dr_Render D th ''TableRow'' (''  '' @ name))
      else case find_sub (ToLower q) (ToLower name) of
             None \<Rightarrow> Some (dr_Render D th ''TableRow'' (''  '' @ name))
           | Some idx \<Rightarrow>
               if idx + length q > length name then None
               else Some (''  '' @ take idx name @ dr_Render D th ''PaletteMatch'' (take (length q) (drop idx name)) @ drop (idx + length q) name))"

definition palette_line :: "'vp Drawing \<Rightarrow> ('ti, 'cmd) TextInput \<Rightarrow> int \<Rightarrow> ('ti, 'cmd) PaletteModel \<Rightarrow> nat \<times> 'cmd Command \<Rightarrow> string option" where
  "palette_line D T boxW m = (\<lambda>(i, c).
     do { name \<leftarrow> highlightMatch D (pc_Name c @ '' '' @ pc_Args c) (ti_Value T (pa_input m)) (pa_theme m);
          Some (dr_Width D (pa_theme m) (if int i = pa_cursor m then ''TableSelected'' else ''TableRow'') (boxW - 4)
            (dr_JoinH D [name, dr_Render D (pa_theme m) ''TableDim'' (''  '' @ pc_Description c)]) @ NL) })"

definition Palette_View :: "'vp Drawing \<Rightarrow> ('ti, 'cmd) TextInput \<Rightarrow> int \<Rightarrow> int \<Rightarrow> ('ti, 'cmd) PaletteModel \<Rightarrow> string option" where
  "Palette_View D T termW termH m =
     (if \<not> pa_visible m then Some []
      else let boxW = (if termW - 8 < 70 then termW - 8 else 70)
           in do { ls \<leftarrow> those (map (palette_line D T boxW m) (enumerate 0 (take 8 (pa_matches m))));
                   Some (dr_Place D None termW termH (dr_Width D (pa_theme m) ''ModalBox'' boxW
                     (dr_Render D (pa_theme m) ''ModalTitle'' ''  Command Palette'' @ NL @ NL
                       @ dr_Width D (pa_theme m) ''PaletteBox'' (boxW - 4) ('': '' @ ti_View T (pa_input m)) @ NL @ NL @ concat ls))) })"

section \<open>Table tabs\<close>

text \<open>A cached view is kept as its lines; theme and width, which paint them, drop the cache when they change.\<close>

fun line_text :: "'vp Drawing \<Rightarrow> ('r, 'ti) TableView \<Rightarrow> view_line \<Rightarrow> string" where
  "line_text D v (TitleLine t) = dr_Render D (vw_theme v) ''PanelTitle'' t @ NL"
| "line_text D v (TableLine HeaderStyle l) = dr_Render D (tb_theme (vw_tbl v)) ''TableHeader'' l @ NL"
| "line_text D v (TableLine SeparatorStyle l) = dr_Render D (tb_theme (vw_tbl v)) ''Separator'' l @ NL"
| "line_text D v (TableLine SelectedStyle l) = dr_Width D (tb_theme (vw_tbl v)) ''TableSelected'' (tb_width (vw_tbl v)) l @ NL"
| "line_text D v (TableLine AltRowStyle l) = dr_Width D (tb_theme (vw_tbl v)) ''TableAltRow'' (tb_width (vw_tbl v)) l @ NL"
| "line_text D v (TableLine RowStyle l) = dr_Width D (tb_theme (vw_tbl v)) ''TableRow'' (tb_width (vw_tbl v)) l @ NL"
| "line_text D v (TableLine DimStyle l) = dr_Render D (tb_theme (vw_tbl v)) ''TableDim'' l"
| "line_text D v (TableLine PlainStyle l) = l @ NL"
| "line_text D v (SearchLine inp w) = NL @ dr_Render D (sb_theme (vw_search v)) ''BadgeBlue'' '' / ''
     @ dr_Width D (sb_theme (vw_search v)) ''SearchBox'' (w - 5) inp"

definition View_Draw ::
  "'vp Drawing \<Rightarrow> ('ti, 'cmd) TextInput \<Rightarrow> string \<Rightarrow> ('r, 'ti) TableView \<Rightarrow> (string \<times> ('r, 'ti) TableView) option" where
  "View_Draw D T title v = map_option (\<lambda>(ls, v1). (concat (map (line_text D v) ls), v1)) (View_View T (''  '' @ triangle @ title) v)"

definition Cpu_View :: "'vp Drawing \<Rightarrow> ('ti, 'cmd) TextInput \<Rightarrow> (CpuRow, 'ti) TableView \<Rightarrow> (string \<times> (CpuRow, 'ti) TableView) option" where
  "Cpu_View D T = View_Draw D T '' M1 CPU Metrics''"
definition Memory_View :: "'vp Drawing \<Rightarrow> ('ti, 'cmd) TextInput \<Rightarrow> (MemRow, 'ti) TableView \<Rightarrow> (string \<times> (MemRow, 'ti) TableView) option" where
  "Memory_View D T = View_Draw D T '' M2 Memory Metrics''"
definition Io_View :: "'vp Drawing \<Rightarrow> ('ti, 'cmd) TextInput \<Rightarrow> (IoRow, 'ti) TableView \<Rightarrow> (string \<times> (IoRow, 'ti) TableView) option" where
  "Io_View D T = View_Draw D T '' M3 I/O Metrics''"
definition Network_View :: "'vp Drawing \<Rightarrow> ('ti, 'cmd) TextInput \<Rightarrow> (NetRow, 'ti) TableView \<Rightarrow> (string \<times> (NetRow, 'ti) TableView) option" where
  "Network_View D T = View_Draw D T '' M4 Network Metrics''"
definition Syscall_View :: "'vp Drawing \<Rightarrow> ('ti, 'cmd) TextInput \<Rightarrow> (SysRow, 'ti) TableView \<Rightarrow> (string \<times> (SysRow, 'ti) TableView) option" where
  "Syscall_View D T = View_Draw D T '' M6 Syscall Top-5 per Container''"

definition Cpu_StatusLine :: string where
  "Cpu_StatusLine = dots [''M1 CPU'', ''s/S sort'', ''/ filter'', ''enter detail'', ''NUMA=cpu.stat migrations proxy'']"
definition Memory_StatusLine :: string where
  "Memory_StatusLine = dots [''M2 Memory'', ''s/S sort'', ''/ filter'', ''enter detail'', ''PSI=pressure'',
     ''TLBMiss/s'' @ bytes [0xE2, 0x89, 0x88] @ ''minFaults/s'']"
definition Io_StatusLine :: string where "Io_StatusLine = dots [''M3 I/O'', ''s/S sort'', ''/ filter'', ''enter detail'']"
definition Network_StatusLine :: string where "Network_StatusLine = dots [''M4 Network'', ''s/S sort'', ''/ filter'', ''enter detail'']"
definition Syscall_StatusLine :: string where "Syscall_StatusLine = dots [''M6 Syscalls'', ''s/S sort'', ''/ filter'', ''enter detail'']"

section \<open>Events\<close>

definition thunder :: string where "thunder = bytes [0xE2, 0x9A, 0xA1]"

definition follow_bottom :: "('vp, 'cmd) Viewport \<Rightarrow> bool \<Rightarrow> 'vp \<Rightarrow> 'vp" where
  "follow_bottom V follow vp = (if follow then vp_GotoBottom V vp else vp)"

definition Events_View :: "'vp Drawing \<Rightarrow> ('ti, 'cmd) TextInput \<Rightarrow> ('vp, 'cmd) Viewport \<Rightarrow> ('ti, 'vp) EventsView \<Rightarrow> string \<times> ('ti, 'vp) EventsView" where
  "Events_View D T V v =
     (if \<not> ev_dirty v \<and> ev_cached v \<noteq> [] then (ev_cached v, v)
      else let lines = map (paint D (ev_theme v)) (buildLines (dr_Float D) (dr_Clock D) v);
               vp = follow_bottom V (ev_follow v) (dr_SetContent D (join_with CHR ''\<newline>'' lines) (ev_vp v));
               out = dr_Render D (ev_theme v) ''PanelTitle'' (''  '' @ thunder @ '' Real-time Events  ['' @ show_nat (length (ev_events v)) @ '']'') @ NL
                 @ dr_View D vp @ (if Search_Visible (ev_search v) then NL @ Search_View D T (ev_search v) (ev_w v) else [])
           in (out, v\<lparr>ev_vp := vp, ev_cached := out, ev_dirty := False\<rparr>))"

definition Events_StatusLine :: "('ti, 'vp) EventsView \<Rightarrow> string" where
  "Events_StatusLine v = dots [''Events ['' @ show_nat (length (ev_events v)) @ '']  '' @ (if ev_follow v then ''LIVE'' else ''PAUSED''),
     ''G live'', ''/ filter'', up_down @ '' scroll'']"

section \<open>Graphs\<close>

definition graph_block :: "'vp Drawing \<Rightarrow> Theme \<Rightarrow> string \<Rightarrow> string \<times> ContainerGraphs \<Rightarrow> string" where
  "graph_block D th sep = (\<lambda>(n, g).
     ''  '' @ dr_Render D th ''BadgeBlue'' ('' '' @ fisheye @ '' '') @ '' '' @ dr_Render D th ''label'' n @ NL
       @ concat (map (\<lambda>m. ''  '' @ Spark_View D m @ NL) [cg_cpu g, cg_mem g, cg_ioRead g, cg_ioWrt g, cg_net g]) @ sep @ NL)"

definition Graphs_buildContent :: "'vp Drawing \<Rightarrow> 'vp GraphsView \<Rightarrow> string option" where
  "Graphs_buildContent D v =
     (if gv_graphs v = [] then Some (dr_Render D (gv_theme v) ''TableDim'' (''  Waiting for container data'' @ ellipsis))
      else map_option (\<lambda>rule. concat (map (graph_block D (gv_theme v) (dr_Render D (gv_theme v) ''Separator'' rule)) (graphs_drawn v)))
             (Repeat hline (gv_w v)))"

definition Graphs_View :: "'vp Drawing \<Rightarrow> 'vp GraphsView \<Rightarrow> (string \<times> 'vp GraphsView) option" where
  "Graphs_View D v =
     (if \<not> gv_dirty v \<and> gv_cached v \<noteq> [] then Some (gv_cached v, v)
      else do { content \<leftarrow> Graphs_buildContent D v;
                let vp = dr_SetContent D content (gv_vp v);
                let out = dr_Render D (gv_theme v) ''PanelTitle'' (''  '' @ triangle @ '' System Graphs  ['' @ show_nat (length (gv_graphs v)) @ '' containers]'')
                  @ NL @ dr_View D vp;
                Some (out, v\<lparr>gv_vp := vp, gv_cached := out, gv_dirty := False\<rparr>) })"

definition Graphs_StatusLine :: "'vp GraphsView \<Rightarrow> string" where
  "Graphs_StatusLine v = dots [''Graphs ['' @ show_nat (length (gv_graphs v)) @ '' containers]'', up_down @ '' scroll'', ''g top'', ''G bottom'']"

section \<open>Overview\<close>

text \<open>
  The overview keeps the batch it got, and the tables that get the batch after it sort the
  slices both share in place: what it draws are the sorted samples.
\<close>

definition as_sorted :: "DataBatch \<Rightarrow> DataBatch" where
  "as_sorted b = b\<lparr>db_CPU := sort_key (\<lambda>s. - cm_CPUSeconds s) (db_CPU b),
     db_Mem := sort_key (\<lambda>s. - uint (ms_MemoryBytes s)) (db_Mem b),
     db_IO := sort_key (\<lambda>s. - f64_add (is_ReadBytesPerSec s) (is_WriteBytesPerSec s)) (db_IO b)\<rparr>"

definition cpu_card :: "'vp Drawing \<Rightarrow> (string \<times> cpuHist) list \<Rightarrow> CpuSample \<Rightarrow> string option" where
  "cpu_card D hs s = map_option (\<lambda>h. ''  '' @ pad_right 22 (view_trunc (cm_ContainerName s) 22) @ ''  '' @ pad_right 28 (Spark_View D (hi_cpu h))
     @ ''  '' @ pad_left 10 (fmt_fixed 4 (cm_CPUSeconds s)) @ ''  '' @ pad_left 9 (show_word (cm_ThreadCount s)) @ NL)
     (map_of hs (cm_ContainerName s))"

definition mem_card :: "'vp Drawing \<Rightarrow> (string \<times> cpuHist) list \<Rightarrow> MemSample \<Rightarrow> string option" where
  "mem_card D hs s = map_option (\<lambda>h. ''  '' @ pad_right 22 (view_trunc (ms_ContainerName s) 22) @ ''  '' @ pad_right 28 (Spark_View D (hi_mem h))
     @ ''  '' @ pad_left 10 (fmt_fixed 2 (to_mb (ms_MemoryBytes s))) @ NL)
     (map_of hs (ms_ContainerName s))"

definition io_card :: "IoSample \<Rightarrow> string" where
  "io_card s = ''  '' @ pad_right 22 (view_trunc (is_ContainerName s) 22) @ ''  '' @ pad_left 12 (fmt_fixed 2 (f64_div (is_ReadBytesPerSec s) 1024))
     @ ''  '' @ pad_left 12 (fmt_fixed 2 (f64_div (is_WriteBytesPerSec s) 1024)) @ NL"

definition card_head :: "'vp Drawing \<Rightarrow> Theme \<Rightarrow> string \<Rightarrow> string \<Rightarrow> string" where
  "card_head D th title cols = dr_Render D th ''PanelTitle'' (triangle @ '' '' @ title) @ NL @ dr_Render D th ''TableHeader'' cols @ NL"

definition batch_hists :: "DataBatch \<Rightarrow> (string \<times> cpuHist) list \<Rightarrow> (string \<times> cpuHist) list" where
  "batch_hists b hs = fold (\<lambda>s. ensureHist (ms_ContainerName s)) (db_Mem b) (fold (\<lambda>s. ensureHist (cm_ContainerName s)) (db_CPU b) hs)"

definition renderBatch :: "'vp Drawing \<Rightarrow> 'vp OverviewView \<Rightarrow> DataBatch \<Rightarrow> (string \<times> (string \<times> cpuHist) list) option" where
  "renderBatch D v b =
     (let th = ov_theme v; hs = batch_hists b (ov_hists v)
      in do { rule \<leftarrow> Repeat hline (ov_w v - 12);
              cpu \<leftarrow> those (map (cpu_card D hs) (db_CPU b));
              mem \<leftarrow> those (map (mem_card D hs) (db_Mem b));
              Some (dr_Render D th ''TableDim'' (''  '' @ dr_Clock D (db_Timestamp b) @ ''  '') @ dr_Render D th ''Separator'' rule @ NL @ NL
                @ card_head D th ''CPU'' (''  '' @ pad_right 22 ''Container'' @ ''  '' @ pad_right 28 ''CPU sparkline'' @ ''  ''
                    @ pad_left 10 delta_title @ ''  '' @ pad_left 9 ''Threads'') @ concat cpu @ NL
                @ card_head D th ''Memory'' (''  '' @ pad_right 22 ''Container'' @ ''  '' @ pad_right 28 ''MEM sparkline'' @ ''  ''
                    @ pad_left 10 ''RSS (MB)'') @ concat mem @ NL
                @ card_head D th ''I/O'' (''  '' @ pad_right 22 ''Container'' @ ''  '' @ pad_left 12 ''Read KB/s'' @ ''  '' @ pad_left 12 ''Write KB/s'')
                @ concat (map io_card (db_IO b)) @ NL, hs) })"

definition overview_content :: "'vp Drawing \<Rightarrow> 'vp OverviewView \<Rightarrow> (string \<times> (string \<times> cpuHist) list) option" where
  "overview_content D v =
     (if ov_batches v = [] then Some (dr_Render D (ov_theme v) ''TableDim'' (''  Waiting for first batch'' @ ellipsis), ov_hists v)
      else renderBatch D v (as_sorted (last (ov_batches v))))"

definition Overview_View :: "'vp Drawing \<Rightarrow> ('vp, 'cmd) Viewport \<Rightarrow> 'vp OverviewView \<Rightarrow> (string \<times> 'vp OverviewView) option" where
  "Overview_View D V v =
     (if \<not> ov_dirty v \<and> ov_cached v \<noteq> [] then Some (ov_cached v, v)
      else do { (content, hs) \<leftarrow> overview_content D v;
                let vp = follow_bottom V (ov_follow v) (dr_SetContent D content (ov_vp v));
                let out = dr_Render D (ov_theme v) ''PanelTitle'' (''  '' @ fisheye @ '' Overview  ['' @ show_nat (length (ov_batches v)) @ '' batches]  ''
                    @ dr_Render D (ov_theme v) ''BadgeGreen'' '' LIVE '') @ NL @ dr_View D vp;
                Some (out, v\<lparr>ov_vp := vp, ov_hists := hs, ov_cached := out, ov_dirty := False\<rparr>) })"

definition Overview_StatusLine :: "'vp OverviewView \<Rightarrow> string" where
  "Overview_StatusLine v = dots [''Overview  ['' @ show_nat (length (ov_batches v)) @ '' batches]'', ''G follow'', up_down @ '' scroll'']"

section \<open>The page of a container\<close>

definition cpu_text :: "CpuSample \<Rightarrow> string" where
  "cpu_text s = ''  CPU: '' @ fmt_fixed 4 (cm_CPUSeconds s) @ '' s/'' @ bytes [0xCE, 0x94] @ ''t   Threads: '' @ show_word (cm_ThreadCount s)
     @ ''   RunQ: '' @ fmt_fixed 3 (f64_mul (cm_RunqLatencySeconds s) 1000) @ '' ms   CtxSw: '' @ fmt_0f (cm_CtxSwitchesPerSec s) @ ''/s'' @ NL"

definition mem_text :: "MemSample \<Rightarrow> string" where
  "mem_text s = ''  MEM: '' @ fmt_fixed 2 (to_mb (ms_MemoryBytes s)) @ '' MB   Limit: ''
     @ (if ms_MemoryLimitBytes s > 0 then fmt_fixed 1 (to_mb (ms_MemoryLimitBytes s)) @ '' MB'' else ''unlimited'')
     @ ''   Faults/s: '' @ fmt_fixed 1 (ms_FaultsPerSec s) @ NL"

definition latency_text :: "string \<Rightarrow> Percentiles \<Rightarrow> string" where
  "latency_text name p = ''  '' @ name @ ''-lat (ms):  p50: '' @ fmt_fixed 2 (pc_P50 p) @ ''  p95: '' @ fmt_fixed 2 (pc_P95 p)
     @ ''  p99: '' @ fmt_fixed 2 (pc_P99 p) @ ''  max: '' @ fmt_fixed 2 (pc_Max p) @ NL"

definition io_text :: "DataBatch \<Rightarrow> IoSample \<Rightarrow> string" where
  "io_text b s = ''  I/O Read: '' @ fmt_fixed 2 (f64_div (is_ReadBytesPerSec s) 1024) @ '' KB/s   Write: ''
     @ fmt_fixed 2 (f64_div (is_WriteBytesPerSec s) 1024) @ '' KB/s'' @ NL
     @ latency_text ''R'' (last_minute b (latency_key (is_ContainerName s) ''io_read''))
     @ latency_text ''W'' (last_minute b (latency_key (is_ContainerName s) ''io_write''))"

definition or_dim :: "'vp Drawing \<Rightarrow> Theme \<Rightarrow> string \<Rightarrow> string \<Rightarrow> string" where
  "or_dim D th text s = (if s = [] then dr_Render D th ''TableDim'' (text @ NL) else s)"

definition renderResources :: "'vp Drawing \<Rightarrow> ('ti, 'vp) DetailView \<Rightarrow> string" where
  "renderResources D v =
     (let b = dv_lastBatch v; c = dv_container v
      in or_dim D (dv_theme v) ''  (no data yet)''
           (concat (map cpu_text (filter (\<lambda>s. cm_ContainerName s = c) (db_CPU b)))
            @ concat (map mem_text (filter (\<lambda>s. ms_ContainerName s = c) (db_Mem b)))
            @ concat (map (io_text b) (filter (\<lambda>s. is_ContainerName s = c) (db_IO b)))))"

definition net_text :: "NetSummary \<Rightarrow> string" where
  "net_text s = ''  Flows: '' @ show_nat (nm_ActiveFlows s) @ ''   Established: '' @ show_nat (nm_Established s) @ ''   TimeWait: ''
     @ show_nat (nm_TimeWait s) @ ''   CloseWait: '' @ show_nat (nm_CloseWait s) @ ''   Retransmits: '' @ show_word (nm_TotalRetransmits s) @ NL"

definition renderNetwork :: "'vp Drawing \<Rightarrow> ('ti, 'vp) DetailView \<Rightarrow> string" where
  "renderNetwork D v = or_dim D (dv_theme v) ''  (no network data)''
     (concat (map net_text (filter (\<lambda>s. nm_ContainerName s = dv_container v) (db_Net (dv_lastBatch v)))))"

definition sys_text :: "DataBatch \<Rightarrow> SyscallSummary \<Rightarrow> string" where
  "sys_text b s =
     (let p = last_minute b (latency_key (su_ContainerName s) (''sys_'' @ show_word (su_SyscallID s)))
      in ''  #'' @ pad_right 3 (show_int (su_Rank s)) @ ''  '' @ pad_right 16 (view_trunc (su_SyscallName s) 16) @ ''  ''
           @ pad_left 8 (show_word (su_Count s)) @ ''  '' @ pad_left 8 (show_word (su_Failures s)) @ ''  '' @ pad_left 7 (fmt_fixed 2 (pc_P50 p))
           @ ''  '' @ pad_left 7 (fmt_fixed 2 (pc_P95 p)) @ ''  '' @ pad_left 7 (fmt_fixed 2 (pc_Max p)) @ NL)"

definition renderSyscalls :: "'vp Drawing \<Rightarrow> ('ti, 'vp) DetailView \<Rightarrow> string" where
  "renderSyscalls D v = or_dim D (dv_theme v) ''  (no syscall data)''
     (dr_Render D (dv_theme v) ''TableHeader'' (''  '' @ pad_right 4 ''Rank'' @ ''  '' @ pad_right 16 ''Syscall'' @ ''  '' @ pad_left 8 ''Count''
        @ ''  '' @ pad_left 8 ''Fail'' @ ''  '' @ pad_left 7 ''p50'' @ ''  '' @ pad_left 7 ''p95'' @ ''  '' @ pad_left 7 ''Max'' @ NL)
      @ concat (map (sys_text (dv_lastBatch v)) (filter (\<lambda>s. su_ContainerName s = dv_container v) (db_Sys (dv_lastBatch v)))))"

definition detail_badge :: "EventType \<Rightarrow> string \<times> string" where
  "detail_badge t =
     (if t = EventTypeExec then (''exec'', '' EXEC '') else if t = EventTypeDNSQuery then (''dns'', '' DNS  '')
      else if t = EventTypePrivEsc then (''priv'', '' PRIV '') else if t = EventTypeEscapeIndicator then (''escape'', '' ESCP '')
      else if t = ''oom_kill'' then (''oom'', '' OOM  '') else (''BadgeDim'', '' SEC  ''))"

definition detail_target :: "(f64 \<Rightarrow> string) \<Rightarrow> (string \<times> any) list \<Rightarrow> string" where
  "detail_target F m =
     (case map_of m ''target_pid'' of Some p \<Rightarrow> ''pid:'' @ show_any F p
      | None \<Rightarrow> (case map_of m ''capability'' of Some c \<Rightarrow> show_any F c
      | None \<Rightarrow> (case map_of m ''new_uid'' of Some u \<Rightarrow> ''uid:'' @ show_any F u | None \<Rightarrow> ''<none>'')))"

definition detail_meta :: "(f64 \<Rightarrow> string) \<Rightarrow> EventType \<Rightarrow> (string \<times> any) list \<Rightarrow> styled" where
  "detail_meta F t m =
     (if m = [] then []
      else (''plain'', ''  '') #
        (if t = EventTypeExec then (case map_of m ''argv'' of Some a \<Rightarrow> [(''EventTCP'', ''cmd: '' @ show_any F a)] | None \<Rightarrow> [])
         else if t = EventTypeDNSQuery
           then [(''EventTCP'', ''q: '' @ show_opt F (map_of m ''query'') @ '' ('' @ show_opt F (map_of m ''query_type'') @ '')'')]
         else if t = EventTypePrivEsc
           then [(''meta'', ''op:'' @ show_opt F (map_of m ''escalation_type'') @ '' tgt:'' @ detail_target F m)]
         else if t = EventTypeEscapeIndicator
           then [(''meta'', ''op:'' @ show_opt F (map_of m ''indicator_type'') @ '' flags:'' @ escape_flags F m)]
         else if t = ''oom_kill''
           then [(''meta'', ''rss:'' @ show_opt F (map_of m ''rss_kb'') @ ''KB limit:'' @ show_int (limit_mb m) @ ''MB'')]
         else []))"

definition formatSecEvent :: "(f64 \<Rightarrow> string) \<Rightarrow> EventEnvelope \<Rightarrow> styled" where
  "formatSecEvent F env =
     [detail_badge (ee_EventType env), (''plain'', '' ''),
      (''proc'', (if ee_ParentProcess env \<noteq> [] then ee_ParentProcess env @ spaced_arrow @ ee_Process env else ee_Process env)
        @ '' (pid:'' @ show_word (ee_PID env) @ '')'')] @ detail_meta F (ee_EventType env) (ee_Metadata env)"

definition styledMsg :: "(f64 \<Rightarrow> string) \<Rightarrow> TuiEvent \<Rightarrow> styled" where
  "styledMsg F e =
     (case tv_Kind e of
        EventKindTCP \<Rightarrow> [(''EventTCP'', tv_Message e)]
      | EventKindError \<Rightarrow> [(''EventError'', tv_Message e)]
      | EventKindOOM \<Rightarrow> (case tv_Envelope e of Some env \<Rightarrow> formatSecEvent F env | None \<Rightarrow> [(''EventOOM'', tv_Message e)])
      | EventKindSlowSys \<Rightarrow> [(''EventSlowSys'', tv_Message e)]
      | EventKindSecurity \<Rightarrow> (case tv_Envelope e of Some env \<Rightarrow> formatSecEvent F env
          | None \<Rightarrow> [(''BadgeRed'', '' SEC ''), (''plain'', CHR '' '' # tv_Message e)])
      | EventKindInfo \<Rightarrow> [(''EventInfo'', tv_Message e)])"

definition renderEvents :: "'vp Drawing \<Rightarrow> ('ti, 'vp) DetailView \<Rightarrow> string" where
  "renderEvents D v =
     (let shown = filter (\<lambda>e. dv_filter v = [] \<or> str_contains (ToLower (tv_Message e)) (ToLower (dv_filter v))) (dv_events v);
          lines = map (\<lambda>e. dr_Render D (dv_theme v) ''TableDim'' (dr_Clock D (tv_At e)) @ '' '' @ paint D (dv_theme v) (styledMsg (dr_Float D) e)) shown
      in if lines = [] then dr_Render D (dv_theme v) ''TableDim'' (''  No events.'' @ NL) else join_with CHR ''\<newline>'' lines @ NL)"

definition detail_head :: "'vp Drawing \<Rightarrow> Theme \<Rightarrow> string \<Rightarrow> string" where
  "detail_head D th title = dr_Render D th ''PanelTitle'' (triangle @ '' '' @ title) @ NL"

definition Detail_buildContent :: "'vp Drawing \<Rightarrow> ('ti, 'cmd) TextInput \<Rightarrow> ('ti, 'vp) DetailView \<Rightarrow> string option" where
  "Detail_buildContent D T v =
     map_option (\<lambda>rule.
       let th = dv_theme v; sep = dr_Render D th ''Separator'' rule; h = dv_hist v
       in dr_Render D th ''BadgeBlue'' '' CONTAINER '' @ '' '' @ dr_Render D th ''Fg'' (dv_container v) @ NL @ sep @ NL @ NL
          @ detail_head D th ''Resources'' @ renderResources D v @ sep @ NL @ NL
          @ detail_head D th ''Live Graphs''
          @ concat (map (\<lambda>m. Spark_View D m @ NL) [ch_cpu h, ch_mem h, ch_ioRead h, ch_ioWrt h, ch_sysLat h]) @ sep @ NL @ NL
          @ detail_head D th ''Network'' @ renderNetwork D v @ sep @ NL @ NL
          @ detail_head D th ''Top Syscalls'' @ renderSyscalls D v @ sep @ NL @ NL
          @ detail_head D th ''Event Timeline''
          @ (if Search_Visible (dv_search v) then Search_View D T (dv_search v) (dv_w v) @ NL else [])
          @ renderEvents D v) (Repeat hline (dv_w v))"

definition Detail_View :: "'vp Drawing \<Rightarrow> ('ti, 'cmd) TextInput \<Rightarrow> ('ti, 'vp) DetailView \<Rightarrow> (string \<times> ('ti, 'vp) DetailView) option" where
  "Detail_View D T v =
     (if \<not> dv_dirty v \<and> dv_cached v \<noteq> [] then Some (dv_cached v, v)
      else do { content \<leftarrow> Detail_buildContent D T v;
                let vp = dr_SetContent D content (dv_vp v);
                let out = dr_Render D (dv_theme v) ''PanelTitle'' (''  '' @ fisheye @ '' Container Cockpit: '' @ view_trunc (dv_container v) 40)
                  @ NL @ dr_View D vp;
                Some (out, v\<lparr>dv_vp := vp, dv_cached := out, dv_dirty := False\<rparr>) })"

definition Detail_StatusLine :: "('ti, 'vp) DetailView \<Rightarrow> string" where
  "Detail_StatusLine v = dots [''Detail: '' @ view_trunc (dv_container v) 30 @ (if dv_paused v then ''  PAUSED'' else []), ''Esc back'',
     ''p pause'', ''/ filter'', up_down @ '' scroll'']"

section \<open>Process graph\<close>

text \<open>The first \<open>n\<close> runes with an ellipsis in the last place; a text cut to no runes panics.\<close>

definition cut :: "int \<Rightarrow> string \<Rightarrow> string option" where
  "cut n s = (let rs = runes s
      in if int (length rs) \<le> n then Some s else if n < 1 then None else Some (concat (take (nat (n - 1)) rs) @ ellipsis))"

definition first_lines :: "int \<Rightarrow> string list \<Rightarrow> string list option" where
  "first_lines n ls = (if int (length ls) \<le> n then Some ls else if n < 0 then None else Some (take (nat n) ls))"

definition panel_border :: "ProcView \<Rightarrow> int \<Rightarrow> string" where
  "panel_border v p = (if pv_activePanel v = p then ''PanelFocused'' else ''PanelBorder'')"

definition short_key :: "string \<Rightarrow> string" where
  "short_key key = (if HasPrefix key ''cgroup:'' then TrimPrefix key ''cgroup:''
     else if HasPrefix key ''host:'' then TrimPrefix key ''host:'' else key)"

definition container_row :: "'vp Drawing \<Rightarrow> ProcView \<Rightarrow> int \<Rightarrow> nat \<times> string \<Rightarrow> string option" where
  "container_row D v w = (\<lambda>(i, key). map_option (\<lambda>short.
     dr_Width D (pv_theme v) (if int i = pv_cgroupSel v then ''TableSelected'' else ''TableRow'') w
       ('' '' @ fisheye @ '' '' @ short @ '' ['' @ show_nat (countForKey v key) @ '']''))
     (cut (if w - 10 < 4 then 4 else w - 10) (short_key key)))"

definition renderContainerPanel :: "'vp Drawing \<Rightarrow> ProcView \<Rightarrow> int \<Rightarrow> int \<Rightarrow> string option" where
  "renderContainerPanel D v w h =
     do { rows0 \<leftarrow> (if pv_cgroupKeys v = [] then Some [dr_Render D (pv_theme v) ''TableDim'' (''  waiting'' @ ellipsis)]
                 else those (map (container_row D v w) (enumerate 0 (pv_cgroupKeys v))));
          blank \<leftarrow> Repeat '' '' w;
          rows \<leftarrow> first_lines (h - 2) (rows0 @ replicate (nat (h - 2) - length rows0) blank);
          Some (dr_Panel D (pv_theme v) (panel_border v panelCgroup) w h
            (dr_Width D (pv_theme v) ''TableHeader'' w '' Container'' @ NL @ join_with CHR ''\<newline>'' rows)) }"

definition event_icon :: "EventType \<Rightarrow> string" where
  "event_icon t = (if t = EventTypeExec then thunder else if t = EventTypePrivEsc then bytes [0xF0, 0x9F, 0x94, 0x92]
     else if t = EventTypeDNSQuery then bytes [0xF0, 0x9F, 0x8C, 0x90] else if t = EventTypeEscapeIndicator then bytes [0xF0, 0x9F, 0x9A, 0xAA]
     else [])"

definition badgeStr :: "EventType list \<Rightarrow> string" where
  "badgeStr ts = (let b = concat (map event_icon ts) in if b \<noteq> [] then b @ '' '' else [])"

definition evStyle :: "EventType \<Rightarrow> string \<times> string" where
  "evStyle t = (if event_icon t = [] then (bytes [0xE2, 0x97, 0x8F], ''TableDim'')
     else (event_icon t, if t = EventTypeExec then ''EventInfo'' else if t = EventTypePrivEsc then ''EventOOM''
       else if t = EventTypeDNSQuery then ''EventTCP'' else ''EventSlowSys''))"

definition tree_style :: "ProcView \<Rightarrow> int \<Rightarrow> treeNode \<Rightarrow> SnapshotNode option \<Rightarrow> string" where
  "tree_style v i tn node =
     (if i = pv_treeSel v then ''TableSelected''
      else if (\<exists>n. node = Some n \<and> sn_Events n \<noteq> []) \<and> \<not> tn_alive tn then ''EventError''
      else if (\<exists>n. node = Some n \<and> sn_Events n \<noteq> []) then ''EventSlowSys''
      else if \<not> tn_alive tn then ''TableDim'' else ''TableRow'')"

text \<open>A line of the tree; a missing snapshot would be a nil pointer.\<close>

definition tree_line :: "'vp Drawing \<Rightarrow> ProcView \<Rightarrow> int \<Rightarrow> int \<Rightarrow> string option" where
  "tree_line D v w i =
     do { tn \<leftarrow> at_int (pv_treeLines v) i;
          s \<leftarrow> pv_snap v;
          line \<leftarrow> cut (if w - 2 < 4 then 4 else w - 2) (tn_prefix tn @ badgeStr (tn_evTypes tn)
            @ (if tn_alive tn then tn_comm tn else tn_comm tn @ '' '' @ bytes [0xC2, 0xB7]) @ '' ('' @ show_word (tn_pid tn) @ '')'');
          Some (dr_Width D (pv_theme v) (tree_style v i tn (map_of (gs_Nodes s) (tn_key tn))) w (CHR '' '' # line)) }"

definition renderTreePanel :: "'vp Drawing \<Rightarrow> ProcView \<Rightarrow> int \<Rightarrow> int \<Rightarrow> (string \<times> ProcView) option" where
  "renderTreePanel D v w h =
     (let hdr = dr_Width D (pv_theme v) ''TableHeader'' w '' Process Tree''; panel = dr_Panel D (pv_theme v) (panel_border v panelTree) w h
      in if pv_treeLines v = []
         then Some (panel (hdr @ NL @ dr_Render D (pv_theme v) ''TableDim'' (''  No processes '' @ em_dash @ '' select a container'')), v)
         else let visH = h - 3; v1 = tree_scroll h v; n = int (length (pv_treeLines v1))
              in do { ls \<leftarrow> those (map (tree_line D v1 w) [pv_treeOffset v1..min n (pv_treeOffset v1 + visH) - 1]);
                      blank \<leftarrow> Repeat '' '' w;
                      Some (panel (hdr @ NL @ join_with CHR ''\<newline>'' (ls @ replicate (nat visH - length ls) blank) @ NL
                        @ dr_Width D (pv_theme v) ''TableDim'' w ('' ['' @ show_int (pv_treeSel v1 + 1) @ ''/'' @ show_int n @ '']  ''
                            @ up_down @ '' navigate  '' @ bytes [0xE2, 0x86, 0x90, 0xE2, 0x86, 0x92] @ '' panels'')), v1) })"

definition detail_kv :: "'vp Drawing \<Rightarrow> Theme \<Rightarrow> string \<Rightarrow> string \<Rightarrow> string" where
  "detail_kv D th k x = dr_Render D th ''FgDim'' (''  '' @ pad_right 6 k) @ '' '' @ dr_Render D th ''TableRow'' x"

definition ancestor_line :: "'vp Drawing \<Rightarrow> Theme \<Rightarrow> int \<Rightarrow> NodeKey \<Rightarrow> nat \<times> SnapshotNode \<Rightarrow> string option" where
  "ancestor_line D th w key = (\<lambda>(i, a). map_option (\<lambda>comm.
     let text = replicate (2 * i) CHR '' '' @ ''  '' @ bytes [0xE2, 0x94, 0x94, 0xE2, 0x94, 0x80] @ '' '' @ comm
     in if sn_Key a = key then dr_Render D th ''TableSelected'' (text @ '' '' @ bytes [0xE2, 0x97, 0x80]) else dr_Render D th ''TableRow'' text)
     (cut (w - int i * 2 - 6) (DisplayComm a)))"

definition event_detail :: "'vp Drawing \<Rightarrow> Theme \<Rightarrow> int \<Rightarrow> EventEnvelope \<Rightarrow> string option" where
  "event_detail D th w ev = map_option (\<lambda>p. let (icon, sty) = evStyle (ee_EventType ev)
     in dr_Render D th sty (''  '' @ icon @ '' '' @ dr_Clock D (ee_Timestamp ev) @ '' '' @ p)) (cut (w - 22) (ee_Process ev))"

definition event_section :: "'vp Drawing \<Rightarrow> Theme \<Rightarrow> int \<Rightarrow> EventEnvelope option list \<Rightarrow> string list option" where
  "event_section D th w evs =
     (if evs = [] then Some []
      else map_option (Cons (dr_Render D th ''PanelTitle'' (''  Events ('' @ show_nat (length evs) @ '')'')))
             (those (map (event_detail D th w) (concat (map (\<lambda>e. case e of Some ev \<Rightarrow> [ev] | None \<Rightarrow> []) (lastn 10 evs))))))"

definition ancestry_section :: "'vp Drawing \<Rightarrow> Theme \<Rightarrow> int \<Rightarrow> NodeKey \<Rightarrow> SnapshotNode list \<Rightarrow> string list option" where
  "ancestry_section D th w key ancs =
     (if ancs = [] then Some []
      else map_option (\<lambda>ls. dr_Render D th ''PanelTitle'' ''  Ancestry'' # ls @ [[]]) (those (map (ancestor_line D th w key) (enumerate 0 ancs))))"

definition node_fields :: "'vp Drawing \<Rightarrow> Theme \<Rightarrow> int \<Rightarrow> SnapshotNode \<Rightarrow> string list option" where
  "node_fields D th w n =
     do { comm \<leftarrow> cut (w - 10) (DisplayComm n);
          ctr \<leftarrow> cut (w - 10) (sn_ContainerName n);
          path \<leftarrow> cut (w - 10) (sn_ExePath n);
          Some ([detail_kv D th ''PID'' (show_word (nk_PID (sn_Key n))), detail_kv D th ''PPID'' (show_word (sn_PPID n)), detail_kv D th ''Comm'' comm]
            @ (if sn_ContainerName n \<noteq> [] then [detail_kv D th ''Ctr'' ctr] else [])
            @ (if sn_ExePath n \<noteq> [] then [detail_kv D th ''Path'' path] else [])
            @ (if \<not> IsZero (sn_ForkTime n) then [detail_kv D th ''Fork'' (dr_Millis D (sn_ForkTime n))] else [])
            @ (if \<not> IsZero (sn_ExecTime n) then [detail_kv D th ''Exec'' (dr_Millis D (sn_ExecTime n))] else [])
            @ (if sn_SID n \<noteq> 0 then [detail_kv D th ''SID'' (show_word (sn_SID n))] else [])
            @ [''  '' @ (if sn_IsAlive n then dr_Render D th ''BadgeGreen'' '' alive ''
                 else dr_Render D th ''BadgeDim'' ('' exit:'' @ show_int (sn_ExitCode n) @ '' '')), []]) }"

text \<open>The node of the selected line, if there is one; \<open>None\<close> inside is the text of a panel without a node.\<close>

definition selected_node :: "ProcView \<Rightarrow> (GraphSnapshot \<times> SnapshotNode) option + string" where
  "selected_node v =
     (case pv_snap v of
        None \<Rightarrow> Inr ''  select a node in the tree''
      | Some s \<Rightarrow>
          if pv_treeLines v = [] \<or> pv_treeSel v \<ge> int (length (pv_treeLines v)) then Inr ''  select a node in the tree''
          else case at_int (pv_treeLines v) (pv_treeSel v) of
                 None \<Rightarrow> Inl None
               | Some tn \<Rightarrow> (case map_of (gs_Nodes s) (tn_key tn) of None \<Rightarrow> Inr ''  node not found'' | Some n \<Rightarrow> Inl (Some (s, n))))"

definition renderDetailPanel :: "'vp Drawing \<Rightarrow> ProcView \<Rightarrow> int \<Rightarrow> int \<Rightarrow> string option" where
  "renderDetailPanel D v w h =
     (let th = pv_theme v; hdr = dr_Width D th ''TableHeader'' w '' Node Detail''; panel = dr_Panel D th (panel_border v panelDetail) w h
      in case selected_node v of
           Inr text \<Rightarrow> Some (panel (hdr @ NL @ dr_Render D th ''TableDim'' text))
         | Inl None \<Rightarrow> None
         | Inl (Some (s, n)) \<Rightarrow>
             do { fields \<leftarrow> node_fields D th w n;
                  ancs \<leftarrow> ancestry_section D th w (sn_Key n) (Snapshot_Ancestors s (tn_key (pv_treeLines v ! nat (pv_treeSel v))));
                  evs \<leftarrow> event_section D th w (sn_Events n);
                  let ls = fields @ ancs @ evs;
                  vis \<leftarrow> first_lines (h - 2) (ls @ replicate (nat (h - 2) - length ls) []);
                  Some (panel (hdr @ NL @ join_with CHR ''\<newline>'' vis)) })"

definition proc_title :: string where
  "proc_title = ''  '' @ bytes [0xE2, 0x97, 0x88] @ '' Process Graph  '' @ hline @ ''  Process ancestry, child tracking & event correlation''"

definition proc_render :: "'vp Drawing \<Rightarrow> ProcView \<Rightarrow> (string \<times> ProcView) option" where
  "proc_render D v =
     (if pv_w v = 0 \<or> pv_h v = 0 then Some ([], v)
      else let title = dr_Render D (pv_theme v) ''PanelTitle'' proc_title; bodyH = pv_h v - 2; treeW = pv_w v - 40 - 34 - 2
           in if bodyH < 4 then Some (title, v)
              else do { left \<leftarrow> renderContainerPanel D v 40 bodyH;
                        (middle, v1) \<leftarrow> renderTreePanel D v (if treeW < 24 then 24 else treeW) bodyH;
                        right \<leftarrow> renderDetailPanel D v1 34 bodyH;
                        let sep = dr_Render D (pv_theme v) ''Separator'' box_bar;
                        Some (dr_JoinV D [title, dr_JoinH D [left, sep, middle, sep, right]], v1) })"

definition Proc_View :: "'vp Drawing \<Rightarrow> ProcView \<Rightarrow> (string \<times> ProcView) option" where
  "Proc_View D v =
     (if \<not> pv_dirty v \<and> pv_cached v \<noteq> [] then Some (pv_cached v, v)
      else map_option (\<lambda>(out, v1). (out, v1\<lparr>pv_cached := out, pv_dirty := False\<rparr>)) (proc_render D v))"

definition Proc_StatusLine :: "ProcView \<Rightarrow> string" where
  "Proc_StatusLine v = dots [''ProcGraph ['' @ show_nat (case pv_snap v of None \<Rightarrow> 0 | Some s \<Rightarrow> length (gs_Nodes s)) @ '' nodes]'',
     bytes [0xE2, 0x86, 0x90] @ ''/'' @ right_arrow @ '' panels'', up_down @ ''/j/k navigate'', ''g/G top/bottom'', ''q quit'']"

end
