(* ===== verification/TuiScreen.thy ===== *)
theory TuiScreen
  imports TuiDraw
begin

text \<open>
  The screen of the terminal interface: \<open>App.View\<close> of \<open>internal/tui/app/app.go\<close> over the
  views of the tabs, and runs in which messages and drawings interleave. Proved here: no message
  and no drawing of such a run panics.
\<close>

section \<open>The view of a tab\<close>

fun Tab_View :: "'vp Drawing \<Rightarrow> ('ti, Cmd) TextInput \<Rightarrow> ('vp, Cmd) Viewport \<Rightarrow> ('ti, 'vp) TabView \<Rightarrow> (string \<times> ('ti, 'vp) TabView) option" where
  "Tab_View D T V (OverviewTab v) = map_option (apsnd OverviewTab) (Overview_View D V v)"
| "Tab_View D T V (CpuTab v) = map_option (apsnd CpuTab) (Cpu_View D T v)"
| "Tab_View D T V (MemoryTab v) = map_option (apsnd MemoryTab) (Memory_View D T v)"
| "Tab_View D T V (IoTab v) = map_option (apsnd IoTab) (Io_View D T v)"
| "Tab_View D T V (NetworkTab v) = map_option (apsnd NetworkTab) (Network_View D T v)"
| "Tab_View D T V (SyscallTab v) = map_option (apsnd SyscallTab) (Syscall_View D T v)"
| "Tab_View D T V (EventsTab v) = Some (apsnd EventsTab (Events_View D T V v))"
| "Tab_View D T V (GraphsTab v) = map_option (apsnd GraphsTab) (Graphs_View D v)"
| "Tab_View D T V (ProcGraphTab v) = map_option (apsnd ProcGraphTab) (Proc_View D v)"

fun Tab_StatusLine :: "('ti, 'vp) TabView \<Rightarrow> string" where
  "Tab_StatusLine (OverviewTab v) = Overview_StatusLine v"
| "Tab_StatusLine (CpuTab v) = Cpu_StatusLine"
| "Tab_StatusLine (MemoryTab v) = Memory_StatusLine"
| "Tab_StatusLine (IoTab v) = Io_StatusLine"
| "Tab_StatusLine (NetworkTab v) = Network_StatusLine"
| "Tab_StatusLine (SyscallTab v) = Syscall_StatusLine"
| "Tab_StatusLine (EventsTab v) = Events_StatusLine v"
| "Tab_StatusLine (GraphsTab v) = Graphs_StatusLine v"
| "Tab_StatusLine (ProcGraphTab v) = Proc_StatusLine v"

section \<open>The screen\<close>

definition renderHeader_app :: "'vp Drawing \<Rightarrow> instant \<Rightarrow> ('ti, 'vp) App \<Rightarrow> string" where
  "renderHeader_app D now a =
     (let th = ap_theme a;
          badge = dr_Render D th (if ap_demo a then ''BadgeYellow'' else ''BadgeGreen'') ('' '' @ (if ap_demo a then ''DEMO'' else ''LIVE'') @ '' '');
          ts = dr_Render D th ''HeaderDim'' (''  '' @ dr_Date D now);
          left = ''  '' @ fisheye @ '' eBPF Observer  ['' @ th @ '']'';
          gap = ap_termW a - int (length (runes left)) - dr_Measure D badge - dr_Measure D ts - 4
      in dr_Width D th ''Header'' (ap_termW a) (left @ replicate (nat (if gap < 0 then 0 else gap)) CHR '' '' @ badge @ ts))"

definition renderStatusBar :: "'vp Drawing \<Rightarrow> ('ti, 'vp) App \<Rightarrow> string option" where
  "renderStatusBar D a =
     (if ap_state a = StateDetail then Some (Status_View D (SetKeyHints (Detail_StatusLine (ap_detailPg a)) (ap_statusBar a)))
      else map_option (\<lambda>v. Status_View D (SetKeyHints (dots [Tab_StatusLine v, ''T theme'', ''? help'', ''q quit'']) (ap_statusBar a))) (activeView a))"

definition renderLoading :: "'vp Drawing \<Rightarrow> ('ti, 'vp) App \<Rightarrow> string option" where
  "renderLoading D a =
     map_option (\<lambda>blank. concat (replicate (nat (BodyH (ap_layout a) div 2)) (blank @ NL))
       @ dr_Width D (ap_theme a) ''center'' (ap_termW a)
           (dr_Render D (ap_theme a) ''BadgeBlue'' (''  '' @ bytes [0xE2, 0x97, 0x8C] @ ''  Waiting for first eBPF snapshot'' @ ellipsis @ ''  '')))
       (Repeat '' '' (ap_termW a))"

definition screen_content ::
  "'vp Drawing \<Rightarrow> ('ti, Cmd) TextInput \<Rightarrow> ('vp, Cmd) Viewport \<Rightarrow> ('ti, 'vp) App \<Rightarrow> (string \<times> ('ti, 'vp) App) option" where
  "screen_content D T V a =
     (case ap_state a of
        StateLoading \<Rightarrow> map_option (\<lambda>s. (s, a)) (renderLoading D a)
      | StateDetail \<Rightarrow> map_option (\<lambda>(s, d). (s, a\<lparr>ap_detailPg := d\<rparr>)) (Detail_View D T (ap_detailPg a))
      | _ \<Rightarrow> Option.bind (activeView a) (\<lambda>v. map_option (\<lambda>(s, v1). (s, set_active v1 a)) (Tab_View D T V v)))"

definition initialising :: string where "initialising = ''Initialising'' @ ellipsis"

definition App_View ::
  "'vp Drawing \<Rightarrow> ('ti, Cmd) TextInput \<Rightarrow> ('vp, Cmd) Viewport \<Rightarrow> instant \<Rightarrow> ('ti, 'vp) App \<Rightarrow> (string \<times> ('ti, 'vp) App) option" where
  "App_View D T V now a =
     (if ap_termW a = 0 then Some (initialising, a)
      else do { status \<leftarrow> renderStatusBar D a;
                (content, a1) \<leftarrow> screen_content D T V a;
                let full = dr_JoinV D [renderHeader_app D now a, Tabbar_View D (ap_tabs a), content, status];
                if Modal_Visible (ap_modal a) then Some (Modal_Render D full (ap_termW a) (ap_termH a) (ap_modal a), a1)
                else if Palette_Visible (ap_palette a)
                then map_option (\<lambda>overlay. (dr_Place D None (ap_termW a) (ap_termH a) overlay, a1))
                       (Palette_View D T (ap_termW a) (ap_termH a) (ap_palette a))
                else Some (full, a1) })"

text \<open>A run of the program with its drawings; the runtime draws when it likes.\<close>

datatype Event = Got Msg | is_Draw: Draw instant

fun Screen_run ::
  "'vp Drawing \<Rightarrow> ('ti, Cmd) TextInput \<Rightarrow> ('vp, Cmd) Viewport \<Rightarrow> Event list \<Rightarrow> ('ti, 'vp) App \<Rightarrow> (string list \<times> ('ti, 'vp) App) option" where
  "Screen_run D T V [] a = Some ([], a)"
| "Screen_run D T V (Got m # es) a = Option.bind (App_Update T V m a) (\<lambda>(a1, c). Screen_run D T V es a1)"
| "Screen_run D T V (Draw now # es) a = Option.bind (App_View D T V now a) (\<lambda>(s, a1). map_option (apfst (Cons s)) (Screen_run D T V es a1))"

section \<open>Drawing does not panic\<close>

lemma Repeat_some: "0 \<le> n \<Longrightarrow> \<exists>s. Repeat t n = Some s"
  by (simp add: Repeat_def)

lemma those_some: "(\<And>x. x \<in> set xs \<Longrightarrow> \<exists>y. f x = Some y) \<Longrightarrow> \<exists>ys. those (map f xs) = Some ys"
proof (induction xs)
  case (Cons x xs)
  obtain y where "f x = Some y" using Cons.prems [of x] by auto
  moreover obtain ys where "those (map f xs) = Some ys" using Cons by auto
  ultimately show ?case by simp
qed simp

lemma bind_some: "\<exists>x. m = Some x \<Longrightarrow> (\<And>x. m = Some x \<Longrightarrow> \<exists>y. f x = Some y) \<Longrightarrow> \<exists>y. Option.bind m f = Some y"
  by auto

lemma find_sub_bound: "find_sub q s = Some i \<Longrightarrow> i + length q \<le> length s"
proof (induction s arbitrary: i)
  case (Cons c s)
  then show ?case using prefix_length_le [of q "c # s"] by (auto split: if_splits)
qed (auto split: if_splits)

lemma length_ToLower: "length (ToLower s) \<le> length s"
  by (induction s rule: ToLower.induct) (auto simp: kelvin_sign_def dotted_I_def)

text \<open>
  The name of a command is cut at the length of the typed text, not at that of its lower case. They
  differ for the Kelvin sign and the dotted capital I, and then the end may be past that of the name.
\<close>

definition typed_plain :: "('ti, 'cmd) TextInput \<Rightarrow> bool" where
  "typed_plain T \<longleftrightarrow> (\<forall>x. length (ToLower (ti_Value T x)) = length (ti_Value T x))"

lemma highlightMatch_some: "length (ToLower q) = length q \<Longrightarrow> \<exists>s. highlightMatch D name q th = Some s"
  using find_sub_bound [of "ToLower q" "ToLower name"] length_ToLower [of name] by (force simp: highlightMatch_def split: option.splits)

lemma kelvin_sign_crashes:
  assumes "ti_Value T (pa_input m) = kelvin_sign" "pa_visible m" "pa_matches m = c # cs" "pc_Name c = ''theme github-dark''" "pc_Args c = []"
  shows "Palette_View D T w h m = None"
proof -
  have "highlightMatch D ''theme github-dark '' kelvin_sign th = None" for th
    by (simp add: highlightMatch_def kelvin_sign_def dotted_I_def lower_char_def)
  then show ?thesis using assms by (simp add: Palette_View_def palette_line_def Let_def)
qed

lemma kelvin_sign_matches:
  "ToLower kelvin_sign = ''k''" "command_matches ''k'' c \<longleftrightarrow> CHR ''k'' \<in> set (ToLower (pc_Name c)) \<union> set (ToLower (pc_Description c))"
proof -
  have "str_contains s ''k'' \<longleftrightarrow> CHR ''k'' \<in> set s" for s
    by (induction s) (auto simp: str_contains_def sublist_Cons_right)
  then show "command_matches ''k'' c \<longleftrightarrow> CHR ''k'' \<in> set (ToLower (pc_Name c)) \<union> set (ToLower (pc_Description c))"
    by (simp add: command_matches_def)
qed (simp add: kelvin_sign_def)

lemma Palette_View_some: "typed_plain T \<Longrightarrow> \<exists>s. Palette_View D T w h m = Some s"
proof -
  assume "typed_plain T"
  then have "\<exists>y. palette_line D T b m x = Some y" for b x
    using highlightMatch_some [of "ti_Value T (pa_input m)" D "pc_Name (snd x) @ '' '' @ pc_Args (snd x)" "pa_theme m"]
    by (cases x) (auto simp: palette_line_def typed_plain_def)
  then have "\<exists>ls. those (map (palette_line D T b m) (enumerate 0 (take 8 (pa_matches m)))) = Some ls" for b
    by (intro those_some) blast
  then show ?thesis by (auto simp: Palette_View_def Let_def intro!: bind_some)
qed

lemma batch_hists_keys:
  "fst ` set (batch_hists b hs) = fst ` set hs \<union> cm_ContainerName ` set (db_CPU b) \<union> ms_ContainerName ` set (db_Mem b)"
proof -
  have e: "fst ` set (ensureHist n hs) = insert n (fst ` set hs)" for n and hs :: "(string \<times> cpuHist) list"
    by (auto simp: ensureHist_def dom_update split: option.splits dest: map_of_SomeD intro: rev_image_eqI)
  have "fst ` set (fold (\<lambda>s. ensureHist (nm s)) xs hs) = fst ` set hs \<union> nm ` set xs" for nm and xs :: "'s list" and hs
    by (induction xs arbitrary: hs) (auto simp: e)
  note f = this
  show ?thesis unfolding batch_hists_def by (simp only: f)
qed

lemma map_of_some: "k \<in> fst ` set xs \<Longrightarrow> \<exists>v. map_of xs k = Some v"
  by (metis map_of_eq_None_iff not_None_eq)

lemma overview_content_some:
  assumes "12 \<le> ov_w v"
  shows "\<exists>r. overview_content D v = Some r"
proof (cases "ov_batches v = []")
  case False
  let ?b = "as_sorted (last (ov_batches v))"
  let ?hs = "batch_hists ?b (ov_hists v)"
  obtain rule where "Repeat hline (ov_w v - 12) = Some rule" using Repeat_some [of "ov_w v - 12"] assms by auto
  moreover have "\<exists>y. cpu_card D ?hs x = Some y" if "x \<in> set (db_CPU ?b)" for x
    using that map_of_some [of "cm_ContainerName x" ?hs] by (auto simp: cpu_card_def batch_hists_keys)
  then have "\<exists>c. those (map (cpu_card D ?hs) (db_CPU ?b)) = Some c" by (rule those_some)
  then obtain c where "those (map (cpu_card D ?hs) (db_CPU ?b)) = Some c" by blast
  moreover have "\<exists>y. mem_card D ?hs x = Some y" if "x \<in> set (db_Mem ?b)" for x
    using that map_of_some [of "ms_ContainerName x" ?hs] by (auto simp: mem_card_def batch_hists_keys)
  then have "\<exists>c. those (map (mem_card D ?hs) (db_Mem ?b)) = Some c" by (rule those_some)
  then obtain m where "those (map (mem_card D ?hs) (db_Mem ?b)) = Some m" by blast
  ultimately show ?thesis using False by (simp add: overview_content_def renderBatch_def Let_def)
qed (simp add: overview_content_def)


text \<open>A table of enough width draws whatever its offset.\<close>

definition cells_fit :: "'r Column list \<Rightarrow> bool" where
  "cells_fit cols \<longleftrightarrow> (\<forall>c \<in> set cols. 0 \<le> col_Width c)"

lemma padOrTrunc_some: "0 \<le> w \<Longrightarrow> \<exists>s. padOrTrunc t w al = Some s"
  by (simp add: padOrTrunc_def Let_def)

lemma cells_some:
  assumes "cells_fit cols"
  shows "\<exists>ss. those (map (\<lambda>(i, col). padOrTrunc (f i col) (col_Width col) (col_Align col)) (enumerate n cols)) = Some ss"
proof (rule those_some)
  fix p assume "p \<in> set (enumerate n cols)"
  then have "snd p \<in> set cols" by (metis in_set_conv_nth length_map map_snd_enumerate nth_map)
  then show "\<exists>y. (\<lambda>(i, col). padOrTrunc (f i col) (col_Width col) (col_Align col)) p = Some y"
    using assms padOrTrunc_some by (auto simp: cells_fit_def case_prod_beta)
qed

lemma Table_View_some:
  assumes "table_ok m" "8 \<le> tb_width m" "cells_fit (tb_columns m)"
  shows "\<exists>ls. Table_View m = Some ls"
proof -
  have row: "\<exists>s. renderRow m r = Some s" for r
    using cells_some [OF assms(3), of "\<lambda>i col. case col_Format col of Some f \<Rightarrow> f r (int i) | None \<Rightarrow> []" 0] by (auto simp: renderRow_def)
  have hdr: "\<exists>s. renderHeader m = Some s"
    using cells_some [OF assms(3), of "\<lambda>i col. col_Title col @ (if int i = tb_sortCol m then (if tb_sortAsc m then arrow_up else arrow_down) else [])" 0]
    by (auto simp: renderHeader_def)
  have body: "\<exists>l. body_line m i = Some l" if i: "i \<in> set [tb_offset m..body_end m - 1]" for i
  proof -
    have r: "0 \<le> i" "i < int (length (tb_visible m))" using i assms(1) by (auto simp: body_end_def table_ok_def split: if_splits)
    then have "tb_visible m ! nat i \<in> set (tb_visible m)" by simp
    then have "tb_visible m ! nat i < length (tb_rows m)" using table_ok_visible [OF assms(1)] by blast
    moreover obtain l where "renderRow m (tb_rows m ! (tb_visible m ! nat i)) = Some l" using row by blast
    ultimately show ?thesis using r by (simp add: body_line_def at_int_def)
  qed
  have "\<exists>l. scroll_indicator m = Some l" using assms(2) by (auto simp: scroll_indicator_def Let_def Repeat_def)
  then show ?thesis unfolding Table_View_def using assms(2) hdr body
    by (auto intro!: bind_some those_some Repeat_some)
qed

lemma View_View_some:
  assumes "table_ok (vw_tbl v)" "8 \<le> tb_width (vw_tbl v)" "cells_fit (tb_columns (vw_tbl v))"
  shows "\<exists>s v1. View_Draw D T title v = Some (s, v1) \<and> vw_tbl v1 = vw_tbl v"
  using Table_View_some [OF assms] by (auto simp: View_Draw_def View_View_def Let_def)

lemma Graphs_View_some: "0 \<le> gv_w v \<Longrightarrow> \<exists>s v1. Graphs_View D v = Some (s, v1) \<and> gv_w v1 = gv_w v \<and> graphs_ok v1 = graphs_ok v"
  using Repeat_some [of "gv_w v" hline]
  by (auto simp: Graphs_View_def Graphs_buildContent_def graphs_ok_def Let_def)

lemma Overview_View_some: "12 \<le> ov_w v \<Longrightarrow> \<exists>s v1. Overview_View D V v = Some (s, v1) \<and> ov_w v1 = ov_w v"
  using overview_content_some [of v D] by (auto simp: Overview_View_def Let_def)

lemma Detail_View_some: "0 \<le> dv_w v \<Longrightarrow> \<exists>s v1. Detail_View D T v = Some (s, v1) \<and> dv_w v1 = dv_w v \<and> detail_ok v1 = detail_ok v"
  using Repeat_some [of "dv_w v" hline] by (auto simp: Detail_View_def Detail_buildContent_def detail_ok_def Let_def)

text \<open>The process graph has fixed panels; its tree is drawn from the offset on.\<close>

definition proc_drawn :: "ProcView \<Rightarrow> bool" where
  "proc_drawn v \<longleftrightarrow> proc_ok v \<and> 0 \<le> pv_treeOffset v \<and> (pv_treeLines v \<noteq> [] \<longrightarrow> pv_snap v \<noteq> None)"

lemma cut_some: "1 \<le> n \<Longrightarrow> \<exists>s. cut n t = Some s"
  by (simp add: cut_def Let_def)

lemma first_lines_some: "0 \<le> n \<Longrightarrow> \<exists>ls'. first_lines n ls = Some ls'"
  by (simp add: first_lines_def)

lemma renderContainerPanel_some: "2 \<le> h \<Longrightarrow> 0 \<le> w \<Longrightarrow> \<exists>s. renderContainerPanel D v w h = Some s"
proof -
  assume a: "2 \<le> h" "0 \<le> w"
  have "\<exists>y. container_row D v w x = Some y" for x
    using cut_some [of "if w - 10 < 4 then 4 else w - 10" "short_key (snd x)"] by (cases x) (auto simp: container_row_def)
  then show ?thesis unfolding renderContainerPanel_def using a
    by (auto intro!: bind_some those_some Repeat_some first_lines_some)
qed

lemma tree_scroll_ok:
  assumes "proc_drawn v" "4 \<le> h" "pv_treeLines v \<noteq> []"
  shows "proc_drawn (tree_scroll h v)" "pv_treeLines (tree_scroll h v) = pv_treeLines v" "pv_treeSel (tree_scroll h v) = pv_treeSel v"
    "pv_snap (tree_scroll h v) = pv_snap v"
  using assms by (auto simp: proc_drawn_def proc_ok_def tree_scroll_def Let_def)

lemma renderTreePanel_some:
  assumes "proc_drawn v" "4 \<le> h" "0 \<le> w"
  shows "\<exists>s v1. renderTreePanel D v w h = Some (s, v1) \<and> proc_drawn v1 \<and> pv_w v1 = pv_w v \<and> pv_h v1 = pv_h v"
proof (cases "pv_treeLines v = []")
  case False
  let ?v = "tree_scroll h v"
  note t = tree_scroll_ok [OF assms(1,2) False]
  obtain s where s: "pv_snap v = Some s" using assms(1) False by (auto simp: proc_drawn_def)
  have "\<exists>y. tree_line D ?v w i = Some y" if "i \<in> set [pv_treeOffset ?v..min (int (length (pv_treeLines v))) (pv_treeOffset ?v + (h - 3)) - 1]" for i
  proof -
    have "0 \<le> i" "i < int (length (pv_treeLines v))" using that t(1) by (auto simp: proc_drawn_def)
    then show ?thesis using s t by (auto simp: tree_line_def at_int_def intro!: bind_some cut_some)
  qed
  then have "\<exists>ls. those (map (tree_line D ?v w) [pv_treeOffset ?v..min (int (length (pv_treeLines v))) (pv_treeOffset ?v + (h - 3)) - 1]) = Some ls"
    by (rule those_some)
  moreover have "pv_w ?v = pv_w v" "pv_h ?v = pv_h v" by (simp_all add: tree_scroll_def Let_def)
  ultimately show ?thesis using False t(1,2) Repeat_some [OF assms(3), of "'' ''"] by (auto simp: renderTreePanel_def Let_def)
qed (use assms in \<open>auto simp: renderTreePanel_def Let_def\<close>)

lemma node_fields_some: "11 \<le> w \<Longrightarrow> \<exists>ls. node_fields D th w n = Some ls"
  unfolding node_fields_def by (intro bind_some cut_some) auto

lemma length_ancestor_walk: "length (ancestor_walk ppid ns d k vis) \<le> d"
  by (induction ppid ns d k vis rule: ancestor_walk.induct) (auto split: option.splits)

lemma renderDetailPanel_some:
  assumes "proc_drawn v" "4 \<le> h"
  shows "\<exists>s. renderDetailPanel D v 34 h = Some s"
proof (cases "selected_node v")
  case (Inl r)
  then obtain s n where r: "r = Some (s, n)" using assms(1)
    by (auto simp: selected_node_def proc_drawn_def proc_ok_def at_int_def split: option.splits if_splits)
  let ?ancs = "Snapshot_Ancestors s (tn_key (pv_treeLines v ! nat (pv_treeSel v)))"
  have len: "length ?ancs \<le> 8" using length_ancestor_walk by (simp add: Snapshot_Ancestors_def MaxAncestors_def)
  have "\<exists>y. ancestor_line D (pv_theme v) 34 (sn_Key n) p = Some y" if "p \<in> set (enumerate 0 ?ancs)" for p
  proof -
    have "fst p < 8" using that len by (auto simp: in_set_enumerate_eq)
    then show ?thesis using cut_some [of "34 - int (fst p) * 2 - 6" "DisplayComm (snd p)"] by (cases p) (auto simp: ancestor_line_def Let_def)
  qed
  then have "\<exists>ls. those (map (ancestor_line D (pv_theme v) 34 (sn_Key n)) (enumerate 0 ?ancs)) = Some ls" by (rule those_some)
  then have a: "\<exists>ls. ancestry_section D (pv_theme v) 34 (sn_Key n) ?ancs = Some ls" by (auto simp: ancestry_section_def)
  have "\<exists>y. event_detail D (pv_theme v) 34 ev = Some y" for ev
    using cut_some [of 12 "ee_Process ev"] by (auto simp: event_detail_def)
  then have "\<exists>ls. those (map (event_detail D (pv_theme v) 34) evs) = Some ls" for evs by (intro those_some) blast
  then have e: "\<exists>ls. event_section D (pv_theme v) 34 (sn_Events n) = Some ls" by (auto simp: event_section_def)
  show ?thesis using Inl r a e assms(2) node_fields_some [of 34 D "pv_theme v" n]
    by (auto simp: renderDetailPanel_def Let_def intro!: bind_some first_lines_some)
qed (simp add: renderDetailPanel_def Let_def)

lemma Proc_View_some:
  assumes "proc_drawn v"
  shows "\<exists>s v1. Proc_View D v = Some (s, v1) \<and> proc_drawn v1"
proof -
  have d: "proc_drawn (v1\<lparr>pv_cached := c, pv_dirty := False\<rparr>)" if "proc_drawn v1" for v1 c
    using that by (simp add: proc_drawn_def proc_ok_def)
  have "\<exists>s v1. proc_render D v = Some (s, v1) \<and> proc_drawn v1"
  proof (cases "pv_w v = 0 \<or> pv_h v = 0 \<or> pv_h v - 2 < 4")
    case False
    let ?h = "pv_h v - 2" and ?w = "if pv_w v - 40 - 34 - 2 < 24 then 24 else pv_w v - 40 - 34 - 2"
    have h: "4 \<le> ?h" using False by simp
    obtain l where l: "renderContainerPanel D v 40 ?h = Some l" using renderContainerPanel_some [of ?h 40 D v] h by auto
    have w: "0 \<le> ?w" by simp
    obtain t v1 where t: "renderTreePanel D v ?w ?h = Some (t, v1)" "proc_drawn v1" using renderTreePanel_some [OF assms h w] by blast
    obtain r where "renderDetailPanel D v1 34 ?h = Some r" using renderDetailPanel_some [OF t(2) h] by blast
    then show ?thesis using False l t by (auto simp: proc_render_def Let_def)
  qed (use assms in \<open>auto simp: proc_render_def Let_def\<close>)
  then show ?thesis using assms d by (auto simp: Proc_View_def)
qed

text \<open>What the operations of a table leave alone.\<close>

definition table_frame :: "'r TableModel \<Rightarrow> 'r Column list \<times> int \<times> bool" where
  "table_frame m = (tb_columns m, tb_width m, tb_focused m)"

lemma table_frame_reindex [simp]: "table_frame (reindex m) = table_frame m"
  by (simp add: table_frame_def reindex_def Let_def)

lemma table_frame_ops [simp]:
  "table_frame (SetRows rows m) = table_frame m" "table_frame (SetFilter q fn m) = table_frame m" "table_frame (scrollToCursor m) = table_frame m"
  "table_frame (Table_SetTheme th m) = table_frame m"
  by (simp_all add: SetRows_def SetFilter_def Let_def scrollToCursor_def table_frame_def Table_SetTheme_def reindex_def)

lemma table_frame_cycle: "cycle_loop b m is = Some m' \<Longrightarrow> table_frame m' = table_frame m"
proof (induction "is")
  case (Cons i "is")
  have "table_frame (m\<lparr>tb_sortAsc := x\<rparr>) = table_frame m" "table_frame (m\<lparr>tb_sortCol := y, tb_sortAsc := x\<rparr>) = table_frame m" for x y
    by (simp_all add: table_frame_def)
  then show ?case using Cons by (auto simp: Let_def split: if_splits option.splits)
qed simp

lemma table_frame_Update: "Table_Update k m = Some m' \<Longrightarrow> table_frame m' = table_frame m"
proof -
  assume u: "Table_Update k m = Some m'"
  have c: "table_frame (m\<lparr>tb_cursor := c\<rparr>) = table_frame m" "table_frame (m\<lparr>tb_cursor := c, tb_offset := d\<rparr>) = table_frame m" for c d
    by (simp_all add: table_frame_def)
  show ?thesis using u table_frame_cycle [of _ m _ m'] by (auto simp: Table_Update_def moveUp_def moveDown_def cycleSort_def c split: if_splits)
qed

lemma table_frame_View:
  "table_frame (vw_tbl (View_SetRows rows v)) = table_frame (vw_tbl v)" "table_frame (vw_tbl (View_SetTheme th v)) = table_frame (vw_tbl v)"
  "table_frame (vw_tbl (View_Other v)) = table_frame (vw_tbl v)"
  "View_Update T matches k v = Some (v', c) \<Longrightarrow> table_frame (vw_tbl v') = table_frame (vw_tbl v)"
  using table_frame_Update [of k "vw_tbl v"]
  by (auto simp: View_SetRows_def View_SetTheme_def View_Other_def View_Update_def Let_def split: if_splits prod.splits)

definition fits :: "bool \<Rightarrow> 'r Column list \<times> int \<times> bool \<Rightarrow> bool" where
  "fits b f \<longleftrightarrow> cells_fit (fst f) \<and> (b \<longrightarrow> 8 \<le> fst (snd f))"

fun tab_sized :: "bool \<Rightarrow> ('ti, 'vp) TabView \<Rightarrow> bool" where
  "tab_sized b (OverviewTab v) = (b \<longrightarrow> 12 \<le> ov_w v)"
| "tab_sized b (CpuTab v) = fits b (table_frame (vw_tbl v))"
| "tab_sized b (MemoryTab v) = fits b (table_frame (vw_tbl v))"
| "tab_sized b (IoTab v) = fits b (table_frame (vw_tbl v))"
| "tab_sized b (NetworkTab v) = fits b (table_frame (vw_tbl v))"
| "tab_sized b (SyscallTab v) = fits b (table_frame (vw_tbl v))"
| "tab_sized b (EventsTab v) = True"
| "tab_sized b (GraphsTab v) = (b \<longrightarrow> 0 \<le> gv_w v)"
| "tab_sized b (ProcGraphTab v) = proc_drawn v"

lemma fits_table: "fits b (table_frame m) \<longleftrightarrow> cells_fit (tb_columns m) \<and> (b \<longrightarrow> 8 \<le> tb_width m)"
  by (simp add: fits_def table_frame_def)

lemma fits_View:
  "fits b (table_frame (vw_tbl (View_Focus v))) = fits b (table_frame (vw_tbl v))"
  "fits b (table_frame (vw_tbl (View_Blur v))) = fits b (table_frame (vw_tbl v))"
  "8 \<le> w \<Longrightarrow> fits b (table_frame (vw_tbl v)) \<Longrightarrow> fits b' (table_frame (vw_tbl (View_SetSize w h v)))"
  by (simp_all add: fits_table View_Focus_def View_Blur_def View_SetSize_def Table_Focus_def Table_Blur_def Table_SetSize_def)

lemma proc_frame_rebuild:
  assumes "rebuildTree v = Some v1"
  shows "pv_treeOffset v1 = pv_treeOffset v \<and> pv_snap v1 = pv_snap v \<and> (pv_treeLines v1 \<noteq> [] \<longrightarrow> pv_snap v1 \<noteq> None)"
  using assms by (auto simp: rebuildTree_def Let_def split: option.splits if_splits)

definition proc_kept :: "ProcView \<Rightarrow> ProcView \<Rightarrow> bool" where
  "proc_kept v v1 \<longleftrightarrow> pv_treeOffset v1 = pv_treeOffset v \<and> pv_snap v1 = pv_snap v \<and> (pv_treeLines v1 \<noteq> [] \<longrightarrow> pv_snap v1 \<noteq> None)"

lemma proc_kept_rebuild: "rebuildTree (v\<lparr>pv_cgroupSel := i\<rparr>) = Some v1 \<Longrightarrow> proc_kept v (invalidate v1)"
  using proc_frame_rebuild by (fastforce simp: proc_kept_def invalidate_def)

lemma proc_kept_nav:
  assumes "proc_drawn v"
  shows "navUp v = Some v1 \<Longrightarrow> proc_kept v v1" "navDown v = Some v1 \<Longrightarrow> proc_kept v v1" "navTop v = Some v1 \<Longrightarrow> proc_kept v v1"
    "proc_kept v (navBottom v)" "proc_kept v (invalidate (v\<lparr>pv_activePanel := p\<rparr>))" "proc_kept v v"
proof -
  have k: "proc_kept v (invalidate (v\<lparr>pv_treeSel := i\<rparr>))" "proc_kept v (invalidate v)" for i
    using assms by (simp_all add: proc_kept_def proc_drawn_def invalidate_def)
  show "navUp v = Some v1 \<Longrightarrow> proc_kept v v1" using k by (auto simp: navUp_def dest: proc_kept_rebuild split: if_splits)
  show "navDown v = Some v1 \<Longrightarrow> proc_kept v v1" using k by (auto simp: navDown_def dest: proc_kept_rebuild split: if_splits)
  show "navTop v = Some v1 \<Longrightarrow> proc_kept v v1" using k by (auto simp: navTop_def dest: proc_kept_rebuild split: if_splits)
  show "proc_kept v (navBottom v)" using k by (simp add: navBottom_def)
  show "proc_kept v (invalidate (v\<lparr>pv_activePanel := p\<rparr>))" "proc_kept v v"
    using assms by (simp_all add: proc_kept_def proc_drawn_def invalidate_def)
qed

lemma proc_kept_Update:
  assumes "proc_drawn v" "Proc_Update k v = Some v1"
  shows "proc_kept v v1"
proof -
  note n = proc_kept_nav [OF assms(1)]
  have i: "(\<forall>y. a = Some y \<longrightarrow> proc_kept v y) \<Longrightarrow> (\<forall>y. b = Some y \<longrightarrow> proc_kept v y) \<Longrightarrow> \<forall>y. (if c then a else b) = Some y \<longrightarrow> proc_kept v y"
    for a b and c :: bool by simp
  have "\<forall>y. Proc_Update k v = Some y \<longrightarrow> proc_kept v y"
    unfolding Proc_Update_def by (intro i) (use n in auto)
  then show ?thesis using assms(2) by blast
qed

lemma proc_drawn_steps:
  assumes "proc_drawn v"
  shows "Proc_SetData b v = Some v1 \<Longrightarrow> proc_drawn v1" "Proc_SetSize w h v = Some v1 \<Longrightarrow> proc_drawn v1"
    "Proc_Update k v = Some v1 \<Longrightarrow> proc_drawn v1" "proc_drawn (Proc_SetTheme th v)" "proc_drawn (Proc_Focus v)" "proc_drawn (Proc_Blur v)"
proof -
  have ok: "proc_ok v" using assms by (simp add: proc_drawn_def)
  have rb: "pv_treeOffset (rebuildCgroupList x) = pv_treeOffset x \<and> pv_snap (rebuildCgroupList x) = pv_snap x" for x
    by (simp add: rebuildCgroupList_def Let_def split: option.splits)
  show "proc_drawn v1" if d: "Proc_SetData b v = Some v1"
  proof -
    have "proc_ok v1" using d proc_ok_steps(1) [OF ok, of b] by auto
    then show ?thesis using d assms rb proc_frame_rebuild
      by (fastforce simp: proc_drawn_def Proc_SetData_def invalidate_def split: option.splits)
  qed
  show "proc_drawn v1" if d: "Proc_SetSize w h v = Some v1"
  proof -
    have "proc_ok v1" using d proc_ok_steps(2) [OF ok, of w h] by auto
    then show ?thesis using d assms proc_frame_rebuild by (fastforce simp: proc_drawn_def Proc_SetSize_def invalidate_def)
  qed
  show "proc_drawn v1" if d: "Proc_Update k v = Some v1"
  proof -
    have "proc_ok v1" using d proc_ok_steps(3) [OF ok, of k] by auto
    then show ?thesis using proc_kept_Update [OF assms d] assms by (auto simp: proc_drawn_def proc_kept_def)
  qed
  show "proc_drawn (Proc_SetTheme th v)" "proc_drawn (Proc_Focus v)" "proc_drawn (Proc_Blur v)"
    using assms proc_ok_steps(4-6) [OF ok] by (simp_all add: proc_drawn_def Proc_SetTheme_def Proc_Focus_def Proc_Blur_def invalidate_def)
qed

lemma table_sized_SetData:
  "fits c (table_frame (vw_tbl (fst (Cpu_SetData b v)))) = fits c (table_frame (vw_tbl v))"
  "fits c (table_frame (vw_tbl (fst (Memory_SetData b v2)))) = fits c (table_frame (vw_tbl v2))"
  "fits c (table_frame (vw_tbl (fst (Io_SetData b v3)))) = fits c (table_frame (vw_tbl v3))"
  "fits c (table_frame (vw_tbl (fst (Network_SetData b v4)))) = fits c (table_frame (vw_tbl v4))"
  "fits c (table_frame (vw_tbl (fst (Syscall_SetData b v5)))) = fits c (table_frame (vw_tbl v5))"
  by (simp_all add: Cpu_SetData_def Memory_SetData_def Io_SetData_def Network_SetData_def Syscall_SetData_def Let_def table_frame_View(1))

lemma gv_w_SetData: "Graphs_SetData b v = Some v1 \<Longrightarrow> gv_w v1 = gv_w v"
proof -
  assume d: "Graphs_SetData b v = Some v1"
  have g: "gv_w y = gv_w v" if "getGraphs n v = Some y" for n and v y :: "'a GraphsView"
    using that by (auto simp: getGraphs_def evict_oldest_def split: option.splits if_splits list.splits)
  have p: "gv_w y = gv_w v" if "push_graph upd n v = Some y" for upd n and v y :: "'a GraphsView"
    using that g by (auto simp: push_graph_def Let_def)
  have f: "gv_w y = gv_w v" if "fold_opt F xs v = Some y" "\<And>x v y. F x v = Some y \<Longrightarrow> gv_w y = gv_w v"
    for F and xs :: "'x list" and v y :: "'a GraphsView"
    using that(1) by (induction xs arbitrary: v) (auto dest: that(2) split: option.splits)
  show ?thesis using d unfolding Graphs_SetData_def
    by (auto dest!: f [OF _ p] simp: Option.bind_eq_Some_conv)
qed

lemma tab_sized_SetData: "tab_sized c t \<Longrightarrow> Tab_SetData b t = Some (t1, b1) \<Longrightarrow> tab_sized c t1"
  by (cases t) (auto simp: table_sized_SetData apfst_def map_prod_def case_prod_beta gv_w_SetData proc_drawn_steps(1)
      Overview_SetData_def Let_def)

lemma tab_sized_set_data_all:
  "list_all (tab_sized c) ts \<Longrightarrow> set_data_all b ts = Some (ts1, b1) \<Longrightarrow> list_all (tab_sized c) ts1"
  by (induction ts arbitrary: b ts1 b1)
    (auto simp: apfst_def map_prod_def case_prod_beta dest: tab_sized_SetData split: option.splits)

lemma tab_sized_SetSize:
  "tab_sized c t \<Longrightarrow> 12 \<le> w \<Longrightarrow> Tab_SetSize V w h t = Some t1 \<Longrightarrow> tab_sized c' t1"
  by (cases t) (auto simp: fits_View(3) proc_drawn_steps(2) Overview_SetSize_def Graphs_SetSize_def)

lemma tab_sized_set:
  assumes "tab_sized c t"
  shows "tab_sized c (Tab_SetTheme th t)" "tab_sized c (Tab_Focus t)" "tab_sized c (Tab_Blur t)" "tab_sized c (fst (Tab_Other V n t))"
proof -
  show "tab_sized c (Tab_SetTheme th t)"
    using assms by (cases t) (simp_all add: table_frame_View(1-3) proc_drawn_steps(4-6) Overview_SetTheme_def Graphs_SetTheme_def)
  show "tab_sized c (Tab_Focus t)" "tab_sized c (Tab_Blur t)"
    using assms by (cases t; simp add: fits_View proc_drawn_steps(4-6) Overview_Focus_def Graphs_Focus_def Overview_Blur_def Graphs_Blur_def)+
  show "tab_sized c (fst (Tab_Other V n t))"
    using assms by (cases t) (simp_all add: table_frame_View(1-3) case_prod_beta)
qed

lemma widths_Update: "ov_w (fst (Overview_Update V k v)) = ov_w v" "gv_w (fst (Graphs_Update V k g)) = gv_w g"
  by (simp_all add: Overview_Update_def Graphs_Update_def case_prod_beta)

lemma tab_sized_Update:
  assumes "tab_sized c t" "Tab_Update T V k t = Some (t1, cmd)"
  shows "tab_sized c t1"
proof (cases t)
  case (ProcGraphTab v)
  then show ?thesis using assms proc_drawn_steps(3) [of v k] by auto
next
  case (OverviewTab v)
  then show ?thesis using assms by (auto simp: apfst_def map_prod_def case_prod_beta widths_Update)
next
  case (GraphsTab v)
  then show ?thesis using assms by (auto simp: apfst_def map_prod_def case_prod_beta widths_Update)
qed (use assms in \<open>auto simp: apfst_def map_prod_def case_prod_beta Cpu_Update_def Memory_Update_def Io_Update_def
    Network_Update_def Syscall_Update_def dest!: table_frame_View(4)\<close>)

text \<open>A tab of a sized screen draws, and drawing keeps both invariants.\<close>

lemma View_Draw_fits:
  assumes "table_ok (vw_tbl v)" "fits True (table_frame (vw_tbl v))"
  shows "\<exists>s v1. View_Draw D T title v = Some (s, v1) \<and> vw_tbl v1 = vw_tbl v"
  using View_View_some [OF assms(1), of D T title] assms(2) by (auto simp: fits_table)

lemma Tab_View_some:
  assumes "tabview_ok t" "tab_sized True t"
  shows "\<exists>s t1. Tab_View D T V t = Some (s, t1) \<and> tabview_ok t1 \<and> tab_sized True t1"
proof (cases t)
  case (OverviewTab v)
  then obtain s v1 where "Overview_View D V v = Some (s, v1)" "ov_w v1 = ov_w v" using assms Overview_View_some [of v D V] by auto
  then show ?thesis using OverviewTab assms by simp
next
  case (GraphsTab v)
  then obtain s v1 where "Graphs_View D v = Some (s, v1)" "gv_w v1 = gv_w v" "graphs_ok v1 = graphs_ok v" using assms Graphs_View_some [of v D] by auto
  then show ?thesis using GraphsTab assms by simp
next
  case (ProcGraphTab v)
  then obtain s v1 where "Proc_View D v = Some (s, v1)" "proc_drawn v1" using assms Proc_View_some [of v D] by auto
  then show ?thesis using ProcGraphTab by (simp add: proc_drawn_def)
next
  case (EventsTab v)
  then show ?thesis by (simp add: apsnd_def map_prod_def case_prod_beta)
next
  case (CpuTab v)
  then obtain s v1 where "View_Draw D T '' M1 CPU Metrics'' v = Some (s, v1)" "vw_tbl v1 = vw_tbl v"
    using assms View_Draw_fits [of v D T "'' M1 CPU Metrics''"] by auto
  then show ?thesis using assms CpuTab by (simp add: Cpu_View_def)
next
  case (MemoryTab v)
  then obtain s v1 where "View_Draw D T '' M2 Memory Metrics'' v = Some (s, v1)" "vw_tbl v1 = vw_tbl v"
    using assms View_Draw_fits [of v D T "'' M2 Memory Metrics''"] by auto
  then show ?thesis using assms MemoryTab by (simp add: Memory_View_def)
next
  case (IoTab v)
  then obtain s v1 where "View_Draw D T '' M3 I/O Metrics'' v = Some (s, v1)" "vw_tbl v1 = vw_tbl v"
    using assms View_Draw_fits [of v D T "'' M3 I/O Metrics''"] by auto
  then show ?thesis using assms IoTab by (simp add: Io_View_def)
next
  case (NetworkTab v)
  then obtain s v1 where "View_Draw D T '' M4 Network Metrics'' v = Some (s, v1)" "vw_tbl v1 = vw_tbl v"
    using assms View_Draw_fits [of v D T "'' M4 Network Metrics''"] by auto
  then show ?thesis using assms NetworkTab by (simp add: Network_View_def)
next
  case (SyscallTab v)
  then obtain s v1 where "View_Draw D T '' M6 Syscall Top-5 per Container'' v = Some (s, v1)" "vw_tbl v1 = vw_tbl v"
    using assms View_Draw_fits [of v D T "'' M6 Syscall Top-5 per Container''"] by auto
  then show ?thesis using assms SyscallTab by (simp add: Syscall_View_def)
qed

section \<open>What holds of every tab\<close>

definition holds :: "(('ti, 'vp) TabView \<Rightarrow> bool) \<Rightarrow> (('ti, 'vp) DetailView \<Rightarrow> bool) \<Rightarrow> ('ti, 'vp) App \<Rightarrow> bool" where
  "holds tinv dinv a \<longleftrightarrow> list_all tinv (ap_tabViews a) \<and> dinv (ap_detailPg a)"

lemma activeView_nth: "activeView a = Some v \<Longrightarrow> v = ap_tabViews a ! nat (tbar_active (ap_tabs a)) \<and> v \<in> set (ap_tabViews a)"
  by (auto simp: activeView_def at_int_def split: if_splits)

lemma set_data_all_each:
  "set_data_all b ts = Some (ts1, b1) \<Longrightarrow> list_all2 (\<lambda>t t1. \<exists>b b1. Tab_SetData b t = Some (t1, b1)) ts ts1"
proof (induction ts arbitrary: b ts1 b1)
  case (Cons t ts)
  then obtain t1 b2 ts2 where "Tab_SetData b t = Some (t1, b2)" "set_data_all b2 ts = Some (ts2, b1)" "ts1 = t1 # ts2"
    by (auto simp: apfst_def map_prod_def case_prod_beta split: option.splits)
  then show ?case using Cons.IH by auto
qed simp

lemma those_each: "those (map f xs) = Some ys \<Longrightarrow> list_all2 (\<lambda>x y. f x = Some y) xs ys"
  by (induction xs arbitrary: ys) (auto split: option.splits)

lemma list_all2_inv: "list_all2 R xs ys \<Longrightarrow> list_all P xs \<Longrightarrow> (\<And>x y. P x \<Longrightarrow> R x y \<Longrightarrow> Q y) \<Longrightarrow> list_all Q ys"
  by (induction rule: list_all2_induct) auto

fun ordinary :: "Msg \<Rightarrow> bool" where
  "ordinary (WindowSizeMsg w h) = False"
| "ordinary (OtherMsg n) = False"
| "ordinary _ = True"

text \<open>
  A property of the tabs and of the page of a container that every message but a resize and
  those of the libraries keeps: the operations of a tab are what it has to be checked for.
\<close>

locale tab_invariant =
  fixes T :: "('ti, Cmd) TextInput" and V :: "('vp, Cmd) Viewport" and tinv :: "('ti, 'vp) TabView \<Rightarrow> bool"
    and dinv :: "('ti, 'vp) DetailView \<Rightarrow> bool"
  assumes tab_key: "tinv t \<Longrightarrow> Tab_Update T V k t = Some (t1, c) \<Longrightarrow> tinv t1"
    and tab_data: "tinv t \<Longrightarrow> Tab_SetData b t = Some (t1, b1) \<Longrightarrow> tinv t1"
    and tab_theme: "tinv t \<Longrightarrow> tinv (Tab_SetTheme th t)"
    and tab_focus: "tinv t \<Longrightarrow> tinv (Tab_Focus t)"
    and tab_blur: "tinv t \<Longrightarrow> tinv (Tab_Blur t)"
    and det_key: "dinv v \<Longrightarrow> dinv (fst (Detail_Update T V k v))"
    and det_data: "dinv v \<Longrightarrow> Detail_SetData b v = Some v1 \<Longrightarrow> dinv v1"
    and det_theme: "dinv v \<Longrightarrow> dinv (Detail_SetTheme th v)"
    and det_container: "dinv v \<Longrightarrow> dinv (SetContainer n v)"
begin

lemma holds_active: "holds tinv dinv a \<Longrightarrow> activeView a = Some v \<Longrightarrow> tinv v"
  using activeView_nth [of a v] by (auto simp: holds_def list_all_iff)

lemma holds_set_active: "holds tinv dinv a \<Longrightarrow> tinv v \<Longrightarrow> holds tinv dinv (set_active v a)"
  using set_update_subset_insert [of "ap_tabViews a" "nat (tbar_active (ap_tabs a))" v]
  by (auto simp: holds_def set_active_def list_all_iff)

lemma holds_cong: "holds tinv dinv a \<Longrightarrow> ap_tabViews a' = ap_tabViews a \<Longrightarrow> ap_detailPg a' = ap_detailPg a \<Longrightarrow> holds tinv dinv a'"
  by (simp add: holds_def)

lemma holds_theme: "holds tinv dinv a \<Longrightarrow> holds tinv dinv (applyTheme n a)"
  by (auto simp: holds_def applyTheme_def Let_def list_all_iff tab_theme det_theme)

lemma holds_select: "holds tinv dinv a \<Longrightarrow> select_tab t a = Some (a', c) \<Longrightarrow> holds tinv dinv a'"
proof -
  assume h: "holds tinv dinv a" and s: "select_tab t a = Some (a', c)"
  let ?b = "blurAll (a\<lparr>ap_tabs := t\<rparr>)"
  have b: "holds tinv dinv ?b" using h by (auto simp: holds_def blurAll_def list_all_iff tab_blur)
  obtain v where "activeView ?b = Some v" "a' = set_active (Tab_Focus v) ?b" using s by (auto simp: select_tab_def focus_active_def)
  then show ?thesis using holds_set_active [OF b tab_focus [OF holds_active [OF b]]] by simp
qed

lemma holds_delegate: "holds tinv dinv a \<Longrightarrow> delegate_key T V k a = Some (a', c) \<Longrightarrow> holds tinv dinv a'"
  using det_key [of "ap_detailPg a" k] holds_active [of a] tab_key holds_set_active [of a]
  by (auto simp: delegate_key_def case_prod_beta holds_def split: if_splits option.splits)

lemma holds_nav: "holds tinv dinv a \<Longrightarrow> holds tinv dinv (nav_detail n a)"
  by (simp add: holds_def nav_detail_def det_container)

lemma holds_global:
  assumes "holds tinv dinv a" "global_key T V k a = Some (a', c)"
  shows "holds tinv dinv a'"
  using assms(2)
proof (cases rule: global_key_cases)
  case (theme i)
  have "holds tinv dinv (a\<lparr>ap_themeIdx := i\<rparr>)" by (rule holds_cong [OF assms(1)]) simp_all
  then show ?thesis using theme holds_theme by simp
next
  case (tab t)
  then show ?thesis using holds_select assms(1) by blast
next
  case (delegate k')
  then show ?thesis using holds_delegate assms(1) by blast
next
  case (detail n)
  then show ?thesis using holds_nav assms(1) by simp
qed (use holds_cong [OF assms(1)] in simp_all)

lemma holds_key: "holds tinv dinv a \<Longrightarrow> handleKey T V k a = Some (a', c) \<Longrightarrow> holds tinv dinv a'"
  using holds_global [of a k a' c] holds_cong [of a]
  by (auto simp: handleKey_def case_prod_beta split: if_splits)

lemma holds_data: "holds tinv dinv a \<Longrightarrow> on_data b a = Some (a', c) \<Longrightarrow> holds tinv dinv a'"
proof -
  assume h: "holds tinv dinv a" and d: "on_data b a = Some (a', c)"
  obtain ts b1 v where s: "set_data_all b (ap_tabViews a) = Some (ts, b1)" "Detail_SetData b1 (ap_detailPg a) = Some v"
    "ap_tabViews a' = ts" "ap_detailPg a' = v"
    using d by (auto simp: on_data_def Let_def split: option.splits)
  have "list_all tinv ts" by (rule list_all2_inv [OF set_data_all_each [OF s(1)], of tinv]) (use h tab_data in \<open>auto simp: holds_def\<close>)
  then show ?thesis using s h det_data by (auto simp: holds_def)
qed

lemma holds_Update: "holds tinv dinv a \<Longrightarrow> ordinary m \<Longrightarrow> App_Update T V m a = Some (a', c) \<Longrightarrow> holds tinv dinv a'"
proof (cases m)
  case NavBackMsg
  assume h: "holds tinv dinv a" and u: "App_Update T V m a = Some (a', c)"
  have "holds tinv dinv (nav_back a)" by (rule holds_cong [OF h]) (simp_all add: nav_back_def)
  then show ?thesis using NavBackMsg u by simp
qed (auto dest: holds_data holds_key simp: holds_nav holds_theme)

end

section \<open>The screen is drawn\<close>

lemma dv_w_steps:
  "dv_w (fst (Detail_Update T V k v)) = dv_w v" "Detail_SetData b v = Some v1 \<Longrightarrow> dv_w v1 = dv_w v" "dv_w (Detail_SetTheme th v) = dv_w v"
  "dv_w (SetContainer n v) = dv_w v"
  by (auto simp: Detail_Update_def Detail_SetData_def Detail_SetTheme_def SetContainer_def Let_def case_prod_beta split: if_splits)

interpretation sized: tab_invariant T V "tab_sized c" "\<lambda>v. c \<longrightarrow> 0 \<le> dv_w v" for T V c
  by unfold_locales
    (auto simp: tab_sized_set dv_w_steps(1,3,4) dest: tab_sized_Update tab_sized_SetData dv_w_steps(2))

definition screen_sized :: "('ti, 'vp) App \<Rightarrow> bool" where
  "screen_sized a \<longleftrightarrow> (ap_termW a \<noteq> 0 \<longrightarrow> 0 \<le> ap_termW a) \<and>
     holds (tab_sized (ap_termW a \<noteq> 0)) (\<lambda>v. ap_termW a \<noteq> 0 \<longrightarrow> 0 \<le> dv_w v) a"

lemma termW_delegate: "delegate_key T V k a = Some (a', c) \<Longrightarrow> ap_termW a' = ap_termW a"
  by (auto simp: delegate_key_def set_active_def case_prod_beta split: if_splits option.splits)

lemma termW_select: "select_tab t a = Some (a', c) \<Longrightarrow> ap_termW a' = ap_termW a"
  by (auto simp: select_tab_def focus_active_def blurAll_def set_active_def)

lemma termW_global: "global_key T V k a = Some (a', c) \<Longrightarrow> ap_termW a' = ap_termW a"
  by (erule global_key_cases)
    (simp_all add: termW_delegate termW_select applyTheme_def nav_detail_def Let_def)

lemma termW_Update: "ordinary m \<Longrightarrow> App_Update T V m a = Some (a', c) \<Longrightarrow> ap_termW a' = ap_termW a"
  using termW_global [of T V _ a a' c]
  by (cases m) (auto simp: handleKey_def on_data_def nav_detail_def nav_back_def applyTheme_def Let_def case_prod_beta split: if_splits option.splits)

text \<open>The sizes a terminal reports are not negative.\<close>

fun size_ok :: "Msg \<Rightarrow> bool" where
  "size_ok (WindowSizeMsg w h) = (0 \<le> w)"
| "size_ok _ = True"

lemma screen_sized_Update:
  assumes "screen_sized a" "size_ok m" "App_Update T V m a = Some (a', c)"
  shows "screen_sized a'"
proof (cases m)
  case (WindowSizeMsg w h)
  let ?l = "Layout_New w h"
  obtain ts where ts: "those (map (Tab_SetSize V (ContentW ?l) (BodyH ?l)) (ap_tabViews a)) = Some ts" "ap_tabViews a' = ts" "ap_termW a' = w"
    "ap_detailPg a' = Detail_SetSize V (ContentW ?l) (BodyH ?l) (ap_detailPg a)"
    using assms(3) WindowSizeMsg by (auto simp: on_resize_def Let_def)
  have "list_all (tab_sized (w \<noteq> 0)) ts"
    by (rule list_all2_inv [OF those_each [OF ts(1)], of "tab_sized (ap_termW a \<noteq> 0)"])
      (use assms(1) ContentW_bound [of ?l] in \<open>auto simp: screen_sized_def holds_def intro: tab_sized_SetSize [where w = "ContentW ?l"]\<close>)
  then show ?thesis using ts assms(2) WindowSizeMsg ContentW_bound [of ?l] by (simp add: screen_sized_def holds_def Detail_SetSize_def)
next
  case (OtherMsg n)
  have h: "holds (tab_sized (ap_termW a \<noteq> 0)) (\<lambda>v. ap_termW a \<noteq> 0 \<longrightarrow> 0 \<le> dv_w v) a" using assms(1) by (simp add: screen_sized_def)
  note s = sized.holds_set_active [OF h] and act = sized.holds_active [OF h]
  have "holds (tab_sized (ap_termW a \<noteq> 0)) (\<lambda>v. ap_termW a \<noteq> 0 \<longrightarrow> 0 \<le> dv_w v) a' \<and> ap_termW a' = ap_termW a"
    using assms(3) OtherMsg h s [OF tab_sized_set(4) [OF act]]
    by (auto simp: on_other_def case_prod_beta Let_def holds_def set_active_def split: if_splits)
  then show ?thesis using assms(1) by (simp add: screen_sized_def)
qed (use assms sized.holds_Update [of _ a m T V a' c] termW_Update [of m T V a a' c] in \<open>auto simp: screen_sized_def\<close>)

lemma screen_sized_New: "screen_sized (App_New T V cfg demo)"
proof -
  have "proc_drawn (Proc_New th)" for th using proc_ok_New by (simp add: proc_drawn_def Proc_New_def)
  moreover have "cells_fit cpu_columns" "cells_fit mem_columns" "cells_fit io_columns" "cells_fit net_columns" "cells_fit sys_columns"
    by (simp_all add: cells_fit_def cpu_columns_def mem_columns_def io_columns_def net_columns_def sys_columns_def column_def plain_column_def)
  ultimately show ?thesis
    by (simp add: screen_sized_def holds_def App_New_def Let_def Cpu_New_def Memory_New_def Io_New_def Network_New_def Syscall_New_def
        View_New_def Table_New_def fits_table)
qed

lemma App_View_some:
  assumes "app_ok a" "screen_sized a" "typed_plain T"
  shows "\<exists>s a'. App_View D T V now a = Some (s, a') \<and> app_ok a' \<and> screen_sized a'"
proof (cases "ap_termW a = 0")
  case False
  have h: "holds (tab_sized True) (\<lambda>v. 0 \<le> dv_w v) a" "0 \<le> ap_termW a" using assms(2) False by (simp_all add: screen_sized_def)
  obtain v where v: "activeView a = Some v" "tabview_ok v" using app_ok_active [OF assms(1)] by blast
  have "tab_sized True v" using h(1) activeView_nth [OF v(1)] by (auto simp: holds_def list_all_iff)
  then obtain s v1 where t: "Tab_View D T V v = Some (s, v1)" "tabview_ok v1" "tab_sized True v1"
    using Tab_View_some [OF v(2), of D T V] by blast
  have sz: "screen_sized (set_active v1 a)" using sized.holds_set_active [of True a v1] h t(3) False
    by (simp add: screen_sized_def set_active_def)
  obtain d s' where d: "Detail_View D T (ap_detailPg a) = Some (s', d)" "dv_w d = dv_w (ap_detailPg a)" "detail_ok d"
    using Detail_View_some [of "ap_detailPg a" D T] h(1) assms(1) by (auto simp: holds_def app_ok_def)
  have sd: "app_ok (a\<lparr>ap_detailPg := d\<rparr>)" "screen_sized (a\<lparr>ap_detailPg := d\<rparr>)"
    using app_ok_parts(2) [OF assms(1) d(3)] h d(2) False by (simp_all add: screen_sized_def holds_def)
  obtain blank where "Repeat '' '' (ap_termW a) = Some blank" using Repeat_some [OF h(2)] by blast
  then obtain l where l: "renderLoading D a = Some l" by (simp add: renderLoading_def)
  have "\<exists>st. renderStatusBar D a = Some st" using v by (simp add: renderStatusBar_def)
  then obtain st where st: "renderStatusBar D a = Some st" by blast
  obtain p where p: "Palette_View D T (ap_termW a) (ap_termH a) (ap_palette a) = Some p" using Palette_View_some [OF assms(3)] by blast
  have "\<exists>s a'. screen_content D T V a = Some (s, a') \<and> app_ok a' \<and> screen_sized a'"
    using v t d l sd sz app_ok_set_active [OF assms(1) t(2)] assms by (cases "ap_state a") (simp_all add: screen_content_def)
  then show ?thesis using False st p by (auto simp: App_View_def Let_def)
qed (use assms in \<open>simp add: App_View_def\<close>)

text \<open>What may happen on a screen: safe messages with sizes that are not negative, and drawings.\<close>

fun event_safe :: "Event \<Rightarrow> bool" where
  "event_safe (Got m) \<longleftrightarrow> msg_safe m \<and> size_ok m"
| "event_safe (Draw now) \<longleftrightarrow> True"

lemma Screen_run_safe:
  assumes "typed_plain T" and "app_ok a" "screen_sized a" "\<forall>e \<in> set es. event_safe e"
  shows "\<exists>outs a'. Screen_run D T V es a = Some (outs, a') \<and> app_ok a' \<and> screen_sized a'"
  using assms(2-)
proof (induction es arbitrary: a)
  case (Cons e es)
  show ?case
  proof (cases e)
    case (Got m)
    obtain a1 c where "App_Update T V m a = Some (a1, c)" "app_ok a1" using App_Update_safe [OF Cons.prems(1), of m T V] Cons.prems(3) Got by auto
    moreover from this have "screen_sized a1" using screen_sized_Update [OF Cons.prems(2), of m T V a1 c] Cons.prems(3) Got by simp
    ultimately show ?thesis using Cons.IH [of a1] Cons.prems(3) Got by simp
  next
    case (Draw now)
    obtain s a1 where "App_View D T V now a = Some (s, a1)" "app_ok a1" "screen_sized a1" using App_View_some [OF Cons.prems(1,2) assms(1)] by blast
    then show ?thesis using Cons.IH [of a1] Cons.prems(3) Draw by (auto simp: apfst_def map_prod_def)
  qed
qed simp

lemma Screen_run_length: "Screen_run D T V es a = Some (screens, a') \<Longrightarrow> length screens = length (filter is_Draw es)"
proof (induction es arbitrary: a screens)
  case (Cons e es)
  then show ?case by (cases e) (auto simp: Option.bind_eq_Some_conv apfst_def map_prod_def)
qed simp

end
