(* ===== verification/TuiRedraw.thy ===== *)
theory TuiRedraw
  imports TuiScreen
begin

text \<open>
  The caches of the views: every \<open>View\<close> of \<open>internal/tui/views\<close> keeps the text it drew and the
  flag \<open>dirty\<close>, and draws the old text while the flag is unset. A view is fresh when drawing it anew
  would show the same; drawing a fresh view leaves a fresh view, but for the tab with the graphs.
\<close>

section \<open>The caches hide nothing\<close>

fun is_graphs :: "('ti, 'vp) TabView \<Rightarrow> bool" where "is_graphs (GraphsTab v) = True" | "is_graphs _ = False"

fun tab_dirty :: "('ti, 'vp) TabView \<Rightarrow> ('ti, 'vp) TabView" where
  "tab_dirty (OverviewTab v) = OverviewTab (v\<lparr>ov_dirty := True\<rparr>)"
| "tab_dirty (CpuTab v) = CpuTab (v\<lparr>vw_dirty := True\<rparr>)"
| "tab_dirty (MemoryTab v) = MemoryTab (v\<lparr>vw_dirty := True\<rparr>)"
| "tab_dirty (IoTab v) = IoTab (v\<lparr>vw_dirty := True\<rparr>)"
| "tab_dirty (NetworkTab v) = NetworkTab (v\<lparr>vw_dirty := True\<rparr>)"
| "tab_dirty (SyscallTab v) = SyscallTab (v\<lparr>vw_dirty := True\<rparr>)"
| "tab_dirty (EventsTab v) = EventsTab (v\<lparr>ev_dirty := True\<rparr>)"
| "tab_dirty (GraphsTab v) = GraphsTab (v\<lparr>gv_dirty := True\<rparr>)"
| "tab_dirty (ProcGraphTab v) = ProcGraphTab (v\<lparr>pv_dirty := True\<rparr>)"

text \<open>A view is fresh when drawing it anew would show the same.\<close>

definition fresh :: "'vp Drawing \<Rightarrow> ('ti, Cmd) TextInput \<Rightarrow> ('vp, Cmd) Viewport \<Rightarrow> ('ti, 'vp) TabView \<Rightarrow> bool" where
  "fresh D T V t \<longleftrightarrow> map_option fst (Tab_View D T V t) = map_option fst (Tab_View D T V (tab_dirty t))"

definition fresh_detail :: "'vp Drawing \<Rightarrow> ('ti, Cmd) TextInput \<Rightarrow> ('ti, 'vp) DetailView \<Rightarrow> bool" where
  "fresh_detail D T v \<longleftrightarrow> map_option fst (Detail_View D T v) = map_option fst (Detail_View D T (v\<lparr>dv_dirty := True\<rparr>))"

text \<open>
  What the viewport of the library promises: setting the content it has changes nothing, nor
  does going to the bottom once more, and a viewport at the bottom stays there when its content is set again.
\<close>

definition viewport_laws :: "'vp Drawing \<Rightarrow> ('vp, 'cmd) Viewport \<Rightarrow> bool" where
  "viewport_laws D V \<longleftrightarrow>
     (\<forall>c vp. dr_SetContent D c (dr_SetContent D c vp) = dr_SetContent D c vp) \<and>
     (\<forall>c vp. dr_SetContent D c (vp_GotoBottom V (dr_SetContent D c vp)) = vp_GotoBottom V (dr_SetContent D c vp)) \<and>
     (\<forall>vp. vp_GotoBottom V (vp_GotoBottom V vp) = vp_GotoBottom V vp)"

lemma viewport_again:
  "viewport_laws D V \<Longrightarrow> follow_bottom V f (dr_SetContent D c (follow_bottom V f (dr_SetContent D c vp))) = follow_bottom V f (dr_SetContent D c vp)"
  "viewport_laws D V \<Longrightarrow> dr_SetContent D c (dr_SetContent D c vp) = dr_SetContent D c vp"
  by (simp_all add: viewport_laws_def follow_bottom_def)

text \<open>Drawing leaves a fresh view.\<close>

lemma Table_redraw:
  assumes "View_Draw D T title v = Some (s, v1)" "map_option fst (View_Draw D T title v) = map_option fst (View_Draw D T title (v\<lparr>vw_dirty := True\<rparr>))"
  shows "map_option fst (View_Draw D T title v1) = map_option fst (View_Draw D T title (v1\<lparr>vw_dirty := True\<rparr>))"
proof (cases "\<not> vw_dirty v \<and> vw_cached v \<noteq> []")
  case True
  then have "v1 = v" using assms(1) by (auto simp: View_Draw_def View_View_def)
  then show ?thesis using assms(2) by simp
next
  case False
  have lt: "line_text D (v\<lparr>vw_cached := c, vw_dirty := b\<rparr>) = line_text D v" for c b
  proof
    fix l show "line_text D (v\<lparr>vw_cached := c, vw_dirty := b\<rparr>) l = line_text D v l" by (cases "(D, v, l)" rule: line_text.cases) simp_all
  qed
  show ?thesis using assms(1) False
    by (auto simp: View_Draw_def View_View_def Let_def lt split: option.splits if_splits)
qed

lemma Events_redraw:
  assumes "viewport_laws D V" "Events_View D T V v = (s, v1)" "fst (Events_View D T V v) = fst (Events_View D T V (v\<lparr>ev_dirty := True\<rparr>))"
  shows "fst (Events_View D T V v1) = fst (Events_View D T V (v1\<lparr>ev_dirty := True\<rparr>))"
proof (cases "\<not> ev_dirty v \<and> ev_cached v \<noteq> []")
  case True
  then have "v1 = v" using assms(2) by (auto simp: Events_View_def)
  then show ?thesis using assms(3) by simp
next
  case False
  have b: "buildLines F c (v\<lparr>ev_vp := x, ev_cached := y, ev_dirty := z\<rparr>) = buildLines F c v" for F c x y z
    by (simp add: buildLines_def)
  show ?thesis using assms(2) False by (auto simp: Events_View_def Let_def b viewport_again [OF assms(1)])
qed

lemma ensureHist_present: "n \<in> fst ` set hs \<Longrightarrow> ensureHist n hs = hs"
  using map_of_some [of n hs] by (auto simp: ensureHist_def)

lemma batch_hists_again: "batch_hists b (batch_hists b hs) = batch_hists b hs"
proof -
  have f: "nm ` set xs \<subseteq> fst ` set ks \<Longrightarrow> fold (\<lambda>s. ensureHist (nm s)) xs ks = ks" for nm and xs :: "'s list" and ks
    by (induction xs) (auto simp: ensureHist_present)
  show ?thesis
    unfolding batch_hists_def [of b "batch_hists b hs"] by (subst f) (auto simp: f batch_hists_keys)
qed

lemma overview_content_again:
  assumes "overview_content D v = Some (c, hs)"
  shows "overview_content D (v\<lparr>ov_vp := x, ov_hists := hs, ov_cached := y, ov_dirty := z\<rparr>) = Some (c, hs)"
proof (cases "ov_batches v = []")
  case False
  let ?b = "as_sorted (last (ov_batches v))"
  have "hs = batch_hists ?b (ov_hists v)" using assms False by (auto simp: overview_content_def renderBatch_def Let_def Option.bind_eq_Some_conv)
  then show ?thesis using assms False by (simp add: overview_content_def renderBatch_def Let_def batch_hists_again)
qed (use assms in \<open>simp add: overview_content_def\<close>)

lemma Overview_redraw:
  assumes "viewport_laws D V" "Overview_View D V v = Some (s, v1)" "map_option fst (Overview_View D V v) = map_option fst (Overview_View D V (v\<lparr>ov_dirty := True\<rparr>))"
  shows "map_option fst (Overview_View D V v1) = map_option fst (Overview_View D V (v1\<lparr>ov_dirty := True\<rparr>))"
proof (cases "\<not> ov_dirty v \<and> ov_cached v \<noteq> []")
  case True
  then have "v1 = v" using assms(2) by (auto simp: Overview_View_def)
  then show ?thesis using assms(3) by simp
next
  case False
  obtain c hs where c: "overview_content D v = Some (c, hs)"
    using assms(2) False by (auto simp: Overview_View_def Option.bind_eq_Some_conv split: if_splits)
  show ?thesis using assms(2) False c overview_content_again [OF c]
    by (auto simp: Overview_View_def Let_def viewport_again [OF assms(1)])
qed

lemma Detail_redraw:
  assumes "viewport_laws D V" "Detail_View D T v = Some (s, v1)" "fresh_detail D T v"
  shows "fresh_detail D T v1"
proof (cases "\<not> dv_dirty v \<and> dv_cached v \<noteq> []")
  case True
  then have "v1 = v" using assms(2) by (auto simp: Detail_View_def)
  then show ?thesis using assms(3) by simp
next
  case False
  have b: "Detail_buildContent D T (v\<lparr>dv_vp := x, dv_cached := y, dv_dirty := z\<rparr>) = Detail_buildContent D T v" for x y z
    by (simp add: Detail_buildContent_def renderResources_def renderNetwork_def renderSyscalls_def renderEvents_def Let_def cong: if_cong)
  obtain c where c: "Detail_buildContent D T v = Some c" using assms(2) False by (auto simp: Detail_View_def Option.bind_eq_Some_conv split: if_splits)
  show ?thesis using assms(2) False c by (auto simp: fresh_detail_def Detail_View_def Let_def b viewport_again [OF assms(1)])
qed

text \<open>The process graph draws from fields the drawing does not touch, but for the offset of the tree, which settles.\<close>

definition same_proc :: "ProcView \<Rightarrow> ProcView \<Rightarrow> bool" where
  "same_proc v v1 \<longleftrightarrow> (\<exists>x y z. v1 = v\<lparr>pv_treeOffset := x, pv_cached := y, pv_dirty := z\<rparr>)"

lemma countForKey_same: "countForKey (v\<lparr>pv_treeOffset := x, pv_cached := y, pv_dirty := z\<rparr>) = countForKey v"
  by (simp add: countForKey_def fun_eq_iff)

lemma container_panel_same: "same_proc v v1 \<Longrightarrow> renderContainerPanel D v1 w h = renderContainerPanel D v w h"
  by (auto simp: same_proc_def renderContainerPanel_def container_row_def countForKey_same panel_border_def)

lemma detail_panel_same: "same_proc v v1 \<Longrightarrow> renderDetailPanel D v1 w h = renderDetailPanel D v w h"
proof -
  assume "same_proc v v1"
  then obtain x y z where v1: "v1 = v\<lparr>pv_treeOffset := x, pv_cached := y, pv_dirty := z\<rparr>" by (auto simp: same_proc_def)
  have s: "selected_node v1 = selected_node v" unfolding v1 by (cases "pv_snap v") (simp_all add: selected_node_def)
  have f: "pv_treeLines v1 = pv_treeLines v" "pv_treeSel v1 = pv_treeSel v" "pv_theme v1 = pv_theme v" "panel_border v1 p = panel_border v p" for p
    by (simp_all add: v1 panel_border_def)
  show ?thesis unfolding renderDetailPanel_def s f ..
qed

lemma same_proc_refl: "same_proc v v"
  unfolding same_proc_def by (intro exI [of _ "pv_treeOffset v"] exI [of _ "pv_cached v"] exI [of _ "pv_dirty v"]) simp

lemma tree_scroll_again:
  assumes "4 \<le> h"
  shows "tree_scroll h ((tree_scroll h v)\<lparr>pv_cached := y, pv_dirty := z\<rparr>) = (tree_scroll h v)\<lparr>pv_cached := y, pv_dirty := z\<rparr>"
    and "\<exists>x. tree_scroll h v = v\<lparr>pv_treeOffset := x\<rparr>"
  using assms by (auto simp: tree_scroll_def Let_def intro: exI [of _ "pv_treeOffset v"])

lemma tree_panel_again:
  assumes "renderTreePanel D v w h = Some (t, v1)" "4 \<le> h"
  shows "same_proc v v1 \<and> renderTreePanel D (v1\<lparr>pv_cached := y, pv_dirty := z\<rparr>) w h = Some (t, v1\<lparr>pv_cached := y, pv_dirty := z\<rparr>)"
proof (cases "pv_treeLines v = []")
  case True
  then have "v1 = v" using assms by (auto simp: renderTreePanel_def Let_def)
  then show ?thesis using True assms same_proc_refl by (simp add: renderTreePanel_def panel_border_def Let_def)
next
  case False
  obtain x where x: "tree_scroll h v = v\<lparr>pv_treeOffset := x\<rparr>" using tree_scroll_again(2) [OF assms(2)] by blast
  have l: "tree_line D (u\<lparr>pv_cached := y, pv_dirty := z\<rparr>) w = tree_line D u w" for u y z
    by (simp add: tree_line_def tree_style_def fun_eq_iff)
  have v1: "v1 = v\<lparr>pv_treeOffset := x\<rparr>" using assms(1) False x by (auto simp: renderTreePanel_def Let_def Option.bind_eq_Some_conv)
  have "tree_scroll h (v1\<lparr>pv_cached := y, pv_dirty := z\<rparr>) = v1\<lparr>pv_cached := y, pv_dirty := z\<rparr>"
    using tree_scroll_again(1) [OF assms(2), where v = v and y = y and z = z] x v1 by simp
  moreover have "same_proc v v1" using v1 by (auto simp: same_proc_def intro!: exI [of _ x] exI [of _ "pv_cached v"] exI [of _ "pv_dirty v"])
  ultimately show ?thesis using assms(1) False x v1 l [where u = "v\<lparr>pv_treeOffset := x\<rparr>"]
    by (auto simp: renderTreePanel_def panel_border_def Let_def Option.bind_eq_Some_conv)
qed

lemma proc_render_again:
  assumes "proc_render D v = Some (s, v1)"
  shows "\<exists>v2. proc_render D (v1\<lparr>pv_cached := y, pv_dirty := z\<rparr>) = Some (s, v2)"
proof (cases "pv_w v = 0 \<or> pv_h v = 0 \<or> pv_h v - 2 < 4")
  case True
  then show ?thesis using assms by (auto simp: proc_render_def Let_def split: if_splits)
next
  case False
  let ?h = "pv_h v - 2" and ?w = "if pv_w v - 40 - 34 - 2 < 24 then 24 else pv_w v - 40 - 34 - 2"
  let ?u = "v1\<lparr>pv_cached := y, pv_dirty := z\<rparr>"
  have h: "4 \<le> ?h" using False by simp
  obtain l t r where p: "renderContainerPanel D v 40 ?h = Some l" "renderTreePanel D v ?w ?h = Some (t, v1)" "renderDetailPanel D v1 34 ?h = Some r"
    using assms False by (auto simp: proc_render_def Let_def Option.bind_eq_Some_conv split: if_splits)
  have t: "same_proc v v1" "renderTreePanel D ?u ?w ?h = Some (t, ?u)" using tree_panel_again [OF p(2) h] by blast+
  obtain x yy zz where x: "v1 = v\<lparr>pv_treeOffset := x, pv_cached := yy, pv_dirty := zz\<rparr>" using t(1) by (auto simp: same_proc_def)
  have u: "same_proc v ?u" "same_proc v1 ?u" using x by (auto simp: same_proc_def intro: exI [of _ x])
  have f: "pv_w ?u = pv_w v" "pv_h ?u = pv_h v" "pv_theme ?u = pv_theme v" using x by simp_all
  show ?thesis using assms False p t(2) container_panel_same [OF u(1), of D 40 ?h] detail_panel_same [OF u(2), of D 34 ?h]
    unfolding proc_render_def f Let_def by simp
qed

lemma Proc_redraw:
  assumes "Proc_View D v = Some (s, v1)" "map_option fst (Proc_View D v) = map_option fst (Proc_View D (v\<lparr>pv_dirty := True\<rparr>))"
  shows "map_option fst (Proc_View D v1) = map_option fst (Proc_View D (v1\<lparr>pv_dirty := True\<rparr>))"
proof (cases "\<not> pv_dirty v \<and> pv_cached v \<noteq> []")
  case True
  then have "v1 = v" using assms(1) by (auto simp: Proc_View_def)
  then show ?thesis using assms(2) by simp
next
  case False
  obtain v2 where v2: "proc_render D v = Some (s, v2)" "v1 = v2\<lparr>pv_cached := s, pv_dirty := False\<rparr>"
    using assms(1) False by (auto simp: Proc_View_def)
  obtain v3 where "proc_render D (v2\<lparr>pv_cached := s, pv_dirty := True\<rparr>) = Some (s, v3)" using proc_render_again [OF v2(1)] by blast
  moreover obtain v4 where "proc_render D (v2\<lparr>pv_cached := s, pv_dirty := False\<rparr>) = Some (s, v4)" using proc_render_again [OF v2(1)] by blast
  ultimately show ?thesis using v2(2) by (auto simp: Proc_View_def)
qed

lemma Tab_redraw:
  assumes "viewport_laws D V" "Tab_View D T V t = Some (s, t1)" "fresh D T V t" "\<not> is_graphs t"
  shows "fresh D T V t1"
proof (cases t)
  case (EventsTab v)
  obtain v1 where "Events_View D T V v = (s, v1)" "t1 = EventsTab v1" using assms(2) EventsTab by (cases "Events_View D T V v") auto
  then show ?thesis using Events_redraw [OF assms(1), of T v s v1] assms(3) EventsTab by (simp add: fresh_def)
qed (use assms in \<open>auto simp: fresh_def Cpu_View_def Memory_View_def Io_View_def Network_View_def Syscall_View_def option.map_comp comp_def
      dest: Overview_redraw Table_redraw Proc_redraw\<close>)

end
