(* ===== verification/TuiCurrent.thy ===== *)
theory TuiCurrent
  imports TuiRedraw
begin

text \<open>
  The screen is current: after any run of messages, resizes and drawings the tab shown (but for the
  one with the graphs, which does not mark itself dirty when it is scrolled) and the page of a
  container show what they would show with every cache dropped.
\<close>

text \<open>Every operation but those below marks the view dirty or leaves it as it is.\<close>

fun is_dirty :: "('ti, 'vp) TabView \<Rightarrow> bool" where
  "is_dirty (OverviewTab v) = ov_dirty v"
| "is_dirty (CpuTab v) = vw_dirty v"
| "is_dirty (MemoryTab v) = vw_dirty v"
| "is_dirty (IoTab v) = vw_dirty v"
| "is_dirty (NetworkTab v) = vw_dirty v"
| "is_dirty (SyscallTab v) = vw_dirty v"
| "is_dirty (EventsTab v) = ev_dirty v"
| "is_dirty (GraphsTab v) = gv_dirty v"
| "is_dirty (ProcGraphTab v) = pv_dirty v"

lemma dirty_same:
  "vw_dirty v \<Longrightarrow> v\<lparr>vw_dirty := True\<rparr> = v" "ov_dirty o' \<Longrightarrow> o'\<lparr>ov_dirty := True\<rparr> = o'" "ev_dirty e \<Longrightarrow> e\<lparr>ev_dirty := True\<rparr> = e"
  "gv_dirty g \<Longrightarrow> g\<lparr>gv_dirty := True\<rparr> = g" "pv_dirty p \<Longrightarrow> p\<lparr>pv_dirty := True\<rparr> = p" "dv_dirty d \<Longrightarrow> d\<lparr>dv_dirty := True\<rparr> = d"
       apply (cases v, simp)
      apply (cases o', simp)
     apply (cases e, simp)
    apply (cases g, simp)
   apply (cases p, simp)
  apply (cases d, simp)
  done

lemma tab_dirty_same: "is_dirty t \<Longrightarrow> tab_dirty t = t"
  by (cases t) (simp_all add: dirty_same)

lemma fresh_dirty: "is_dirty t \<Longrightarrow> fresh D T V t"
  by (simp add: fresh_def tab_dirty_same)

lemma focus_simps [simp]:
  "Tab_Focus (Tab_Focus t) = Tab_Focus t" "Tab_Focus (Tab_Blur t) = Tab_Focus t" "is_dirty (Tab_Focus t) = is_dirty t"
  "is_graphs (Tab_Focus t) = is_graphs t" "is_graphs (Tab_Blur t) = is_graphs t" "is_graphs (Tab_SetTheme th t) = is_graphs t"
  by (cases t; simp add: View_Focus_def View_Blur_def Table_Focus_def Table_Blur_def Overview_Focus_def Overview_Blur_def Events_Focus_def
      Events_Blur_def Graphs_Focus_def Graphs_Blur_def Proc_Focus_def Proc_Blur_def)+

lemma View_Update_dirty: "View_Update T matches k v = Some (v1, c) \<Longrightarrow> vw_dirty v1"
  by (auto simp: View_Update_def Let_def split: if_splits prod.splits)

lemma Proc_Update_dirty: "Proc_Update k v = Some v1 \<Longrightarrow> pv_dirty v1 \<or> v1 = v"
proof -
  assume a: "Proc_Update k v = Some v1"
  have i: "(\<forall>y. a = Some y \<longrightarrow> pv_dirty y \<or> y = v) \<Longrightarrow> (\<forall>y. b = Some y \<longrightarrow> pv_dirty y \<or> y = v) \<Longrightarrow>
      \<forall>y. (if c then a else b) = Some y \<longrightarrow> pv_dirty y \<or> y = v" for a b and c :: bool by simp
  have "\<forall>y. Proc_Update k v = Some y \<longrightarrow> pv_dirty y \<or> y = v"
    unfolding Proc_Update_def by (intro i) (auto simp: navUp_def navDown_def navTop_def navBottom_def invalidate_def)
  then show ?thesis using a by blast
qed

lemma Events_Update_dirty: "ev_dirty (fst (Events_Update T V k v))"
  by (simp add: Events_Update_def Let_def case_prod_beta)

lemma Overview_Update_dirty: "ov_dirty (fst (Overview_Update V k v))"
  by (simp add: Overview_Update_def Let_def case_prod_beta)

lemma Tab_Update_dirty: "Tab_Update T V k t = Some (t1, c) \<Longrightarrow> is_dirty t1 \<or> t1 = t \<or> is_graphs t1"
  by (cases t) (auto simp: Events_Update_dirty Overview_Update_dirty apfst_def map_prod_def case_prod_beta Cpu_Update_def Memory_Update_def Io_Update_def Network_Update_def Syscall_Update_def
      dest: View_Update_dirty Proc_Update_dirty)

lemma Tab_SetData_dirty: "Tab_SetData b t = Some (t1, b1) \<Longrightarrow> is_dirty t1 \<or> t1 = t \<or> is_graphs t1"
  by (cases t) (auto simp: apfst_def map_prod_def case_prod_beta Overview_SetData_def Cpu_SetData_def Memory_SetData_def Io_SetData_def
      Network_SetData_def Syscall_SetData_def View_SetRows_def Events_SetData_def Proc_SetData_def invalidate_def Let_def split: option.splits)

lemma Tab_SetTheme_dirty: "is_dirty (Tab_SetTheme th t)"
  by (cases t) (simp_all add: Overview_SetTheme_def View_SetTheme_def Events_SetTheme_def Graphs_SetTheme_def Proc_SetTheme_def invalidate_def)

lemma Tab_SetSize_dirty: "Tab_SetSize V w h t = Some t1 \<Longrightarrow> is_dirty t1"
  by (cases t) (auto simp: Overview_SetSize_def View_SetSize_def Events_SetSize_def Graphs_SetSize_def Proc_SetSize_def invalidate_def)

lemma fresh_detail_dirty: "dv_dirty v \<Longrightarrow> fresh_detail D T v"
  by (simp add: fresh_detail_def dirty_same)

lemma Detail_dirty:
  "dv_dirty (fst (Detail_Update T V k v))" "Detail_SetData b v = Some v1 \<Longrightarrow> dv_dirty v1 \<or> v1 = v" "dv_dirty (Detail_SetTheme th v)"
  "dv_dirty (SetContainer n v) \<or> SetContainer n v = v" "dv_dirty (Detail_SetSize V w h v)"
  by (auto simp: Detail_Update_def Detail_SetData_def Detail_SetTheme_def SetContainer_def Detail_SetSize_def Let_def case_prod_beta split: if_splits)

definition tab_current :: "'vp Drawing \<Rightarrow> ('ti, Cmd) TextInput \<Rightarrow> ('vp, Cmd) Viewport \<Rightarrow> ('ti, 'vp) TabView \<Rightarrow> bool" where
  "tab_current D T V t \<longleftrightarrow> is_graphs t \<or> fresh D T V (Tab_Focus t)"

lemma tab_current_dirty: "is_dirty t \<or> is_graphs t \<Longrightarrow> tab_current D T V t"
  by (auto simp: tab_current_def intro: fresh_dirty)

interpretation cur: tab_invariant T V "tab_current D T V" "fresh_detail D T" for D T V
proof unfold_locales
  show "tab_current D T V t1" if "tab_current D T V t" "Tab_Update T V k t = Some (t1, c)" for t k t1 c
    using Tab_Update_dirty [OF that(2)] that(1) tab_current_dirty by blast
  show "tab_current D T V t1" if "tab_current D T V t" "Tab_SetData b t = Some (t1, b1)" for t b t1 b1
    using Tab_SetData_dirty [OF that(2)] that(1) tab_current_dirty by blast
  show "tab_current D T V (Tab_SetTheme th t)" for th t using Tab_SetTheme_dirty tab_current_dirty by blast
  show "tab_current D T V (Tab_Focus t)" "tab_current D T V (Tab_Blur t)" if "tab_current D T V t" for t
    using that by (auto simp: tab_current_def)
  show "fresh_detail D T (fst (Detail_Update T V k v))" for k v using Detail_dirty(1) fresh_detail_dirty by blast
  show "fresh_detail D T v1" if "fresh_detail D T v" "Detail_SetData b v = Some v1" for v b v1
    using Detail_dirty(2) [OF that(2)] that(1) fresh_detail_dirty by blast
  show "fresh_detail D T (Detail_SetTheme th v)" for th v using Detail_dirty(3) fresh_detail_dirty by blast
  show "fresh_detail D T (SetContainer n v)" if "fresh_detail D T v" for n v
    using Detail_dirty(4) [of n v] that fresh_detail_dirty by metis
qed

section \<open>The active tab has the focus\<close>

definition view_focused :: "('r, 'ti) TableView \<Rightarrow> bool" where
  "view_focused v \<longleftrightarrow> vw_focused v \<and> tb_focused (vw_tbl v)"

fun tab_focused :: "('ti, 'vp) TabView \<Rightarrow> bool" where
  "tab_focused (OverviewTab v) = ov_focused v"
| "tab_focused (CpuTab v) = view_focused v"
| "tab_focused (MemoryTab v) = view_focused v"
| "tab_focused (IoTab v) = view_focused v"
| "tab_focused (NetworkTab v) = view_focused v"
| "tab_focused (SyscallTab v) = view_focused v"
| "tab_focused (EventsTab v) = ev_focused v"
| "tab_focused (GraphsTab v) = True"
| "tab_focused (ProcGraphTab v) = pv_focused v"

definition active_focused :: "('ti, 'vp) App \<Rightarrow> bool" where
  "active_focused a \<longleftrightarrow> (\<forall>v. activeView a = Some v \<longrightarrow> tab_focused v)"

lemma view_focused_ops:
  "view_focused (View_SetRows rows v) = view_focused v" "view_focused (View_SetTheme th v) = view_focused v"
  "view_focused (View_SetSize w h v) = view_focused v" "view_focused (View_Focus v)"
  "View_Update T matches k v = Some (v', c) \<Longrightarrow> view_focused v \<Longrightarrow> view_focused v'"
proof -
  have f: "tb_focused (vw_tbl v) = snd (snd (table_frame (vw_tbl v)))" for v :: "('r, 'ti) TableView" by (simp add: table_frame_def)
  note t = f [of "View_SetRows rows v"] f [of "View_SetTheme th v"] f [of v] table_frame_View(1,2)
  show "view_focused (View_SetRows rows v) = view_focused v" using t by (simp add: view_focused_def View_SetRows_def)
  show "view_focused (View_SetTheme th v) = view_focused v" using t by (simp add: view_focused_def View_SetTheme_def)
  show "view_focused (View_SetSize w h v) = view_focused v" by (simp add: view_focused_def View_SetSize_def Table_SetSize_def)
  show "view_focused (View_Focus v)" by (simp add: view_focused_def View_Focus_def Table_Focus_def)
  assume u: "View_Update T matches k v = Some (v', c)" and v: "view_focused v"
  have "vw_focused v'" using u v by (auto simp: view_focused_def View_Update_def Let_def split: if_splits prod.splits)
  moreover have "tb_focused (vw_tbl v')" using v table_frame_View(4) [OF u] f [of v] f [of v'] by (simp add: view_focused_def)
  ultimately show "view_focused v'" by (simp add: view_focused_def)
qed

lemma rebuild_focused:
  "rebuildTree v = Some v1 \<Longrightarrow> pv_focused v1 = pv_focused v" "pv_focused (rebuildCgroupList v) = pv_focused v"
  by (auto simp: rebuildTree_def rebuildCgroupList_def Let_def split: option.splits if_splits)

lemma proc_focused:
  "Proc_SetData b v = Some v1 \<Longrightarrow> pv_focused v1 = pv_focused v" "Proc_SetSize w h v = Some v1 \<Longrightarrow> pv_focused v1 = pv_focused v"
  by (auto simp: Proc_SetData_def Proc_SetSize_def invalidate_def rebuild_focused dest: rebuild_focused(1) split: option.splits)

lemma proc_focused_Update: "Proc_Update k v = Some v1 \<Longrightarrow> pv_focused v1 = pv_focused v"
proof -
  have i: "(\<forall>y. a = Some y \<longrightarrow> pv_focused y = pv_focused v) \<Longrightarrow> (\<forall>y. b = Some y \<longrightarrow> pv_focused y = pv_focused v) \<Longrightarrow>
      \<forall>y. (if c then a else b) = Some y \<longrightarrow> pv_focused y = pv_focused v" for a b and c :: bool by simp
  have "\<forall>y. Proc_Update k v = Some y \<longrightarrow> pv_focused y = pv_focused v"
    unfolding Proc_Update_def
    by (intro i) (auto simp: navUp_def navDown_def navTop_def navBottom_def invalidate_def dest!: rebuild_focused(1) split: if_splits)
  then show "Proc_Update k v = Some v1 \<Longrightarrow> pv_focused v1 = pv_focused v" by blast
qed

lemma tab_focused_Update: "tab_focused t \<Longrightarrow> Tab_Update T V k t = Some (t1, c) \<Longrightarrow> tab_focused t1"
  by (cases t) (auto simp: apfst_def map_prod_def case_prod_beta Cpu_Update_def Memory_Update_def Io_Update_def Network_Update_def
      Syscall_Update_def Overview_Update_def Events_Update_def Let_def proc_focused_Update dest: view_focused_ops(5))

lemma tab_focused_SetData: "tab_focused t \<Longrightarrow> Tab_SetData b t = Some (t1, b1) \<Longrightarrow> tab_focused t1"
  by (cases t) (auto simp: apfst_def map_prod_def case_prod_beta Cpu_SetData_def Memory_SetData_def Io_SetData_def
      Network_SetData_def Syscall_SetData_def Overview_SetData_def Events_SetData_def view_focused_ops proc_focused Let_def split: option.splits)

lemma tab_focused_set:
  "tab_focused t \<Longrightarrow> tab_focused (Tab_SetTheme th t)" "tab_focused (Tab_Focus t)"
  "tab_focused t \<Longrightarrow> Tab_SetSize V w h t = Some t1 \<Longrightarrow> tab_focused t1"
proof -
  show "tab_focused t \<Longrightarrow> tab_focused (Tab_SetTheme th t)"
    by (cases t) (simp_all add: view_focused_ops Overview_SetTheme_def Events_SetTheme_def Proc_SetTheme_def invalidate_def)
  show "tab_focused (Tab_Focus t)" by (cases t) (simp_all add: view_focused_ops Overview_Focus_def Events_Focus_def Proc_Focus_def)
  show "tab_focused t \<Longrightarrow> Tab_SetSize V w h t = Some t1 \<Longrightarrow> tab_focused t1"
    by (cases t) (auto simp: view_focused_ops Overview_SetSize_def Events_SetSize_def proc_focused)
qed

lemma focused_same:
  "vw_focused v \<Longrightarrow> tb_focused (vw_tbl v) \<Longrightarrow> View_Focus v = v" "ov_focused u \<Longrightarrow> Overview_Focus u = u" "ev_focused e \<Longrightarrow> Events_Focus e = e"
  "pv_focused p \<Longrightarrow> Proc_Focus p = p"
proof -
  have t: "tb_focused m \<Longrightarrow> Table_Focus m = m" for m :: "'x TableModel" by (cases m) (simp add: Table_Focus_def)
  show "vw_focused v \<Longrightarrow> tb_focused (vw_tbl v) \<Longrightarrow> View_Focus v = v" using t [of "vw_tbl v"] by (cases v) (simp add: View_Focus_def)
  show "ov_focused u \<Longrightarrow> Overview_Focus u = u" by (cases u) (simp add: Overview_Focus_def)
  show "ev_focused e \<Longrightarrow> Events_Focus e = e" by (cases e) (simp add: Events_Focus_def)
  show "pv_focused p \<Longrightarrow> Proc_Focus p = p" by (cases p) (simp add: Proc_Focus_def)
qed

lemma focus_again: "tab_focused t \<Longrightarrow> \<not> is_graphs t \<Longrightarrow> Tab_Focus t = t"
  by (cases t) (simp_all add: focused_same view_focused_def)

lemma active_all2:
  assumes "active_focused a" "list_all2 (\<lambda>t t1. tab_focused t \<longrightarrow> tab_focused t1) (ap_tabViews a) (ap_tabViews a')"
    "tbar_active (ap_tabs a') = tbar_active (ap_tabs a)"
  shows "active_focused a'"
  using assms by (auto simp: active_focused_def activeView_def at_int_def list_all2_conv_all_nth split: if_splits)

lemma active_set:
  assumes "tab_focused v"
  shows "active_focused (set_active v a)"
  using assms by (auto simp: active_focused_def activeView_def at_int_def set_active_def split: if_splits)

lemma active_select: "select_tab t a = Some (a', c) \<Longrightarrow> active_focused a'"
  using active_set [OF tab_focused_set(2)] by (auto simp: select_tab_def focus_active_def)

lemma active_delegate: "active_focused a \<Longrightarrow> delegate_key T V k a = Some (a', c) \<Longrightarrow> active_focused a'"
  using active_set tab_focused_Update
  by (fastforce simp: delegate_key_def case_prod_beta active_focused_def activeView_def split: if_splits option.splits)

lemma active_cong: "active_focused a \<Longrightarrow> ap_tabViews a' = ap_tabViews a \<Longrightarrow> tbar_active (ap_tabs a') = tbar_active (ap_tabs a) \<Longrightarrow> active_focused a'"
  by (simp add: active_focused_def activeView_def)

lemma active_theme: "active_focused a \<Longrightarrow> active_focused (applyTheme n a)"
  by (rule active_all2, assumption)
    (simp_all add: applyTheme_def Let_def list_all2_map2 tab_focused_set list_all2_same)

lemma active_global:
  assumes "active_focused a" "global_key T V k a = Some (a', c)"
  shows "active_focused a'"
  using assms(2)
proof (cases rule: global_key_cases)
  case (theme i)
  have "active_focused (a\<lparr>ap_themeIdx := i\<rparr>)" by (rule active_cong [OF assms(1)]) simp_all
  then show ?thesis using theme active_theme by simp
next
  case (tab t)
  then show ?thesis using active_select by blast
next
  case (detail n)
  then show ?thesis using active_cong [OF assms(1), of a'] by (simp add: nav_detail_def)
next
  case (delegate k')
  then show ?thesis using active_delegate assms(1) by blast
qed (use active_cong [OF assms(1)] in simp_all)

lemma active_data: "active_focused a \<Longrightarrow> on_data b a = Some (a', c) \<Longrightarrow> active_focused a'"
proof -
  assume a: "active_focused a" and d: "on_data b a = Some (a', c)"
  obtain b1 where s: "set_data_all b (ap_tabViews a) = Some (ap_tabViews a', b1)" "ap_tabs a' = ap_tabs a"
    using d by (auto simp: on_data_def Let_def split: option.splits)
  have "list_all2 (\<lambda>t t1. tab_focused t \<longrightarrow> tab_focused t1) (ap_tabViews a) (ap_tabViews a')"
    using set_data_all_each [OF s(1)] by (rule list_all2_mono) (blast intro: tab_focused_SetData)
  then show ?thesis by (rule active_all2 [OF a]) (simp add: s(2))
qed

lemma active_resize: "active_focused a \<Longrightarrow> on_resize V w h a = Some (a', c) \<Longrightarrow> active_focused a'"
proof -
  assume a: "active_focused a" and d: "on_resize V w h a = Some (a', c)"
  let ?f = "Tab_SetSize V (ContentW (Layout_New w h)) (BodyH (Layout_New w h))"
  have s: "those (map ?f (ap_tabViews a)) = Some (ap_tabViews a')" "tbar_active (ap_tabs a') = tbar_active (ap_tabs a)"
    using d by (auto simp: on_resize_def Let_def)
  have "list_all2 (\<lambda>t t1. tab_focused t \<longrightarrow> tab_focused t1) (ap_tabViews a) (ap_tabViews a')"
    using those_each [OF s(1)] by (rule list_all2_mono) (blast intro: tab_focused_set(3))
  then show ?thesis by (rule active_all2 [OF a]) (simp add: s(2))
qed

text \<open>The messages of the libraries, such as the wheel of a mouse, reach the viewports behind the caches.\<close>

fun native :: "Msg \<Rightarrow> bool" where "native (OtherMsg n) = False" | "native _ = True"

lemma active_Update:
  assumes "active_focused a" "native m" "App_Update T V m a = Some (a', c)"
  shows "active_focused a'"
proof (cases m)
  case (KeyMsg k)
  then have "handleKey T V k a = Some (a', c)" using assms(3) by simp
  then show ?thesis using active_global [OF assms(1), of T V k a' c] active_cong [OF assms(1), of a']
    by (auto simp: handleKey_def case_prod_beta split: if_splits)
next
  case (NavDetailMsg n)
  then show ?thesis using assms active_cong [OF assms(1), of a'] by (auto simp: nav_detail_def)
next
  case NavBackMsg
  then show ?thesis using assms active_cong [OF assms(1), of a'] by (auto simp: nav_back_def)
qed (use assms active_data active_resize active_theme in auto)

section \<open>The screen is current\<close>

definition screen_current :: "'vp Drawing \<Rightarrow> ('ti, Cmd) TextInput \<Rightarrow> ('vp, Cmd) Viewport \<Rightarrow> ('ti, 'vp) App \<Rightarrow> bool" where
  "screen_current D T V a \<longleftrightarrow> holds (tab_current D T V) (fresh_detail D T) a \<and> active_focused a"

lemma screen_current_Update:
  assumes "screen_current D T V a" "native m" "App_Update T V m a = Some (a', c)"
  shows "screen_current D T V a'"
proof (cases m)
  case (WindowSizeMsg w h)
  let ?f = "Tab_SetSize V (ContentW (Layout_New w h)) (BodyH (Layout_New w h))"
  have s: "those (map ?f (ap_tabViews a)) = Some (ap_tabViews a')"
    "ap_detailPg a' = Detail_SetSize V (ContentW (Layout_New w h)) (BodyH (Layout_New w h)) (ap_detailPg a)"
    using assms(3) WindowSizeMsg by (auto simp: on_resize_def Let_def)
  have "list_all (tab_current D T V) (ap_tabViews a')"
    by (rule list_all2_inv [OF those_each [OF s(1)], of "\<lambda>_. True"]) (auto simp: list_all_iff dest: Tab_SetSize_dirty intro: tab_current_dirty)
  moreover have "fresh_detail D T (ap_detailPg a')" using s(2) Detail_dirty(5) fresh_detail_dirty by metis
  ultimately show ?thesis using assms active_Update by (auto simp: screen_current_def holds_def)
qed (use assms active_Update [of a m T V a' c] cur.holds_Update [of D T V a m a' c] in \<open>auto simp: screen_current_def\<close>)

lemma Proc_View_focused: "Proc_View D v = Some (s, v1) \<Longrightarrow> pv_focused v1 = pv_focused v"
proof -
  have t: "pv_focused (tree_scroll h v) = pv_focused v" for h v by (simp add: tree_scroll_def Let_def)
  have p: "renderTreePanel D v w h = Some (s, v1) \<Longrightarrow> pv_focused v1 = pv_focused v" for w h v s v1
    by (auto simp: renderTreePanel_def Let_def t Option.bind_eq_Some_conv split: if_splits)
  show "Proc_View D v = Some (s, v1) \<Longrightarrow> pv_focused v1 = pv_focused v"
    by (auto simp: Proc_View_def proc_render_def Let_def Option.bind_eq_Some_conv dest!: p split: if_splits)
qed

lemma View_Draw_focused: "View_Draw D T title v = Some (s, v1) \<Longrightarrow> view_focused v1 = view_focused v"
  by (auto simp: View_Draw_def View_View_def Let_def view_focused_def split: if_splits option.splits)

lemma Tab_View_focused: "tab_focused t \<Longrightarrow> Tab_View D T V t = Some (s, t1) \<Longrightarrow> tab_focused t1"
  by (cases t) (auto simp: Cpu_View_def Memory_View_def Io_View_def Network_View_def Syscall_View_def View_Draw_focused Let_def
      Overview_View_def Events_View_def Option.bind_eq_Some_conv apsnd_def map_prod_def case_prod_beta Proc_View_focused split: if_splits)

lemma Tab_View_kind: "Tab_View D T V t = Some (s, t1) \<Longrightarrow> is_graphs t1 = is_graphs t"
  by (cases t) (auto simp: apsnd_def map_prod_def case_prod_beta)

lemma screen_current_content:
  assumes "viewport_laws D V" "screen_current D T V a" "screen_content D T V a = Some (s, a')"
  shows "screen_current D T V a'"
proof -
  have tab: "screen_current D T V (set_active v1 a)" if v: "activeView a = Some v" "Tab_View D T V v = Some (s, v1)" for v v1
  proof -
    have h: "holds (tab_current D T V) (fresh_detail D T) a" "tab_focused v" using assms(2) v(1) by (simp_all add: screen_current_def active_focused_def)
    have f: "tab_focused v1" using Tab_View_focused h(2) v(2) by blast
    have "tab_current D T V v1"
    proof (cases "is_graphs v")
      case False
      then have "fresh D T V v" using cur.holds_active [OF h(1) v(1)] focus_again [OF h(2)] by (simp add: tab_current_def)
      then have "fresh D T V v1" using Tab_redraw assms(1) v(2) False by blast
      then show ?thesis using focus_again [OF f] Tab_View_kind [OF v(2)] False by (simp add: tab_current_def)
    qed (use Tab_View_kind [OF v(2)] in \<open>simp add: tab_current_def\<close>)
    then show ?thesis using cur.holds_set_active [OF h(1)] active_set [OF f] by (simp add: screen_current_def)
  qed
  have det: "screen_current D T V (a\<lparr>ap_detailPg := d\<rparr>)" if "Detail_View D T (ap_detailPg a) = Some (s, d)" for d
  proof -
    have "fresh_detail D T d" using Detail_redraw [OF assms(1) that] assms(2) by (simp add: screen_current_def holds_def)
    then show ?thesis using assms(2) by (simp add: screen_current_def holds_def active_focused_def activeView_def)
  qed
  show ?thesis using assms tab det by (cases "ap_state a") (auto simp: screen_content_def Option.bind_eq_Some_conv)
qed

lemma screen_current_View:
  assumes "viewport_laws D V" "screen_current D T V a" "App_View D T V now a = Some (s, a')"
  shows "screen_current D T V a'"
proof (cases "ap_termW a = 0")
  case False
  then obtain c where "screen_content D T V a = Some (c, a')" using assms(3) by (auto simp: App_View_def Let_def Option.bind_eq_Some_conv split: if_splits)
  then show ?thesis using screen_current_content assms(1,2) by blast
qed (use assms in \<open>simp add: App_View_def\<close>)

fun event_native :: "Event \<Rightarrow> bool" where
  "event_native (Got m) \<longleftrightarrow> native m"
| "event_native (Draw now) \<longleftrightarrow> True"

lemma screen_current_run:
  assumes "viewport_laws D V" "screen_current D T V a" "\<forall>e \<in> set es. event_native e" "Screen_run D T V es a = Some (outs, a')"
  shows "screen_current D T V a'"
  using assms(2-4)
proof (induction es arbitrary: a outs)
  case (Cons e es)
  show ?case
  proof (cases e)
    case (Got m)
    obtain a1 c where "App_Update T V m a = Some (a1, c)" "Screen_run D T V es a1 = Some (outs, a')"
      using Cons.prems(3) Got by (auto simp: Option.bind_eq_Some_conv)
    then show ?thesis using Cons.IH [of a1] screen_current_Update [OF Cons.prems(1)] Cons.prems(2) Got by auto
  next
    case (Draw now)
    obtain s a1 o1 where "App_View D T V now a = Some (s, a1)" "Screen_run D T V es a1 = Some (o1, a')"
      using Cons.prems(3) Draw by (auto simp: Option.bind_eq_Some_conv apfst_def map_prod_def)
    then show ?thesis using Cons.IH [of a1] screen_current_View [OF assms(1) Cons.prems(1)] Cons.prems(2) by auto
  qed
qed simp

text \<open>A view that has not been drawn yet draws whatever its flag says.\<close>

lemma line_text_dirty: "line_text D (v\<lparr>vw_dirty := b\<rparr>) l = line_text D v l"
  by (cases "(D, v, l)" rule: line_text.cases) simp_all

lemma fresh_undrawn:
  "vw_cached v = [] \<Longrightarrow> map_option fst (View_Draw D T title v) = map_option fst (View_Draw D T title (v\<lparr>vw_dirty := True\<rparr>))"
  "ov_cached ov = [] \<Longrightarrow> map_option fst (Overview_View D V ov) = map_option fst (Overview_View D V (ov\<lparr>ov_dirty := True\<rparr>))"
  "ev_cached e = [] \<Longrightarrow> fst (Events_View D T V e) = fst (Events_View D T V (e\<lparr>ev_dirty := True\<rparr>))"
  "dv_cached d = [] \<Longrightarrow> fresh_detail D T d"
proof -
  have l: "line_text D (v\<lparr>vw_dirty := b\<rparr>) = line_text D v" for b by (simp add: line_text_dirty fun_eq_iff)
  show "vw_cached v = [] \<Longrightarrow> map_option fst (View_Draw D T title v) = map_option fst (View_Draw D T title (v\<lparr>vw_dirty := True\<rparr>))"
    by (auto simp: View_Draw_def View_View_def l Let_def option.map_comp comp_def split: option.splits)
  have o': "overview_content D (ov\<lparr>ov_dirty := True\<rparr>) = overview_content D ov" by (simp add: overview_content_def renderBatch_def Let_def)
  show "ov_cached ov = [] \<Longrightarrow> map_option fst (Overview_View D V ov) = map_option fst (Overview_View D V (ov\<lparr>ov_dirty := True\<rparr>))"
    by (cases "overview_content D ov") (auto simp: Overview_View_def o' Let_def)
  have b: "buildLines F c (e\<lparr>ev_dirty := True\<rparr>) = buildLines F c e" for F c by (simp add: buildLines_def)
  show "ev_cached e = [] \<Longrightarrow> fst (Events_View D T V e) = fst (Events_View D T V (e\<lparr>ev_dirty := True\<rparr>))"
    by (simp add: Events_View_def Let_def b)
  have c: "Detail_buildContent D T (d\<lparr>dv_dirty := True\<rparr>) = Detail_buildContent D T d"
    by (simp add: Detail_buildContent_def renderResources_def renderNetwork_def renderSyscalls_def renderEvents_def Let_def cong: if_cong)
  show "dv_cached d = [] \<Longrightarrow> fresh_detail D T d"
    by (cases "Detail_buildContent D T d") (auto simp: fresh_detail_def Detail_View_def c Let_def)
qed

lemma fresh_tab_undrawn:
  "vw_cached c = [] \<Longrightarrow> fresh D T V (CpuTab c)" "vw_cached m = [] \<Longrightarrow> fresh D T V (MemoryTab m)" "vw_cached i = [] \<Longrightarrow> fresh D T V (IoTab i)"
  "vw_cached n = [] \<Longrightarrow> fresh D T V (NetworkTab n)" "vw_cached y = [] \<Longrightarrow> fresh D T V (SyscallTab y)"
  "ov_cached u = [] \<Longrightarrow> fresh D T V (OverviewTab u)" "ev_cached e = [] \<Longrightarrow> fresh D T V (EventsTab e)"
proof -
  have f: "map_option fst (map_option (apsnd K) m) = map_option fst m" for K :: "'x \<Rightarrow> 'y" and m :: "(string \<times> 'x) option"
    by (cases m) auto
  show "vw_cached c = [] \<Longrightarrow> fresh D T V (CpuTab c)" "vw_cached m = [] \<Longrightarrow> fresh D T V (MemoryTab m)" "vw_cached i = [] \<Longrightarrow> fresh D T V (IoTab i)"
    "vw_cached n = [] \<Longrightarrow> fresh D T V (NetworkTab n)" "vw_cached y = [] \<Longrightarrow> fresh D T V (SyscallTab y)"
    "ov_cached u = [] \<Longrightarrow> fresh D T V (OverviewTab u)"
    unfolding fresh_def Tab_View.simps tab_dirty.simps f Cpu_View_def Memory_View_def Io_View_def Network_View_def Syscall_View_def
    by (rule fresh_undrawn, assumption)+
  show "ev_cached e = [] \<Longrightarrow> fresh D T V (EventsTab e)"
    using fresh_undrawn(3) [of e D T V] by (simp add: fresh_def)
qed

lemma screen_current_New: "screen_current D T V (App_New T V cfg demo)"
proof -
  let ?a = "App_New T V cfg demo" and ?th = "theme_Get (co_Theme cfg)"
  have "fresh D T V (CpuTab (View_Focus (Cpu_New T ?th)))" "fresh D T V (MemoryTab (View_Focus (Memory_New T ?th)))"
    "fresh D T V (IoTab (View_Focus (Io_New T ?th)))" "fresh D T V (NetworkTab (View_Focus (Network_New T ?th)))"
    "fresh D T V (SyscallTab (View_Focus (Syscall_New T ?th)))" "fresh D T V (OverviewTab (Overview_Focus (Overview_New V ?th)))"
    "fresh D T V (EventsTab (Events_Focus (Events_New T V ?th)))"
    by (rule fresh_tab_undrawn; simp add: Cpu_New_def Memory_New_def Io_New_def Network_New_def Syscall_New_def View_New_def View_Focus_def
        Overview_New_def Overview_Focus_def Events_New_def Events_Focus_def)+
  moreover have "fresh D T V (ProcGraphTab (Proc_Focus (Proc_New ?th)))" by (rule fresh_dirty) (simp add: Proc_New_def Proc_Focus_def)
  moreover have "fresh_detail D T (Detail_New T V ?th)" by (rule fresh_undrawn) (simp add: Detail_New_def)
  moreover have "active_focused ?a"
    by (simp add: active_focused_def activeView_def at_int_def App_New_def Let_def Tabbar_New_def Overview_Focus_def)
  moreover have "Overview_Focus (Overview_Focus (Overview_New V ?th)) = Overview_Focus (Overview_New V ?th)" by (simp add: Overview_Focus_def)
  ultimately show ?thesis
    by (simp add: screen_current_def holds_def tab_current_def App_New_def Let_def)
qed

text \<open>The application with every cache dropped.\<close>

definition drop_caches :: "('ti, 'vp) App \<Rightarrow> ('ti, 'vp) App" where
  "drop_caches a = a\<lparr>ap_tabViews := map tab_dirty (ap_tabViews a), ap_detailPg := (ap_detailPg a)\<lparr>dv_dirty := True\<rparr>\<rparr>"

lemma drop_caches_simps [simp]:
  "ap_state (drop_caches a) = ap_state a" "ap_termW (drop_caches a) = ap_termW a" "ap_termH (drop_caches a) = ap_termH a"
  "ap_theme (drop_caches a) = ap_theme a" "ap_demo (drop_caches a) = ap_demo a" "ap_palette (drop_caches a) = ap_palette a"
  "ap_modal (drop_caches a) = ap_modal a" "ap_tabs (drop_caches a) = ap_tabs a" "ap_layout (drop_caches a) = ap_layout a"
  "ap_statusBar (drop_caches a) = ap_statusBar a" "ap_detailPg (drop_caches a) = (ap_detailPg a)\<lparr>dv_dirty := True\<rparr>"
  "activeView (drop_caches a) = map_option tab_dirty (activeView a)"
  by (auto simp: drop_caches_def activeView_def at_int_def)

lemma Tab_StatusLine_dirty: "Tab_StatusLine (tab_dirty t) = Tab_StatusLine t"
  by (cases t) (simp_all add: Overview_StatusLine_def Events_StatusLine_def Graphs_StatusLine_def Proc_StatusLine_def)

lemma status_drop: "renderStatusBar D (drop_caches a) = renderStatusBar D a"
  by (simp add: renderStatusBar_def Tab_StatusLine_dirty option.map_comp comp_def Detail_StatusLine_def)

definition graphs_shown :: "('ti, 'vp) App \<Rightarrow> bool" where
  "graphs_shown a \<longleftrightarrow> ap_state a \<noteq> StateDetail \<and> (\<exists>v. activeView a = Some v \<and> is_graphs v)"

lemma content_drop:
  assumes "screen_current D T V a" "\<not> graphs_shown a"
  shows "map_option fst (screen_content D T V (drop_caches a)) = map_option fst (screen_content D T V a)"
proof -
  have f: "map_option fst (map_option (\<lambda>(s, x). (s, g x)) m) = map_option fst m" for g :: "'x \<Rightarrow> 'y" and m :: "(string \<times> 'x) option"
    by (cases m) auto
  have tab: "map_option fst (Tab_View D T V (tab_dirty v)) = map_option fst (Tab_View D T V v)"
    if "activeView a = Some v" "ap_state a \<noteq> StateDetail" for v
  proof -
    have "tab_focused v" "\<not> is_graphs v" "tab_current D T V v"
      using assms that cur.holds_active [of D T V a v] by (auto simp: screen_current_def active_focused_def graphs_shown_def)
    then show ?thesis using focus_again [of v] by (simp add: tab_current_def fresh_def)
  qed
  have det: "map_option fst (Detail_View D T ((ap_detailPg a)\<lparr>dv_dirty := True\<rparr>)) = map_option fst (Detail_View D T (ap_detailPg a))"
    using assms(1) by (simp add: screen_current_def holds_def fresh_detail_def)
  have l: "renderLoading D (drop_caches a) = renderLoading D a" by (simp add: renderLoading_def)
  show ?thesis
    by (cases "ap_state a"; cases "activeView a"; cases "renderLoading D a") (simp_all add: screen_content_def f tab det l)
qed

lemma bind_fst: "map_option fst (Option.bind m (\<lambda>(c, a). Some (F c, a))) = map_option F (map_option fst m)"
  by (cases m) auto

lemma view_drop:
  assumes "screen_current D T V a" "\<not> graphs_shown a"
  shows "map_option fst (App_View D T V now (drop_caches a)) = map_option fst (App_View D T V now a)"
proof -
  have h: "renderHeader_app D now (drop_caches a) = renderHeader_app D now a" by (simp add: renderHeader_app_def)
  note c = content_drop [OF assms]
  show ?thesis
  proof (cases "screen_content D T V a")
    case None
    then have "screen_content D T V (drop_caches a) = None" using c by simp
    then show ?thesis using None by (simp add: App_View_def status_drop Let_def bind_eq_None_conv)
  next
    case (Some r)
    then obtain b where "screen_content D T V (drop_caches a) = Some (fst r, b)" using c by (cases "screen_content D T V (drop_caches a)") auto
    then show ?thesis using Some
      by (cases r; cases "renderStatusBar D a"; cases "Palette_View D T (ap_termW a) (ap_termH a) (ap_palette a)")
        (simp_all add: App_View_def status_drop h Let_def)
  qed
qed

text \<open>The keys that scroll the graphs leave their text as it was: they do not mark the tab dirty.\<close>

lemma graphs_scroll_hidden:
  assumes "\<not> gv_dirty v" "gv_cached v \<noteq> []"
  shows "map_option fst (Graphs_View D (fst (Graphs_Update V k v))) = map_option fst (Graphs_View D v)"
  using assms by (simp add: Graphs_View_def Graphs_Update_def case_prod_beta)

end
