(* ===== verification/Examples.thy ===== *)
theory Examples
  imports Demo ShippedRules Reasoner Percentile ProcessGraph ProbeLoader FlowCollectors Startup ExecRecords TuiCurrent
begin

text \<open>
  Concrete inputs of the components outside the reconciler: a breaker, a cooldown store, an
  event of the analyzer, an observed action, a message broker, signals of the shipped rules,
  an incident, a histogram, a process tree, the cgroups of a node, an agent, the terminal with a
  text field and a viewport, and an observer with its BPF library. The witnesses of the
  properties evaluate the model on them.
\<close>

definition demo_breaker :: "bool \<Rightarrow> nat \<Rightarrow> nat \<Rightarrow> CircuitBreaker" where
  "demo_breaker isOpen bad good =
     \<lparr>cb_history = replicate bad \<lparr>or_at = 1, or_success = False\<rparr> @ replicate good \<lparr>or_at = 1, or_success = True\<rparr>,
      cb_trippedAt = 0, cb_isOpen = isOpen, cb_failurePct = 50, cb_evalWindow = 5 * Minute,
      cb_pauseDuration = 10 * Minute, cb_enabled = True\<rparr>"

definition demo_store :: GuardCooldownStore where
  "demo_store = snd (GuardCooldown_Allow ''p'' ''default'' ''restart_pod'' 5 (NewGuardCooldownStore shipped_policy))"

definition demo_event :: AnalyzerAnomalyEvent where
  "demo_event =
     \<lparr>av_Version = ''1.0'', av_ID = ''oom_kill_detected'', av_Namespace = ''default'', av_Pod = ''p'',
      av_Deployment = ''web'', av_Container = ''c'', av_Metric = ''oom_kill'', av_Confidence = 3/4,
      av_ActiveSignals = [''oom_kill_detected''], av_SuggestedCause = ''oom'', av_SuggestedAction = ''restart_pod'',
      av_MetricValue = 1, av_Threshold = 0, av_Window = ''30s'', av_DryRun = True, av_DetectedAt = 5\<rparr>"

definition demo_action :: ActionEvent where
  "demo_action =
     \<lparr>ae_ActionID = ''u1'', ae_AnomalyID = ''a1'', ae_Action = ''restart_pod'', ae_TargetKind = ''Pod'',
      ae_TargetName = ''p'', ae_TargetNamespace = ''default'', ae_TargetNode = ''n1'', ae_Patch = [],
      ae_FromValue = [], ae_ToValue = [], ae_Reason = [], ae_Confidence = 1, ae_DryRun = False, ae_Attempt = 1,
      ae_Timestamp = 0\<rparr>"

text \<open>
  A broker over a counter of calls: stream creation fails three times, one batch of three
  messages arrives, and the context ends with the twenty-sixth call.
\<close>

definition demo_broker :: "(nat, int) Broker" where
  "demo_broker =
     \<lparr>b_ctxErr = (\<lambda>e. if e < 26 then None else Some ''done''),
      b_wait = (\<lambda>d e. (26 \<le> e + 1, e + 1)),
      b_createStream = (\<lambda>c e. (if e < 6 then Some ''down'' else None, e + 1)),
      b_createConsumer = (\<lambda>s c e. (None, e + 1)),
      b_fetch = (\<lambda>n d e. (Inr (if e = 21 then [0, 1, 2] else [], None), e + 1)),
      b_ack = (\<lambda>m ok e. e + 1)\<rparr>"

definition demo_subscription :: SubscriberConfig where
  "demo_subscription = \<lparr>sb_NATSUrl = [], sb_StreamName = SelfHealStreamName, sb_BatchSize = 10, sb_MaxWait = 5 * Second\<rparr>"


section \<open>Analyzer\<close>

definition demo_signal :: "string \<Rightarrow> f64 \<Rightarrow> int \<Rightarrow> SignalEvent" where
  "demo_signal metric v ms =
     \<lparr>sg_Version = ''1.0'', sg_Node = ''n1'', sg_Pod = ''p'', sg_Namespace = ''default'', sg_Deployment = ''web'',
      sg_Container = ''c'', sg_Metric = metric, sg_Value = v, sg_Unit = [], sg_DurationMs = 0, sg_Timestamp = ms,
      sg_CgroupID = 7\<rparr>"

definition demo_engine :: Engine where
  "demo_engine = NewEngine shipped_rules shipped_config True False"

definition demo_rule :: Rule where
  "demo_rule = shipped_rule ''r1'' ''m'' ''>'' 5 ''60s'' 1 ''cause'' ''restart_pod''"

definition demo_config :: RulesConfig where
  "demo_config = \<lparr>rg_Rules = [demo_rule], rg_Correlations = [], rg_SingleSignalPenalty = 0,
     rg_Thresholds = \<lparr>th_Suppress = 0, th_LogOnly = 0, th_TakeAction = 0\<rparr>\<rparr>"

definition demo_small_engine :: Engine where
  "demo_small_engine = NewEngine [demo_rule] demo_config True False"

definition demo_signals :: "(SignalEvent \<times> instant \<times> instant) list" where
  "demo_signals =
     [(demo_signal ''m'' 9 1, 1, 1), (demo_signal ''m'' 9 2, 2, 2), (demo_signal ''m'' 9 70000, 70 * Second, 70 * Second)]"

definition demo_samples :: "Sample list" where
  "demo_samples = [\<lparr>sm_Value = 1, sm_Time = 0\<rparr>, \<lparr>sm_Value = 2, sm_Time = 5\<rparr>, \<lparr>sm_Value = 3, sm_Time = 12\<rparr>]"

section \<open>Intelligence\<close>

definition demo_graph_pod :: "string \<Rightarrow> string \<Rightarrow> GraphPod" where
  "demo_graph_pod pod node =
     \<lparr>gp_Namespace = ''default'', gp_Name = pod, gp_NodeName = node, gp_Labels = Map.empty, gp_Volumes = []\<rparr>"

definition demo_aggregator :: Aggregator where
  "demo_aggregator = ag_record ''Node/n1'' (demo_entry ''b'' 7) (ag_record ''Node/n1'' (demo_entry ''a'' 6)
     (ag_record ''Node/n1'' (demo_entry ''a'' 5) (NewAggregator DefaultAggregatorConfig)))"

definition demo_incident :: "string list \<Rightarrow> nat \<Rightarrow> nat \<Rightarrow> NodeIncident" where
  "demo_incident sigs hit clean =
     \<lparr>ni_NodeName = ''n1'', ni_Anomalies = replicate hit ((demo_entry ''a'' 1)\<lparr>ay_Signals := sigs\<rparr>)
        @ replicate clean (demo_entry ''b'' 1), ni_WindowStart = 0, ni_WindowEnd = 10\<rparr>"

section \<open>Histograms and processes\<close>

text \<open>A histogram that keeps the largest of its samples: enough to satisfy \<open>hdr_reset\<close>.\<close>

definition demo_hdr :: "int Hdr" where
  "demo_hdr = \<lparr>hdr_New = (\<lambda>_ _ _. 0), hdr_RecordValues = (\<lambda>v n h. max v h), hdr_ValueAtQuantile = (\<lambda>q h. h),
     hdr_Max = (\<lambda>h. h), hdr_Reset = (\<lambda>h. 0)\<rparr>"

definition demo_fork :: "32 word \<Rightarrow> 32 word \<Rightarrow> EventEnvelope" where
  "demo_fork pid ppid =
     \<lparr>ee_Timestamp = 5, ee_CgroupID = 7, ee_ContainerName = ''c'', ee_PID = pid, ee_PPID = ppid, ee_Process = ''sh'',
      ee_ParentProcess = ''init'', ee_EventType = EventTypeFork, ee_AncestryTruncated = False, ee_Metadata = []\<rparr>"

definition demo_tree :: ProcessGraph where
  "demo_tree = fold graph_step [OpFork (demo_fork 2 9), OpFork (demo_fork 3 2)] (New_graph 8)"

section \<open>Cgroups of a node\<close>

definition demo_cid :: string where "demo_cid = replicate 64 CHR ''a''"

definition demo_kpod :: KubeletPod where
  "demo_kpod = \<lparr>kp_Name = ''web-0'', kp_Namespace = ''default'', kp_UID = ''u1'',
     kp_ContainerStatuses = [\<lparr>kc_Name = ''app'', kc_ContainerID = ''containerd://'' @ demo_cid\<rparr>],
     kp_InitContainerStatuses = [], kp_EphemeralContainerStatuses = []\<rparr>"

definition demo_scope :: string where
  "demo_scope = ''kubepods.slice/cri-containerd-'' @ demo_cid @ ''.scope''"

definition demo_scan :: "(string \<times> walk_visit) list \<Rightarrow> refresh_input" where
  "demo_scan vs = \<lparr>ri_pods = Some [demo_kpod], ri_dockerName = (\<lambda>_. []), ri_visits = vs,
     ri_deletedClk = (\<lambda>_. 50), ri_now = 60\<rparr>"

definition demo_visits :: "(string \<times> walk_visit) list" where
  "demo_visits = [(''.'', VisitDir 1), (''cgroup.procs'', VisitFile), (demo_scope, VisitDir 42)]"

section \<open>An agent\<close>

definition demo_cid2 :: string where "demo_cid2 = replicate 64 CHR ''b''"

definition demo_core_pod :: "string \<Rightarrow> string \<Rightarrow> corev1_Pod" where
  "demo_core_pod name cid = \<lparr>cp_Name = name, cp_Namespace = ''default'', cp_NodeName = ''n1'',
     cp_ContainerStatuses = [(''app'', ''containerd://'' @ cid)], cp_OwnerReferences = [(''ReplicaSet'', name @ ''-5d'')]\<rparr>"

definition demo_walk :: walks where
  "demo_walk base = [(''/sys'', VisitDir 1), (base @ ''/kubepods/'' @ demo_cid2, VisitDir 42)]"

definition demo_mapper :: Mapper where
  "demo_mapper = the (onPodAdd (\<lambda>_. 5) (PodObj (demo_core_pod ''db'' demo_cid2))
     (the (onPodAdd (\<lambda>_. 5) (PodObj (demo_core_pod ''web'' demo_cid)) (NewMapper ''n1''))))"

text \<open>The container of \<open>web\<close> was restarted: its pod was reported under two identifiers.\<close>

definition demo_restarted :: Mapper where
  "demo_restarted = the (onPodAdd (\<lambda>_. 5) (PodObj (demo_core_pod ''web'' demo_cid))
     (the (onPodAdd (\<lambda>_. 5) (PodObj (demo_core_pod ''web'' demo_cid2)) (NewMapper ''n1''))))"

lemma demo_ids:
  "normaliseContainerID (''containerd://'' @ demo_cid) = demo_cid" "normaliseContainerID (''containerd://'' @ demo_cid2) = demo_cid2"
  "demo_cid \<noteq> []" "demo_cid2 \<noteq> []" "demo_cid \<noteq> demo_cid2" "length demo_cid = 64" "length demo_cid2 = 64"
  by (simp_all add: normaliseContainerID_def HasPrefix_def TrimPrefix_def demo_cid_def demo_cid2_def)

lemma demo_added:
  assumes "cid = demo_cid \<or> cid = demo_cid2"
  shows "onPodAdd clk (PodObj (demo_core_pod name cid)) m \<noteq> None"
  using assms demo_ids by (auto simp: onPodAdd_def demo_core_pod_def Let_def)

lemma demo_traces:
  "mapper_trace [demo_core_pod ''web'' demo_cid, demo_core_pod ''web'' demo_cid2] demo_restarted"
  "mapper_trace [demo_core_pod ''db'' demo_cid2, demo_core_pod ''web'' demo_cid] demo_mapper"
proof -
  have "mapper_trace [demo_core_pod n2 c2, demo_core_pod n1 c1]
      (the (onPodAdd (\<lambda>_. 5) (PodObj (demo_core_pod n2 c2)) (the (onPodAdd (\<lambda>_. 5) (PodObj (demo_core_pod n1 c1)) (NewMapper ''n1'')))))"
    if "c1 \<in> {demo_cid, demo_cid2}" "c2 \<in> {demo_cid, demo_cid2}" for n1 n2 c1 c2
  proof -
    let ?m1 = "the (onPodAdd (\<lambda>_. 5) (PodObj (demo_core_pod n1 c1)) (NewMapper ''n1''))"
    have "onPodAdd (\<lambda>_. 5) (PodObj (demo_core_pod n1 c1)) (NewMapper ''n1'') = Some ?m1"
      "onPodAdd (\<lambda>_. 5) (PodObj (demo_core_pod n2 c2)) ?m1 = Some (the (onPodAdd (\<lambda>_. 5) (PodObj (demo_core_pod n2 c2)) ?m1))"
      using that demo_added by (auto simp: option.expand)
    from mapper_added [OF mapper_added [OF mapper_new this(1)] this(2)] show ?thesis by (simp add: reported_def)
  qed
  then show "mapper_trace [demo_core_pod ''web'' demo_cid, demo_core_pod ''web'' demo_cid2] demo_restarted"
    "mapper_trace [demo_core_pod ''db'' demo_cid2, demo_core_pod ''web'' demo_cid] demo_mapper"
    by (auto simp: demo_restarted_def demo_mapper_def)
qed

lemma demo_resolved:
  "\<exists>info. fst (Resolve demo_walk 9 9 42 (onPodDelete (PodObj (demo_core_pod ''web'' demo_cid)) demo_restarted)) = Inr info
     \<and> pi_PodName info = ''web'' \<and> pi_Namespace info = ''default''"
  "\<exists>info. fst (Resolve demo_walk 9 9 42 (onPodDelete (PodObj (demo_core_pod ''web'' demo_cid)) demo_mapper)) = Inr info"
proof -
  have path: "walkCgroupFS (demo_walk ''/sys/fs/cgroup'') 42 = Some (''/sys/fs/cgroup/kubepods/'' @ demo_cid2)"
    by (simp add: demo_walk_def)
  have cid: "resolveContainerID (''/sys/fs/cgroup/kubepods/'' @ demo_cid2) = Some demo_cid2" by code_simp
  note demo = onPodAdd_def demo_core_pod_def NewMapper_def Let_def onPodDelete_def delete_pod_def status_ids_def
  have del: "mp_podCache m = Map.empty \<Longrightarrow> mp_cgroupPathCache m = Map.empty \<Longrightarrow> mp_containerIndex m demo_cid2 = Some a \<Longrightarrow>
      fst (Resolve demo_walk 9 9 42 m) = Inr ((mp_heap m ! a)\<lparr>pi_CachedAt := 9\<rparr>)" for m a
    using path cid by (simp add: Resolve_def slow_resolve_def resolveCgroupPath_def Let_def)
  show "\<exists>info. fst (Resolve demo_walk 9 9 42 (onPodDelete (PodObj (demo_core_pod ''web'' demo_cid)) demo_restarted)) = Inr info
     \<and> pi_PodName info = ''web'' \<and> pi_Namespace info = ''default''"
    using demo_ids demo_ids(5) [symmetric]
    by (subst del [of _ 0]) (simp_all add: demo_restarted_def demo)
  show "\<exists>info. fst (Resolve demo_walk 9 9 42 (onPodDelete (PodObj (demo_core_pod ''web'' demo_cid)) demo_mapper)) = Inr info"
    using demo_ids demo_ids(5) [symmetric]
    by (subst del [of _ 1]) (simp_all add: demo_mapper_def demo)
qed

definition demo_env :: agent_env where
  "demo_env = \<lparr>ae_clock = (\<lambda>_. 1000 * Second), ae_walk = (\<lambda>_. demo_walk), ae_publish = (\<lambda>_ _ _. None)\<rparr>"

definition demo_pub_cfg :: PublisherConfig where
  "demo_pub_cfg = \<lparr>pc_NATSUrl = ''nats://localhost:4222'', pc_NodeName = ''n1'', pc_StreamName = []\<rparr>"

definition demo_publisher :: Publisher where
  "demo_publisher = \<lparr>pu_cfg = demo_pub_cfg\<lparr>pc_StreamName := ''SELFHEAL''\<rparr>, pu_topic = ''selfheal.signals.n1''\<rparr>"

definition demo_polls :: "agent_op list" where
  "demo_polls = [OpPoll [Map.empty, [''page_fault_map'' \<mapsto> PfMap [(42, \<lparr>pf_MinorFaults = 7, pf_MajorFaults = 0\<rparr>)]],
     Map.empty, Map.empty, Map.empty]]"

section \<open>The terminal\<close>

text \<open>A text field that collects the keys, and a viewport that only has an offset.\<close>

definition demo_input :: "(string, Cmd) TextInput" where
  "demo_input = \<lparr>ti_New = [], ti_Focus = id, ti_Blur = id, ti_Reset = (\<lambda>_. []), ti_Value = id,
     ti_Update = (\<lambda>k x. (x @ k, LibCmd 1)), ti_Other = (\<lambda>i x. (x, LibCmd i)), ti_View = id\<rparr>"

definition demo_viewport :: "(nat, Cmd) Viewport" where
  "demo_viewport = \<lparr>vp_New = 0, vp_SetSize = (\<lambda>w h x. x), vp_GotoTop = (\<lambda>_. 0), vp_GotoBottom = Suc, vp_LineUp = (\<lambda>x. x - 1),
     vp_LineDown = Suc, vp_HalfViewUp = (\<lambda>x. x - 5), vp_HalfViewDown = (\<lambda>x. x + 5),
     vp_Update = (\<lambda>k x. (x, LibCmd 2)), vp_Other = (\<lambda>i x. (x, LibCmd i))\<rparr>"

lemma demo_library_cmds: "library_cmds demo_input demo_viewport"
  by (simp add: library_cmds_def demo_input_def demo_viewport_def)

text \<open>A viewport with its text and its offset, and a terminal that draws without colours.\<close>

definition demo_pager :: "(string \<times> nat, Cmd) Viewport" where
  "demo_pager = \<lparr>vp_New = ([], 0), vp_SetSize = (\<lambda>w h x. x), vp_GotoTop = (\<lambda>(c, y). (c, 0)), vp_GotoBottom = (\<lambda>(c, y). (c, length c)),
     vp_LineUp = (\<lambda>(c, y). (c, y - 1)), vp_LineDown = (\<lambda>(c, y). (c, y + 1)),
     vp_HalfViewUp = (\<lambda>(c, y). (c, y - 5)), vp_HalfViewDown = (\<lambda>(c, y). (c, y + 5)),
     vp_Update = (\<lambda>k x. (x, LibCmd 2)), vp_Other = (\<lambda>i x. (x, LibCmd i))\<rparr>"

definition demo_drawing :: "(string \<times> nat) Drawing" where
  "demo_drawing = \<lparr>dr_Render = (\<lambda>th st t. t), dr_Width = (\<lambda>th st w t. t), dr_Panel = (\<lambda>th st w h t. t), dr_Spark = id, dr_JoinH = concat,
     dr_JoinV = concat, dr_Place = (\<lambda>th w h t. t), dr_Measure = (\<lambda>t. int (length t)),
     dr_SetContent = (\<lambda>c (d, y). (c, min y (length c))), dr_View = (\<lambda>(c, y). drop y c),
     dr_Clock = (\<lambda>t. ''12:00:00''), dr_Millis = (\<lambda>t. ''12:00:00.000''), dr_Date = (\<lambda>t. ''2024-05-01''), dr_Float = (\<lambda>x. ''0'')\<rparr>"

text \<open>A field that keeps of what is typed only the ASCII characters.\<close>

definition demo_typed :: "string \<Rightarrow> string" where
  "demo_typed s = filter (\<lambda>c. of_char c < (128 :: nat)) s"

lemma ToLower_ascii: "\<forall>c \<in> set s. of_char c < (128 :: nat) \<Longrightarrow> length (ToLower s) = length s"
  by (induction s rule: ToLower.induct) (auto simp: kelvin_sign_def dotted_I_def take_Cons' split: if_splits)

definition demo_field :: "(string, Cmd) TextInput" where "demo_field = demo_input\<lparr>ti_Value := demo_typed\<rparr>"

lemma demo_typed_plain: "typed_plain demo_field"
  by (simp add: typed_plain_def demo_field_def demo_typed_def ToLower_ascii)

lemma demo_viewport_laws: "viewport_laws demo_drawing demo_pager"
  by (simp add: viewport_laws_def demo_drawing_def demo_pager_def)

definition demo_cpu_row :: "string \<Rightarrow> f64 \<Rightarrow> CpuRow" where
  "demo_cpu_row name secs = \<lparr>cr_Container = name, cr_CPUSec = secs, cr_RunqMs = 0, cr_CtxPerSec = 0, cr_Threads = 1, cr_NUMALoc = 0,
     cr_NUMARemote = 0\<rparr>"

definition demo_snapshot_node :: "32 word \<Rightarrow> 32 word \<Rightarrow> SnapshotNode" where
  "demo_snapshot_node pid ppid = \<lparr>sn_Key = \<lparr>nk_CgroupID = 7, nk_PID = pid\<rparr>, sn_PPID = ppid, sn_Comm = ''sh'', sn_ExePath = ''/bin/sh'',
     sn_ContainerName = ''c'', sn_ForkTime = 1, sn_ExecTime = 2, sn_SID = 1, sn_PGID = 1, sn_IsAlive = True, sn_ExitCode = 0,
     sn_Events = [], sn_Children = []\<rparr>"

text \<open>A shell with a child, and two processes that name each other as parent.\<close>

definition demo_processes :: "SnapshotNode list" where
  "demo_processes = [demo_snapshot_node 20 1, demo_snapshot_node 30 20, demo_snapshot_node 50 60, demo_snapshot_node 60 50]"

section \<open>An observer\<close>

text \<open>The library of a machine that has the CPU and the disk object, but not their second tracepoint of the disk.\<close>

definition demo_bpf :: bpf_lib where
  "demo_bpf = \<lparr>bl_LoadCollectionSpec = (\<lambda>p. if p = ''cpu.o'' \<or> p = ''io.o'' then None else Some ''no such file''),
     bl_NewCollection = (\<lambda>p. Inr \<lparr>co_path = p, co_Programs = map (\<lambda>(c, e, prog). prog) (cpu_probes @ io_probes),
       co_Maps = [''cpu_stats_map'', ''io_stats_map'', ''file_events'']\<rparr>),
     bl_NewCollectionWithOptions = (\<lambda>p rs. Inl ''no such file''),
     bl_Tracepoint = (\<lambda>cat ev prog. if ev = ''block_rq_complete'' then Some ''not permitted'' else None), bl_Kprobe = (\<lambda>s p. None),
     bl_NewReader = (\<lambda>m. None), bl_MkdirAll = None, bl_Pin = (\<lambda>m. None)\<rparr>"

definition demo_paths :: ObjPaths where
  "demo_paths = \<lparr>op_cpu = ''cpu.o'', op_mem = ''memory.o'', op_io = ''io.o'', op_net = ''network.o'', op_sys = ''syscall.o'', op_lineage = [],
     op_exec = ''exec.o'', op_dns = [], op_privesc = [], op_escape = []\<rparr>"

definition demo_sec_env :: sec_env where
  "demo_sec_env = \<lparr>sv_now = (\<lambda>_. 60), sv_scan = (\<lambda>_. demo_scan demo_visits), sv_bootOffset = 0\<rparr>"

text \<open>A slot whose every byte is the same, as an earlier event may have left it.\<close>

definition demo_scratch :: "8 word \<Rightarrow> exec_scratch" where
  "demo_scratch b = \<lparr>es_path = replicate 256 b, es_argv = replicate 2048 b, es_pad = replicate 6 b\<rparr>"

lemma demo_scratch_ok: "scratch_ok (demo_scratch b)"
  by (simp add: demo_scratch_def scratch_ok_def probe_sizes)

definition demo_tick :: collect_input where
  "demo_tick = \<lparr>in_now = (\<lambda>_. 70), in_clock = (\<lambda>_ _. 70), in_fs = \<lparr>fs_cgroup = (\<lambda>_ _. None), fs_proc = (\<lambda>_ _. None)\<rparr>, in_execLineage = None,
     in_lineage = None, in_cpu = ([], None), in_mem = ([], None), in_io = ([], None), in_net = ([], None), in_sys = ([], None),
     in_files = [], in_tcp = [], in_slow = [], in_fork = None,
     in_exec = [RingRecord (fst (trace_exec 42 5 20 (Some 1) ''/bin/sh'' [''sh'', ''-c''] (demo_scratch 0))), RingRecord (fst (trace_exec 9 6 21 None ''/bin/ls'' [''ls''] (demo_scratch 0)))],
     in_dns = [], in_priv = [], in_esc = []\<rparr>"

definition demo_obs_flags :: ObsFlags where
  "demo_obs_flags = \<lparr>of_display = \<lparr>dc_containersOnly = True, dc_topN = 1\<rparr>, of_showFiles = True, of_showTCP = True, of_showSlowSys = True,
     of_showSecurity = True\<rparr>"

definition demo_observer :: Observer where
  "demo_observer = observer_start \<lparr>ls_Mem = True, ls_IO = True, ls_Net = True, ls_Sys = True, ls_Lineage = True, ls_Exec = True, ls_DNS = True,
     ls_PrivEsc = True, ls_Escape = True\<rparr> empty_resolver False"

end
