(* ===== verification/Spec2Isabelle.thy ===== *)
theory Spec2Isabelle
  imports Examples
begin

text \<open>
  SelfHeal-CP: a verification library of the self-healing Kubernetes control plane, a Go program.

  The program. Probes in the kernel fill maps and ring buffers; the agent (\<open>internal/ebpf\<close>) polls them on every node,
  attributes a reading to a pod through its cgroup and publishes a signal. The analyzer (\<open>internal/analyzer\<close>) keeps a
  sliding window per pod and metric, matches rules and publishes an anomaly with a confidence and a suggested action.
  The controller (\<open>internal/controller\<close>) takes an anomaly through eight gates (policy, scope, protection, circuit
  breaker, escalation, cooldowns, rate limit, cordon size), carries out one healing action against the API server,
  observes its outcome and feeds the breaker and the escalation with it. The intelligence layer
  (\<open>internal/intelligence\<close>) collects the anomalies of a node into incidents, names a cause and scores the nodes. All
  speak over a message bus (\<open>internal/bus\<close>). Beside this pipeline stand the collectors (\<open>pkg/collector\<close>) with the
  cgroup resolver, the process graph, the lineage interface, the percentiles and the time series (\<open>pkg\<close>), and their two
  clients: the command-line observer with its Prometheus exporter (\<open>cmd/observer\<close>, \<open>pkg/exporter\<close>) and the terminal
  interface (\<open>cmd/tui\<close>, \<open>internal/tui\<close>).

  The Go base. \<open>Prelude\<close> holds the collections of simplification rules, suffixes, pruned histories, the \<open>strings\<close>
  package and the contract \<open>bounded_log\<close> of everything that keeps its newest entries. \<open>GoFloat\<close> is binary64 arithmetic on
  finite values, \<open>GoTime\<close> instants, durations and their parser, \<open>GoFmt\<close> the verbs of \<open>Sprintf\<close>, \<open>GoJson\<close> the
  documents of \<open>encoding/json\<close> with the decoder's rules, \<open>GoBinary\<close> little-endian records and ring-buffer reads,
  \<open>GoText\<close> the text of the kernel's file systems, \<open>GoUtf8\<close> runes.

  The controller. \<open>Gates\<close> states the contracts \<open>spaced_gate\<close> and \<open>capped_gate\<close>; \<open>RateLimiter\<close>, \<open>GuardCooldown\<close> and
  \<open>AnalyzerCooldown\<close> satisfy them. \<open>Policy\<close>, \<open>CircuitBreaker\<close>, \<open>Escalation\<close>, \<open>Observer\<close>, \<open>Actions\<close> and \<open>Reconciler\<close> are
  the files of those names; \<open>ControllerEvents\<close> has the events and the audit log, \<open>Cluster\<close> the API server and the broker
  as a parameter with the trace of the requests. \<open>ControllerRun\<close> composes them to a labelled transition system in which
  anomalies, outcomes, purges and outside changes interleave; its invariants give the safety properties of whole runs.

  The analyzer and the intelligence layer. \<open>AnalyzerWindow\<close>, \<open>Engine\<close> (rules, correlations, confidence, pipeline) and
  \<open>ShippedRules\<close>; \<open>DependencyGraph\<close>, \<open>Scorer\<close>, \<open>Aggregator\<close> and \<open>Reasoner\<close>. \<open>Bus\<close> is \<open>internal/bus\<close>;
  its \<open>recording\<close> of a broker keeps what was delivered and what was answered. \<open>dg_trace\<close> pairs a dependency graph with the
  history of its placements of pods.

  The agent. \<open>Mapper\<close> (\<open>mapper.go\<close>, with its pointers as an explicit heap; \<open>mapper_trace\<close> keeps the
  reports it was given), \<open>AgentSignals\<close> (\<open>publisher.go\<close>),
  \<open>AgentPoll\<close> (the drains and polls of \<open>loader.go\<close>) and \<open>ProbeLoader\<close> (its attach helpers).

  The packages. \<open>TimeSeries\<close>, \<open>Percentile\<close>, \<open>ProcessGraph\<close>, \<open>CgroupResolver\<close>; \<open>SecurityCollectors\<close> (\<open>lineage.go\<close>,
  \<open>exec.go\<close>, \<open>dns.go\<close>, \<open>privesc.go\<close>, \<open>escape.go\<close>) with the contract \<open>lineage_contract\<close>, \<open>ExecRecords\<close> (the record as
  the probe \<open>ebpf/security/exec.c\<close> writes it into its scratch slot), \<open>MetricCollectors\<close> (\<open>cpu.go\<close>, \<open>io.go\<close>), \<open>MemoryCollector\<close>, \<open>FlowCollectors\<close>
  (\<open>network.go\<close>, \<open>syscall.go\<close>).

  The observer and the terminal. \<open>Exporter\<close> (\<open>prometheus.go\<close>, as lists of calls), \<open>BpfLoaders\<close> (the loaders of both
  binaries, with a triple \<open>handles\<close> that accounts for every opened resource and its \<open>Close\<close>), \<open>ObserverCli\<close> (one tick: polls, tables,
  exports, logs), \<open>TuiCollect\<close> (one collection cycle), \<open>TuiTable\<close> (the table widget with the contract \<open>column_order\<close>),
  \<open>TuiWidgets\<close> (the other widgets, with the contract \<open>focusable\<close>), \<open>TuiViews\<close> (the five table tabs, instances of
  \<open>table_tab\<close>), \<open>TuiStreams\<close> (events, graphs, overview, container page), \<open>TuiProcTree\<close> (the process graph tab),
  \<open>TuiApp\<close> (the root model: keys, messages, commands), \<open>TuiDraw\<close> (the \<open>View\<close> methods of all widgets and tabs with their
  caches), \<open>TuiScreen\<close> (\<open>App.View\<close>, runs of messages and drawings, the contract \<open>tab_invariant\<close>), \<open>TuiRedraw\<close> and
  \<open>TuiCurrent\<close> (what the caches keep) and \<open>Startup\<close> (\<open>main\<close> of both binaries). \<open>Demo\<close> and \<open>Examples\<close> hold the concrete
  inputs of the witnesses; this theory holds the properties that span components.

  What the lemmas show. Controller: distances, caps and gates hold over every interleaving of steps, from the contracts
  of the gates and invariants by rule induction; the escalation refines a ladder of seven rungs, the breaker a pause.
  Analyzer: a window is the newest samples of its duration, emissions keep their distance and are justified.
  Intelligence: the indices agree with the placements, except for pods left in the list of a former node, scores stay in range, the majority rule is exact despite rounding. Agent: its messages
  decode at the analyzer, deleted pods are not resolved except through a container of an earlier report, loading is all or nothing. Packages: the rings and windows refine
  lists, the process graph keeps its bounds, an ancestry is a chain of parents. Terminal and observer: the tables hold the
  sorted matches of the typed search and draw their window, the tree shows the rooted processes, no sequence of messages and drawings panics under the stated conditions,
  the caches of the views hide nothing but a scroll of the graphs, every metric call fits its registration, what was opened
  is closed but for the links a failing loader drops.

  Conventions. A machine integer of 32 or 64 bits is a word where it wraps (counters, identifiers); Go's \<open>int\<close> is an
  integer where the code keeps it small. A \<open>float64\<close> is the rational it denotes, rounded after every operation, as the
  compiler does for amd64, which does not fuse products with sums; NaN and infinities are not represented. A Go map is
  a function where its order does not matter and an association list in its iteration order where it does;
  \<open>sort.Slice\<close>, free in the order of equal elements, is the stable \<open>sort_key\<close>. A run-time panic is \<open>None\<close>. Error values
  are constructors, or messages where only the text is passed on. Methods under a mutex are single steps; a reconciliation
  is one step, since the subscriber delivers one message at a time. Clock readings are arguments, or numbered in the order
  of the calls. Lower case is that of ASCII letters and of the two letters whose lower case is ASCII. JSON is modelled
  on parsed documents. A scanner has no limit on the length of a line. Removing a stale pin file succeeds. The
  Kubernetes client, JetStream, the eBPF library, Prometheus, HdrHistogram and the text field, the viewport and the
  styles of the terminal library are parameters, or traces of calls where they return nothing; what
  \<open>screen_is_current\<close> needs of the viewport is \<open>viewport_laws\<close>.

  Fuel. Loops that run until a cancellation take fuel: \<open>consume\<close> and \<open>observer_loop\<close> give \<open>None\<close> when it is used up,
  and the lemmas show that one unit per turn is enough. \<open>EnsureStream\<close> makes at most as many attempts as the code.
  \<open>watch\<close> needs one unit per poll; polls are five seconds apart, so \<open>observer_terminates\<close> gives a bound from the
  window. The walk over the process tree takes \<open>tree_fuel\<close>, the number of processes plus one, which \<open>walk_fuel_enough\<close>
  shows to be enough, since a visited set keeps the walk from visiting a process twice.

  Not modelled. The commands of agent, analyzer and controller, which construct the components and wire them; the
  registration of the telemetry counters; connecting to NATS and to the kubelet and docker sockets (HTTP and library
  calls, whose answers are arguments); the capability checks and the metrics server of the observer; logging, except the
  log records of the observer that carry events; the colours of the themes (a style is its name, and how a style, a border
  or a placement changes a text is a parameter); the random demonstration data; and the
  kernel programs in C, except for the record of the execve probe: the records of the others enter as the bytes the
  parsers read.
\<close>
section \<open>Admission of healing actions\<close>

text \<open>
  C1: in every run of the controller, whatever anomalies, outcomes, purges and outside
  changes occur, two dispatched healing actions pass the cluster-wide rate limiter at
  least ten seconds apart.
\<close>

theorem dispatches_spaced:
  assumes "ctl_steps qstr x ls (NewReconciler cfg, w) s" "clocks_ok ls"
  shows "sorted_wrt (\<lambda>t u. t + 10 * Second \<le> u) (dispatch_times ls)"
  using ctl_dispatch_spaced [OF assms(1) _ assms(2)] by (simp add: ctl_wf_New)

theorem dispatches_spaced_witness:
  "dispatch_times (demo_labels False) = [2, 61 * Second + 2]
   \<and> sorted_wrt (\<lambda>t u. t + 10 * Second \<le> u) (dispatch_times (demo_labels False))"
proof
  show "dispatch_times (demo_labels False) = [2, 61 * Second + 2]"
    by (simp add: demo_labels_def demo_label_def demo_dispatched1 demo_dispatched2 demo_clk_def)
  show "sorted_wrt (\<lambda>t u. t + 10 * Second \<le> u) (dispatch_times (demo_labels False))"
    by (rule dispatches_spaced [OF demo_run [unfolded demo_init_def] demo_clocks])
qed

text \<open>
  C2: the dispatches of one action on one pod are at least the policy's cooldown of that
  action apart, in every run of the controller, for every policy whose cooldown is not
  negative.
\<close>

theorem actions_cooled_down:
  assumes "ctl_steps qstr x ls (NewReconciler cfg, w) s" "clocks_ok ls"
    and "\<forall>a. CooldownFor (cfg_Policy cfg) a \<noteq> minDuration" "0 \<le> CooldownFor (cfg_Policy cfg) act"
  shows "sorted_wrt (\<lambda>t u. t + CooldownFor (cfg_Policy cfg) act \<le> u) (action_times (pod, ns, act) ls)"
  using ctl_action_spaced [OF assms(1) _ assms(2)] assms(3,4)
  by (simp add: ctl_wf_New)

theorem actions_cooled_down_witness:
  "action_times (''p'', ''default'', ''restart_pod'') (demo_labels False) = [9, 61 * Second + 9]
   \<and> sorted_wrt (\<lambda>t u. t + 60 * Second \<le> u) (action_times (''p'', ''default'', ''restart_pod'') (demo_labels False))"
proof
  show "action_times (''p'', ''default'', ''restart_pod'') (demo_labels False) = [9, 61 * Second + 9]"
    by (simp add: demo_labels_def demo_label_def demo_dispatched1 demo_dispatched2 demo_clk_def demo_anomaly_def)
  show "sorted_wrt (\<lambda>t u. t + 60 * Second \<le> u) (action_times (''p'', ''default'', ''restart_pod'') (demo_labels False))"
    using actions_cooled_down [OF demo_run [of False, unfolded demo_init_def] demo_clocks, of "''restart_pod''"
        "''p''" "''default''"] shipped_cooldowns_ok
    by (simp add: demo_cfg_def shipped_cooldowns unit_defs)
qed

text \<open>
  C3: in no window of one hour is an action dispatched on a pod more often than the
  policy's \<open>max_per_hour\<close>, when that is positive.
\<close>

theorem actions_capped:
  assumes "ctl_steps qstr x ls (NewReconciler cfg, w) s" "clocks_ok ls"
    and "\<forall>a. CooldownFor (cfg_Policy cfg) a \<noteq> minDuration" "0 < MaxPerHour (cfg_Policy cfg) act"
  shows "int (length (filter (\<lambda>g. t - Hour < g \<and> g \<le> t) (action_times (pod, ns, act) ls)))
    \<le> MaxPerHour (cfg_Policy cfg) act"
  using ctl_action_capped [OF assms(1) _ assms(2), of pod ns act t] assms(3,4)
  by (simp add: ctl_wf_New)

theorem actions_capped_witness:
  "action_times (''p'', ''default'', ''restart_pod'') (demo_labels False) = [9, 61 * Second + 9]
   \<and> int (length (filter (\<lambda>g. 62 * Second - Hour < g \<and> g \<le> 62 * Second)
       (action_times (''p'', ''default'', ''restart_pod'') (demo_labels False)))) \<le> 3"
proof
  show "action_times (''p'', ''default'', ''restart_pod'') (demo_labels False) = [9, 61 * Second + 9]"
    by (simp add: demo_labels_def demo_label_def demo_dispatched1 demo_dispatched2 demo_clk_def demo_anomaly_def)
  show "int (length (filter (\<lambda>g. 62 * Second - Hour < g \<and> g \<le> 62 * Second)
       (action_times (''p'', ''default'', ''restart_pod'') (demo_labels False)))) \<le> 3"
    using actions_capped [OF demo_run [of False, unfolded demo_init_def] demo_clocks, of "''restart_pod''"
        "62 * Second" "''p''" "''default''"] shipped_cooldowns_ok
    by (simp add: demo_cfg_def shipped_limits)
qed

text \<open>
  C4: a reconciliation that sends the API server a request that may change the cluster
  (a delete or a patch that is not a dry run) has passed every gate: the controller is not
  in dry-run mode, the namespace and the pod are not protected, the breaker and the rate
  limiter admitted it, the context is not manual, the chosen action needs no confirmation,
  its cooldown admitted it and a cordon counted enough pods; and the request names the
  anomaly's own pod, node or deployment.
\<close>

theorem disruption_is_gated:
  assumes "r \<in> set (issued w (snd (snd (reconcile qstr x u clk a c w))))" "disruptive r"
  shows "\<not> rc_dryRun c
    \<and> \<not> IsProtectedNamespace (rc_policy c) (an_Namespace a)
    \<and> \<not> IsProtectedPod (rc_policy c) (podLabels (fst (podGet x (an_Namespace a) (an_AffectedPod a) w)))
    \<and> fst (CircuitBreaker_Allow (clk 0) (rc_circuitBreaker c))
    \<and> fst (RateLimiter_Allow (clk 2) (clk 3) (rc_rateLimiter c))
    \<and> \<not> IsManual (an_AffectedPod a) (an_Namespace a) (an_Type a) (rc_escalation c)
    \<and> (\<exists>act n. fst (NextAction (an_AffectedPod a) (an_Namespace a) (an_Type a) (clk 5, clk 6, clk 7)
                     (rc_escalation c)) = (act, n, None)
        \<and> \<not> RequiresConfirmation (rc_policy c) act
        \<and> fst (GuardCooldown_Allow (an_AffectedPod a) (an_Namespace a) act (clk 9) (rc_cooldowns c))
        \<and> (act = ActionCordonNode \<longrightarrow> CordonMinPodCount (rc_policy c) \<le>
             fst (fst (AffectedPodCount x (an_AffectedNode a) (an_Namespace a)
               (snd (podGet x (an_Namespace a) (an_AffectedPod a) w))))))
    \<and> names_target (anomaly_target a Map.empty) r"
proof -
  note d = reconcile_disruptive [OF assms]
  obtain act n where g: "fst (reconcile_gates x clk a c w) = Inr (act, n)" using d(2) by blast
  note p = reconcile_gates_pass [OF g]
  note e = gate_escalation_pass [OF p(3)]
  show ?thesis
    using d(1,3) p(1,2) e unfolding admitted_def rate_ok_def after_limits_frame by blast
qed

theorem disruption_is_gated_witness:
  "PodDelete ''default'' ''p'' \<lparr>do_GracePeriodSeconds = Some 0, do_DryRun = []\<rparr>
     \<in> set (issued demo_world (snd (demo_step ''p'' 0 (demo_init False))))
   \<and> names_target (anomaly_target (demo_anomaly ''p'') Map.empty)
       (PodDelete ''default'' ''p'' \<lparr>do_GracePeriodSeconds = Some 0, do_DryRun = []\<rparr>)"
proof -
  let ?r = "PodDelete ''default'' ''p'' \<lparr>do_GracePeriodSeconds = Some 0, do_DryRun = []\<rparr>"
  have "?r \<in> set (filter disruptive (issued demo_world (snd (demo_step ''p'' 0 (demo_init False)))))"
    by (simp add: demo_issued1)
  then have h: "?r \<in> set (issued demo_world (snd (demo_step ''p'' 0 (demo_init False))))" "disruptive ?r" by auto
  then show ?thesis
    using disruption_is_gated [of ?r demo_world demo_qstr demo_ext "''u1''" "demo_clk 0" "demo_anomaly ''p''"
        "NewReconciler (demo_cfg False)"]
    by (simp add: demo_step_def demo_init_def)
qed

text \<open>
  C5: with dry-run mode set in the configuration or in the policy, no reconciliation of
  any run issues a request that may change the cluster.
\<close>

theorem dry_run_is_harmless:
  assumes "ctl_steps qstr x ls (NewReconciler cfg, w) s" "cfg_DryRun cfg \<or> IsDryRun (cfg_Policy cfg)"
    and "LReconcile a clk act calls \<in> set ls" "r \<in> set calls"
  shows "\<not> disruptive r"
  using ctl_dry_run [OF assms(1) _ _ assms(3,4)] assms(2) by (simp add: ctl_wf_New)

theorem dry_run_is_harmless_witness:
  "issued demo_world (snd (demo_step ''p'' 0 (demo_init True))) \<noteq> []
   \<and> filter disruptive (issued demo_world (snd (demo_step ''p'' 0 (demo_init True)))) = []"
proof
  show "issued demo_world (snd (demo_step ''p'' 0 (demo_init True))) \<noteq> []" by code_simp
  have "demo_label ''p'' 0 (demo_init True) \<in> set (demo_labels True)" by (simp add: demo_labels_def)
  then show "filter disruptive (issued demo_world (snd (demo_step ''p'' 0 (demo_init True)))) = []"
    using dry_run_is_harmless [OF demo_run [of True, unfolded demo_init_def]]
    by (auto simp: demo_label_def demo_cfg_def demo_init_def filter_empty_conv)
qed

text \<open>
  An anomaly of a protected namespace is refused before anything else: no request
  is sent, nothing is published, and no component's state changes.
\<close>

theorem protected_namespace_untouched:
  assumes "an_Namespace a \<in> set (po_ProtectedNamespaces (rc_policy c))"
  shows "reconcile qstr x u clk a c w = (Some (ProtectedNamespace (an_Namespace a)), c, w)"
  using assms by (simp add: reconcile_def reconcile_gates_def)

theorem protected_namespace_untouched_witness:
  "''kube-system'' \<in> set (po_ProtectedNamespaces shipped_policy)
   \<and> reconcile demo_qstr demo_ext ''u1'' (demo_clk 0) ((demo_anomaly ''p'')\<lparr>an_Namespace := ''kube-system''\<rparr>)
       (NewReconciler (demo_cfg False)) demo_world
     = (Some (ProtectedNamespace ''kube-system''), NewReconciler (demo_cfg False), demo_world)"
  using protected_namespace_untouched [of "(demo_anomaly ''p'')\<lparr>an_Namespace := ''kube-system''\<rparr>"
      "NewReconciler (demo_cfg False)"]
  by (simp add: shipped_defs demo_cfg_def)

text \<open>
  C6: whatever sequence of choices, resolutions and purges the escalation manager sees
  from its start, its answers and the state of every context are those of the ladder: each
  choice climbs one of seven rungs (three restarts, two reschedulings, one cordon, then manual,
  so six autonomous attempts), a resolution returns to the bottom, and a purge changes no rung,
  since it removes resolved contexts only: a stale context that was never resolved keeps its
  rung, although the comment of the code says that stale contexts are removed too.
\<close>

theorem escalation_follows_ladder:
  "(map (map_option esc_out) (fst (esc_run ps NewEscalationManager)), esc_rung (snd (esc_run ps NewEscalationManager)))
   = rung_run ps (\<lambda>_. 0)"
proof -
  have "esc_rung NewEscalationManager = (\<lambda>_. 0)" by (simp add: fun_eq_iff esc_wf_New)
  then show ?thesis using esc_run_refines [OF esc_wf_New(1), of ps] by simp
qed

text \<open>
  C7: when the policy asks for confirmation before the manual action, no run of the
  controller leaves a context in the manual state: the choice is reset by the confirmation
  gate before it is stored.
\<close>

theorem manual_never_persists:
  assumes "ctl_steps qstr x ls (NewReconciler cfg, w) s" "RequiresConfirmation (cfg_Policy cfg) ActionManual"
  shows "\<not> IsManual pod ns ty (rc_escalation (fst s))"
proof -
  have w: "ctl_wf (fst s)" using ctl_steps_wf [OF assms(1)] by (simp add: ctl_wf_New)
  have "\<forall>k. esc_rung (rc_escalation (fst s)) k \<le> 6"
    using ctl_steps_below_manual [OF assms(1)] assms(2) by (simp add: ctl_wf_New esc_wf_New)
  then have "esc_rung (rc_escalation (fst s)) (pod, ns, ty) \<le> 6" by blast
  then show ?thesis using w by (simp add: ctl_wf_def IsManual_rung)
qed

theorem manual_never_persists_witness:
  "RequiresConfirmation shipped_policy ActionManual
   \<and> \<not> IsManual ''p'' ''default'' ''oom_kill'' (rc_escalation (fst (demo_step ''p'' (61 * Second) (demo_step ''p'' 0 (demo_init False)))))"
proof -
  have "RequiresConfirmation shipped_policy ActionManual" by code_simp
  then show ?thesis
    using manual_never_persists [OF demo_run [of False, unfolded demo_init_def]] by (simp add: demo_cfg_def demo_init_def)
qed

text \<open>
  C8: a failure recorded while the breaker is closed opens it exactly when another outcome
  lies in the evaluation window and the failures, this one included, reach one percentage
  point more than the threshold: the percentage is rounded down before it is compared.
\<close>

theorem breaker_trips_iff:
  assumes "cb_enabled cb" "\<not> cb_isOpen cb"
  shows "cb_isOpen (RecordFailure n1 n2 cb) \<longleftrightarrow>
         recent n1 cb \<noteq> [] \<and>
         (cb_failurePct cb + 1) * (int (length (recent n1 cb)) + 1) \<le> (int (failed (recent n1 cb)) + 1) * 100"
  by (rule RecordFailure_opens_iff [OF assms])

theorem breaker_trips_iff_witness:
  "cb_enabled (demo_breaker False 25 25) \<and> \<not> cb_isOpen (demo_breaker False 25 25)
   \<and> \<not> cb_isOpen (RecordFailure 2 3 (demo_breaker False 25 25))
   \<and> cb_isOpen (RecordFailure 2 3 (demo_breaker False 2 2))"
  using breaker_trips_iff [of "demo_breaker False 25 25" 2 3] breaker_trips_iff [of "demo_breaker False 2 2" 2 3]
  by (simp add: demo_breaker_def recent_def failed_def unit_defs)

text \<open>
  C9: an open breaker admits nothing before its pause is over, whatever outcomes are
  recorded meanwhile.
\<close>

theorem breaker_pauses:
  assumes "cb_wf cb" "cb_enabled cb" "cb_isOpen cb" "T \<le> cb_trippedAt cb + cb_pauseDuration cb"
    and "\<forall>p \<in> set ps. \<forall>t \<in> cb_times p. T - cb_pauseDuration cb \<le> t \<and> t < T"
    and "(CbAllow now, b) \<in> set (fst (cb_run ps cb))"
  shows "\<not> b"
  using cb_run_paused [OF assms(1) _ assms(4-6)] assms(2,3) by (simp add: paused_until_def)

theorem breaker_pauses_witness:
  "cb_wf (demo_breaker True 0 0)
   \<and> fst (cb_run [CbFailure 5 6, CbAllow 7] (demo_breaker True 0 0)) = [(CbFailure 5 6, True), (CbAllow 7, False)]"
proof -
  have w: "cb_wf (demo_breaker True 0 0)" by (simp add: cb_wf_def demo_breaker_def minDuration_def maxDuration_def unit_defs)
  obtain b where b: "fst (cb_run [CbFailure 5 6, CbAllow 7] (demo_breaker True 0 0)) = [(CbFailure 5 6, True), (CbAllow 7, b)]"
    by (simp add: case_prod_beta)
  have "\<not> b"
    by (rule breaker_pauses [OF w, of 100 "[CbFailure 5 6, CbAllow 7]" 7])
      (use b in \<open>auto simp: demo_breaker_def unit_defs\<close>)
  then show ?thesis using w b by simp
qed

text \<open>
  The explanation of a block is exact: the cooldown store admits an action precisely
  when it reports no reason to block it at that instant.
\<close>

theorem cooldown_block_explained:
  "fst (GuardCooldown_Allow pod ns a now c) \<longleftrightarrow> fst (GuardCooldown_TimeUntilNext pod ns a now c) = NotBlocked"
  by (rule TimeUntilNext_explains)

text \<open>
  No context is blocked forever: once the longer of an hour and the cooldown has
  passed since its latest dispatch, the action is admitted.
\<close>

theorem cooldown_admits_again:
  assumes "\<forall>a. CooldownFor (gcs_policy c) a \<noteq> minDuration" "zeroTime < now"
    and "\<forall>t \<in> set (gcs_hist c (pod, ns, a)). t \<le> t0" "gcs_last c (pod, ns, a) = Some t0"
    and "t0 + max Hour (CooldownFor (gcs_policy c) a) \<le> now"
  shows "fst (GuardCooldown_Allow pod ns a now c)"
  by (rule GuardCooldown_eventually [OF _ assms(2-5)]) (use assms(1) in \<open>simp add: gcs_wf_def\<close>)

theorem cooldown_admits_again_witness:
  "\<not> fst (GuardCooldown_Allow ''p'' ''default'' ''restart_pod'' 6 demo_store)
   \<and> fst (GuardCooldown_Allow ''p'' ''default'' ''restart_pod'' (2 * Hour) demo_store)"
proof
  show "\<not> fst (GuardCooldown_Allow ''p'' ''default'' ''restart_pod'' 6 demo_store)" by code_simp
  have s: "gcs_last demo_store (''p'', ''default'', ''restart_pod'') = Some 5"
    "gcs_hist demo_store (''p'', ''default'', ''restart_pod'') = [5]"
    by code_simp+
  have p: "gcs_policy demo_store = shipped_policy"
    by (simp add: demo_store_def GuardCooldown_Allow_def NewGuardCooldownStore_def Let_def)
  show "fst (GuardCooldown_Allow ''p'' ''default'' ''restart_pod'' (2 * Hour) demo_store)"
    by (rule cooldown_admits_again [of _ _ _ _ _ 5])
      (use s p shipped_cooldowns_ok in \<open>auto simp: shipped_cooldowns unit_defs zeroTime_def\<close>)
qed

section \<open>From the analyzer to the controller\<close>

text \<open>
  C10: the controller decodes an event of the analyzer to exactly this anomaly: the rule's
  identifier and the metric become identifier and type, pod, namespace, deployment,
  confidence, signals, cause and action are kept; the node is empty and timestamp and
  time-to-live are zero, because the analyzer sends neither.
\<close>

theorem analyzer_event_handed_over:
  assumes "fl64 (av_Confidence e) = av_Confidence e"
  shows "unmarshal_AnomalyEvent (Some (marshal_AnalyzerAnomalyEvent e)) =
    Some \<lparr>an_AnomalyID = av_ID e, an_Type = av_Metric e, an_Confidence = av_Confidence e, an_AffectedPod = av_Pod e,
      an_AffectedNode = [], an_Namespace = av_Namespace e, an_Deployment = av_Deployment e,
      an_Signals = av_ActiveSignals e, an_SuggestedCause = av_SuggestedCause e,
      an_SuggestedAction = av_SuggestedAction e, an_Timestamp = 0, an_TTLS = 0\<rparr>"
  using assms as_float_json_float
  by (simp add: unmarshal_AnomalyEvent_def marshal_AnalyzerAnomalyEvent_def unmarshal_fields_def decode_eval
      strings_roundtrip Let_def)

theorem analyzer_event_handed_over_witness:
  "map_option an_AffectedPod (unmarshal_AnomalyEvent (Some (marshal_AnalyzerAnomalyEvent demo_event))) = Some ''p''
   \<and> map_option an_AffectedNode (unmarshal_AnomalyEvent (Some (marshal_AnalyzerAnomalyEvent demo_event))) = Some ''''"
proof -
  have "fl64 (av_Confidence demo_event) = av_Confidence demo_event" by code_simp
  from analyzer_event_handed_over [OF this] show ?thesis by (simp add: demo_event_def)
qed

text \<open>
  C11: the analyzer's dry-run mark has no effect downstream: the controller treats an event
  marked as log-only exactly as it treats the same event marked for action.
\<close>

theorem analyzer_dry_run_ignored:
  "handleAnomaly qstr x u clk (Some (marshal_AnalyzerAnomalyEvent (e\<lparr>av_DryRun := b\<rparr>))) s =
   handleAnomaly qstr x u clk (Some (marshal_AnalyzerAnomalyEvent e)) s"
proof -
  have "unmarshal_AnomalyEvent (Some (marshal_AnalyzerAnomalyEvent (e\<lparr>av_DryRun := b\<rparr>))) =
      unmarshal_AnomalyEvent (Some (marshal_AnalyzerAnomalyEvent e))"
    by (simp add: unmarshal_AnomalyEvent_def marshal_AnalyzerAnomalyEvent_def unmarshal_fields_def decode_eval Let_def)
  then show ?thesis by (simp only: handleAnomaly_def)
qed

text \<open>
  An anomaly without a node, such as every anomaly of the analyzer, cannot be answered
  with a rescheduling or a cordon: both executors refuse it before any request.
\<close>

theorem node_actions_need_a_node:
  assumes "an_AffectedNode a = []" "act \<in> {ActionReschedulePod, ActionCordonNode}"
  shows "\<exists>e. Dispatcher_Execute (NewDispatcher qstr pct) act x (anomaly_target a m) d w = (Some e, w)"
  using assms reschedule_needs_node [of "anomaly_target a m"] cordon_needs_node [of "anomaly_target a m"]
  by (auto simp: anomaly_target_def)

theorem node_actions_need_a_node_witness:
  "\<exists>e. Dispatcher_Execute (NewDispatcher demo_qstr 25) ''cordon_node'' demo_ext
     (anomaly_target ((demo_anomaly ''p'')\<lparr>an_AffectedNode := []\<rparr>) Map.empty) False demo_world = (Some e, demo_world)"
  using node_actions_need_a_node [of "(demo_anomaly ''p'')\<lparr>an_AffectedNode := []\<rparr>" ActionCordonNode]
  by (simp add: ActionCordonNode_def)

section \<open>Executors, observer and bus\<close>

text \<open>
  C12: a memory patch never lowers the limit and never raises it by more than half, whatever
  the configured percentage, in the \<open>float64\<close> arithmetic of the code. The comment of the package
  promises a resulting limit of at least 128Mi as well, but the code has no such minimum: from a
  limit below 85Mi the result stays below 128Mi, as in the second half of the witness.
\<close>

theorem memory_patch_bounded:
  assumes "0 \<le> pct" "0 \<le> b" "b < 2 ^ 51"
  shows "b \<le> newMemory pct b \<and> newMemory pct b \<le> (3 * b) div 2"
  by (rule newMemory_bounds [OF assms])

theorem memory_patch_bounded_witness:
  "(512 :: int) * 2 ^ 20 \<le> newMemory 80 (512 * 2 ^ 20) \<and> newMemory 80 (512 * 2 ^ 20) \<le> 768 * 2 ^ 20
   \<and> newMemory 80 (64 * 2 ^ 20) < 128 * 2 ^ 20"
  using memory_patch_bounded [of 80 "512 * 2 ^ 20"] memory_patch_bounded [of 80 "64 * 2 ^ 20"] by simp

text \<open>
  C13: the observation of an action ends: with polls at least five seconds apart, as many
  rounds as the window has polls, and two more, always give a verdict.
\<close>

theorem observer_terminates:
  assumes "polls_spaced clk" "window < int fuel * observerPollInterval"
  shows "\<exists>r. watch (Suc fuel) x a window clk cancelled w = Some r"
  by (rule watch_total [OF assms])

theorem observer_terminates_witness:
  "\<exists>r. watch (Suc 13) demo_ext demo_action (60 * Second) (\<lambda>i. int i * (5 * Second)) (\<lambda>_. False) demo_world = Some r"
  by (rule observer_terminates) (auto simp: polls_spaced_def observerPollInterval_def unit_defs)

text \<open>
  Observing changes nothing: the requests of an observation are reads, nothing is
  published, and a positive verdict comes from a check that succeeded before the deadline.
\<close>

theorem observer_only_reads:
  assumes "watch fuel x a window clk cancelled w = Some ((b, ms), w')"
  shows "(\<exists>cs. w_calls w' = w_calls w @ cs \<and> (\<forall>c \<in> set cs. \<not> disruptive c)) \<and> w_published w' = w_published w
    \<and> (b \<longrightarrow> (\<exists>j w0. clk j < Add (clk 0) window \<and> check_target x a w0 = (Inr True, w')))"
proof -
  note l = assms [unfolded watch_def]
  have "\<exists>j w0. clk j < Add (clk 0) window \<and> check_target x a w0 = (Inr True, w')" if b
    using watch_loop_resolved [of fuel x a "Add (clk 0) window" "clk 1" clk cancelled 2 w ms w'] l that by auto
  then show ?thesis using watch_loop_reads [OF l] by blast
qed

theorem observer_only_reads_witness:
  "\<exists>ms w'. watch 3 demo_ext demo_action (60 * Second) (\<lambda>i. int i * (5 * Second)) (\<lambda>_. False) demo_world = Some ((True, ms), w')
     \<and> w_published w' = w_published demo_world"
proof -
  have "map_option (fst \<circ> fst) (watch 3 demo_ext demo_action (60 * Second) (\<lambda>i. int i * (5 * Second)) (\<lambda>_. False) demo_world)
      = Some True" by code_simp
  then obtain ms w' where r: "watch 3 demo_ext demo_action (60 * Second) (\<lambda>i. int i * (5 * Second)) (\<lambda>_. False) demo_world
      = Some ((True, ms), w')" by auto
  then show ?thesis using observer_only_reads [OF r] by blast
qed

text \<open>
  C14: a consumer whose context ends after a bounded number of calls returns, and when it
  does, the context has ended, and with the calls to the broker on record: every message the
  fetches delivered was handed to the handler once and in the order of delivery, each time with
  the handler state its predecessor left, and the answers given to the broker are one per
  delivered message, in the same order, an acknowledgement exactly where the handler succeeded
  and a refusal where it failed.
\<close>

theorem consumer_handles_in_order:
  assumes "wait_honest b" "context_ends b left" "left e < fuel"
  shows "\<exists>r acks s' e' got sent.
           consume fuel b cfg subject name h s e = Some (Some r, acks, s', e')
         \<and> consume fuel (recording b) cfg subject name h s (e, [], []) = Some (Some r, acks, s', (e', got, sent))
         \<and> b_ctxErr b e' = Some r \<and> map fst sent = got \<and> run_handler h got s = (sent, s')"
proof -
  obtain q acks s' e' where c: "consume fuel b cfg subject name h s e = Some (q, acks, s', e')"
    using consume_returns [OF assms(2,3)] by (metis not_None_eq prod_cases4)
  from consume_consumed [OF c assms(1)] obtain r where r: "q = Some r" "b_ctxErr b e' = Some r"
      "run_handler h (map fst acks) s = (acks, s')" by (auto simp: consumed_def)
  with c obtain l where "consume fuel (recording b) cfg subject name h s (e, [], []) = Some (Some r, acks, s', (e', l))"
    using consume_erase [of fuel b cfg subject name h s e "([], [])"] by (auto simp: erase_run_def)
  with recording_consume [OF this] c r show ?thesis by (auto simp: logged_def)
qed

theorem consumer_handles_in_order_witness:
  "\<exists>acks s' e' got sent. consume 7 (recording demo_broker) demo_subscription ''selfheal.anomalies.*'' ''c''
        (\<lambda>m s. (if m = 1 then Some ''bad'' else None, s @ [m])) [] (20, [], []) = Some (Some ''done'', acks, s', (e', got, sent))
    \<and> got = [0, 1, 2] \<and> sent = [(0, True), (1, False), (2, True)] \<and> s' = [0, 1, 2 :: int]"
proof -
  let ?h = "\<lambda>m s. (if m = 1 then Some ''bad'' else None, s @ [m])"
  have "wait_honest demo_broker" by (simp add: wait_honest_def demo_broker_def)
  moreover have "context_ends demo_broker (\<lambda>e. 26 - e)" by (auto simp: context_ends_def demo_broker_def)
  moreover have "consume 7 demo_broker demo_subscription ''selfheal.anomalies.*'' ''c'' ?h [] 20 =
      Some (Some ''done'', [(0, True), (1, False), (2, True)], [0, 1, 2], 26)" by code_simp
  moreover have "map_option (\<lambda>(r, acks, s', e', got, sent). got)
      (consume 7 (recording demo_broker) demo_subscription ''selfheal.anomalies.*'' ''c'' ?h [] (20, [], [])) = Some [0, 1, 2]" by code_simp
  ultimately show ?thesis
    using consumer_handles_in_order [of demo_broker "\<lambda>e. 26 - e" 20 7 demo_subscription "''selfheal.anomalies.*''" "''c''" ?h "[]"] by auto
qed

section \<open>Analyzer\<close>

text \<open>
  C15: a window fed in time order holds, in order, the newest 1024 of the samples that lie
  within its duration of the newest one.
\<close>

theorem window_holds_recent_samples:
  assumes "sorted (map sm_Time ss)" "ss \<noteq> []" "0 \<le> d"
  shows "Window_Samples (fold (\<lambda>s. Window_Record (sm_Value s) (sm_Time s)) ss (newWindow d)) =
    lastn defaultWindowCapacity (filter (\<lambda>s. sm_Time (last ss) - d \<le> sm_Time s) ss)"
  using feed_contents [OF assms] by (simp add: feed_def Window_Samples_def)

theorem window_holds_recent_samples_witness:
  "Window_Samples (fold (\<lambda>s. Window_Record (sm_Value s) (sm_Time s)) demo_samples (newWindow 7)) = tl demo_samples"
  using window_holds_recent_samples [of demo_samples 7]
  by (simp add: demo_samples_def lastn_def defaultWindowCapacity_def)

text \<open>
  C16: for a percentile between 0 and 100 the index computed in \<open>float64\<close> lies inside the
  window, so the call returns, and it returns one of the recorded values.
\<close>

theorem percentile_never_panics:
  assumes "0 \<le> p" "p \<le> 100" "length (wd_samples w) \<le> defaultWindowCapacity"
  shows "\<exists>v. Window_Percentile p w = Some v \<and> (wd_samples w \<noteq> [] \<longrightarrow> v \<in> sm_Value ` set (wd_samples w))"
  by (rule Window_Percentile_safe [OF assms])

theorem percentile_never_panics_witness:
  "\<exists>v. Window_Percentile 100 \<lparr>wd_duration = 10, wd_samples = demo_samples\<rparr> = Some v \<and> v \<in> {1, 2, 3}"
  using percentile_never_panics [of 100 "\<lparr>wd_duration = 10, wd_samples = demo_samples\<rparr>"]
  by (simp add: demo_samples_def defaultWindowCapacity_def insert_commute)

text \<open>
  C17: the anomalies the engine emits for one pod and suggested action are at least that
  action's cooldown apart, over any sequence of signals.
\<close>

theorem emissions_spaced:
  assumes "\<forall>(sig, n0, n) \<in> set ss. zeroTime < n"
  shows "sorted_wrt (\<lambda>t u. t + cp_Duration (cooldownPolicyFor act) \<le> u)
    (emission_times (pod, act) (fst (engine_run x ss (NewEngine rules cfg pub dry) w)))"
  by (rule engine_run_spaced [OF assms])

theorem emissions_spaced_witness:
  "emission_times (''p'', ''restart_pod'') (fst (engine_run demo_ext demo_signals demo_small_engine demo_world)) = [1, 70 * Second]
   \<and> sorted_wrt (\<lambda>t u. t + 60 * Second \<le> u)
       (emission_times (''p'', ''restart_pod'') (fst (engine_run demo_ext demo_signals demo_small_engine demo_world)))"
proof
  show "emission_times (''p'', ''restart_pod'') (fst (engine_run demo_ext demo_signals demo_small_engine demo_world)) = [1, 70 * Second]"
    by code_simp
  have d: "cp_Duration (cooldownPolicyFor ''restart_pod'') = 60 * Second" by code_simp
  have "\<forall>(sig, n0, n) \<in> set demo_signals. zeroTime < n" by (simp add: demo_signals_def unit_defs)
  from emissions_spaced [OF this, of "''restart_pod''" "''p''"]
  show "sorted_wrt (\<lambda>t u. t + 60 * Second \<le> u)
       (emission_times (''p'', ''restart_pod'') (fst (engine_run demo_ext demo_signals demo_small_engine demo_world)))"
    by (simp add: demo_small_engine_def d)
qed

text \<open>
  In no hour does the engine emit more anomalies for a pod and action than that
  action's hourly limit.
\<close>

theorem emissions_capped:
  assumes "sorted (map (snd \<circ> snd) ss)"
  shows "int (length (filter (\<lambda>g. t - Hour < g \<and> g \<le> t)
      (emission_times (pod, act) (fst (engine_run x ss (NewEngine rules cfg pub dry) w))))) \<le> cp_MaxPerHour (cooldownPolicyFor act)"
  by (rule engine_run_capped [OF assms]) (simp add: NewEngine_def)

theorem emissions_capped_witness:
  "int (length (filter (\<lambda>g. 80 * Second - Hour < g \<and> g \<le> 80 * Second)
     (emission_times (''p'', ''restart_pod'') (fst (engine_run demo_ext demo_signals demo_small_engine demo_world))))) \<le> 3"
proof -
  have d: "cp_MaxPerHour (cooldownPolicyFor ''restart_pod'') = 3" by code_simp
  have "sorted (map (snd \<circ> snd) demo_signals)" by (simp add: demo_signals_def unit_defs)
  from emissions_capped [OF this, of "80 * Second" "''p''" "''restart_pod''"] show ?thesis by (simp add: demo_small_engine_def d)
qed

text \<open>
  C18: every emitted event is justified: it names a rule of the signal's metric whose
  condition the average of the pod's window meets, carries that average, a confidence between
  0 and 1 at or above the suppression threshold, and is marked dry-run exactly in dry-run mode
  or below the action threshold.
\<close>

theorem emitted_event_justified:
  assumes "e \<in> set (fst (process_decoded x now0 now sig en w))"
  shows "\<exists>rule win. rule \<in> set (en_rules en) \<and> av_ID e = ru_ID rule \<and> ru_Metric rule = sg_Metric sig
    \<and> WindowStore_Get (sg_Pod sig) (sg_Metric sig) (en_windows (fst (snd (process_decoded x now0 now sig en w)))) = Some win
    \<and> av_MetricValue e = Window_Average win \<and> breaches (Window_Average win) (ru_Condition rule)
    \<and> 0 \<le> av_Confidence e \<and> av_Confidence e \<le> 1
    \<and> Decide (av_Confidence e) (en_thresholds en) \<noteq> DecisionSuppress
    \<and> (av_DryRun e \<longleftrightarrow> en_dryRun en \<or> Decide (av_Confidence e) (en_thresholds en) = DecisionLogOnly)"
  by (rule process_decoded_events [OF assms])

theorem emitted_event_justified_witness:
  "\<exists>e \<in> set (fst (process_decoded demo_ext 0 0 (demo_signal ''io_wait_ms'' 60 1) demo_engine demo_world)).
     av_ID e = ''high_io_wait'' \<and> 0 \<le> av_Confidence e \<and> av_Confidence e \<le> 1"
proof -
  have "map av_ID (fst (process_decoded demo_ext 0 0 (demo_signal ''io_wait_ms'' 60 1) demo_engine demo_world)) = [''high_io_wait'']"
    by code_simp
  then obtain e where "e \<in> set (fst (process_decoded demo_ext 0 0 (demo_signal ''io_wait_ms'' 60 1) demo_engine demo_world))"
    "av_ID e = ''high_io_wait''" by (auto simp: map_eq_Cons_conv)
  then show ?thesis using emitted_event_justified by blast
qed

text \<open>
  With the shipped rules every event names its own rule as the only active signal, and
  exactly the events of \<open>high_major_page_faults\<close> and \<open>high_io_wait\<close> are log-only: their base
  confidence less the penalty is below the action threshold.
\<close>

theorem shipped_rules_confidence:
  assumes "shipped_engine en" "e \<in> set (fst (process_decoded x now0 now sig en w))"
  shows "av_ActiveSignals e = [av_ID e] \<and> av_ID e \<in> ru_ID ` set shipped_rules
    \<and> (av_DryRun e \<longleftrightarrow> en_dryRun en \<or> av_ID e \<in> {''high_major_page_faults'', ''high_io_wait''})"
  using shipped_event [OF assms] by (auto simp: log_only_rules_def)

theorem shipped_rules_confidence_witness:
  "\<exists>e \<in> set (fst (process_decoded demo_ext 0 0 (demo_signal ''io_wait_ms'' 60 1) demo_engine demo_world)).
     av_ID e = ''high_io_wait'' \<and> av_DryRun e"
proof -
  have "map av_ID (fst (process_decoded demo_ext 0 0 (demo_signal ''io_wait_ms'' 60 1) demo_engine demo_world)) = [''high_io_wait'']"
    by code_simp
  then obtain e where e: "e \<in> set (fst (process_decoded demo_ext 0 0 (demo_signal ''io_wait_ms'' 60 1) demo_engine demo_world))"
    "av_ID e = ''high_io_wait''" by (auto simp: map_eq_Cons_conv)
  have "shipped_engine demo_engine" by (simp add: shipped_engine_def demo_engine_def NewEngine_def)
  from shipped_rules_confidence [OF this e(1)] e show ?thesis by auto
qed

section \<open>Intelligence\<close>

text \<open>
  C19: in every graph the operations can produce, both indices are determined by the history
  of placements and removals. The node of a pod is the one of its last placement, and none after
  its removal. A node lists a pod, once, exactly when the pod was placed there and was not later
  removed while that node was its current one. So a mapped pod is listed on its node, and for a
  pod that was never moved the indices agree in both directions; a pod that was moved without a
  removal stays listed on its old node until it is placed there again and then removed.
\<close>

theorem graph_indices_agree:
  assumes "dg_trace ga es g"
  shows "NodeForPod p g = placed es p
    \<and> (p \<in> set (PeersOnNode n g) \<longleftrightarrow> listed es p n) \<and> distinct (PeersOnNode n g)
    \<and> (NodeForPod p g = Some n \<longrightarrow> p \<in> set (PeersOnNode n g))
    \<and> (unmoved es p \<and> n \<noteq> [] \<longrightarrow> (p \<in> set (PeersOnNode n g) \<longleftrightarrow> NodeForPod p g = Some n))"
  using dg_trace_indexed [OF assms] placed_listed [of es p n] unmoved_listed [of es p n]
  by (simp add: indexed_def NodeForPod_def PeersOnNode_def)

theorem graph_indices_agree_witness:
  "let g = RegisterPod (demo_graph_pod ''p'' ''n2'') (RegisterPod (demo_graph_pod ''p'' ''n1'') NewDependencyGraph);
       p = PodID ''default'' ''p''; g' = UnregisterPod ''default'' ''p'' g
   in NodeForPod p g = Some (NodeID ''n2'') \<and> p \<in> set (PeersOnNode (NodeID ''n2'') g) \<and> p \<in> set (PeersOnNode (NodeID ''n1'') g)
    \<and> NodeForPod p g' = None \<and> p \<notin> set (PeersOnNode (NodeID ''n2'') g') \<and> p \<in> set (PeersOnNode (NodeID ''n1'') g')"
proof -
  let ?g = "RegisterPod (demo_graph_pod ''p'' ''n2'') (RegisterPod (demo_graph_pod ''p'' ''n1'') NewDependencyGraph)"
  let ?es = "pod_placements [demo_graph_pod ''p'' ''n2''] @ pod_placements [demo_graph_pod ''p'' ''n1''] @ []"
  have t: "dg_trace undefined ?es ?g" by (intro trace_register trace_new)
  have [simp]: "placed ?es (PodID ''default'' ''p'') = Some (NodeID ''n2'')"
    "listed ?es (PodID ''default'' ''p'') (NodeID n) \<longleftrightarrow> n = ''n1'' \<or> n = ''n2''" "NodeID n \<noteq> []" for n
    by (auto simp: pod_placements_def demo_graph_pod_def NodeID_def resourceID_def)
  have [simp]: "NodeID ''n1'' \<noteq> NodeID ''n2''" "NodeID ''n2'' \<noteq> NodeID ''n1''" by (simp_all add: NodeID_def resourceID_def)
  note q = graph_indices_agree [OF t, of "PodID ''default'' ''p''"]
    graph_indices_agree [OF trace_unregister [OF t, of "''default''" "''p''"], of "PodID ''default'' ''p''"]
  show ?thesis using q [of "NodeID ''n1''"] q [of "NodeID ''n2''"] by (simp add: Let_def del: append_Nil2)
qed

text \<open>
  C20: after any sequence of anomalies, outcomes and decays, every node's health score, in
  the \<open>float64\<close> arithmetic of the code, lies between 0 and 1 and its tier is the one of the score.
\<close>

theorem node_scores_in_range:
  "\<forall>sc \<in> set (AllScores now (fst (fold scorer_step ops (NewNodeHealthScorer, w)))).
     0 \<le> sc_Score sc \<and> sc_Score sc \<le> 1 \<and> sc_Tier sc = tier (sc_Score sc)"
  using AllScores_range scorer_run_wf [of "(NewNodeHealthScorer, w)" ops]
  by (simp add: scorer_wf_def NewNodeHealthScorer_def)

theorem node_scores_in_range_witness:
  "\<exists>sc. AllScores 5 (fst (fold scorer_step [ScAnomaly ''n1'' (1, 2, 3)] (NewNodeHealthScorer, demo_world))) = [sc]
     \<and> 0 \<le> sc_Score sc \<and> sc_Score sc \<le> 1"
proof -
  let ?l = "AllScores 5 (fst (fold scorer_step [ScAnomaly ''n1'' (1, 2, 3)] (NewNodeHealthScorer, demo_world)))"
  have "map sc_NodeName ?l = [''n1'']"
    by (simp add: RecordAnomaly_def getOrCreate_def NewNodeHealthScorer_def emitMetric_def computeScore_def Let_def)
  then obtain sc where "?l = [sc]" by (auto simp: map_eq_Cons_conv)
  then show ?thesis using node_scores_in_range [of 5 "[ScAnomaly ''n1'' (1, 2, 3)]" demo_world] by simp
qed

text \<open>
  The list of unhealthy nodes holds exactly the nodes below the threshold, worst first:
  the exchange sort in the code sorts.
\<close>

theorem unhealthy_nodes_sorted:
  "sorted (map sc_Score (UnhealthyNodes th now s))
   \<and> mset (UnhealthyNodes th now s) = mset (filter (\<lambda>n. sc_Score n < th) (AllScores now s))"
  using UnhealthyNodes_sorted by blast

text \<open>
  C21: an incident of a flush lists each pod once, at least as many pods as the threshold
  asks for, only entries received within the aggregation window, and its node's window is
  empty afterwards.
\<close>

theorem incident_lists_recent_pods:
  assumes "inc \<in> set (fst (flush_node cutoff now during nodeID a))"
  shows "distinct (map entry_key (ni_Anomalies inc))
    \<and> ag_MinPodsThreshold (ar_cfg a) \<le> int (length (ni_Anomalies inc))
    \<and> (\<forall>e \<in> set (ni_Anomalies inc). cutoff < ay_ReceivedAt e \<and> e \<in> set (window_of (ar_windows a) nodeID))
    \<and> map_of (ar_windows (snd (flush_node cutoff now during nodeID a))) nodeID = None"
  using flush_node_incident [OF assms] by blast

theorem incident_lists_recent_pods_witness:
  "\<exists>inc. fst (flush_node 4 8 [] ''Node/n1'' demo_aggregator) = [inc] \<and> map ay_PodName (ni_Anomalies inc) = [''a'', ''b'']
     \<and> distinct (map entry_key (ni_Anomalies inc))"
proof -
  have "map (map ay_PodName \<circ> ni_Anomalies) (fst (flush_node 4 8 [] ''Node/n1'' demo_aggregator)) = [[''a'', ''b'']]" by code_simp
  then obtain inc where "fst (flush_node 4 8 [] ''Node/n1'' demo_aggregator) = [inc]" "map ay_PodName (ni_Anomalies inc) = [''a'', ''b'']"
    by (auto simp: map_eq_Cons_conv)
  then show ?thesis using incident_lists_recent_pods [of inc 4 8 "[]" "''Node/n1''" demo_aggregator] by simp
qed

text \<open>
  The majority rule, computed in \<open>float64\<close>, is exact: a pattern matches if and only if
  each of its signals was counted in strictly more than three fifths of the pods.
\<close>

theorem majority_is_three_fifths:
  assumes "0 \<le> n" "n \<le> 2 ^ 40"
  shows "patternMatchesMajority sigs counts n \<longleftrightarrow> (\<forall>s \<in> set sigs. 3 * n < 5 * signal_count counts s)"
  by (rule patternMatchesMajority_fraction [OF assms])

theorem majority_is_three_fifths_witness:
  "\<not> patternMatchesMajority [''oom_kill''] [(''oom_kill'', 3)] 5 \<and> patternMatchesMajority [''oom_kill''] [(''oom_kill'', 4)] 5"
  using majority_is_three_fifths [of 5 "[''oom_kill'']" "[(''oom_kill'', 3)]"]
    majority_is_three_fifths [of 5 "[''oom_kill'']" "[(''oom_kill'', 4)]"]
  by (simp add: signal_count_def)

text \<open>
  C22: an incident built from events of the shipped rules is never attributed: the rules'
  identifiers are not among the signal names the patterns look for, so the root cause is
  unknown whatever the pods report.
\<close>

theorem shipped_incidents_unknown:
  assumes "classify g u clk inc = Some ev"
    and "\<forall>a \<in> set (ni_Anomalies inc). set (ay_Signals a) \<subseteq> ru_ID ` set shipped_rules"
  shows "ie_RootCause ev = RootCauseUnknown \<and> 0 \<le> ie_RootCauseConf ev \<and> ie_RootCauseConf ev \<le> 1"
proof -
  have "list_all (\<lambda>r. ru_ID r \<notin> set pattern_signals) shipped_rules" by code_simp
  then have "\<forall>a \<in> set (ni_Anomalies inc). set (ay_Signals a) \<inter> set pattern_signals = {}"
    using assms(2) by (fastforce simp: list_all_iff)
  then show ?thesis using classify_foreign_signals [OF assms(1)] classify_confidence [OF assms(1)] by simp
qed

theorem shipped_incidents_unknown_witness:
  "map_option ie_RootCause (classify NewDependencyGraph ''u'' (0, 0) (demo_incident [''oom_kill_detected''] 3 0)) = Some RootCauseUnknown"
proof -
  obtain ev where ev: "classify NewDependencyGraph ''u'' (0, 0) (demo_incident [''oom_kill_detected''] 3 0) = Some ev"
    using classify_None_iff [of NewDependencyGraph "''u''" "(0, 0)" "demo_incident [''oom_kill_detected''] 3 0"]
    by (auto simp: demo_incident_def)
  have "''oom_kill_detected'' \<in> ru_ID ` set shipped_rules" by (simp add: shipped_rules_def shipped_rule_def)
  then have "ie_RootCause ev = RootCauseUnknown"
    using shipped_incidents_unknown [OF ev] by (simp add: demo_incident_def)
  then show ?thesis by (simp add: ev)
qed

section \<open>Buffers, percentiles and the process graph\<close>

text \<open>
  C23: a circular buffer of positive capacity accepts every push, and its snapshot is the
  newest \<open>capacity\<close> of the pushed items, oldest first.
\<close>

theorem ring_buffer_keeps_newest:
  assumes "0 < c" "NewBuffer zero c = Some b"
  shows "\<exists>b'. push_all xs b = Some b' \<and> Buffer_Snapshot b' = lastn (nat c) xs"
proof -
  have b: "buffer_wf b" "Buffer_Snapshot b = []" "bf_cap b = nat c"
    using NewBuffer_wf [OF assms(1), of zero] assms(2) by auto
  then show ?thesis using push_all_fold [OF b(1)] ts.fold_push_contents [OF b(1)] by simp
qed

theorem ring_buffer_keeps_newest_witness:
  "\<exists>b b'. NewBuffer (0 :: int) 3 = Some b \<and> push_all [1, 2, 3, 4, 5] b = Some b' \<and> Buffer_Snapshot b' = [3, 4, 5]"
proof -
  obtain b :: "int Buffer" where b: "NewBuffer 0 3 = Some b" using NewBuffer_wf [of 3 0] by auto
  from ring_buffer_keeps_newest [OF _ b, of "[1, 2, 3, 4, 5]"] b show ?thesis by (simp add: lastn_def)
qed

text \<open>
  The percentiles a tick publishes for a key are those of the samples recorded since
  the last tick whose number the window's length (10, 60 or 300) divides, with samples below
  one microsecond counted as one.
\<close>

theorem percentile_windows_tumble:
  assumes "hdr_reset h" "(key, ws) \<in> set (Latency_Snapshot (latency_run h (ops @ [LTick])))"
  shows "ws_W10s ws = take_percentiles h (hist_of h (snd (tumbling 10 key ops)))
    \<and> ws_W60s ws = take_percentiles h (hist_of h (snd (tumbling 60 key ops)))
    \<and> ws_W300s ws = take_percentiles h (hist_of h (snd (tumbling 300 key ops)))"
  using tick_snapshot [OF assms latency_keys_distinct] by blast

theorem percentile_windows_tumble_witness:
  "\<exists>ws. Latency_Snapshot (latency_run demo_hdr (LRecord ''k'' 0 1 # replicate 10 LTick @ [LRecord ''k'' 3 2] @ [LTick])) = [(''k'', ws)]
     \<and> ws_W10s ws = take_percentiles demo_hdr 3"
proof -
  let ?ops = "LRecord ''k'' 0 1 # replicate 10 LTick @ [LRecord ''k'' 3 2]"
  have "map fst (Latency_Snapshot (latency_run demo_hdr (?ops @ [LTick]))) = [''k'']"
    by (simp add: latency_run_def Latency_Snapshot_def RecordValues_def NewLatencyAggregator_def Tick_def Let_def numeral_eq_Suc)
  then obtain ws where ws: "Latency_Snapshot (latency_run demo_hdr (?ops @ [LTick])) = [(''k'', ws)]"
    by (auto simp: map_eq_Cons_conv)
  have h: "hdr_reset demo_hdr" by (simp add: hdr_reset_def hist_of_def demo_hdr_def)
  have "snd (tumbling 10 ''k'' ?ops) = [(3, 2)]" by code_simp
  then have "hist_of demo_hdr (snd (tumbling 10 ''k'' ?ops)) = 3" by (simp add: hist_of_def demo_hdr_def)
  with percentile_windows_tumble [OF h, of "''k''" ws ?ops] ws show ?thesis by simp
qed

text \<open>
  C24: over any sequence of forks, execs, exits and correlated events (fewer than the
  sequence counter can number), the process graph never holds more nodes than its limit, each
  node is stored under its own key, no child is listed twice, and a node keeps at most the
  newest 32 of its events.
\<close>

theorem process_graph_bounded:
  assumes "2 * length ops < 2 ^ 64"
  shows "let g = fold graph_step ops (New_graph m) in
    NodeCount g \<le> (if m \<le> 0 then DefaultMaxNodes else m) \<and> distinct (map fst (pg_nodes g))
    \<and> (\<forall>(k, n) \<in> set (pg_nodes g). pn_Key n = k \<and> length (EventRing n) \<le> EventRingCap)
    \<and> (\<forall>p. distinct (keys_at (pg_children g) p))"
proof -
  define g where "g = fold graph_step ops (New_graph m)"
  have w: "pg_wf g \<and> pg_maxNodes g = pg_maxNodes (New_graph m)"
    unfolding g_def using assms by (intro graph_run_wf pg_wf_New) (simp add: New_graph_def)
  then have "\<forall>(k, n) \<in> set (pg_nodes g). pn_Key n = k \<and> ring_wf n" by (auto simp: pg_wf_def nodes_wf_def)
  then have "\<forall>(k, n) \<in> set (pg_nodes g). pn_Key n = k \<and> length (EventRing n) \<le> EventRingCap"
    using er.wf_le by fast
  moreover have "pg_maxNodes (New_graph m) = (if m \<le> 0 then DefaultMaxNodes else m)" by (simp add: New_graph_def)
  ultimately show ?thesis using w unfolding g_def [symmetric] Let_def by (simp add: pg_wf_def nodes_wf_def)
qed

theorem process_graph_bounded_witness:
  "NodeCount (fold graph_step [OpFork (demo_fork 2 1), OpFork (demo_fork 3 2), OpFork (demo_fork 4 3)] (New_graph 2)) \<le> 2"
  using process_graph_bounded [of "[OpFork (demo_fork 2 1), OpFork (demo_fork 3 2), OpFork (demo_fork 4 3)]" 2]
  by (simp add: Let_def)

text \<open>
  C25: the ancestry of a tracked process ends with the process itself, each entry is the
  parent of the next, no process occurs twice even when the recorded parents form a cycle,
  and the chain is never longer than the depth asked for.
\<close>

theorem ancestry_is_a_chain:
  assumes "pg_wf g" "Lookup g c p = Some n" "0 < d"
  shows "let chain = fst (Graph_Ancestors g c p d) in
    chain \<noteq> [] \<and> last chain = n \<and> int (length chain) \<le> d \<and> distinct (map pn_Key chain)
    \<and> (\<forall>i. Suc i < length chain \<longrightarrow>
        pn_Key (chain ! i) = \<lparr>nk_CgroupID = nk_CgroupID (pn_Key (chain ! Suc i)), nk_PID = pn_PPID (chain ! Suc i)\<rparr>)"
  by (rule ancestors_chain [OF assms])

theorem ancestry_is_a_chain_witness:
  "\<exists>n. Lookup demo_tree 7 3 = Some n \<and> last (fst (Graph_Ancestors demo_tree 7 3 8)) = n
     \<and> int (length (fst (Graph_Ancestors demo_tree 7 3 8))) \<le> 8"
proof -
  have w: "pg_wf demo_tree"
    unfolding demo_tree_def using graph_run_wf [OF pg_wf_New, of 8 "[OpFork (demo_fork 2 9), OpFork (demo_fork 3 2)]"]
    by (simp add: New_graph_def)
  have "Lookup demo_tree 7 3 \<noteq> None" by code_simp
  then obtain n where "Lookup demo_tree 7 3 = Some n" by auto
  then show ?thesis using ancestry_is_a_chain [OF w, of 7 3 n 8] by (simp add: Let_def)
qed

section \<open>Cgroups of containers\<close>

text \<open>
  C26: a refresh gives the directory of a container that the kubelet reports the name of its
  pod: with full-length container identifiers, no two equal, and distinct inodes, looking up
  the inode of \<open>.../cri-containerd-<id>.scope\<close> afterwards answers with the namespace, pod
  and container of the status that reported the identifier, whatever the resolver knew before.
\<close>

theorem pod_identity_resolved:
  assumes pods: "ri_pods i = Some ps" "p \<in> set ps" "c \<in> set (kp_ContainerStatuses p @ kp_InitContainerStatuses p @ kp_EphemeralContainerStatuses p)"
    and ids: "kc_ContainerID c = scheme @ ''://'' @ cID" "CHR '':'' \<notin> set scheme" "CHR ''/'' \<notin> set cID"
    and full: "\<forall>(d, k) \<in> set (concat (map pod_containers ps)). length d = 64"
      "distinct (map fst (concat (map pod_containers ps)))"
    and dir: "(ino, dir @ ''/cri-containerd-'' @ cID @ ''.scope'') \<in> set (dirs (ri_visits i))" "distinct (map fst (dirs (ri_visits i)))"
  shows "\<exists>info. cached (refresh i r) ino = Some info \<and> ci_CgroupID info = ino
    \<and> ci_Namespace info = kp_Namespace p \<and> ci_Pod info = kp_Name p \<and> ci_Container info = kc_Name c
    \<and> ci_Name info = kp_Namespace p @ ''/'' @ kp_Name p @ ''/'' @ kc_Name c"
proof -
  let ?k = "\<lparr>ki_Namespace = kp_Namespace p, ki_Pod = kp_Name p, ki_Container = kc_Name c\<rparr>"
  have "cleanContainerID (kc_ContainerID c) = cID" using cleanContainerID_scheme [OF ids(2)] by (simp add: ids(1))
  then have m: "(cID, ?k) \<in> set (concat (map pod_containers ps))" using pods(2,3) by (force simp: pod_containers_def)
  then have "length cID = 64" using full(1) by blast
  then have "cID \<noteq> []" by auto
  note v = visit_info_container [of "fresh_index i" cID ?k, OF fresh_index_container [OF pods(1) m full] extractContainerID_cri [OF ids(3)] this]
  show ?thesis using cached_refresh [OF fresh_cache_dir [OF dir]] v by simp
qed

theorem pod_identity_resolved_witness:
  "\<exists>info. cached (refresh (demo_scan demo_visits) empty_resolver) 42 = Some info \<and> ci_Pod info = ''web-0'' \<and> ci_Namespace info = ''default''"
proof -
  let ?c = "\<lparr>kc_Name = ''app'', kc_ContainerID = ''containerd://'' @ demo_cid\<rparr>"
  have pods: "ri_pods (demo_scan demo_visits) = Some [demo_kpod]" by (simp add: demo_scan_def)
  have c: "?c \<in> set (kp_ContainerStatuses demo_kpod @ kp_InitContainerStatuses demo_kpod @ kp_EphemeralContainerStatuses demo_kpod)"
    by (simp add: demo_kpod_def)
  have ids: "kc_ContainerID ?c = ''containerd'' @ ''://'' @ demo_cid" "CHR '':'' \<notin> set ''containerd''" "CHR ''/'' \<notin> set demo_cid"
    by (simp_all add: demo_cid_def)
  have clean: "cleanContainerID (''containerd'' @ ''://'' @ demo_cid) = demo_cid" using ids(2) by (rule cleanContainerID_scheme)
  have l: "length demo_cid = 64" by (simp add: demo_cid_def)
  have full: "\<forall>(d, k) \<in> set (concat (map pod_containers [demo_kpod])). length d = 64"
    "distinct (map fst (concat (map pod_containers [demo_kpod])))"
    using clean l by (simp_all add: pod_containers_def demo_kpod_def)
  have dir: "(42, ''kubepods.slice'' @ ''/cri-containerd-'' @ demo_cid @ ''.scope'') \<in> set (dirs (ri_visits (demo_scan demo_visits)))"
    "distinct (map fst (dirs (ri_visits (demo_scan demo_visits))))"
    by (simp_all add: demo_scan_def demo_visits_def dirs_def List.map_filter_def demo_scope_def)
  show ?thesis
    using pod_identity_resolved [OF pods _ c ids full dir, of empty_resolver] by (auto simp: demo_kpod_def)
qed

text \<open>
  A cgroup that a refresh no longer lists stays resolvable with its last known
  identity, and the eviction removes it exactly when twenty seconds have passed since the
  refresh noticed, as long as no more than a thousand entries are kept.
\<close>

theorem deleted_cgroup_grace:
  assumes "resolver_wf r" "rv_cache r = Some c" "distinct (map fst c)" "map_of c k = Some info"
    and "map_of (fresh_cache i) k = None" "length (rv_history r) + length c \<le> 1000"
  shows "cached (refresh i r) k = Some info
    \<and> cached (evictStaleEntries now (refresh i r)) k =
      (if Sub now (ri_deletedClk i k) \<ge> 20 * Second then None else Some info)"
  using deleted_grace [OF assms] by (simp add: refreshPeriod_def)

theorem deleted_cgroup_grace_witness:
  "\<exists>info. cached (refresh (demo_scan []) (refresh (demo_scan demo_visits) empty_resolver)) 42 = Some info
     \<and> cached (evictStaleEntries (50 + 20 * Second) (refresh (demo_scan []) (refresh (demo_scan demo_visits) empty_resolver))) 42 = None"
proof -
  let ?r = "refresh (demo_scan demo_visits) empty_resolver"
  have w: "resolver_wf ?r" by (rule refresh_wf [OF empty_resolver_wf])
  have c: "rv_cache ?r = Some (fresh_cache (demo_scan demo_visits))"
    by (simp add: refresh_def Let_def split: prod.splits)
  have f: "fresh_cache (demo_scan demo_visits) =
      [(1, visit_info (\<lambda>_. []) (fresh_index (demo_scan demo_visits)) ''.'' 1),
       (42, visit_info (\<lambda>_. []) (fresh_index (demo_scan demo_visits)) demo_scope 42)]"
    by (simp add: fresh_cache_def visit_info_def scan_visit_def demo_scan_def demo_visits_def)
  have h: "rv_history ?r = []" by (simp add: refresh_def empty_resolver_def Let_def)
  have gone: "map_of (fresh_cache (demo_scan [])) 42 = None" by (simp add: fresh_cache_def demo_scan_def)
  have d: "distinct (map fst (fresh_cache (demo_scan demo_visits)))" by (simp add: f)
  obtain info where i: "map_of (fresh_cache (demo_scan demo_visits)) 42 = Some info" by (simp add: f)
  have n: "length (rv_history ?r) + length (fresh_cache (demo_scan demo_visits)) \<le> 1000" by (simp add: f h)
  have clk: "ri_deletedClk (demo_scan []) 42 = 50" by (simp add: demo_scan_def)
  show ?thesis
    using deleted_cgroup_grace [OF w c d i gone n, of "50 + 20 * Second"] by (simp add: clk Sub_def Second_def minDuration_def maxDuration_def)
qed
section \<open>The agent\<close>

text \<open>
  C27: after the informer reports the deletion of a pod, directly or as a tombstone, and
  whatever other pods come and go, however often cgroups are resolved and invalidated meanwhile,
  until the informer reports the pod again: a resolution attributes a cgroup to the deleted pod
  only through a leftover, a container that an earlier report of the pod named under an
  identifier that the status it was deleted with no longer has. Without such an identifier the
  pod is never named. The leftovers are real: the witness is a pod whose container was restarted
  and which is still named after its deletion.
\<close>

theorem deleted_pod_not_resolved:
  assumes "mapper_trace reps m" "obj \<in> {PodObj p, TombstoneObj (Some p)}" "quiet_run p (onPodDelete obj m) m'"
    and "fst (Resolve wk now now' cg m') = Inr info"
  shows "(pi_PodName info = cp_Name p \<and> pi_Namespace info = cp_Namespace p \<longrightarrow> leftover reps p info)
    \<and> ((\<forall>q \<in> set reps. cp_Name q = cp_Name p \<and> cp_Namespace q = cp_Namespace p \<longrightarrow> set (status_ids q) \<subseteq> set (status_ids p)) \<longrightarrow>
         pi_PodName info \<noteq> cp_Name p \<or> pi_Namespace info \<noteq> cp_Namespace p)"
proof -
  have "leftover reps p info" if "pi_PodName info = cp_Name p" "pi_Namespace info = cp_Namespace p"
    using deleted_pod_gone [OF assms] that by (simp add: names_pod_def)
  then show ?thesis using leftover_ids by blast
qed

theorem deleted_pod_not_resolved_witness:
  "let p = demo_core_pod ''web'' demo_cid; old = demo_core_pod ''web'' demo_cid2
   in (\<exists>info. fst (Resolve demo_walk 9 9 42 (onPodDelete (PodObj p) demo_restarted)) = Inr info
          \<and> pi_PodName info = ''web'' \<and> pi_Namespace info = ''default'' \<and> leftover [p, old] p info)
    \<and> (\<exists>info. fst (Resolve demo_walk 9 9 42 (onPodDelete (PodObj p) demo_mapper)) = Inr info
          \<and> (pi_PodName info \<noteq> ''web'' \<or> pi_Namespace info \<noteq> ''default''))"
proof -
  let ?p = "demo_core_pod ''web'' demo_cid" and ?old = "demo_core_pod ''web'' demo_cid2" and ?db = "demo_core_pod ''db'' demo_cid2"
  let ?go = "\<lambda>m. fst (Resolve demo_walk 9 9 42 (onPodDelete (PodObj ?p) m))"
  have t: "mapper_trace [?p, ?old] demo_restarted" "mapper_trace [?db, ?p] demo_mapper"
    by (rule demo_traces)+
  have r: "\<exists>info. ?go demo_restarted = Inr info \<and> pi_PodName info = ''web'' \<and> pi_Namespace info = ''default''"
    "\<exists>info. ?go demo_mapper = Inr info"
    by (rule demo_resolved)+
  note N = deleted_pod_not_resolved [OF _ _ quiet_refl]
  obtain i j where "?go demo_restarted = Inr i" "pi_PodName i = ''web''" "pi_Namespace i = ''default''" "?go demo_mapper = Inr j"
    using r by blast
  then show ?thesis
    using N [OF t(1), of "PodObj ?p" ?p demo_walk 9 9 42 i] N [OF t(2), of "PodObj ?p" ?p demo_walk 9 9 42 j]
    by (simp add: Let_def demo_core_pod_def)
qed

text \<open>
  C28: whatever the probes report, every message of an agent goes to the topic of its node
  and is decoded by the analyzer, with schema version 1.0, the agent's node, one of the
  agent's fifteen metrics and a duration of zero or five seconds.
\<close>

theorem agent_messages_decode:
  assumes "\<forall>n. int64 (to_UnixMilli (ae_clock env n))" "NewPublisher connect jsNew cfg = Inr p" "mp_nodeName m = pc_NodeName cfg"
    and "(topic, msg) \<in> set (ld_sent (fold (agent_op_step env) ops (SetPublisher p (NewLoader m))))"
  shows "topic = ''selfheal.signals.'' @ pc_NodeName cfg
    \<and> (\<exists>s. unmarshal_SignalEvent (Some msg) = Some s \<and> sg_Version s = ''1.0'' \<and> sg_Node s = pc_NodeName cfg
        \<and> sg_Metric s \<in> set agent_metrics \<and> sg_DurationMs s \<in> {0, 5000})"
proof -
  have "loader_inv (pc_NodeName cfg) (SetPublisher p (NewLoader m))"
    using assms(2,3) by (auto simp: loader_inv_def SetPublisher_def NewLoader_def NewPublisher_def Let_def split: option.splits if_splits)
  then have "loader_inv (pc_NodeName cfg) (fold (agent_op_step env) ops (SetPublisher p (NewLoader m)))"
    using assms(1) by (intro agent_run_inv) (simp_all add: clock_ok_def)
  then show ?thesis using assms(4) by (auto simp: loader_inv_def list_all_iff good_message_def)
qed

theorem agent_messages_decode_witness:
  "\<exists>topic msg. (topic, msg) \<in> set (ld_sent (fold (agent_op_step demo_env) demo_polls (SetPublisher demo_publisher (NewLoader (NewMapper ''n1'')))))
     \<and> topic = ''selfheal.signals.n1''"
proof -
  let ?l = "fold (agent_op_step demo_env) demo_polls (SetPublisher demo_publisher (NewLoader (NewMapper ''n1'')))"
  have clk: "\<forall>n. int64 (to_UnixMilli (ae_clock demo_env n))"
    by (simp add: demo_env_def int64_def to_UnixMilli_def Second_def Millisecond_def)
  have p: "NewPublisher (\<lambda>_. None) None demo_pub_cfg = Inr demo_publisher"
    by (simp add: NewPublisher_def demo_pub_cfg_def demo_publisher_def)
  have n: "mp_nodeName (NewMapper ''n1'') = pc_NodeName demo_pub_cfg" by (simp add: NewMapper_def demo_pub_cfg_def)
  have "ld_sent ?l \<noteq> []" by code_simp
  then obtain topic msg where "(topic, msg) \<in> set (ld_sent ?l)" by (metis list.set_intros(1) neq_Nil_conv surj_pair)
  then show ?thesis using agent_messages_decode [OF clk p n] by (force simp: demo_pub_cfg_def)
qed

text \<open>
  C29: loading the probes either fails with every handle it opened closed again, or
  succeeds with the open handles being those of the loaded probes, and closing these
  restores the handles there were before.
\<close>

theorem probe_loading_all_or_nothing:
  "case LoadCoreProbes cfg k s of
     (Inl e, s1) \<Rightarrow> mset (bs_open s1) = mset (bs_open s)
   | (Inr lp, s1) \<Rightarrow> mset (bs_open s1) = mset (bs_open s) + mset (lp_collections lp) + mset (lp_links lp) + mset (lp_ringbufs lp)
       \<and> mset (bs_open (LoadedProbes_Close lp s1)) = mset (bs_open s)"
  using LoadCoreProbes_cases [of s cfg k] by (auto simp: lp_handles_def add.assoc split: prod.splits sum.splits)
section \<open>Collectors, exporter and observer\<close>

text \<open>
  C36: whatever bytes earlier events left in the probe's slot, the record the probe writes for
  an execve with a readable command line comes out of the collector as an event of the same
  cgroup and process, with the path cut to 255 bytes and its base name, and the captured
  arguments in order, except that empty arguments are dropped. Captured are at most twenty
  arguments, each cut to 127 bytes, and none from byte 1920 of the buffer on; their number,
  empty ones included, is the count of the event. A command line of at most twenty arguments of
  at most 127 bytes in at most 1920 bytes is captured whole, so without empty arguments it is
  recovered exactly. The truncation mark only tells of the buffer's room: neither a cut argument
  nor a twenty-first one sets it.
\<close>

theorem exec_record_recovered:
  assumes "c_string path" "\<forall>a \<in> set args. c_string a" "scratch_ok sc"
    and "ev = fst (execEventToEnvelope env lin (parseExecEvent (fst (trace_exec cg ts tgid parent path args sc))) st)"
    and "cap = captured 20 0 args"
  shows "ee_CgroupID ev = cg \<and> ee_PID ev = tgid \<and> ee_PPID ev = (case parent of None \<Rightarrow> 0 | Some q \<Rightarrow> q)
    \<and> ee_Process ev = base_name (take 255 path)
    \<and> map_of (ee_Metadata ev) ''full_path'' = Some (AnyString (take 255 path))
    \<and> map_of (ee_Metadata ev) ''path_truncated'' = Some (AnyBool (255 \<le> length path))
    \<and> map_of (ee_Metadata ev) ''argv'' = Some (AnyStrings (filter (\<lambda>a. a \<noteq> []) cap))
    \<and> map_of (ee_Metadata ev) ''arg_count'' = Some (AnyUint32 (of_nat (length cap)))
    \<and> map_of (ee_Metadata ev) ''argv_truncated'' = Some (AnyBool (length cap < 20 \<and> 1920 \<le> length (packed_args cap)))
    \<and> (length args \<le> 20 \<and> (\<forall>a \<in> set args. length a \<le> 127) \<and> length (packed_args args) \<le> 1920 \<longrightarrow> cap = args)"
  using exec_envelope_recovered [OF assms(1-4) assms(5)] captured_all [of args 20 0] assms(5) by simp

theorem exec_record_recovered_witness:
  "\<exists>ev. ev = fst (execEventToEnvelope demo_sec_env None
       (parseExecEvent (fst (trace_exec 42 5 20 (Some 1) ''/bin/sh'' [''sh'', [], ''-c''] (demo_scratch 65)))) (empty_resolver, 0))
     \<and> ee_PID ev = 20 \<and> ee_PPID ev = 1 \<and> map_of (ee_Metadata ev) ''full_path'' = Some (AnyString ''/bin/sh'')
     \<and> map_of (ee_Metadata ev) ''argv'' = Some (AnyStrings [''sh'', ''-c'']) \<and> map_of (ee_Metadata ev) ''arg_count'' = Some (AnyUint32 3)"
  using exec_record_recovered [of "''/bin/sh''" "[''sh'', [], ''-c'']" "demo_scratch 65" _ demo_sec_env None 42 5 20 "Some 1" "(empty_resolver, 0)",
      OF _ _ demo_scratch_ok refl refl]
  by (simp add: c_string_def numeral_eq_Suc)

text \<open>
  C37: whatever the samples and events, every call the exporter makes to the metrics library
  is to a metric it registered, of the kind the call is for, with as many values as the metric
  has labels; and no two metrics are registered under one name.
\<close>

theorem metric_calls_well_typed:
  "list_all call_fits (UpdateCPU cs @ UpdateMemory ms @ UpdateIO ios @ UpdateNetwork ns @ UpdateSyscalls ss @ UpdateOOM name
     @ fst (Prom_Write w ev))
   \<and> distinct (map (mf_Name \<circ> snd) NewPrometheusExporter)"
  by (simp only: list_all_iff set_append ball_Un) (intro conjI calls_fit Prom_Write_fits families_distinct(1))

text \<open>
  C38: with the containers-only flag, in any number of ticks, every call the observer makes
  to the metrics library, every row of every table it prints, every log record of an event and
  every security event it writes is about a container. What else it writes are the titles and
  the note of an empty table and the error messages of failed collections, which name none.
\<close>

theorem observer_containers_only:
  assumes "dc_containersOnly (of_display fl)"
  shows "obs_about Observer_isContainer (observer_loop env fl inputs (observer_start ls r richMem))"
proof -
  have "shown_name (of_display fl) = Observer_isContainer" using assms by (simp add: obs_hidden_def fun_eq_iff)
  moreover have "obs_about P (observer_start ls r richMem)" for P by (simp add: obs_about_def observer_start_def)
  ultimately show ?thesis using observer_run_about [of fl "observer_start ls r richMem" env inputs] by (simp add: observer_loop_def)
qed

theorem observer_containers_only_witness:
  "obs_about Observer_isContainer (observer_loop demo_sec_env demo_obs_flags [demo_tick, demo_tick] demo_observer)"
  unfolding demo_observer_def by (rule observer_containers_only) (simp add: demo_obs_flags_def)

text \<open>
  Each drain of a security collector by the observer counts, and with logging on logs in
  order, exactly those of its events that the containers-only flag does not hide.
\<close>

theorem security_events_counted:
  assumes "rd (ob_resolver ob) = (d, st1)"
  shows "counted_events (obs_drain fl True rd ob) =
      counted_events ob + length (filter (\<lambda>ev. \<not> obs_hidden (of_display fl) (ee_ContainerName ev)) (dr_written d))
    \<and> logged_events (obs_drain fl True rd ob) =
      logged_events ob @ (if of_showSecurity fl then filter (\<lambda>ev. \<not> obs_hidden (of_display fl) (ee_ContainerName ev)) (dr_written d) else [])"
  using obs_drain_counts [of True rd ob d st1 fl] assms by simp

theorem security_events_counted_witness:
  "\<exists>rd d st1. rd (ob_resolver demo_observer) = (d, st1) \<and> counted_events (obs_drain demo_obs_flags True rd demo_observer) = 1"
proof -
  let ?ev = "\<lambda>name. (demo_fork 2 1)\<lparr>ee_ContainerName := name\<rparr>"
  let ?d = "\<lparr>dr_events = [], dr_written = [?ev ''ns/pod/app'', ?ev ''systemd:cron'']\<rparr>"
  have h: "counted_events demo_observer = 0" "obs_hidden (of_display demo_obs_flags) ''systemd:cron''"
    "\<not> obs_hidden (of_display demo_obs_flags) ''ns/pod/app''"
    by (simp_all add: counted_events_def demo_observer_def observer_start_def obs_hidden_def demo_obs_flags_def Observer_isContainer_def HasPrefix_def)
  show ?thesis
    using security_events_counted [of "\<lambda>st. (?d, st)" demo_observer ?d "ob_resolver demo_observer" demo_obs_flags] h
    by (intro exI [of _ "\<lambda>st. (?d, st)"] exI [of _ ?d] exI [of _ "ob_resolver demo_observer"]) (simp add: demo_fork_def)
qed

text \<open>
  C39: of the handles it opens, a loader of the observer that succeeds leaves unclosed its
  collection, its links and its reader, and nothing else; the two that read the process tree out
  of another object open a reader at most. One that fails has closed everything it opened, with
  one exception: when one of the probes attached by the shared routine fails, the links of the
  probes before it are dropped without being closed, so that they stay attached until the
  library finalises them. That concerns the CPU, disk, network, system call, lineage, execve,
  DNS, privilege and escape loaders (with one probe, as for execve, there is none before it);
  the memory loader attaches its probes itself and closes them.
\<close>

theorem failed_loader_drops_links:
  "handles {#} (loadMemory L path) (\<lambda>r. {#BCollection path#} + held r) (\<lambda>e. {#})
   \<and> handles {#} (loadIO L path) (\<lambda>r. {#BCollection path#} + held r) (dropped L (bl_NewCollection L path) io_probes)
   \<and> handles {#} (loadNetwork L path) (\<lambda>r. {#BCollection path#} + held r) (dropped L (bl_NewCollection L path) net_probes)
   \<and> handles {#} (loadSyscall L path) (\<lambda>r. {#BCollection path#} + held r) (dropped L (bl_NewCollection L path) sys_probes)
   \<and> handles {#} (loadCPU L path) (\<lambda>(r, coll). {#BCollection path#} + held r) (dropped L (bl_NewCollection L path) cpu_probes)
   \<and> handles {#} (loadLineage L path) (\<lambda>(r, tree). {#BCollection path#} + held r) (dropped L (bl_NewCollection L path) lineage_probes)
   \<and> handles {#} (loadExecWithColl L path) (\<lambda>(r, coll). {#BCollection path#} + held r) (dropped L (bl_NewCollection L path) exec_probes)
   \<and> handles {#} (loadDNS L path tm) (\<lambda>r. {#BCollection path#} + held r)
       (dropped L (bl_NewCollectionWithOptions L path [(''process_tree_map'', tm)]) dns_probes)
   \<and> handles {#} (loadPrivEsc L path tm) (\<lambda>(r, cap). {#BCollection path#} + held r)
       (dropped L (bl_NewCollectionWithOptions L path [(''process_tree_map'', tm)]) privesc_probes)
   \<and> handles {#} (loadEscape L path tm) (\<lambda>r. {#BCollection path#} + held r)
       (dropped L (bl_NewCollectionWithOptions L path [(''process_tree_map'', tm)]) escape_probes)
   \<and> handles {#} (loadLineageFromExec L execColl) (\<lambda>(r, tree). held r) (\<lambda>e. {#})
   \<and> handles {#} (loadLineageFromCPU L cpuColl) (\<lambda>(r, tree). held r) (\<lambda>e. {#})"
  unfolding loadIO_def loadNetwork_def loadSyscall_def
  by (intro conjI loaders_handle)

text \<open>
  C40: when the observer stops, every ring buffer reader and kprobe it opened is closed
  again, whatever failed to load (tracepoint links that a failed loader dropped are not, until the
  library finalises them); and the modules that read the process tree are loaded only
  with the lineage module, which needs the execve module.
\<close>

theorem observer_exit_releases:
  assumes "observer_load L p s = (Some ls, st)"
  shows "filter_mset reads_or_kprobes (mset (lo_unclosed (observer_shutdown st))) = filter_mset reads_or_kprobes (mset (lo_unclosed s))
    \<and> (ls_DNS ls \<or> ls_PrivEsc ls \<or> ls_Escape ls \<longrightarrow> ls_Lineage ls) \<and> (ls_Lineage ls \<longrightarrow> ls_Exec ls)"
  using observer_shutdown_releases [OF assms] observer_load_modules [OF assms] by simp

theorem observer_exit_releases_witness:
  "\<exists>ls st. observer_load demo_bpf demo_paths \<lparr>lo_unclosed = [], lo_pinned = None\<rparr> = (Some ls, st) \<and> \<not> ls_IO ls
     \<and> BTracepoint ''block'' ''block_rq_issue'' \<in> set (lo_unclosed (observer_shutdown st))
     \<and> filter_mset reads_or_kprobes (mset (lo_unclosed (observer_shutdown st))) = {#}"
proof -
  have "\<exists>ls st. observer_load demo_bpf demo_paths \<lparr>lo_unclosed = [], lo_pinned = None\<rparr> = (Some ls, st) \<and> \<not> ls_IO ls
     \<and> BTracepoint ''block'' ''block_rq_issue'' \<in> set (lo_unclosed (observer_shutdown st))"
    by (simp add: observer_load_def demo_bpf_def demo_paths_def optional_def unless_def loadCPU_def loadMemory_def loadIO_def loadNetwork_def
        loadSyscall_def load_metric_def loadExecWithColl_def load_collection_def lbind_def lreturn_def attach_or_close_def find_map_def
        cpu_probes_def io_probes_def net_probes_def sys_probes_def add_handle_def coll_Close_def drop_handles_def observer_shutdown_def ld_handles_def)
  then show ?thesis using observer_exit_releases [of demo_bpf demo_paths "\<lparr>lo_unclosed = [], lo_pinned = None\<rparr>"] by fastforce
qed

section \<open>The terminal\<close>

text \<open>
  C30: whatever happened to the CPU tab since it was created (data, keys, search, resizing,
  rendering): its rows are those of the last data whose container name contains the search, the
  text typed last into the search bar and not left with escape; no row stands before one that
  the sort column puts first; the selected container is that of such a row, or empty when there
  is none. A drawing of the table shows, between header and scroll indicator, exactly the rows
  from the scroll offset on for which the body has room, in this order, with the row under the
  cursor marked. New data moves the cursor back but not the offset: when fewer rows remain than
  were scrolled past, none is drawn, as in the second half of the witness.
\<close>

theorem table_shows_sorted_matches:
  assumes "view_run T (name_matches cr_Container) ops (Cpu_New T th) = Some v" and m: "m = vw_tbl v" and q: "q = search_text T ops"
  shows "mset (shown_rows m) = mset (filter (\<lambda>r. q = [] \<or> name_matches cr_Container r q) (last_rows [] ops))
    \<and> (0 \<le> tb_sortCol m \<and> col_Sortable (cpu_columns ! nat (tb_sortCol m)) \<longrightarrow>
        sorted_wrt (\<lambda>a b. \<not> (if tb_sortAsc m then col_SortLess (cpu_columns ! nat (tb_sortCol m)) b a
           else col_SortLess (cpu_columns ! nat (tb_sortCol m)) a b)) (shown_rows m))
    \<and> (View_SelectedContainer cr_Container v = Some [] \<and> shown_rows m = []
       \<or> (\<exists>r \<in> set (shown_rows m). View_SelectedContainer cr_Container v = Some (cr_Container r)))
    \<and> (Table_View m = Some ls \<and> tb_width m \<noteq> 0 \<longrightarrow>
        (\<exists>hdr sep body blanks ind. ls = [(HeaderStyle, hdr), (SeparatorStyle, sep)] @ body @ blanks @ ind
          \<and> those (map (renderRow m) (take (nat (bodyH m)) (drop (nat (tb_offset m)) (shown_rows m)))) = Some (map snd body)
          \<and> (\<forall>i < length body. (fst (body ! i) = SelectedStyle) = (tb_offset m + int i = tb_cursor m \<and> tb_focused m))
          \<and> (\<forall>b \<in> set blanks. fst b = PlainStyle) \<and> scroll_indicator m = Some ind))"
proof -
  have run: "view_run T (name_matches cr_Container) ops (View_New T cpu_columns th) = Some v" using assms(1) by (simp add: Cpu_New_def)
  have r: "tb_rows m = last_rows [] ops" "tb_columns m = cpu_columns"
    using cpu_tab.tab_rows [OF run] by (simp_all add: m View_New_def Table_New_def)
  have p: "row_passes m = (\<lambda>r. q = [] \<or> name_matches cr_Container r q)"
    using cpu_tab.tab_filter [OF run] by (simp add: m q fun_eq_iff)
  have ok: "table_ok m" using cpu_tab.tab_ok_run [OF cpu_tab.tab_ok_New run] by (simp add: cpu_tab.tab_ok_def m)
  have s: "mset (shown_rows m) = mset (filter (row_passes m) (last_rows [] ops))" using cpu_tab.tab_shown(1) [OF run m] by (simp only: r)
  have "set (shown_rows m) = set (filter (row_passes m) (last_rows [] ops))" by (rule mset_eq_setD [OF s])
  then have sel: "View_SelectedContainer cr_Container v = Some [] \<and> shown_rows m = []
       \<or> (\<exists>r \<in> set (shown_rows m). View_SelectedContainer cr_Container v = Some (cr_Container r))"
    using cpu_tab.tab_selection [OF run] r(1) m s by (metis (no_types, lifting) filter_empty_conv mem_Collect_eq mset.simps(1) mset_zero_iff set_filter)
  note ord = cpu_tab.tab_shown(2) [OF run m, unfolded r(2)]
  have draw: "\<exists>hdr sep body blanks ind. ls = [(HeaderStyle, hdr), (SeparatorStyle, sep)] @ body @ blanks @ ind
      \<and> those (map (renderRow m) (take (nat (bodyH m)) (drop (nat (tb_offset m)) (shown_rows m)))) = Some (map snd body)
      \<and> (\<forall>i < length body. (fst (body ! i) = SelectedStyle) = (tb_offset m + int i = tb_cursor m \<and> tb_focused m))
      \<and> (\<forall>b \<in> set blanks. fst b = PlainStyle) \<and> scroll_indicator m = Some ind" if v: "Table_View m = Some ls" "tb_width m \<noteq> 0"
    using Table_View_drawn [OF ok v] selected_style unfolding drawn_rows_def by metis
  show ?thesis using s [unfolded p] ord sel draw by blast
qed

theorem table_shows_sorted_matches_witness:
  "let ops = [VSize 40 5, VFocus, VRows [demo_cpu_row ''b'' 1, demo_cpu_row ''a'' 2]];
       run = (\<lambda>ops. map_option vw_tbl (view_run demo_input (name_matches cr_Container) ops (Cpu_New demo_input (theme_Get ''nord''))))
   in (\<exists>m. run (ops @ [VKey ''s'', VKey ''/'', VKey ''B'']) = Some m \<and> shown_rows m = [demo_cpu_row ''b'' 1])
    \<and> (\<exists>m. run (ops @ [VKey ''G'', VRows [demo_cpu_row ''a'' 2]]) = Some m \<and> shown_rows m = [demo_cpu_row ''a'' 2] \<and> drawn_rows m = [])"
proof -
  let ?run = "\<lambda>ops. view_run demo_input (name_matches cr_Container) ops (Cpu_New demo_input (theme_Get ''nord''))"
  let ?ops = "[VSize 40 5, VFocus, VRows [demo_cpu_row ''b'' 1, demo_cpu_row ''a'' 2]]"
  let ?o1 = "?ops @ [VKey ''s'', VKey ''/'', VKey ''B'']" and ?o2 = "?ops @ [VKey ''G'', VRows [demo_cpu_row ''a'' 2]]"
  have "list_all quiet_op ?o1" "list_all quiet_op ?o2" by simp_all
  then obtain v w where v: "?run ?o1 = Some v" and w: "?run ?o2 = Some w"
    using cpu_tab.tab_run_some [OF cpu_tab.tab_ok_New] unfolding Cpu_New_def by blast
  have q: "search_text demo_input ?o1 = ''B''" "search_text demo_input ?o2 = []"
    by (simp_all add: search_text_def demo_input_def)
  have f: "name_matches cr_Container (demo_cpu_row ''b'' 1) ''B''" "\<not> name_matches cr_Container (demo_cpu_row ''a'' 2) ''B''"
    by (simp add: name_matches_def demo_cpu_row_def, code_simp)+
  note t = table_shows_sorted_matches [OF v refl refl, unfolded q, THEN conjunct1]
    table_shows_sorted_matches [OF w refl refl, unfolded q, THEN conjunct1]
  have "mset (shown_rows (vw_tbl v)) = {#demo_cpu_row ''b'' 1#}" using t(1) f by simp
  moreover have "mset (shown_rows (vw_tbl w)) = {#demo_cpu_row ''a'' 2#}" using t(2) by simp
  ultimately have s: "shown_rows (vw_tbl v) = [demo_cpu_row ''b'' 1]" "shown_rows (vw_tbl w) = [demo_cpu_row ''a'' 2]"
    by (metis mset_single_iff_right mset.simps)+
  have "tb_offset (vw_tbl w) = 1 \<and> bodyH (vw_tbl w) = 1"
    using w by (auto simp: Cpu_New_def View_New_def Table_New_def View_SetSize_def Table_SetSize_def View_Focus_def Table_Focus_def
        View_SetRows_def SetRows_def View_Update_def Search_Visible_def Search_New_def Table_Update_def key_Matches_def key_Up_def
        key_Down_def key_PageUp_def key_PageDown_def key_Top_def key_Bottom_def scrollToCursor_def bodyH_def reindex_def passing_def
        row_passes_def Let_def)
  then have "drawn_rows (vw_tbl w) = []" using s(2) by (simp add: drawn_rows_def)
  then show ?thesis using v w s by (simp add: Let_def)
qed

text \<open>
  C35: the process tree of a container has one line per process id whose chain of parents
  inside the container ends (0 and 1 are no parents), at the depth of the number of its ancestors there, and no other
  line. A line shows the container's own node with that process id, and if the container has
  several, from control groups of the same name, only the one that was read last. So no line shows a parent in
  another container, although the comments announce one as a dim root above it, and processes
  that name each other as parent are not shown.
\<close>

theorem process_tree_shows_rooted:
  "distinct (map tn_pid (build_tree ns))
   \<and> set (map tn_pid (build_tree ns)) = {p \<in> set (selPIDs ns). rooted (selPidMap ns) p}
   \<and> list_all (\<lambda>l. up (selPidMap ns) (Suc (tn_depth l)) (tn_pid l) = None \<and> up (selPidMap ns) (tn_depth l) (tn_pid l) \<noteq> None) (build_tree ns)
   \<and> list_all (\<lambda>l. \<exists>n. map_of (rev (map (\<lambda>n. (nk_PID (sn_Key n), n)) ns)) (tn_pid l) = Some n
        \<and> tn_key l = sn_Key n \<and> tn_comm l = DisplayComm n \<and> tn_alive l = sn_IsAlive n) (build_tree ns)"
  using build_tree_rooted [of ns] build_tree_shows [of _ ns] by (simp add: list_all_iff shows_node_def selPidMap_last)

text \<open>
  From its start, no sequence of messages stops the terminal with a panic, as long as the
  batches of data name their samples and the key \<open>S\<close> is not pressed; and afterwards no other
  key does.
\<close>

theorem terminal_does_not_crash:
  assumes "list_all msg_safe ms"
  shows "\<exists>a cs. App_run T V ms (App_New T V cfg demo) = Some (a, cs) \<and> (\<forall>k. App_Update T V (KeyMsg k) a = None \<longrightarrow> k = ''S'')"
proof -
  obtain a cs where r: "App_run T V ms (App_New T V cfg demo) = Some (a, cs)" "app_ok a"
    using App_run_safe [OF app_ok_New, where ms = ms] assms by (force simp: list_all_iff)
  then have "App_Update T V (KeyMsg k) a = None \<longrightarrow> k = ''S''" for k using App_Update_crash [OF r(2)] by auto
  then show ?thesis using r(1) by blast
qed

theorem terminal_does_not_crash_witness:
  "\<exists>a cs. App_run demo_input demo_viewport [WindowSizeMsg 80 24, RenderTickMsg, DataMsg zero_batch, KeyMsg ''tab'', KeyMsg ''/'', KeyMsg ''enter'']
     (App_New demo_input demo_viewport Config_Default True) = Some (a, cs)"
proof -
  have "list_all msg_safe [WindowSizeMsg 80 24, RenderTickMsg, DataMsg zero_batch, KeyMsg ''tab'', KeyMsg ''/'', KeyMsg ''enter'']"
    by (simp add: batch_named_def zero_batch_def)
  from terminal_does_not_crash [OF this] show ?thesis by blast
qed

text \<open>
  C34: after the key that opens the command palette is pressed, with neither the palette nor
  the help open, the terminal stays in the palette's state for good, whatever keys, sizes, ticks,
  data and other messages of the runtime arrive, and whether or not the palette is closed again;
  only the help can be opened from there, and it leads back. So it never returns to the
  dashboard, and the enter key never again opens the page of a container.
\<close>

theorem palette_locks_navigation:
  assumes "\<not> Palette_Visible (ap_palette a)" "\<not> Modal_Visible (ap_modal a)"
    and "App_run T V (KeyMsg '':'' # ms) a = Some (a', cs)" "list_all external ms"
  shows "ap_state a' = StateCommandPalette
    \<or> (ap_state a' = StateHelp \<and> Modal_Visible (ap_modal a') \<and> ap_prevState a' = StateCommandPalette)"
  using palette_key_locks [OF assms(1-3)] assms(4) by (auto simp: list_all_iff locked_def)

theorem palette_locks_navigation_witness:
  "(\<exists>a cs. App_run demo_input demo_viewport [KeyMsg '':'', KeyMsg ''esc''] (App_New demo_input demo_viewport Config_Default True) = Some (a, cs)
      \<and> \<not> Palette_Visible (ap_palette a) \<and> ap_state a = StateCommandPalette)
   \<and> (\<exists>a cs. App_run demo_input demo_viewport [KeyMsg '':'', KeyMsg ''esc'', DataMsg zero_batch, KeyMsg ''enter'', KeyMsg ''tab'']
        (App_New demo_input demo_viewport Config_Default True) = Some (a, cs) \<and> ap_state a \<noteq> StateDashboard)"
proof -
  let ?new = "App_New demo_input demo_viewport Config_Default True" and ?run = "App_run demo_input demo_viewport"
  let ?more = "[KeyMsg ''esc'', DataMsg zero_batch, KeyMsg ''enter'', KeyMsg ''tab'']"
  have n: "\<not> Palette_Visible (ap_palette ?new)" "\<not> Modal_Visible (ap_modal ?new)"
    by (simp_all add: App_New_def Let_def Palette_New_def palette_filter_def Palette_Visible_def Modal_New_def Modal_Visible_def)
  obtain b ds where s: "?run (KeyMsg '':'' # ?more) ?new = Some (b, ds)"
    using App_run_safe [OF app_ok_New, where ms = "KeyMsg '':'' # ?more"] by (force simp: batch_named_def zero_batch_def simp del: App_run.simps)
  let ?a1 = "?new\<lparr>ap_state := StateCommandPalette, ap_palette := Palette_Show demo_input (ap_palette ?new)\<rparr>"
  have k: "App_Update demo_input demo_viewport (KeyMsg '':'') ?new = Some (?a1, None)"
    using n by (simp add: handleKey_def global_key_def)
  have v: "pa_visible (Palette_Show demo_input p)" for p
    by (simp add: Palette_Show_def palette_filter_def Let_def)
  then have "App_Update demo_input demo_viewport (KeyMsg ''esc'') ?a1 = Some (?a1\<lparr>ap_palette := Palette_Hide demo_input (ap_palette ?a1)\<rparr>, None)"
    by (simp add: handleKey_def Palette_Visible_def Palette_Update_def)
  then obtain a cs where r: "?run [KeyMsg '':'', KeyMsg ''esc''] ?new = Some (a, cs)" "\<not> Palette_Visible (ap_palette a)" "\<not> Modal_Visible (ap_modal a)"
    using k n(2) by (simp add: Palette_Visible_def Palette_Hide_def)
  show ?thesis
    using palette_locks_navigation [OF n r(1)] palette_locks_navigation [OF n s] r s by (auto simp del: App_run.simps)
qed

text \<open>
  C33: every batch of data the terminal gets makes it ask for exactly one more, after its
  interval, and every render tick for exactly one more tick, so one collection and one tick are
  under way at any time; and it counts the batches and events.
\<close>

theorem one_collection_in_flight:
  assumes "library_cmds T V" "App_run T V ms (App_New T V cfg demo) = Some (a, cs)"
  shows "length (filter is_collect (App_Init (App_New T V cfg demo) @ cs)) = length (filter is_data ms) + 1
    \<and> length (filter is_tick (App_Init (App_New T V cfg demo) @ cs)) = length (filter is_render ms) + 1
    \<and> ap_batchCount a = int (length (filter is_data ms)) \<and> ap_eventCount a = sum_list (map batch_events ms)"
  using App_run_cmds [OF assms(1) palette_commands_New assms(2)] by (simp add: App_Init_def App_New_def Let_def)

theorem one_collection_in_flight_witness:
  "\<exists>a cs. App_run demo_input demo_viewport [DataMsg zero_batch, RenderTickMsg, DataMsg zero_batch] (App_New demo_input demo_viewport Config_Default True) = Some (a, cs)
     \<and> length (filter is_collect (App_Init (App_New demo_input demo_viewport Config_Default True) @ cs)) = 3 \<and> ap_batchCount a = 2"
proof -
  obtain a cs where r: "App_run demo_input demo_viewport [DataMsg zero_batch, RenderTickMsg, DataMsg zero_batch] (App_New demo_input demo_viewport Config_Default True) = Some (a, cs)"
    using App_run_safe [OF app_ok_New, where ms = "[DataMsg zero_batch, RenderTickMsg, DataMsg zero_batch]"]
    by (force simp: batch_named_def zero_batch_def simp del: App_run.simps)
  from one_collection_in_flight [OF demo_library_cmds r] r show ?thesis by (auto simp del: App_run.simps)
qed

text \<open>
  C31: from its start, whatever safe messages come and whenever the runtime draws in between, no
  message and no drawing stops the terminal with a panic, and every drawing gives a screen, as
  long as the sizes the terminal reports are not negative and no letter is typed whose lower case
  is shorter (the Kelvin sign crashes the palette); afterwards only the key \<open>S\<close> crashes it.
\<close>

theorem screen_is_drawn:
  assumes "typed_plain T" "\<forall>e \<in> set es. event_safe e"
  shows "\<exists>screens a. Screen_run D T V es (App_New T V cfg demo) = Some (screens, a)
    \<and> length screens = length (filter is_Draw es) \<and> (\<forall>k. App_Update T V (KeyMsg k) a = None \<longrightarrow> k = ''S'')"
proof -
  obtain screens a where r: "Screen_run D T V es (App_New T V cfg demo) = Some (screens, a)" "app_ok a"
    using Screen_run_safe [OF assms(1) app_ok_New screen_sized_New assms(2)] by blast
  then have "App_Update T V (KeyMsg k) a = None \<longrightarrow> k = ''S''" for k using App_Update_crash [OF r(2)] by auto
  then show ?thesis using r(1) Screen_run_length by blast
qed

theorem screen_is_drawn_witness:
  "\<exists>screens a. Screen_run demo_drawing demo_field demo_pager [Draw 1, Got (WindowSizeMsg 80 24), Got (DataMsg zero_batch), Draw 2, Got (KeyMsg ''tab''), Draw 3]
     (App_New demo_field demo_pager Config_Default True) = Some (screens, a) \<and> length screens = 3"
proof -
  let ?es = "[Draw 1, Got (WindowSizeMsg 80 24), Got (DataMsg zero_batch), Draw 2, Got (KeyMsg ''tab''), Draw 3]"
  have "\<forall>e \<in> set ?es. event_safe e" by (simp add: batch_named_def zero_batch_def)
  from screen_is_drawn [OF demo_typed_plain this, of demo_drawing demo_pager Config_Default True] show ?thesis by (auto simp del: Screen_run.simps)
qed

lemma App_View_state: "App_View D T V now a = Some (s, a') \<Longrightarrow> ap_state a' = ap_state a"
  by (auto simp: App_View_def screen_content_def set_active_def Let_def Option.bind_eq_Some_conv split: if_splits AppState.splits)

text \<open>
  C32: the caches of the views hide nothing. After any run of keys, data, resizes, theme changes and
  drawings the screen is the one that would be drawn with every cache dropped, unless the tab
  with the graphs is shown.
\<close>

theorem screen_is_current:
  assumes "viewport_laws D V" "\<forall>e \<in> set es. event_native e"
    and "Screen_run D T V es (App_New T V cfg demo) = Some (screens, a)" "\<not> graphs_shown a"
  shows "map_option fst (App_View D T V now a) = map_option fst (App_View D T V now (drop_caches a))"
  using view_drop [OF screen_current_run [OF assms(1) screen_current_New assms(2,3)] assms(4)] by simp

theorem screen_is_current_witness:
  "\<exists>screens a. Screen_run demo_drawing demo_field demo_pager
       [Got (WindowSizeMsg 80 24), Got (DataMsg zero_batch), Draw 1, Got (NavDetailMsg ''web''), Draw 2, Got (ThemeChangedMsg ''nord'')]
       (App_New demo_field demo_pager Config_Default True) = Some (screens, a) \<and> ap_state a = StateDetail
     \<and> map_option fst (App_View demo_drawing demo_field demo_pager 3 a) = map_option fst (App_View demo_drawing demo_field demo_pager 3 (drop_caches a))"
proof -
  let ?es = "[Got (WindowSizeMsg 80 24), Got (DataMsg zero_batch), Draw 1, Got (NavDetailMsg ''web''), Draw 2, Got (ThemeChangedMsg ''nord'')]"
  have "\<forall>e \<in> set ?es. event_safe e" by (simp add: batch_named_def zero_batch_def)
  then obtain screens a where r: "Screen_run demo_drawing demo_field demo_pager ?es (App_New demo_field demo_pager Config_Default True) = Some (screens, a)"
    using Screen_run_safe [OF demo_typed_plain app_ok_New screen_sized_New] by blast
  then have d: "ap_state a = StateDetail"
    by (auto simp: Option.bind_eq_Some_conv apfst_def map_prod_def nav_detail_def applyTheme_def Let_def dest!: App_View_state)
  then have "\<not> graphs_shown a" by (simp add: graphs_shown_def)
  with r d show ?thesis using screen_is_current [OF demo_viewport_laws _ r, of 3] by (auto simp del: Screen_run.simps)
qed

end
